(* ===== verification/Prelude.thy ===== *)
theory Prelude
  imports Complex_Main "HOL-Library.List_Lexorder" "HOL-Library.Char_ord" "HOL-Library.Sublist" "HOL-Library.AList" "HOL-Library.Multiset"
begin

text \<open>
  Shared vocabulary of the development: the Python exceptions the modelled programs raise, the
  string methods they call, and the lemma collections and small list lemmas every component uses.
  A Python \<open>str\<close> is a \<^typ>\<open>string\<close> of ASCII characters (one \<open>char\<close> per code point); a
  Python \<open>dict\<close> is an association list in insertion order, read with \<open>map_of\<close> and written with
  \<open>AList.update\<close>, which keeps the position of a key that is already there, as CPython does.
\<close>

section \<open>Exceptions\<close>

datatype errno = ENOENT | EACCES | EPERM | EEXIST | ELOOP | EIO | ENOTDIR | EISDIR | NoErrno

text \<open>
  \<open>CalledProcessError rc stderr\<close> and \<open>TimeoutExpired\<close> come from \<open>subprocess\<close>; \<open>OSError\<close>
  carries the error code that tells \<open>FileNotFoundError\<close> and \<open>PermissionError\<close> apart. \<open>BadValue\<close> is a
  \<open>ValueError\<close> that the program raises itself, with its message.
\<close>

datatype exc =
    CalledProcessError int string
  | TimeoutExpired
  | OSError errno
  | ValueError
  | KeyError
  | IndexError
  | AttributeError
  | TypeError
  | RuntimeError string
  | SyncError string
  | SystemExit int
  | BadValue string

definition is_CalledProcessError :: "exc \<Rightarrow> bool" where
  "is_CalledProcessError e = (case e of CalledProcessError _ _ \<Rightarrow> True | _ \<Rightarrow> False)"

definition is_OSError :: "exc \<Rightarrow> bool" where
  "is_OSError e = (case e of OSError _ \<Rightarrow> True | _ \<Rightarrow> False)"

text \<open>\<open>except Exception\<close> catches everything but \<open>SystemExit\<close>.\<close>

definition is_Exception :: "exc \<Rightarrow> bool" where
  "is_Exception e = (case e of SystemExit _ \<Rightarrow> False | _ \<Rightarrow> True)"

lemma is_exc_simps [simp]:
  "is_CalledProcessError (CalledProcessError rc err)"
  "\<not> is_CalledProcessError TimeoutExpired"
  "is_OSError (OSError n)"
  "is_Exception (CalledProcessError rc err)"
  "is_Exception TimeoutExpired"
  "is_Exception (OSError n)"
  "\<not> is_Exception (SystemExit c)"
  "is_Exception ValueError" "is_Exception KeyError" "is_Exception IndexError"
  "is_Exception AttributeError" "is_Exception TypeError" "is_Exception (RuntimeError msg)"
  "is_Exception (SyncError msg)" "is_Exception (BadValue msg)"
  by (simp_all add: is_CalledProcessError_def is_OSError_def is_Exception_def)

section \<open>Python string methods\<close>

definition is_space :: "char \<Rightarrow> bool" where
  "is_space c = (let n = of_char c :: nat in (9 \<le> n \<and> n \<le> 13) \<or> (28 \<le> n \<and> n \<le> 32))"

definition is_digit :: "char \<Rightarrow> bool" where
  "is_digit c = (let n = of_char c :: nat in 48 \<le> n \<and> n \<le> 57)"

definition is_alpha :: "char \<Rightarrow> bool" where
  "is_alpha c = (let n = of_char c :: nat in (65 \<le> n \<and> n \<le> 90) \<or> (97 \<le> n \<and> n \<le> 122))"

text \<open>The class \<open>\w\<close> of \<open>re\<close>.\<close>

definition is_word :: "char \<Rightarrow> bool" where
  "is_word c = (is_alpha c \<or> is_digit c \<or> c = CHR ''_'')"

definition lower_char :: "char \<Rightarrow> char" where
  "lower_char c =
     (let n = of_char c :: nat in if 65 \<le> n \<and> n \<le> 90 then char_of (n + 32) else c)"

definition upper_char :: "char \<Rightarrow> char" where
  "upper_char c =
     (let n = of_char c :: nat in if 97 \<le> n \<and> n \<le> 122 then char_of (n - 32) else c)"

definition lower :: "string \<Rightarrow> string" where
  "lower s = map lower_char s"

definition upper :: "string \<Rightarrow> string" where
  "upper s = map upper_char s"

definition lstrip :: "string \<Rightarrow> string" where
  "lstrip s = dropWhile is_space s"

definition rstrip :: "string \<Rightarrow> string" where
  "rstrip s = rev (dropWhile is_space (rev s))"

definition strip :: "string \<Rightarrow> string" where
  "strip s = rstrip (lstrip s)"

definition startswith :: "string \<Rightarrow> string \<Rightarrow> bool" where
  "startswith s p = prefix p s"

definition endswith :: "string \<Rightarrow> string \<Rightarrow> bool" where
  "endswith s p = suffix p s"

text \<open>\<open>sep.join(xs)\<close>.\<close>

fun join :: "string \<Rightarrow> string list \<Rightarrow> string" where
  "join sep [] = []"
| "join sep [x] = x"
| "join sep (x # y # ys) = x @ sep @ join sep (y # ys)"

text \<open>\<open>s.split(c)\<close> for a one-character separator: always at least one field.\<close>

fun split_on :: "char \<Rightarrow> string \<Rightarrow> string list" where
  "split_on c [] = [[]]"
| "split_on c (x # xs) =
     (if x = c then [] # split_on c xs
      else case split_on c xs of [] \<Rightarrow> [[x]] | y # ys \<Rightarrow> (x # y) # ys)"

text \<open>\<open>s.split()\<close>: the maximal runs of non-space characters.\<close>

fun words_acc :: "string \<Rightarrow> string \<Rightarrow> string list" where
  "words_acc acc [] = (if acc = [] then [] else [rev acc])"
| "words_acc acc (x # xs) =
     (if is_space x then (if acc = [] then words_acc [] xs else rev acc # words_acc [] xs)
      else words_acc (x # acc) xs)"

definition split_ws :: "string \<Rightarrow> string list" where
  "split_ws s = words_acc [] s"

text \<open>
  \<open>s.splitlines()\<close>: a final line break does not open an empty last line, and \<open>\r\n\<close> is one break.
\<close>

definition is_break :: "char \<Rightarrow> bool" where
  "is_break c = (let n = of_char c :: nat in (10 \<le> n \<and> n \<le> 13) \<or> (28 \<le> n \<and> n \<le> 30))"

fun lines_acc :: "string \<Rightarrow> string \<Rightarrow> string list" where
  "lines_acc acc [] = (if acc = [] then [] else [rev acc])"
| "lines_acc acc (x # xs) =
     (if is_break x
      then rev acc # (case xs of [] \<Rightarrow> []
                      | y # ys \<Rightarrow> if of_char x = (13::nat) \<and> of_char y = (10::nat)
                                 then lines_acc [] ys else lines_acc [] (y # ys))
      else lines_acc (x # acc) xs)"

definition splitlines :: "string \<Rightarrow> string list" where
  "splitlines s = lines_acc [] s"

text \<open>\<open>s.partition(c)\<close> for one character: before, whether the separator was found, after.\<close>

definition partition_on :: "char \<Rightarrow> string \<Rightarrow> string \<times> bool \<times> string" where
  "partition_on c s =
     (case dropWhile (\<lambda>x. x \<noteq> c) s of
        [] \<Rightarrow> (s, False, [])
      | _ # r \<Rightarrow> (takeWhile (\<lambda>x. x \<noteq> c) s, True, r))"

text \<open>\<open>sub in s\<close>.\<close>

definition contains :: "string \<Rightarrow> string \<Rightarrow> bool" where
  "contains s p = sublist p s"

text \<open>\<open>str(n)\<close> for a natural number.\<close>

fun str_nat :: "nat \<Rightarrow> string" where
  "str_nat n = (if n < 10 then [char_of (48 + n)] else str_nat (n div 10) @ [char_of (48 + n mod 10)])"

declare str_nat.simps [simp del]

text \<open>\<open>int(s)\<close> of an ASCII text: blanks around it, a sign, digits.\<close>

definition nat_of_digits :: "string \<Rightarrow> nat" where
  "nat_of_digits s = foldl (\<lambda>n c. 10 * n + (of_char c - 48)) 0 s"

definition int_of_string :: "string \<Rightarrow> int option" where
  "int_of_string s =
     (let t = strip s; d = (if startswith t ''-'' \<or> startswith t ''+'' then tl t else t) in
      if d = [] \<or> \<not> list_all is_digit d then None
      else Some (if startswith t ''-'' then - int (nat_of_digits d) else int (nat_of_digits d)))"

text \<open>\<open>str(n)\<close> for an integer.\<close>

definition str_int :: "int \<Rightarrow> string" where
  "str_int i = (if i < 0 then CHR ''-'' # str_nat (nat (- i)) else str_nat (nat i))"

section \<open>Numbers as text\<close>

lemma of_char_digit [simp]: "d < 10 \<Longrightarrow> of_char (char_of (48 + d) :: char) = 48 + (d :: nat)"
  by (simp add: of_char_of)

lemma is_digit_char [simp]: "d < 10 \<Longrightarrow> is_digit (char_of (48 + d :: nat))"
  by (simp add: is_digit_def Let_def)

lemma str_nat_digits: "list_all is_digit (str_nat n)" and str_nat_not_Nil [simp]: "str_nat n \<noteq> []"
proof -
  show "list_all is_digit (str_nat n)"
    by (induction n rule: str_nat.induct) (subst str_nat.simps, simp)
  show "str_nat n \<noteq> []" by (subst str_nat.simps) simp
qed

lemma nat_of_digits_snoc: "nat_of_digits (s @ [c]) = 10 * nat_of_digits s + (of_char c - 48)"
  by (simp add: nat_of_digits_def)

lemma nat_of_digits_str_nat [simp]: "nat_of_digits (str_nat n) = n"
proof (induction n rule: str_nat.induct)
  case (1 n)
  show ?case
  proof (cases "n < 10")
    case True
    then show ?thesis by (subst str_nat.simps) (simp add: nat_of_digits_def)
  next
    case False
    then show ?thesis using 1 by (subst str_nat.simps) (simp add: nat_of_digits_snoc)
  qed
qed

lemma digit_not_special:
  "is_digit c \<Longrightarrow> c \<noteq> CHR ''-'' \<and> c \<noteq> CHR ''+'' \<and> c \<noteq> CHR ''.'' \<and> \<not> is_space c \<and> \<not> is_break c"
  by (auto simp: is_digit_def is_space_def is_break_def Let_def)

lemma str_nat_clean: "c \<in> set (str_nat n) \<Longrightarrow> is_digit c"
  using str_nat_digits by (auto simp: list_all_iff)

lemma strip_digits: "list_all (\<lambda>c. \<not> is_space c) s \<Longrightarrow> strip s = s"
proof -
  assume s: "list_all (\<lambda>c. \<not> is_space c) s"
  have "dropWhile is_space xs = xs" if "list_all (\<lambda>c. \<not> is_space c) xs" for xs using that by (cases xs) auto
  from this[OF s] this[of "rev s"] s show ?thesis by (simp add: strip_def lstrip_def rstrip_def list_all_iff)
qed

lemma int_of_str_nat: "int_of_string (str_nat n) = Some (int n)"
proof -
  obtain c s where s: "str_nat n = c # s" by (cases "str_nat n") auto
  have c: "is_digit c" using str_nat_clean[of c n] s by simp
  then have "\<not> startswith (str_nat n) ''-''" "\<not> startswith (str_nat n) ''+''"
    using digit_not_special[of c] by (auto simp: startswith_def s)
  moreover have "strip (str_nat n) = str_nat n"
    using str_nat_clean digit_not_special by (intro strip_digits) (simp add: list_all_iff)
  ultimately show ?thesis using str_nat_digits[of n] by (simp add: int_of_string_def Let_def)
qed

lemma int_of_str_int: "int_of_string (str_int i) = Some i"
proof (cases "i < 0")
  case True
  define n where "n = nat (- i)"
  have s: "str_int i = CHR ''-'' # str_nat n" using True by (simp add: str_int_def n_def)
  have "strip (CHR ''-'' # str_nat n) = CHR ''-'' # str_nat n"
    using str_nat_clean digit_not_special by (intro strip_digits) (auto simp: list_all_iff is_space_def)
  then show ?thesis
    using True str_nat_digits[of n] by (simp add: s int_of_string_def Let_def startswith_def n_def)
qed (simp add: str_int_def int_of_str_nat)

section \<open>Dictionaries\<close>

definition dict_get :: "('k \<times> 'v) list \<Rightarrow> 'k \<Rightarrow> 'v option" where
  "dict_get d k = map_of d k"

definition dict_set :: "'k \<Rightarrow> 'v \<Rightarrow> ('k \<times> 'v) list \<Rightarrow> ('k \<times> 'v) list" where
  "dict_set k v d = AList.update k v d"

definition dict_keys :: "('k \<times> 'v) list \<Rightarrow> 'k list" where
  "dict_keys d = map fst d"

lemma dict_get_set [simp]:
  "dict_get (dict_set k v d) k' = (if k' = k then Some v else dict_get d k')"
  by (simp add: dict_get_def dict_set_def update_conv')

lemma dict_get_Nil [simp]: "dict_get [] k = None"
  by (simp add: dict_get_def)

lemma set_dict_keys_set [simp]: "set (dict_keys (dict_set k v d)) = insert k (set (dict_keys d))"
  unfolding dict_keys_def dict_set_def by (induction d) auto

lemma distinct_dict_keys_set [simp]:
  "distinct (dict_keys d) \<Longrightarrow> distinct (dict_keys (dict_set k v d))"
  by (simp add: dict_keys_def dict_set_def distinct_update)

lemma dict_get_eq_None [simp]: "dict_get d k = None \<longleftrightarrow> k \<notin> set (dict_keys d)"
  by (simp add: dict_get_def dict_keys_def map_of_eq_None_iff)

lemma dict_get_Cons [simp]:
  "dict_get ((k, v) # d) k' = (if k' = k then Some v else dict_get d k')"
  by (simp add: dict_get_def)

lemma dict_keys_simps [simp]: "dict_keys [] = []" "dict_keys (x # d) = fst x # dict_keys d"
  by (simp_all add: dict_keys_def)

lemma dict_mem_iff: "k \<in> set (dict_keys d) \<longleftrightarrow> (\<exists>v. dict_get d k = Some v)"
  using dict_get_eq_None[of d k] by (cases "dict_get d k") auto

lemma dict_get_SomeD: "dict_get d k = Some v \<Longrightarrow> (k, v) \<in> set d"
  by (simp add: dict_get_def map_of_SomeD)

section \<open>Shared list lemmas\<close>

lemma startswith_append [simp]: "startswith (p @ s) p"
  by (simp add: startswith_def)

text \<open>Sorting by a key does not look at the rest of an element.\<close>

lemma insort_key_map: "insort_key k (g x) (map g xs) = map g (insort_key (\<lambda>y. k (g y)) x xs)"
  by (induction xs) auto

lemma sort_key_map: "sort_key k (map g xs) = map g (sort_key (\<lambda>y. k (g y)) xs)"
  by (induction xs) (simp_all add: insort_key_map)

lemma map_sort_key_eq:
  assumes "map (\<lambda>x. (k x, g x)) xs = map (\<lambda>x. (k x, g x)) ys"
  shows "map g (sort_key k xs) = map g (sort_key k ys)"
proof -
  have "map g (sort_key k zs) = map snd (sort_key fst (map (\<lambda>x. (k x, g x)) zs))" for zs
    by (simp add: sort_key_map)
  with assms show ?thesis by metis
qed

lemma sort_key_mset_eq:
  assumes "mset xs = mset ys" and "distinct (map k xs)"
  shows "sort_key k xs = sort_key k ys"
proof (rule sort_key_inj_key_eq)
  show "mset xs = mset (sort_key k ys)" using assms(1) by simp
  show "inj_on k (set xs)" using assms(2) by (simp add: distinct_map)
qed simp

end
