(* ===== verification/Effects.thy ===== *)
theory Effects
  imports Prelude
begin

text \<open>
  Programs with effects. A statement of the source is a function from the state to an outcome and
  the next state; an exception is an outcome, and so is \<open>Halt\<close>: no further step is taken (the
  process was killed, or a loop's fuel ran out), which no handler can catch.

  Two ways to reason about such programs are set up once, for every component. \<open>yields m Q\<close> says
  what a normal result satisfies. The locale \<open>frame\<close> takes a preorder on states (the log
  only grows by allowed calls, no group loses a member, no file loses its contents) and proves that
  programs built from steps that respect it respect it too; each component interprets it on its own
  state.
\<close>

section \<open>Outcomes and statements\<close>

datatype 'a res = Ok 'a | Exc exc | Halt

type_synonym ('s, 'a) eff = "'s \<Rightarrow> 'a res \<times> 's"

definition retE :: "'a \<Rightarrow> ('s, 'a) eff" where
  "retE x s = (Ok x, s)"

definition raiseE :: "exc \<Rightarrow> ('s, 'a) eff" where
  "raiseE e s = (Exc e, s)"

definition haltE :: "('s, 'a) eff" where
  "haltE s = (Halt, s)"

definition bindE :: "('s, 'a) eff \<Rightarrow> ('a \<Rightarrow> ('s, 'b) eff) \<Rightarrow> ('s, 'b) eff" where
  "bindE m f s =
     (case m s of (Ok x, t) \<Rightarrow> f x t | (Exc e, t) \<Rightarrow> (Exc e, t) | (Halt, t) \<Rightarrow> (Halt, t))"

text \<open>\<open>try: m except E as e: h e\<close>, for the exceptions \<open>c\<close> that the clause names.\<close>

definition catchE :: "('s, 'a) eff \<Rightarrow> (exc \<Rightarrow> bool) \<Rightarrow> (exc \<Rightarrow> ('s, 'a) eff) \<Rightarrow> ('s, 'a) eff" where
  "catchE m c h s =
     (case m s of (Ok x, t) \<Rightarrow> (Ok x, t)
      | (Exc e, t) \<Rightarrow> (if c e then h e t else (Exc e, t))
      | (Halt, t) \<Rightarrow> (Halt, t))"

definition getE :: "('s \<Rightarrow> 'a) \<Rightarrow> ('s, 'a) eff" where
  "getE f s = (Ok (f s), s)"

definition modE :: "('s \<Rightarrow> 's) \<Rightarrow> ('s, unit) eff" where
  "modE f s = (Ok (), f s)"

definition liftE :: "'a res \<Rightarrow> ('s, 'a) eff" where
  "liftE r s = (r, s)"

text \<open>\<open>for x in xs: body\<close>, a comprehension, and a comprehension's \<open>if\<close>.\<close>

primrec forE :: "'x list \<Rightarrow> ('x \<Rightarrow> ('s, unit) eff) \<Rightarrow> ('s, unit) eff" where
  "forE [] f = retE ()"
| "forE (x # xs) f = bindE (f x) (\<lambda>_. forE xs f)"

primrec mapE :: "('x \<Rightarrow> ('s, 'y) eff) \<Rightarrow> 'x list \<Rightarrow> ('s, 'y list) eff" where
  "mapE f [] = retE []"
| "mapE f (x # xs) = bindE (f x) (\<lambda>y. bindE (mapE f xs) (\<lambda>ys. retE (y # ys)))"

primrec filterE :: "('x \<Rightarrow> ('s, bool) eff) \<Rightarrow> 'x list \<Rightarrow> ('s, 'x list) eff" where
  "filterE f [] = retE []"
| "filterE f (x # xs) =
     bindE (f x) (\<lambda>b. bindE (filterE f xs) (\<lambda>ys. retE (if b then x # ys else ys)))"

text \<open>A loop that accumulates, left to right.\<close>

primrec foldE :: "('a \<Rightarrow> 'x \<Rightarrow> ('s, 'a) eff) \<Rightarrow> 'a \<Rightarrow> 'x list \<Rightarrow> ('s, 'a) eff" where
  "foldE f a [] = retE a"
| "foldE f a (x # xs) = bindE (f a x) (\<lambda>b. foldE f b xs)"

text \<open>\<open>any(f(x) for x in xs)\<close>: stops at the first true element.\<close>

primrec anyE :: "('x \<Rightarrow> ('s, bool) eff) \<Rightarrow> 'x list \<Rightarrow> ('s, bool) eff" where
  "anyE f [] = retE False"
| "anyE f (x # xs) = bindE (f x) (\<lambda>b. if b then retE True else anyE f xs)"

section \<open>Evaluation\<close>

lemmas eff_defs = retE_def raiseE_def haltE_def bindE_def catchE_def getE_def modE_def liftE_def

lemma bindE_Ok_iff:
  "bindE m f s = (Ok y, u) \<longleftrightarrow> (\<exists>x t. m s = (Ok x, t) \<and> f x t = (Ok y, u))"
  by (auto simp: bindE_def split: prod.splits res.splits)

lemma bindE_Halt_iff:
  "bindE m f s = (Halt, u) \<longleftrightarrow> m s = (Halt, u) \<or> (\<exists>x t. m s = (Ok x, t) \<and> f x t = (Halt, u))"
  by (auto simp: bindE_def split: prod.splits res.splits)

lemma bindE_fst_Halt:
  "fst (bindE m f s) = Halt \<longleftrightarrow>
     fst (m s) = Halt \<or> (\<exists>x t. m s = (Ok x, t) \<and> fst (f x t) = Halt)"
  by (auto simp: bindE_def split: prod.splits res.splits)

lemma retE_Ok_iff [simp]: "retE x s = (Ok y, u) \<longleftrightarrow> y = x \<and> u = s"
  by (auto simp: retE_def)

lemma retE_fst_snd [simp]: "fst (retE x s) = Ok x" "snd (retE x s) = s"
  by (simp_all add: retE_def)

lemma raiseE_Ok [simp]: "raiseE e s \<noteq> (Ok y, u)" "fst (raiseE e s) = Exc e" "snd (raiseE e s) = s"
  by (simp_all add: raiseE_def)

lemma bind_retE [simp]: "bindE (retE x) f = f x"
  by (simp add: bindE_def retE_def fun_eq_iff)

lemma bindE_raiseE [simp]: "bindE (raiseE e) f = raiseE e"
  by (simp add: bindE_def raiseE_def fun_eq_iff)

lemma liftE_Ok [simp]: "liftE (Ok x) = retE x"
  by (simp add: liftE_def retE_def fun_eq_iff)

lemma bindE_assoc: "bindE (bindE m f) g = bindE m (\<lambda>x. bindE (f x) g)"
  by (auto simp: bindE_def fun_eq_iff split: prod.splits res.splits)

section \<open>What a normal result satisfies\<close>

definition yields :: "('s, 'a) eff \<Rightarrow> ('a \<Rightarrow> bool) \<Rightarrow> bool" where
  "yields m Q \<longleftrightarrow> (\<forall>s x t. m s = (Ok x, t) \<longrightarrow> Q x)"

named_theorems yields_intros

lemma yieldsD: "yields m Q \<Longrightarrow> m s = (Ok x, t) \<Longrightarrow> Q x"
  by (auto simp: yields_def)

lemma yields_conseq: "yields m P \<Longrightarrow> (\<And>x. P x \<Longrightarrow> Q x) \<Longrightarrow> yields m Q"
  by (auto simp: yields_def)

lemma yields_True [simp, intro]: "yields m (\<lambda>_. True)"
  by (simp add: yields_def)

lemma yields_ret [yields_intros]: "Q x \<Longrightarrow> yields (retE x) Q"
  by (simp add: yields_def)

lemma yields_raise [yields_intros]: "yields (raiseE e) Q"
  by (simp add: yields_def)

lemma yields_halt [yields_intros]: "yields haltE Q"
  by (simp add: yields_def haltE_def)

lemma yields_bindP:
  "yields m P \<Longrightarrow> (\<And>x. P x \<Longrightarrow> yields (f x) Q) \<Longrightarrow> yields (bindE m f) Q"
  unfolding yields_def bindE_Ok_iff by blast

lemma yields_bind [yields_intros]: "(\<And>x. yields (f x) Q) \<Longrightarrow> yields (bindE m f) Q"
  by (auto simp: yields_def bindE_Ok_iff)

lemma yields_catch [yields_intros]:
  "yields m Q \<Longrightarrow> (\<And>e. yields (h e) Q) \<Longrightarrow> yields (catchE m c h) Q"
  by (auto simp: yields_def catchE_def split: prod.splits res.splits if_splits)

lemma yields_if [yields_intros]:
  "(b \<Longrightarrow> yields m Q) \<Longrightarrow> (\<not> b \<Longrightarrow> yields n Q) \<Longrightarrow> yields (if b then m else n) Q"
  by simp

lemma yields_mapE: "(\<And>x. x \<in> set xs \<Longrightarrow> yields (f x) (Q x)) \<Longrightarrow> yields (mapE f xs) (list_all2 Q xs)"
proof (induction xs)
  case Nil
  show ?case by (simp add: yields_ret)
next
  case (Cons x xs)
  have "yields (f x) (Q x)" and "yields (mapE f xs) (list_all2 Q xs)"
    using Cons by auto
  then show ?case
    by (auto intro!: yields_bindP[where P = "Q x"] yields_bindP[where P = "list_all2 Q xs"] yields_ret)
qed

lemma yields_filterE: "yields (filterE f xs) (\<lambda>ys. set ys \<subseteq> set xs)"
proof (induction xs)
  case Nil
  show ?case by (simp add: yields_ret)
next
  case (Cons x xs)
  show ?case
    by (auto intro!: yields_bind yields_bindP[OF Cons.IH] yields_ret split: if_splits)
qed

lemma yields_foldE:
  assumes "\<And>ps x acc. Inv ps acc \<Longrightarrow> yields (f acc x) (Inv (ps @ [x]))" and "Inv ps a"
  shows "yields (foldE f a xs) (Inv (ps @ xs))"
  using assms(2)
proof (induction xs arbitrary: ps a)
  case Nil
  then show ?case by (simp add: yields_ret)
next
  case (Cons x xs)
  show ?case
    using Cons.IH[of "ps @ [x]"] by (auto intro: yields_bindP[OF assms(1)[OF Cons.prems]])
qed


section \<open>Programs that come to an end\<close>

definition returns :: "('s, 'a) eff \<Rightarrow> bool" where
  "returns m \<longleftrightarrow> (\<forall>s. fst (m s) \<noteq> Halt)"

named_theorems returns_intros

lemma returns_basic [returns_intros]:
  "returns (retE x)" "returns (raiseE e)" "returns (getE f)" "returns (modE g)"
  by (simp_all add: returns_def eff_defs)

lemma returns_lift: "r \<noteq> Halt \<Longrightarrow> returns (liftE r)"
  by (simp add: returns_def liftE_def)

lemma returns_bind [returns_intros]:
  "returns m \<Longrightarrow> (\<And>x. returns (f x)) \<Longrightarrow> returns (bindE m f)"
  unfolding returns_def bindE_fst_Halt by blast

lemma returns_catch [returns_intros]:
  "returns m \<Longrightarrow> (\<And>e. returns (h e)) \<Longrightarrow> returns (catchE m c h)"
  unfolding returns_def catchE_def
  by (auto split: prod.splits res.splits) (metis fst_conv)+

lemma returns_if [returns_intros]:
  "(b \<Longrightarrow> returns m) \<Longrightarrow> (\<not> b \<Longrightarrow> returns n) \<Longrightarrow> returns (if b then m else n)"
  by simp

lemma returns_loops [returns_intros]:
  "(\<And>x. returns (f x)) \<Longrightarrow> returns (forE xs f)"
  "(\<And>x. returns (g x)) \<Longrightarrow> returns (mapE g xs)"
  "(\<And>x. returns (h x)) \<Longrightarrow> returns (filterE h xs)"
  "(\<And>x. returns (h x)) \<Longrightarrow> returns (anyE h xs)"
  by (induction xs) (auto intro!: returns_intros)

lemma returns_foldE [returns_intros]: "(\<And>a x. returns (k a x)) \<Longrightarrow> returns (foldE k a xs)"
  by (induction xs arbitrary: a) (auto intro!: returns_intros)

section \<open>Programs whose failures are known\<close>

text \<open>\<open>ends P m\<close>: \<open>m\<close> comes to an end, and raises only exceptions that satisfy \<open>P\<close>.\<close>

definition ends :: "(exc \<Rightarrow> bool) \<Rightarrow> ('s, 'a) eff \<Rightarrow> bool" where
  "ends P m \<longleftrightarrow> (\<forall>s. case fst (m s) of Ok _ \<Rightarrow> True | Exc e \<Rightarrow> P e | Halt \<Rightarrow> False)"

named_theorems ends_intros

lemma endsD: "ends P m \<Longrightarrow> m s = (Exc e, t) \<Longrightarrow> P e" "ends P m \<Longrightarrow> m s \<noteq> (Halt, t)"
  by (auto simp: ends_def dest!: spec[of _ s])

lemma ends_Ok: "ends (\<lambda>_. False) m \<Longrightarrow> \<exists>x t. m s = (Ok x, t)"
  by (cases "m s"; cases "fst (m s)") (auto simp: ends_def dest!: spec[of _ s])

lemma ends_basic [ends_intros]: "ends P (retE x)" "ends P (getE f)" "ends P (modE g)"
  by (simp_all add: ends_def eff_defs)

lemma ends_raise [ends_intros]: "P e \<Longrightarrow> ends P (raiseE e)"
  by (simp add: ends_def eff_defs)

lemma ends_bind [ends_intros]:
  assumes "ends P m" and "\<And>x. ends P (f x)"
  shows "ends P (bindE m f)"
  unfolding ends_def
proof
  fix s
  show "case fst (bindE m f s) of Ok _ \<Rightarrow> True | Exc e \<Rightarrow> P e | Halt \<Rightarrow> False"
  proof (cases "m s")
    case (Pair x t)
    show ?thesis
    proof (cases x)
      case (Ok y)
      then show ?thesis using Pair assms(2)[unfolded ends_def, rule_format, of y t] by (simp add: bindE_def)
    qed (use Pair assms(1)[unfolded ends_def, rule_format, of s] in \<open>auto simp: bindE_def\<close>)
  qed
qed

lemma ends_bindP:
  assumes "ends P m" and "yields m Q" and "\<And>x. Q x \<Longrightarrow> ends P (f x)"
  shows "ends P (bindE m f)"
  unfolding ends_def
proof
  fix s
  show "case fst (bindE m f s) of Ok _ \<Rightarrow> True | Exc e \<Rightarrow> P e | Halt \<Rightarrow> False"
  proof (cases "m s")
    case (Pair x t)
    show ?thesis
    proof (cases x)
      case (Ok y)
      then have "Q y" using yieldsD[OF assms(2)] Pair by blast
      then show ?thesis using Ok Pair assms(3)[unfolded ends_def, rule_format, of y t] by (simp add: bindE_def)
    qed (use Pair assms(1)[unfolded ends_def, rule_format, of s] in \<open>auto simp: bindE_def\<close>)
  qed
qed

lemma ends_mono: "ends P m \<Longrightarrow> (\<And>e. P e \<Longrightarrow> Q e) \<Longrightarrow> ends Q m"
  unfolding ends_def by (auto split: res.splits)

lemma ends_catch:
  assumes "ends Q m" and "\<And>e. Q e \<Longrightarrow> c e \<or> P e" and "\<And>e. ends P (h e)"
  shows "ends P (catchE m c h)"
  unfolding ends_def
proof
  fix s
  show "case fst (catchE m c h s) of Ok _ \<Rightarrow> True | Exc e \<Rightarrow> P e | Halt \<Rightarrow> False"
  proof (cases "m s")
    case (Pair x t)
    show ?thesis
    proof (cases x)
      case (Exc e)
      then show ?thesis
        using Pair assms(1)[unfolded ends_def, rule_format, of s] assms(2)[of e]
          assms(3)[unfolded ends_def, rule_format, of e t] by (auto simp: catchE_def)
    qed (use Pair assms(1)[unfolded ends_def, rule_format, of s] in \<open>auto simp: catchE_def\<close>)
  qed
qed

lemma ends_if [ends_intros]:
  "(b \<Longrightarrow> ends P m) \<Longrightarrow> (\<not> b \<Longrightarrow> ends P n) \<Longrightarrow> ends P (if b then m else n)"
  by simp

lemma ends_option:
  "(x = None \<Longrightarrow> ends P a) \<Longrightarrow> (\<And>y. x = Some y \<Longrightarrow> ends P (b y)) \<Longrightarrow> ends P (case x of None \<Rightarrow> a | Some y \<Rightarrow> b y)"
  by (cases x) auto

lemma ends_loops [ends_intros]:
  "(\<And>x. x \<in> set xs \<Longrightarrow> ends P (f x)) \<Longrightarrow> ends P (forE xs f)"
  "(\<And>x. x \<in> set xs \<Longrightarrow> ends P (g x)) \<Longrightarrow> ends P (mapE g xs)"
  by (induction xs) (auto intro!: ends_intros)

lemma ends_foldE [ends_intros]: "(\<And>a x. x \<in> set xs \<Longrightarrow> ends P (k a x)) \<Longrightarrow> ends P (foldE k a xs)"
  by (induction xs arbitrary: a) (auto intro!: ends_intros)

section \<open>Programs that respect a preorder on states\<close>

definition keeps :: "('s \<Rightarrow> 's \<Rightarrow> bool) \<Rightarrow> ('s, 'a) eff \<Rightarrow> bool" where
  "keeps R m \<longleftrightarrow> (\<forall>s. R s (snd (m s)))"

lemma keepsD: "keeps R m \<Longrightarrow> m s = (r, t) \<Longrightarrow> R s t"
  by (metis keeps_def snd_conv)

locale frame =
  fixes R :: "'s \<Rightarrow> 's \<Rightarrow> bool"
  assumes frame_refl: "R s s"
    and frame_trans: "R s t \<Longrightarrow> R t u \<Longrightarrow> R s u"
begin

lemma keeps_ret: "keeps R (retE x)"
  by (simp add: keeps_def retE_def frame_refl)

lemma keeps_raise: "keeps R (raiseE e)"
  by (simp add: keeps_def raiseE_def frame_refl)

lemma keeps_halt: "keeps R haltE"
  by (simp add: keeps_def haltE_def frame_refl)

lemma keeps_get: "keeps R (getE f)"
  by (simp add: keeps_def getE_def frame_refl)

lemma keeps_lift: "keeps R (liftE r)"
  by (simp add: keeps_def liftE_def frame_refl)

lemma keeps_bindP:
  assumes "keeps R m" and "yields m P" and "\<And>x. P x \<Longrightarrow> keeps R (f x)"
  shows "keeps R (bindE m f)"
  using assms
  by (auto simp: keeps_def yields_def bindE_def split: prod.splits res.splits)
     (metis frame_trans snd_conv)+

lemma keeps_bind: "keeps R m \<Longrightarrow> (\<And>x. keeps R (f x)) \<Longrightarrow> keeps R (bindE m f)"
  by (rule keeps_bindP[where P = "\<lambda>_. True"]) auto

lemma keeps_catch:
  "keeps R m \<Longrightarrow> (\<And>e. c e \<Longrightarrow> keeps R (h e)) \<Longrightarrow> keeps R (catchE m c h)"
  by (auto simp: keeps_def catchE_def split: prod.splits res.splits)
     (metis frame_trans snd_conv)+

lemma keeps_if: "(b \<Longrightarrow> keeps R m) \<Longrightarrow> (\<not> b \<Longrightarrow> keeps R n) \<Longrightarrow> keeps R (if b then m else n)"
  by simp

lemma keeps_forE: "(\<And>x. x \<in> set xs \<Longrightarrow> keeps R (f x)) \<Longrightarrow> keeps R (forE xs f)"
  by (induction xs) (auto intro!: keeps_ret keeps_bind)

lemma keeps_mapE: "(\<And>x. x \<in> set xs \<Longrightarrow> keeps R (f x)) \<Longrightarrow> keeps R (mapE f xs)"
  by (induction xs) (auto intro!: keeps_ret keeps_bind)

lemma keeps_filterE: "(\<And>x. x \<in> set xs \<Longrightarrow> keeps R (f x)) \<Longrightarrow> keeps R (filterE f xs)"
  by (induction xs) (auto intro!: keeps_ret keeps_bind)

lemma keeps_foldE:
  "(\<And>a x. x \<in> set xs \<Longrightarrow> keeps R (f a x)) \<Longrightarrow> keeps R (foldE f a xs)"
  by (induction xs arbitrary: a) (auto intro!: keeps_ret keeps_bind)

lemma keeps_anyE: "(\<And>x. x \<in> set xs \<Longrightarrow> keeps R (f x)) \<Longrightarrow> keeps R (anyE f xs)"
  by (induction xs) (auto intro!: keeps_ret keeps_bind)

lemmas keeps_rules =
  keeps_ret keeps_raise keeps_halt keeps_get keeps_lift keeps_if keeps_bind keeps_catch
  keeps_forE keeps_mapE keeps_filterE keeps_foldE keeps_anyE

end

text \<open>A program that leaves every state as it is respects every preorder.\<close>

interpretation still: frame "(=)"
  by unfold_locales auto

context frame
begin

lemma keeps_still: "keeps (=) m \<Longrightarrow> keeps R m"
  by (simp add: keeps_def frame_refl)

end

section \<open>Triples\<close>

text \<open>
  \<open>triple I m Q E\<close>: run from a state in \<open>I\<close>, \<open>m\<close> ends in \<open>Q x\<close> when it
  returns \<open>x\<close>, and in \<open>E\<close> when it raises an exception or is killed on the way.
\<close>

definition triple :: "('s \<Rightarrow> bool) \<Rightarrow> ('s, 'a) eff \<Rightarrow> ('a \<Rightarrow> 's \<Rightarrow> bool) \<Rightarrow> ('s \<Rightarrow> bool) \<Rightarrow> bool" where
  "triple I m Q E \<longleftrightarrow>
     (\<forall>s r t. I s \<longrightarrow> m s = (r, t) \<longrightarrow> (case r of Ok x \<Rightarrow> Q x t | _ \<Rightarrow> E t))"

named_theorems triple_intros

lemma triple_conseq:
  fixes I I' E E' :: "'s \<Rightarrow> bool"
  assumes "triple I m Q E" and "\<And>s. I' s \<Longrightarrow> I s" and "\<And>x s. Q x s \<Longrightarrow> Q' x s"
    and "\<And>s. E s \<Longrightarrow> E' s"
  shows "triple I' m Q' E'"
  unfolding triple_def
proof (intro allI impI)
  fix s r t assume "I' s" and "m s = (r, t)"
  with assms(1,2) have "case r of Ok x \<Rightarrow> Q x t | _ \<Rightarrow> E t" unfolding triple_def by blast
  with assms(3,4) show "case r of Ok x \<Rightarrow> Q' x t | _ \<Rightarrow> E' t" by (auto split: res.splits)
qed

lemma triple_pre: "triple I m Q E \<Longrightarrow> (\<And>s. I' s \<Longrightarrow> I s) \<Longrightarrow> triple I' m Q E"
  by (rule triple_conseq)

lemma triple_ret [triple_intros]: "(\<And>s. I s \<Longrightarrow> Q x s) \<Longrightarrow> triple I (retE x) Q E"
  by (simp add: triple_def retE_def)

lemma triple_raise [triple_intros]: "(\<And>s. I s \<Longrightarrow> E s) \<Longrightarrow> triple I (raiseE e) Q E"
  by (simp add: triple_def raiseE_def)

lemma triple_halt [triple_intros]: "(\<And>s. I s \<Longrightarrow> E s) \<Longrightarrow> triple I haltE Q E"
  by (simp add: triple_def haltE_def)

lemma triple_get [triple_intros]: "(\<And>s. I s \<Longrightarrow> Q (f s) s) \<Longrightarrow> triple I (getE f) Q E"
  by (simp add: triple_def getE_def)

lemma triple_bind:
  assumes "triple I m J E" and "\<And>x. triple (J x) (f x) Q E"
  shows "triple I (bindE m f) Q E"
  unfolding triple_def
proof (intro allI impI)
  fix s r t assume s: "I s" and r: "bindE m f s = (r, t)"
  obtain r1 t1 where m: "m s = (r1, t1)" by (cases "m s")
  show "case r of Ok x \<Rightarrow> Q x t | _ \<Rightarrow> E t"
  proof (cases r1)
    case (Ok x)
    then have "J x t1" and "f x t1 = (r, t)"
      using assms(1) s m r by (auto simp: triple_def bindE_def split: res.splits)
    then show ?thesis using assms(2)[of x] unfolding triple_def by blast
  qed (use assms(1) s m r in \<open>auto simp: triple_def bindE_def\<close>)
qed

lemma triple_catch:
  assumes "triple I m Q F" and "\<And>e. c e \<Longrightarrow> triple F (h e) Q E" and "\<And>s. F s \<Longrightarrow> E s"
  shows "triple I (catchE m c h) Q E"
  unfolding triple_def
proof (intro allI impI)
  fix s r t assume s: "I s" and r: "catchE m c h s = (r, t)"
  obtain r1 t1 where m: "m s = (r1, t1)" by (cases "m s")
  have 1: "case r1 of Ok x \<Rightarrow> Q x t1 | _ \<Rightarrow> F t1"
    using assms(1) s m unfolding triple_def by blast
  show "case r of Ok x \<Rightarrow> Q x t | _ \<Rightarrow> E t"
  proof (cases r1)
    case (Exc e)
    then show ?thesis
    proof (cases "c e")
      case True
      with Exc m r have "h e t1 = (r, t)" by (simp add: catchE_def)
      then show ?thesis using assms(2)[OF True] 1 Exc unfolding triple_def by auto
    qed (use 1 Exc m r assms(3) in \<open>auto simp: catchE_def\<close>)
  qed (use 1 m r assms(3) in \<open>auto simp: catchE_def\<close>)
qed

lemma triple_if [triple_intros]:
  "(b \<Longrightarrow> triple I m Q E) \<Longrightarrow> (\<not> b \<Longrightarrow> triple I n Q E) \<Longrightarrow> triple I (if b then m else n) Q E"
  by simp

lemma triple_ex: "(\<And>x. triple (I x) m Q E) \<Longrightarrow> triple (\<lambda>s. \<exists>x. I x s) m Q E"
  by (auto simp: triple_def)

lemma triple_fact: "(b \<Longrightarrow> triple I m Q E) \<Longrightarrow> triple (\<lambda>s. b \<and> I s) m Q E"
  by (auto simp: triple_def)

lemma triple_False [simp]: "triple (\<lambda>s. False) m Q E"
  by (simp add: triple_def)

lemma triple_forE:
  assumes "\<And>x. x \<in> set xs \<Longrightarrow> triple I (f x) (\<lambda>_. I) E" and "\<And>s. I s \<Longrightarrow> E s"
  shows "triple I (forE xs f) (\<lambda>_. I) E"
  using assms by (induction xs) (auto intro!: triple_ret intro: triple_bind)

lemma triple_foldE:
  assumes "\<And>a x. x \<in> set xs \<Longrightarrow> triple I (f a x) (\<lambda>_. I) E"
  shows "triple I (foldE f a xs) (\<lambda>_. I) E"
  using assms by (induction xs arbitrary: a) (auto intro!: triple_ret intro: triple_bind)

lemma tripleE:
  assumes "triple I m Q E" and "I s" and "m s = (r, t)"
  shows "case r of Ok x \<Rightarrow> Q x t | _ \<Rightarrow> E t"
  using assms unfolding triple_def by blast

lemma tripleD: "triple I m Q E \<Longrightarrow> I s \<Longrightarrow> m s = (Ok x, t) \<Longrightarrow> Q x t"
  by (drule (2) tripleE) simp

lemma triple_snd:
  assumes "triple I m (\<lambda>_. E) E" and "I s"
  shows "E (snd (m s))"
  using tripleE[OF assms, of "fst (m s)" "snd (m s)"] by (simp split: res.splits)

end
