(* ===== verification/Compose_Stack.thy ===== *)
theory Compose_Stack
  imports Effects
begin

text \<open>
  The docker and compose calls of \<open>compose-reload.py\<close>: the class \<open>Stack\<close>, the data it reads, and
  the two checks that need only a service's spec (\<open>ineligible\<close>) or the spec and the images of
  the dependencies' containers (\<open>changed_oneshots\<close>).

  Docker itself is a parameter: \<open>platform\<close> holds \<open>subprocess.run\<close>, the reader of the
  document that \<open>compose config\<close> prints, the clock and \<open>sleep\<close>, over a world of any type.
  Nothing is assumed about them, so a property proved here holds whatever docker answers, fails
  with or does. The state pairs that world with the list of calls made so far and their outcomes.
  The messages written by \<open>log\<close> are not part of the state.
\<close>

section \<open>Compose specs\<close>

datatype hc_test = TestList "string list" | TestStr string

record healthcheck =
  hc_disable :: bool
  hc_test :: "hc_test option"

text \<open>An entry of a service's \<open>volumes\<close>: a table with a type and a source, or the short string form.\<close>

datatype volume = Volume string "string option" | ShortVolume string

text \<open>
  One service of the resolved config. A key that is absent, \<open>null\<close> or empty reads the same way in
  the code (\<open>spec.get(k) or {}\<close>), so it is one value here: an empty list, or \<open>None\<close>.
\<close>

record spec =
  sp_labels :: "(string \<times> string) list"
  sp_container_name :: "string option"
  sp_ports :: "string list"
  sp_healthcheck :: "healthcheck option"
  sp_depends_on :: "(string \<times> string option) list"
  sp_image :: "string option"
  sp_build :: bool
  sp_volumes :: "volume list"

type_synonym specs = "(string \<times> spec) list"

text \<open>Truth of an optional string: \<open>None\<close> and the empty string are false.\<close>

definition given :: "string option \<Rightarrow> bool" where
  "given x = (case x of None \<Rightarrow> False | Some s \<Rightarrow> s \<noteq> [])"

definition ROLLOUT_LABEL :: string where
  "ROLLOUT_LABEL = ''krg.rollout''"

definition DRAIN_FILE :: string where
  "DRAIN_FILE = ''/tmp/krg-drain''"

definition labelled_handoff :: "spec \<Rightarrow> bool" where
  "labelled_handoff spec = (dict_get (sp_labels spec) ROLLOUT_LABEL = Some ''handoff'')"

section \<open>The platform and the state\<close>

datatype tree =
    RegFile string
  | Symlink bool string
  | Directory "(string \<times> tree) list"
  | Special

record 'w platform =
  sub_run :: "string list \<Rightarrow> nat option \<Rightarrow> 'w \<Rightarrow> (string \<times> string) res \<times> 'w"
  config_of :: "string \<Rightarrow> specs res"
  clock :: "'w \<Rightarrow> rat \<times> 'w"
  sleep :: "rat \<Rightarrow> 'w \<Rightarrow> 'w"
  realpath_of :: "'w \<Rightarrow> string \<Rightarrow> string"
  tree_at :: "'w \<Rightarrow> string \<Rightarrow> tree option"
  sha256 :: "string \<Rightarrow> string"
  save_fault :: "'w \<Rightarrow> exc option"

text \<open>
  A call made through the injected runner (\<open>Compose\<close> with the arguments after the base command,
  \<open>Docker\<close> with the arguments after the binary) or by \<open>subprocess.run\<close> directly (\<open>Direct\<close>).
\<close>

datatype call =
    Compose "string list" bool "nat option"
  | Docker "string list"
  | Direct "string list"

type_synonym mounts = "(string \<times> string list) list"

text \<open>
  The file named by \<open>--state\<close>: absent or not readable, not JSON, or a JSON table with the two keys
  the code reads. JSON that is no table, on which \<open>load_state\<close> raises \<open>AttributeError\<close>, has no value here.
\<close>

datatype state_file = NoFile | NotJson | Doc "int option" "mounts option"

record 'w st =
  world :: 'w
  trace :: "(call \<times> string res) list"
  statefile :: state_file

record stack =
  compose_cmd :: "string list"
  docker :: string

definition Stack :: "string list \<Rightarrow> stack res" where
  "Stack cmd = (case cmd of [] \<Rightarrow> Exc IndexError
                | d # _ \<Rightarrow> Ok \<lparr>compose_cmd = cmd, docker = d\<rparr>)"

section \<open>Running commands\<close>

definition DRY_RUN_TIMEOUT :: nat where "DRY_RUN_TIMEOUT = 300"
definition PULL_TIMEOUT :: nat where "PULL_TIMEOUT = 1800"
definition CALL_TIMEOUT :: nat where "CALL_TIMEOUT = 600"

text \<open>
  \<open>run\<close>: the handler of \<open>CalledProcessError\<close> logs the command's output and raises again.
\<close>

definition run :: "'w platform \<Rightarrow> string list \<Rightarrow> bool \<Rightarrow> nat \<Rightarrow> ('w, string) eff" where
  "run P argv stderr timeout =
     bindE (catchE (sub_run P argv (Some timeout)) is_CalledProcessError raiseE)
       (\<lambda>(out, err). retE (if stderr then out @ err else out))"

fun perform :: "'w platform \<Rightarrow> stack \<Rightarrow> call \<Rightarrow> ('w, string) eff" where
  "perform P S (Compose args stderr timeout) =
     run P (compose_cmd S @ args) stderr (case timeout of None \<Rightarrow> CALL_TIMEOUT | Some t \<Rightarrow> t)"
| "perform P S (Docker args) = run P (docker S # args) False CALL_TIMEOUT"
| "perform P S (Direct args) =
     bindE (sub_run P (compose_cmd S @ args) None) (\<lambda>(out, err). retE out)"

text \<open>Every call goes through \<open>issue\<close>, which records it with its outcome.\<close>

definition issue :: "'w platform \<Rightarrow> stack \<Rightarrow> call \<Rightarrow> ('w st, string) eff" where
  "issue P S c s =
     (let (r, w) = perform P S c (world s)
      in (r, s\<lparr>world := w, trace := trace s @ [(c, r)]\<rparr>))"

definition compose :: "'w platform \<Rightarrow> stack \<Rightarrow> string list \<Rightarrow> bool \<Rightarrow> nat option \<Rightarrow> ('w st, string) eff"
  where "compose P S args stderr timeout = issue P S (Compose args stderr timeout)"

definition docker_cmd :: "'w platform \<Rightarrow> stack \<Rightarrow> string list \<Rightarrow> ('w st, string) eff" where
  "docker_cmd P S args = issue P S (Docker args)"

definition sleepE :: "'w platform \<Rightarrow> rat \<Rightarrow> ('w st, unit) eff" where
  "sleepE P d = modE (\<lambda>s. s\<lparr>world := sleep P d (world s)\<rparr>)"

definition clockE :: "'w platform \<Rightarrow> ('w st, rat) eff" where
  "clockE P s = (let (t, w) = clock P (world s) in (Ok t, s\<lparr>world := w\<rparr>))"

section \<open>The methods of Stack\<close>

definition specs :: "'w platform \<Rightarrow> stack \<Rightarrow> ('w st, specs) eff" where
  "specs P S =
     bindE (compose P S [''config'', ''--format'', ''json''] False None)
       (\<lambda>out. liftE (config_of P out))"

text \<open>
  The matches of \<open>Container (\S+)\s+Recreate\b\<close>. A run of non-spaces followed by a space can only
  be matched by all of it, so the groups are the maximal runs.
\<close>

definition match_recreate :: "string \<Rightarrow> (string \<times> string) option" where
  "match_recreate s =
     (if startswith s ''Container '' then
        let t = drop 10 s;
            name = takeWhile (\<lambda>c. \<not> is_space c) t;
            u = dropWhile (\<lambda>c. \<not> is_space c) t;
            v = dropWhile is_space u
        in if name \<noteq> [] \<and> u \<noteq> v \<and> startswith v ''Recreate'' \<and>
              (case drop 8 v of [] \<Rightarrow> True | c # _ \<Rightarrow> \<not> is_word c)
           then Some (name, drop 8 v) else None
      else None)"

lemma match_recreate_shorter:
  assumes "match_recreate s = Some (n, r)"
  shows "length r < length s"
proof -
  let ?t = "drop 10 s"
  let ?v = "dropWhile is_space (dropWhile (\<lambda>c. \<not> is_space c) ?t)"
  have r: "r = drop 8 ?v" and s: "prefix ''Container '' s"
    using assms by (auto simp: match_recreate_def Let_def startswith_def split: if_splits)
  have "length r \<le> length ?t"
    unfolding r by (metis diff_le_self le_trans length_drop length_dropWhile_le)
  moreover have "s \<noteq> []" using s by auto
  ultimately show ?thesis by (cases s) auto
qed

function find_recreate :: "string \<Rightarrow> string list" where
  "find_recreate s =
     (case match_recreate s of
        Some (n, r) \<Rightarrow> n # find_recreate r
      | None \<Rightarrow> (case s of [] \<Rightarrow> [] | _ # t \<Rightarrow> find_recreate t))"
  by pat_completeness auto
termination
  by (relation "measure length") (auto dest: match_recreate_shorter)

declare find_recreate.simps [simp del]

text \<open>\<open>svc_of\<close>: a line with exactly two tab-separated fields maps a container to its service.\<close>

definition service_table :: "string \<Rightarrow> (string \<times> string) list" where
  "service_table out =
     fold (\<lambda>line d. case split_on (CHR 0x09) line of [n, s] \<Rightarrow> dict_set n s d | _ \<Rightarrow> d)
       (splitlines out) []"

definition changed_services :: "'w platform \<Rightarrow> stack \<Rightarrow> string list \<Rightarrow> ('w st, string set) eff" where
  "changed_services P S services =
     (if services = [] then retE {} else
      bindE (compose P S
          [''pull'', ''--quiet'', ''--policy'', ''missing'', ''--ignore-buildable'']
          True (Some PULL_TIMEOUT)) (\<lambda>_.
      bindE (compose P S
          ([''--dry-run'', ''up'', ''--detach'', ''--no-deps''] @ sort services)
          True (Some DRY_RUN_TIMEOUT)) (\<lambda>out.
      let names = find_recreate out in
      if names = [] then retE {} else
      bindE (compose P S
          [''ps'', ''--all'', ''--format'', ''{{.Name}}'' @ [CHR 0x09] @ ''{{.Service}}''] False None)
        (\<lambda>ps.
      let svc_of = service_table ps in
      retE (set (List.map_filter (dict_get svc_of) names))))))"

definition has_image :: "'w platform \<Rightarrow> stack \<Rightarrow> string option \<Rightarrow> ('w st, bool) eff" where
  "has_image P S img =
     (if \<not> given img then retE False else
      bindE (docker_cmd P S [''image'', ''ls'', ''--quiet'', the img])
        (\<lambda>out. retE (strip out \<noteq> [])))"

definition build_missing :: "'w platform \<Rightarrow> stack \<Rightarrow> specs \<Rightarrow> ('w st, string list) eff" where
  "build_missing P S sp =
     bindE (filterE (\<lambda>(svc, spec).
         if sp_build spec then bindE (has_image P S (sp_image spec)) (\<lambda>b. retE (\<not> b))
         else retE False) sp)
       (\<lambda>missing.
     let todo = sort (map fst missing) in
     bindE (if todo = [] then retE []
            else compose P S (''build'' # todo) True (Some PULL_TIMEOUT))
       (\<lambda>_. retE todo))"

definition running :: "'w platform \<Rightarrow> stack \<Rightarrow> string \<Rightarrow> ('w st, string list) eff" where
  "running P S service =
     bindE (compose P S [''ps'', ''--quiet'', service] False None) (\<lambda>out. retE (split_ws out))"

definition all_containers :: "'w platform \<Rightarrow> stack \<Rightarrow> string \<Rightarrow> ('w st, string list) eff" where
  "all_containers P S service =
     bindE (compose P S [''ps'', ''--all'', ''--quiet'', service] False None)
       (\<lambda>out. retE (split_ws out))"

definition drains :: "'w platform \<Rightarrow> stack \<Rightarrow> string \<Rightarrow> ('w st, bool) eff" where
  "drains P S cid =
     bindE (docker_cmd P S [''inspect'', ''--format'', ''{{json .Config.Healthcheck}}'', cid])
       (\<lambda>out. retE (contains out DRAIN_FILE))"

definition health_format :: string where
  "health_format = ''{{.State.Status}} {{if .State.Health}}{{.State.Health.Status}}{{else}}none{{end}}''"

definition parse_health :: "string \<Rightarrow> string \<times> string" where
  "parse_health out = (case split_ws out of [a, b] \<Rightarrow> (a, b) | _ \<Rightarrow> (''unknown'', ''unknown''))"

definition health_args :: "string \<Rightarrow> string list" where
  "health_args cid = [''inspect'', ''--format'', health_format, cid]"

definition health :: "'w platform \<Rightarrow> stack \<Rightarrow> string \<Rightarrow> ('w st, string \<times> string) eff" where
  "health P S cid = bindE (docker_cmd P S (health_args cid)) (\<lambda>out. retE (parse_health out))"

definition image_of :: "'w platform \<Rightarrow> stack \<Rightarrow> string \<Rightarrow> ('w st, string) eff" where
  "image_of P S cid =
     bindE (docker_cmd P S [''inspect'', ''--format'', ''{{.Config.Image}}'', cid])
       (\<lambda>out. retE (strip out))"

section \<open>Checks on a spec\<close>

definition changed_oneshots ::
  "'w platform \<Rightarrow> stack \<Rightarrow> spec \<Rightarrow> specs \<Rightarrow> ('w st, string list) eff" where
  "changed_oneshots P S spec sp =
     bindE (filterE (\<lambda>(dep, cond).
         if cond \<noteq> Some ''service_completed_successfully'' then retE False
         else let want = (case dict_get sp dep of None \<Rightarrow> None | Some d \<Rightarrow> sp_image d) in
           if \<not> given want then retE False
           else bindE (all_containers P S dep) (\<lambda>cs.
                bindE (mapE (image_of P S) cs) (\<lambda>have. retE (set have \<noteq> {the want}))))
         (sp_depends_on spec))
       (\<lambda>pending. retE (sort (map fst pending)))"

definition ineligible :: "spec \<Rightarrow> string option" where
  "ineligible spec =
     (if given (sp_container_name spec)
      then Some ''has container_name (two containers can't share a name)''
      else if sp_ports spec \<noteq> []
      then Some ''publishes host ports (two containers can't bind the same port)''
      else case sp_healthcheck spec of
        None \<Rightarrow> Some ''has no healthcheck (nothing to tell when the new container is ready)''
      | Some hc \<Rightarrow>
          if hc_disable hc \<or> hc_test hc = Some (TestList [''NONE'']) \<or> hc_test hc = Some (TestStr ''NONE'')
          then Some ''has no healthcheck (nothing to tell when the new container is ready)''
          else None)"

lemma ineligible_None_iff:
  "ineligible spec = None \<longleftrightarrow>
     \<not> given (sp_container_name spec) \<and> sp_ports spec = [] \<and>
     (\<exists>hc. sp_healthcheck spec = Some hc \<and> \<not> hc_disable hc \<and>
        hc_test hc \<noteq> Some (TestList [''NONE'']) \<and> hc_test hc \<noteq> Some (TestStr ''NONE''))"
  by (auto simp: ineligible_def split: option.splits)

end
