(* ===== verification/Compose_Mounts.thy ===== *)
theory Compose_Mounts
  imports Compose_Stack
begin

text \<open>
  Bind-mounted config in \<open>compose-reload.py\<close>: the content hash of a store path, the fingerprints
  of a service's mounts (with the per-run cache the code keeps), which services those say changed,
  and the state file that carries them from one reload to the next. A file tree is the data type
  \<open>tree\<close>; a symbolic link records whether it points to a directory, because \<open>os.walk\<close> lists it
  among the directories then.
\<close>

definition STATE_VERSION :: int where "STATE_VERSION = 2"
definition STORE :: string where "STORE = ''/nix/store/''"

section \<open>content\_hash\<close>

definition NUL :: char where "NUL = CHR 0x00"

definition is_dir_entry :: "tree \<Rightarrow> bool" where
  "is_dir_entry t = (case t of Directory _ \<Rightarrow> True | Symlink d _ \<Rightarrow> d | _ \<Rightarrow> False)"

definition is_link :: "tree \<Rightarrow> bool" where
  "is_link t = (case t of Symlink _ _ \<Rightarrow> True | _ \<Rightarrow> False)"

text \<open>What one name adds to the hash: its relative path, then the link target or the bytes.\<close>

definition entry_bytes :: "string \<Rightarrow> string \<times> tree \<Rightarrow> string" where
  "entry_bytes pre e =
     pre @ fst e @ [NUL] @
     (case snd e of Symlink _ target \<Rightarrow> ''L'' @ target | RegFile b \<Rightarrow> ''F'' @ b | _ \<Rightarrow> []) @ [NUL]"

text \<open>\<open>sorted(files) + sorted(d for d in dirs if islink(d))\<close>.\<close>

definition hashed_entries :: "(string \<times> tree) list \<Rightarrow> (string \<times> tree) list" where
  "hashed_entries es =
     sort_key fst (filter (\<lambda>e. \<not> is_dir_entry (snd e)) es) @
     sort_key fst (filter (\<lambda>e. is_dir_entry (snd e) \<and> is_link (snd e)) es)"

text \<open>
  The bytes fed to the hash by \<open>os.walk\<close>: the entries of a directory, then its subdirectories in
  sorted order. Anything that is not a directory has nothing below it.
\<close>

fun walk_bytes :: "string \<Rightarrow> tree \<Rightarrow> string" where
  "walk_bytes pre (Directory es) =
     concat (map (entry_bytes pre) (hashed_entries es)) @
     concat (map snd (sort_key fst (map (\<lambda>(n, t). (n, walk_bytes (pre @ n @ ''/'') t)) es)))"
| "walk_bytes pre _ = []"

definition content_hash :: "(string \<Rightarrow> string) \<Rightarrow> tree \<Rightarrow> string" where
  "content_hash sha t = (case t of RegFile b \<Rightarrow> sha b | _ \<Rightarrow> sha (walk_bytes [] t))"

text \<open>
  Two trees that list the same entries in a different order, at any level. The hash does not tell
  them apart: \<open>os.walk\<close>'s order is never used unsorted.
\<close>

inductive reordered :: "tree \<Rightarrow> tree \<Rightarrow> bool" where
  same: "reordered t t"
| directory: "distinct (map fst es) \<Longrightarrow>
     list_all2 (\<lambda>e e'. fst e = fst e' \<and> reordered (snd e) (snd e')) es es' \<Longrightarrow>
     mset es' = mset es'' \<Longrightarrow> reordered (Directory es) (Directory es'')"

lemma walk_bytes_mset:
  assumes "mset es = mset es'" and "distinct (map fst es)"
  shows "walk_bytes pre (Directory es) = walk_bytes pre (Directory es')"
proof -
  let ?w = "\<lambda>e. (fst e, walk_bytes (pre @ fst e @ ''/'') (snd e))"
  have filter: "sort_key fst (filter A es) = sort_key fst (filter A es')" for A
    using assms by (intro sort_key_mset_eq) (auto simp: distinct_map_filter)
  have "sort_key fst (map ?w es) = sort_key fst (map ?w es')"
    using assms by (intro sort_key_mset_eq) (auto simp: comp_def)
  with filter show ?thesis by (simp add: hashed_entries_def case_prod_unfold)
qed

lemma walk_bytes_pointwise:
  assumes "list_all2 (\<lambda>e e'. fst e = fst e' \<and> is_dir_entry (snd e) = is_dir_entry (snd e') \<and>
      is_link (snd e) = is_link (snd e') \<and> (\<forall>pre. entry_bytes pre e = entry_bytes pre e') \<and>
      (\<forall>pre. walk_bytes pre (snd e) = walk_bytes pre (snd e'))) es es'"
  shows "walk_bytes pre (Directory es) = walk_bytes pre (Directory es')"
proof -
  have *: "map (entry_bytes pre) (sort_key fst (filter (\<lambda>e. A (is_dir_entry (snd e)) (is_link (snd e))) es)) =
      map (entry_bytes pre) (sort_key fst (filter (\<lambda>e. A (is_dir_entry (snd e)) (is_link (snd e))) es'))"
    for A
    using assms by (intro map_sort_key_eq) (induction rule: list_all2_induct, auto)
  have "map (\<lambda>(n, t). (n, walk_bytes (pre @ n @ ''/'') t)) es =
      map (\<lambda>(n, t). (n, walk_bytes (pre @ n @ ''/'') t)) es'"
    using assms by (induction rule: list_all2_induct) (auto simp: split_beta)
  with *[of "\<lambda>d l. \<not> d"] *[of "\<lambda>d l. d \<and> l"] show ?thesis
    by (simp add: hashed_entries_def)
qed

lemma reordered_alike:
  assumes "reordered t t'"
  shows "is_dir_entry t = is_dir_entry t' \<and> is_link t = is_link t' \<and>
     (\<forall>pre n. entry_bytes pre (n, t) = entry_bytes pre (n, t')) \<and>
     (\<forall>pre. walk_bytes pre t = walk_bytes pre t')"
  using assms
proof (induction rule: reordered.induct)
  case (same t)
  show ?case by simp
next
  case (directory es es' es'')
  have "walk_bytes pre (Directory es) = walk_bytes pre (Directory es')" for pre
    by (rule walk_bytes_pointwise, rule list_all2_mono[OF directory.IH]) (metis prod.collapse)
  moreover have "map fst es = map fst es'"
    using directory.IH by (induction rule: list_all2_induct) auto
  then have "walk_bytes pre (Directory es') = walk_bytes pre (Directory es'')" for pre
    using directory.hyps by (intro walk_bytes_mset) simp_all
  ultimately show ?case by (simp add: is_dir_entry_def is_link_def entry_bytes_def)
qed

lemma content_hash_reordered:
  assumes "reordered t t'"
  shows "content_hash sha t = content_hash sha t'"
  using assms
proof (cases rule: reordered.cases)
  case (directory es es' es'')
  with reordered_alike[OF assms] show ?thesis
    by (simp add: content_hash_def del: walk_bytes.simps)
qed simp

section \<open>mount\_fingerprints\<close>

definition sha_fp :: "'w platform \<Rightarrow> tree \<Rightarrow> string" where
  "sha_fp P t = ''sha256:'' @ content_hash (sha256 P) t"

definition bind_source :: "volume \<Rightarrow> string option" where
  "bind_source v =
     (case v of Volume ty src \<Rightarrow> (if ty = ''bind'' \<and> given src then src else None)
      | ShortVolume _ \<Rightarrow> None)"

definition store_tree :: "'w platform \<Rightarrow> 'w \<Rightarrow> string \<Rightarrow> tree option" where
  "store_tree P w rp = (if startswith rp STORE then tree_at P w rp else None)"

definition add_volume ::
  "'w platform \<Rightarrow> 'w \<Rightarrow> volume \<Rightarrow> (string \<times> string) list \<times> string list
     \<Rightarrow> (string \<times> string) list \<times> string list" where
  "add_volume P w v acc =
     (case acc of (cache, fps) \<Rightarrow>
      case bind_source v of None \<Rightarrow> (cache, fps)
      | Some src \<Rightarrow>
          let rp = realpath_of P w src in
          case store_tree P w rp of
            None \<Rightarrow> (cache, fps @ [rp])
          | Some t \<Rightarrow>
              let cache = (if rp \<in> set (dict_keys cache) then cache
                           else dict_set rp (sha_fp P t) cache)
              in (cache, fps @ [the (dict_get cache rp)]))"

definition add_service ::
  "'w platform \<Rightarrow> 'w \<Rightarrow> string \<times> spec \<Rightarrow> (string \<times> string) list \<times> mounts
     \<Rightarrow> (string \<times> string) list \<times> mounts" where
  "add_service P w ss acc =
     (case acc of (cache, out) \<Rightarrow>
      case fold (add_volume P w) (sp_volumes (snd ss)) (cache, []) of
        (cache, fps) \<Rightarrow> (cache, dict_set (fst ss) (sort fps) out))"

definition mount_fingerprints :: "'w platform \<Rightarrow> 'w \<Rightarrow> specs \<Rightarrow> mounts" where
  "mount_fingerprints P w sp = snd (fold (add_service P w) sp ([], []))"

text \<open>The same without a cache: what one source is fingerprinted as.\<close>

definition fingerprint :: "'w platform \<Rightarrow> 'w \<Rightarrow> string \<Rightarrow> string" where
  "fingerprint P w src =
     (case store_tree P w (realpath_of P w src) of
        None \<Rightarrow> realpath_of P w src
      | Some t \<Rightarrow> sha_fp P t)"

definition service_fingerprints :: "'w platform \<Rightarrow> 'w \<Rightarrow> spec \<Rightarrow> string list" where
  "service_fingerprints P w spec =
     sort (map (fingerprint P w) (List.map_filter bind_source (sp_volumes spec)))"

text \<open>Every cached value is the hash of the tree at its key.\<close>

definition cache_ok :: "'w platform \<Rightarrow> 'w \<Rightarrow> (string \<times> string) list \<Rightarrow> bool" where
  "cache_ok P w cache \<longleftrightarrow>
     (\<forall>rp h. dict_get cache rp = Some h \<longrightarrow>
        (\<exists>t. store_tree P w rp = Some t \<and> h = sha_fp P t))"

lemma cache_ok_hit:
  assumes "cache_ok P w cache" and "rp \<in> set (dict_keys cache)" and "store_tree P w rp = Some t"
  shows "dict_get cache rp = Some (sha_fp P t)"
  using assms by (fastforce simp: cache_ok_def dict_mem_iff)

lemma cache_ok_set:
  "cache_ok P w cache \<Longrightarrow> store_tree P w rp = Some t \<Longrightarrow>
     cache_ok P w (dict_set rp (sha_fp P t) cache)"
  by (auto simp: cache_ok_def)

lemma add_volume_eq:
  assumes "cache_ok P w cache" and "add_volume P w v (cache, fps) = (cache', fps')"
  shows "cache_ok P w cache' \<and>
     fps' = fps @ map (fingerprint P w) (List.map_filter bind_source [v])"
  using assms
  by (auto simp: add_volume_def Let_def fingerprint_def List.map_filter_simps cache_ok_set
        cache_ok_hit split: option.splits if_splits)

lemma fold_add_volume:
  assumes "cache_ok P w cache"
    and "fold (add_volume P w) vs (cache, fps) = (cache', fps')"
  shows "cache_ok P w cache' \<and> fps' = fps @ map (fingerprint P w) (List.map_filter bind_source vs)"
  using assms
proof (induction vs arbitrary: cache fps)
  case Nil
  then show ?case by (simp add: List.map_filter_simps)
next
  case (Cons v vs)
  obtain c1 f1 where c1: "add_volume P w v (cache, fps) = (c1, f1)" by fastforce
  note step = add_volume_eq[OF Cons.prems(1) c1]
  have "fold (add_volume P w) vs (c1, f1) = (cache', fps')"
    using Cons.prems(2) c1 by simp
  from Cons.IH[OF _ this] step show ?case
    by (auto simp: List.map_filter_simps split: option.splits)
qed

lemma add_service_eq:
  assumes "cache_ok P w cache" and "add_service P w ss (cache, out) = (cache', out')"
  shows "cache_ok P w cache' \<and>
     out' = dict_set (fst ss) (service_fingerprints P w (snd ss)) out"
proof -
  obtain c f where cf: "fold (add_volume P w) (sp_volumes (snd ss)) (cache, []) = (c, f)"
    by fastforce
  from fold_add_volume[OF assms(1) cf] assms(2) cf show ?thesis
    by (auto simp: add_service_def service_fingerprints_def)
qed

lemma fold_add_service:
  assumes "cache_ok P w cache" and "fold (add_service P w) sp (cache, out) = (cache', out')"
  shows "out' = fold (\<lambda>ss d. dict_set (fst ss) (service_fingerprints P w (snd ss)) d) sp out"
  using assms
proof (induction sp arbitrary: cache out)
  case Nil
  then show ?case by simp
next
  case (Cons ss sp)
  obtain c1 o1 where c1: "add_service P w ss (cache, out) = (c1, o1)" by fastforce
  from add_service_eq[OF Cons.prems(1) c1] Cons.IH[of c1 o1] Cons.prems(2) c1
  show ?case by simp
qed

text \<open>The cached routine computes the fingerprints of every service, whatever was hashed before.\<close>

lemma mount_fingerprints_eq:
  "mount_fingerprints P w sp =
     fold (\<lambda>ss d. dict_set (fst ss) (service_fingerprints P w (snd ss)) d) sp []"
proof -
  obtain c out where *: "fold (add_service P w) sp ([], []) = (c, out)" by fastforce
  have "cache_ok P w []" by (simp add: cache_ok_def)
  from fold_add_service[OF this *] * show ?thesis by (simp add: mount_fingerprints_def)
qed

lemma dict_get_fold_dict_set:
  "distinct (map fst xs) \<Longrightarrow>
     dict_get (fold (\<lambda>ss d. dict_set (fst ss) (g (snd ss)) d) xs d) k =
       (case dict_get xs k of Some v \<Rightarrow> Some (g v) | None \<Rightarrow> dict_get d k)"
proof (induction xs arbitrary: d)
  case Nil
  show ?case by simp
next
  case (Cons x xs)
  obtain k0 v0 where x: "x = (k0, v0)" by fastforce
  have "dict_get xs k0 = None" using Cons.prems x by (simp add: dict_keys_def)
  with Cons x show ?case by (auto split: option.splits simp del: dict_get_eq_None)
qed

section \<open>mounts\_changed and the state file\<close>

definition mounts_changed :: "mounts option \<Rightarrow> mounts \<Rightarrow> string set" where
  "mounts_changed prev cur =
     (case prev of None \<Rightarrow> {}
      | Some p \<Rightarrow> set (map fst
          (filter (\<lambda>(svc, srcs). svc \<in> set (dict_keys p) \<and> dict_get p svc \<noteq> Some srcs) cur)))"

definition load_state :: "state_file \<Rightarrow> mounts option" where
  "load_state f =
     (case f of NoFile \<Rightarrow> None | NotJson \<Rightarrow> None
      | Doc version mounts \<Rightarrow> (if version \<noteq> Some STATE_VERSION then None else mounts))"

definition saved :: "mounts \<Rightarrow> state_file" where
  "saved mounts = Doc (Some STATE_VERSION) (Some mounts)"

text \<open>The new file replaces the old one in one step, or an exception leaves the old one.\<close>

definition save_state :: "'w platform \<Rightarrow> mounts \<Rightarrow> ('w st, unit) eff" where
  "save_state P mounts s =
     (case save_fault P (world s) of
        Some e \<Rightarrow> (Exc e, s)
      | None \<Rightarrow> (Ok (), s\<lparr>statefile := saved mounts\<rparr>))"

lemma load_saved: "load_state (saved m) = Some m"
  by (simp add: load_state_def saved_def)

lemma mounts_changed_mem:
  assumes "distinct (dict_keys cur)"
  shows "svc \<in> mounts_changed (Some p) cur \<longleftrightarrow>
     (\<exists>old new. dict_get p svc = Some old \<and> dict_get cur svc = Some new \<and> old \<noteq> new)"
proof -
  have mem: "(svc, srcs) \<in> set cur \<longleftrightarrow> dict_get cur svc = Some srcs" for srcs
    using assms by (simp add: dict_get_def dict_keys_def)
  have "svc \<in> mounts_changed (Some p) cur \<longleftrightarrow>
      (\<exists>srcs. (svc, srcs) \<in> set cur \<and> svc \<in> set (dict_keys p) \<and> dict_get p svc \<noteq> Some srcs)"
    by (force simp: mounts_changed_def simp del: dict_get_eq_None)
  then show ?thesis
    unfolding mem dict_mem_iff by (metis option.inject)
qed

end
