(* ===== verification/Compose_Reload.thy ===== *)
theory Compose_Reload
  imports Compose_Mounts
begin

text \<open>
  The reload itself (\<open>compose-reload.py\<close>): the plan, the handoff of one service with its two
  polling loops, the cleanup after a failure, and \<open>main\<close>. The loops take a fuel argument and end
  in \<open>Halt\<close> when it is spent; \<open>reload_main_returns\<close> below bounds the fuel they need.
\<close>

section \<open>plan\<close>

definition plan_step ::
  "'w platform \<Rightarrow> stack \<Rightarrow> specs \<Rightarrow> string set \<Rightarrow> string set \<Rightarrow> (string \<times> string list) list \<Rightarrow> string
     \<Rightarrow> ('w st, (string \<times> string list) list) eff" where
  "plan_step P S sp changed forced todo svc =
     (case dict_get sp svc of
        None \<Rightarrow> raiseE KeyError
      | Some spec \<Rightarrow>
          if \<not> labelled_handoff spec then retE todo
          else bindE (running P S svc) (\<lambda>old.
            if old = [] then retE todo
            else if svc \<notin> forced \<and> svc \<notin> changed then retE todo
            else if length old > 1 then retE todo
            else if ineligible spec \<noteq> None then retE todo
            else bindE (changed_oneshots P S spec sp) (\<lambda>pending.
              if pending \<noteq> [] then retE todo
              else retE (todo @ [(svc, old)]))))"

definition plan :: "'w platform \<Rightarrow> stack \<Rightarrow> string set \<Rightarrow> ('w st, (string \<times> string list) list) eff"
  where
  "plan P S forced =
     bindE (specs P S) (\<lambda>sp.
     let labelled = map fst (filter (\<lambda>(s, v). labelled_handoff v) sp) in
     bindE (build_missing P S sp) (\<lambda>_.
     bindE (changed_services P S labelled) (\<lambda>changed.
     foldE (plan_step P S sp changed forced) [] (sort (dict_keys sp)))))"

section \<open>handoff\<close>

text \<open>\<open>_abort\<close>: the loop over \<open>new\<close> only fetches logs, and ignores a command that fails.\<close>

definition abort :: "'w platform \<Rightarrow> stack \<Rightarrow> string list \<Rightarrow> ('w st, bool) eff" where
  "abort P S new =
     bindE (forE new (\<lambda>c.
       catchE (bindE (docker_cmd P S [''logs'', ''--tail'', ''50'', c]) (\<lambda>_. retE ()))
         is_CalledProcessError (\<lambda>_. retE ()))) (\<lambda>_.
     bindE (if new = [] then retE () else
         bindE (docker_cmd P S (''stop'' # new)) (\<lambda>_.
         bindE (docker_cmd P S (''rm'' # new)) (\<lambda>_. retE ()))) (\<lambda>_.
     retE False))"

definition all_healthy :: "(string \<times> string) list \<Rightarrow> bool" where
  "all_healthy states = list_all (\<lambda>(s, h). s = ''running'' \<and> h = ''healthy'') states"

definition any_failed :: "(string \<times> string) list \<Rightarrow> bool" where
  "any_failed states = list_ex (\<lambda>(s, h). s \<noteq> ''running'' \<or> h = ''unhealthy'') states"

text \<open>
  The shape both waits share, \<open>while True\<close>: probe, and leave with what the probe decides; past the
  deadline leave with \<open>late\<close>; otherwise sleep and try again.
\<close>

fun poll_until ::
  "'w platform \<Rightarrow> ('w st, 'r option) eff \<Rightarrow> 'r \<Rightarrow> rat \<Rightarrow> rat \<Rightarrow> nat \<Rightarrow> ('w st, 'r) eff" where
  "poll_until P probe late deadline poll 0 = haltE"
| "poll_until P probe late deadline poll (Suc fuel) =
     bindE probe (\<lambda>decided.
     case decided of Some r \<Rightarrow> retE r
     | None \<Rightarrow> bindE (clockE P) (\<lambda>now.
         if deadline \<le> now then retE late
         else bindE (sleepE P poll) (\<lambda>_. poll_until P probe late deadline poll fuel)))"

text \<open>The wait for the new containers: \<open>True\<close> when all are healthy, \<open>False\<close> to abort.\<close>

definition healthy_probe :: "'w platform \<Rightarrow> stack \<Rightarrow> string list \<Rightarrow> ('w st, bool option) eff" where
  "healthy_probe P S new =
     bindE (mapE (health P S) new) (\<lambda>states.
     retE (if all_healthy states then Some True
           else if any_failed states then Some False else None))"

definition await_healthy ::
  "'w platform \<Rightarrow> stack \<Rightarrow> rat \<Rightarrow> rat \<Rightarrow> string list \<Rightarrow> nat \<Rightarrow> ('w st, bool) eff" where
  "await_healthy P S deadline poll new fuel =
     poll_until P (healthy_probe P S new) False deadline poll fuel"

definition all_drained :: "(string \<times> string) list \<Rightarrow> bool" where
  "all_drained states = list_all (\<lambda>(s, h). s \<noteq> ''running'' \<or> h = ''unhealthy'') states"

definition await_drained ::
  "'w platform \<Rightarrow> stack \<Rightarrow> rat \<Rightarrow> rat \<Rightarrow> string list \<Rightarrow> nat \<Rightarrow> ('w st, unit) eff" where
  "await_drained P S deadline poll targets fuel =
     poll_until P
       (bindE (mapE (health P S) targets) (\<lambda>states. retE (if all_drained states then Some () else None)))
       () deadline poll fuel"

definition drain_targets :: "'w platform \<Rightarrow> stack \<Rightarrow> string list \<Rightarrow> ('w st, string list) eff" where
  "drain_targets P S old =
     foldE (\<lambda>targets c.
       catchE
         (bindE (drains P S c) (\<lambda>d.
          if d then bindE (docker_cmd P S [''exec'', c, ''touch'', DRAIN_FILE])
                      (\<lambda>_. retE (targets @ [c]))
          else retE targets))
         is_CalledProcessError (\<lambda>_. retE targets)) [] old"

definition drain_old ::
  "'w platform \<Rightarrow> stack \<Rightarrow> nat \<Rightarrow> string list \<Rightarrow> rat \<Rightarrow> rat \<Rightarrow> ('w st, unit) eff" where
  "drain_old P S fuel old timeout poll =
     bindE (drain_targets P S old) (\<lambda>targets.
     if targets = [] then retE ()
     else bindE (clockE P) (\<lambda>now.
       await_drained P S (now + timeout) poll targets fuel))"

text \<open>Once the new containers are healthy: drain, wait, stop and remove the old ones.\<close>

definition retire ::
  "'w platform \<Rightarrow> stack \<Rightarrow> nat \<Rightarrow> string list \<Rightarrow> rat \<Rightarrow> rat \<Rightarrow> rat \<Rightarrow> ('w st, bool) eff" where
  "retire P S fuel old timeout drain poll =
     bindE (drain_old P S fuel old timeout poll) (\<lambda>_.
     bindE (sleepE P drain) (\<lambda>_.
     bindE (docker_cmd P S (''stop'' # old)) (\<lambda>_.
     bindE (docker_cmd P S (''rm'' # old)) (\<lambda>_.
     retE True))))"

text \<open>Scaling up and finding the containers that were not there before.\<close>

definition start_new ::
  "'w platform \<Rightarrow> stack \<Rightarrow> string \<Rightarrow> string list \<Rightarrow> ('w st, string list) eff" where
  "start_new P S svc old =
     bindE (compose P S
         [''up'', ''--detach'', ''--no-deps'', ''--no-recreate'', ''--scale'',
          svc @ ''='' @ str_nat (2 * length old), svc] False None) (\<lambda>_.
     bindE (all_containers P S svc) (\<lambda>cs. retE (filter (\<lambda>c. c \<notin> set old) cs)))"

definition handoff ::
  "'w platform \<Rightarrow> stack \<Rightarrow> nat \<Rightarrow> string \<Rightarrow> string list \<Rightarrow> rat \<Rightarrow> rat \<Rightarrow> rat \<Rightarrow> ('w st, bool) eff"
  where
  "handoff P S fuel svc old timeout drain poll =
     bindE (start_new P S svc old) (\<lambda>new.
     if length new \<noteq> length old then abort P S new
     else bindE (clockE P) (\<lambda>now.
       bindE (await_healthy P S (now + timeout) poll new fuel) (\<lambda>healthy.
       if \<not> healthy then abort P S new
       else retire P S fuel old timeout drain poll)))"

section \<open>main\<close>

record reload_args =
  a_timeout :: rat
  a_drain :: rat
  a_state :: bool
  a_dry_run :: bool
  a_compose :: "string list"

definition safe_handoff ::
  "'w platform \<Rightarrow> stack \<Rightarrow> nat \<Rightarrow> reload_args \<Rightarrow> string \<Rightarrow> string list \<Rightarrow> ('w st, bool) eff" where
  "safe_handoff P S fuel args svc old =
     catchE (handoff P S fuel svc old (a_timeout args) (a_drain args) 2) is_Exception (\<lambda>e.
       catchE
         (bindE (anyE (\<lambda>c. bindE (running P S svc) (\<lambda>r. retE (c \<in> set r))) old) (\<lambda>still.
          if still
          then bindE (all_containers P S svc) (\<lambda>cs. abort P S (filter (\<lambda>c. c \<notin> set old) cs))
          else retE False))
         is_CalledProcessError (\<lambda>_. retE False))"

definition up_recreate :: "string list \<Rightarrow> call" where
  "up_recreate svcs = Direct ([''up'', ''--detach'', ''--no-deps'', ''--force-recreate''] @ svcs)"

definition up_final :: call where
  "up_final = Direct [''up'', ''--detach'', ''--remove-orphans'']"

text \<open>What \<open>main\<close> does with the plan, once \<open>--dry-run\<close> is ruled out.\<close>

definition execute ::
  "'w platform \<Rightarrow> stack \<Rightarrow> nat \<Rightarrow> reload_args \<Rightarrow> (string \<times> string list) list \<Rightarrow> string list \<Rightarrow> mounts
     \<Rightarrow> ('w st, int) eff" where
  "execute P S fuel args todo recreate mounts =
     bindE (filterE (\<lambda>(svc, old).
         bindE (safe_handoff P S fuel args svc old) (\<lambda>ok. retE (\<not> ok))) todo) (\<lambda>failed.
     if failed \<noteq> [] then retE 1
     else
       bindE (if recreate = [] then retE [] else issue P S (up_recreate recreate)) (\<lambda>_.
       bindE (issue P S up_final) (\<lambda>_.
       bindE (if a_state args then save_state P mounts else retE ()) (\<lambda>_.
       retE 0))))"

definition base_command :: "reload_args \<Rightarrow> string list" where
  "base_command args =
     (case a_compose args of
        [] \<Rightarrow> []
      | x # r \<Rightarrow> if x = ''--'' then r else x # r)"

text \<open>The fingerprints of this run and those of the last successful one.\<close>

definition read_mounts :: "'w platform \<Rightarrow> stack \<Rightarrow> reload_args \<Rightarrow> ('w st, mounts \<times> mounts option) eff" where
  "read_mounts P S args =
     (if \<not> a_state args then retE ([], None)
      else bindE (specs P S) (\<lambda>sp.
        getE (\<lambda>s. (mount_fingerprints P (world s) sp, load_state (statefile s)))))"

definition reload_main :: "'w platform \<Rightarrow> nat \<Rightarrow> reload_args \<Rightarrow> ('w st, int) eff" where
  "reload_main P fuel args =
     (if base_command args = [] then raiseE (SystemExit 2) else
      bindE (liftE (Stack (base_command args))) (\<lambda>S.
      bindE (read_mounts P S args) (\<lambda>(mounts, prev).
      let forced = mounts_changed prev mounts in
      bindE (plan P S forced) (\<lambda>todo.
      let handed = set (map fst todo);
          recreate = sorted_list_of_set (forced - handed) in
      if a_dry_run args then retE 0
      else execute P S fuel args todo recreate mounts))))"

end
