(* ===== verification/Compose_Correct.thy ===== *)
theory Compose_Correct
  imports Compose_Reload
begin

text \<open>
  What the reload guarantees, for any docker: the calls it can make (lemmas \<open>keeps\<close>), what must
  have been observed before an old container is stopped, what a failed run leaves alone, and that
  the polling loops end.
\<close>

section \<open>Which calls a program makes\<close>

definition logs :: "(call \<Rightarrow> bool) \<Rightarrow> 'w st \<Rightarrow> 'w st \<Rightarrow> bool" where
  "logs Q s t \<longleftrightarrow>
     statefile t = statefile s \<and> (\<exists>cs. trace t = trace s @ cs \<and> (\<forall>e \<in> set cs. Q (fst e)))"

interpretation calls: frame "logs Q" for Q
proof (unfold_locales, goal_cases)
  case (1 s)
  show ?case by (simp add: logs_def)
next
  case (2 s t u)
  then obtain cs ds where "trace t = trace s @ cs" "trace u = trace t @ ds"
    "\<forall>e \<in> set cs. Q (fst e)" "\<forall>e \<in> set ds. Q (fst e)" "statefile u = statefile s"
    by (auto simp: logs_def)
  then show ?case
    by (auto simp: logs_def intro!: exI[of _ "cs @ ds"])
qed

lemma keeps_logs_mono:
  "keeps (logs Q) m \<Longrightarrow> (\<And>c. Q c \<Longrightarrow> Q' c) \<Longrightarrow> keeps (logs Q') m"
  unfolding keeps_def logs_def by blast

text \<open>Calls that read, pull or build: they touch no container.\<close>

definition readonly :: "call \<Rightarrow> bool" where
  "readonly c =
     (case c of
        Compose args _ _ \<Rightarrow> args \<noteq> [] \<and> hd args \<in> {''config'', ''ps'', ''pull'', ''build'', ''--dry-run''}
      | Docker args \<Rightarrow> args \<noteq> [] \<and> hd args \<in> {''inspect'', ''logs'', ''image''}
      | Direct _ \<Rightarrow> False)"

text \<open>
  Calls that neither stop nor remove any of the given containers, nor recreate one: of the compose commands those that
  read, and \<open>up\<close> with \<open>--no-recreate\<close>.
\<close>

definition spares :: "string list \<Rightarrow> call \<Rightarrow> bool" where
  "spares old c =
     (case c of
        Compose args _ _ \<Rightarrow> readonly c \<or> args \<noteq> [] \<and> hd args = ''up'' \<and> ''--no-recreate'' \<in> set args
      | Docker args \<Rightarrow> (case args of [] \<Rightarrow> True
          | v # ids \<Rightarrow> v \<in> {''stop'', ''rm''} \<longrightarrow> set ids \<inter> set old = {})
      | Direct _ \<Rightarrow> False)"

lemma readonly_spares: "readonly c \<Longrightarrow> spares old c"
  by (auto simp: readonly_def spares_def split: call.splits list.splits)

named_theorems call_frames

lemma keeps_issue: "Q c \<Longrightarrow> keeps (logs Q) (issue P S c)"
  by (simp add: keeps_def logs_def issue_def split: prod.split)

lemma keeps_clockE [call_frames]: "keeps (logs Q) (clockE P)"
  by (simp add: keeps_def logs_def clockE_def split: prod.split)

lemma keeps_sleepE [call_frames]: "keeps (logs Q) (sleepE P d)"
  by (simp add: keeps_def logs_def sleepE_def modE_def)

lemma keeps_compose: "Q (Compose a e t) \<Longrightarrow> keeps (logs Q) (compose P S a e t)"
  by (simp add: compose_def keeps_issue)

lemma keeps_docker_cmd: "Q (Docker a) \<Longrightarrow> keeps (logs Q) (docker_cmd P S a)"
  by (simp add: docker_cmd_def keeps_issue)

lemmas ro_rules = calls.keeps_rules keeps_clockE keeps_sleepE
  keeps_compose[of readonly] keeps_docker_cmd[of readonly]

lemma ro_specs [call_frames]: "keeps (logs readonly) (specs P S)"
  unfolding specs_def by (intro ro_rules) (simp add: readonly_def)

lemma ro_running [call_frames]: "keeps (logs readonly) (running P S c)"
  unfolding running_def by (intro ro_rules) (simp add: readonly_def)

lemma ro_all_containers [call_frames]: "keeps (logs readonly) (all_containers P S c)"
  unfolding all_containers_def by (intro ro_rules) (simp add: readonly_def)

lemma ro_health [call_frames]: "keeps (logs readonly) (health P S c)"
  unfolding health_def by (intro ro_rules) (simp add: readonly_def health_args_def)

lemma ro_drains [call_frames]: "keeps (logs readonly) (drains P S c)"
  unfolding drains_def by (intro ro_rules) (simp add: readonly_def)

lemma ro_image_of [call_frames]: "keeps (logs readonly) (image_of P S c)"
  unfolding image_of_def by (intro ro_rules) (simp add: readonly_def)

lemma ro_has_image [call_frames]: "keeps (logs readonly) (has_image P S i)"
  unfolding has_image_def by (intro ro_rules) (simp_all add: readonly_def)

lemma ro_build_missing [call_frames]: "keeps (logs readonly) (build_missing P S sp)"
  unfolding build_missing_def Let_def split_beta
  by (intro ro_rules call_frames) (auto simp: readonly_def intro!: ro_rules call_frames)

lemma ro_changed_services [call_frames]: "keeps (logs readonly) (changed_services P S sv)"
  unfolding changed_services_def Let_def
  by (intro ro_rules) (simp_all add: readonly_def)

lemma ro_changed_oneshots [call_frames]: "keeps (logs readonly) (changed_oneshots P S spec sp)"
  unfolding changed_oneshots_def Let_def split_beta
  by (intro ro_rules call_frames)

lemma ro_plan_step [call_frames]: "keeps (logs readonly) (plan_step P S sp ch f todo svc)"
  unfolding plan_step_def
  by (auto split: option.splits intro!: ro_rules call_frames)

lemma ro_plan [call_frames]: "keeps (logs readonly) (plan P S f)"
  unfolding plan_def Let_def by (intro ro_rules call_frames)

lemma ro_read_mounts [call_frames]: "keeps (logs readonly) (read_mounts P S a)"
  unfolding read_mounts_def by (intro ro_rules call_frames)

text \<open>Reads also spare the old containers.\<close>

lemma ro_sp: "keeps (logs readonly) m \<Longrightarrow> keeps (logs (spares old)) m"
  by (erule keeps_logs_mono) (rule readonly_spares)

lemmas sp_rules = calls.keeps_rules keeps_clockE keeps_sleepE
lemmas ro_sps = call_frames[THEN ro_sp]

lemma sp_abort:
  assumes "set new \<inter> set old = {}"
  shows "keeps (logs (spares old)) (abort P S new)"
  unfolding abort_def using assms
  by (intro sp_rules keeps_docker_cmd) (auto simp: spares_def)

lemma sp_start_new: "keeps (logs (spares old)) (start_new P S svc olds)"
  unfolding start_new_def
  by (intro sp_rules keeps_compose ro_all_containers[THEN ro_sp]) (simp add: spares_def)

lemma keeps_poll_until:
  "keeps (logs Q) probe \<Longrightarrow> keeps (logs Q) (poll_until P probe late d p fuel)"
  by (induction fuel) (auto intro!: sp_rules split: option.split)

lemma ro_await_healthy: "keeps (logs readonly) (await_healthy P S d p new fuel)"
  unfolding await_healthy_def healthy_probe_def
  by (intro ro_rules call_frames keeps_poll_until)

lemma ro_await_drained: "keeps (logs readonly) (await_drained P S d p new fuel)"
  unfolding await_drained_def by (intro ro_rules call_frames keeps_poll_until)

lemma sp_drain_old: "keeps (logs (spares old)) (drain_old P S fuel olds timeout poll)"
  unfolding drain_old_def drain_targets_def
  by (intro sp_rules keeps_docker_cmd ro_drains[THEN ro_sp] ro_await_drained[THEN ro_sp])
     (simp add: spares_def)

section \<open>A handoff\<close>

lemma yields_abort: "yields (abort P S new) (\<lambda>b. \<not> b)"
  unfolding abort_def by (intro yields_bind yields_ret) simp

lemma yields_retire: "yields (retire P S fuel old to dr po) (\<lambda>b. b)"
  unfolding retire_def by (intro yields_bind yields_ret) simp

lemma yields_start_new:
  "yields (start_new P S svc old) (\<lambda>new. set new \<inter> set old = {})"
  unfolding start_new_def by (intro yields_bind yields_ret) auto

text \<open>A container was seen running and healthy: the call that says so is in the list.\<close>

definition seen_healthy :: "(call \<times> string res) list \<Rightarrow> string \<Rightarrow> bool" where
  "seen_healthy cs c \<longleftrightarrow>
     (\<exists>out. (Docker (health_args c), Ok out) \<in> set cs \<and> parse_health out = (''running'', ''healthy''))"

lemma seen_healthy_append [simp]:
  "seen_healthy (cs @ ds) c \<longleftrightarrow> seen_healthy cs c \<or> seen_healthy ds c"
  by (auto simp: seen_healthy_def)

lemma issue_Ok:
  "issue P S c s = (r, t) \<Longrightarrow> trace t = trace s @ [(c, r)] \<and> statefile t = statefile s"
  by (auto simp: issue_def split: prod.splits)

lemma health_Ok:
  assumes "health P S c s = (Ok st, t)"
  shows "\<exists>out. trace t = trace s @ [(Docker (health_args c), Ok out)] \<and> parse_health out = st"
  using assms by (auto simp: health_def docker_cmd_def bindE_Ok_iff dest!: issue_Ok)

lemma mapE_health_Ok:
  assumes "mapE (health P S) new s = (Ok states, t)"
  shows "\<exists>cs. trace t = trace s @ cs \<and>
     list_all2 (\<lambda>c st. \<exists>out. (Docker (health_args c), Ok out) \<in> set cs \<and> parse_health out = st)
       new states"
  using assms
proof (induction new arbitrary: s states)
  case Nil
  then show ?case by simp
next
  case (Cons c new)
  from Cons.prems obtain st sts u where h: "health P S c s = (Ok st, u)"
    and m: "mapE (health P S) new u = (Ok sts, t)" and states: "states = st # sts"
    by (auto simp: bindE_Ok_iff)
  from health_Ok[OF h] obtain out
    where u: "trace u = trace s @ [(Docker (health_args c), Ok out)]" "parse_health out = st"
    by blast
  from Cons.IH[OF m] obtain cs where t: "trace t = trace u @ cs" and
    all: "list_all2 (\<lambda>c st. \<exists>out. (Docker (health_args c), Ok out) \<in> set cs \<and>
       parse_health out = st) new sts" by blast
  let ?cs = "(Docker (health_args c), Ok out) # cs"
  have "trace t = trace s @ ?cs" using u t by simp
  moreover from all have "list_all2 (\<lambda>c st. \<exists>out. (Docker (health_args c), Ok out) \<in> set ?cs \<and>
       parse_health out = st) new sts" by (rule list_all2_mono) auto
  ultimately show ?case using u states by fastforce
qed

lemma list_all2_imp_Ball:
  "list_all2 R xs ys \<Longrightarrow> list_all Q ys \<Longrightarrow> (\<And>x y. R x y \<Longrightarrow> Q y \<Longrightarrow> T x) \<Longrightarrow> \<forall>x \<in> set xs. T x"
  by (induction rule: list_all2_induct) auto

lemma healthy_probe_True:
  assumes "healthy_probe P S new s = (Ok (Some True), t)"
  shows "\<exists>cs. trace t = trace s @ cs \<and> (\<forall>c \<in> set new. seen_healthy cs c)"
proof -
  from assms obtain states where m: "mapE (health P S) new s = (Ok states, t)"
    and ok: "all_healthy states"
    by (auto simp: healthy_probe_def bindE_Ok_iff split: if_splits)
  from mapE_health_Ok[OF m] obtain cs where cs: "trace t = trace s @ cs" and
    all: "list_all2 (\<lambda>c st. \<exists>out. (Docker (health_args c), Ok out) \<in> set cs \<and>
       parse_health out = st) new states" by blast
  from ok have "list_all (\<lambda>st. st = (''running'', ''healthy'')) states"
    unfolding all_healthy_def by (rule list.pred_mono_strong) auto
  with all have "\<forall>c \<in> set new. seen_healthy cs c"
    by (rule list_all2_imp_Ball) (auto simp: seen_healthy_def)
  with cs show ?thesis by blast
qed

lemma clock_sleep_trace:
  "clockE P s = (r, t) \<Longrightarrow> trace t = trace s" "sleepE P d s = (r', t) \<Longrightarrow> trace t = trace s"
  by (auto simp: clockE_def sleepE_def modE_def split: prod.splits)

text \<open>A poll that leaves with a result other than \<open>late\<close> got it from its last probe.\<close>

lemma poll_until_decided:
  assumes "poll_until P probe late d p fuel s = (Ok r, t)" and "r \<noteq> late"
    and "\<And>s x t. probe s = (Ok x, t) \<Longrightarrow> \<exists>cs. trace t = trace s @ cs"
  shows "\<exists>u cs. trace u = trace s @ cs \<and> probe u = (Ok (Some r), t)"
  using assms(1)
proof (induction fuel arbitrary: s)
  case 0
  then show ?case by (simp add: haltE_def)
next
  case (Suc fuel)
  from Suc.prems obtain v u where pr: "probe s = (Ok v, u)"
    and rest: "(case v of Some r \<Rightarrow> retE r
     | None \<Rightarrow> bindE (clockE P) (\<lambda>now. if d \<le> now then retE late
         else bindE (sleepE P p) (\<lambda>_. poll_until P probe late d p fuel))) u = (Ok r, t)"
    by (auto simp: bindE_Ok_iff)
  show ?case
  proof (cases v)
    case (Some x)
    with rest pr show ?thesis by (intro exI[of _ s] exI[of _ "[]"]) auto
  next
    case None
    with rest assms(2) obtain x w y where cl: "clockE P u = (Ok x, w)"
      and sl: "sleepE P p w = (Ok (), y)"
      and rec: "poll_until P probe late d p fuel y = (Ok r, t)"
      by (auto simp: bindE_Ok_iff split: if_splits)
    have "trace y = trace u" using clock_sleep_trace(1)[OF cl] clock_sleep_trace(2)[OF sl] by simp
    with Suc.IH[OF rec] assms(3)[OF pr] show ?thesis by fastforce
  qed
qed

lemma healthy_probe_logs: "healthy_probe P S new s = (r, t) \<Longrightarrow> \<exists>cs. trace t = trace s @ cs"
proof -
  have "keeps (logs readonly) (healthy_probe P S new)"
    unfolding healthy_probe_def by (intro ro_rules call_frames)
  then show "healthy_probe P S new s = (r, t) \<Longrightarrow> \<exists>cs. trace t = trace s @ cs"
    by (auto dest!: keepsD simp: logs_def)
qed

lemma await_healthy_True:
  assumes "await_healthy P S d p new fuel s = (Ok True, t)"
  shows "\<exists>cs. trace t = trace s @ cs \<and> (\<forall>c \<in> set new. seen_healthy cs c)"
proof -
  have "\<exists>u cs. trace u = trace s @ cs \<and> healthy_probe P S new u = (Ok (Some True), t)"
    by (rule poll_until_decided[OF assms[unfolded await_healthy_def]])
       (auto dest: healthy_probe_logs)
  then obtain u cs where u: "trace u = trace s @ cs"
    and probe: "healthy_probe P S new u = (Ok (Some True), t)" by blast
  from healthy_probe_True[OF probe] u show ?thesis by fastforce
qed

text \<open>The part of a handoff before \<open>retire\<close>.\<close>

definition prepare ::
  "'w platform \<Rightarrow> stack \<Rightarrow> nat \<Rightarrow> string \<Rightarrow> string list \<Rightarrow> rat \<Rightarrow> rat \<Rightarrow> ('w st, string list \<times> bool) eff"
  where
  "prepare P S fuel svc old timeout poll =
     bindE (start_new P S svc old) (\<lambda>new.
     if length new \<noteq> length old then retE (new, False)
     else bindE (clockE P) (\<lambda>now.
       bindE (await_healthy P S (now + timeout) poll new fuel) (\<lambda>healthy. retE (new, healthy))))"

lemma bindE_if: "bindE (if b then m else n) f = (if b then bindE m f else bindE n f)"
  by simp

lemma handoff_prepare:
  "handoff P S fuel svc old timeout drain poll =
     bindE (prepare P S fuel svc old timeout poll) (\<lambda>(new, healthy).
       if \<not> healthy then abort P S new else retire P S fuel old timeout drain poll)"
  unfolding handoff_def prepare_def
  by (simp add: bindE_assoc bindE_if cong: if_cong)

lemma sp_prepare: "keeps (logs (spares old)) (prepare P S fuel svc old timeout poll)"
  unfolding prepare_def
  by (intro sp_rules sp_start_new ro_await_healthy[THEN ro_sp])

lemma prepare_new:
  assumes "prepare P S fuel svc old timeout poll s = (Ok (new, healthy), t)"
  shows "set new \<inter> set old = {}"
proof -
  from assms obtain u where "start_new P S svc old s = (Ok new, u)"
    by (auto simp: prepare_def bindE_Ok_iff split: if_splits)
  then show ?thesis by (rule yieldsD[OF yields_start_new])
qed

lemma prepare_healthy:
  assumes "prepare P S fuel svc old timeout poll s = (Ok (new, True), t)"
  shows "length new = length old \<and>
     (\<exists>cs. trace t = trace s @ cs \<and> (\<forall>c \<in> set new. seen_healthy cs c))"
proof -
  from assms obtain u v x where n: "start_new P S svc old s = (Ok new, u)"
    and c: "clockE P u = (Ok x, v)" and len: "length new = length old"
    and a: "await_healthy P S (x + timeout) poll new fuel v = (Ok True, t)"
    by (auto simp: prepare_def bindE_Ok_iff split: if_splits)
  from keepsD[OF sp_start_new[of old] n] keepsD[OF keeps_clockE[of "spares old"] c]
  obtain cs where "trace v = trace s @ cs" by (auto simp: logs_def)
  with await_healthy_True[OF a] len show ?thesis by fastforce
qed

text \<open>A handoff that reports failure made no call that stops or removes an old container.\<close>

lemma handoff_False_spares:
  assumes "handoff P S fuel svc old timeout drain poll s = (Ok False, t)"
  shows "logs (spares old) s t"
proof -
  from assms obtain new healthy u
    where p: "prepare P S fuel svc old timeout poll s = (Ok (new, healthy), u)"
      and r: "(if \<not> healthy then abort P S new else retire P S fuel old timeout drain poll) u
        = (Ok False, t)"
    by (auto simp: handoff_prepare bindE_Ok_iff)
  have "\<not> healthy" using r yieldsD[OF yields_retire] by (auto split: if_splits)
  with r have a: "abort P S new u = (Ok False, t)" by simp
  show ?thesis
    using keepsD[OF sp_prepare p] keepsD[OF sp_abort[OF prepare_new[OF p]] a]
    by (rule calls.frame_trans)
qed

section \<open>No old container is stopped before a new one is healthy\<close>

text \<open>
  In a list of calls, every call that stops or removes an old container comes after as many new
  containers as there are old ones were seen running and healthy.
\<close>

definition retired_after_healthy :: "string list \<Rightarrow> (call \<times> string res) list \<Rightarrow> bool" where
  "retired_after_healthy old cs \<longleftrightarrow>
     (\<forall>pre e post. cs = pre @ e # post \<longrightarrow> \<not> spares old (fst e) \<longrightarrow>
        (\<exists>new. length new = length old \<and> set new \<inter> set old = {} \<and> (\<forall>n \<in> set new. seen_healthy pre n)))"

definition careful :: "string list \<Rightarrow> 'w st \<Rightarrow> 'w st \<Rightarrow> bool" where
  "careful old s t \<longleftrightarrow>
     statefile t = statefile s \<and> (\<exists>cs. trace t = trace s @ cs \<and> retired_after_healthy old cs)"

lemma retired_after_healthy_append:
  assumes "retired_after_healthy old cs" and "retired_after_healthy old ds"
  shows "retired_after_healthy old (cs @ ds)"
  unfolding retired_after_healthy_def
proof (intro allI impI)
  fix pre e post
  assume split: "cs @ ds = pre @ e # post" and bad: "\<not> spares old (fst e)"
  from split consider us where "cs = pre @ e # us" | us where "pre = cs @ us" "ds = us @ e # post"
    by (auto simp: append_eq_append_conv2 append_eq_Cons_conv Cons_eq_append_conv)
  then show "\<exists>new. length new = length old \<and> set new \<inter> set old = {} \<and>
      (\<forall>n \<in> set new. seen_healthy pre n)"
  proof cases
    case 1
    with assms(1) bad show ?thesis unfolding retired_after_healthy_def by blast
  next
    case 2
    with assms(2) bad obtain new where "length new = length old" "set new \<inter> set old = {}"
      "\<forall>n \<in> set new. seen_healthy us n" unfolding retired_after_healthy_def by blast
    with 2 show ?thesis by (intro exI[of _ new]) auto
  qed
qed

lemma retired_after_healthy_spares:
  "\<forall>e \<in> set cs. spares old (fst e) \<Longrightarrow> retired_after_healthy old cs"
  by (auto simp: retired_after_healthy_def)

lemma retired_after_healthy_seen:
  assumes "length new = length old" and "set new \<inter> set old = {}"
    and "\<forall>n \<in> set new. seen_healthy cs n" and "\<forall>e \<in> set cs. spares old (fst e)"
  shows "retired_after_healthy old (cs @ ds)"
  unfolding retired_after_healthy_def
proof (intro allI impI)
  fix pre e post
  assume split: "cs @ ds = pre @ e # post" and bad: "\<not> spares old (fst e)"
  from bad assms(4) have "e \<notin> set cs" by auto
  with split obtain us where "pre = cs @ us"
    by (auto simp: append_eq_append_conv2 append_eq_Cons_conv Cons_eq_append_conv)
  with assms show "\<exists>new. length new = length old \<and> set new \<inter> set old = {} \<and>
      (\<forall>n \<in> set new. seen_healthy pre n)" by (intro exI[of _ new]) auto
qed

interpretation care: frame "careful old" for old
proof (unfold_locales, goal_cases)
  case (1 s)
  show ?case by (simp add: careful_def retired_after_healthy_def)
next
  case (2 s t u)
  then obtain cs ds where "trace t = trace s @ cs" "trace u = trace t @ ds"
    "retired_after_healthy old cs" "retired_after_healthy old ds"
    and "statefile u = statefile s" by (auto simp: careful_def)
  then show ?case
    by (auto simp: careful_def intro!: exI[of _ "cs @ ds"] retired_after_healthy_append)
qed

lemma spares_careful: "logs (spares old) s t \<Longrightarrow> careful old s t"
  by (auto simp: logs_def careful_def intro: retired_after_healthy_spares)

lemma keeps_spares_careful: "keeps (logs (spares old)) m \<Longrightarrow> keeps (careful old) m"
  by (simp add: keeps_def spares_careful)

lemma keeps_any_retire: "keeps (logs (\<lambda>_. True)) (retire P S fuel old to dr po)"
  unfolding retire_def
  by (intro sp_rules keeps_docker_cmd keeps_logs_mono[OF sp_drain_old]) simp_all

lemma careful_handoff: "keeps (careful old) (handoff P S fuel svc old timeout drain poll)"
  unfolding keeps_def
proof
  fix s
  let ?h = "handoff P S fuel svc old timeout drain poll s"
  obtain r u where p: "prepare P S fuel svc old timeout poll s = (r, u)" by fastforce
  have su: "logs (spares old) s u" by (rule keepsD[OF sp_prepare p])
  show "careful old s (snd ?h)"
  proof (cases "\<exists>new. r = Ok (new, True)")
    case True
    then obtain new where r: "r = Ok (new, True)" ..
    let ?t = "snd (retire P S fuel old timeout drain poll u)"
    have h: "snd ?h = ?t" using p r by (simp add: handoff_prepare bindE_def)
    from su prepare_healthy[OF p[unfolded r]] obtain cs where
      cs: "trace u = trace s @ cs" "length new = length old" "\<forall>c \<in> set new. seen_healthy cs c"
        "\<forall>e \<in> set cs. spares old (fst e)" "statefile u = statefile s"
      by (auto simp: logs_def)
    from keeps_any_retire obtain ds where "trace ?t = trace u @ ds" "statefile ?t = statefile u"
      unfolding keeps_def logs_def by blast
    with cs prepare_new[OF p[unfolded r]] show ?thesis
      unfolding h careful_def
      by (auto intro!: exI[of _ "cs @ ds"] retired_after_healthy_seen)
  next
    case False
    have "logs (spares old) u (snd ?h)"
    proof (cases r)
      case (Ok x)
      then obtain new where r: "r = Ok (new, False)" using False by (cases x) auto
      have "snd ?h = snd (abort P S new u)" using p r by (simp add: handoff_prepare bindE_def)
      with sp_abort[OF prepare_new[OF p[unfolded r]], of P S] show ?thesis by (simp add: keeps_def)
    qed (use p in \<open>simp_all add: handoff_prepare bindE_def calls.frame_refl\<close>)
    with su show ?thesis by (blast intro: spares_careful calls.frame_trans)
  qed
qed

lemma careful_safe_handoff: "keeps (careful old) (safe_handoff P S fuel args svc old)"
  unfolding safe_handoff_def
  by (intro care.keeps_rules careful_handoff
        keeps_spares_careful[OF ro_running[THEN ro_sp]]
        keeps_spares_careful[OF ro_all_containers[THEN ro_sp]]
        keeps_spares_careful[OF sp_abort]) auto

section \<open>main\<close>

text \<open>Only \<open>execute\<close> makes direct calls or writes the state file.\<close>

definition not_direct :: "call \<Rightarrow> bool" where
  "not_direct c = (case c of Direct _ \<Rightarrow> False | _ \<Rightarrow> True)"

lemma readonly_not_direct: "readonly c \<Longrightarrow> not_direct c"
  by (simp add: readonly_def not_direct_def split: call.splits)

lemma ro_nd: "keeps (logs readonly) m \<Longrightarrow> keeps (logs not_direct) m"
  by (erule keeps_logs_mono) (rule readonly_not_direct)

lemma sp_nd: "keeps (logs (spares old)) m \<Longrightarrow> keeps (logs not_direct) m"
  by (erule keeps_logs_mono) (auto simp: not_direct_def spares_def split: call.splits)

lemma nd_retire: "keeps (logs not_direct) (retire P S fuel old to dr po)"
  unfolding retire_def
  by (intro sp_rules keeps_docker_cmd sp_nd[OF sp_drain_old[of "[]"]]) (simp_all add: not_direct_def)

lemma nd_abort: "keeps (logs not_direct) (abort P S new)"
  by (rule sp_nd[OF sp_abort[of new "[]"]]) simp

lemma nd_handoff: "keeps (logs not_direct) (handoff P S fuel svc old to dr po)"
  unfolding handoff_prepare split_beta
  by (intro sp_rules nd_retire nd_abort sp_nd[OF sp_prepare])

lemma nd_safe_handoff: "keeps (logs not_direct) (safe_handoff P S fuel args svc old)"
  unfolding safe_handoff_def
  by (intro sp_rules nd_handoff nd_abort ro_running[THEN ro_nd] ro_all_containers[THEN ro_nd])

definition hand_all ::
  "'w platform \<Rightarrow> stack \<Rightarrow> nat \<Rightarrow> reload_args \<Rightarrow> (string \<times> string list) list
     \<Rightarrow> ('w st, (string \<times> string list) list) eff" where
  "hand_all P S fuel args todo =
     filterE (\<lambda>(svc, old). bindE (safe_handoff P S fuel args svc old) (\<lambda>ok. retE (\<not> ok))) todo"

lemma nd_hand_all: "keeps (logs not_direct) (hand_all P S fuel args todo)"
  unfolding hand_all_def split_beta by (intro sp_rules nd_safe_handoff)

text \<open>The last part of \<open>main\<close>: the in-place recreates, the final \<open>up\<close>, the state file.\<close>

definition finish ::
  "'w platform \<Rightarrow> stack \<Rightarrow> reload_args \<Rightarrow> string list \<Rightarrow> mounts \<Rightarrow> ('w st, int) eff" where
  "finish P S args recreate mounts =
     bindE (if recreate = [] then retE [] else issue P S (up_recreate recreate)) (\<lambda>_.
     bindE (issue P S up_final) (\<lambda>_.
     bindE (if a_state args then save_state P mounts else retE ()) (\<lambda>_.
     retE 0)))"

lemma execute_eq:
  "execute P S fuel args todo recreate mounts =
     bindE (hand_all P S fuel args todo)
       (\<lambda>failed. if failed \<noteq> [] then retE 1 else finish P S args recreate mounts)"
  unfolding execute_def hand_all_def finish_def by (rule refl)

lemma finish_Ok:
  assumes "finish P S args recreate mounts s = (Ok n, t)"
  shows "n = 0 \<and> statefile t = (if a_state args then saved mounts else statefile s) \<and>
     (\<exists>out out'. trace t = trace s @
        (if recreate = [] then [] else [(up_recreate recreate, Ok out)]) @ [(up_final, Ok out')])"
  using assms
  by (auto simp: finish_def bindE_Ok_iff save_state_def dest!: issue_Ok split: if_splits option.splits)

lemma finish_not_Ok:
  assumes "finish P S args recreate mounts s = (r, t)" and "\<forall>n. r \<noteq> Ok n"
  shows "statefile t = statefile s"
  using assms
  by (auto simp: finish_def bindE_def save_state_def retE_def dest!: issue_Ok
        split: if_splits option.splits prod.splits res.splits)

lemma execute_cases:
  assumes "execute P S fuel args todo recreate mounts s = (r, t)"
  shows "(r = Ok 1 \<and> logs not_direct s t) \<or>
     ((\<forall>n. r \<noteq> Ok n) \<and> statefile t = statefile s) \<or>
     (\<exists>u. r = Ok 0 \<and> logs not_direct s u \<and> finish P S args recreate mounts u = (Ok 0, t))"
proof -
  obtain r1 u where h: "hand_all P S fuel args todo s = (r1, u)" by fastforce
  have su: "logs not_direct s u" by (rule keepsD[OF nd_hand_all h])
  show ?thesis
  proof (cases r1)
    case (Ok failed)
    show ?thesis
    proof (cases "failed = []")
      case True
      with assms h Ok have f: "finish P S args recreate mounts u = (r, t)"
        by (simp add: execute_eq bindE_def)
      from su finish_not_Ok[OF f] finish_Ok[of P S args recreate mounts u _ t] f show ?thesis
        by (cases r) (auto simp: logs_def)
    next
      case False
      with assms h Ok su show ?thesis by (auto simp: execute_eq bindE_def retE_def)
    qed
  qed (use assms h su in \<open>auto simp: execute_eq bindE_def logs_def\<close>)
qed

text \<open>\<open>main\<close> up to the execution of the plan only reads.\<close>

lemma reload_main_cases:
  assumes "reload_main P fuel args s = (r, t)"
  shows "((\<forall>n. r \<noteq> Ok n) \<and> logs readonly s t) \<or> (a_dry_run args \<and> logs readonly s t) \<or>
     (\<exists>S mounts prev todo u v.
        \<not> a_dry_run args \<and> read_mounts P S args s = (Ok (mounts, prev), u) \<and>
        plan P S (mounts_changed prev mounts) u = (Ok todo, v) \<and> logs readonly s v \<and>
        execute P S fuel args todo
          (sorted_list_of_set (mounts_changed prev mounts - set (map fst todo))) mounts v = (r, t))"
proof (cases "base_command args")
  case Nil
  with assms show ?thesis by (auto simp: reload_main_def raiseE_def calls.frame_refl)
next
  case (Cons d ds)
  then obtain S where S: "Stack (base_command args) = Ok S" by (simp add: Stack_def)
  obtain r1 u where m: "read_mounts P S args s = (r1, u)" by fastforce
  have su: "logs readonly s u" by (rule keepsD[OF ro_read_mounts m])
  show ?thesis
  proof (cases r1)
    case (Ok mp)
    obtain mounts prev where mp: "mp = (mounts, prev)" by fastforce
    obtain r2 v where p: "plan P S (mounts_changed prev mounts) u = (r2, v)" by fastforce
    have sv: "logs readonly s v"
      using su keepsD[OF ro_plan p] by (rule calls.frame_trans)
    show ?thesis
    proof (cases r2)
      case (Ok todo)
      with assms Cons S m p mp \<open>r1 = Ok mp\<close> sv show ?thesis
        by (cases "a_dry_run args") (auto simp: reload_main_def bindE_def liftE_def retE_def Let_def)
    qed (use assms Cons S m p mp \<open>r1 = Ok mp\<close> sv in
          \<open>auto simp: reload_main_def bindE_def liftE_def Let_def\<close>)
  qed (use assms Cons S m su in \<open>auto simp: reload_main_def bindE_def liftE_def\<close>)
qed

lemma logs_readonly_nd: "logs readonly s t \<Longrightarrow> logs not_direct s t"
  unfolding logs_def using readonly_not_direct by blast

lemma reload_main_fail:
  assumes "reload_main P fuel args s = (r, t)" and "r \<noteq> Ok 0"
  shows "statefile t = statefile s \<and> (r = Ok 1 \<longrightarrow> logs not_direct s t)"
  using reload_main_cases[OF assms(1)]
proof (elim disjE exE conjE)
  fix S mounts prev todo u v
  assume sv: "logs readonly s v" and
    e: "execute P S fuel args todo
      (sorted_list_of_set (mounts_changed prev mounts - set (map fst todo))) mounts v = (r, t)"
  from execute_cases[OF e] assms(2) sv show ?thesis
    using calls.frame_trans[OF logs_readonly_nd[OF sv]] by (auto simp: logs_def)
qed (auto simp: logs_def dest: readonly_not_direct)

lemma read_mounts_Ok:
  assumes "read_mounts P S args s = (Ok (mounts, prev), u)"
  shows "prev = (if a_state args then load_state (statefile s) else None)"
  using assms keepsD[OF ro_specs]
  by (fastforce simp: read_mounts_def bindE_Ok_iff getE_def logs_def split: if_splits)

lemma finite_mounts_changed: "finite (mounts_changed prev cur)"
  by (simp add: mounts_changed_def split: option.split)

lemma reload_main_success:
  assumes "reload_main P fuel args s = (Ok 0, t)" and "\<not> a_dry_run args"
  shows "\<exists>(todo :: (string \<times> string list) list) recreate mounts prev pre out out'.
     prev = (if a_state args then load_state (statefile s) else None) \<and>
     set recreate = mounts_changed prev mounts - set (map fst todo) \<and>
     (\<forall>e \<in> set pre. not_direct (fst e)) \<and>
     trace t = trace s @ pre @
       (if recreate = [] then [] else [(up_recreate recreate, Ok out)]) @ [(up_final, Ok out')] \<and>
     statefile t = (if a_state args then saved mounts else statefile s)"
  using reload_main_cases[OF assms(1)]
proof (elim disjE exE conjE)
  fix S mounts prev todo u v
  assume sv: "logs readonly s v" and m: "read_mounts P S args s = (Ok (mounts, prev), u)" and
    e: "execute P S fuel args todo
      (sorted_list_of_set (mounts_changed prev mounts - set (map fst todo))) mounts v = (Ok 0, t)"
  let ?rec = "sorted_list_of_set (mounts_changed prev mounts - set (map fst todo))"
  from execute_cases[OF e] obtain w where w: "logs not_direct v w"
    and f: "finish P S args ?rec mounts w = (Ok 0, t)" by auto
  from calls.frame_trans[OF logs_readonly_nd[OF sv] w] obtain pre
    where pre: "trace w = trace s @ pre" "\<forall>e \<in> set pre. not_direct (fst e)"
      "statefile w = statefile s" by (auto simp: logs_def)
  from finish_Ok[OF f] obtain out out' where
    "trace t = trace w @ (if ?rec = [] then [] else [(up_recreate ?rec, Ok out)]) @ [(up_final, Ok out')]"
    "statefile t = (if a_state args then saved mounts else statefile w)" by blast
  moreover have "set ?rec = mounts_changed prev mounts - set (map fst todo)"
    by (simp add: finite_mounts_changed)
  ultimately show ?thesis using pre read_mounts_Ok[OF m]
    by (intro exI[of _ todo] exI[of _ ?rec] exI[of _ mounts] exI[of _ prev] exI[of _ pre]
        exI[of _ out] exI[of _ out'] conjI) simp_all
qed (use assms(2) in auto)

section \<open>The polling loops end\<close>

text \<open>
  \<open>now\<close> is the time a world has reached. The clock reads it, sleeping advances it by at least
  the time asked for, a command never sets it back and comes to an end (it has a timeout).
\<close>

definition timed :: "'w platform \<Rightarrow> ('w \<Rightarrow> rat) \<Rightarrow> bool" where
  "timed P now \<longleftrightarrow>
     (\<forall>argv to w. fst (sub_run P argv to w) \<noteq> Halt \<and> now w \<le> now (snd (sub_run P argv to w))) \<and>
     (\<forall>w. now w \<le> fst (clock P w) \<and> fst (clock P w) \<le> now (snd (clock P w))) \<and>
     (\<forall>d w. now w + d \<le> now (sleep P d w)) \<and>
     (\<forall>out. config_of P out \<noteq> Halt)"

lemma fst_bindE_Halt: "fst (m s) \<noteq> Halt \<Longrightarrow> (\<And>x t. m s = (Ok x, t) \<Longrightarrow> fst (f x t) \<noteq> Halt) \<Longrightarrow>
    fst (bindE m f s) \<noteq> Halt"
  unfolding bindE_fst_Halt by blast

lemma returns_run: "timed P now \<Longrightarrow> returns (run P argv e to)"
  unfolding run_def by (intro returns_intros) (auto simp: returns_def timed_def retE_def)

lemma returns_perform:
  assumes "timed P now"
  shows "returns (perform P S c)"
proof -
  have "returns (sub_run P argv to)" for argv to
    using assms by (simp add: returns_def timed_def)
  then show ?thesis
    by (cases c) (auto intro!: returns_intros returns_run[OF assms])
qed

lemma returns_issue: "timed P now \<Longrightarrow> returns (issue P S c)"
  using returns_perform[of P now S c]
  by (auto simp: returns_def issue_def split: prod.splits) (metis fst_conv)

lemma run_later: "timed P now \<Longrightarrow> now w \<le> now (snd (run P argv e to w))"
  unfolding run_def bindE_def catchE_def retE_def raiseE_def timed_def
  by (auto split: prod.splits res.splits) (metis snd_conv)+

lemma perform_later: "timed P now \<Longrightarrow> now w \<le> now (snd (perform P S c w))"
proof (cases c)
  case (Direct args)
  assume "timed P now"
  with Direct show ?thesis
    by (auto simp: bindE_def retE_def timed_def split: prod.splits res.splits) (metis snd_conv)+
qed (simp_all add: run_later)

definition later :: "('w \<Rightarrow> rat) \<Rightarrow> 'w st \<Rightarrow> 'w st \<Rightarrow> bool" where
  "later now s t \<longleftrightarrow> now (world s) \<le> now (world t)"

interpretation late: frame "later now" for now
  by unfold_locales (auto simp: later_def)

lemma later_issue: "timed P now \<Longrightarrow> keeps (later now) (issue P S c)"
  unfolding keeps_def later_def issue_def
  by (auto split: prod.splits) (metis perform_later snd_conv)

lemma later_health: "timed P now \<Longrightarrow> keeps (later now) (health P S c)"
  unfolding health_def docker_cmd_def by (intro late.keeps_rules later_issue)

lemma returns_stack:
  assumes "timed P now"
  shows "returns (compose P S a e t)" "returns (docker_cmd P S b)" "returns (specs P S)"
    "returns (running P S c)" "returns (all_containers P S c)" "returns (health P S c)"
    "returns (drains P S c)" "returns (image_of P S c)" "returns (has_image P S i)"
    "returns (clockE P)" "returns (sleepE P d)"
  using assms
  by (auto simp: compose_def docker_cmd_def specs_def running_def all_containers_def health_def
      drains_def image_of_def has_image_def clockE_def sleepE_def returns_def[of "clockE P"]
      timed_def split: prod.splits
      intro!: returns_intros returns_issue[OF assms] returns_lift)

text \<open>Enough fuel: one round more than the timeout has polls.\<close>

lemma poll_until_returns:
  assumes "timed P now" and "returns probe" and "keeps (later now) probe"
    and "0 < fuel" and "deadline \<le> now (world s) + of_nat (fuel - 1) * poll"
  shows "fst (poll_until P probe late deadline poll fuel s) \<noteq> Halt"
  using assms(4,5)
proof (induction fuel arbitrary: s)
  case 0
  then show ?case by simp
next
  case (Suc fuel)
  show ?case
  proof (simp only: poll_until.simps, rule fst_bindE_Halt, goal_cases)
    case 1
    show ?case using assms(2) by (simp add: returns_def)
  next
    case (2 decided t)
    have st: "now (world s) \<le> now (world t)"
      using keepsD[OF assms(3) 2] by (simp add: later_def)
    have "fst (bindE (clockE P) (\<lambda>x. if deadline \<le> x then retE late
        else bindE (sleepE P poll) (\<lambda>_. poll_until P probe late deadline poll fuel)) t) \<noteq> Halt"
    proof (rule fst_bindE_Halt, goal_cases)
      case 1
      show ?case by (simp add: clockE_def split: prod.split)
    next
      case (2 x u)
      then have x: "now (world t) \<le> x" "x \<le> now (world u)"
        using assms(1) by (auto simp: clockE_def timed_def split: prod.splits) (metis fst_conv snd_conv)+
      show ?case
      proof (cases "deadline \<le> x")
        case False
        with x st Suc.prems have fuel: "0 < fuel" by (cases fuel) auto
        let ?u = "u\<lparr>world := sleep P poll (world u)\<rparr>"
        have "now (world u) + poll \<le> now (world ?u)" using assms(1) by (simp add: timed_def)
        moreover have "of_nat fuel * poll = of_nat (fuel - 1) * poll + poll"
          using fuel by (cases fuel) (auto simp: algebra_simps)
        ultimately have "deadline \<le> now (world ?u) + of_nat (fuel - 1) * poll"
          using Suc.prems x st by simp
        from Suc.IH[OF fuel this] False show ?thesis
          by (simp add: sleepE_def modE_def bindE_def)
      qed simp
    qed
    then show ?case by (simp split: option.split)
  qed
qed

lemma clock_poll_returns:
  assumes "timed P now" and "returns probe" and "keeps (later now) probe"
    and "0 < fuel" and "timeout \<le> of_nat (fuel - 1) * poll"
  shows "returns (bindE (clockE P) (\<lambda>x. poll_until P probe late (x + timeout) poll fuel))"
  unfolding returns_def
proof
  fix s
  show "fst (bindE (clockE P) (\<lambda>x. poll_until P probe late (x + timeout) poll fuel) s) \<noteq> Halt"
  proof (rule fst_bindE_Halt, goal_cases)
    case 1
    show ?case by (simp add: clockE_def split: prod.split)
  next
    case (2 x t)
    then have "x \<le> now (world t)"
      using assms(1) by (auto simp: clockE_def timed_def split: prod.splits) (metis fst_conv snd_conv)
    with assms show ?case by (intro poll_until_returns) auto
  qed
qed

lemma returns_handoff:
  assumes P: "timed P now" and fuel: "0 < fuel" "timeout \<le> of_nat (fuel - 1) * poll"
  shows "returns (handoff P S fuel svc old timeout drain poll)"
proof -
  note stack = returns_stack[OF P] and health = later_health[OF P]
  note poll = clock_poll_returns[OF P _ _ fuel]
  have abort: "returns (abort P S new)" for new
    unfolding abort_def by (intro returns_intros stack)
  have drained: "returns (drain_old P S fuel old timeout poll)"
    unfolding drain_old_def drain_targets_def await_drained_def
    by (intro returns_intros stack poll late.keeps_rules health)
  have start: "returns (start_new P S svc old)"
    unfolding start_new_def by (intro returns_intros stack)
  have retire: "returns (retire P S fuel old timeout drain poll)"
    unfolding retire_def by (intro returns_intros stack drained)
  have wait: "returns (bindE (clockE P) (\<lambda>x. bindE (await_healthy P S (x + timeout) poll new fuel)
      (\<lambda>h. if \<not> h then abort P S new else retire P S fuel old timeout drain poll)))" for new
    unfolding await_healthy_def healthy_probe_def bindE_assoc[symmetric]
    by (intro returns_bind poll returns_if abort retire)
       (intro returns_intros stack late.keeps_rules health)+
  show ?thesis
    unfolding handoff_def by (rule returns_bind[OF start], rule returns_if, rule abort, rule wait)
qed

text \<open>The whole reload ends, with fuel for the timeout's worth of two-second polls.\<close>

lemma returns_reload_main:
  assumes P: "timed P now" and fuel: "0 < fuel" "a_timeout args \<le> of_nat (fuel - 1) * 2"
  shows "returns (reload_main P fuel args)"
proof -
  note stack = returns_stack[OF P] and issue = returns_issue[OF P]
  have abort: "returns (abort P S new)" for S new
    unfolding abort_def by (intro returns_intros stack)
  have handoff: "returns (safe_handoff P S fuel args svc old)" for S svc old
    unfolding safe_handoff_def by (intro returns_intros stack abort returns_handoff[OF P fuel])
  have save: "returns (save_state P m)" for m
    by (simp add: returns_def save_state_def split: option.split)
  have "returns (execute P S fuel args todo recr m)" for S todo recr m
    unfolding execute_def split_beta by (intro returns_intros stack issue handoff save)
  moreover have "returns (read_mounts P S args)" for S
    unfolding read_mounts_def by (intro returns_intros stack)
  moreover have step: "returns (plan_step P S sp ch f todo svc)" for S sp ch f todo svc
    unfolding plan_step_def changed_oneshots_def Let_def split_beta
    by (auto split: option.split intro!: returns_intros stack)
  have "returns (plan P S f)" for S f
    unfolding plan_def Let_def build_missing_def changed_services_def split_beta
    by (intro returns_intros stack step)
  moreover have "returns (liftE (Stack c))" for c
    by (rule returns_lift) (simp add: Stack_def split: list.split)
  ultimately show ?thesis
    unfolding reload_main_def Let_def split_beta by (intro returns_intros)
qed

section \<open>What a handoff and a plan result say\<close>

lemma issue_grows: "keeps (logs (\<lambda>_. True)) (issue P S c)"
  by (rule keeps_issue) simp

lemma docker_cmd_Ok:
  "docker_cmd P S a s = (Ok out, t) \<Longrightarrow> trace t = trace s @ [(Docker a, Ok out)]"
  by (auto simp: docker_cmd_def dest: issue_Ok)

lemma retire_Ok:
  assumes "retire P S fuel old to dr po s = (Ok b, t)"
  shows "\<exists>cs out out'. trace t =
     trace s @ cs @ [(Docker (''stop'' # old), Ok out), (Docker (''rm'' # old), Ok out')]"
proof -
  from assms obtain u v w out out' where d: "drain_old P S fuel old to po s = (Ok (), u)"
    and sl: "sleepE P dr u = (Ok (), v)" and st: "docker_cmd P S (''stop'' # old) v = (Ok out, w)"
    and rm: "docker_cmd P S (''rm'' # old) w = (Ok out', t)"
    by (auto simp: retire_def bindE_Ok_iff)
  from keepsD[OF sp_drain_old[of "[]"] d] obtain cs where "trace u = trace s @ cs"
    by (auto simp: logs_def)
  with clock_sleep_trace(2)[OF sl] docker_cmd_Ok[OF st] docker_cmd_Ok[OF rm] show ?thesis
    by fastforce
qed

lemma handoff_Ok:
  assumes "handoff P S fuel svc old timeout drain poll s = (Ok b, t)"
  shows "(b \<longrightarrow> (\<exists>cs out out'. trace t =
       trace s @ cs @ [(Docker (''stop'' # old), Ok out), (Docker (''rm'' # old), Ok out')])) \<and>
     (\<not> b \<longrightarrow> logs (spares old) s t)"
proof (cases b)
  case True
  from assms obtain new healthy u
    where p: "prepare P S fuel svc old timeout poll s = (Ok (new, healthy), u)"
      and r: "(if \<not> healthy then abort P S new else retire P S fuel old timeout drain poll) u
        = (Ok b, t)"
    by (auto simp: handoff_prepare bindE_Ok_iff)
  have "healthy" using r True yieldsD[OF yields_abort, of P S new u b t] by (auto split: if_splits)
  with r have "retire P S fuel old timeout drain poll u = (Ok b, t)" by simp
  from retire_Ok[OF this] keepsD[OF sp_prepare p] True show ?thesis
    by (auto simp: logs_def)
next
  case False
  with handoff_False_spares assms show ?thesis by auto
qed

text \<open>A planned service may be handed off: labelled, eligible, and running in one container.\<close>

definition plannable :: "specs \<Rightarrow> string \<times> string list \<Rightarrow> bool" where
  "plannable sp e \<longleftrightarrow>
     (\<exists>spec. dict_get sp (fst e) = Some spec \<and> labelled_handoff spec \<and> ineligible spec = None) \<and>
     length (snd e) = 1"

lemma plan_step_yields:
  assumes "\<forall>e \<in> set todo. plannable sp e" and "subseq (map fst todo) pre"
  shows "yields (plan_step P S sp ch f todo svc)
     (\<lambda>todo. (\<forall>e \<in> set todo. plannable sp e) \<and> subseq (map fst todo) (pre @ [svc]))"
proof -
  have keep: "yields (retE todo)
     (\<lambda>todo. (\<forall>e \<in> set todo. plannable sp e) \<and> subseq (map fst todo) (pre @ [svc]))"
    using assms by (intro yields_ret) (auto intro: list_emb_append2)
  have add: "yields (retE (todo @ [(svc, old)]))
     (\<lambda>todo. (\<forall>e \<in> set todo. plannable sp e) \<and> subseq (map fst todo) (pre @ [svc]))"
    if "dict_get sp svc = Some spec" "labelled_handoff spec" "ineligible spec = None"
      "old \<noteq> []" "\<not> 1 < length old" for spec old
  proof -
    have "length old = 1" using that(4,5) by (cases old) auto
    then show ?thesis using assms that by (intro yields_ret) (auto simp: plannable_def)
  qed
  show ?thesis
    unfolding plan_step_def
    by (auto split: option.split intro!: yields_raise yields_if yields_bind keep add)
qed

lemma plan_Ok:
  assumes "plan P S forced s = (Ok todo, t)"
  shows "\<exists>sp u. specs P S s = (Ok sp, u) \<and> (\<forall>e \<in> set todo. plannable sp e) \<and>
     subseq (map fst todo) (sort (dict_keys sp))"
proof -
  from assms obtain sp u v w ch where sp: "specs P S s = (Ok sp, u)"
    and f: "foldE (plan_step P S sp ch forced) [] (sort (dict_keys sp)) v = (Ok todo, w)"
    by (auto simp: plan_def bindE_Ok_iff Let_def)
  have "yields (foldE (plan_step P S sp ch forced) [] (sort (dict_keys sp)))
      ((\<lambda>pre todo. (\<forall>e \<in> set todo. plannable sp e) \<and> subseq (map fst todo) pre)
        (sort (dict_keys sp)))"
    by (rule yields_foldE[where ps = "[]", simplified]) (auto intro: plan_step_yields)
  from yieldsD[OF this f] sp show ?thesis by auto
qed

lemma dict_get_mount_fingerprints:
  "distinct (map fst sp) \<Longrightarrow>
     dict_get (mount_fingerprints P w sp) svc = map_option (service_fingerprints P w) (dict_get sp svc)"
  unfolding mount_fingerprints_eq
  by (subst dict_get_fold_dict_set) (auto split: option.split simp del: dict_get_eq_None)

lemma distinct_fold_dict_set:
  "distinct (dict_keys d) \<Longrightarrow>
     distinct (dict_keys (fold (\<lambda>ss d. dict_set (fst ss) (g (snd ss)) d) xs d))"
  by (induction xs arbitrary: d) auto

lemma distinct_mount_fingerprints: "distinct (dict_keys (mount_fingerprints P w sp))"
  unfolding mount_fingerprints_eq by (rule distinct_fold_dict_set) simp

end
