(* ===== verification/Compose_Success.thy ===== *)
theory Compose_Success
  imports Compose_Correct
begin

text \<open>
  What a reload that ends with 0 has done: each planned service was handed over, in the order of the plan,
  and the rest of the changed ones were recreated. What docker said when a service was planned, and which
  calls can start a service that another depends on.
\<close>

section \<open>Handing over\<close>

text \<open>
  A list of calls that hands the planned services over one after the other: for each service the calls up to the
  stop saw as many other containers as there are old ones healthy, and the stop and the removal succeeded.
\<close>

fun handed_over :: "(string \<times> string list) list \<Rightarrow> (call \<times> string res) list \<Rightarrow> bool" where
  "handed_over [] cs \<longleftrightarrow> cs = []"
| "handed_over ((svc, old) # todo) cs \<longleftrightarrow>
     (\<exists>before out out' after new.
        cs = before @ [(Docker (''stop'' # old), Ok out), (Docker (''rm'' # old), Ok out')] @ after \<and>
        length new = length old \<and> set new \<inter> set old = {} \<and> list_all (seen_healthy before) new \<and>
        handed_over todo after)"

lemma handoff_True:
  assumes "handoff P S fuel svc old timeout drain poll s = (Ok True, t)"
  shows "\<exists>cs new out out'. trace t = trace s @ cs @ [(Docker (''stop'' # old), Ok out), (Docker (''rm'' # old), Ok out')] \<and>
    length new = length old \<and> set new \<inter> set old = {} \<and> list_all (seen_healthy cs) new"
proof -
  from assms obtain new healthy u
    where p: "prepare P S fuel svc old timeout poll s = (Ok (new, healthy), u)"
      and r: "(if \<not> healthy then abort P S new else retire P S fuel old timeout drain poll) u = (Ok True, t)"
    by (auto simp: handoff_prepare bindE_Ok_iff)
  have h: "healthy" using r yieldsD[OF yields_abort, of P S new u True t] by (auto split: if_splits)
  obtain cs where cs: "trace u = trace s @ cs" "\<forall>c \<in> set new. seen_healthy cs c" and len: "length new = length old"
    using prepare_healthy[of P S fuel svc old timeout poll s new u] p h by auto
  obtain ds out out' where "trace t = trace u @ ds @ [(Docker (''stop'' # old), Ok out), (Docker (''rm'' # old), Ok out')]"
    using retire_Ok[of P S fuel old timeout drain poll u True t] r h by auto
  then have "trace t = trace s @ (cs @ ds) @ [(Docker (''stop'' # old), Ok out), (Docker (''rm'' # old), Ok out')]"
    using cs(1) by simp
  moreover have "list_all (seen_healthy (cs @ ds)) new" using cs(2) by (simp add: list_all_iff)
  ultimately show ?thesis using prepare_new[OF p] len by blast
qed

lemma safe_handoff_True:
  assumes "safe_handoff P S fuel args svc old s = (Ok True, t)"
  shows "handoff P S fuel svc old (a_timeout args) (a_drain args) 2 s = (Ok True, t)"
proof -
  let ?h = "\<lambda>e :: exc. catchE
         (bindE (anyE (\<lambda>c. bindE (running P S svc) (\<lambda>r. retE (c \<in> set r))) old) (\<lambda>still.
          if still
          then bindE (all_containers P S svc) (\<lambda>cs. abort P S (filter (\<lambda>c. c \<notin> set old) cs))
          else retE False))
         is_CalledProcessError (\<lambda>_. retE False)"
  have never: "yields (?h e) (\<lambda>b. \<not> b)" for e
    by (intro yields_catch yields_bind yields_if yields_abort yields_ret) simp_all
  show ?thesis
    using assms yieldsD[OF never] unfolding safe_handoff_def catchE_def[of "handoff P S fuel svc old (a_timeout args) (a_drain args) 2"]
    by (auto split: prod.splits res.splits if_splits)
qed

lemma hand_all_Nil:
  assumes "hand_all P S fuel args todo s = (Ok [], t)"
  shows "\<exists>hs. trace t = trace s @ hs \<and> handed_over todo hs"
  using assms
proof (induction todo arbitrary: s)
  case Nil
  then show ?case by (simp add: hand_all_def)
next
  case (Cons x todo)
  obtain svc old where x: "x = (svc, old)" by (cases x)
  from Cons.prems obtain ok u ys where h: "safe_handoff P S fuel args svc old s = (Ok ok, u)"
    and r: "hand_all P S fuel args todo u = (Ok ys, t)" and e: "[] = (if \<not> ok then (svc, old) # ys else ys)"
    by (auto simp: hand_all_def x bindE_Ok_iff)
  then have "ok" "ys = []" by (auto split: if_splits)
  with Cons.IH r obtain hs where hs: "trace t = trace u @ hs" "handed_over todo hs" by blast
  from handoff_True[OF safe_handoff_True] h \<open>ok\<close> obtain cs new out out' where
    "trace u = trace s @ cs @ [(Docker (''stop'' # old), Ok out), (Docker (''rm'' # old), Ok out')]"
    "length new = length old" "set new \<inter> set old = {}" "list_all (seen_healthy cs) new"
    by (metis (full_types))
  then show ?case
    using hs(1,2) unfolding x handed_over.simps
    by (intro exI[of _ "cs @ [(Docker (''stop'' # old), Ok out), (Docker (''rm'' # old), Ok out')] @ hs"] conjI exI[of _ cs]
        exI[of _ out] exI[of _ out'] exI[of _ hs] exI[of _ new]) simp_all
qed

text \<open>The fingerprints this run computed, from the config it read first, and the ones recorded.\<close>

definition observed :: "'w platform \<Rightarrow> stack \<Rightarrow> reload_args \<Rightarrow> 'w st \<Rightarrow> mounts \<Rightarrow> mounts option \<Rightarrow> 'w st \<Rightarrow> bool" where
  "observed P S args s mounts prev u \<longleftrightarrow>
     (if a_state args
      then (\<exists>sp. specs P S s = (Ok sp, u) \<and> mounts = mount_fingerprints P (world u) sp \<and> prev = load_state (statefile s))
      else mounts = [] \<and> prev = None \<and> u = s)"

lemma read_mounts_observed:
  assumes "read_mounts P S args s = (Ok (mounts, prev), u)"
  shows "observed P S args s mounts prev u"
proof (cases "a_state args")
  case True
  then obtain sp where sp: "specs P S s = (Ok sp, u)" and m: "mounts = mount_fingerprints P (world u) sp"
    "prev = load_state (statefile u)"
    using assms by (auto simp: read_mounts_def bindE_Ok_iff getE_def)
  have "statefile u = statefile s" using keepsD[OF ro_specs sp] by (simp add: logs_def)
  then show ?thesis using True sp m by (auto simp: observed_def)
qed (use assms in \<open>simp add: observed_def read_mounts_def\<close>)

lemma reload_main_runs:
  assumes "reload_main P fuel args s = (Ok 0, t)" and "\<not> a_dry_run args"
  shows "\<exists>S mounts prev u todo v. Stack (base_command args) = Ok S \<and> read_mounts P S args s = (Ok (mounts, prev), u) \<and>
    plan P S (mounts_changed prev mounts) u = (Ok todo, v) \<and> logs readonly s v \<and>
    execute P S fuel args todo (sorted_list_of_set (mounts_changed prev mounts - set (map fst todo))) mounts v = (Ok 0, t)"
proof -
  have "base_command args \<noteq> []" using assms(1) by (auto simp: reload_main_def)
  then obtain S where S: "Stack (base_command args) = Ok S" by (cases "base_command args") (auto simp: Stack_def)
  obtain mounts prev u todo v where m: "read_mounts P S args s = (Ok (mounts, prev), u)"
    and p: "plan P S (mounts_changed prev mounts) u = (Ok todo, v)"
    and e: "execute P S fuel args todo (sorted_list_of_set (mounts_changed prev mounts - set (map fst todo))) mounts v = (Ok 0, t)"
    using assms S by (auto simp: reload_main_def bindE_Ok_iff Let_def split: if_splits prod.splits)
  have "logs readonly s v" using keepsD[OF ro_read_mounts m] keepsD[OF ro_plan p] by (rule calls.frame_trans)
  with S m p e show ?thesis by blast
qed

lemma execute_Ok:
  assumes "execute P S fuel args todo recreate mounts v = (Ok 0, t)"
  shows "\<exists>hs out out'. handed_over todo hs \<and> list_all (\<lambda>e. not_direct (fst e)) hs \<and>
    trace t = trace v @ hs @ (if recreate = [] then [] else [(up_recreate recreate, Ok out)]) @ [(up_final, Ok out')] \<and>
    statefile t = (if a_state args then saved mounts else statefile v)"
proof -
  from assms obtain failed w where h: "hand_all P S fuel args todo v = (Ok failed, w)"
    and r: "(if failed \<noteq> [] then retE 1 else finish P S args recreate mounts) w = (Ok 0, t)"
    by (auto simp: execute_eq bindE_Ok_iff)
  have f: "finish P S args recreate mounts w = (Ok 0, t)" and "failed = []" using r by (auto split: if_splits)
  with hand_all_Nil h obtain hs where hs: "trace w = trace v @ hs" "handed_over todo hs" by blast
  have nd: "list_all (\<lambda>e. not_direct (fst e)) hs" "statefile w = statefile v"
    using keepsD[OF nd_hand_all h] hs(1) by (auto simp: logs_def list_all_iff)
  from finish_Ok[OF f] hs nd show ?thesis by fastforce
qed

lemma reload_success:
  assumes "reload_main P fuel args s = (Ok 0, t)" and "\<not> a_dry_run args"
  shows "\<exists>S mounts prev u todo v hs recreate out out'.
     Stack (base_command args) = Ok S \<and> observed P S args s mounts prev u \<and>
     plan P S (mounts_changed prev mounts) u = (Ok todo, v) \<and> logs readonly s v \<and>
     handed_over todo hs \<and> list_all (\<lambda>e. not_direct (fst e)) hs \<and>
     sorted_wrt (<) recreate \<and> set recreate = mounts_changed prev mounts - set (map fst todo) \<and>
     trace t = trace v @ hs @ (if recreate = [] then [] else [(up_recreate recreate, Ok out)]) @ [(up_final, Ok out')] \<and>
     statefile t = (if a_state args then saved mounts else statefile s)"
proof -
  obtain S mounts prev u todo v where S: "Stack (base_command args) = Ok S"
    and m: "read_mounts P S args s = (Ok (mounts, prev), u)"
    and p: "plan P S (mounts_changed prev mounts) u = (Ok todo, v)" and ro: "logs readonly s v"
    and e: "execute P S fuel args todo (sorted_list_of_set (mounts_changed prev mounts - set (map fst todo))) mounts v = (Ok 0, t)"
    using reload_main_runs[OF assms] by blast
  let ?rec = "sorted_list_of_set (mounts_changed prev mounts - set (map fst todo))"
  have r: "sorted_wrt (<) ?rec" "set ?rec = mounts_changed prev mounts - set (map fst todo)"
    by (simp_all add: finite_mounts_changed)
  have sf: "statefile v = statefile s" using ro by (simp add: logs_def)
  from execute_Ok[OF e] obtain hs out out' where "handed_over todo hs" "list_all (\<lambda>e. not_direct (fst e)) hs"
    "trace t = trace v @ hs @ (if ?rec = [] then [] else [(up_recreate ?rec, Ok out)]) @ [(up_final, Ok out')]"
    "statefile t = (if a_state args then saved mounts else statefile v)" by blast
  with S p ro r sf read_mounts_observed[OF m] show ?thesis by metis
qed

section \<open>What docker said about a planned service\<close>

text \<open>
  The calls in a trace that tell which containers of a service run, and whether compose would recreate it: the
  dry run names one of its containers, which the listing of all containers maps to the service.
\<close>

definition told_running :: "(call \<times> string res) list \<Rightarrow> string \<Rightarrow> string list \<Rightarrow> bool" where
  "told_running cs svc ids \<longleftrightarrow>
     (\<exists>out. (Compose [''ps'', ''--quiet'', svc] False None, Ok out) \<in> set cs \<and> split_ws out = ids)"

definition told_changed :: "(call \<times> string res) list \<Rightarrow> string \<Rightarrow> bool" where
  "told_changed cs svc \<longleftrightarrow>
     (\<exists>args out ps name. (Compose ([''--dry-run'', ''up'', ''--detach'', ''--no-deps''] @ args) True (Some DRY_RUN_TIMEOUT), Ok out) \<in> set cs \<and>
        (Compose [''ps'', ''--all'', ''--format'', ''{{.Name}}'' @ [CHR 0x09] @ ''{{.Service}}''] False None, Ok ps) \<in> set cs \<and>
        name \<in> set (find_recreate out) \<and> dict_get (service_table ps) name = Some svc)"

lemma told_mono:
  "set cs \<subseteq> set ds \<Longrightarrow> told_running cs svc ids \<Longrightarrow> told_running ds svc ids"
  "set cs \<subseteq> set ds \<Longrightarrow> told_changed cs svc \<Longrightarrow> told_changed ds svc"
  unfolding told_running_def told_changed_def by blast+

lemma running_told:
  assumes "running P S svc s = (Ok ids, t)"
  shows "\<exists>cs. trace t = trace s @ cs \<and> told_running cs svc ids"
  using assms by (auto simp: running_def compose_def told_running_def bindE_Ok_iff dest!: issue_Ok)

lemma changed_told:
  assumes "changed_services P S services s = (Ok ch, t)"
  shows "\<exists>cs. trace t = trace s @ cs \<and> (\<forall>svc\<in>ch. told_changed cs svc)"
proof (cases "services = []")
  case False
  from assms[unfolded changed_services_def Let_def] False obtain o1 u out v
    where 1: "compose P S [''pull'', ''--quiet'', ''--policy'', ''missing'', ''--ignore-buildable''] True (Some PULL_TIMEOUT) s = (Ok o1, u)"
      and 2: "compose P S ([''--dry-run'', ''up'', ''--detach'', ''--no-deps''] @ sort services) True (Some DRY_RUN_TIMEOUT) u = (Ok out, v)"
      and 3: "(if find_recreate out = [] then retE {} else
        bindE (compose P S [''ps'', ''--all'', ''--format'', ''{{.Name}}'' @ [CHR 0x09] @ ''{{.Service}}''] False None)
          (\<lambda>ps. retE (set (List.map_filter (dict_get (service_table ps)) (find_recreate out))))) v = (Ok ch, t)"
    by (auto simp: bindE_Ok_iff)
  note t12 = issue_Ok[OF 1[unfolded compose_def]] issue_Ok[OF 2[unfolded compose_def]]
  show ?thesis
  proof (cases "find_recreate out = []")
    case True
    then show ?thesis using 3 t12 by auto
  next
    case rc: False
    then obtain ps where 4: "compose P S [''ps'', ''--all'', ''--format'', ''{{.Name}}'' @ [CHR 0x09] @ ''{{.Service}}''] False None v = (Ok ps, t)"
      and ch: "ch = set (List.map_filter (dict_get (service_table ps)) (find_recreate out))"
      using 3 by (auto simp: bindE_Ok_iff)
    let ?cs = "[(Compose [''pull'', ''--quiet'', ''--policy'', ''missing'', ''--ignore-buildable''] True (Some PULL_TIMEOUT), Ok o1),
      (Compose ([''--dry-run'', ''up'', ''--detach'', ''--no-deps''] @ sort services) True (Some DRY_RUN_TIMEOUT), Ok out),
      (Compose [''ps'', ''--all'', ''--format'', ''{{.Name}}'' @ [CHR 0x09] @ ''{{.Service}}''] False None, Ok ps)]"
    have "trace t = trace s @ ?cs" using t12 issue_Ok[OF 4[unfolded compose_def]] by simp
    moreover have "told_changed ?cs svc" if "svc \<in> ch" for svc
    proof -
      from that ch obtain name where n: "name \<in> set (find_recreate out)" "dict_get (service_table ps) name = Some svc"
        by (auto simp: List.map_filter_def)
      show ?thesis
        unfolding told_changed_def
        by (intro exI[of _ "sort services"] exI[of _ out] exI[of _ ps] exI[of _ name] conjI n) (simp_all only: list.set insert_iff simp_thms)
    qed
    ultimately show ?thesis by blast
  qed
qed (use assms in \<open>auto simp: changed_services_def\<close>)

text \<open>A planned service: what the config says of it, and what docker said of it in the calls of the plan.\<close>

definition planned_well :: "specs \<Rightarrow> string set \<Rightarrow> (call \<times> string res) list \<Rightarrow> string \<times> string list \<Rightarrow> bool" where
  "planned_well sp forced cs e \<longleftrightarrow>
     (\<exists>spec. dict_get sp (fst e) = Some spec \<and> labelled_handoff spec \<and> ineligible spec = None) \<and>
     length (snd e) = 1 \<and> told_running cs (fst e) (snd e) \<and> (fst e \<in> forced \<or> told_changed cs (fst e))"

lemma planned_well_mono: "set cs \<subseteq> set ds \<Longrightarrow> planned_well sp forced cs e \<Longrightarrow> planned_well sp forced ds e"
  using told_mono by (auto simp: planned_well_def)

lemma plan_step_told:
  assumes "plan_step P S sp ch forced todo svc s = (Ok todo', t)"
    and "\<forall>e\<in>set todo. planned_well sp forced cs e" and "\<forall>x\<in>ch. told_changed cs x"
  shows "\<exists>ds. trace t = trace s @ ds \<and> (\<forall>e\<in>set todo'. planned_well sp forced (cs @ ds) e) \<and>
    (todo' = todo \<or> (\<exists>ids. todo' = todo @ [(svc, ids)]))"
proof -
  obtain ds where ds: "trace t = trace s @ ds" using keepsD[OF ro_plan_step assms(1)] by (auto simp: logs_def)
  have keep: "\<forall>e\<in>set todo. planned_well sp forced (cs @ ds) e" using assms(2) planned_well_mono[of cs "cs @ ds"] by auto
  show ?thesis
  proof (cases "todo' = todo")
    case False
    from assms(1) obtain spec where spec: "dict_get sp svc = Some spec" by (auto simp: plan_step_def split: option.splits)
    have lab: "labelled_handoff spec" using assms(1) False by (auto simp: plan_step_def spec split: if_splits)
    from assms(1) spec lab obtain ids u where 1: "running P S svc s = (Ok ids, u)"
      and 2: "(if ids = [] then retE todo
            else if svc \<notin> forced \<and> svc \<notin> ch then retE todo
            else if length ids > 1 then retE todo
            else if ineligible spec \<noteq> None then retE todo
            else bindE (changed_oneshots P S spec sp) (\<lambda>pending.
              if pending \<noteq> [] then retE todo else retE (todo @ [(svc, ids)]))) u = (Ok todo', t)"
      by (auto simp: plan_step_def bindE_Ok_iff)
    have ids: "ids \<noteq> []" "svc \<in> forced \<or> svc \<in> ch" "\<not> 1 < length ids" "ineligible spec = None"
      using 2 False by (auto split: if_splits)
    have todo': "todo' = todo @ [(svc, ids)]" using 2 ids False by (auto simp: bindE_Ok_iff split: if_splits)
    obtain rs where rs: "trace u = trace s @ rs" "told_running rs svc ids" using running_told[OF 1] by blast
    obtain qs where "trace t = trace u @ qs"
    proof -
      have "keeps (logs readonly) (changed_oneshots P S spec sp)" by (rule ro_changed_oneshots)
      then have "logs readonly u t" using 2 ids by (auto simp: bindE_Ok_iff split: if_splits dest: keepsD)
      then show ?thesis using that by (auto simp: logs_def)
    qed
    then have "set rs \<subseteq> set (cs @ ds)" using ds rs(1) by auto
    then have "told_running (cs @ ds) svc ids" using told_mono(1) rs(2) by blast
    moreover have "svc \<in> forced \<or> told_changed (cs @ ds) svc" using ids(2) assms(3) told_mono(2)[of cs "cs @ ds"] by auto
    moreover have "length ids = 1" using ids(1,3) by (cases ids) auto
    ultimately have "planned_well sp forced (cs @ ds) (svc, ids)" using spec lab ids(4) by (simp add: planned_well_def)
    then show ?thesis using ds keep todo' by (intro exI[of _ ds]) auto
  qed (use ds keep in auto)
qed

lemma plan_steps_told:
  assumes "foldE (plan_step P S sp ch forced) todo svcs s = (Ok todo', t)"
    and "\<forall>e\<in>set todo. planned_well sp forced cs e" and "\<forall>x\<in>ch. told_changed cs x"
  shows "\<exists>ds. trace t = trace s @ ds \<and> (\<forall>e\<in>set todo'. planned_well sp forced (cs @ ds) e) \<and>
    (\<exists>more. map fst todo' = map fst todo @ more \<and> subseq more svcs)"
  using assms
proof (induction svcs arbitrary: todo s cs)
  case (Cons svc svcs)
  from Cons.prems(1) obtain mid u where 1: "plan_step P S sp ch forced todo svc s = (Ok mid, u)"
    and 2: "foldE (plan_step P S sp ch forced) mid svcs u = (Ok todo', t)" by (auto simp: bindE_Ok_iff)
  from plan_step_told[OF 1 Cons.prems(2,3)] obtain ds where ds: "trace u = trace s @ ds"
    "\<forall>e\<in>set mid. planned_well sp forced (cs @ ds) e" "mid = todo \<or> (\<exists>ids. mid = todo @ [(svc, ids)])" by blast
  have "\<forall>x\<in>ch. told_changed (cs @ ds) x" using Cons.prems(3) told_mono(2)[of cs "cs @ ds"] by auto
  from Cons.IH[OF 2 ds(2) this] obtain es rest where es: "trace t = trace u @ es"
    "\<forall>e\<in>set todo'. planned_well sp forced ((cs @ ds) @ es) e" "map fst todo' = map fst mid @ rest" "subseq rest svcs" by blast
  have "\<exists>more. map fst todo' = map fst todo @ more \<and> subseq more (svc # svcs)"
    using ds(3) es(3,4) by (auto intro: list_emb_Cons)
  then show ?case using ds es by (intro exI[of _ "ds @ es"]) auto
qed (auto intro: exI[of _ "[]"])

lemma subseq_sorted_wrt: "subseq xs ys \<Longrightarrow> sorted_wrt P ys \<Longrightarrow> sorted_wrt P xs"
  by (induction rule: list_emb.induct) (auto dest: list_emb_set)

text \<open>The config is a dictionary: no service is in it twice.\<close>

definition config_dict :: "'w platform \<Rightarrow> bool" where
  "config_dict P \<longleftrightarrow> (\<forall>out sp. config_of P out = Ok sp \<longrightarrow> distinct (map fst sp))"

lemma specs_config: "specs P S s = (Ok sp, t) \<Longrightarrow> \<exists>out. config_of P out = Ok sp"
  by (auto simp: specs_def bindE_Ok_iff liftE_def)

lemma plan_told:
  assumes "config_dict P" and "plan P S forced s = (Ok todo, t)"
  shows "\<exists>sp u cs. specs P S s = (Ok sp, u) \<and> trace t = trace s @ cs \<and>
    list_all (planned_well sp forced cs) todo \<and> sorted_wrt (<) (map fst todo)"
proof -
  from assms(2) obtain sp u b v ch w where sp: "specs P S s = (Ok sp, u)" and b: "build_missing P S sp u = (Ok b, v)"
    and ch: "changed_services P S (map fst (filter (\<lambda>(s, v). labelled_handoff v) sp)) v = (Ok ch, w)"
    and f: "foldE (plan_step P S sp ch forced) [] (sort (dict_keys sp)) w = (Ok todo, t)"
    by (auto simp: plan_def bindE_Ok_iff Let_def)
  obtain cs0 where cs0: "trace v = trace s @ cs0"
    using calls.frame_trans[OF keepsD[OF ro_specs sp] keepsD[OF ro_build_missing b]] by (auto simp: logs_def)
  obtain cs1 where cs1: "trace w = trace v @ cs1" "\<forall>x\<in>ch. told_changed cs1 x" using changed_told[OF ch] by blast
  have "\<forall>x\<in>ch. told_changed (cs0 @ cs1) x" using cs1(2) told_mono(2)[of cs1 "cs0 @ cs1"] by auto
  from plan_steps_told[OF f _ this] obtain ds where ds: "trace t = trace w @ ds"
    "\<forall>e\<in>set todo. planned_well sp forced ((cs0 @ cs1) @ ds) e" "subseq (map fst todo) (sort (dict_keys sp))" by auto
  have "distinct (map fst sp)" using assms(1) specs_config[OF sp] by (auto simp: config_dict_def)
  then have "sorted_wrt (<) (sort (dict_keys sp))" by (simp add: dict_keys_def strict_sorted_iff)
  then have "sorted_wrt (<) (map fst todo)" using ds(3) subseq_sorted_wrt by blast
  then show ?thesis using sp cs0 cs1(1) ds(1,2) by (intro exI[of _ sp] exI[of _ u] exI[of _ "(cs0 @ cs1) @ ds"]) (simp add: list_all_iff)
qed

section \<open>Services that others depend on\<close>

text \<open>
  A call that starts no service but the ones it names: it reads, pulls or builds, it is an \<open>up\<close> with
  \<open>--no-deps\<close>, or it inspects, marks, stops or removes a container.
\<close>

definition starts_no_dependency :: "call \<Rightarrow> bool" where
  "starts_no_dependency c =
     (case c of
        Compose args _ _ \<Rightarrow>
          args \<noteq> [] \<and> (hd args \<in> {''config'', ''ps'', ''pull'', ''build'', ''--dry-run''} \<or> hd args = ''up'' \<and> ''--no-deps'' \<in> set args)
      | Docker args \<Rightarrow> args \<noteq> [] \<and> hd args \<in> {''inspect'', ''logs'', ''image'', ''exec'', ''stop'', ''rm''}
      | Direct args \<Rightarrow> ''--no-deps'' \<in> set args)"

lemma readonly_alone: "readonly c \<Longrightarrow> starts_no_dependency c"
  by (auto simp: readonly_def starts_no_dependency_def split: call.splits)

lemma ro_alone: "keeps (logs readonly) m \<Longrightarrow> keeps (logs starts_no_dependency) m"
  by (erule keeps_logs_mono) (rule readonly_alone)

lemma alone_abort: "keeps (logs starts_no_dependency) (abort P S new)"
  unfolding abort_def by (intro sp_rules keeps_docker_cmd) (simp_all add: starts_no_dependency_def)

lemma alone_handoff: "keeps (logs starts_no_dependency) (handoff P S fuel svc old to dr po)"
proof -
  have start: "keeps (logs starts_no_dependency) (start_new P S svc old)"
    unfolding start_new_def
    by (intro sp_rules keeps_compose ro_all_containers[THEN ro_alone]) (simp add: starts_no_dependency_def)
  have drain: "keeps (logs starts_no_dependency) (drain_old P S fuel old to po)"
    unfolding drain_old_def drain_targets_def
    by (intro sp_rules keeps_docker_cmd ro_drains[THEN ro_alone] ro_await_drained[THEN ro_alone])
       (simp add: starts_no_dependency_def)
  have ret: "keeps (logs starts_no_dependency) (retire P S fuel old to dr po)"
    unfolding retire_def by (intro sp_rules keeps_docker_cmd drain) (simp_all add: starts_no_dependency_def)
  show ?thesis
    unfolding handoff_def by (intro sp_rules start alone_abort ret ro_await_healthy[THEN ro_alone])
qed

lemma alone_hand_all: "keeps (logs starts_no_dependency) (hand_all P S fuel args todo)"
  unfolding hand_all_def split_beta safe_handoff_def
  by (intro sp_rules alone_handoff alone_abort ro_running[THEN ro_alone] ro_all_containers[THEN ro_alone])

text \<open>
  Whatever config compose prints, the service is in it and the check of its one-shots, whenever it gets an
  answer, finds one that has not run with the image it is to have.
\<close>

definition migrating :: "'w platform \<Rightarrow> stack \<Rightarrow> string \<Rightarrow> bool" where
  "migrating P S svc \<longleftrightarrow>
     (\<forall>out sp. config_of P out = Ok sp \<longrightarrow>
        (\<exists>spec. dict_get sp svc = Some spec \<and> (\<forall>u pending v. changed_oneshots P S spec sp u = (Ok pending, v) \<longrightarrow> pending \<noteq> [])))"

lemma migrating_step:
  assumes "dict_get sp svc = Some spec" and "\<And>u pending v. changed_oneshots P S spec sp u = (Ok pending, v) \<Longrightarrow> pending \<noteq> []"
    and "svc \<notin> fst ` set todo"
  shows "yields (plan_step P S sp ch forced todo x) (\<lambda>todo. svc \<notin> fst ` set todo)"
proof (cases "x = svc")
  case True
  have none: "yields (bindE (changed_oneshots P S spec sp)
      (\<lambda>pending. if pending \<noteq> [] then retE todo else retE (todo @ [(svc, old)]))) (\<lambda>todo. svc \<notin> fst ` set todo)" for old
    using assms(2,3) by (auto simp: yields_def bindE_Ok_iff split: if_splits)
  then show ?thesis
    using assms(3) unfolding True plan_step_def assms(1) option.case
    by - ((rule yields_if | rule yields_ret | rule none | rule yields_bind | assumption)+)
next
  case False
  then show ?thesis
    using assms(3) unfolding plan_step_def
    by (auto split: option.split intro!: yields_raise yields_if yields_bind yields_ret)
qed

lemma migrating_not_planned:
  assumes "migrating P S svc" and "plan P S forced s = (Ok todo, t)"
  shows "svc \<notin> set (map fst todo)"
proof -
  from assms(2) obtain sp u ch w where sp: "specs P S s = (Ok sp, u)"
    and f: "foldE (plan_step P S sp ch forced) [] (sort (dict_keys sp)) w = (Ok todo, t)"
    by (auto simp: plan_def bindE_Ok_iff Let_def)
  obtain spec where "dict_get sp svc = Some spec"
    "\<And>u pending v. changed_oneshots P S spec sp u = (Ok pending, v) \<Longrightarrow> pending \<noteq> []"
    using assms(1) specs_config[OF sp] unfolding migrating_def by blast
  then have step: "yields (plan_step P S sp ch forced acc x) (\<lambda>todo. svc \<notin> fst ` set todo)" if "svc \<notin> fst ` set acc" for acc x
    using migrating_step that by blast
  have "yields (foldE (plan_step P S sp ch forced) [] (sort (dict_keys sp))) ((\<lambda>_ todo. svc \<notin> fst ` set todo) ([] @ sort (dict_keys sp)))"
    by (rule yields_foldE) (use step in auto)
  from yieldsD[OF this f] show ?thesis by simp
qed

lemma migrating_recreated:
  assumes "reload_main P fuel args s = (Ok 0, t)" and "\<not> a_dry_run args" and "Stack (base_command args) = Ok S"
    and "observed P S args s mounts prev u" and "svc \<in> mounts_changed prev mounts" and "migrating P S svc"
  shows "\<exists>cs recreate out out'. svc \<in> set recreate \<and> list_all (\<lambda>e. starts_no_dependency (fst e)) cs \<and>
    trace t = trace s @ cs @ [(up_recreate recreate, Ok out), (up_final, Ok out')]"
proof -
  obtain S' mounts' prev' u' todo v where S': "Stack (base_command args) = Ok S'"
    and m: "read_mounts P S' args s = (Ok (mounts', prev'), u')"
    and p: "plan P S' (mounts_changed prev' mounts') u' = (Ok todo, v)" and ro: "logs readonly s v"
    and e: "execute P S' fuel args todo (sorted_list_of_set (mounts_changed prev' mounts' - set (map fst todo))) mounts' v = (Ok 0, t)"
    using reload_main_runs[OF assms(1,2)] by blast
  have S: "S' = S" using S' assms(3) by simp
  have same: "mounts' = mounts" "prev' = prev"
    using read_mounts_observed[OF m] assms(4) by (auto simp: observed_def S split: if_splits)
  let ?rec = "sorted_list_of_set (mounts_changed prev mounts - set (map fst todo))"
  have "svc \<notin> set (map fst todo)" using migrating_not_planned assms(6) p S by blast
  then have rec: "svc \<in> set ?rec" using assms(5) by (simp add: finite_mounts_changed)
  then have ne: "?rec \<noteq> []" by auto
  from e obtain failed w where h: "hand_all P S fuel args todo v = (Ok failed, w)"
    and r: "(if failed \<noteq> [] then retE 1 else finish P S args ?rec mounts) w = (Ok 0, t)"
    unfolding execute_eq bindE_Ok_iff S same by blast
  have f: "finish P S args ?rec mounts w = (Ok 0, t)" using r by (auto split: if_splits)
  have "logs starts_no_dependency s w"
    using calls.frame_trans[OF _ keepsD[OF alone_hand_all h]] ro readonly_alone unfolding logs_def by blast
  then obtain cs where "trace w = trace s @ cs" "list_all (\<lambda>e. starts_no_dependency (fst e)) cs"
    by (auto simp: logs_def list_all_iff)
  with finish_Ok[OF f] ne rec show ?thesis by fastforce
qed

end
