(* ===== verification/Compose_Claims.thy ===== *)
theory Compose_Claims
  imports Compose_Success
begin

text \<open>
  The properties of the compose reload, with a small docker to run it on: one service \<open>web\<close> with
  one running container \<open>aaa\<close>, whose replacement \<open>bbb\<close> appears after the scale-up in the state
  the example is given.
\<close>

section \<open>An example platform\<close>

definition ex_spec :: spec where
  "ex_spec = \<lparr>sp_labels = [(ROLLOUT_LABEL, ''handoff'')], sp_container_name = None, sp_ports = [],
     sp_healthcheck = Some \<lparr>hc_disable = False, hc_test = None\<rparr>, sp_depends_on = [],
     sp_image = Some ''web:2'', sp_build = False, sp_volumes = [Volume ''bind'' (Some ''/etc/web'')]\<rparr>"

definition ex_out :: "string \<Rightarrow> bool \<Rightarrow> string list \<Rightarrow> string" where
  "ex_out seen scaled argv =
     (let has = (\<lambda>a. List.member argv a) in
      if has ''--dry-run'' then ''Container web-1  Recreate''
      else if has ''--all'' \<and> has ''--format'' then ''web-1'' @ [CHR 0x09] @ ''web''
      else if has ''--all'' then (if scaled then ''aaa bbb'' else ''aaa'')
      else if has ''ps'' then ''aaa''
      else if has ''inspect'' then seen
      else [])"

definition ex_platform :: "string \<Rightarrow> (bool \<times> rat) platform" where
  "ex_platform seen =
     \<lparr>sub_run = (\<lambda>argv _ (scaled, now).
        (Ok (ex_out seen scaled argv, []), (scaled \<or> List.member argv ''--scale'', now))),
      config_of = (\<lambda>_. Ok [(''web'', ex_spec)]),
      clock = (\<lambda>(scaled, now). (now, (scaled, now))),
      sleep = (\<lambda>d (scaled, now). (scaled, now + d)),
      realpath_of = (\<lambda>_ p. p), tree_at = (\<lambda>_ _. None), sha256 = (\<lambda>s. s),
      save_fault = (\<lambda>_. None)\<rparr>"

definition ex_args :: "bool \<Rightarrow> reload_args" where
  "ex_args dry = \<lparr>a_timeout = 4, a_drain = 5, a_state = True, a_dry_run = dry,
     a_compose = [''--'', ''docker'', ''compose'']\<rparr>"

definition ex_state :: "(bool \<times> rat) st" where
  "ex_state = \<lparr>world = (False, 0), trace = [], statefile = NoFile\<rparr>"

text \<open>
  A stack whose service \<open>app\<close> has a migration one-shot with a new image, and whose mounted config
  changed since the last reload.
\<close>

definition ex_app :: spec where
  "ex_app = ex_spec\<lparr>sp_depends_on := [(''migrate'', Some ''service_completed_successfully'')]\<rparr>"

definition ex_migrate :: spec where
  "ex_migrate = ex_spec\<lparr>sp_labels := [], sp_image := Some ''migrate:2'', sp_volumes := []\<rparr>"

definition ex_app_platform :: "(bool \<times> rat) platform" where
  "ex_app_platform = (ex_platform ''migrate:1'')
     \<lparr>config_of := (\<lambda>_. Ok [(''app'', ex_app), (''migrate'', ex_migrate)])\<rparr>"


lemma ex_timed: "timed (ex_platform seen) snd"
  by (simp add: timed_def ex_platform_def split: prod.splits)

section \<open>Properties\<close>

text \<open>
  C6. No old container is stopped, removed or recreated before its replacement is healthy: in the calls of a
  handoff, error handling and cleanup included, a call that stops or removes one of the old
  containers, or a compose command that could recreate one (anything but a read or an \<open>up\<close> with
  \<open>--no-recreate\<close>), only comes after as many other containers as there are old ones were each inspected
  and found running and healthy. This holds for any docker, whatever it answers and whichever calls
  fail; the state file is not touched.
\<close>
theorem never_stops_before_healthy:
  "careful old s (snd (safe_handoff P S fuel args svc old s))"
  using careful_safe_handoff[of old P S fuel args svc] by (simp add: keeps_def)

text \<open>
  What the result of a handoff means. \<open>True\<close>: its last two calls stopped and removed the old
  containers, and both succeeded. \<open>False\<close>: no call stopped or removed an old container.
\<close>
theorem handoff_result:
  assumes "handoff P S fuel svc old timeout drain poll s = (Ok b, t)"
  shows "if b
     then \<exists>cs out out'. trace t =
       trace s @ cs @ [(Docker (''stop'' # old), Ok out), (Docker (''rm'' # old), Ok out')]
     else logs (spares old) s t"
  using handoff_Ok[OF assms] by simp

lemma handoff_result_witness:
  "\<exists>t. handoff (ex_platform ''running unhealthy'') \<lparr>compose_cmd = [], docker = ''docker''\<rparr> 3 ''web''
      [''aaa''] 4 5 2 ex_state = (Ok False, t) \<and> logs (spares [''aaa'']) ex_state t"
proof -
  let ?h = "handoff (ex_platform ''running unhealthy'') \<lparr>compose_cmd = [], docker = ''docker''\<rparr> 3
    ''web'' [''aaa''] 4 5 2 ex_state"
  have "fst ?h = Ok False" by code_simp
  then have h: "?h = (Ok False, snd ?h)" by (metis prod.collapse)
  from handoff_result[OF h] h show ?thesis by auto
qed

text \<open>
  C7. Fail safe: a reload that does not exit 0 leaves the recorded mounts as they were, so the next
  reload sees the same change again; and when it exits 1 (a handoff failed) it made no direct call,
  so neither the final \<open>up\<close> nor a forced recreate ran.
\<close>
theorem failed_reload_leaves_stack_alone:
  assumes "reload_main P fuel args s = (r, t)" and "r \<noteq> Ok 0"
  shows "statefile t = statefile s \<and> (r = Ok 1 \<longrightarrow> logs not_direct s t)"
  using assms by (rule reload_main_fail)

lemma failed_reload_leaves_stack_alone_witness:
  "\<exists>t. reload_main (ex_platform ''exited healthy'') 3 (ex_args False) ex_state = (Ok 1, t) \<and>
     statefile t = NoFile \<and> logs not_direct ex_state t"
proof -
  let ?m = "reload_main (ex_platform ''exited healthy'') 3 (ex_args False) ex_state"
  have "fst ?m = Ok 1" by code_simp
  then have m: "?m = (Ok 1, snd ?m)" by (metis prod.collapse)
  from failed_reload_leaves_stack_alone[OF m] m show ?thesis
    by (auto simp: ex_state_def)
qed

text \<open>
  C8. What a reload that exits 0 did, unless it was a dry run. It read the fingerprints of the config that
  compose printed first and the recorded ones; it planned on the services whose fingerprints changed; each planned
  service was handed over, in the order of the plan, that is, its old containers were stopped and removed after as
  many other containers were seen healthy; every other service whose mounts changed is in the one forced recreate;
  that call, if any, and the final \<open>up --remove-orphans\<close> are the last calls, succeeded, and are the only direct
  ones; and the fingerprints that were read are recorded.
\<close>
theorem successful_reload:
  assumes "reload_main P fuel args s = (Ok 0, t)" and "\<not> a_dry_run args"
  shows "\<exists>S mounts prev u todo v hs recreate out out'.
     Stack (base_command args) = Ok S \<and> observed P S args s mounts prev u \<and>
     plan P S (mounts_changed prev mounts) u = (Ok todo, v) \<and> logs readonly s v \<and>
     handed_over todo hs \<and> list_all (\<lambda>e. not_direct (fst e)) hs \<and>
     sorted_wrt (<) recreate \<and> set recreate = mounts_changed prev mounts - set (map fst todo) \<and>
     trace t = trace v @ hs @ (if recreate = [] then [] else [(up_recreate recreate, Ok out)]) @ [(up_final, Ok out')] \<and>
     statefile t = (if a_state args then saved mounts else statefile s)"
  using assms by (rule reload_success)

lemma successful_reload_witness:
  "\<exists>t (v :: (bool \<times> rat) st) hs todo rest. reload_main (ex_platform ''running healthy'') 3 (ex_args False) ex_state = (Ok 0, t) \<and>
     handed_over todo hs \<and> trace t = trace v @ hs @ rest"
proof -
  let ?m = "reload_main (ex_platform ''running healthy'') 3 (ex_args False) ex_state"
  have "fst ?m = Ok 0" by code_simp
  then have m: "?m = (Ok 0, snd ?m)" by (metis prod.collapse)
  have "\<not> a_dry_run (ex_args False)" by (simp add: ex_args_def)
  from successful_reload[OF m this] obtain todo and v :: "(bool \<times> rat) st" and hs recreate out out' where "handed_over todo hs"
    "trace (snd ?m) = trace v @ hs @ (if recreate = [] then [] else [(up_recreate recreate, Ok out)]) @ [(up_final, Ok out')]"
    by blast
  with m show ?thesis by blast
qed

text \<open>
  A dry run makes no call that changes a container: it only reads, pulls and builds, whatever
  docker answers, and records nothing.
\<close>
theorem dry_run_changes_no_container:
  assumes "a_dry_run args"
  shows "logs readonly s (snd (reload_main P fuel args s))"
proof -
  have "reload_main P fuel args s = (fst (reload_main P fuel args s), snd (reload_main P fuel args s))"
    by simp
  from reload_main_cases[OF this] assms show ?thesis by auto
qed

lemma dry_run_changes_no_container_witness:
  "logs readonly ex_state (snd (reload_main (ex_platform ''running healthy'') 3 (ex_args True) ex_state))"
  by (rule dry_run_changes_no_container) (simp add: ex_args_def)

text \<open>
  C9. The plan is sound. Each planned service is labelled for handoff and eligible in the config that was read;
  \<open>docker compose ps --quiet\<close> said, in the plan's own calls, that exactly the one container runs that is to be
  replaced; the service's mounts changed, or compose's dry run would recreate one of its containers; and the
  services come in strictly ascending order, none twice.
\<close>
theorem plan_is_sound:
  assumes "config_dict P" and "plan P S forced s = (Ok todo, t)"
  shows "\<exists>sp u cs. specs P S s = (Ok sp, u) \<and> trace t = trace s @ cs \<and>
    list_all (planned_well sp forced cs) todo \<and> sorted_wrt (<) (map fst todo)"
  using assms by (rule plan_told)

lemma plan_is_sound_witness:
  "\<exists>sp cs. planned_well sp {} cs (''web'', [''aaa''])"
proof -
  let ?p = "plan (ex_platform ''running healthy'') \<lparr>compose_cmd = [], docker = ''docker''\<rparr> {} ex_state"
  have "fst ?p = Ok [(''web'', [''aaa''])]" by code_simp
  then have p: "?p = (Ok [(''web'', [''aaa''])], snd ?p)" by (metis prod.collapse)
  have "config_dict (ex_platform ''running healthy'')" by (simp add: config_dict_def ex_platform_def)
  from plan_is_sound[OF this p] show ?thesis unfolding list.pred_inject by blast
qed

text \<open>
  C10. The reload always comes to an end. If the clock does not run backwards, sleeping takes the
  time asked for and every command ends (those of the injected runner have a timeout; that the two direct
  \<open>up\<close> calls, which have none, end is part of the hypothesis), then fuel for as many two-second
  polls as fit in \<open>--timeout\<close>, and one more, is never used up.
\<close>
theorem reload_main_returns:
  assumes "timed P now" and "0 < fuel" and "a_timeout args \<le> of_nat (fuel - 1) * 2"
  shows "fst (reload_main P fuel args s) \<noteq> Halt"
  using returns_reload_main[OF assms] by (simp add: returns_def)

lemma reload_main_returns_witness:
  "fst (reload_main (ex_platform ''running starting'') 3 (ex_args False) ex_state) \<noteq> Halt"
  by (rule reload_main_returns[OF ex_timed]) (simp_all add: ex_args_def)

text \<open>
  C11. Config changes are found exactly: with the fingerprints of one reload recorded and those of
  the next computed, the services counted as changed are the ones in both configs whose bind-mount
  sources resolve to different fingerprints. The cache shared by the services makes no difference,
  nothing is counted on a first run, and unchanged mounts force nothing.
\<close>
theorem mounts_changed_exact:
  assumes "distinct (map fst sp)" and "distinct (map fst sp')"
  shows "svc \<in> mounts_changed (load_state (saved (mount_fingerprints P w sp)))
            (mount_fingerprints P w' sp') \<longleftrightarrow>
     (\<exists>a b. dict_get sp svc = Some a \<and> dict_get sp' svc = Some b \<and>
        service_fingerprints P w a \<noteq> service_fingerprints P w' b)"
  using assms
  by (simp add: load_saved mounts_changed_mem distinct_mount_fingerprints dict_get_mount_fingerprints)
     (auto split: option.splits)

lemma mounts_changed_exact_witness:
  "''app'' \<in> mounts_changed (load_state (saved (mount_fingerprints ex_app_platform (False, 0) [(''app'', ex_app)])))
     (mount_fingerprints ex_app_platform (False, 0) [(''app'', ex_app\<lparr>sp_volumes := []\<rparr>)])"
proof -
  have "service_fingerprints ex_app_platform (False, 0) ex_app \<noteq>
      service_fingerprints ex_app_platform (False, 0) (ex_app\<lparr>sp_volumes := []\<rparr>)" by code_simp
  then show ?thesis by (subst mounts_changed_exact) auto
qed

text \<open>
  The fingerprint of a store path does not depend on the order in which the file system lists
  the entries of its directories, at any depth.
\<close>
theorem content_hash_ignores_listing_order:
  assumes "reordered t t'"
  shows "content_hash sha t = content_hash sha t'"
  using assms by (rule content_hash_reordered)

lemma content_hash_ignores_listing_order_witness:
  "content_hash (\<lambda>s. s) (Directory [(''a'', RegFile ''1''), (''b'', RegFile ''2'')]) =
   content_hash (\<lambda>s. s) (Directory [(''b'', RegFile ''2''), (''a'', RegFile ''1'')])"
proof (rule content_hash_ignores_listing_order, rule reordered.directory)
  show "list_all2 (\<lambda>e e'. fst e = fst e' \<and> reordered (snd e) (snd e'))
     [(''a'', RegFile ''1''), (''b'', RegFile ''2'')] [(''a'', RegFile ''1''), (''b'', RegFile ''2'')]"
    by (simp add: reordered.same)
qed simp_all

text \<open>
  C12. Two different directories can have the same fingerprint, with any hash: the byte that ends an
  entry is not escaped inside a file's bytes, so a file \<open>a\<close> whose bytes go on with the entry of a file \<open>b\<close> looks
  like two files, for any names \<open>a\<close> before \<open>b\<close> and any contents. A reload then does not see the change from one
  to the other.
\<close>
theorem content_hash_collision:
  assumes "a < b"
  shows "content_hash sha (Directory [(a, RegFile (x @ [NUL] @ b @ [NUL] @ ''F'' @ y))]) =
      content_hash sha (Directory [(a, RegFile x), (b, RegFile y)]) \<and>
    \<not> reordered (Directory [(a, RegFile (x @ [NUL] @ b @ [NUL] @ ''F'' @ y))]) (Directory [(a, RegFile x), (b, RegFile y)])"
proof
  show "content_hash sha (Directory [(a, RegFile (x @ [NUL] @ b @ [NUL] @ ''F'' @ y))]) =
      content_hash sha (Directory [(a, RegFile x), (b, RegFile y)])"
    using assms less_imp_le[OF assms] by (simp add: content_hash_def hashed_entries_def is_dir_entry_def entry_bytes_def)
  show "\<not> reordered (Directory [(a, RegFile (x @ [NUL] @ b @ [NUL] @ ''F'' @ y))]) (Directory [(a, RegFile x), (b, RegFile y)])"
    by (auto elim!: reordered.cases dest!: mset_eq_length list_all2_lengthD)
qed

lemma content_hash_collision_witness:
  "content_hash (\<lambda>s. s) (Directory [(''a'', RegFile (''1'' @ [NUL] @ ''b'' @ [NUL] @ ''F'' @ ''2''))]) =
   content_hash (\<lambda>s. s) (Directory [(''a'', RegFile ''1''), (''b'', RegFile ''2'')])"
proof -
  have "''a'' < (''b'' :: string)" by code_simp
  from content_hash_collision[OF this] show ?thesis by (rule conjunct1)
qed




end
