(* ===== verification/Fs.thy ===== *)
theory Fs
  imports Effects
begin

text \<open>
  The file system under the scratch tools: directory entries, inodes, symbolic links, and the
  system calls of Python's \<open>os\<close> that the tools make, as the kernel documents them. A path is the
  list of its components, absolute. An open file is its inode number.

  Everything that can go wrong is an oracle in \<open>plat\<close>, asked once per call: the call may fail
  (\<open>Fail\<close>), fail after having taken effect (\<open>Late\<close>, as a rename over NFS can), or be the one
  during which the process is killed (\<open>Die\<close>); what a write stores may differ from what it was
  given (\<open>stored\<close>); other processes may change the file system between two calls (\<open>env\<close>).
\<close>

section \<open>Entries and inodes\<close>

type_synonym path = "string list"

record folder =
  d_uid :: nat
  d_gid :: nat
  d_mode :: nat

text \<open>A symbolic link is absolute or relative, and the components of its target.\<close>

datatype entry = File nat | Symlink bool path | Folder folder | Special

record inode =
  i_data :: string
  i_uid :: nat
  i_gid :: nat
  i_mode :: nat
  i_atime :: int
  i_mtime :: int
  i_ctime :: int
  i_synced :: bool

record fs =
  entries :: "(path \<times> entry) list"
  inodes :: "(nat \<times> inode) list"

definition lookup :: "fs \<Rightarrow> path \<Rightarrow> entry option" where
  "lookup u p =
     (if p = [] then Some (Folder \<lparr>d_uid = 0, d_gid = 0, d_mode = 493\<rparr>) else dict_get (entries u) p)"

definition inode_of :: "fs \<Rightarrow> nat \<Rightarrow> inode option" where
  "inode_of u i = dict_get (inodes u) i"

definition data_of :: "fs \<Rightarrow> nat \<Rightarrow> string option" where
  "data_of u i = map_option i_data (inode_of u i)"

definition put :: "path \<Rightarrow> entry \<Rightarrow> fs \<Rightarrow> fs" where
  "put p e u = u\<lparr>entries := dict_set p e (entries u)\<rparr>"

definition remove_entry :: "path \<Rightarrow> fs \<Rightarrow> fs" where
  "remove_entry p u = u\<lparr>entries := filter (\<lambda>e. fst e \<noteq> p) (entries u)\<rparr>"

definition set_inode :: "nat \<Rightarrow> inode \<Rightarrow> fs \<Rightarrow> fs" where
  "set_inode i n u = u\<lparr>inodes := dict_set i n (inodes u)\<rparr>"

definition fresh :: "fs \<Rightarrow> nat" where
  "fresh u = Suc (foldr max (dict_keys (inodes u)) 0)"

section \<open>Following a path\<close>

text \<open>At most 40 symbolic links are followed, as in Linux; more is a loop.\<close>

definition SYMLINKS :: nat where
  "SYMLINKS = 40"

fun walk :: "nat \<Rightarrow> fs \<Rightarrow> bool \<Rightarrow> path \<Rightarrow> path \<Rightarrow> errno + path" where
  "walk n u fol acc [] = Inr acc"
| "walk n u fol acc (c # cs) =
     (if c = ''.'' then walk n u fol acc cs
      else if c = ''..'' then walk n u fol (butlast acc) cs
      else (case lookup u (acc @ [c]) of
          None \<Rightarrow> if cs = [] then Inr (acc @ [c]) else Inl ENOENT
        | Some (Folder m) \<Rightarrow> walk n u fol (acc @ [c]) cs
        | Some (Symlink ab target) \<Rightarrow>
            (if cs = [] \<and> \<not> fol then Inr (acc @ [c])
             else (case n of 0 \<Rightarrow> Inl ELOOP
                   | Suc k \<Rightarrow> walk k u fol (if ab then [] else acc) (target @ cs)))
        | Some _ \<Rightarrow> if cs = [] then Inr (acc @ [c]) else Inl ENOTDIR))"

text \<open>\<open>os.path.realpath\<close>: symbolic links resolved, what does not exist kept as it is.\<close>

fun realwalk :: "nat \<Rightarrow> fs \<Rightarrow> path \<Rightarrow> path \<Rightarrow> path" where
  "realwalk n u acc [] = acc"
| "realwalk n u acc (c # cs) =
     (if c = ''.'' then realwalk n u acc cs
      else if c = ''..'' then realwalk n u (butlast acc) cs
      else (case lookup u (acc @ [c]) of
          Some (Symlink ab target) \<Rightarrow>
            (case n of 0 \<Rightarrow> acc @ c # cs
             | Suc k \<Rightarrow> realwalk k u (if ab then [] else acc) (target @ cs))
        | _ \<Rightarrow> realwalk n u (acc @ [c]) cs))"

definition locate :: "fs \<Rightarrow> bool \<Rightarrow> path \<Rightarrow> errno + path" where
  "locate u fol p = walk SYMLINKS u fol [] p"

text \<open>What reading a path gives, following links.\<close>

definition content :: "fs \<Rightarrow> path \<Rightarrow> string option" where
  "content u p =
     (case locate u True p of
        Inl e \<Rightarrow> None
      | Inr q \<Rightarrow> (case lookup u q of Some (File i) \<Rightarrow> data_of u i | _ \<Rightarrow> None))"

section \<open>Calls, faults and interference\<close>

datatype fault = Pass | Fail errno | Late errno | Die

record plat =
  fault :: "nat \<Rightarrow> fault"
  env :: "nat \<Rightarrow> fs \<Rightarrow> fs"
  stored :: "nat \<Rightarrow> string \<Rightarrow> string"
  accepts :: "nat \<Rightarrow> nat"
  urandom :: "nat \<Rightarrow> string"
  clock_ns :: "nat \<Rightarrow> int"
  blocks :: "string \<Rightarrow> nat"
  digest :: "string \<Rightarrow> string"
  zpool_list :: "nat \<Rightarrow> fs \<Rightarrow> (int \<times> string) res"
  mounted :: "path \<Rightarrow> bool"
  is_root :: bool
  fuel :: nat

record ost =
  fsys :: fs
  tick :: nat

definition sys :: "plat \<Rightarrow> (nat \<Rightarrow> fs \<Rightarrow> errno + ('a \<times> fs)) \<Rightarrow> (ost, 'a) eff" where
  "sys P f s =
     (let n = tick s; u = env P n (fsys s); s' = s\<lparr>tick := Suc n, fsys := u\<rparr> in
      case fault P n of
        Die \<Rightarrow> (Halt, s')
      | Fail e \<Rightarrow> (Exc (OSError e), s')
      | Late e \<Rightarrow>
          (case f n u of
             Inl e' \<Rightarrow> (Exc (OSError e'), s')
           | Inr r \<Rightarrow> (Exc (OSError e), s'\<lparr>fsys := snd r\<rparr>))
      | Pass \<Rightarrow>
          (case f n u of
             Inl e' \<Rightarrow> (Exc (OSError e'), s')
           | Inr r \<Rightarrow> (Ok (fst r), s'\<lparr>fsys := snd r\<rparr>)))"

text \<open>A value that is read without a system call that can fail (randomness, the clock).\<close>

definition ask :: "(nat \<Rightarrow> 'a) \<Rightarrow> (ost, 'a) eff" where
  "ask f s = (Ok (f (tick s)), s\<lparr>tick := Suc (tick s)\<rparr>)"

section \<open>\<open>stat\<close>\<close>

datatype kind = IsReg | IsLink | IsDir | IsOther

record stat =
  st_kind :: kind
  st_ino :: nat
  st_size :: nat
  st_blocks :: nat
  st_uid :: nat
  st_gid :: nat
  st_mode :: nat
  st_atime :: int
  st_mtime :: int
  st_ctime :: int

definition plain_stat :: "kind \<Rightarrow> nat \<Rightarrow> nat \<Rightarrow> nat \<Rightarrow> stat" where
  "plain_stat k uid gid mode =
     \<lparr>st_kind = k, st_ino = 0, st_size = 0, st_blocks = 0, st_uid = uid, st_gid = gid,
      st_mode = mode, st_atime = 0, st_mtime = 0, st_ctime = 0\<rparr>"

definition inode_stat :: "plat \<Rightarrow> nat \<Rightarrow> inode \<Rightarrow> stat" where
  "inode_stat P i n =
     \<lparr>st_kind = IsReg, st_ino = i, st_size = length (i_data n), st_blocks = blocks P (i_data n),
      st_uid = i_uid n, st_gid = i_gid n, st_mode = i_mode n,
      st_atime = i_atime n, st_mtime = i_mtime n, st_ctime = i_ctime n\<rparr>"

definition entry_stat :: "plat \<Rightarrow> fs \<Rightarrow> entry \<Rightarrow> errno + stat" where
  "entry_stat P u e =
     (case e of
        File i \<Rightarrow> (case inode_of u i of None \<Rightarrow> Inl EIO | Some n \<Rightarrow> Inr (inode_stat P i n))
      | Symlink _ _ \<Rightarrow> Inr (plain_stat IsLink 0 0 511)
      | Folder m \<Rightarrow> Inr (plain_stat IsDir (d_uid m) (d_gid m) (d_mode m))
      | Special \<Rightarrow> Inr (plain_stat IsOther 0 0 0))"

definition do_stat :: "plat \<Rightarrow> bool \<Rightarrow> path \<Rightarrow> nat \<Rightarrow> fs \<Rightarrow> errno + (stat \<times> fs)" where
  "do_stat P fol p n u =
     (case locate u fol p of
        Inl e \<Rightarrow> Inl e
      | Inr q \<Rightarrow>
          (case lookup u q of
             None \<Rightarrow> Inl ENOENT
           | Some e \<Rightarrow> map_sum id (\<lambda>st. (st, u)) (entry_stat P u e)))"

definition do_fstat :: "plat \<Rightarrow> nat \<Rightarrow> nat \<Rightarrow> fs \<Rightarrow> errno + (stat \<times> fs)" where
  "do_fstat P i n u =
     (case inode_of u i of None \<Rightarrow> Inl EIO | Some x \<Rightarrow> Inr (inode_stat P i x, u))"

section \<open>Directory entries\<close>

definition do_unlink :: "path \<Rightarrow> nat \<Rightarrow> fs \<Rightarrow> errno + (unit \<times> fs)" where
  "do_unlink p n u =
     (case locate u False p of
        Inl e \<Rightarrow> Inl e
      | Inr q \<Rightarrow>
          (case lookup u q of
             None \<Rightarrow> Inl ENOENT
           | Some (Folder _) \<Rightarrow> Inl EISDIR
           | Some _ \<Rightarrow> Inr ((), remove_entry q u)))"

definition do_symlink :: "path \<Rightarrow> path \<Rightarrow> nat \<Rightarrow> fs \<Rightarrow> errno + (unit \<times> fs)" where
  "do_symlink target p n u =
     (case locate u False p of
        Inl e \<Rightarrow> Inl e
      | Inr q \<Rightarrow> (if lookup u q = None then Inr ((), put q (Symlink True target) u) else Inl EEXIST))"

text \<open>
  \<open>rename\<close> replaces an existing non-directory, and does nothing when both names are already the
  same file. Directories are never renamed here.
\<close>

definition do_rename :: "path \<Rightarrow> path \<Rightarrow> nat \<Rightarrow> fs \<Rightarrow> errno + (unit \<times> fs)" where
  "do_rename a b n u =
     (case (locate u False a, locate u False b) of
        (Inr qa, Inr qb) \<Rightarrow>
          (case (lookup u qa, lookup u qb) of
             (None, _) \<Rightarrow> Inl ENOENT
           | (Some (Folder _), _) \<Rightarrow> Inl EISDIR
           | (_, Some (Folder _)) \<Rightarrow> Inl EISDIR
           | (Some (File i), Some (File j)) \<Rightarrow>
               Inr ((), if i = j then u else put qb (File i) (remove_entry qa u))
           | (Some e, _) \<Rightarrow> Inr ((), if qa = qb then u else put qb e (remove_entry qa u)))
      | (Inl e, _) \<Rightarrow> Inl e
      | (_, Inl e) \<Rightarrow> Inl e)"

definition do_mkdir :: "nat \<Rightarrow> path \<Rightarrow> nat \<Rightarrow> fs \<Rightarrow> errno + (unit \<times> fs)" where
  "do_mkdir mode p n u =
     (case locate u False p of
        Inl e \<Rightarrow> Inl e
      | Inr q \<Rightarrow>
          (if lookup u q = None
           then Inr ((), put q (Folder \<lparr>d_uid = 0, d_gid = 0, d_mode = mode\<rparr>) u) else Inl EEXIST))"

definition entry_meta :: "(folder \<Rightarrow> folder) \<Rightarrow> (inode \<Rightarrow> inode) \<Rightarrow> path \<Rightarrow> fs \<Rightarrow> errno + (unit \<times> fs)" where
  "entry_meta f g q u =
     (case lookup u q of
        None \<Rightarrow> Inl ENOENT
      | Some (Folder m) \<Rightarrow> Inr ((), put q (Folder (f m)) u)
      | Some (File i) \<Rightarrow>
          (case inode_of u i of None \<Rightarrow> Inl EIO | Some x \<Rightarrow> Inr ((), set_inode i (g x) u))
      | Some _ \<Rightarrow> Inr ((), u))"

definition do_chown :: "plat \<Rightarrow> path \<Rightarrow> nat \<Rightarrow> nat \<Rightarrow> nat \<Rightarrow> fs \<Rightarrow> errno + (unit \<times> fs)" where
  "do_chown P p uid gid n u =
     (case locate u False p of
        Inl e \<Rightarrow> Inl e
      | Inr q \<Rightarrow> entry_meta (\<lambda>m. m\<lparr>d_uid := uid, d_gid := gid\<rparr>)
          (\<lambda>x. x\<lparr>i_uid := uid, i_gid := gid, i_ctime := clock_ns P n\<rparr>) q u)"

definition do_chmod :: "plat \<Rightarrow> path \<Rightarrow> nat \<Rightarrow> nat \<Rightarrow> fs \<Rightarrow> errno + (unit \<times> fs)" where
  "do_chmod P p mode n u =
     (case locate u True p of
        Inl e \<Rightarrow> Inl e
      | Inr q \<Rightarrow> entry_meta (\<lambda>m. m\<lparr>d_mode := mode\<rparr>)
          (\<lambda>x. x\<lparr>i_mode := mode, i_ctime := clock_ns P n\<rparr>) q u)"

definition do_readlink :: "path \<Rightarrow> nat \<Rightarrow> fs \<Rightarrow> errno + ((bool \<times> path) \<times> fs)" where
  "do_readlink p n u =
     (case locate u False p of
        Inl e \<Rightarrow> Inl e
      | Inr q \<Rightarrow>
          (case lookup u q of
             Some (Symlink ab target) \<Rightarrow> Inr ((ab, target), u)
           | None \<Rightarrow> Inl ENOENT
           | Some _ \<Rightarrow> Inl EIO))"

text \<open>
  \<open>os.scandir\<close> with \<open>entry.is_dir()\<close>: the names in a directory, and whether each leads to a
  directory, following a link.
\<close>

definition leads_to_dir :: "fs \<Rightarrow> path \<Rightarrow> bool" where
  "leads_to_dir u p =
     (case locate u True p of
        Inl e \<Rightarrow> False
      | Inr q \<Rightarrow> (case lookup u q of Some (Folder _) \<Rightarrow> True | _ \<Rightarrow> False))"

definition children :: "fs \<Rightarrow> path \<Rightarrow> string list" where
  "children u q =
     filter (\<lambda>c. c \<noteq> ''.'' \<and> c \<noteq> ''..'')
       (map last (filter (\<lambda>p. p \<noteq> [] \<and> butlast p = q) (dict_keys (entries u))))"

definition do_scandir :: "path \<Rightarrow> nat \<Rightarrow> fs \<Rightarrow> errno + ((string list \<times> string list) \<times> fs)" where
  "do_scandir p n u =
     (case locate u True p of
        Inl e \<Rightarrow> Inl e
      | Inr q \<Rightarrow>
          (case lookup u q of
             Some (Folder _) \<Rightarrow>
               Inr ((filter (\<lambda>c. leads_to_dir u (p @ [c])) (children u q),
                     filter (\<lambda>c. \<not> leads_to_dir u (p @ [c])) (children u q)), u)
           | None \<Rightarrow> Inl ENOENT
           | Some _ \<Rightarrow> Inl ENOTDIR))"

definition do_opendir :: "path \<Rightarrow> nat \<Rightarrow> fs \<Rightarrow> errno + (unit \<times> fs)" where
  "do_opendir p n u = (if leads_to_dir u p then Inr ((), u) else Inl ENOTDIR)"

section \<open>Open files\<close>

text \<open>\<open>O_RDONLY | O_NOFOLLOW\<close>.\<close>

definition do_open_read :: "path \<Rightarrow> nat \<Rightarrow> fs \<Rightarrow> errno + (nat \<times> fs)" where
  "do_open_read p n u =
     (case locate u False p of
        Inl e \<Rightarrow> Inl e
      | Inr q \<Rightarrow>
          (case lookup u q of
             Some (File i) \<Rightarrow> (if inode_of u i = None then Inl EIO else Inr (i, u))
           | None \<Rightarrow> Inl ENOENT
           | Some (Symlink _ _) \<Rightarrow> Inl ELOOP
           | Some (Folder _) \<Rightarrow> Inl EISDIR
           | Some Special \<Rightarrow> Inl EIO))"

definition new_inode :: "plat \<Rightarrow> nat \<Rightarrow> nat \<Rightarrow> inode" where
  "new_inode P mode n =
     \<lparr>i_data = [], i_uid = 0, i_gid = 0, i_mode = mode, i_atime = clock_ns P n,
      i_mtime = clock_ns P n, i_ctime = clock_ns P n, i_synced = False\<rparr>"

definition make_file :: "plat \<Rightarrow> nat \<Rightarrow> path \<Rightarrow> nat \<Rightarrow> fs \<Rightarrow> nat \<times> fs" where
  "make_file P mode q n u = (fresh u, put q (File (fresh u)) (set_inode (fresh u) (new_inode P mode n) u))"

text \<open>\<open>O_CREAT | O_EXCL | O_NOFOLLOW\<close>.\<close>

definition do_create :: "plat \<Rightarrow> path \<Rightarrow> nat \<Rightarrow> fs \<Rightarrow> errno + (nat \<times> fs)" where
  "do_create P p n u =
     (case locate u False p of
        Inl e \<Rightarrow> Inl e
      | Inr q \<Rightarrow> (if lookup u q = None then Inr (make_file P 384 q n u) else Inl EEXIST))"

text \<open>\<open>O_WRONLY | O_CREAT | O_NOFOLLOW\<close>, with \<open>O_TRUNC\<close> or \<open>O_APPEND\<close>.\<close>

definition do_open_write :: "plat \<Rightarrow> bool \<Rightarrow> nat \<Rightarrow> path \<Rightarrow> nat \<Rightarrow> fs \<Rightarrow> errno + (nat \<times> fs)" where
  "do_open_write P trunc mode p n u =
     (case locate u False p of
        Inl e \<Rightarrow> Inl e
      | Inr q \<Rightarrow>
          (case lookup u q of
             None \<Rightarrow> Inr (make_file P mode q n u)
           | Some (File i) \<Rightarrow>
               (case inode_of u i of
                  None \<Rightarrow> Inl EIO
                | Some x \<Rightarrow> Inr (i, if trunc then set_inode i (x\<lparr>i_data := [], i_synced := False\<rparr>) u else u))
           | Some (Symlink _ _) \<Rightarrow> Inl ELOOP
           | Some _ \<Rightarrow> Inl EISDIR))"

definition do_read :: "nat \<Rightarrow> nat \<Rightarrow> nat \<Rightarrow> nat \<Rightarrow> fs \<Rightarrow> errno + (string \<times> fs)" where
  "do_read chunk i off n u =
     (case data_of u i of None \<Rightarrow> Inl EIO | Some d \<Rightarrow> Inr (take chunk (drop off d), u))"

definition on_inode :: "(inode \<Rightarrow> inode) \<Rightarrow> nat \<Rightarrow> fs \<Rightarrow> errno + (unit \<times> fs)" where
  "on_inode g i u =
     (case inode_of u i of None \<Rightarrow> Inl EIO | Some x \<Rightarrow> Inr ((), set_inode i (g x) u))"

text \<open>
  \<open>os.write\<close> takes at least one byte and at most all of them, and returns how many; a file is
  written through one descriptor, from its start to its end.
\<close>

definition do_write :: "plat \<Rightarrow> nat \<Rightarrow> string \<Rightarrow> nat \<Rightarrow> fs \<Rightarrow> errno + (nat \<times> fs)" where
  "do_write P i bs n u =
     (let k = min (length bs) (Suc (accepts P n)) in
      map_sum id (\<lambda>r. (k, snd r))
        (on_inode (\<lambda>x. x\<lparr>i_data := i_data x @ stored P n (take k bs), i_synced := False,
           i_mtime := clock_ns P n, i_ctime := clock_ns P n\<rparr>) i u))"

definition do_fsync :: "nat \<Rightarrow> nat \<Rightarrow> fs \<Rightarrow> errno + (unit \<times> fs)" where
  "do_fsync i n u = on_inode (\<lambda>x. x\<lparr>i_synced := True\<rparr>) i u"

definition do_fchown :: "plat \<Rightarrow> nat \<Rightarrow> nat \<Rightarrow> nat \<Rightarrow> nat \<Rightarrow> fs \<Rightarrow> errno + (unit \<times> fs)" where
  "do_fchown P i uid gid n u =
     on_inode (\<lambda>x. x\<lparr>i_uid := uid, i_gid := gid, i_ctime := clock_ns P n, i_synced := False\<rparr>) i u"

definition do_fchmod :: "plat \<Rightarrow> nat \<Rightarrow> nat \<Rightarrow> nat \<Rightarrow> fs \<Rightarrow> errno + (unit \<times> fs)" where
  "do_fchmod P i mode n u =
     on_inode (\<lambda>x. x\<lparr>i_mode := mode, i_ctime := clock_ns P n, i_synced := False\<rparr>) i u"

definition do_utime :: "plat \<Rightarrow> nat \<Rightarrow> int \<Rightarrow> int \<Rightarrow> nat \<Rightarrow> fs \<Rightarrow> errno + (unit \<times> fs)" where
  "do_utime P i atime mtime n u =
     on_inode (\<lambda>x. x\<lparr>i_atime := atime, i_mtime := mtime, i_ctime := clock_ns P n, i_synced := False\<rparr>) i u"

section \<open>The calls the tools make\<close>

definition os_stat :: "plat \<Rightarrow> path \<Rightarrow> (ost, stat) eff" where
  "os_stat P p = sys P (do_stat P True p)"

definition os_lstat :: "plat \<Rightarrow> path \<Rightarrow> (ost, stat) eff" where
  "os_lstat P p = sys P (do_stat P False p)"

definition os_unlink :: "plat \<Rightarrow> path \<Rightarrow> (ost, unit) eff" where
  "os_unlink P p = sys P (do_unlink p)"

definition os_replace :: "plat \<Rightarrow> path \<Rightarrow> path \<Rightarrow> (ost, unit) eff" where
  "os_replace P a b = sys P (do_rename a b)"

text \<open>
  \<open>os.path.lexists\<close>, \<open>islink\<close>, \<open>isdir\<close> and \<open>realpath\<close> swallow the errors of the
  \<open>lstat\<close> calls inside them, which are taken to fail only for what the file system holds.
\<close>

definition look :: "plat \<Rightarrow> (fs \<Rightarrow> 'a) \<Rightarrow> (ost, 'a) eff" where
  "look P f s =
     (let n = tick s; u = env P n (fsys s); s' = s\<lparr>tick := Suc n, fsys := u\<rparr> in
      if fault P n = Die then (Halt, s') else (Ok (f u), s'))"

definition path_is :: "plat \<Rightarrow> bool \<Rightarrow> (stat \<Rightarrow> bool) \<Rightarrow> path \<Rightarrow> fs \<Rightarrow> bool" where
  "path_is P fol c p u = (case do_stat P fol p 0 u of Inl _ \<Rightarrow> False | Inr r \<Rightarrow> c (fst r))"

definition lexists :: "plat \<Rightarrow> path \<Rightarrow> (ost, bool) eff" where
  "lexists P p = look P (path_is P False (\<lambda>_. True) p)"

definition islink :: "plat \<Rightarrow> path \<Rightarrow> (ost, bool) eff" where
  "islink P p = look P (path_is P False (\<lambda>st. st_kind st = IsLink) p)"

definition isdir :: "plat \<Rightarrow> path \<Rightarrow> (ost, bool) eff" where
  "isdir P p = look P (path_is P True (\<lambda>st. st_kind st = IsDir) p)"

definition os_realpath :: "plat \<Rightarrow> path \<Rightarrow> (ost, path) eff" where
  "os_realpath P p = look P (\<lambda>u. realwalk SYMLINKS u [] p)"

text \<open>\<open>p.startswith(d + os.sep)\<close>; for the root directory that text is \<open>//\<close>.\<close>

definition below :: "path \<Rightarrow> path \<Rightarrow> bool" where
  "below d p = (d \<noteq> [] \<and> strict_prefix d p)"

text \<open>\<open>os.path.relpath\<close> of two absolute paths.\<close>

fun relpath :: "path \<Rightarrow> path \<Rightarrow> path" where
  "relpath (x # p) (y # q) = (if x = y then relpath p q else map (\<lambda>_. ''..'') (y # q) @ x # p)"
| "relpath p q = map (\<lambda>_. ''..'') q @ p"

lemma relpath_append [simp]: "relpath (p @ q) p = q"
  by (induction p) (cases q; simp)+

end
