(* ===== verification/Scratch_Archive.thy ===== *)
theory Scratch_Archive
  imports Fs "HOL-Library.Product_Lexorder"
begin

text \<open>
  Model of \<open>nix/modules/scratch/scratch-overflow.py\<close>, which moves the coldest files of a scratch
  file system to network storage and leaves symbolic links behind. Times are rational numbers of
  seconds where the code has floats; messages printed by \<open>log\<close> are not modelled; \<open>die\<close> is
  \<open>SystemExit\<close>. \<open>zpool\<close> and the mount table are parameters of \<^typ>\<open>plat\<close>.
\<close>

section \<open>Copying and hashing\<close>

definition COPY_CHUNK :: nat where
  "COPY_CHUNK = 8 * 1024 * 1024"

text \<open>\<open>while mv: mv = mv[os.write(dst_fd, mv):]\<close>; a write makes progress.\<close>

function drain :: "plat \<Rightarrow> nat \<Rightarrow> string \<Rightarrow> (ost, unit) eff" where
  "drain P fd mv =
     (if mv = [] then retE ()
      else bindE (sys P (do_write P fd mv)) (\<lambda>k. drain P fd (drop (max 1 k) mv)))"
  by auto
termination by (relation "measure (\<lambda>(P, fd, mv). length mv)") auto

declare drain.simps [simp del]

text \<open>The bytes read from \<open>src\<close> so far are \<open>acc\<close>; running out of fuel is not returning.\<close>

primrec copy_loop :: "nat \<Rightarrow> plat \<Rightarrow> nat \<Rightarrow> nat \<Rightarrow> string \<Rightarrow> (ost, string) eff" where
  "copy_loop 0 P src dst acc = haltE"
| "copy_loop (Suc m) P src dst acc =
     bindE (sys P (do_read COPY_CHUNK src (length acc))) (\<lambda>buf.
       if buf = [] then retE acc
       else bindE (drain P dst buf) (\<lambda>_. copy_loop m P src dst (acc @ buf)))"

definition copy_and_hash :: "plat \<Rightarrow> path \<Rightarrow> path \<Rightarrow> (ost, string \<times> nat \<times> nat) eff" where
  "copy_and_hash P src dst =
     bindE (sys P (do_open_read src)) (\<lambda>src_fd.
     bindE (sys P (do_create P dst)) (\<lambda>dst_fd.
     bindE (copy_loop (fuel P) P src_fd dst_fd []) (\<lambda>bs.
     bindE (sys P (do_fsync dst_fd)) (\<lambda>_.
       retE (digest P bs, length bs, dst_fd)))))"

definition tmp_name :: "string \<Rightarrow> string \<Rightarrow> string" where
  "tmp_name tag hex = ''.'' @ tag @ ''-'' @ hex @ ''.tmp''"

definition tmp_sibling :: "plat \<Rightarrow> path \<Rightarrow> string \<Rightarrow> (ost, path) eff" where
  "tmp_sibling P path tag = ask (\<lambda>n. butlast path @ [tmp_name tag (urandom P n)])"

primrec read_loop :: "nat \<Rightarrow> plat \<Rightarrow> nat \<Rightarrow> string \<Rightarrow> (ost, string) eff" where
  "read_loop 0 P fd acc = haltE"
| "read_loop (Suc m) P fd acc =
     bindE (sys P (do_read COPY_CHUNK fd (length acc))) (\<lambda>b.
       if b = [] then retE acc else read_loop m P fd (acc @ b))"

definition fd_sha256 :: "plat \<Rightarrow> nat \<Rightarrow> (ost, string) eff" where
  "fd_sha256 P fd = bindE (read_loop (fuel P) P fd []) (\<lambda>bs. retE (digest P bs))"

text \<open>A failing \<open>fsync\<close> of the directory is only logged.\<close>

definition fsync_dir :: "plat \<Rightarrow> path \<Rightarrow> (ost, unit) eff" where
  "fsync_dir P path =
     catchE
       (bindE (sys P (do_opendir path)) (\<lambda>_. sys P (\<lambda>n u. Inr ((), u))))
       is_OSError (\<lambda>_. retE ())"

section \<open>Manifest and note\<close>

definition ARCHIVE_DIR :: string where
  "ARCHIVE_DIR = ''.scratch-overflow''"

definition NOTE_NAME :: string where
  "NOTE_NAME = ''WHERE-IS-MY-DATA.txt''"

text \<open>A path as text, and a JSON string literal (\<open>json.dumps\<close>).\<close>

definition path_str :: "path \<Rightarrow> string" where
  "path_str p = (if p = [] then ''/'' else concat (map (\<lambda>c. CHR ''/'' # c) p))"

definition json_char :: "char \<Rightarrow> string" where
  "json_char c =
     (if c = CHR 0x22 then [CHR 0x5C, CHR 0x22]
      else if c = CHR 0x5C then [CHR 0x5C, CHR 0x5C]
      else if c = CHR 0x0A then [CHR 0x5C, CHR ''n'']
      else if c = CHR 0x0D then [CHR 0x5C, CHR ''r'']
      else if c = CHR 0x09 then [CHR 0x5C, CHR ''t'']
      else [c])"

definition json_str :: "string \<Rightarrow> string" where
  "json_str s = [CHR 0x22] @ concat (map json_char s) @ [CHR 0x22]"

record jentry =
  j_ts :: int
  j_reason :: string
  j_path :: path
  j_dest :: path
  j_size :: nat
  j_sha :: string
  j_atime :: int
  j_last_use :: int

definition json_line :: "jentry \<Rightarrow> string" where
  "json_line j =
     (let kv = (\<lambda>k v. json_str k @ '': '' @ v) in
      ''{'' @ join '', ''
        [kv ''ts'' (str_int (j_ts j)), kv ''reason'' (json_str (j_reason j)),
         kv ''path'' (json_str (path_str (j_path j))), kv ''dest'' (json_str (path_str (j_dest j))),
         kv ''size'' (str_nat (j_size j)), kv ''sha256'' (json_str (j_sha j)),
         kv ''atime'' (str_int (j_atime j)), kv ''last_use'' (str_int (j_last_use j))]
       @ ''}'' @ [CHR 0x0A])"

definition append_text :: "plat \<Rightarrow> nat \<Rightarrow> string \<Rightarrow> (ost, unit) eff" where
  "append_text P fd s = sys P (\<lambda>n. on_inode (\<lambda>x. x\<lparr>i_data := i_data x @ s, i_synced := False\<rparr>) fd)"

text \<open>\<open>None\<close> is \<open>/dev/null\<close>: the manifest is skipped.\<close>

definition write_entry :: "plat \<Rightarrow> nat option \<Rightarrow> jentry \<Rightarrow> (ost, unit) eff" where
  "write_entry P fp j = (case fp of None \<Rightarrow> retE () | Some fd \<Rightarrow> append_text P fd (json_line j))"

definition manifest_file :: "path \<Rightarrow> path" where
  "manifest_file state_dir = state_dir @ [''manifest.jsonl'']"

definition state_dir_usable :: "plat \<Rightarrow> path \<Rightarrow> (ost, bool) eff" where
  "state_dir_usable P state_dir =
     catchE
       (bindE (os_lstat P state_dir) (\<lambda>ds.
          if st_kind ds \<noteq> IsDir \<or> st_uid ds \<noteq> 0 then retE False
          else bindE (sys P (do_chmod P state_dir 448)) (\<lambda>_. retE True)))
       (\<lambda>e. e = OSError ENOENT)
       (\<lambda>_. catchE (bindE (sys P (do_mkdir 448 state_dir)) (\<lambda>_. retE True)) is_OSError (\<lambda>_. retE False))"

definition open_manifest :: "plat \<Rightarrow> path \<Rightarrow> (ost, nat option) eff" where
  "open_manifest P state_dir =
     bindE (state_dir_usable P state_dir) (\<lambda>ok.
       if \<not> ok then retE None
       else catchE
         (bindE (sys P (do_open_write P False 384 (manifest_file state_dir))) (\<lambda>fd. retE (Some fd)))
         is_OSError (\<lambda>_. retE None))"

text \<open>The three bytes of a dash in UTF-8.\<close>

definition DASH :: string where
  "DASH = [CHR 0xE2, CHR 0x80, CHR 0x94]"

definition NOTE_TEXT :: "path \<Rightarrow> string" where
  "NOTE_TEXT cold = join [CHR 0x0A]
     [''Some files under this scratch directory have been moved to network storage (NFS):'',
      ''either they had not been touched in a long time, or they were the coldest files when'',
      ''scratch filled up and space had to be freed.'',
      [],
      ''A moved file now appears as a SYMLINK pointing into '' @ path_str cold @ ''.'',
      ''Reading it still works exactly as before '' @ DASH @ '' the data is just served over the'',
      ''network, so it is slower. Nothing has been lost.'',
      [],
      ''To pull a file (or a whole directory) back to fast local storage:'',
      [],
      ''    scratch-restore PATH [PATH ...]'',
      [],
      ''Anything you are actively using will stay local; only cold files get moved.'',
      ''This is automatic and reversible '' @ DASH @ '' you never need to ask an admin.'',
      []]"

definition write_note :: "plat \<Rightarrow> path \<Rightarrow> path \<Rightarrow> (ost, unit) eff" where
  "write_note P scratch cold =
     catchE
       (bindE (sys P (do_open_write P True 420 (scratch @ [NOTE_NAME]))) (\<lambda>fd.
          append_text P fd (NOTE_TEXT cold)))
       is_OSError (\<lambda>_. retE ())"

section \<open>Mirroring directories\<close>

text \<open>One level: refuse anything but a directory, create it if missing, copy owner and mode.\<close>

definition cold_level :: "plat \<Rightarrow> path \<Rightarrow> (ost, unit) eff" where
  "cold_level P cur_cold =
     bindE
       (catchE (bindE (os_lstat P cur_cold) (\<lambda>c. retE (Some c)))
          (\<lambda>e. e = OSError ENOENT) (\<lambda>_. retE None))
       (\<lambda>cst. case cst of
          Some c \<Rightarrow> if st_kind c \<noteq> IsDir then raiseE (OSError NoErrno) else retE ()
        | None \<Rightarrow> sys P (do_mkdir 493 cur_cold))"

definition mirror_perms :: "plat \<Rightarrow> path \<Rightarrow> path \<Rightarrow> (ost, unit) eff" where
  "mirror_perms P cur_src cur_cold =
     catchE
       (bindE (os_stat P cur_src) (\<lambda>sst.
        bindE (sys P (do_chown P cur_cold (st_uid sst) (st_gid sst))) (\<lambda>_.
          sys P (do_chmod P cur_cold (st_mode sst)))))
       is_OSError (\<lambda>_. retE ())"

primrec mirror_levels :: "plat \<Rightarrow> path \<Rightarrow> path \<Rightarrow> path \<Rightarrow> (ost, unit) eff" where
  "mirror_levels P src cold [] = retE ()"
| "mirror_levels P src cold (part # parts) =
     bindE (cold_level P (cold @ [part])) (\<lambda>_.
     bindE (mirror_perms P (src @ [part]) (cold @ [part])) (\<lambda>_.
       mirror_levels P (src @ [part]) (cold @ [part]) parts))"

definition makedirs_mirror :: "plat \<Rightarrow> path \<Rightarrow> path \<Rightarrow> path \<Rightarrow> (ost, unit) eff" where
  "makedirs_mirror P scratch cold rel = mirror_levels P scratch cold (butlast rel)"

section \<open>Candidates\<close>

definition secs :: "int \<Rightarrow> rat" where
  "secs t = of_int t / 1000000000"

definition last_use :: "stat \<Rightarrow> rat" where
  "last_use st = max (max (secs (st_atime st)) (secs (st_mtime st))) (secs (st_ctime st))"

type_synonym cand = "rat \<times> nat \<times> path"

definition consider_file :: "plat \<Rightarrow> rat \<Rightarrow> path list \<Rightarrow> path list \<Rightarrow> path \<Rightarrow> cand list \<Rightarrow> string \<Rightarrow>
    (ost, cand list) eff" where
  "consider_file P cutoff skip_dirs skip_exact dir cands name =
     (let p = dir @ [name] in
      if List.member skip_exact p \<or> list_ex (\<lambda>d. below d p) skip_dirs then retE cands
      else catchE
        (bindE (os_lstat P p) (\<lambda>st.
           if st_kind st \<noteq> IsReg then retE cands
           else if st_size st = 0 then retE cands
           else if cutoff < last_use st then retE cands
           else retE (cands @ [(last_use st, st_size st, p)])))
        is_OSError (\<lambda>_. retE cands))"

text \<open>\<open>os.walk\<close>: a directory that cannot be read is skipped, a linked directory not entered.\<close>

primrec gather_dir :: "nat \<Rightarrow> plat \<Rightarrow> rat \<Rightarrow> path list \<Rightarrow> path list \<Rightarrow> path \<Rightarrow> cand list \<Rightarrow>
    (ost, cand list) eff" where
  "gather_dir 0 P cutoff skip_dirs skip_exact dir cands = haltE"
| "gather_dir (Suc m) P cutoff skip_dirs skip_exact dir cands =
     bindE (catchE (sys P (do_scandir dir)) is_OSError (\<lambda>_. retE ([], []))) (\<lambda>(dirs, files).
     bindE (foldE (consider_file P cutoff skip_dirs skip_exact dir) cands files) (\<lambda>cands'.
       foldE (\<lambda>acc d.
           if List.member skip_dirs (dir @ [d]) then retE acc
           else bindE (islink P (dir @ [d])) (\<lambda>l.
             if l then retE acc
             else gather_dir m P cutoff skip_dirs skip_exact (dir @ [d]) acc))
         cands' dirs))"

definition sort_cands :: "cand list \<Rightarrow> cand list" where
  "sort_cands cands = sort_key (\<lambda>t. (fst t, - int (fst (snd t)))) cands"

definition gather_candidates :: "plat \<Rightarrow> path \<Rightarrow> rat \<Rightarrow> path list \<Rightarrow> path list \<Rightarrow> (ost, cand list) eff" where
  "gather_candidates P scratch cutoff skip_dirs skip_exact =
     bindE (gather_dir (fuel P) P cutoff skip_dirs skip_exact scratch []) (\<lambda>cands.
       retE (sort_cands cands))"

section \<open>Archiving one file\<close>

definition clear_stale :: "plat \<Rightarrow> path \<Rightarrow> (ost, unit) eff" where
  "clear_stale P p = bindE (lexists P p) (\<lambda>b. if b then os_unlink P p else retE ())"

definition discard :: "plat \<Rightarrow> path \<Rightarrow> (ost, unit) eff" where
  "discard P p = catchE (clear_stale P p) is_OSError (\<lambda>_. retE ())"

definition same_file :: "plat \<Rightarrow> path \<Rightarrow> nat \<Rightarrow> (ost, unit) eff" where
  "same_file P part fd =
     bindE (os_lstat P part) (\<lambda>lp.
       if st_kind lp = IsLink then raiseE (OSError NoErrno)
       else bindE (sys P (do_fstat P fd)) (\<lambda>f.
         if st_ino lp \<noteq> st_ino f then raiseE (OSError NoErrno) else retE ()))"

text \<open>The copy is checked and given the source's metadata through its descriptor.\<close>

definition verify_copy :: "plat \<Rightarrow> path \<Rightarrow> stat \<Rightarrow> string \<times> nat \<times> nat \<Rightarrow> (ost, bool) eff" where
  "verify_copy P part st copy =
     (case copy of (src_sha, nbytes, fd) \<Rightarrow>
        if nbytes \<noteq> st_size st then bindE (os_unlink P part) (\<lambda>_. retE False)
        else bindE (fd_sha256 P fd) (\<lambda>sha.
          if sha \<noteq> src_sha then bindE (os_unlink P part) (\<lambda>_. retE False)
          else bindE (sys P (do_fchown P fd (st_uid st) (st_gid st))) (\<lambda>_.
               bindE (sys P (do_fchmod P fd (st_mode st))) (\<lambda>_.
               bindE (sys P (do_utime P fd (st_atime st) (st_mtime st))) (\<lambda>_.
               bindE (sys P (do_fsync fd)) (\<lambda>_.
               bindE (same_file P part fd) (\<lambda>_. retE True)))))))"

definition publish_cold :: "plat \<Rightarrow> path \<Rightarrow> path \<Rightarrow> path \<Rightarrow> path \<Rightarrow> path \<Rightarrow> stat \<Rightarrow> (ost, string option) eff" where
  "publish_cold P path scratch cold rel part st =
     catchE
       (bindE (makedirs_mirror P scratch cold rel) (\<lambda>_.
        bindE (clear_stale P part) (\<lambda>_.
        bindE (copy_and_hash P path part) (\<lambda>copy.
        bindE (verify_copy P part st copy) (\<lambda>ok.
          if \<not> ok then retE None
          else bindE (os_replace P part (cold @ rel)) (\<lambda>_.
               bindE (fsync_dir P (butlast (cold @ rel))) (\<lambda>_.
                 retE (Some (fst copy)))))))))
       is_OSError (\<lambda>_. bindE (discard P part) (\<lambda>_. retE None))"

definition identity :: "stat \<Rightarrow> nat \<times> nat \<times> int \<times> int" where
  "identity st = (st_ino st, st_size st, st_mtime st, st_ctime st)"

definition source_changed :: "plat \<Rightarrow> path \<Rightarrow> stat \<Rightarrow> (ost, bool) eff" where
  "source_changed P path st =
     bindE (catchE (bindE (os_stat P path) (\<lambda>s. retE (Some s))) is_OSError (\<lambda>_. retE None))
       (\<lambda>st2. retE (map_option identity st2 \<noteq> Some (identity st)))"

definition swap_symlink :: "plat \<Rightarrow> path \<Rightarrow> path \<Rightarrow> path \<Rightarrow> (ost, bool) eff" where
  "swap_symlink P dest link_tmp path =
     catchE
       (bindE (clear_stale P link_tmp) (\<lambda>_.
        bindE (sys P (do_symlink dest link_tmp)) (\<lambda>_.
        bindE (os_replace P link_tmp path) (\<lambda>_.
        bindE (fsync_dir P (butlast path)) (\<lambda>_. retE True)))))
       is_OSError (\<lambda>_. bindE (discard P link_tmp) (\<lambda>_. retE False))"

definition escapes :: "path \<Rightarrow> path \<Rightarrow> bool" where
  "escapes cold_real dest_real = (dest_real \<noteq> cold_real \<and> \<not> below cold_real dest_real)"

definition record_move :: "plat \<Rightarrow> nat option \<Rightarrow> string \<Rightarrow> path \<Rightarrow> path \<Rightarrow> stat \<Rightarrow> string \<Rightarrow> (ost, unit) eff" where
  "record_move P fp reason path dest st sha =
     bindE (ask (clock_ns P)) (\<lambda>now.
       write_entry P fp
         \<lparr>j_ts = \<lfloor>secs now\<rfloor>, j_reason = reason, j_path = path, j_dest = dest, j_size = st_size st,
          j_sha = sha, j_atime = \<lfloor>secs (st_atime st)\<rfloor>, j_last_use = \<lfloor>last_use st\<rfloor>\<rparr>)"

text \<open>
  The second half of \<open>archive_one\<close>: the cold copy is in place. If the source changed meanwhile
  the copy is stale and dropped; otherwise the file is swapped for a link.
\<close>

definition finish_archive :: "plat \<Rightarrow> path \<Rightarrow> path \<Rightarrow> nat option \<Rightarrow> string \<Rightarrow> stat \<Rightarrow> string \<Rightarrow> (ost, nat) eff" where
  "finish_archive P path dest fp reason st sha =
     bindE (source_changed P path st) (\<lambda>changed.
       if changed then
         bindE (catchE (os_unlink P dest) is_OSError (\<lambda>_. retE ())) (\<lambda>_. retE 0)
       else
         bindE (tmp_sibling P path ''so'') (\<lambda>link_tmp.
         bindE (swap_symlink P dest link_tmp path) (\<lambda>swapped.
           if \<not> swapped then retE 0
           else bindE (record_move P fp reason path dest st sha) (\<lambda>_. retE (st_blocks st * 512)))))"

definition move_to_cold :: "plat \<Rightarrow> path \<Rightarrow> path \<Rightarrow> path \<Rightarrow> path \<Rightarrow> nat option \<Rightarrow> string \<Rightarrow> stat \<Rightarrow> (ost, nat) eff" where
  "move_to_cold P path scratch cold rel fp reason st =
     bindE (tmp_sibling P (cold @ rel) ''so'') (\<lambda>part.
     bindE (publish_cold P path scratch cold rel part st) (\<lambda>copied.
       case copied of
         None \<Rightarrow> retE 0
       | Some sha \<Rightarrow> finish_archive P path (cold @ rel) fp reason st sha))"

definition archive_one :: "plat \<Rightarrow> path \<Rightarrow> path \<Rightarrow> path \<Rightarrow> nat option \<Rightarrow> bool \<Rightarrow> string \<Rightarrow> (ost, nat) eff" where
  "archive_one P path scratch cold fp dry_run reason =
     (let rel = relpath path scratch; dest = cold @ rel in
      bindE (catchE (bindE (os_stat P path) (\<lambda>s. retE (Some s))) is_OSError (\<lambda>_. retE None)) (\<lambda>r.
        case r of
          None \<Rightarrow> retE 0
        | Some st \<Rightarrow>
            if dry_run then retE (st_blocks st * 512)
            else
              bindE (os_realpath P cold) (\<lambda>cold_real.
              bindE (os_realpath P dest) (\<lambda>dest_real.
                if escapes cold_real dest_real then retE 0
                else move_to_cold P path scratch cold rel fp reason st))))"

section \<open>The sweeps\<close>

definition die :: "('s, 'a) eff" where
  "die = raiseE (SystemExit 1)"

definition parse_pool :: "string \<Rightarrow> (int \<times> int \<times> int) option" where
  "parse_pool out =
     (case map int_of_string (split_ws out) of
        [Some cap, Some alloc, Some free] \<Rightarrow> Some (cap, alloc, free)
      | _ \<Rightarrow> None)"

definition run_zpool :: "plat \<Rightarrow> (ost, int \<times> string) eff" where
  "run_zpool P s =
     (let u = env P (tick s) (fsys s) in
      (zpool_list P (tick s) u, s\<lparr>tick := Suc (tick s), fsys := u\<rparr>))"

definition pool_bytes :: "plat \<Rightarrow> (ost, int \<times> int \<times> int) eff" where
  "pool_bytes P =
     bindE (run_zpool P) (\<lambda>(rc, out).
       if rc \<noteq> 0 then die
       else (case parse_pool out of None \<Rightarrow> die | Some t \<Rightarrow> retE t))"

definition capacity_pct :: "int \<Rightarrow> int \<Rightarrow> rat" where
  "capacity_pct cap free = (if cap \<le> 0 then 0 else 100 * of_int (cap - free) / of_int cap)"

text \<open>Bytes freed and files moved so far.\<close>

definition sweep_one :: "plat \<Rightarrow> path \<Rightarrow> path \<Rightarrow> nat option \<Rightarrow> bool \<Rightarrow> string \<Rightarrow> nat \<times> nat \<Rightarrow> path \<Rightarrow>
    (ost, nat \<times> nat) eff" where
  "sweep_one P scratch cold fp dry_run reason acc path =
     bindE (archive_one P path scratch cold fp dry_run reason) (\<lambda>got.
       retE (if got \<noteq> 0 then (fst acc + got, snd acc + 1) else acc))"

definition ttl_sweep :: "plat \<Rightarrow> path \<Rightarrow> path \<Rightarrow> nat option \<Rightarrow> bool \<Rightarrow> cand list \<Rightarrow> (ost, nat \<times> nat) eff" where
  "ttl_sweep P scratch cold fp dry_run cands =
     foldE (sweep_one P scratch cold fp dry_run ''ttl'') (0, 0) (map (\<lambda>c. snd (snd c)) cands)"

primrec capacity_sweep :: "plat \<Rightarrow> path \<Rightarrow> path \<Rightarrow> nat option \<Rightarrow> bool \<Rightarrow> int \<Rightarrow> nat \<times> nat \<Rightarrow> cand list \<Rightarrow>
    (ost, nat \<times> nat) eff" where
  "capacity_sweep P scratch cold fp dry_run to_free acc [] = retE acc"
| "capacity_sweep P scratch cold fp dry_run to_free acc (c # cands) =
     (if to_free \<le> int (fst acc) then retE acc
      else bindE (sweep_one P scratch cold fp dry_run ''capacity'' acc (snd (snd c))) (\<lambda>acc'.
        capacity_sweep P scratch cold fp dry_run to_free acc' cands))"

record overflow_args =
  o_scratch :: path
  o_cold :: path
  o_high :: rat
  o_low :: rat
  o_min_age_days :: rat
  o_max_idle_days :: rat
  o_dry_run :: bool

definition bytes_to_free :: "rat \<Rightarrow> int \<Rightarrow> int \<Rightarrow> int" where
  "bytes_to_free low cap free = max 0 \<lfloor>of_int cap * (1 - low / 100) - of_int free\<rfloor>"

definition both_sweeps :: "plat \<Rightarrow> overflow_args \<Rightarrow> int \<Rightarrow> int \<Rightarrow> nat option \<Rightarrow> cand list \<Rightarrow> cand list \<Rightarrow>
    (ost, nat \<times> nat) eff" where
  "both_sweeps P args size0 free0 fp ttl_list cap_list =
     bindE (ttl_sweep P (o_scratch args) (o_cold args) fp (o_dry_run args) ttl_list) (\<lambda>(freed, moved).
     bindE (if \<not> o_dry_run args then bindE (pool_bytes P) (\<lambda>(cap, _, free). retE (cap, free))
            else retE (size0, free0 + int freed)) (\<lambda>(cap, free).
       if o_high args \<le> capacity_pct cap free then
         bindE (capacity_sweep P (o_scratch args) (o_cold args) fp (o_dry_run args)
                  (bytes_to_free (o_low args) cap free) (0, 0) cap_list) (\<lambda>(cap_freed, cap_moved).
           retE (freed + cap_freed, moved + cap_moved))
       else retE (freed, moved)))"

definition expired :: "overflow_args \<Rightarrow> rat \<Rightarrow> cand \<Rightarrow> bool" where
  "expired args now c = (0 < o_max_idle_days args \<and> fst c < now - o_max_idle_days args * 86400)"

definition overflow_run :: "plat \<Rightarrow> overflow_args \<Rightarrow> int \<Rightarrow> int \<Rightarrow> (ost, int) eff" where
  "overflow_run P args cap free =
     (let state_dir = o_scratch args @ [ARCHIVE_DIR] in
      bindE (ask (clock_ns P)) (\<lambda>ns. let now = secs ns in
      bindE (gather_candidates P (o_scratch args) (now - o_min_age_days args * 86400)
               [state_dir] [o_scratch args @ [NOTE_NAME]]) (\<lambda>cands.
        if cands = [] then retE 0
        else
          bindE (if o_dry_run args then retE None else open_manifest P state_dir) (\<lambda>fp.
          bindE (both_sweeps P args cap free fp (filter (expired args now) cands)
                   (filter (\<lambda>c. \<not> expired args now c) cands)) (\<lambda>(freed, moved).
            if \<not> o_dry_run args \<and> moved \<noteq> 0 then
              bindE (write_note P (o_scratch args) (o_cold args)) (\<lambda>_.
              bindE (pool_bytes P) (\<lambda>_. retE 0))
            else retE 0)))))"

definition overflow_main :: "plat \<Rightarrow> overflow_args \<Rightarrow> (ost, int) eff" where
  "overflow_main P args =
     (if \<not> mounted P (o_scratch args) then retE 0
      else if \<not> mounted P (o_cold args) then die
      else if \<not> (0 < o_low args \<and> o_low args < o_high args \<and> o_high args \<le> 100) then die
      else bindE (pool_bytes P) (\<lambda>(cap, _, free).
        if capacity_pct cap free < o_high args \<and> \<not> 0 < o_max_idle_days args then retE 0
        else overflow_run P args cap free))"

end
