(* ===== verification/Scratch_Restore.thy ===== *)
theory Scratch_Restore
  imports Scratch_Archive
begin

text \<open>
  Model of \<open>nix/modules/scratch/scratch-restore.py\<close>, the inverse of the overflow job. The tool
  carries its own copies of \<open>copy_and_hash\<close>, \<open>fd_sha256\<close>, \<open>fsync_dir\<close> and
  \<open>tmp_sibling\<close>; they are statement for statement those of the overflow job.
\<close>

definition restore_copy_and_hash :: "plat \<Rightarrow> path \<Rightarrow> path \<Rightarrow> (ost, string \<times> nat \<times> nat) eff" where
  "restore_copy_and_hash = copy_and_hash"

definition restore_fd_sha256 :: "plat \<Rightarrow> nat \<Rightarrow> (ost, string) eff" where
  "restore_fd_sha256 = fd_sha256"

definition restore_fsync_dir :: "plat \<Rightarrow> path \<Rightarrow> (ost, unit) eff" where
  "restore_fsync_dir = fsync_dir"

definition restore_tmp_sibling :: "plat \<Rightarrow> path \<Rightarrow> string \<Rightarrow> (ost, path) eff" where
  "restore_tmp_sibling = tmp_sibling"

section \<open>Which links are restored\<close>

definition under_any :: "path \<Rightarrow> path list \<Rightarrow> bool" where
  "under_any p roots = list_ex (\<lambda>r. p = r \<or> below r p) roots"

text \<open>The archive location of a link, by the first pair whose scratch root holds it.\<close>

definition expected_target :: "plat \<Rightarrow> (path \<times> path) list \<Rightarrow> path \<Rightarrow> path \<Rightarrow> (ost, path option) eff" where
  "expected_target P pairs link_parent link_real =
     (case List.find (\<lambda>pr. under_any link_parent [fst pr]) pairs of
        None \<Rightarrow> retE None
      | Some (sroot, croot) \<Rightarrow>
          bindE (os_realpath P (croot @ relpath link_real sroot)) (\<lambda>e. retE (Some e)))"

definition resolve_target :: "plat \<Rightarrow> path \<Rightarrow> (ost, path) eff" where
  "resolve_target P link =
     bindE (sys P (do_readlink link)) (\<lambda>(ab, target).
       os_realpath P (if ab then target else butlast link @ target))"

text \<open>The checks on the link and its target: \<open>Some target\<close> if the link may be restored.\<close>

definition admitted :: "plat \<Rightarrow> path \<Rightarrow> path list \<Rightarrow> path list \<Rightarrow> (path \<times> path) list \<Rightarrow> (ost, path option) eff" where
  "admitted P link scratch_roots cold_roots pairs =
     bindE (islink P link) (\<lambda>l.
       if \<not> l then retE None
       else
         bindE (os_realpath P (butlast link)) (\<lambda>link_parent.
           if scratch_roots \<noteq> [] \<and> \<not> under_any link_parent scratch_roots then retE None
           else
             bindE (resolve_target P link) (\<lambda>target.
               if \<not> under_any target cold_roots then retE None
               else if pairs = [] then retE (Some target)
               else
                 bindE (expected_target P pairs link_parent (link_parent @ [last link])) (\<lambda>expected.
                   retE (if expected = Some target then Some target else None)))))"

section \<open>Restoring one link\<close>

definition cold_changed :: "plat \<Rightarrow> path \<Rightarrow> stat \<Rightarrow> (ost, bool) eff" where
  "cold_changed P target tst =
     bindE (catchE (bindE (os_stat P target) (\<lambda>s. retE (Some s))) is_OSError (\<lambda>_. retE None))
       (\<lambda>tcur. retE (map_option identity tcur \<noteq> Some (identity tst)))"

definition restamp :: "plat \<Rightarrow> nat \<Rightarrow> stat \<Rightarrow> (ost, unit) eff" where
  "restamp P fd tst =
     bindE (sys P (do_fchmod P fd (st_mode tst))) (\<lambda>_.
     bindE (ask (clock_ns P)) (\<lambda>now.
     bindE (sys P (do_utime P fd (max now (st_atime tst)) (st_mtime tst))) (\<lambda>_.
     bindE (if is_root P then sys P (do_fchown P fd (st_uid tst) (st_gid tst)) else retE ()) (\<lambda>_.
       sys P (do_fsync fd)))))"

definition checked_copy :: "plat \<Rightarrow> path \<Rightarrow> path \<Rightarrow> stat \<Rightarrow> string \<times> nat \<times> nat \<Rightarrow> (ost, bool) eff" where
  "checked_copy P part target tst copy =
     (case copy of (src_sha, n, fd) \<Rightarrow>
        bindE (if n \<noteq> st_size tst then retE True
               else bindE (restore_fd_sha256 P fd) (\<lambda>sha. retE (sha \<noteq> src_sha))) (\<lambda>bad.
          if bad then bindE (os_unlink P part) (\<lambda>_. retE False)
          else bindE (restamp P fd tst) (\<lambda>_.
               bindE (cold_changed P target tst) (\<lambda>changed.
                 if changed then bindE (os_unlink P part) (\<lambda>_. retE False)
                 else bindE (same_file P part fd) (\<lambda>_. retE True)))))"

definition bring_back :: "plat \<Rightarrow> path \<Rightarrow> path \<Rightarrow> stat \<Rightarrow> path \<Rightarrow> (ost, bool) eff" where
  "bring_back P link target tst part =
     catchE
       (bindE (clear_stale P part) (\<lambda>_.
        bindE (restore_copy_and_hash P target part) (\<lambda>copy.
        bindE (checked_copy P part target tst copy) (\<lambda>ok.
          if \<not> ok then retE False
          else bindE (os_replace P part link) (\<lambda>_.
               bindE (restore_fsync_dir P (butlast link)) (\<lambda>_. retE True))))))
       is_OSError (\<lambda>_. bindE (discard P part) (\<lambda>_. retE False))"

text \<open>The cold copy is removed only if it is still what was restored.\<close>

definition drop_cold :: "plat \<Rightarrow> path \<Rightarrow> stat \<Rightarrow> (ost, unit) eff" where
  "drop_cold P target tst =
     bindE (cold_changed P target tst) (\<lambda>changed.
       if changed then retE ()
       else catchE
         (bindE (os_unlink P target) (\<lambda>_. restore_fsync_dir P (butlast target)))
         is_OSError (\<lambda>_. retE ()))"

definition restore_from :: "plat \<Rightarrow> path \<Rightarrow> bool \<Rightarrow> path \<Rightarrow> stat \<Rightarrow> (ost, bool) eff" where
  "restore_from P link keep_cold target tst =
     bindE (restore_tmp_sibling P link ''sr'') (\<lambda>part.
     bindE (bring_back P link target tst part) (\<lambda>ok.
       if \<not> ok then retE False
       else bindE (if keep_cold then retE () else drop_cold P target tst) (\<lambda>_. retE True)))"

definition restore_target :: "plat \<Rightarrow> path \<Rightarrow> bool \<Rightarrow> path \<Rightarrow> (ost, bool) eff" where
  "restore_target P link keep_cold target =
     bindE (catchE (bindE (os_stat P target) (\<lambda>s. retE (Some s))) is_OSError (\<lambda>_. retE None)) (\<lambda>r.
       case r of
         None \<Rightarrow> retE False
       | Some tst \<Rightarrow>
           if st_kind tst \<noteq> IsReg then retE False else restore_from P link keep_cold target tst)"

definition restore_one :: "plat \<Rightarrow> path \<Rightarrow> path list \<Rightarrow> path list \<Rightarrow> (path \<times> path) list \<Rightarrow> bool \<Rightarrow> (ost, bool) eff" where
  "restore_one P link scratch_roots cold_roots pairs keep_cold =
     bindE (admitted P link scratch_roots cold_roots pairs) (\<lambda>a.
       case a of None \<Rightarrow> retE False | Some target \<Rightarrow> restore_target P link keep_cold target)"

section \<open>Directories and the command line\<close>

text \<open>\<open>walk_links\<close>, with the loop body run at each link it yields.\<close>

primrec walk_links :: "nat \<Rightarrow> plat \<Rightarrow> ('a \<Rightarrow> path \<Rightarrow> (ost, 'a) eff) \<Rightarrow> 'a \<Rightarrow> path \<Rightarrow> (ost, 'a) eff" where
  "walk_links 0 P body acc dir = haltE"
| "walk_links (Suc m) P body acc dir =
     bindE (catchE (sys P (do_scandir dir)) is_OSError (\<lambda>_. retE ([], []))) (\<lambda>(dirs, files).
     bindE (foldE (\<lambda>a name.
              bindE (islink P (dir @ [name])) (\<lambda>l. if l then body a (dir @ [name]) else retE a))
            acc files) (\<lambda>acc'.
       foldE (\<lambda>a d.
           bindE (islink P (dir @ [d])) (\<lambda>l.
             if l then retE a else walk_links m P body a (dir @ [d])))
         acc' dirs))"

text \<open>Paths come as text, absolute.\<close>

definition path_of :: "string \<Rightarrow> path" where
  "path_of s = filter (\<lambda>c. c \<noteq> []) (split_on (CHR ''/'') s)"

record restore_args =
  r_paths :: "string list"
  r_keep_cold :: bool
  r_cold_root :: "string list"
  r_scratch_root :: "string list"
  r_overflow_map :: "string list"
  r_env_cold :: string
  r_env_scratch :: string
  r_env_map :: string

definition build_roots :: "plat \<Rightarrow> string list \<Rightarrow> string \<Rightarrow> (ost, path list) eff" where
  "build_roots P flag_vals env_value =
     bindE (mapE (\<lambda>r. os_realpath P (path_of r))
              (flag_vals @ filter (\<lambda>r. r \<noteq> []) (split_on (CHR '':'') env_value))) (\<lambda>ps.
       retE (sort_key path_str (remdups ps)))"

definition read_pair :: "plat \<Rightarrow> string \<Rightarrow> (ost, (path \<times> path) list) eff" where
  "read_pair P m =
     (if \<not> contains m ''='' then retE []
      else (case partition_on (CHR ''='') m of
          (sroot, _, croot) \<Rightarrow>
            bindE (os_realpath P (path_of sroot)) (\<lambda>s.
            bindE (os_realpath P (path_of croot)) (\<lambda>c. retE [(s, c)]))))"

definition build_pairs :: "plat \<Rightarrow> restore_args \<Rightarrow> (ost, (path \<times> path) list) eff" where
  "build_pairs P args =
     bindE (mapE (read_pair P) (r_overflow_map args @ filter (\<lambda>m. m \<noteq> []) (split_on (CHR '';'') (r_env_map args))))
       (\<lambda>pss. retE (concat pss))"

text \<open>Counts of restored and failed links.\<close>

definition count_link :: "plat \<Rightarrow> path list \<Rightarrow> path list \<Rightarrow> (path \<times> path) list \<Rightarrow> bool \<Rightarrow> nat \<times> nat \<Rightarrow> path \<Rightarrow>
    (ost, nat \<times> nat) eff" where
  "count_link P scratch_roots cold_roots pairs keep_cold acc link =
     bindE (restore_one P link scratch_roots cold_roots pairs keep_cold) (\<lambda>ok.
       retE (if ok then (fst acc + 1, snd acc) else (fst acc, snd acc + 1)))"

definition restore_path :: "plat \<Rightarrow> path list \<Rightarrow> path list \<Rightarrow> (path \<times> path) list \<Rightarrow> bool \<Rightarrow> nat \<times> nat \<Rightarrow> path \<Rightarrow>
    (ost, nat \<times> nat) eff" where
  "restore_path P scratch_roots cold_roots pairs keep_cold acc p =
     bindE (bindE (isdir P p) (\<lambda>d. if d then bindE (islink P p) (\<lambda>l. retE (\<not> l)) else retE False)) (\<lambda>tree.
       if tree then walk_links (fuel P) P (count_link P scratch_roots cold_roots pairs keep_cold) acc p
       else bindE (restore_one P p scratch_roots cold_roots pairs keep_cold) (\<lambda>ok.
         if ok then retE (fst acc + 1, snd acc)
         else bindE (islink P p) (\<lambda>l. retE (if l then (fst acc, snd acc + 1) else acc))))"

definition restore_main :: "plat \<Rightarrow> restore_args \<Rightarrow> (ost, int) eff" where
  "restore_main P args =
     bindE (build_roots P (r_cold_root args) (r_env_cold args)) (\<lambda>cold_roots.
       if cold_roots = [] then retE 2
       else
         bindE (build_roots P (r_scratch_root args) (r_env_scratch args)) (\<lambda>scratch_roots.
         bindE (build_pairs P args) (\<lambda>pairs.
         bindE (foldE (restore_path P scratch_roots cold_roots pairs (r_keep_cold args)) (0, 0)
                  (map path_of (r_paths args))) (\<lambda>(restored, failed).
           retE (if failed \<noteq> 0 then 1 else 0)))))"

end
