(* ===== verification/Fs_Lemmas.thy ===== *)
theory Fs_Lemmas
  imports Fs
begin

text \<open>
  Facts about the file system model: entries and inodes after an update, paths whose directories
  are real (\<open>plain\<close>), and \<open>gentle\<close>, what a system call leaves alone.
\<close>

section \<open>Entries and inodes\<close>

lemma dict_get_filter_key:
  "dict_get (filter (\<lambda>e. fst e \<noteq> p) d) q = (if q = p then None else dict_get d q)"
  unfolding dict_get_def by (induction d) auto

lemma lookup_Nil [simp]: "\<exists>m. lookup u [] = Some (Folder m)"
  by (simp add: lookup_def)

lemma lookup_put [simp]:
  "lookup (put p e u) q = (if q = p \<and> p \<noteq> [] then Some e else lookup u q)"
  by (auto simp: lookup_def put_def)

lemma lookup_remove [simp]:
  "lookup (remove_entry p u) q = (if q = p \<and> p \<noteq> [] then None else lookup u q)"
  by (auto simp: lookup_def remove_entry_def dict_get_filter_key simp del: dict_get_eq_None)

lemma lookup_set_inode [simp]: "lookup (set_inode i n u) q = lookup u q"
  by (simp add: lookup_def set_inode_def)

lemma inode_of_put [simp]: "inode_of (put p e u) i = inode_of u i"
  by (simp add: inode_of_def put_def)

lemma inode_of_remove [simp]: "inode_of (remove_entry p u) i = inode_of u i"
  by (simp add: inode_of_def remove_entry_def)

lemma inode_of_set_inode [simp]:
  "inode_of (set_inode i n u) j = (if j = i then Some n else inode_of u j)"
  by (simp add: inode_of_def set_inode_def)

lemma foldr_max_upper: "x \<in> set xs \<Longrightarrow> x \<le> foldr max xs (0::nat)"
  by (induction xs) auto

lemma fresh_inode: "inode_of u (fresh u) = None"
proof -
  have "fresh u \<notin> set (dict_keys (inodes u))"
    using foldr_max_upper[of "fresh u" "dict_keys (inodes u)"] by (auto simp: fresh_def)
  then show ?thesis by (simp add: inode_of_def)
qed

section \<open>Plain paths\<close>

definition is_dir :: "fs \<Rightarrow> path \<Rightarrow> bool" where
  "is_dir u q = (case lookup u q of Some (Folder _) \<Rightarrow> True | _ \<Rightarrow> False)"

lemma is_dir_Nil [simp]: "is_dir u []"
  by (simp add: is_dir_def lookup_def)

definition is_link :: "fs \<Rightarrow> path \<Rightarrow> bool" where
  "is_link u q \<longleftrightarrow> (\<exists>ab t. lookup u q = Some (Symlink ab t))"

lemma is_linkI [simp]: "lookup u q = Some (Symlink ab t) \<Longrightarrow> is_link u q"
  by (simp add: is_link_def)

lemma is_link_no [simp]:
  "lookup u q = None \<Longrightarrow> \<not> is_link u q"
  "lookup u q = Some (File i) \<Longrightarrow> \<not> is_link u q"
  by (simp_all add: is_link_def)

lemma is_dirD: "is_dir u q \<Longrightarrow> \<exists>m. lookup u q = Some (Folder m)"
  by (auto simp: is_dir_def split: option.splits entry.splits)

text \<open>Every proper prefix is a directory, and no component is a dot.\<close>

definition plain :: "fs \<Rightarrow> path \<Rightarrow> bool" where
  "plain u p = (list_all (\<lambda>k. is_dir u (take k p)) [0 ..< length p] \<and> ''.'' \<notin> set p \<and> ''..'' \<notin> set p)"

lemma plain_dir: "plain u p \<Longrightarrow> k < length p \<Longrightarrow> is_dir u (take k p)"
  by (auto simp: plain_def list_all_iff)

lemma plain_Nil [simp]: "plain u []"
  by (simp add: plain_def)

lemma plain_snoc [simp]:
  "plain u (p @ [c]) \<longleftrightarrow> plain u p \<and> is_dir u p \<and> c \<noteq> ''.'' \<and> c \<noteq> ''..''"
proof -
  have "list_all (\<lambda>k. is_dir u (take k (p @ [c]))) [0 ..< length p] =
        list_all (\<lambda>k. is_dir u (take k p)) [0 ..< length p]"
    by (auto simp: list_all_iff)
  then show ?thesis by (auto simp: plain_def)
qed

lemma plain_append: "plain u (p @ q) \<Longrightarrow> plain u p"
proof (induction q rule: rev_induct)
  case (snoc c q)
  then show ?case using plain_snoc[of u "p @ q" c] by simp
qed simp

lemma plain_butlast: "plain u p \<Longrightarrow> plain u (butlast p) \<and> is_dir u (butlast p)"
  by (cases p rule: rev_cases) auto

lemma plain_sibling:
  "plain u p \<Longrightarrow> p \<noteq> [] \<Longrightarrow> c \<noteq> ''.'' \<Longrightarrow> c \<noteq> ''..'' \<Longrightarrow> plain u (butlast p @ [c])"
  using plain_butlast by simp

lemma walk_plain:
  assumes "plain u (acc @ cs)" and "fol \<longrightarrow> (\<forall>ab t. lookup u (acc @ cs) \<noteq> Some (Symlink ab t))"
  shows "walk n u fol acc cs = Inr (acc @ cs)"
  using assms
proof (induction cs arbitrary: acc)
  case (Cons c cs)
  have dots: "c \<noteq> ''.''" "c \<noteq> ''..''" using Cons.prems(1) by (auto simp: plain_def)
  show ?case
  proof (cases "cs = []")
    case True
    then show ?thesis using dots Cons.prems(2) by (auto split: option.splits entry.splits)
  next
    case False
    have "is_dir u (acc @ [c])"
      using plain_dir[OF Cons.prems(1), of "Suc (length acc)"] False by simp
    then obtain m where "lookup u (acc @ [c]) = Some (Folder m)" using is_dirD by blast
    then show ?thesis using dots Cons.IH[of "acc @ [c]"] Cons.prems by simp
  qed
qed simp

lemma walk_link:
  assumes "plain u (acc @ cs)" and "cs \<noteq> []" and "lookup u (acc @ cs) = Some (Symlink True t)"
  shows "walk (Suc n) u True acc cs = walk n u True [] t"
  using assms
proof (induction cs arbitrary: acc)
  case (Cons c cs)
  have dots: "c \<noteq> ''.''" "c \<noteq> ''..''" using Cons.prems(1) by (auto simp: plain_def)
  show ?case
  proof (cases "cs = []")
    case True
    then show ?thesis using dots Cons.prems(3) by simp
  next
    case False
    have "is_dir u (acc @ [c])"
      using plain_dir[OF Cons.prems(1), of "Suc (length acc)"] False by simp
    then obtain m where "lookup u (acc @ [c]) = Some (Folder m)" using is_dirD by blast
    then show ?thesis using dots Cons.IH[of "acc @ [c]"] Cons.prems False by simp
  qed
qed simp

lemma locate_plain: "plain u p \<Longrightarrow> locate u False p = Inr p"
  unfolding locate_def using walk_plain[of u "[]" p False] by simp

lemma locate_plain_follow:
  "plain u p \<Longrightarrow> (\<And>ab t. lookup u p \<noteq> Some (Symlink ab t)) \<Longrightarrow> locate u True p = Inr p"
  unfolding locate_def using walk_plain[of u "[]" p True] by simp

text \<open>Where the kernel finds a parent directory is where \<open>realpath\<close> says it is.\<close>

lemma walk_snoc_simp:
  assumes "c \<noteq> ''.''" and "c \<noteq> ''..''"
  shows "walk n u False acc ((c # cs) @ [b]) =
     (case lookup u (acc @ [c]) of
          None \<Rightarrow> Inl ENOENT
        | Some (Folder m) \<Rightarrow> walk n u False (acc @ [c]) (cs @ [b])
        | Some (Symlink ab target) \<Rightarrow>
            (case n of 0 \<Rightarrow> Inl ELOOP
             | Suc k \<Rightarrow> walk k u False (if ab then [] else acc) ((target @ cs) @ [b]))
        | Some _ \<Rightarrow> Inl ENOTDIR)"
  using assms by (simp split: option.split entry.split nat.split)

lemma walk_one:
  assumes "walk n u False acc [b] = Inr q" and "b \<noteq> ''.''" and "b \<noteq> ''..''"
  shows "q = acc @ [b]"
  using assms by (auto split: option.splits entry.splits nat.splits)

lemma walk_realwalk:
  assumes "walk n u False acc (cs @ [b]) = Inr q" and "b \<noteq> ''.''" and "b \<noteq> ''..''"
  shows "q = realwalk n u acc cs @ [b]"
  using assms
proof (induction n u acc cs arbitrary: q rule: realwalk.induct)
  case (1 n u acc)
  then have "walk n u False acc [b] = Inr q" by (simp only: append_Nil)
  from walk_one[OF this 1(2,3)] show ?case by simp
next
  case (2 n u acc c cs)
  consider "c = ''.''" | "c = ''..''" | "c \<noteq> ''.''" "c \<noteq> ''..''" by blast
  then show ?case
  proof cases
    case 1
    with 2(8) have "walk n u False acc (cs @ [b]) = Inr q" by simp
    from 2(1)[OF 1 this 2(9,10)] 1 show ?thesis by simp
  next
    case c: 2
    have d: "c \<noteq> ''.''" using c by simp
    from c d 2(8) have "walk n u False (butlast acc) (cs @ [b]) = Inr q" by simp
    from 2(2)[OF d c this 2(9,10)] c show ?thesis by simp
  next
    case 3
    note w = 2(8)[unfolded walk_snoc_simp[OF 3]]
    show ?thesis
    proof (cases "lookup u (acc @ [c])")
      case None
      with w show ?thesis by simp
    next
      case (Some e)
      note e = this
      show ?thesis
      proof (cases e)
        case (File x1)
        with w e show ?thesis by simp
      next
        case (Symlink ab target)
        with w e 3 2(5)[OF 3 e Symlink _ _ 2(9,10)] show ?thesis
          by (auto split: nat.splits)
      next
        case (Folder m)
        with w e 3 2(6)[OF 3 e Folder _ 2(9,10)] show ?thesis by simp
      next
        case Special
        with w e show ?thesis by simp
      qed
    qed
  qed
qed

text \<open>A path that is not followed at its end ends in its own last component.\<close>

lemma walk_last:
  assumes "walk n u False acc (cs @ [b]) = Inr q" and "b \<noteq> ''.''" and "b \<noteq> ''..''"
  shows "q \<noteq> [] \<and> last q = b"
  using walk_realwalk[OF assms] by simp

lemma locate_last:
  "locate u False p = Inr q \<Longrightarrow> p \<noteq> [] \<Longrightarrow> last p \<noteq> ''.'' \<Longrightarrow> last p \<noteq> ''..'' \<Longrightarrow> q \<noteq> [] \<and> last q = last p"
  unfolding locate_def using walk_last[of SYMLINKS u "[]" "butlast p" "last p" q] by simp

text \<open>What a path leads to is reached through real directories.\<close>

lemma walk_plain_result:
  assumes "walk n u fol acc cs = Inr q" and "plain u acc" and "is_dir u acc \<or> cs = []"
  shows "plain u q"
  using assms
proof (induction n u fol acc cs arbitrary: q rule: walk.induct)
  case (1 n u fol acc)
  then show ?case by simp
next
  case (2 n u fol acc c cs)
  have d: "is_dir u acc" using 2(7) by simp
  consider "c = ''.''" | "c = ''..''" | "c \<noteq> ''.''" "c \<noteq> ''..''" by blast
  then show ?case
  proof cases
    case 1
    with 2(5) have "walk n u fol acc cs = Inr q" by simp
    from 2(1)[OF 1 this 2(6)] d show ?thesis by simp
  next
    case c: 2
    have nd: "c \<noteq> ''.''" using c by simp
    from c nd 2(5) have "walk n u fol (butlast acc) cs = Inr q" by simp
    from 2(2)[OF nd c this] plain_butlast[OF 2(6)] show ?thesis by simp
  next
    case 3
    have pl: "plain u (acc @ [c])" using 3 d 2(6) by simp
    show ?thesis
    proof (cases "lookup u (acc @ [c])")
      case None
      with 2(5) 3 pl show ?thesis by (auto split: if_splits simp del: dict_get_eq_None)
    next
      case (Some e)
      note e = this
      show ?thesis
      proof (cases e)
        case (File i)
        with 2(5) 3 pl e show ?thesis by (auto split: if_splits)
      next
        case (Symlink ab t)
        show ?thesis
        proof (cases "cs = [] \<and> \<not> fol")
          case True
          with 2(5) 3 pl e Symlink show ?thesis by auto
        next
          case False
          then obtain k where k: "n = Suc k"
            using 2(5) 3 e Symlink by (cases n) auto
          with False 2(5) 3 e Symlink have "walk k u fol (if ab then [] else acc) (t @ cs) = Inr q" by auto
          from 2(3)[OF 3 e Symlink False k this] d 2(6) show ?thesis by (cases ab) auto
        qed
      next
        case (Folder m)
        with 2(5) 3 e have "walk n u fol (acc @ [c]) cs = Inr q" by simp
        from 2(4)[OF 3 e Folder this pl] show ?thesis using e Folder by (simp add: is_dir_def)
      next
        case Special
        with 2(5) 3 pl e show ?thesis by (auto split: if_splits)
      qed
    qed
  qed
qed

lemma locate_result_plain: "locate u fol p = Inr q \<Longrightarrow> plain u q"
  unfolding locate_def by (erule walk_plain_result) simp_all

section \<open>What a call leaves alone\<close>

text \<open>Every name of a file leads to an inode.\<close>

definition files_ok :: "fs \<Rightarrow> bool" where
  "files_ok u \<longleftrightarrow> (\<forall>q i. lookup u q = Some (File i) \<longrightarrow> inode_of u i \<noteq> None)"

text \<open>
  Directories stay directories; outside \<open>A\<close> no entry changes, except that a directory may appear;
  outside \<open>N\<close> no file's data changes; inodes stay.
\<close>

definition gentle :: "path set \<Rightarrow> nat set \<Rightarrow> fs \<Rightarrow> fs \<Rightarrow> bool" where
  "gentle A N u v \<longleftrightarrow>
     (\<forall>q. is_dir u q \<longrightarrow> is_dir v q) \<and>
     (\<forall>q. q \<notin> A \<longrightarrow> \<not> is_dir v q \<longrightarrow> lookup v q = lookup u q) \<and>
     (\<forall>q. q \<notin> A \<longrightarrow> is_dir v q \<longrightarrow> is_dir u q \<or> lookup u q = None) \<and>
     (\<forall>i d. i \<notin> N \<longrightarrow> data_of u i = Some d \<longrightarrow> data_of v i = Some d) \<and>
     (\<forall>i. inode_of u i \<noteq> None \<longrightarrow> inode_of v i \<noteq> None) \<and>
     (files_ok u \<longrightarrow> files_ok v)"

lemma gentle_refl [simp]: "gentle A N u u"
  by (simp add: gentle_def)

lemma gentle_dir: "gentle A N u v \<Longrightarrow> is_dir u q \<Longrightarrow> is_dir v q"
  by (simp add: gentle_def)

lemma gentle_plain: "gentle A N u v \<Longrightarrow> plain u p \<Longrightarrow> plain v p"
  by (auto simp: plain_def list_all_iff gentle_def)

lemma gentle_same: "gentle A N u v \<Longrightarrow> q \<notin> A \<Longrightarrow> \<not> is_dir v q \<Longrightarrow> lookup v q = lookup u q"
  by (simp add: gentle_def)

lemma gentle_new_dir:
  "gentle A N u v \<Longrightarrow> q \<notin> A \<Longrightarrow> is_dir v q \<Longrightarrow> is_dir u q \<or> lookup u q = None"
  by (simp add: gentle_def)

lemma gentle_data: "gentle A N u v \<Longrightarrow> i \<notin> N \<Longrightarrow> data_of u i = Some d \<Longrightarrow> data_of v i = Some d"
  by (simp add: gentle_def)

lemma gentle_inode: "gentle A N u v \<Longrightarrow> inode_of u i \<noteq> None \<Longrightarrow> inode_of v i \<noteq> None"
  unfolding gentle_def by (elim conjE) (drule spec, erule (1) mp)

lemma gentle_files_ok: "gentle A N u v \<Longrightarrow> files_ok u \<Longrightarrow> files_ok v"
  by (simp add: gentle_def)

lemma gentle_entry:
  "gentle A N u v \<Longrightarrow> q \<notin> A \<Longrightarrow> lookup u q = Some e \<Longrightarrow> \<not> is_dir u q \<Longrightarrow> lookup v q = Some e"
  using gentle_same[of A N u v q] gentle_new_dir[of A N u v q] by auto

lemma gentle_back:
  "gentle A N u v \<Longrightarrow> q \<notin> A \<Longrightarrow> lookup v q = Some e \<Longrightarrow> \<not> is_dir v q \<Longrightarrow> lookup u q = Some e"
  using gentle_same[of A N u v q] by simp

lemma is_dir_put [simp]:
  "is_dir (put q e u) p = (if p = q \<and> q \<noteq> [] then (\<exists>m. e = Folder m) else is_dir u p)"
  by (auto simp: is_dir_def split: entry.splits)

lemma is_dir_remove [simp]: "is_dir (remove_entry q u) p = (\<not> (p = q \<and> q \<noteq> []) \<and> is_dir u p)"
  by (auto simp: is_dir_def)

lemma is_dir_set_inode [simp]: "is_dir (set_inode i n u) p = is_dir u p"
  by (simp add: is_dir_def)

lemma is_dir_no [simp]: "lookup u q = None \<Longrightarrow> \<not> is_dir u q"
  by (simp add: is_dir_def)

lemma data_of_simps [simp]:
  "data_of (put q e u) i = data_of u i"
  "data_of (remove_entry q u) i = data_of u i"
  "data_of (set_inode j n u) i = (if i = j then Some (i_data n) else data_of u i)"
  by (simp_all add: data_of_def)

lemma gentleI:
  assumes "\<And>q. is_dir u q \<Longrightarrow> is_dir v q"
    and "\<And>q. q \<notin> A \<Longrightarrow> \<not> is_dir v q \<Longrightarrow> lookup v q = lookup u q"
    and "\<And>q. q \<notin> A \<Longrightarrow> is_dir v q \<Longrightarrow> is_dir u q \<or> lookup u q = None"
    and "\<And>i d. i \<notin> N \<Longrightarrow> data_of u i = Some d \<Longrightarrow> data_of v i = Some d"
    and "\<And>i. inode_of u i \<noteq> None \<Longrightarrow> inode_of v i \<noteq> None"
    and "\<And>q i. files_ok u \<Longrightarrow> lookup v q = Some (File i) \<Longrightarrow> inode_of v i \<noteq> None"
  shows "gentle A N u v"
  unfolding gentle_def files_ok_def
  by (intro conjI allI impI) (use assms in \<open>auto simp: files_ok_def\<close>)

lemma gentle_put:
  assumes "\<not> is_dir u q" and "\<And>i. e = File i \<Longrightarrow> inode_of u i \<noteq> None"
  shows "gentle {q} {} u (put q e u)"
  by (rule gentleI) (use assms in \<open>auto simp: files_ok_def split: if_splits\<close>)

lemma gentle_put_dir:
  assumes "lookup u q = None \<or> is_dir u q"
  shows "gentle {} {} u (put q (Folder m) u)"
  by (rule gentleI) (use assms in \<open>auto simp: files_ok_def split: if_splits\<close>)

lemma gentle_remove:
  assumes "\<not> is_dir u q"
  shows "gentle {q} {} u (remove_entry q u)"
  by (rule gentleI) (use assms in \<open>auto simp: files_ok_def split: if_splits\<close>)

lemma gentle_set_inode: "gentle {} {i} u (set_inode i n u)"
  by (rule gentleI) (auto simp: files_ok_def)

lemma gentle_set_inode_same:
  assumes "inode_of u i = Some n" and "i_data n' = i_data n"
  shows "gentle {} {} u (set_inode i n' u)"
  by (rule gentleI) (use assms in \<open>auto simp: files_ok_def data_of_def\<close>)

lemma gentle_mono:
  assumes "gentle A N u v" and "A \<subseteq> A'" and "N \<subseteq> N'"
  shows "gentle A' N' u v"
proof (rule gentleI)
  show "is_dir v q" if "is_dir u q" for q by (rule gentle_dir[OF assms(1) that])
  show "lookup v q = lookup u q" if "q \<notin> A'" and "\<not> is_dir v q" for q
    by (rule gentle_same[OF assms(1)]) (use that assms(2) in blast)+
  show "is_dir u q \<or> lookup u q = None" if "q \<notin> A'" and "is_dir v q" for q
    by (rule gentle_new_dir[OF assms(1)]) (use that assms(2) in blast)+
  show "data_of v i = Some d" if "i \<notin> N'" and "data_of u i = Some d" for i d
    by (rule gentle_data[OF assms(1)]) (use that assms(3) in blast)+
  show "inode_of v i \<noteq> None" if "inode_of u i \<noteq> None" for i by (rule gentle_inode[OF assms(1) that])
  show "inode_of v i \<noteq> None" if "files_ok u" and "lookup v q = Some (File i)" for q i
    using gentle_files_ok[OF assms(1) that(1)] that(2) unfolding files_ok_def by blast
qed

lemma gentle_trans:
  assumes "gentle A N u v" and "gentle A N v w"
  shows "gentle A N u w"
proof (rule gentleI)
  show "is_dir w q" if "is_dir u q" for q
    by (rule gentle_dir[OF assms(2) gentle_dir[OF assms(1) that]])
  show "lookup w q = lookup u q" if "q \<notin> A" and "\<not> is_dir w q" for q
  proof -
    have "\<not> is_dir v q" using gentle_dir[OF assms(2)] that(2) by blast
    then show ?thesis
      using gentle_same[OF assms(1) that(1)] gentle_same[OF assms(2) that] by simp
  qed
  show "is_dir u q \<or> lookup u q = None" if "q \<notin> A" and "is_dir w q" for q
  proof (cases "is_dir v q")
    case True
    then show ?thesis by (rule gentle_new_dir[OF assms(1) that(1)])
  next
    case False
    then have "lookup v q = None" using gentle_new_dir[OF assms(2) that] by blast
    with gentle_same[OF assms(1) that(1) False] show ?thesis by (simp only: simp_thms)
  qed
  show "data_of w i = Some d" if "i \<notin> N" and "data_of u i = Some d" for i d
    by (rule gentle_data[OF assms(2) that(1) gentle_data[OF assms(1) that]])
  show "inode_of w i \<noteq> None" if "inode_of u i \<noteq> None" for i
    by (rule gentle_inode[OF assms(2) gentle_inode[OF assms(1) that]])
  show "inode_of w i \<noteq> None" if "files_ok u" and "lookup w q = Some (File i)" for q i
    using gentle_files_ok[OF assms(2) gentle_files_ok[OF assms(1) that(1)]] that(2)
    unfolding files_ok_def by blast
qed

section \<open>Each call\<close>

lemma do_unlinkD:
  assumes "do_unlink p n u = Inr (x, v)"
  shows "\<exists>q. locate u False p = Inr q \<and> gentle {q} {} u v \<and> lookup v q = None"
proof -
  obtain q where q: "locate u False p = Inr q" "\<not> is_dir u q" "v = remove_entry q u"
    using assms unfolding do_unlink_def
    by (auto simp: is_dir_def split: sum.splits option.splits entry.splits)
  moreover have "q \<noteq> []" using q(2) by auto
  ultimately show ?thesis using gentle_remove[OF q(2)] by (intro exI[of _ q]) (simp del: dict_get_eq_None)
qed

lemma do_symlinkD:
  assumes "do_symlink t p n u = Inr (x, v)"
  shows "\<exists>q. locate u False p = Inr q \<and> gentle {q} {} u v \<and> lookup v q = Some (Symlink True t)"
proof -
  obtain q where q: "locate u False p = Inr q" "lookup u q = None" "v = put q (Symlink True t) u"
    using assms unfolding do_symlink_def by (auto split: sum.splits if_splits)
  moreover have "q \<noteq> []" using q(2) by (auto simp: lookup_def)
  ultimately show ?thesis by (auto intro!: gentle_put simp: is_dir_def)
qed

lemma do_renameD:
  assumes "do_rename a b n u = Inr (x, v)" and "files_ok u"
  shows "\<exists>qa qb. locate u False a = Inr qa \<and> locate u False b = Inr qb \<and> gentle {qa, qb} {} u v \<and>
     lookup u qa \<noteq> None \<and> \<not> is_dir u qa \<and> \<not> is_dir u qb \<and> lookup v qb = lookup u qa \<and>
     (lookup v qa = None \<or> lookup v qa = lookup u qa)"
proof -
  obtain qa qb e where q: "locate u False a = Inr qa" "locate u False b = Inr qb" "lookup u qa = Some e"
    and e: "\<not> is_dir u qa" "\<not> is_dir u qb"
    and v: "v = u \<and> lookup u qb = Some e \<or> v = put qb e (remove_entry qa u)"
    using assms(1) unfolding do_rename_def
    by (auto simp: is_dir_def split: sum.splits option.splits entry.splits if_splits)
  have ne: "qb \<noteq> []" using e(2) by auto
  have "gentle {qa, qb} {} u v"
  proof (cases "v = u")
    case False
    have 1: "gentle {qa, qb} {} u (remove_entry qa u)"
      by (rule gentle_mono[OF gentle_remove[OF e(1)]]) auto
    have "gentle {qb} {} (remove_entry qa u) (put qb e (remove_entry qa u))"
    proof (rule gentle_put)
      show "\<not> is_dir (remove_entry qa u) qb" using e(2) by simp
      show "inode_of (remove_entry qa u) i \<noteq> None" if "e = File i" for i
        using assms(2) q(3) that by (simp add: files_ok_def)
    qed
    then have "gentle {qa, qb} {} (remove_entry qa u) (put qb e (remove_entry qa u))"
      by (rule gentle_mono) auto
    from gentle_trans[OF 1 this] v False show ?thesis by simp
  qed simp
  with q e v ne show ?thesis by auto
qed

lemma do_mkdirD:
  assumes "do_mkdir mode p n u = Inr (x, v)"
  shows "gentle {} {} u v \<and> (\<exists>q. locate u False p = Inr q \<and> is_dir v q)"
proof -
  obtain q m where q: "locate u False p = Inr q" "lookup u q = None" "v = put q (Folder m) u"
    using assms unfolding do_mkdir_def by (auto split: sum.splits if_splits)
  moreover have "q \<noteq> []" using q(2) by (auto simp: lookup_def)
  ultimately show ?thesis by (auto intro!: gentle_put_dir simp: is_dir_def)
qed

lemma entry_metaD:
  assumes "entry_meta f g q u = Inr (x, v)" and "\<And>y. i_data (g y) = i_data y"
  shows "gentle {} {} u v"
  using assms unfolding entry_meta_def
  by (auto intro!: gentle_put_dir gentle_set_inode_same simp: is_dir_def split: option.splits entry.splits)

lemma do_chownD: "do_chown P p uid gid n u = Inr (x, v) \<Longrightarrow> gentle {} {} u v"
  unfolding do_chown_def by (auto split: sum.splits elim!: entry_metaD)

lemma do_chmodD: "do_chmod P p mode n u = Inr (x, v) \<Longrightarrow> gentle {} {} u v"
  unfolding do_chmod_def by (auto split: sum.splits elim!: entry_metaD)

lemma on_inodeD: "on_inode g i u = Inr (x, v) \<Longrightarrow> gentle {} {i} u v"
  unfolding on_inode_def by (auto intro!: gentle_set_inode split: option.splits)

lemma on_inode_sameD:
  "on_inode g i u = Inr (x, v) \<Longrightarrow> (\<And>y. i_data (g y) = i_data y) \<Longrightarrow> gentle {} {} u v"
  unfolding on_inode_def by (auto intro!: gentle_set_inode_same split: option.splits)

lemma fd_metaD:
  "do_fsync i n u = Inr (x, v) \<Longrightarrow> gentle {} {} u v"
  "do_fchown P i uid gid n u = Inr (x, v) \<Longrightarrow> gentle {} {} u v"
  "do_fchmod P i mode n u = Inr (x, v) \<Longrightarrow> gentle {} {} u v"
  "do_utime P i atime mtime n u = Inr (x, v) \<Longrightarrow> gentle {} {} u v"
  unfolding do_fsync_def do_fchown_def do_fchmod_def do_utime_def
  by (erule on_inode_sameD, simp)+

lemma do_writeD: "do_write P i bs n u = Inr (k, v) \<Longrightarrow> gentle {} {i} u v"
  unfolding do_write_def Let_def by (cases "on_inode
     (\<lambda>x. x\<lparr>i_data := i_data x @ stored P n (take (min (length bs) (Suc (accepts P n))) bs),
        i_synced := False, i_mtime := clock_ns P n, i_ctime := clock_ns P n\<rparr>) i u")
    (auto dest: on_inodeD)

lemma make_file_gentle:
  assumes "lookup u q = None"
  shows "gentle {q} {} u (snd (make_file P mode q n u))"
    and "lookup (snd (make_file P mode q n u)) q = Some (File (fst (make_file P mode q n u)))"
    and "inode_of u (fst (make_file P mode q n u)) = None"
    and "inode_of (snd (make_file P mode q n u)) (fst (make_file P mode q n u)) \<noteq> None"
proof -
  have q: "q \<noteq> []" using assms by (auto simp: lookup_def)
  have 1: "gentle {q} {} u (set_inode (fresh u) m u)" for m
    using fresh_inode[of u] by (auto simp: gentle_def is_dir_def data_of_def files_ok_def)
  have "gentle {q} {} (set_inode (fresh u) m u) (put q (File (fresh u)) (set_inode (fresh u) m u))" for m
    using assms by (intro gentle_put) (auto simp: is_dir_def)
  from gentle_trans[OF 1 this]
  show "gentle {q} {} u (snd (make_file P mode q n u))" by (simp add: make_file_def)
  show "inode_of u (fst (make_file P mode q n u)) = None"
    using fresh_inode[of u] by (simp add: make_file_def)
  show "lookup (snd (make_file P mode q n u)) q = Some (File (fst (make_file P mode q n u)))"
    using q by (simp add: make_file_def)
qed (simp add: make_file_def)

lemma do_createD:
  assumes "do_create P p n u = Inr (j, v)"
  shows "\<exists>q. locate u False p = Inr q \<and> gentle {q} {} u v \<and> lookup v q = Some (File j) \<and>
     inode_of u j = None \<and> inode_of v j \<noteq> None"
proof (cases "locate u False p")
  case (Inr q)
  with assms have q: "lookup u q = None" and jv: "make_file P 384 q n u = (j, v)"
    unfolding do_create_def by (simp_all only: sum.case split: if_splits) auto
  show ?thesis using make_file_gentle[OF q, of P 384 n] Inr jv by (intro exI[of _ q]) simp
qed (use assms in \<open>simp add: do_create_def\<close>)

lemma do_open_writeD:
  assumes "do_open_write P trunc mode p n u = Inr (i, v)"
  shows "\<exists>q. locate u False p = Inr q \<and> gentle {q} {i} u v \<and> inode_of v i \<noteq> None \<and>
     lookup v q = Some (File i) \<and> (lookup u q = Some (File i) \<or> inode_of u i = None)"
proof (cases "locate u False p")
  case (Inr q)
  note a = assms[unfolded do_open_write_def Inr, simplified]
  show ?thesis
  proof (cases "lookup u q")
    case None
    with a have jv: "make_file P mode q n u = (i, v)" by simp
    have "gentle {q} {i} u v"
      using make_file_gentle(1)[OF None, of P mode n] jv gentle_mono[of "{q}" "{}" u v "{q}" "{i}"] by simp
    then show ?thesis using make_file_gentle[OF None, of P mode n] Inr jv by (intro exI[of _ q]) simp
  next
    case (Some e)
    with a obtain y where y: "e = File i" "inode_of u i = Some y"
        "v = (if trunc then set_inode i (y\<lparr>i_data := [], i_synced := False\<rparr>) u else u)"
      by (cases e) (simp_all split: option.splits)
    have "gentle {q} {i} u v"
      using gentle_mono[OF gentle_set_inode, of "{q}" i "{i}" u] y(3) by simp
    with y Some Inr show ?thesis by simp
  qed
qed (use assms in \<open>simp add: do_open_write_def\<close>)

lemma pure_callsD:
  "do_stat P fol p n u = Inr (x1, v) \<Longrightarrow> v = u"
  "do_fstat P i n u = Inr (x2, v) \<Longrightarrow> v = u"
  "do_readlink p n u = Inr (x3, v) \<Longrightarrow> v = u"
  "do_scandir p n u = Inr (x4, v) \<Longrightarrow> v = u"
  "do_opendir p n u = Inr (x5, v) \<Longrightarrow> v = u"
  "do_open_read p n u = Inr (x6, v) \<Longrightarrow> v = u"
  "do_read chunk i off n u = Inr (x7, v) \<Longrightarrow> v = u"
proof -
  show "do_stat P fol p n u = Inr (x1, v) \<Longrightarrow> v = u"
    by (cases "\<exists>q e. locate u fol p = Inr q \<and> lookup u q = Some e")
      (auto simp: do_stat_def map_sum_def split: sum.splits option.splits)
qed (auto simp: do_fstat_def do_readlink_def do_scandir_def do_opendir_def do_open_read_def do_read_def
      split: sum.splits option.splits entry.splits if_splits)

lemma do_open_readD:
  "do_open_read p n u = Inr (i, v) \<Longrightarrow>
     \<exists>q. locate u False p = Inr q \<and> lookup u q = Some (File i) \<and> inode_of u i \<noteq> None"
  by (auto simp: do_open_read_def split: sum.splits option.splits entry.splits if_splits)

section \<open>Calls inside programs\<close>

definition quiet :: "plat \<Rightarrow> bool" where
  "quiet P \<longleftrightarrow> (\<forall>n u. env P n u = u)"

abbreviation on_fs :: "(fs \<Rightarrow> bool) \<Rightarrow> ost \<Rightarrow> bool" where
  "on_fs A s \<equiv> A (fsys s)"

lemma triple_sys:
  assumes "quiet P" and "\<And>n u x v. A u \<Longrightarrow> f n u = Inr (x, v) \<Longrightarrow> Q x v \<and> E v"
    and "\<And>u. A u \<Longrightarrow> E u"
  shows "triple (on_fs A) (sys P f) (\<lambda>x. on_fs (Q x)) (on_fs E)"
  unfolding triple_def
proof (intro allI impI)
  fix s r t assume "A (fsys s)" and "sys P f s = (r, t)"
  then show "case r of Ok x \<Rightarrow> Q x (fsys t) | _ \<Rightarrow> E (fsys t)"
    using assms(2)[of "fsys s" "tick s"] assms(3)[of "fsys s"] assms(1)
    by (auto simp: sys_def Let_def quiet_def split: fault.splits sum.splits)
qed

lemma triple_sys_same:
  assumes "quiet P" and "\<And>n u x v. f n u = Inr (x, v) \<Longrightarrow> v = u"
  shows "triple (on_fs A) (sys P f) (\<lambda>_. on_fs A) (on_fs A)"
proof (rule triple_sys[OF assms(1)])
  fix n u x v assume "A u" and "f n u = Inr (x, v)"
  with assms(2)[of n u x v] show "A v \<and> A v" by simp
qed

lemma triple_ask [triple_intros]: "(\<And>x u. A u \<Longrightarrow> Q x u) \<Longrightarrow> triple (on_fs A) (ask f) (\<lambda>x. on_fs (Q x)) E"
  by (simp add: triple_def ask_def)

lemma triple_look:
  assumes "quiet P" and "\<And>u. A u \<Longrightarrow> E u"
  shows "triple (on_fs A) (look P f) (\<lambda>x. on_fs (\<lambda>u. A u \<and> x = f u)) (on_fs E)"
  using assms by (auto simp: triple_def look_def Let_def quiet_def)

lemma triple_look':
  assumes "quiet P"
  shows "triple (on_fs A) (look P f) (\<lambda>_. on_fs A) (on_fs A)"
  by (rule triple_conseq[OF triple_look[OF assms, of A A]]) auto

end
