(* ===== verification/Scratch_Safe.thy ===== *)
theory Scratch_Safe
  imports Scratch_Restore Fs_Lemmas
begin

text \<open>
  No data is lost by the scratch tools. A \<open>guard\<close> lists files with their data; \<open>guarded\<close> says that
  each of them can be read through its path: it is still there, or it is a link to its place in the
  cold area and the file there has the same hash. Every call of the tools keeps \<open>guarded\<close>, whatever
  fails or is killed, because of what was checked before the call.
\<close>

section \<open>Guarded files\<close>

record guard =
  g_digest :: "string \<Rightarrow> string"
  g_scratch :: path
  g_cold :: path
  g_files :: "(path \<times> string) list"
  g_plain :: "path list"
  g_special :: "path list"
  g_fds :: "nat list"
  g_nolink :: "path \<Rightarrow> bool"

definition is_tmp :: "string \<Rightarrow> bool" where
  "is_tmp c = ((startswith c ''.so-'' \<or> startswith c ''.sr-'') \<and> endswith c ''.tmp'')"

definition tmps :: "path set" where
  "tmps = {q. q \<noteq> [] \<and> is_tmp (last q)}"

definition dest_of :: "guard \<Rightarrow> path \<Rightarrow> path" where
  "dest_of g p = g_cold g @ drop (length (g_scratch g)) p"

definition holds :: "guard \<Rightarrow> fs \<Rightarrow> path \<Rightarrow> string \<Rightarrow> bool" where
  "holds g u q d \<longleftrightarrow>
     (\<exists>i d'. lookup u q = Some (File i) \<and> data_of u i = Some d' \<and> g_digest g d' = g_digest g d)"

definition kept :: "guard \<Rightarrow> fs \<Rightarrow> path \<Rightarrow> string \<Rightarrow> bool" where
  "kept g u p d \<longleftrightarrow> plain u p \<and>
     (holds g u p d \<or>
      lookup u p = Some (Symlink True (dest_of g p)) \<and> plain u (dest_of g p) \<and> holds g u (dest_of g p) d)"

text \<open>No guarded name leads to inode \<open>i\<close>.\<close>

definition apart :: "guard \<Rightarrow> fs \<Rightarrow> nat \<Rightarrow> bool" where
  "apart g u i \<longleftrightarrow> inode_of u i \<noteq> None \<and>
     (\<forall>e \<in> set (g_files g). lookup u (fst e) \<noteq> Some (File i) \<and> lookup u (dest_of g (fst e)) \<noteq> Some (File i))"

definition sane :: "guard \<Rightarrow> bool" where
  "sane g \<longleftrightarrow>
     \<not> prefix (g_scratch g) (g_cold g) \<and> \<not> prefix (g_cold g) (g_scratch g) \<and>
     (\<forall>e \<in> set (g_files g). strict_prefix (g_scratch g) (fst e) \<and> \<not> is_tmp (last (fst e)) \<and>
        fst e \<notin> set (g_special g)) \<and>
     (\<forall>r \<in> set (g_special g). strict_prefix (g_scratch g) r \<and> \<not> is_tmp (last r)) \<and>
     (\<forall>q. prefix (g_cold g) q \<longrightarrow> g_nolink g q)"

definition guarded :: "guard \<Rightarrow> fs \<Rightarrow> bool" where
  "guarded g u \<longleftrightarrow>
     (\<forall>e \<in> set (g_files g). kept g u (fst e) (snd e)) \<and>
     plain u (g_scratch g) \<and> is_dir u (g_scratch g) \<and> plain u (g_cold g) \<and> is_dir u (g_cold g) \<and>
     (\<forall>q. g_nolink g q \<longrightarrow> \<not> is_link u q) \<and>
     files_ok u \<and> (\<forall>p \<in> set (g_plain g). plain u p) \<and>
     (\<forall>r \<in> set (g_special g). \<forall>i. lookup u r = Some (File i) \<longrightarrow> apart g u i) \<and>
     (\<forall>i \<in> set (g_fds g). apart g u i)"

section \<open>Names\<close>

lemma is_tmp_not_dot: "is_tmp c \<Longrightarrow> c \<noteq> ''.'' \<and> c \<noteq> ''..''"
  by (auto simp: is_tmp_def startswith_def)

lemma is_tmp_name [simp]: "is_tmp (tmp_name ''so'' hex)" "is_tmp (tmp_name ''sr'' hex)"
proof -
  have 1: "tmp_name tag hex = (''.'' @ tag @ ''-'') @ hex @ ''.tmp''"
      "tmp_name tag hex = (''.'' @ tag @ ''-'' @ hex) @ ''.tmp''" for tag :: string
    by (simp_all add: tmp_name_def)
  have e: "endswith (tmp_name tag hex) ''.tmp''" for tag
    unfolding 1(2) endswith_def by (simp only: suffix_def) blast
  show "is_tmp (tmp_name ''so'' hex)" "is_tmp (tmp_name ''sr'' hex)"
    using e[of "''so''"] e[of "''sr''"] by (simp_all add: is_tmp_def startswith_def 1(1))
qed

lemma tmps_sibling [simp]: "p @ [tmp_name ''so'' hex] \<in> tmps" "p @ [tmp_name ''sr'' hex] \<in> tmps"
  by (simp_all add: tmps_def)

lemma locate_tmp: "locate u False p = Inr q \<Longrightarrow> p \<in> tmps \<Longrightarrow> q \<in> tmps"
  using locate_last[of u p q] is_tmp_not_dot[of "last p"] by (auto simp: tmps_def)

lemma dest_of_last: "strict_prefix (g_scratch g) p \<Longrightarrow> last (dest_of g p) = last p"
  unfolding dest_of_def by (auto simp: strict_prefix_def prefix_def last_append)

lemma dest_of_inj:
  "strict_prefix (g_scratch g) p \<Longrightarrow> strict_prefix (g_scratch g) q \<Longrightarrow> dest_of g p = dest_of g q \<Longrightarrow> p = q"
  by (auto simp: dest_of_def strict_prefix_def prefix_def)

lemma dest_of_cold: "prefix (g_cold g) (dest_of g p)"
  by (simp add: dest_of_def)

lemma cold_not_scratch: "sane g \<Longrightarrow> prefix (g_cold g) q \<Longrightarrow> \<not> prefix (g_scratch g) q"
  unfolding sane_def using prefix_same_cases by blast

lemma dest_not_scratch: "sane g \<Longrightarrow> strict_prefix (g_scratch g) p \<Longrightarrow> dest_of g q \<noteq> p"
  using cold_not_scratch[of g "dest_of g q"] dest_of_cold[of g q] by (auto simp: strict_prefix_def)

lemma sane_file:
  assumes "sane g" and "e \<in> set (g_files g)"
  shows "strict_prefix (g_scratch g) (fst e)" and "fst e \<notin> tmps" and "dest_of g (fst e) \<notin> tmps"
    and "fst e \<notin> set (g_special g)" and "dest_of g (fst e) \<notin> set (g_special g)"
proof -
  show s: "strict_prefix (g_scratch g) (fst e)" using assms by (auto simp: sane_def)
  then show "fst e \<notin> tmps" "dest_of g (fst e) \<notin> tmps"
    using assms by (auto simp: sane_def tmps_def dest_of_last)
  show "fst e \<notin> set (g_special g)" using assms by (auto simp: sane_def)
  show "dest_of g (fst e) \<notin> set (g_special g)"
    using assms(1) dest_not_scratch[OF assms(1)] by (auto simp: sane_def)
qed

section \<open>What keeps the invariant\<close>

lemma holds_gentle:
  assumes "gentle A N u v" and "q \<notin> A" and "holds g u q d"
    and "\<And>i. lookup u q = Some (File i) \<Longrightarrow> i \<notin> N"
  shows "holds g v q d"
proof -
  obtain i d' where i: "lookup u q = Some (File i)" "data_of u i = Some d'" "g_digest g d' = g_digest g d"
    using assms(3) by (auto simp: holds_def)
  have "lookup v q = Some (File i)"
    using gentle_entry[OF assms(1,2) i(1)] i(1) by (simp add: is_dir_def)
  moreover have "data_of v i = Some d'" by (rule gentle_data[OF assms(1) assms(4)[OF i(1)] i(2)])
  ultimately show ?thesis using i(3) by (auto simp: holds_def)
qed

lemma kept_gentle:
  assumes "gentle A N u v" and "kept g u p d" and "p \<notin> A" and "dest_of g p \<notin> A"
    and "\<And>i. lookup u p = Some (File i) \<or> lookup u (dest_of g p) = Some (File i) \<Longrightarrow> i \<notin> N"
  shows "kept g v p d"
proof -
  have pl: "plain v p" using assms(1,2) gentle_plain by (auto simp: kept_def)
  consider "holds g u p d" | "lookup u p = Some (Symlink True (dest_of g p))" "plain u (dest_of g p)"
      "holds g u (dest_of g p) d"
    using assms(2) by (auto simp: kept_def)
  then show ?thesis
  proof cases
    case 1
    then have "holds g v p d" by (rule holds_gentle[OF assms(1,3)]) (use assms(5) in blast)
    with pl show ?thesis by (simp add: kept_def)
  next
    case 2
    have "lookup v p = Some (Symlink True (dest_of g p))"
      using gentle_entry[OF assms(1,3) 2(1)] 2(1) by (simp add: is_dir_def)
    moreover have "holds g v (dest_of g p) d"
      by (rule holds_gentle[OF assms(1,4) 2(3)]) (use assms(5) in blast)
    ultimately show ?thesis using pl gentle_plain[OF assms(1) 2(2)] by (simp add: kept_def)
  qed
qed

lemma file_entry_back:
  "gentle A N u v \<Longrightarrow> q \<notin> A \<Longrightarrow> lookup v q = Some (File i) \<Longrightarrow> lookup u q = Some (File i)"
  by (rule gentle_back) (auto simp: is_dir_def)

lemma apart_gentle:
  assumes "gentle A N u v" and "apart g u i"
    and "\<And>e. e \<in> set (g_files g) \<Longrightarrow> fst e \<notin> A \<and> dest_of g (fst e) \<notin> A"
  shows "apart g v i"
  unfolding apart_def
proof (intro conjI ballI)
  show "inode_of v i \<noteq> None" by (rule gentle_inode[OF assms(1)]) (use assms(2) in \<open>simp add: apart_def\<close>)
  fix e assume e: "e \<in> set (g_files g)"
  note a = assms(3)[OF e]
  show "lookup v (fst e) \<noteq> Some (File i)"
    using file_entry_back[OF assms(1), of "fst e" i] a e assms(2) unfolding apart_def by blast
  show "lookup v (dest_of g (fst e)) \<noteq> Some (File i)"
    using file_entry_back[OF assms(1), of "dest_of g (fst e)" i] a e assms(2) unfolding apart_def by blast
qed

lemma no_link_gentle:
  assumes "gentle A N u v" and "\<not> is_link u q" and "q \<in> A \<Longrightarrow> is_link v q \<Longrightarrow> is_link u q"
  shows "\<not> is_link v q"
proof
  assume v: "is_link v q"
  then have d: "\<not> is_dir v q" by (auto simp: is_link_def is_dir_def)
  show False
  proof (cases "q \<in> A")
    case False
    with gentle_same[OF assms(1) False d] v assms(2) show False by (simp add: is_link_def)
  qed (use assms(2,3) v in blast)
qed

text \<open>The general step: guarded entries are not touched, guarded data is not written.\<close>

lemma inv_gentle:
  assumes "guarded g u" and "gentle A N u v"
    and a: "\<And>e. e \<in> set (g_files g) \<Longrightarrow> fst e \<notin> A \<and> dest_of g (fst e) \<notin> A"
    and n: "\<And>e i. e \<in> set (g_files g) \<Longrightarrow> i \<in> N \<Longrightarrow>
       lookup u (fst e) \<noteq> Some (File i) \<and> lookup u (dest_of g (fst e)) \<noteq> Some (File i)"
    and s: "\<And>r i. r \<in> set (g_special g) \<Longrightarrow> r \<in> A \<Longrightarrow> lookup v r = Some (File i) \<Longrightarrow> apart g v i"
    and l: "\<And>q. q \<in> A \<Longrightarrow> g_nolink g q \<Longrightarrow> is_link v q \<Longrightarrow> is_link u q"
  shows "guarded g v"
  unfolding guarded_def
proof (intro conjI ballI allI impI)
  show "\<not> is_link v q" if "g_nolink g q" for q
    by (rule no_link_gentle[OF assms(2) _ l[OF _ that]]) (use assms(1) that in \<open>auto simp: guarded_def\<close>)
  show "kept g v (fst e) (snd e)" if "e \<in> set (g_files g)" for e
    by (rule kept_gentle[OF assms(2)]) (use that assms(1) a[OF that] n[OF that] in \<open>auto simp: guarded_def\<close>)
  show "apart g v i" if "r \<in> set (g_special g)" and "lookup v r = Some (File i)" for r i
  proof (cases "r \<in> A")
    case True
    then show ?thesis by (rule s[OF that(1) _ that(2)])
  next
    case False
    have "apart g u i"
      using file_entry_back[OF assms(2) False that(2)] that(1) assms(1) unfolding guarded_def by blast
    then show ?thesis by (rule apart_gentle[OF assms(2)]) (rule a)
  qed
  show "apart g v i" if "i \<in> set (g_fds g)" for i
    by (rule apart_gentle[OF assms(2) _ a]) (use that assms(1) in \<open>auto simp: guarded_def\<close>)
qed (use assms(1) gentle_plain[OF assms(2)] gentle_dir[OF assms(2)] gentle_files_ok[OF assms(2)]
     in \<open>auto simp: guarded_def\<close>)

lemma inv_tmp:
  assumes "sane g" and "guarded g u" and "gentle A N u v" and "A \<subseteq> tmps"
    and "\<And>e i. e \<in> set (g_files g) \<Longrightarrow> i \<in> N \<Longrightarrow>
       lookup u (fst e) \<noteq> Some (File i) \<and> lookup u (dest_of g (fst e)) \<noteq> Some (File i)"
    and l: "\<And>q. q \<in> A \<Longrightarrow> g_nolink g q \<Longrightarrow> is_link v q \<Longrightarrow> is_link u q"
  shows "guarded g v"
proof (rule inv_gentle[OF assms(2,3)])
  show "is_link u q" if "q \<in> A" "g_nolink g q" "is_link v q" for q by (rule l[OF that])
  show "fst e \<notin> A \<and> dest_of g (fst e) \<notin> A" if "e \<in> set (g_files g)" for e
    using sane_file(2,3)[OF assms(1) that] assms(4) by blast
  show "apart g v i" if "r \<in> set (g_special g)" "r \<in> A" for r i
    using that assms(1,4) by (auto simp: sane_def tmps_def)
qed (rule assms(5))


section \<open>Calls on temporary names\<close>

text \<open>A fact that calls on temporary names leave alone, and writes to the inodes in \<open>N\<close>.\<close>

definition steady :: "nat set \<Rightarrow> (fs \<Rightarrow> bool) \<Rightarrow> bool" where
  "steady N X \<longleftrightarrow> (\<forall>A u v. gentle A N u v \<longrightarrow> A \<subseteq> tmps \<longrightarrow> X u \<longrightarrow> X v)"

lemma steadyD: "steady N X \<Longrightarrow> gentle A N u v \<Longrightarrow> A \<subseteq> tmps \<Longrightarrow> X u \<Longrightarrow> X v"
  unfolding steady_def by blast

lemma steady_True: "steady N (\<lambda>_. True)"
  by (simp add: steady_def)

lemma steady_conj: "steady N X \<Longrightarrow> steady N Y \<Longrightarrow> steady N (\<lambda>u. X u \<and> Y u)"
  unfolding steady_def by blast

lemma steady_plain: "steady N (\<lambda>u. plain u p)"
  unfolding steady_def using gentle_plain by blast

lemma steady_dir: "steady N (\<lambda>u. is_dir u p)"
  unfolding steady_def using gentle_dir by blast

lemma triple_tmp_step:
  assumes "quiet P" and "sane g" and "steady {} X"
    and f: "\<And>n u x v. guarded g u \<Longrightarrow> X u \<Longrightarrow> f n u = Inr (x, v) \<Longrightarrow>
       \<exists>A. A \<subseteq> tmps \<and> gentle A {} u v \<and> (\<forall>q \<in> A. is_link v q \<longrightarrow> is_link u q) \<and> Q x v"
  shows "triple (on_fs (\<lambda>u. guarded g u \<and> X u)) (sys P f) (\<lambda>x. on_fs (\<lambda>u. (guarded g u \<and> X u) \<and> Q x u))
     (on_fs (guarded g))"
proof (rule triple_sys[OF assms(1)])
  fix n u x v assume u: "guarded g u \<and> X u" and fn: "f n u = Inr (x, v)"
  obtain A where A: "A \<subseteq> tmps" "gentle A {} u v" "\<forall>q \<in> A. is_link v q \<longrightarrow> is_link u q" "Q x v"
    using f[OF conjunct1[OF u] conjunct2[OF u] fn] by (elim exE conjE)
  have "guarded g v" by (rule inv_tmp[OF assms(2) conjunct1[OF u] A(2,1)]) (use A(3) in auto)
  moreover have "X v" by (rule steadyD[OF assms(3) A(2,1) conjunct2[OF u]])
  ultimately show "((guarded g v \<and> X v) \<and> Q x v) \<and> guarded g v" using A(4) by (intro conjI)
qed simp

lemma triple_tmp_step':
  assumes "quiet P" and "sane g" and "steady {} X"
    and "\<And>n u x v. guarded g u \<Longrightarrow> X u \<Longrightarrow> f n u = Inr (x, v) \<Longrightarrow>
       \<exists>A. A \<subseteq> tmps \<and> gentle A {} u v \<and> (\<forall>q \<in> A. is_link v q \<longrightarrow> is_link u q)"
  shows "triple (on_fs (\<lambda>u. guarded g u \<and> X u)) (sys P f) (\<lambda>x. on_fs (\<lambda>u. guarded g u \<and> X u)) (on_fs (guarded g))"
  by (rule triple_conseq[OF triple_tmp_step[where Q = "\<lambda>_ _. True", OF assms(1-3)]]) (use assms(4) in auto)

lemma triple_read_step:
  assumes "quiet P" and "\<And>n u x v. f n u = Inr (x, v) \<Longrightarrow> v = u"
    and "\<And>n u x. guarded g u \<Longrightarrow> X u \<Longrightarrow> f n u = Inr (x, u) \<Longrightarrow> Q x u"
  shows "triple (on_fs (\<lambda>u. guarded g u \<and> X u)) (sys P f) (\<lambda>x. on_fs (\<lambda>u. (guarded g u \<and> X u) \<and> Q x u))
     (on_fs (guarded g))"
proof (rule triple_sys[OF assms(1)])
  fix n u x v assume "guarded g u \<and> X u" and "f n u = Inr (x, v)"
  with assms(2)[of n u x v] assms(3)[of u n x] show "((guarded g v \<and> X v) \<and> Q x v) \<and> guarded g v" by blast
qed simp

lemma triple_read_step':
  assumes "quiet P" and "\<And>n u x v. f n u = Inr (x, v) \<Longrightarrow> v = u"
  shows "triple (on_fs (\<lambda>u. guarded g u \<and> X u)) (sys P f) (\<lambda>x. on_fs (\<lambda>u. guarded g u \<and> X u)) (on_fs (guarded g))"
  by (rule triple_conseq[OF triple_read_step[where Q = "\<lambda>_ _. True", OF assms]]) auto

lemma triple_unlink_tmp:
  assumes "quiet P" and "sane g" and "steady {} X" and "p \<in> tmps"
  shows "triple (on_fs (\<lambda>u. guarded g u \<and> X u)) (os_unlink P p) (\<lambda>_. on_fs (\<lambda>u. guarded g u \<and> X u)) (on_fs (guarded g))"
  unfolding os_unlink_def
proof (rule triple_tmp_step'[OF assms(1-3)])
  fix n u x v assume f: "do_unlink p n u = Inr (x, v)"
  obtain q where q: "locate u False p = Inr q" "gentle {q} {} u v" "lookup v q = None"
    using do_unlinkD[OF f] by (elim exE conjE)
  show "\<exists>A. A \<subseteq> tmps \<and> gentle A {} u v \<and> (\<forall>q \<in> A. is_link v q \<longrightarrow> is_link u q)"
    by (rule exI[of _ "{q}"]) (use q locate_tmp[OF q(1) assms(4)] in simp)
qed

lemma triple_clear_stale:
  assumes "quiet P" and "sane g" and "steady {} X" and "p \<in> tmps"
  shows "triple (on_fs (\<lambda>u. guarded g u \<and> X u)) (clear_stale P p) (\<lambda>_. on_fs (\<lambda>u. guarded g u \<and> X u)) (on_fs (guarded g))"
  unfolding clear_stale_def lexists_def
proof (rule triple_bind[where J = "\<lambda>_. on_fs (\<lambda>u. guarded g u \<and> X u)"])
  show "triple (on_fs (\<lambda>u. guarded g u \<and> X u)) (look P (path_is P False (\<lambda>_. True) p))
     (\<lambda>_. on_fs (\<lambda>u. guarded g u \<and> X u)) (on_fs (guarded g))"
    by (rule triple_conseq[OF triple_look'[OF assms(1), of "\<lambda>u. guarded g u \<and> X u"]]) auto
  fix b
  show "triple (on_fs (\<lambda>u. guarded g u \<and> X u)) (if b then os_unlink P p else retE ())
     (\<lambda>_. on_fs (\<lambda>u. guarded g u \<and> X u)) (on_fs (guarded g))"
    by (rule triple_if, rule triple_unlink_tmp[OF assms], rule triple_ret)
qed

lemma triple_discard:
  assumes "quiet P" and "sane g" and "p \<in> tmps"
  shows "triple (on_fs (guarded g)) (discard P p) (\<lambda>_. on_fs (guarded g)) (on_fs (guarded g))"
proof -
  have "triple (on_fs (guarded g)) (clear_stale P p) (\<lambda>_. on_fs (guarded g)) (on_fs (guarded g))"
    using triple_clear_stale[OF assms(1,2) steady_True assms(3)] by simp
  then show ?thesis unfolding discard_def by (rule triple_catch) (auto intro: triple_ret)
qed

lemma triple_fsync_dir:
  assumes "quiet P"
  shows "triple (on_fs A) (fsync_dir P p) (\<lambda>_. on_fs A) (on_fs A)"
  unfolding fsync_dir_def
  by (intro triple_catch[where F = "on_fs A"] triple_bind[where J = "\<lambda>_. on_fs A"]
      triple_sys_same assms triple_ret) (auto dest: pure_callsD)

section \<open>Making the directories in the cold area\<close>

lemma entry_stat_dir: "entry_stat P u e = Inr st \<Longrightarrow> st_kind st = IsDir \<longleftrightarrow> (\<exists>m. e = Folder m)"
  by (auto simp: entry_stat_def inode_stat_def plain_stat_def split: entry.splits option.splits)

lemma do_statD:
  assumes "do_stat P fol p n u = Inr (st, v)"
  shows "\<exists>q e. locate u fol p = Inr q \<and> lookup u q = Some e \<and> entry_stat P u e = Inr st \<and> v = u"
proof (cases "locate u fol p")
  case (Inr q)
  show ?thesis
  proof (cases "lookup u q")
    case (Some e)
    with Inr assms show ?thesis
      by (cases "entry_stat P u e") (auto simp: do_stat_def)
  qed (use assms Inr in \<open>simp add: do_stat_def\<close>)
qed (use assms in \<open>simp add: do_stat_def\<close>)

lemma do_stat_plain_dir:
  assumes "do_stat P False p n u = Inr (st, v)" and "plain u p" and "st_kind st = IsDir"
  shows "is_dir u p"
  using do_statD[OF assms(1)] locate_plain[OF assms(2)] assms(3) entry_stat_dir
  by (fastforce simp: is_dir_def)

lemma triple_cold_level:
  assumes "quiet P" and "sane g" and "c \<noteq> ''.''" and "c \<noteq> ''..''"
  shows "triple (on_fs (\<lambda>u. guarded g u \<and> plain u p \<and> is_dir u p)) (cold_level P (p @ [c]))
     (\<lambda>_. on_fs (\<lambda>u. guarded g u \<and> plain u (p @ [c]) \<and> is_dir u (p @ [c]))) (on_fs (guarded g))"
proof -
  let ?X = "\<lambda>u. plain u (p @ [c])"
  let ?J = "\<lambda>r :: stat option. on_fs (\<lambda>u. (guarded g u \<and> ?X u) \<and>
     (\<forall>st. r = Some st \<longrightarrow> st_kind st = IsDir \<longrightarrow> is_dir u (p @ [c])))"
  have 1: "triple (on_fs (\<lambda>u. guarded g u \<and> ?X u))
      (catchE (bindE (os_lstat P (p @ [c])) (\<lambda>c. retE (Some c))) (\<lambda>e. e = OSError ENOENT) (\<lambda>_. retE None))
      ?J (on_fs (guarded g))"
  proof (rule triple_catch[where F = "on_fs (\<lambda>u. guarded g u \<and> ?X u)"])
    show "triple (on_fs (\<lambda>u. guarded g u \<and> ?X u)) (bindE (os_lstat P (p @ [c])) (\<lambda>c. retE (Some c)))
        ?J (on_fs (\<lambda>u. guarded g u \<and> ?X u))"
      unfolding os_lstat_def
    proof (rule triple_bind[OF triple_sys[OF assms(1), where
          Q = "\<lambda>st u. (guarded g u \<and> ?X u) \<and> (st_kind st = IsDir \<longrightarrow> is_dir u (p @ [c]))"]])
      fix n u x v assume u: "guarded g u \<and> ?X u" and f: "do_stat P False (p @ [c]) n u = Inr (x, v)"
      then show "((guarded g v \<and> ?X v) \<and> (st_kind x = IsDir \<longrightarrow> is_dir v (p @ [c]))) \<and> guarded g v \<and> ?X v"
        using do_stat_plain_dir[OF f] pure_callsD(1)[OF f] by blast
    qed (auto intro: triple_ret)
  qed (auto intro: triple_ret)
  have 2: "triple (on_fs (\<lambda>u. guarded g u \<and> ?X u)) (sys P (do_mkdir 493 (p @ [c])))
      (\<lambda>_. on_fs (\<lambda>u. (guarded g u \<and> ?X u) \<and> is_dir u (p @ [c]))) (on_fs (guarded g))"
  proof (rule triple_sys[OF assms(1)])
    fix n u x v assume u: "guarded g u \<and> ?X u" and f: "do_mkdir 493 (p @ [c]) n u = Inr (x, v)"
    from do_mkdirD[OF f] have g: "gentle {} {} u v" and d: "is_dir v (p @ [c])"
      using locate_plain[of u "p @ [c]"] u by auto
    have "guarded g v" using inv_tmp[OF assms(2) _ g] u by blast
    then show "((guarded g v \<and> ?X v) \<and> is_dir v (p @ [c])) \<and> guarded g v"
      using gentle_plain[OF g] u d by blast
  qed simp
  show ?thesis
    unfolding cold_level_def
  proof (rule triple_bind[where J = ?J])
    show "triple (on_fs (\<lambda>u. guarded g u \<and> plain u p \<and> is_dir u p))
      (catchE (bindE (os_lstat P (p @ [c])) (\<lambda>c. retE (Some c))) (\<lambda>e. e = OSError ENOENT) (\<lambda>_. retE None))
      ?J (on_fs (guarded g))"
      by (rule triple_pre[OF 1]) (use assms(3,4) in simp)
    fix r :: "stat option"
    show "triple (?J r) (case r of Some st \<Rightarrow> if st_kind st \<noteq> IsDir then raiseE (OSError NoErrno) else retE ()
          | None \<Rightarrow> sys P (do_mkdir 493 (p @ [c])))
        (\<lambda>_. on_fs (\<lambda>u. guarded g u \<and> plain u (p @ [c]) \<and> is_dir u (p @ [c]))) (on_fs (guarded g))"
    proof (cases r)
      case None
      then show ?thesis using triple_conseq[OF 2] by simp
    next
      case (Some st)
      then show ?thesis by (auto intro!: triple_if triple_raise triple_ret)
    qed
  qed
qed

lemma triple_mirror_perms:
  assumes "quiet P" and "sane g" and "steady {} X"
  shows "triple (on_fs (\<lambda>u. guarded g u \<and> X u)) (mirror_perms P s c) (\<lambda>_. on_fs (\<lambda>u. guarded g u \<and> X u)) (on_fs (guarded g))"
proof -
  let ?I = "on_fs (\<lambda>u. guarded g u \<and> X u)"
  have step: "triple ?I (sys P f) (\<lambda>_. ?I) ?I" if "\<And>n u x v. f n u = Inr (x, v) \<Longrightarrow> gentle {} {} u v"
    for f :: "nat \<Rightarrow> fs \<Rightarrow> errno + (unit \<times> fs)"
  proof (rule triple_sys[OF assms(1)])
    fix n u x v assume u: "guarded g u \<and> X u" and f: "f n u = Inr (x, v)"
    have "guarded g v" using inv_tmp[OF assms(2) _ that[OF f]] u by blast
    moreover have "X v" using steadyD[OF assms(3) that[OF f]] u by blast
    ultimately show "(guarded g v \<and> X v) \<and> guarded g v \<and> X v" by blast
  qed simp
  have "triple ?I (mirror_perms P s c) (\<lambda>_. ?I) ?I"
    unfolding mirror_perms_def os_stat_def
    by (intro triple_catch[where F = ?I] triple_bind[where J = "\<lambda>_. ?I"] step triple_ret
        triple_sys_same[OF assms(1)]) (auto dest: pure_callsD do_chownD do_chmodD)
  then show ?thesis by (rule triple_conseq) auto
qed

lemma triple_mirror_levels:
  assumes "quiet P" and "sane g" and "''.'' \<notin> set parts" and "''..'' \<notin> set parts"
  shows "triple (on_fs (\<lambda>u. guarded g u \<and> plain u c \<and> is_dir u c)) (mirror_levels P s c parts)
     (\<lambda>_. on_fs (\<lambda>u. guarded g u \<and> plain u (c @ parts) \<and> is_dir u (c @ parts))) (on_fs (guarded g))"
  using assms(3,4)
proof (induction parts arbitrary: s c)
  case Nil
  show ?case by (auto intro: triple_ret)
next
  case (Cons a parts)
  let ?J = "\<lambda>_ :: unit. on_fs (\<lambda>u. guarded g u \<and> plain u (c @ [a]) \<and> is_dir u (c @ [a]))"
  have 1: "triple (on_fs (\<lambda>u. guarded g u \<and> plain u c \<and> is_dir u c)) (cold_level P (c @ [a])) ?J (on_fs (guarded g))"
    by (rule triple_cold_level[OF assms(1,2)]) (use Cons.prems in auto)
  have 2: "triple (?J ()) (mirror_perms P (s @ [a]) (c @ [a])) ?J (on_fs (guarded g))"
    by (rule triple_mirror_perms[OF assms(1,2)]) (intro steady_conj steady_plain steady_dir)
  have 3: "triple (?J ()) (mirror_levels P (s @ [a]) (c @ [a]) parts)
     (\<lambda>_. on_fs (\<lambda>u. guarded g u \<and> plain u (c @ a # parts) \<and> is_dir u (c @ a # parts))) (on_fs (guarded g))"
    using Cons.IH[of "c @ [a]" "s @ [a]"] Cons.prems by simp
  show ?case by (auto intro: triple_bind[OF 1] triple_bind[OF 2] 3)
qed

end
