(* ===== verification/Scratch_Archive_Safe.thy ===== *)
theory Scratch_Archive_Safe
  imports Scratch_Safe
begin

text \<open>
  The overflow job keeps every guarded file readable: a step-by-step account of
  \<open>archive_one\<close>, with what is known of the source, the copy and the link at each call.
\<close>

section \<open>The copy belongs to the job\<close>

definition ours :: "fs \<Rightarrow> nat \<Rightarrow> bool" where
  "ours u j \<longleftrightarrow> inode_of u j \<noteq> None \<and> (\<forall>q. lookup u q = Some (File j) \<longrightarrow> q \<in> tmps)"

text \<open>\<open>Z\<close> is whatever else has to stay true meanwhile.\<close>

definition reading :: "path \<Rightarrow> (fs \<Rightarrow> bool) \<Rightarrow> nat \<Rightarrow> string \<Rightarrow> fs \<Rightarrow> bool" where
  "reading path Z i dd u \<longleftrightarrow> Z u \<and> plain u path \<and> data_of u i = Some dd \<and>
     (path \<in> tmps \<or> lookup u path = Some (File i))"

definition copying :: "guard \<Rightarrow> path \<Rightarrow> (fs \<Rightarrow> bool) \<Rightarrow> path \<Rightarrow> nat \<Rightarrow> string \<Rightarrow> nat \<Rightarrow> fs \<Rightarrow> bool" where
  "copying g path Z part i dd j u \<longleftrightarrow> reading path Z i dd u \<and> ours u j \<and> i \<noteq> j \<and>
     j \<notin> set (g_fds g) \<and> plain u part \<and> lookup u part = Some (File j)"

lemma ours_gentle:
  assumes "gentle A N u v" and "A \<subseteq> tmps" and "ours u j"
  shows "ours v j"
  unfolding ours_def
proof (intro conjI allI impI)
  show "inode_of v j \<noteq> None" by (rule gentle_inode[OF assms(1)]) (use assms(3) in \<open>simp add: ours_def\<close>)
  fix q assume q: "lookup v q = Some (File j)"
  show "q \<in> tmps"
  proof (cases "q \<in> A")
    case False
    with file_entry_back[OF assms(1) False q] assms(3) show ?thesis by (simp add: ours_def)
  qed (use assms(2) in blast)
qed

lemma reading_gentle:
  assumes "gentle A N u v" and "A \<subseteq> tmps" and "i \<notin> N" and "Z u \<Longrightarrow> Z v" and "reading path Z i dd u"
  shows "reading path Z i dd v"
proof -
  have "path \<in> tmps \<or> lookup v path = Some (File i)"
  proof (cases "path \<in> A")
    case False
    then show ?thesis
      using assms(5) gentle_entry[OF assms(1) False, of "File i"] by (auto simp: reading_def is_dir_def)
  qed (use assms(2) in blast)
  then show ?thesis
    using assms(4,5) gentle_plain[OF assms(1)] gentle_data[OF assms(1,3)] by (auto simp: reading_def)
qed

text \<open>A fact that no call on other entries changes.\<close>

definition calm :: "(fs \<Rightarrow> bool) \<Rightarrow> bool" where
  "calm Z \<longleftrightarrow> (\<forall>N u v. gentle {} N u v \<longrightarrow> Z u \<longrightarrow> Z v)"

lemma calmD: "calm Z \<Longrightarrow> gentle {} N u v \<Longrightarrow> Z u \<Longrightarrow> Z v"
  unfolding calm_def by blast

lemma calm_plain: "calm (\<lambda>u. plain u p)"
  unfolding calm_def using gentle_plain by blast

lemma calm_conj: "calm X \<Longrightarrow> calm Y \<Longrightarrow> calm (\<lambda>u. X u \<and> Y u)"
  unfolding calm_def by blast

lemma copying_gentle:
  assumes "gentle {} N u v" and "N \<subseteq> {j}" and "calm Z" and "copying g path Z part i dd j u"
  shows "copying g path Z part i dd j v"
  using assms(4) gentle_plain[OF assms(1)] ours_gentle[OF assms(1)] calmD[OF assms(3,1)]
    reading_gentle[OF assms(1), of i Z path dd] gentle_entry[OF assms(1), of part "File j"] assms(2)
  by (auto simp: copying_def is_dir_def)

lemma ours_apart:
  assumes "sane g" and "ours u j" and "e \<in> set (g_files g)"
  shows "lookup u (fst e) \<noteq> Some (File j)" and "lookup u (dest_of g (fst e)) \<noteq> Some (File j)"
  using assms sane_file(2,3)[OF assms(1,3)] by (auto simp: ours_def)

lemma triple_own_step:
  assumes "quiet P" and "sane g" and "\<And>u. X u \<Longrightarrow> ours u j"
    and "\<And>n u x v. f n u = Inr (x, v) \<Longrightarrow> gentle {} {j} u v"
    and "\<And>u v. gentle {} {j} u v \<Longrightarrow> X u \<Longrightarrow> X v"
  shows "triple (on_fs (\<lambda>u. guarded g u \<and> X u)) (sys P f) (\<lambda>_. on_fs (\<lambda>u. guarded g u \<and> X u))
     (on_fs (guarded g))"
proof (rule triple_sys[OF assms(1)])
  fix n u x v assume u: "guarded g u \<and> X u" and "f n u = Inr (x, v)"
  then have 1: "gentle {} {j} u v" by (intro assms(4))
  have "guarded g v"
    by (rule inv_tmp[OF assms(2) conjunct1[OF u] 1])
      (use ours_apart[OF assms(2) assms(3)[OF conjunct2[OF u]]] in auto)
  with assms(5)[OF 1 conjunct2[OF u]] show "(guarded g v \<and> X v) \<and> guarded g v" by blast
qed simp

section \<open>Copying\<close>

lemma triple_drain:
  assumes "quiet P" and "sane g" and "calm Z"
  shows "triple (on_fs (\<lambda>u. guarded g u \<and> copying g path Z part i dd j u)) (drain P j mv)
     (\<lambda>_. on_fs (\<lambda>u. guarded g u \<and> copying g path Z part i dd j u)) (on_fs (guarded g))"
proof (induction mv rule: length_induct)
  case (1 mv)
  let ?X = "copying g path Z part i dd j"
  have w: "triple (on_fs (\<lambda>u. guarded g u \<and> ?X u)) (sys P (do_write P j mv))
      (\<lambda>_. on_fs (\<lambda>u. guarded g u \<and> ?X u)) (on_fs (guarded g))"
  proof (rule triple_own_step[OF assms(1,2)])
    show "ours u j" if "?X u" for u using that by (simp add: copying_def)
    show "gentle {} {j} u v" if "do_write P j mv n u = Inr (x, v)" for n u x v by (rule do_writeD[OF that])
    show "?X v" if "gentle {} {j} u v" and "?X u" for u v by (rule copying_gentle[OF that(1) _ assms(3) that(2)]) simp
  qed
  show ?case
  proof (cases "mv = []")
    case True
    then show ?thesis by (subst drain.simps) (auto intro: triple_ret)
  next
    case False
    then show ?thesis
      by (subst drain.simps) (use 1 in \<open>auto intro!: triple_bind[OF w]\<close>)
  qed
qed

lemma next_chunk:
  assumes "acc = take (length acc) d" and "buf = take c (drop (length acc) d)"
  shows "acc @ buf = take (length (acc @ buf)) d"
proof -
  have "acc @ buf = take (length acc + c) d"
    using assms take_add[of "length acc" c d] by simp
  then show ?thesis by (metis append_eq_conv_conj append_take_drop_id)
qed

lemma triple_copy_loop:
  assumes "quiet P" and "sane g" and "calm Z"
  shows "acc = take (length acc) dd \<Longrightarrow>
    triple (on_fs (\<lambda>u. guarded g u \<and> copying g path Z part i dd j u)) (copy_loop m P i j acc)
     (\<lambda>bs. on_fs (\<lambda>u. (guarded g u \<and> copying g path Z part i dd j u) \<and> bs = dd)) (on_fs (guarded g))"
proof (induction m arbitrary: acc)
  case 0
  show ?case by (auto intro: triple_halt)
next
  case (Suc m)
  let ?X = "copying g path Z part i dd j"
  have r: "triple (on_fs (\<lambda>u. guarded g u \<and> ?X u)) (sys P (do_read COPY_CHUNK i (length acc)))
      (\<lambda>buf. on_fs (\<lambda>u. (guarded g u \<and> ?X u) \<and> buf = take COPY_CHUNK (drop (length acc) dd))) (on_fs (guarded g))"
    by (rule triple_read_step[OF assms(1) pure_callsD(7)])
      (auto simp: do_read_def copying_def reading_def)
  have "triple (on_fs (\<lambda>u. (guarded g u \<and> ?X u) \<and> buf = take COPY_CHUNK (drop (length acc) dd)))
      (if buf = [] then retE acc else bindE (drain P j buf) (\<lambda>_. copy_loop m P i j (acc @ buf)))
      (\<lambda>bs. on_fs (\<lambda>u. (guarded g u \<and> ?X u) \<and> bs = dd)) (on_fs (guarded g))" for buf
  proof (cases "buf = take COPY_CHUNK (drop (length acc) dd)")
    case True
    show ?thesis
    proof (cases "buf = []")
      case nil: True
      then have "length dd \<le> length acc" using True by (simp add: COPY_CHUNK_def)
      then have "acc = dd" using Suc.prems by simp
      with nil show ?thesis by (auto intro: triple_ret)
    next
      case False
      have 2: "acc @ buf = take (length (acc @ buf)) dd" by (rule next_chunk[OF Suc.prems True])
      have "triple (on_fs (\<lambda>u. guarded g u \<and> ?X u)) (bindE (drain P j buf) (\<lambda>_. copy_loop m P i j (acc @ buf)))
          (\<lambda>bs. on_fs (\<lambda>u. (guarded g u \<and> ?X u) \<and> bs = dd)) (on_fs (guarded g))"
        by (rule triple_bind[OF triple_drain[OF assms] Suc.IH[OF 2]])
      then show ?thesis using False by (auto elim: triple_pre)
    qed
  qed (auto simp: triple_def)
  then show ?case by (auto intro: triple_bind[OF r])
qed

lemma triple_read_loop:
  assumes "quiet P"
  shows "acc = take (length acc) d \<Longrightarrow>
    triple (on_fs (\<lambda>u. guarded g u \<and> X u \<and> data_of u j = Some d)) (read_loop m P j acc)
     (\<lambda>bs. on_fs (\<lambda>u. (guarded g u \<and> X u \<and> data_of u j = Some d) \<and> bs = d)) (on_fs (guarded g))"
proof (induction m arbitrary: acc)
  case 0
  show ?case by (auto intro: triple_halt)
next
  case (Suc m)
  let ?X = "\<lambda>u. X u \<and> data_of u j = Some d"
  have r: "triple (on_fs (\<lambda>u. guarded g u \<and> ?X u)) (sys P (do_read COPY_CHUNK j (length acc)))
      (\<lambda>buf. on_fs (\<lambda>u. (guarded g u \<and> ?X u) \<and> buf = take COPY_CHUNK (drop (length acc) d))) (on_fs (guarded g))"
    by (rule triple_read_step[OF assms(1) pure_callsD(7)]) (auto simp: do_read_def)
  have "triple (on_fs (\<lambda>u. (guarded g u \<and> ?X u) \<and> buf = take COPY_CHUNK (drop (length acc) d)))
      (if buf = [] then retE acc else read_loop m P j (acc @ buf))
      (\<lambda>bs. on_fs (\<lambda>u. (guarded g u \<and> ?X u) \<and> bs = d)) (on_fs (guarded g))" for buf
  proof (cases "buf = take COPY_CHUNK (drop (length acc) d)")
    case True
    show ?thesis
    proof (cases "buf = []")
      case nil: True
      then have "length d \<le> length acc" using True by (simp add: COPY_CHUNK_def)
      then have "acc = d" using Suc.prems by simp
      with nil show ?thesis by (auto intro: triple_ret)
    next
      case False
      have 2: "acc @ buf = take (length (acc @ buf)) d" by (rule next_chunk[OF Suc.prems True])
      have "triple (on_fs (\<lambda>u. guarded g u \<and> ?X u)) (read_loop m P j (acc @ buf))
          (\<lambda>bs. on_fs (\<lambda>u. (guarded g u \<and> ?X u) \<and> bs = d)) (on_fs (guarded g))"
        by (rule Suc.IH[OF 2])
      then show ?thesis using False by (auto elim: triple_pre)
    qed
  qed (auto simp: triple_def)
  then show ?case by (auto intro: triple_bind[OF r])
qed


lemma triple_fd_sha256:
  assumes "quiet P"
  shows "triple (on_fs (\<lambda>u. guarded g u \<and> X u \<and> data_of u j = Some d)) (fd_sha256 P j)
     (\<lambda>h. on_fs (\<lambda>u. (guarded g u \<and> X u \<and> data_of u j = Some d) \<and> h = digest P d)) (on_fs (guarded g))"
proof -
  have 1: "triple (on_fs (\<lambda>u. guarded g u \<and> X u \<and> data_of u j = Some d)) (read_loop (fuel P) P j [])
     (\<lambda>bs. on_fs (\<lambda>u. (guarded g u \<and> X u \<and> data_of u j = Some d) \<and> bs = d)) (on_fs (guarded g))"
    by (rule triple_read_loop[OF assms]) simp
  show ?thesis unfolding fd_sha256_def by (rule triple_bind[OF 1]) (auto intro: triple_ret)
qed

lemma triple_meta_step:
  assumes "quiet P" and "sane g" and "\<And>u v. gentle {} {} u v \<Longrightarrow> X u \<Longrightarrow> X v"
    and "\<And>n u x v. f n u = Inr (x, v) \<Longrightarrow> gentle {} {} u v"
  shows "triple (on_fs (\<lambda>u. guarded g u \<and> X u)) (sys P f) (\<lambda>_. on_fs (\<lambda>u. guarded g u \<and> X u))
     (on_fs (guarded g))"
proof (rule triple_sys[OF assms(1)])
  fix n u x v assume u: "guarded g u \<and> X u" and "f n u = Inr (x, v)"
  then have 1: "gentle {} {} u v" by (intro assms(4))
  have "guarded g v" by (rule inv_tmp[OF assms(2) conjunct1[OF u] 1]) simp_all
  with assms(3)[OF 1 conjunct2[OF u]] show "(guarded g v \<and> X v) \<and> guarded g v" by blast
qed simp

lemma triple_same_file:
  assumes "quiet P"
  shows "triple (on_fs (\<lambda>u. guarded g u \<and> X u)) (same_file P part fd) (\<lambda>_. on_fs (\<lambda>u. guarded g u \<and> X u))
     (on_fs (guarded g))"
proof -
  let ?I = "on_fs (\<lambda>u. guarded g u \<and> X u)"
  have "triple ?I (same_file P part fd) (\<lambda>_. ?I) ?I"
    unfolding same_file_def os_lstat_def
    by (intro triple_bind[where J = "\<lambda>_. ?I"] triple_if triple_ret triple_raise
        triple_sys_same[OF assms pure_callsD(1)] triple_sys_same[OF assms pure_callsD(2)]) auto
  then show ?thesis by (rule triple_conseq) auto
qed

section \<open>Verifying the copy\<close>

definition verified :: "guard \<Rightarrow> path \<Rightarrow> (fs \<Rightarrow> bool) \<Rightarrow> path \<Rightarrow> nat \<Rightarrow> string \<Rightarrow> nat \<Rightarrow> fs \<Rightarrow> bool" where
  "verified g path Z part i dd j u \<longleftrightarrow> copying g path Z part i dd j u \<and>
     (\<exists>dj. data_of u j = Some dj \<and> g_digest g dj = g_digest g dd)"

lemma verified_gentle: "calm Z \<Longrightarrow> gentle {} {} u v \<Longrightarrow> verified g path Z part i dd j u \<Longrightarrow> verified g path Z part i dd j v"
  using copying_gentle[of "{}" u v j Z g path part i dd] gentle_data[of "{}" "{}" u v j]
  by (auto simp: verified_def)

text \<open>What follows a matching checksum keeps the copy verified.\<close>

lemma triple_stamp:
  assumes "quiet P" and "sane g" and "calm Z"
  shows "triple (on_fs (\<lambda>u. guarded g u \<and> verified g path Z part i dd j u))
     (bindE (sys P (do_fchown P j uid gid)) (\<lambda>_. bindE (sys P (do_fchmod P j mode)) (\<lambda>_.
      bindE (sys P (do_utime P j atime mtime)) (\<lambda>_. bindE (sys P (do_fsync j)) (\<lambda>_.
      bindE (same_file P part j) (\<lambda>_. retE True))))))
     (\<lambda>ok. on_fs (\<lambda>u. guarded g u \<and> (ok \<longrightarrow> verified g path Z part i dd j u))) (on_fs (guarded g))"
proof -
  let ?I = "on_fs (\<lambda>u. guarded g u \<and> verified g path Z part i dd j u)"
  note step = triple_meta_step[where X = "verified g path Z part i dd j", OF assms(1,2) verified_gentle[OF assms(3)]]
  show ?thesis
    by (intro triple_bind[where J = "\<lambda>_. ?I"] step triple_same_file[OF assms(1)] triple_ret)
      (auto dest: fd_metaD)
qed

lemma triple_verify_copy:
  assumes "quiet P" and "sane g" and "g_digest g = digest P" and "part \<in> tmps" and "calm Z"
  shows "triple (on_fs (\<lambda>u. guarded g u \<and> copying g path Z part i dd j u))
     (verify_copy P part st (digest P dd, n, j))
     (\<lambda>ok. on_fs (\<lambda>u. guarded g u \<and> (ok \<longrightarrow> verified g path Z part i dd j u))) (on_fs (guarded g))"
proof -
  let ?C = "copying g path Z part i dd j"
  let ?Q = "\<lambda>ok. on_fs (\<lambda>u. guarded g u \<and> (ok \<longrightarrow> verified g path Z part i dd j u))"
  have drop: "triple (on_fs (\<lambda>u. guarded g u \<and> X u)) (bindE (os_unlink P part) (\<lambda>_. retE False)) ?Q (on_fs (guarded g))" for X
  proof -
    have "triple (on_fs (guarded g)) (os_unlink P part) (\<lambda>_. on_fs (guarded g)) (on_fs (guarded g))"
      using triple_unlink_tmp[OF assms(1,2) steady_True assms(4)] by simp
    then have "triple (on_fs (guarded g)) (bindE (os_unlink P part) (\<lambda>_. retE False)) ?Q (on_fs (guarded g))"
      by (rule triple_bind) (auto intro: triple_ret)
    then show ?thesis by (rule triple_pre) auto
  qed
  have sha: "triple (on_fs (\<lambda>u. guarded g u \<and> ?C u)) (fd_sha256 P j)
      (\<lambda>h. on_fs (\<lambda>u. guarded g u \<and> ?C u \<and> (h = digest P dd \<longrightarrow> verified g path Z part i dd j u))) (on_fs (guarded g))"
  proof -
    have "triple (on_fs (\<lambda>u. guarded g u \<and> ?C u \<and> data_of u j = Some d)) (fd_sha256 P j)
      (\<lambda>h. on_fs (\<lambda>u. guarded g u \<and> ?C u \<and> (h = digest P dd \<longrightarrow> verified g path Z part i dd j u))) (on_fs (guarded g))" for d
      by (rule triple_conseq[OF triple_fd_sha256[OF assms(1), where X = ?C]]) (auto simp: verified_def assms(3))
    then have "triple (\<lambda>s. \<exists>d. on_fs (\<lambda>u. guarded g u \<and> ?C u \<and> data_of u j = Some d) s) (fd_sha256 P j)
      (\<lambda>h. on_fs (\<lambda>u. guarded g u \<and> ?C u \<and> (h = digest P dd \<longrightarrow> verified g path Z part i dd j u))) (on_fs (guarded g))"
      by (rule triple_ex)
    then show ?thesis by (rule triple_pre) (auto simp: copying_def ours_def data_of_def)
  qed
  show ?thesis
    unfolding verify_copy_def prod.case
  proof (rule triple_if[OF drop], rule triple_bind[OF sha])
    fix h
    show "triple (on_fs (\<lambda>u. guarded g u \<and> ?C u \<and> (h = digest P dd \<longrightarrow> verified g path Z part i dd j u)))
      (if h \<noteq> digest P dd then bindE (os_unlink P part) (\<lambda>_. retE False)
       else bindE (sys P (do_fchown P j (st_uid st) (st_gid st))) (\<lambda>_.
            bindE (sys P (do_fchmod P j (st_mode st))) (\<lambda>_.
            bindE (sys P (do_utime P j (st_atime st) (st_mtime st))) (\<lambda>_.
            bindE (sys P (do_fsync j)) (\<lambda>_. bindE (same_file P part j) (\<lambda>_. retE True))))))
      ?Q (on_fs (guarded g))"
      by (rule triple_if, rule drop, rule triple_pre[OF triple_stamp[OF assms(1,2,5)]]) auto
  qed
qed


section \<open>Publishing the copy and swapping the link\<close>

text \<open>A guarded file that is still there has the guarded data.\<close>

lemma kept_file:
  assumes "kept g u p d" and "lookup u p = Some (File i)"
  shows "\<exists>d'. data_of u i = Some d' \<and> g_digest g d' = g_digest g d"
  using assms by (auto simp: kept_def holds_def)

lemma guarded_file: "guarded g u \<Longrightarrow> e \<in> set (g_files g) \<Longrightarrow> kept g u (fst e) (snd e)"
  by (simp add: guarded_def)

lemma guarded_intro:
  assumes "guarded g u" and "gentle A N u v"
    and "\<And>e. e \<in> set (g_files g) \<Longrightarrow> kept g v (fst e) (snd e)"
    and "\<And>e i. e \<in> set (g_files g) \<Longrightarrow> i \<notin> J \<Longrightarrow>
       lookup v (fst e) = Some (File i) \<or> lookup v (dest_of g (fst e)) = Some (File i) \<Longrightarrow>
       lookup u (fst e) = Some (File i) \<or> lookup u (dest_of g (fst e)) = Some (File i)"
    and "J \<inter> set (g_fds g) = {}"
    and "\<And>r i. r \<in> set (g_special g) \<Longrightarrow> lookup v r = Some (File i) \<Longrightarrow> lookup u r = Some (File i) \<and> i \<notin> J"
    and l: "\<And>q. q \<in> A \<Longrightarrow> g_nolink g q \<Longrightarrow> is_link v q \<Longrightarrow> is_link u q"
  shows "guarded g v"
proof -
  have ap: "apart g v i" if "apart g u i" and "i \<notin> J" for i
    unfolding apart_def
  proof (intro conjI ballI)
    show "inode_of v i \<noteq> None"
      by (rule gentle_inode[OF assms(2)]) (use that(1) in \<open>simp add: apart_def\<close>)
    fix e assume e: "e \<in> set (g_files g)"
    have "\<not> (lookup v (fst e) = Some (File i) \<or> lookup v (dest_of g (fst e)) = Some (File i))"
      using assms(4)[OF e that(2)] that(1) e unfolding apart_def by blast
    then show "lookup v (fst e) \<noteq> Some (File i)" "lookup v (dest_of g (fst e)) \<noteq> Some (File i)" by blast+
  qed
  have sp: "apart g v i" if r: "r \<in> set (g_special g)" and l: "lookup v r = Some (File i)" for r i
    using assms(6)[OF r l] assms(1) r ap[of i] unfolding guarded_def by blast
  have fd: "apart g v i" if i: "i \<in> set (g_fds g)" for i
    using i assms(1,5) ap[of i] unfolding guarded_def by blast
  have nl: "\<not> is_link v q" if "g_nolink g q" for q
    by (rule no_link_gentle[OF assms(2) _ l[OF _ that]]) (use assms(1) that in \<open>auto simp: guarded_def\<close>)
  show ?thesis
    unfolding guarded_def
    using assms(1,3) sp fd nl gentle_plain[OF assms(2)] gentle_dir[OF assms(2)] gentle_files_ok[OF assms(2)]
    by (auto simp: guarded_def)
qed

definition published :: "guard \<Rightarrow> path \<Rightarrow> path \<Rightarrow> nat \<Rightarrow> string \<Rightarrow> nat \<Rightarrow> fs \<Rightarrow> bool" where
  "published g path dest i dd j u \<longleftrightarrow> reading path (\<lambda>u. plain u dest) i dd u \<and> lookup u dest = Some (File j) \<and>
     (\<exists>dj. data_of u j = Some dj \<and> g_digest g dj = g_digest g dd)"

lemma published_gentle:
  assumes "gentle A {} u v" and "dest \<notin> A" and "path \<in> A \<longrightarrow> path \<in> tmps"
    and "published g path dest i dd j u"
  shows "published g path dest i dd j v"
proof -
  have "path \<in> tmps \<or> lookup v path = Some (File i)"
  proof (cases "path \<in> A")
    case False
    then show ?thesis
      using assms(4) gentle_entry[OF assms(1) False, of "File i"]
      by (auto simp: reading_def published_def is_dir_def)
  qed (use assms(3) in blast)
  moreover have "lookup v dest = Some (File j)"
    using gentle_entry[OF assms(1,2), of "File j"] assms(4) by (simp add: published_def is_dir_def)
  ultimately show ?thesis
    using assms(4) gentle_plain[OF assms(1)] gentle_data[OF assms(1)]
    by (auto simp: published_def reading_def)
qed

text \<open>The file being archived, and its place in the cold area.\<close>

definition archivable :: "guard \<Rightarrow> path \<Rightarrow> bool" where
  "archivable g path \<longleftrightarrow> strict_prefix (g_scratch g) path \<and> path \<notin> set (g_special g) \<and>
     (\<forall>q. g_nolink g q \<longrightarrow> prefix (g_cold g) q)"

lemma archivable_dest:
  assumes "sane g" and "archivable g path"
  shows "last (dest_of g path) = last path" and "dest_of g path \<noteq> []"
    and "dest_of g path \<in> tmps \<longleftrightarrow> path \<in> tmps"
    and "e \<in> set (g_files g) \<Longrightarrow> fst e \<noteq> dest_of g path"
    and "e \<in> set (g_files g) \<Longrightarrow> dest_of g (fst e) = dest_of g path \<Longrightarrow> fst e = path"
    and "r \<in> set (g_special g) \<Longrightarrow> r \<noteq> dest_of g path"
proof -
  have s: "strict_prefix (g_scratch g) path" using assms(2) by (simp add: archivable_def)
  show 1: "last (dest_of g path) = last path" by (rule dest_of_last[OF s])
  show 2: "dest_of g path \<noteq> []" using s by (auto simp: dest_of_def strict_prefix_def prefix_def)
  show "dest_of g path \<in> tmps \<longleftrightarrow> path \<in> tmps"
    using 1 2 s by (auto simp: tmps_def)
  show "fst e \<noteq> dest_of g path" if "e \<in> set (g_files g)"
    using dest_not_scratch[OF assms(1) sane_file(1)[OF assms(1) that]] by metis
  show "fst e = path" if "e \<in> set (g_files g)" "dest_of g (fst e) = dest_of g path"
    by (rule dest_of_inj[OF sane_file(1)[OF assms(1) that(1)] s that(2)])
  show "r \<noteq> dest_of g path" if "r \<in> set (g_special g)"
    using dest_not_scratch[OF assms(1)] that assms(1) unfolding sane_def by metis
qed

lemma publish_step:
  assumes "sane g" and "archivable g path" and "part \<in> tmps" and "guarded g u"
    and ver: "verified g path Z part i dd j u" and zd: "Z u \<Longrightarrow> plain u (dest_of g path)"
    and ren: "do_rename part (dest_of g path) n u = Inr (x, v)"
  shows "guarded g v \<and> published g path (dest_of g path) i dd j v"
proof -
  let ?d = "dest_of g path"
  note a = archivable_dest[OF assms(1,2)]
  have c: "reading path Z i dd u" "ours u j" "i \<noteq> j" "j \<notin> set (g_fds g)" "plain u part"
      "lookup u part = Some (File j)"
    using ver by (simp_all add: verified_def copying_def)
  then have pl: "plain u ?d" "plain u path" using zd by (simp_all add: reading_def)
  have fo: "files_ok u" using assms(4) by (simp add: guarded_def)
  have g: "gentle {part, ?d} {} u v" and vd: "lookup v ?d = Some (File j)"
    and vp: "lookup v part = None \<or> lookup v part = Some (File j)"
    using do_renameD[OF ren fo] locate_plain[OF c(5)] locate_plain[OF pl(1)] c(6) by auto
  have nscr: "path \<noteq> ?d"
    using dest_not_scratch[OF assms(1), of path path] assms(2) by (auto simp: archivable_def)
  have path: "path \<in> tmps \<or> path \<notin> {part, ?d}" using assms(3) nscr by auto
  have pub: "published g path ?d i dd j v"
  proof -
    have "path \<in> tmps \<or> lookup v path = Some (File i)"
      using path c(1) gentle_entry[OF g, of path "File i"] by (auto simp: reading_def is_dir_def)
    then show ?thesis
      using ver c(1) vd pl gentle_plain[OF g] gentle_data[OF g]
      by (auto simp: published_def verified_def reading_def)
  qed
  have "guarded g v"
  proof (rule guarded_intro[OF assms(4) g, where J = "{j}"])
    fix e assume e: "e \<in> set (g_files g)"
    note se = sane_file[OF assms(1) e]
    have fe: "fst e \<notin> {part, ?d}" using se(2) a(4)[OF e] assms(3) by auto
    show "kept g v (fst e) (snd e)"
    proof (cases "dest_of g (fst e) = ?d")
      case True
      then have p: "fst e = path" by (rule a(5)[OF e])
      then have "lookup u path = Some (File i)" using c(1) se(2) by (auto simp: reading_def)
      then have "holds g u (fst e) (snd e)"
        using guarded_file[OF assms(4) e] p by (auto simp: kept_def)
      then have "holds g v (fst e) (snd e)" by (rule holds_gentle[OF g fe]) simp
      then show ?thesis using gentle_plain[OF g pl(2)] p by (simp add: kept_def)
    next
      case False
      then have "dest_of g (fst e) \<notin> {part, ?d}" using se(3) assms(3) by auto
      then show ?thesis by (intro kept_gentle[OF g guarded_file[OF assms(4) e] fe]) simp_all
    qed
    fix k assume k: "k \<notin> {j}" "lookup v (fst e) = Some (File k) \<or> lookup v (dest_of g (fst e)) = Some (File k)"
    show "lookup u (fst e) = Some (File k) \<or> lookup u (dest_of g (fst e)) = Some (File k)"
    proof (cases "dest_of g (fst e) = ?d")
      case True
      then show ?thesis using k vd file_entry_back[OF g fe, of k] by auto
    next
      case False
      then have "dest_of g (fst e) \<notin> {part, ?d}" using se(3) assms(3) by auto
      then show ?thesis using k(2) file_entry_back[OF g fe, of k] file_entry_back[OF g, of _ k] by blast
    qed
  next
    fix r k assume r: "r \<in> set (g_special g)" "lookup v r = Some (File k)"
    have "r \<notin> tmps" using r(1) assms(1) by (auto simp: sane_def tmps_def)
    then have "lookup u r = Some (File k)"
      using file_entry_back[OF g _ r(2)] a(6)[OF r(1)] assms(3) by blast
    moreover have "k \<noteq> j" using calculation \<open>r \<notin> tmps\<close> c(2) by (auto simp: ours_def)
    ultimately show "lookup u r = Some (File k) \<and> k \<notin> {j}" by blast
  qed (use c(4) vd vp in \<open>auto simp: is_link_def\<close>)
  with pub show ?thesis by blast
qed

lemma retract_step:
  assumes "sane g" and "archivable g path" and "guarded g u"
    and pub: "published g path (dest_of g path) i dd j u"
    and un: "do_unlink (dest_of g path) n u = Inr (x, v)"
  shows "guarded g v"
proof -
  let ?d = "dest_of g path"
  note a = archivable_dest[OF assms(1,2)]
  have pl: "plain u ?d" "plain u path" using pub by (simp_all add: published_def reading_def)
  have g: "gentle {?d} {} u v" and gone: "lookup v ?d = None"
    using do_unlinkD[OF un] locate_plain[OF pl(1)] by auto
  show ?thesis
  proof (rule guarded_intro[OF assms(3) g, where J = "{}"])
    fix e assume e: "e \<in> set (g_files g)"
    have fe: "fst e \<notin> {?d}" using a(4)[OF e] by simp
    show "kept g v (fst e) (snd e)"
    proof (cases "dest_of g (fst e) = ?d")
      case True
      then have p: "fst e = path" by (rule a(5)[OF e])
      then have "lookup u path = Some (File i)"
        using pub sane_file(2)[OF assms(1) e] by (auto simp: reading_def published_def)
      then have "holds g u (fst e) (snd e)"
        using guarded_file[OF assms(3) e] p by (auto simp: kept_def)
      then have "holds g v (fst e) (snd e)" by (rule holds_gentle[OF g fe]) simp
      then show ?thesis using gentle_plain[OF g pl(2)] p by (simp add: kept_def)
    next
      case False
      then show ?thesis by (intro kept_gentle[OF g guarded_file[OF assms(3) e] fe]) simp_all
    qed
    fix k assume k: "lookup v (fst e) = Some (File k) \<or> lookup v (dest_of g (fst e)) = Some (File k)"
    show "lookup u (fst e) = Some (File k) \<or> lookup u (dest_of g (fst e)) = Some (File k)"
      using k gone file_entry_back[OF g fe, of k] file_entry_back[OF g, of "dest_of g (fst e)" k]
      by (cases "dest_of g (fst e) = ?d") auto
  next
    fix r k assume r: "r \<in> set (g_special g)" "lookup v r = Some (File k)"
    show "lookup u r = Some (File k) \<and> k \<notin> {}"
      using file_entry_back[OF g _ r(2)] a(6)[OF r(1)] by simp
  qed (use gone in \<open>auto simp: is_link_def\<close>)
qed

text \<open>The link, in a temporary name, about to replace the file.\<close>

definition linked :: "guard \<Rightarrow> path \<Rightarrow> path \<Rightarrow> path \<Rightarrow> nat \<Rightarrow> string \<Rightarrow> nat \<Rightarrow> fs \<Rightarrow> bool" where
  "linked g path dest tmp i dd j u \<longleftrightarrow> published g path dest i dd j u \<and> plain u tmp \<and>
     lookup u tmp = Some (Symlink True dest)"

lemma swap_step:
  assumes "sane g" and "archivable g path" and "tmp \<in> tmps" and "tmp \<noteq> dest_of g path" and "guarded g u"
    and under_scratch: "prefix (g_scratch g) tmp"
    and lk: "linked g path (dest_of g path) tmp i dd j u"
    and ren: "do_rename tmp path n u = Inr (x, v)"
  shows "guarded g v \<and> lookup v path = Some (Symlink True (dest_of g path)) \<and>
     (path \<notin> tmps \<longrightarrow> kept g v path dd)"
proof -
  let ?d = "dest_of g path"
  note a = archivable_dest[OF assms(1,2)]
  have pub: "published g path ?d i dd j u" and t: "plain u tmp" "lookup u tmp = Some (Symlink True ?d)"
    using lk by (simp_all add: linked_def)
  then have pl: "plain u ?d" "plain u path" by (simp_all add: published_def reading_def)
  have fo: "files_ok u" using assms(5) by (simp add: guarded_def)
  have g: "gentle {tmp, path} {} u v" and vp: "lookup v path = Some (Symlink True ?d)"
    using do_renameD[OF ren fo] locate_plain[OF t(1)] locate_plain[OF pl(2)] t(2) by auto
  have nc: "\<not> g_nolink g q" if "q \<in> {tmp, path}" for q
    using that assms(2) under_scratch cold_not_scratch[OF assms(1)] by (auto simp: archivable_def strict_prefix_def)
  have nd: "?d \<notin> {tmp, path}"
    using assms(4) dest_not_scratch[OF assms(1), of path path] assms(2) by (auto simp: archivable_def)
  obtain dj where dj: "lookup u ?d = Some (File j)" "data_of u j = Some dj" "g_digest g dj = g_digest g dd"
    using pub by (auto simp: published_def)
  have dv: "lookup v ?d = Some (File j)" "data_of v j = Some dj"
    using gentle_entry[OF g nd dj(1)] dj(1) gentle_data[OF g _ dj(2)] by (simp_all add: is_dir_def)
  have kp: "kept g v path dd"
    using vp dv dj(3) gentle_plain[OF g pl(1)] gentle_plain[OF g pl(2)] by (auto simp: kept_def holds_def)
  have "guarded g v"
  proof (rule guarded_intro[OF assms(5) g, where J = "{}"])
    fix e assume e: "e \<in> set (g_files g)"
    note se = sane_file[OF assms(1) e]
    have de: "dest_of g (fst e) \<notin> {tmp, path}"
      using se(3) assms(3) dest_not_scratch[OF assms(1), of path "fst e"] assms(2)
      by (auto simp: archivable_def)
    show "kept g v (fst e) (snd e)"
    proof (cases "fst e = path")
      case True
      then have "lookup u path = Some (File i)" "data_of u i = Some dd"
        using pub se(2) by (auto simp: published_def reading_def)
      then have "g_digest g dd = g_digest g (snd e)"
        using kept_file[of g u path "snd e" i] guarded_file[OF assms(5) e] True by auto
      with kp True show ?thesis by (simp add: kept_def holds_def)
    next
      case False
      then have "fst e \<notin> {tmp, path}" using se(2) assms(3) by auto
      then show ?thesis by (intro kept_gentle[OF g guarded_file[OF assms(5) e] _ de]) simp_all
    qed
    fix k assume k: "lookup v (fst e) = Some (File k) \<or> lookup v (dest_of g (fst e)) = Some (File k)"
    show "lookup u (fst e) = Some (File k) \<or> lookup u (dest_of g (fst e)) = Some (File k)"
      using k vp se(2) assms(3) file_entry_back[OF g, of "fst e" k] file_entry_back[OF g de, of k]
      by (cases "fst e = path") auto
  next
    fix r k assume r: "r \<in> set (g_special g)" "lookup v r = Some (File k)"
    have "r \<notin> {tmp, path}" using r(1) assms(1-3) by (auto simp: sane_def tmps_def archivable_def)
    then show "lookup u r = Some (File k) \<and> k \<notin> {}" using file_entry_back[OF g _ r(2)] by simp
  qed (use nc in auto)
  with vp kp show ?thesis by simp
qed


section \<open>\<open>archive_one\<close>\<close>

lemma triple_copy_and_hash:
  assumes "quiet P" and "sane g" and "q \<in> tmps" and "calm Z"
    and zq: "\<And>u v j. gentle {q} {} u v \<Longrightarrow> lookup v q = Some (File j) \<Longrightarrow> Z u \<Longrightarrow> Z v"
    and src: "\<And>u p. Z u \<Longrightarrow> locate u False path = Inr p \<Longrightarrow> p = path"
    and dst: "\<And>u p. Z u \<Longrightarrow> locate u False part = Inr p \<Longrightarrow> p = q"
  shows "triple (on_fs (\<lambda>u. guarded g u \<and> Z u)) (copy_and_hash P path part)
     (\<lambda>copy s. \<exists>i dd j. copy = (digest P dd, length dd, j) \<and> on_fs (\<lambda>u. guarded g u \<and> copying g path Z q i dd j u) s)
     (on_fs (guarded g))"
proof -
  let ?Q = "\<lambda>copy s. \<exists>i dd j. copy = (digest P dd, length dd, j) \<and> on_fs (\<lambda>u. guarded g u \<and> copying g path Z q i dd j u) s"
  have open_src: "triple (on_fs (\<lambda>u. guarded g u \<and> Z u)) (sys P (do_open_read path))
      (\<lambda>i s. \<exists>dd. on_fs (\<lambda>u. guarded g u \<and> reading path Z i dd u) s) (on_fs (guarded g))"
  proof (rule triple_conseq[OF triple_read_step[OF assms(1) pure_callsD(6), where X = Z
          and Q = "\<lambda>i u. \<exists>dd. reading path Z i dd u" and g = g]])
    fix n u i assume z: "Z u" and f: "do_open_read path n u = Inr (i, u)"
    from do_open_readD[OF f] obtain p where p: "locate u False path = Inr p" "lookup u p = Some (File i)"
      "inode_of u i \<noteq> None" by blast
    show "\<exists>dd. reading path Z i dd u"
      using p z src[OF z p(1)] locate_result_plain[OF p(1)] by (auto simp: reading_def data_of_def)
  qed auto
  have create: "triple (on_fs (\<lambda>u. guarded g u \<and> reading path Z i dd u)) (sys P (do_create P part))
      (\<lambda>j. on_fs (\<lambda>u. guarded g u \<and> copying g path Z q i dd j u)) (on_fs (guarded g))" for i dd
  proof (rule triple_sys[OF assms(1)])
    fix n u j v assume u: "guarded g u \<and> reading path Z i dd u" and f: "do_create P part n u = Inr (j, v)"
    have z: "Z u" using u by (simp add: reading_def)
    from do_createD[OF f] dst[OF z] have l: "locate u False part = Inr q" and g: "gentle {q} {} u v"
      and e: "lookup v q = Some (File j)" and nj: "inode_of u j = None" "inode_of v j \<noteq> None" by auto
    have "guarded g v" by (rule inv_tmp[OF assms(2) conjunct1[OF u] g]) (use assms(3) e in auto)
    moreover have "ours v j"
      unfolding ours_def
    proof (intro conjI allI impI nj(2))
      fix r assume r: "lookup v r = Some (File j)"
      show "r \<in> tmps"
      proof (rule ccontr)
        assume "r \<notin> tmps"
        then have "r \<notin> {q}" using assms(3) by blast
        from file_entry_back[OF g this r] have "inode_of u j \<noteq> None"
          using u unfolding guarded_def files_ok_def by blast
        with nj(1) show False by simp
      qed
    qed
    moreover have "reading path Z i dd v"
      by (rule reading_gentle[OF g]) (use u assms(3) zq[OF g e] in auto)
    moreover have "i \<noteq> j" using u nj(1) by (auto simp: reading_def data_of_def)
    moreover have "j \<notin> set (g_fds g)" using u nj(1) by (auto simp: guarded_def apart_def)
    moreover have "plain v q" using gentle_plain[OF g] locate_result_plain[OF l] by blast
    ultimately show "(guarded g v \<and> copying g path Z q i dd j v) \<and> guarded g v"
      using e by (simp add: copying_def)
  qed simp
  have loop: "triple (on_fs (\<lambda>u. guarded g u \<and> copying g path Z q i dd j u))
      (bindE (copy_loop (fuel P) P i j []) (\<lambda>bs. bindE (sys P (do_fsync j)) (\<lambda>_. retE (digest P bs, length bs, j))))
      ?Q (on_fs (guarded g))" for i dd j
  proof (rule triple_bind[OF triple_copy_loop[OF assms(1,2,4)]])
    fix bs
    let ?C = "on_fs (\<lambda>u. guarded g u \<and> copying g path Z q i dd j u)"
    have "triple ?C (sys P (do_fsync j)) (\<lambda>_. ?C) (on_fs (guarded g))"
      by (rule triple_meta_step[OF assms(1,2)]) (auto intro: copying_gentle assms(4) dest: fd_metaD)
    then have "triple (\<lambda>s. bs = dd \<and> ?C s) (bindE (sys P (do_fsync j)) (\<lambda>_. retE (digest P bs, length bs, j)))
        ?Q (on_fs (guarded g))"
      by (intro triple_fact triple_bind) (auto intro!: triple_ret)
    then show "triple (on_fs (\<lambda>u. (guarded g u \<and> copying g path Z q i dd j u) \<and> bs = dd))
        (bindE (sys P (do_fsync j)) (\<lambda>_. retE (digest P bs, length bs, j))) ?Q (on_fs (guarded g))"
      by (rule triple_pre) auto
  qed simp
  show ?thesis
    unfolding copy_and_hash_def
    by (rule triple_bind[OF open_src], rule triple_ex, rule triple_bind[OF create], rule loop)
qed

lemma triple_publish_cold:
  assumes "quiet P" and "sane g" and "g_digest g = digest P" and "archivable g path" and "path \<in> set (g_plain g)"
    and rel: "rel = drop (length (g_scratch g)) path"
    and part: "part = butlast (g_cold g @ rel) @ [t]" and "is_tmp t"
  shows "triple (on_fs (guarded g)) (publish_cold P path (g_scratch g) (g_cold g) rel part st)
     (\<lambda>r s. on_fs (guarded g) s \<and> (r \<noteq> None \<longrightarrow> (\<exists>i dd j. on_fs (published g path (dest_of g path) i dd j) s)))
     (on_fs (guarded g))"
proof -
  let ?d = "dest_of g path"
  let ?X = "\<lambda>u. plain u ?d \<and> plain u path \<and> plain u part"
  let ?Q = "\<lambda>r s. on_fs (guarded g) s \<and> (r \<noteq> None \<longrightarrow> (\<exists>i dd j. on_fs (published g path ?d i dd j) s))"
  have d: "g_cold g @ rel = ?d" by (simp add: dest_of_def rel)
  have relne: "rel \<noteq> []" using assms(4) by (auto simp: archivable_def rel strict_prefix_def prefix_def)
  have ptmp: "part \<in> tmps" using assms(8) by (simp add: part tmps_def)
  have dots: "''.'' \<notin> set rel" "''..'' \<notin> set rel" if "guarded g u" for u
    using that assms(5) set_drop_subset[of "length (g_scratch g)" path]
    by (auto simp: guarded_def plain_def rel)
  have mk: "triple (on_fs (guarded g)) (makedirs_mirror P (g_scratch g) (g_cold g) rel)
      (\<lambda>_. on_fs (\<lambda>u. guarded g u \<and> ?X u)) (on_fs (guarded g))"
  proof (cases "\<exists>u. guarded g u")
    case True
    then obtain u where u: "guarded g u" by blast
    have "triple (on_fs (\<lambda>u. guarded g u \<and> plain u (g_cold g) \<and> is_dir u (g_cold g)))
        (makedirs_mirror P (g_scratch g) (g_cold g) rel)
        (\<lambda>_. on_fs (\<lambda>u. guarded g u \<and> plain u (g_cold g @ butlast rel) \<and> is_dir u (g_cold g @ butlast rel)))
        (on_fs (guarded g))"
      unfolding makedirs_mirror_def
      by (rule triple_mirror_levels[OF assms(1,2)]) (use dots[OF u] in \<open>auto dest: in_set_butlastD\<close>)
    then show ?thesis
    proof (rule triple_conseq)
      fix x :: unit and s :: ost
      assume s: "on_fs (\<lambda>u. guarded g u \<and> plain u (g_cold g @ butlast rel) \<and> is_dir u (g_cold g @ butlast rel)) s"
      have "plain (fsys s) ((g_cold g @ butlast rel) @ [last rel])"
        unfolding plain_snoc using s dots[OF u] relne last_in_set[OF relne] by metis
      then have "plain (fsys s) ?d" using relne by (simp add: d[symmetric])
      moreover have "plain (fsys s) part"
        unfolding part butlast_append[of "g_cold g" rel] if_not_P[OF relne] plain_snoc
        using s is_tmp_not_dot[OF assms(8)] by blast
      ultimately show "on_fs (\<lambda>u. guarded g u \<and> ?X u) s" using s assms(5) by (simp add: guarded_def)
    qed (auto simp: guarded_def)
  qed (auto simp: triple_def)
  have st: "steady {} ?X" by (intro steady_conj steady_plain)
  have cl: "calm ?X" by (intro calm_conj calm_plain)
  have copy: "triple (on_fs (\<lambda>u. guarded g u \<and> ?X u)) (copy_and_hash P path part)
      (\<lambda>copy s. \<exists>i dd j. copy = (digest P dd, length dd, j) \<and> on_fs (\<lambda>u. guarded g u \<and> copying g path ?X part i dd j u) s)
      (on_fs (guarded g))"
    by (rule triple_copy_and_hash[OF assms(1,2) ptmp cl]) (auto dest: gentle_plain simp: locate_plain)
  have publish: "triple (on_fs (\<lambda>u. guarded g u \<and> verified g path ?X part i dd j u)) (os_replace P part ?d)
      (\<lambda>_. on_fs (\<lambda>u. guarded g u \<and> published g path ?d i dd j u)) (on_fs (guarded g))" for i dd j
    unfolding os_replace_def
    by (rule triple_sys[OF assms(1)]) (use publish_step[OF assms(2,4) ptmp, where Z = ?X] in blast)+
  have rest: "triple (on_fs (\<lambda>u. guarded g u \<and> (ok \<longrightarrow> verified g path ?X part i dd j u)))
      (if \<not> ok then retE None
       else bindE (os_replace P part (g_cold g @ rel)) (\<lambda>_.
            bindE (fsync_dir P (butlast (g_cold g @ rel))) (\<lambda>_. retE (Some sha))))
      ?Q (on_fs (guarded g))" for ok i dd j and sha :: string
  proof (cases ok)
    case True
    have "triple (on_fs (\<lambda>u. guarded g u \<and> verified g path ?X part i dd j u))
       (bindE (os_replace P part ?d) (\<lambda>_. bindE (fsync_dir P (butlast ?d)) (\<lambda>_. retE (Some sha))))
       ?Q (on_fs (guarded g))"
    proof (rule triple_bind[OF publish])
      fix y :: unit
      let ?I = "on_fs (\<lambda>u. guarded g u \<and> published g path ?d i dd j u)"
      have "triple ?I (bindE (fsync_dir P (butlast ?d)) (\<lambda>_. retE (Some sha))) ?Q ?I"
        by (rule triple_bind[OF triple_fsync_dir[OF assms(1)]]) (auto intro!: triple_ret)
      then show "triple ?I (bindE (fsync_dir P (butlast ?d)) (\<lambda>_. retE (Some sha))) ?Q (on_fs (guarded g))"
        by (rule triple_conseq) auto
    qed
    with True show ?thesis by (simp add: d)
  qed (auto intro: triple_ret)
  have body: "triple (on_fs (\<lambda>u. guarded g u \<and> ?X u))
     (bindE (clear_stale P part) (\<lambda>_.
      bindE (copy_and_hash P path part) (\<lambda>copy.
      bindE (verify_copy P part st copy) (\<lambda>ok.
        if \<not> ok then retE None
        else bindE (os_replace P part (g_cold g @ rel)) (\<lambda>_.
             bindE (fsync_dir P (butlast (g_cold g @ rel))) (\<lambda>_. retE (Some (fst copy))))))))
     ?Q (on_fs (guarded g))"
  proof (rule triple_bind[OF triple_clear_stale[OF assms(1,2) st ptmp]], rule triple_bind[OF copy],
      intro triple_ex triple_fact, simp only: fst_conv)
    fix copy :: "string \<times> nat \<times> nat" and i dd j
    show "triple (on_fs (\<lambda>u. guarded g u \<and> copying g path ?X part i dd j u))
     (bindE (verify_copy P part st (digest P dd, length dd, j)) (\<lambda>ok.
        if \<not> ok then retE None
        else bindE (os_replace P part (g_cold g @ rel)) (\<lambda>_.
             bindE (fsync_dir P (butlast (g_cold g @ rel))) (\<lambda>_. retE (Some (digest P dd))))))
     ?Q (on_fs (guarded g))"
      by (rule triple_bind[OF triple_verify_copy[OF assms(1-3) ptmp cl] rest])
  qed
  show ?thesis
    unfolding publish_cold_def
  proof (rule triple_catch[where F = "on_fs (guarded g)"])
    show "triple (on_fs (guarded g)) (bindE (discard P part) (\<lambda>_. retE None)) ?Q (on_fs (guarded g))"
      by (rule triple_bind[OF triple_discard[OF assms(1,2) ptmp]]) (auto intro: triple_ret)
  qed (rule triple_bind[OF mk body], simp)
qed


text \<open>A temporary name beside the file is not the place in the cold area.\<close>

lemma sibling_not_dest:
  assumes "sane g" and "archivable g path"
  shows "butlast path @ [c] \<noteq> dest_of g path"
proof
  assume e: "butlast path @ [c] = dest_of g path"
  have "prefix (g_scratch g) (butlast path)"
    using assms(2) by (auto simp: archivable_def strict_prefix_def prefix_def butlast_append)
  then have "prefix (g_scratch g) (dest_of g path)" by (simp add: e[symmetric])
  with cold_not_scratch[OF assms(1) dest_of_cold] show False by blast
qed

lemma triple_source_changed:
  assumes "quiet P"
  shows "triple (on_fs (\<lambda>u. guarded g u \<and> X u)) (source_changed P path st)
     (\<lambda>_. on_fs (\<lambda>u. guarded g u \<and> X u)) (on_fs (guarded g))"
proof -
  let ?I = "on_fs (\<lambda>u. guarded g u \<and> X u)"
  have "triple ?I (source_changed P path st) (\<lambda>_. ?I) ?I"
    unfolding source_changed_def os_stat_def
    by (intro triple_bind[where J = "\<lambda>_. ?I"] triple_catch[where F = ?I] triple_ret
        triple_sys_same[OF assms pure_callsD(1)]) auto
  then show ?thesis by (rule triple_conseq) auto
qed

lemma triple_step_on:
  assumes "quiet P" and "sane g" and "A \<subseteq> tmps" and "\<And>u v. gentle A {} u v \<Longrightarrow> X u \<Longrightarrow> X v"
    and nc: "\<And>q. q \<in> A \<Longrightarrow> \<not> g_nolink g q"
    and "\<And>n u x v. guarded g u \<Longrightarrow> X u \<Longrightarrow> f n u = Inr (x, v) \<Longrightarrow> gentle A {} u v \<and> Q v"
  shows "triple (on_fs (\<lambda>u. guarded g u \<and> X u)) (sys P f) (\<lambda>_. on_fs (\<lambda>u. guarded g u \<and> X u \<and> Q u))
     (on_fs (guarded g))"
proof (rule triple_sys[OF assms(1)])
  fix n u x v assume u: "guarded g u \<and> X u" and "f n u = Inr (x, v)"
  then have 1: "gentle A {} u v" "Q v" using assms(6) by blast+
  have "guarded g v" by (rule inv_tmp[OF assms(2) conjunct1[OF u] 1(1) assms(3)]) (use nc in auto)
  with assms(4)[OF 1(1) conjunct2[OF u]] 1(2) show "(guarded g v \<and> X v \<and> Q v) \<and> guarded g v" by blast
qed simp

lemma triple_swap_symlink:
  assumes "quiet P" and "sane g" and "archivable g path" and tmp: "tmp = butlast path @ [t]" and "is_tmp t"
  shows "triple (on_fs (\<lambda>u. guarded g u \<and> published g path (dest_of g path) i dd j u))
     (swap_symlink P (dest_of g path) tmp path)
     (\<lambda>ok. on_fs (\<lambda>u. guarded g u \<and> (ok \<longrightarrow> lookup u path = Some (Symlink True (dest_of g path)) \<and>
        (path \<notin> tmps \<longrightarrow> kept g u path dd))))
     (on_fs (guarded g))"
proof -
  let ?d = "dest_of g path"
  let ?X = "\<lambda>u. published g path ?d i dd j u \<and> plain u tmp"
  let ?E = "on_fs (guarded g)"
  let ?S = "\<lambda>u. lookup u path = Some (Symlink True ?d) \<and> (path \<notin> tmps \<longrightarrow> kept g u path dd)"
  let ?Q = "\<lambda>ok. on_fs (\<lambda>u. guarded g u \<and> (ok \<longrightarrow> ?S u))"
  have ttmp: "tmp \<in> tmps" using assms(5) by (simp add: tmp tmps_def)
  have td: "tmp \<noteq> ?d" using sibling_not_dest[OF assms(2,3)] by (simp add: tmp)
  have pne: "path \<noteq> []" using assms(3) by (auto simp: archivable_def)
  have tscr: "prefix (g_scratch g) tmp"
    using assms(3) by (auto simp: archivable_def strict_prefix_def prefix_def butlast_append tmp)
  then have tnc: "\<not> g_nolink g tmp"
    using cold_not_scratch[OF assms(2)] assms(3) by (auto simp: archivable_def)
  have X: "?X v" if "gentle {tmp} {} u v" and "?X u" for u v
    using published_gentle[OF that(1), of ?d path g i dd j] gentle_plain[OF that(1)] that(2) td ttmp by auto
  have clear: "triple (on_fs (\<lambda>u. guarded g u \<and> ?X u)) (clear_stale P tmp)
      (\<lambda>_. on_fs (\<lambda>u. guarded g u \<and> ?X u)) ?E"
  proof -
    have un: "triple (on_fs (\<lambda>u. guarded g u \<and> ?X u)) (os_unlink P tmp)
       (\<lambda>_. on_fs (\<lambda>u. guarded g u \<and> ?X u \<and> True)) ?E"
      unfolding os_unlink_def
    proof (rule triple_step_on[OF assms(1,2), where A = "{tmp}"])
      fix n u x v assume "?X u" and f: "do_unlink tmp n u = Inr (x, v)"
      then show "gentle {tmp} {} u v \<and> True" using do_unlinkD[OF f] locate_plain[of u tmp] by auto
    qed (use ttmp tnc X in auto)
    have lx: "triple (on_fs (\<lambda>u. guarded g u \<and> ?X u)) (lexists P tmp) (\<lambda>_. on_fs (\<lambda>u. guarded g u \<and> ?X u)) ?E"
      unfolding lexists_def
      by (rule triple_conseq[OF triple_look'[OF assms(1), of "\<lambda>u. guarded g u \<and> ?X u"]]) auto
    show ?thesis
      unfolding clear_stale_def
      by (rule triple_bind[OF lx], rule triple_if, rule triple_conseq[OF un]) (auto intro: triple_ret)
  qed
  have link: "triple (on_fs (\<lambda>u. guarded g u \<and> ?X u)) (sys P (do_symlink ?d tmp))
      (\<lambda>_. on_fs (\<lambda>u. guarded g u \<and> ?X u \<and> lookup u tmp = Some (Symlink True ?d))) ?E"
  proof (rule triple_step_on[OF assms(1,2), where A = "{tmp}"])
    fix n u x v assume "?X u" and f: "do_symlink ?d tmp n u = Inr (x, v)"
    then show "gentle {tmp} {} u v \<and> lookup v tmp = Some (Symlink True ?d)"
      using do_symlinkD[OF f] locate_plain[of u tmp] by auto
  qed (use ttmp tnc X in auto)
  have swap: "triple (on_fs (\<lambda>u. guarded g u \<and> ?X u \<and> lookup u tmp = Some (Symlink True ?d))) (os_replace P tmp path)
      (\<lambda>_. on_fs (\<lambda>u. guarded g u \<and> ?S u)) ?E"
    unfolding os_replace_def
  proof (rule triple_sys[OF assms(1)])
    fix n u x v
    assume u: "guarded g u \<and> ?X u \<and> lookup u tmp = Some (Symlink True ?d)"
      and f: "do_rename tmp path n u = Inr (x, v)"
    have "linked g path ?d tmp i dd j u" using u by (simp add: linked_def)
    from swap_step[OF assms(2,3) ttmp td conjunct1[OF u] tscr this f]
    show "(guarded g v \<and> ?S v) \<and> guarded g v" by simp
  qed simp
  have sync: "triple (on_fs (\<lambda>u. guarded g u \<and> ?S u)) (bindE (fsync_dir P (butlast path)) (\<lambda>_. retE True)) ?Q ?E"
  proof -
    let ?I = "on_fs (\<lambda>u. guarded g u \<and> ?S u)"
    have "triple ?I (bindE (fsync_dir P (butlast path)) (\<lambda>_. retE True)) ?Q ?I"
      by (rule triple_bind[OF triple_fsync_dir[OF assms(1)]]) (auto intro!: triple_ret)
    then show ?thesis by (rule triple_conseq) auto
  qed
  have body: "triple (on_fs (\<lambda>u. guarded g u \<and> ?X u))
     (bindE (clear_stale P tmp) (\<lambda>_. bindE (sys P (do_symlink ?d tmp)) (\<lambda>_.
      bindE (os_replace P tmp path) (\<lambda>_. bindE (fsync_dir P (butlast path)) (\<lambda>_. retE True))))) ?Q ?E"
    by (rule triple_bind[OF clear triple_bind[OF link triple_bind[OF swap sync]]])
  have handler: "triple ?E (bindE (discard P tmp) (\<lambda>_. retE False)) ?Q ?E"
    by (rule triple_bind[OF triple_discard[OF assms(1,2) ttmp]]) (auto intro: triple_ret)
  have "triple (on_fs (\<lambda>u. guarded g u \<and> ?X u)) (swap_symlink P ?d tmp path) ?Q ?E"
    unfolding swap_symlink_def by (rule triple_catch[OF body handler])
  then show ?thesis
  proof (rule triple_pre)
    fix s assume "on_fs (\<lambda>u. guarded g u \<and> published g path ?d i dd j u) s"
    then show "on_fs (\<lambda>u. guarded g u \<and> ?X u) s"
      using plain_sibling[of "fsys s" path t] pne is_tmp_not_dot[OF assms(5)]
      by (auto simp: tmp published_def reading_def)
  qed
qed

lemma triple_append_text:
  assumes "quiet P" and "fd \<in> set (g_fds g)"
  shows "triple (on_fs (\<lambda>u. guarded g u \<and> lookup u p = Some (Symlink ab t))) (append_text P fd s)
     (\<lambda>_. on_fs (\<lambda>u. guarded g u \<and> lookup u p = Some (Symlink ab t))) (on_fs (guarded g))"
  unfolding append_text_def
proof (rule triple_sys[OF assms(1)])
  fix n u x v assume u: "guarded g u \<and> lookup u p = Some (Symlink ab t)"
    and "on_inode (\<lambda>x. x\<lparr>i_data := i_data x @ s, i_synced := False\<rparr>) fd u = Inr (x, v)"
  then have 1: "gentle {} {fd} u v" by (intro on_inodeD)
  have "apart g u fd" using u assms(2) by (simp add: guarded_def)
  then have "guarded g v"
    by (intro inv_gentle[OF conjunct1[OF u] 1]) (auto simp: apart_def)
  moreover have "lookup v p = Some (Symlink ab t)"
    by (rule gentle_entry[OF 1]) (use u in \<open>auto simp: is_dir_def\<close>)
  ultimately show "(guarded g v \<and> lookup v p = Some (Symlink ab t)) \<and> guarded g v" by simp
qed simp

lemma triple_stat_opt:
  assumes "quiet P"
  shows "triple (on_fs A) (catchE (bindE (os_stat P path) (\<lambda>s. retE (Some s))) is_OSError (\<lambda>_. retE None))
     (\<lambda>_. on_fs A) (on_fs A)"
  unfolding os_stat_def
  by (intro triple_catch[where F = "on_fs A"] triple_bind[where J = "\<lambda>_. on_fs A"] triple_ret
      triple_sys_same[OF assms pure_callsD(1)]) auto

lemma triple_realpath': "quiet P \<Longrightarrow> triple (on_fs A) (os_realpath P p) (\<lambda>_. on_fs A) (on_fs A)"
  unfolding os_realpath_def by (rule triple_look')

lemma triple_tmp_sibling:
  assumes "\<And>hex. triple (on_fs A) (f (butlast p @ [tmp_name tag hex])) Q E"
  shows "triple (on_fs A) (bindE (tmp_sibling P p tag) f) Q E"
proof -
  have "triple (on_fs A) (tmp_sibling P p tag)
      (\<lambda>r s. (\<exists>hex. r = butlast p @ [tmp_name tag hex]) \<and> on_fs A s) E"
    by (auto simp: tmp_sibling_def triple_def ask_def)
  then show ?thesis
  proof (rule triple_bind)
    fix r
    show "triple (\<lambda>s. (\<exists>hex. r = butlast p @ [tmp_name tag hex]) \<and> on_fs A s) (f r) Q E"
      by (rule triple_fact) (use assms in blast)
  qed
qed

lemma triple_record_move:
  assumes "quiet P" and "set_option fp \<subseteq> set (g_fds g)"
  shows "triple (on_fs (\<lambda>u. guarded g u \<and> lookup u p = Some (Symlink ab t)))
     (record_move P fp reason path dest st sha)
     (\<lambda>_. on_fs (\<lambda>u. guarded g u \<and> lookup u p = Some (Symlink ab t))) (on_fs (guarded g))"
proof -
  let ?I = "on_fs (\<lambda>u. guarded g u \<and> lookup u p = Some (Symlink ab t))"
  have "triple ?I (write_entry P fp e) (\<lambda>_. ?I) (on_fs (guarded g))" for e
    unfolding write_entry_def
    using triple_append_text[OF assms(1)] assms(2) by (cases fp) (auto intro: triple_ret)
  then show ?thesis
    unfolding record_move_def
    by (intro triple_bind[where J = "\<lambda>_. ?I"] triple_ask) auto
qed

text \<open>A nonzero result means that the path is a link to its place in the cold area.\<close>

definition linked_if :: "guard \<Rightarrow> path \<Rightarrow> bool \<Rightarrow> fs \<Rightarrow> bool" where
  "linked_if g path b u \<longleftrightarrow> guarded g u \<and> (b \<longrightarrow> lookup u path = Some (Symlink True (dest_of g path)))"

lemma linked_if_simps [simp]:
  "linked_if g path False = guarded g"
  "linked_if g path True u \<longleftrightarrow> guarded g u \<and> lookup u path = Some (Symlink True (dest_of g path))"
  by (simp_all add: linked_if_def fun_eq_iff)

lemma triple_finish_archive:
  assumes "quiet P" and "sane g" and "archivable g path" and "set_option fp \<subseteq> set (g_fds g)"
  shows "triple (on_fs (\<lambda>u. guarded g u \<and> published g path (dest_of g path) i dd j u))
     (finish_archive P path (dest_of g path) fp reason st sha)
     (\<lambda>n. on_fs (linked_if g path (n \<noteq> 0))) (on_fs (guarded g))"
proof -
  let ?I = "on_fs (guarded g)"
  let ?P = "on_fs (\<lambda>u. guarded g u \<and> published g path (dest_of g path) i dd j u)"
  have "triple ?P (os_unlink P (dest_of g path)) (\<lambda>_. ?I) ?I"
    unfolding os_unlink_def
    by (rule triple_sys[OF assms(1)]) (use retract_step[OF assms(2,3)] in blast)+
  then have retract: "triple ?P (bindE (catchE (os_unlink P (dest_of g path)) is_OSError (\<lambda>_. retE ())) (\<lambda>_. retE (0::nat)))
      (\<lambda>n. on_fs (linked_if g path (n \<noteq> 0))) ?I"
    by (intro triple_bind[where J = "\<lambda>_. ?I"] triple_catch[where F = ?I] triple_ret) auto
  have swap: "triple ?P (bindE (swap_symlink P (dest_of g path) (butlast path @ [tmp_name ''so'' hex]) path)
      (\<lambda>swapped. if \<not> swapped then retE 0
         else bindE (record_move P fp reason path (dest_of g path) st sha) (\<lambda>_. retE (st_blocks st * 512)))) (\<lambda>n. on_fs (linked_if g path (n \<noteq> 0))) ?I" for hex
  proof (rule triple_bind[where J = "\<lambda>ok. on_fs (linked_if g path ok)"])
    show "triple ?P (swap_symlink P (dest_of g path) (butlast path @ [tmp_name ''so'' hex]) path)
        (\<lambda>ok. on_fs (linked_if g path ok)) ?I"
      by (rule triple_conseq[OF triple_swap_symlink[OF assms(1-3) refl is_tmp_name(1)]])
        (auto simp: linked_if_def)
    fix ok
    show "triple (on_fs (linked_if g path ok)) (if \<not> ok then retE 0
         else bindE (record_move P fp reason path (dest_of g path) st sha) (\<lambda>_. retE (st_blocks st * 512)))
         (\<lambda>n. on_fs (linked_if g path (n \<noteq> 0))) ?I"
      by (cases ok) (auto intro!: triple_ret triple_bind[OF triple_record_move[OF assms(1,4)]] simp: linked_if_def)
  qed
  show ?thesis
    unfolding finish_archive_def
    by (rule triple_bind[OF triple_source_changed[OF assms(1)]], rule triple_if[OF retract],
        rule triple_tmp_sibling, rule swap)
qed

lemma triple_move_to_cold:
  assumes "quiet P" and "sane g" and "g_digest g = digest P" and "archivable g path" and "path \<in> set (g_plain g)"
    and "set_option fp \<subseteq> set (g_fds g)" and rel: "rel = drop (length (g_scratch g)) path"
  shows "triple (on_fs (guarded g)) (move_to_cold P path (g_scratch g) (g_cold g) rel fp reason st)
     (\<lambda>n. on_fs (linked_if g path (n \<noteq> 0))) (on_fs (guarded g))"
  unfolding move_to_cold_def
proof (rule triple_tmp_sibling, rule triple_bind[OF triple_publish_cold[OF assms(1-5) rel refl is_tmp_name(1)]])
  fix r :: "string option"
  let ?d = "dest_of g path"
  have d: "g_cold g @ rel = ?d" by (simp add: rel dest_of_def)
  show "triple (\<lambda>s. on_fs (guarded g) s \<and> (r \<noteq> None \<longrightarrow> (\<exists>i dd j. on_fs (published g path ?d i dd j) s)))
     (case r of None \<Rightarrow> retE 0 | Some sha \<Rightarrow> finish_archive P path (g_cold g @ rel) fp reason st sha)
     (\<lambda>n. on_fs (linked_if g path (n \<noteq> 0))) (on_fs (guarded g))"
  proof (cases r)
    case (Some sha)
    have "triple (\<lambda>s. \<exists>i dd j. on_fs (\<lambda>u. guarded g u \<and> published g path ?d i dd j u) s)
       (finish_archive P path ?d fp reason st sha) (\<lambda>n. on_fs (linked_if g path (n \<noteq> 0))) (on_fs (guarded g))"
      by (intro triple_ex triple_finish_archive[OF assms(1,2,4,6)])
    then show ?thesis unfolding d Some by (auto elim: triple_pre)
  qed (auto intro: triple_ret)
qed

text \<open>Whatever happens, \<open>archive_one\<close> keeps the guarded files readable.\<close>

lemma triple_archive_one:
  assumes "quiet P" and "sane g" and "g_digest g = digest P" and "archivable g path" and "path \<in> set (g_plain g)"
    and "set_option fp \<subseteq> set (g_fds g)"
  shows "triple (on_fs (guarded g)) (archive_one P path (g_scratch g) (g_cold g) fp dry reason)
     (\<lambda>n. on_fs (linked_if g path (\<not> dry \<and> n \<noteq> 0))) (on_fs (guarded g))"
proof -
  let ?I = "on_fs (guarded g)"
  have rel: "relpath path (g_scratch g) = drop (length (g_scratch g)) path"
    using assms(4) by (auto simp: archivable_def strict_prefix_def prefix_def)
  have "triple ?I (case r of None \<Rightarrow> retE 0
        | Some st \<Rightarrow>
            if dry then retE (st_blocks st * 512)
            else
              bindE (os_realpath P (g_cold g)) (\<lambda>cold_real.
              bindE (os_realpath P (g_cold g @ relpath path (g_scratch g))) (\<lambda>dest_real.
                if escapes cold_real dest_real then retE 0
                else move_to_cold P path (g_scratch g) (g_cold g) (relpath path (g_scratch g)) fp reason st)))
      (\<lambda>n. on_fs (linked_if g path (\<not> dry \<and> n \<noteq> 0))) ?I"
    for r :: "stat option"
    using triple_move_to_cold[OF assms rel] 
    by (cases r) (auto intro!: triple_if triple_ret triple_bind[OF triple_realpath'[OF assms(1)]])
  then show ?thesis
    unfolding archive_one_def Let_def by (rule triple_bind[OF triple_stat_opt[OF assms(1)]])
qed

end
