(* ===== verification/Scratch_Overflow_Safe.thy ===== *)
theory Scratch_Overflow_Safe
  imports Scratch_Archive_Safe
begin

text \<open>
  From one file to the whole overflow run: the candidates that the tree walk finds, the manifest
  and the note, the two sweeps.
\<close>

section \<open>Candidates\<close>

text \<open>A candidate is a file under the scratch directory, reached through real directories.\<close>

definition good_cand :: "path \<Rightarrow> path list \<Rightarrow> path list \<Rightarrow> fs \<Rightarrow> path \<Rightarrow> bool" where
  "good_cand scratch skip_dirs skip_exact u p \<longleftrightarrow>
     plain u p \<and> strict_prefix scratch p \<and> p \<notin> set skip_exact \<and> (\<forall>d \<in> set skip_dirs. \<not> below d p)"

definition cand_path :: "cand \<Rightarrow> path" where
  "cand_path c = snd (snd c)"

definition found :: "path \<Rightarrow> path list \<Rightarrow> path list \<Rightarrow> fs \<Rightarrow> cand list \<Rightarrow> ost \<Rightarrow> bool" where
  "found scratch skip_dirs skip_exact u cands s \<longleftrightarrow>
     fsys s = u \<and> (\<forall>c \<in> set cands. good_cand scratch skip_dirs skip_exact u (cand_path c))"

lemma triple_sys_fixed:
  assumes "quiet P" and "\<And>n x v. f n u = Inr (x, v) \<Longrightarrow> v = u \<and> Q x"
  shows "triple (\<lambda>s. fsys s = u) (sys P f) (\<lambda>x s. Q x \<and> fsys s = u) (\<lambda>s. fsys s = u)"
  by (rule triple_conseq[OF triple_sys[OF assms(1), where A = "\<lambda>v. v = u" and Q = "\<lambda>x v. Q x \<and> v = u"
        and E = "\<lambda>v. v = u"]]) (use assms(2) in auto)

lemma triple_consider_file:
  assumes "quiet P" and "plain u dir" and "is_dir u dir" and "prefix scratch dir" and "c \<noteq> ''.''" and "c \<noteq> ''..''"
  shows "triple (found scratch skip_dirs skip_exact u cands) (consider_file P cutoff skip_dirs skip_exact dir cands c)
     (found scratch skip_dirs skip_exact u) (\<lambda>s. fsys s = u)"
proof (cases "List.member skip_exact (dir @ [c]) \<or> list_ex (\<lambda>d. below d (dir @ [c])) skip_dirs")
  case True
  then show ?thesis unfolding consider_file_def Let_def by (auto intro!: triple_ret simp: found_def)
next
  case False
  have "plain u (dir @ [c])" using assms(2,3,5,6) by simp
  moreover have "strict_prefix scratch (dir @ [c])" using assms(4) by (auto simp: strict_prefix_def prefix_def)
  ultimately have good: "good_cand scratch skip_dirs skip_exact u (dir @ [c])"
    using False by (auto simp: good_cand_def list_ex_iff)
  let ?F = "found scratch skip_dirs skip_exact u cands"
  have ls: "triple ?F (os_lstat P (dir @ [c])) (\<lambda>_. ?F) ?F"
    unfolding os_lstat_def found_def
    by (rule triple_conseq[OF triple_sys_same[OF assms(1) pure_callsD(1), where A = "\<lambda>v. v = u \<and>
          (\<forall>c \<in> set cands. good_cand scratch skip_dirs skip_exact u (cand_path c))"]]) auto
  show ?thesis
    unfolding consider_file_def Let_def if_not_P[OF False]
  proof (rule triple_catch[where F = ?F])
    show "triple ?F (bindE (os_lstat P (dir @ [c])) (\<lambda>st.
        if st_kind st \<noteq> IsReg then retE cands
        else if st_size st = 0 then retE cands
        else if cutoff < last_use st then retE cands
        else retE (cands @ [(last_use st, st_size st, dir @ [c])])))
      (found scratch skip_dirs skip_exact u) ?F"
      by (rule triple_bind[OF ls]) (use good in \<open>auto intro!: triple_if triple_ret simp: found_def cand_path_def\<close>)
  qed (auto intro!: triple_ret simp: found_def)
qed

lemma children_not_dots: "c \<in> set (children u q) \<Longrightarrow> c \<noteq> ''.'' \<and> c \<noteq> ''..''"
  by (auto simp: children_def)

lemma real_subdir:
  assumes "plain u (p @ [c])" and "leads_to_dir u (p @ [c])"
    and "\<not> path_is P False (\<lambda>st. st_kind st = IsLink) (p @ [c]) u"
  shows "is_dir u (p @ [c])"
proof -
  have nl: "lookup u (p @ [c]) \<noteq> Some (Symlink ab t)" for ab t
    using assms(3) locate_plain[OF assms(1)]
    by (auto simp: path_is_def do_stat_def entry_stat_def plain_stat_def)
  show ?thesis
    using assms(2) locate_plain_follow[OF assms(1) nl] by (auto simp: leads_to_dir_def is_dir_def)
qed

lemma triple_scandir:
  assumes "quiet P"
  shows "triple (\<lambda>s. fsys s = u \<and> B) (catchE (sys P (do_scandir dir)) is_OSError (\<lambda>_. retE ([], [])))
     (\<lambda>r s. (set (fst r) \<union> set (snd r) \<subseteq> {c. c \<noteq> ''.'' \<and> c \<noteq> ''..''} \<and>
        (\<forall>c \<in> set (fst r). leads_to_dir u (dir @ [c]))) \<and> fsys s = u \<and> B) (\<lambda>s. fsys s = u)"
proof (rule triple_catch[where F = "\<lambda>s. fsys s = u \<and> B"])
  show "triple (\<lambda>s. fsys s = u \<and> B) (sys P (do_scandir dir))
     (\<lambda>r s. (set (fst r) \<union> set (snd r) \<subseteq> {c. c \<noteq> ''.'' \<and> c \<noteq> ''..''} \<and>
        (\<forall>c \<in> set (fst r). leads_to_dir u (dir @ [c]))) \<and> fsys s = u \<and> B) (\<lambda>s. fsys s = u \<and> B)"
  proof (rule triple_conseq[OF triple_sys[OF assms(1), where A = "\<lambda>v. v = u \<and> B" and E = "\<lambda>v. v = u \<and> B" and
        Q = "\<lambda>r v. (set (fst r) \<union> set (snd r) \<subseteq> {c. c \<noteq> ''.'' \<and> c \<noteq> ''..''} \<and>
          (\<forall>c \<in> set (fst r). leads_to_dir u (dir @ [c]))) \<and> v = u \<and> B"]])
    fix n w x v assume w: "w = u \<and> B" and "do_scandir dir n w = Inr (x, v)"
    then show "((set (fst x) \<union> set (snd x) \<subseteq> {c. c \<noteq> ''.'' \<and> c \<noteq> ''..''} \<and>
        (\<forall>c \<in> set (fst x). leads_to_dir u (dir @ [c]))) \<and> v = u \<and> B) \<and> v = u \<and> B"
      by (auto simp: do_scandir_def children_def split: sum.splits option.splits entry.splits)
  qed auto
qed (auto intro!: triple_ret)

lemma triple_gather_dir:
  assumes "quiet P"
  shows "plain u dir \<Longrightarrow> is_dir u dir \<Longrightarrow> prefix scratch dir \<Longrightarrow>
    triple (found scratch skip_dirs skip_exact u cands) (gather_dir m P cutoff skip_dirs skip_exact dir cands)
     (found scratch skip_dirs skip_exact u) (\<lambda>s. fsys s = u)"
proof (induction m arbitrary: dir cands)
  case 0
  show ?case by (auto intro!: triple_halt simp: found_def)
next
  case (Suc m)
  let ?G = "found scratch skip_dirs skip_exact u"
  let ?B = "\<forall>c \<in> set cands. good_cand scratch skip_dirs skip_exact u (cand_path c)"
  have files: "triple (?G cands) (foldE (consider_file P cutoff skip_dirs skip_exact dir) cands fs) ?G (\<lambda>s. fsys s = u)"
    if "set fs \<subseteq> {c. c \<noteq> ''.'' \<and> c \<noteq> ''..''}" for fs cands
    using that
  proof (induction fs arbitrary: cands)
    case (Cons c fs)
    show ?case
      unfolding foldE.simps
      by (rule triple_bind[OF triple_consider_file[OF assms Suc.prems] Cons.IH]) (use Cons.prems in auto)
  qed (auto intro: triple_ret)
  have sub: "triple (?G acc)
      (if List.member skip_dirs (dir @ [d]) then retE acc
       else bindE (islink P (dir @ [d])) (\<lambda>l. if l then retE acc
              else gather_dir m P cutoff skip_dirs skip_exact (dir @ [d]) acc)) ?G (\<lambda>s. fsys s = u)"
    if d: "d \<noteq> ''.''" "d \<noteq> ''..''" "leads_to_dir u (dir @ [d])" for acc d
  proof -
    have pl: "plain u (dir @ [d])" using Suc.prems d by simp
    let ?C = "\<forall>c \<in> set acc. good_cand scratch skip_dirs skip_exact u (cand_path c)"
    have lk: "triple (?G acc) (islink P (dir @ [d]))
        (\<lambda>l s. l = path_is P False (\<lambda>st. st_kind st = IsLink) (dir @ [d]) u \<and> ?G acc s) (\<lambda>s. fsys s = u)"
      unfolding islink_def found_def
      by (rule triple_conseq[OF triple_look[OF assms, where A = "\<lambda>v. v = u \<and> ?C" and E = "\<lambda>v. v = u"]]) auto
    have "triple (?G acc) (gather_dir m P cutoff skip_dirs skip_exact (dir @ [d]) acc) ?G (\<lambda>s. fsys s = u)"
      if "\<not> path_is P False (\<lambda>st. st_kind st = IsLink) (dir @ [d]) u"
      by (rule Suc.IH[OF pl real_subdir[OF pl d(3) that]]) (use Suc.prems(3) in \<open>auto simp: prefix_def\<close>)
    then show ?thesis
      by (auto intro!: triple_if triple_bind[OF lk] triple_fact triple_ret)
  qed
  have dirs: "triple (?G acc) (foldE (\<lambda>acc d.
       if List.member skip_dirs (dir @ [d]) then retE acc
       else bindE (islink P (dir @ [d])) (\<lambda>l. if l then retE acc
              else gather_dir m P cutoff skip_dirs skip_exact (dir @ [d]) acc)) acc ds) ?G (\<lambda>s. fsys s = u)"
    if "set ds \<subseteq> {c. c \<noteq> ''.'' \<and> c \<noteq> ''..''}" and "\<forall>c \<in> set ds. leads_to_dir u (dir @ [c])" for ds acc
    using that
  proof (induction ds arbitrary: acc)
    case (Cons d ds)
    show ?case
      unfolding foldE.simps by (rule triple_bind[OF sub Cons.IH]) (use Cons.prems in auto)
  qed (auto intro: triple_ret)
  have "triple (\<lambda>s. (set (fst r) \<union> set (snd r) \<subseteq> {c. c \<noteq> ''.'' \<and> c \<noteq> ''..''} \<and>
        (\<forall>c \<in> set (fst r). leads_to_dir u (dir @ [c]))) \<and> fsys s = u \<and> ?B)
      (case r of (ds, fs) \<Rightarrow> bindE (foldE (consider_file P cutoff skip_dirs skip_exact dir) cands fs) (\<lambda>cands'.
         foldE (\<lambda>acc d.
           if List.member skip_dirs (dir @ [d]) then retE acc
           else bindE (islink P (dir @ [d])) (\<lambda>l. if l then retE acc
              else gather_dir m P cutoff skip_dirs skip_exact (dir @ [d]) acc)) cands' ds))
      ?G (\<lambda>s. fsys s = u)" for r :: "string list \<times> string list"
  proof (rule triple_fact)
    assume r: "set (fst r) \<union> set (snd r) \<subseteq> {c. c \<noteq> ''.'' \<and> c \<noteq> ''..''} \<and>
        (\<forall>c \<in> set (fst r). leads_to_dir u (dir @ [c]))"
    have "triple (?G cands)
      (bindE (foldE (consider_file P cutoff skip_dirs skip_exact dir) cands (snd r)) (\<lambda>cands'.
         foldE (\<lambda>acc d.
           if List.member skip_dirs (dir @ [d]) then retE acc
           else bindE (islink P (dir @ [d])) (\<lambda>l. if l then retE acc
              else gather_dir m P cutoff skip_dirs skip_exact (dir @ [d]) acc)) cands' (fst r)))
      ?G (\<lambda>s. fsys s = u)"
      by (rule triple_bind[OF files dirs]) (use r in auto)
    then show "triple (\<lambda>s. fsys s = u \<and> ?B) (case r of (ds, fs) \<Rightarrow>
        bindE (foldE (consider_file P cutoff skip_dirs skip_exact dir) cands fs) (\<lambda>cands'.
         foldE (\<lambda>acc d.
           if List.member skip_dirs (dir @ [d]) then retE acc
           else bindE (islink P (dir @ [d])) (\<lambda>l. if l then retE acc
              else gather_dir m P cutoff skip_dirs skip_exact (dir @ [d]) acc)) cands' ds))
      ?G (\<lambda>s. fsys s = u)"
      unfolding split_beta by (rule triple_pre) (simp add: found_def)
  qed
  note rest = this
  have "triple (\<lambda>s. fsys s = u \<and> ?B) (gather_dir (Suc m) P cutoff skip_dirs skip_exact dir cands) ?G (\<lambda>s. fsys s = u)"
    unfolding gather_dir.simps by (rule triple_bind[OF triple_scandir[OF assms] rest])
  then show ?case by (rule triple_pre) (simp add: found_def)
qed

lemma triple_gather_candidates:
  assumes "quiet P" and "plain u scratch" and "is_dir u scratch"
  shows "triple (\<lambda>s. fsys s = u) (gather_candidates P scratch cutoff skip_dirs skip_exact)
     (found scratch skip_dirs skip_exact u) (\<lambda>s. fsys s = u)"
proof -
  have "triple (found scratch skip_dirs skip_exact u [])
      (gather_candidates P scratch cutoff skip_dirs skip_exact) (found scratch skip_dirs skip_exact u) (\<lambda>s. fsys s = u)"
    unfolding gather_candidates_def
    by (rule triple_bind[OF triple_gather_dir[OF assms]])
      (auto intro!: triple_ret simp: found_def sort_cands_def)
  then show ?thesis by (rule triple_pre) (simp add: found_def)
qed


section \<open>Manifest and note\<close>

lemma guarded_update:
  assumes "guarded g u" and "\<forall>p \<in> set ps. plain u p" and "\<forall>i \<in> set fds. apart g u i"
  shows "guarded (g\<lparr>g_plain := ps, g_fds := fds\<rparr>) u"
  using assms unfolding guarded_def kept_def holds_def dest_of_def apart_def by simp

lemma guarded_forget: "guarded (g\<lparr>g_plain := ps, g_fds := fds\<rparr>) u \<Longrightarrow> guarded g u"
  if "g_plain g = []" and "g_fds g = []"
  using that unfolding guarded_def kept_def holds_def dest_of_def apart_def by simp

lemma apart_update [simp]: "apart (g\<lparr>g_plain := ps, g_fds := fds\<rparr>) u i = apart g u i"
  by (simp add: apart_def dest_of_def)

lemma guarded_plainD: "guarded g u \<Longrightarrow> p \<in> set (g_plain g) \<Longrightarrow> plain u p"
  by (simp add: guarded_def)

lemma sane_update [simp]: "sane (g\<lparr>g_plain := ps, g_fds := fds\<rparr>) = sane g"
  by (simp add: sane_def)

lemma open_special_step:
  assumes "sane g" and "guarded g u" and "plain u r" and "r \<in> set (g_special g)"
    and op: "do_open_write P trunc mode r n u = Inr (i, v)"
  shows "guarded g v \<and> apart g v i"
proof -
  have g: "gentle {r} {i} u v" and iv: "inode_of v i \<noteq> None" and lv: "lookup v r = Some (File i)"
    and or: "lookup u r = Some (File i) \<or> inode_of u i = None"
    using do_open_writeD[OF op] locate_plain[OF assms(3)] by auto
  have fo: "files_ok u" using assms(2) by (simp add: guarded_def)
  have clean: "lookup u (fst e) \<noteq> Some (File i) \<and> lookup u (dest_of g (fst e)) \<noteq> Some (File i)"
    if e: "e \<in> set (g_files g)" for e
  proof (cases "lookup u r = Some (File i)")
    case True
    then have "apart g u i" using assms(2,4) unfolding guarded_def by blast
    then show ?thesis using e by (auto simp: apart_def)
  next
    case False
    then show ?thesis using or fo unfolding files_ok_def by blast
  qed
  have nr: "fst e \<notin> {r} \<and> dest_of g (fst e) \<notin> {r}" if "e \<in> set (g_files g)" for e
    using sane_file(4,5)[OF assms(1) that] assms(4) by auto
  have ap: "apart g v i"
    unfolding apart_def
  proof (intro conjI ballI iv)
    fix e assume e: "e \<in> set (g_files g)"
    show "lookup v (fst e) \<noteq> Some (File i)"
      using file_entry_back[OF g, of "fst e" i] nr[OF e] clean[OF e] by blast
    show "lookup v (dest_of g (fst e)) \<noteq> Some (File i)"
      using file_entry_back[OF g, of "dest_of g (fst e)" i] nr[OF e] clean[OF e] by blast
  qed
  have "guarded g v"
  proof (rule inv_gentle[OF assms(2) g nr])
    show "apart g v k" if "q \<in> {r}" and "lookup v q = Some (File k)" for q k
      using that lv ap by simp
  qed (use clean lv in auto)
  with ap show ?thesis by blast
qed

lemma triple_open_special:
  assumes "quiet P" and "sane g" and "r \<in> set (g_special g)"
  shows "triple (on_fs (\<lambda>u. guarded g u \<and> plain u r)) (sys P (do_open_write P trunc mode r))
     (\<lambda>i. on_fs (\<lambda>u. guarded g u \<and> apart g u i)) (on_fs (guarded g))"
proof (rule triple_sys[OF assms(1)])
  fix n u x v assume u: "guarded g u \<and> plain u r" and f: "do_open_write P trunc mode r n u = Inr (x, v)"
  from open_special_step[OF assms(2) conjunct1[OF u] conjunct2[OF u] assms(3) f]
  show "(guarded g v \<and> apart g v x) \<and> guarded g v" by blast
qed simp

lemma triple_state_dir_usable:
  assumes "quiet P" and "sane g" and "c \<noteq> ''.''" and "c \<noteq> ''..''" and d: "d = g_scratch g @ [c]"
  shows "triple (on_fs (guarded g)) (state_dir_usable P d)
     (\<lambda>ok. on_fs (\<lambda>u. guarded g u \<and> (ok \<longrightarrow> plain u d \<and> is_dir u d))) (on_fs (guarded g))"
proof -
  let ?I = "on_fs (guarded g)"
  let ?Q = "\<lambda>ok. on_fs (\<lambda>u. guarded g u \<and> (ok \<longrightarrow> plain u d \<and> is_dir u d))"
  have pl: "plain u d" if "guarded g u" for u
    using that assms(3,4) by (simp add: guarded_def d)
  have ls: "triple ?I (os_lstat P d) (\<lambda>st. on_fs (\<lambda>u. guarded g u \<and> (st_kind st = IsDir \<longrightarrow> is_dir u d))) ?I"
    unfolding os_lstat_def
  proof (rule triple_sys[OF assms(1)])
    fix n u x v assume u: "guarded g u" and f: "do_stat P False d n u = Inr (x, v)"
    show "(guarded g v \<and> (st_kind x = IsDir \<longrightarrow> is_dir v d)) \<and> guarded g v"
      using do_stat_plain_dir[OF f pl[OF u]] pure_callsD(1)[OF f] u by blast
  qed simp
  have chm: "triple (on_fs (\<lambda>u. guarded g u \<and> is_dir u d)) (sys P (do_chmod P d 448))
     (\<lambda>_. on_fs (\<lambda>u. guarded g u \<and> is_dir u d)) ?I"
    by (rule triple_meta_step[OF assms(1,2)]) (auto intro: gentle_dir dest: do_chmodD)
  have mk: "triple ?I (sys P (do_mkdir 448 d)) (\<lambda>_. on_fs (\<lambda>u. guarded g u \<and> is_dir u d)) ?I"
  proof (rule triple_sys[OF assms(1)])
    fix n u x v assume u: "guarded g u" and f: "do_mkdir 448 d n u = Inr (x, v)"
    from do_mkdirD[OF f] have g: "gentle {} {} u v" and dir: "is_dir v d"
      using locate_plain[OF pl[OF u]] by auto
    have "guarded g v" by (rule inv_tmp[OF assms(2) u g]) simp_all
    with dir show "(guarded g v \<and> is_dir v d) \<and> guarded g v" by blast
  qed simp
  show ?thesis
    unfolding state_dir_usable_def
  proof (rule triple_catch[where F = ?I])
    show "triple ?I (bindE (os_lstat P d) (\<lambda>ds.
        if st_kind ds \<noteq> IsDir \<or> st_uid ds \<noteq> 0 then retE False
        else bindE (sys P (do_chmod P d 448)) (\<lambda>_. retE True))) ?Q ?I"
    proof (rule triple_bind[OF ls], rule triple_if)
      fix st
      show "triple (on_fs (\<lambda>u. guarded g u \<and> (st_kind st = IsDir \<longrightarrow> is_dir u d)))
          (bindE (sys P (do_chmod P d 448)) (\<lambda>_. retE True)) ?Q ?I" if "\<not> (st_kind st \<noteq> IsDir \<or> st_uid st \<noteq> 0)"
        by (rule triple_pre[OF triple_bind[OF chm]]) (use that pl in \<open>auto intro!: triple_ret\<close>)
    qed (auto intro!: triple_ret)
    show "triple ?I (catchE (bindE (sys P (do_mkdir 448 d)) (\<lambda>_. retE True)) is_OSError (\<lambda>_. retE False)) ?Q ?I"
      by (rule triple_catch[OF triple_bind[OF mk]]) (use pl in \<open>auto intro!: triple_ret\<close>)
  qed simp
qed

lemma triple_open_manifest:
  assumes "quiet P" and "sane g" and "d = g_scratch g @ [ARCHIVE_DIR]" and "manifest_file d \<in> set (g_special g)"
  shows "triple (on_fs (guarded g)) (open_manifest P d)
     (\<lambda>fp. on_fs (\<lambda>u. guarded g u \<and> (\<forall>i \<in> set_option fp. apart g u i))) (on_fs (guarded g))"
proof -
  let ?I = "on_fs (guarded g)"
  let ?Q = "\<lambda>fp. on_fs (\<lambda>u. guarded g u \<and> (\<forall>i \<in> set_option fp. apart g u i))"
  have nd: "ARCHIVE_DIR \<noteq> ''.''" "ARCHIVE_DIR \<noteq> ''..''" by (simp_all add: ARCHIVE_DIR_def)
  have op: "triple (on_fs (\<lambda>u. guarded g u \<and> plain u d \<and> is_dir u d))
      (catchE (bindE (sys P (do_open_write P False 384 (manifest_file d))) (\<lambda>fd. retE (Some fd))) is_OSError (\<lambda>_. retE None)) ?Q ?I"
  proof (rule triple_pre[OF triple_catch[OF triple_bind[OF triple_open_special[OF assms(1,2,4)]]]])
    show "guarded g (fsys s) \<and> plain (fsys s) (manifest_file d)"
      if "guarded g (fsys s) \<and> plain (fsys s) d \<and> is_dir (fsys s) d" for s
      using that by (simp add: manifest_file_def)
  qed (auto intro!: triple_ret)
  show ?thesis
    unfolding open_manifest_def
  proof (rule triple_bind[OF triple_state_dir_usable[OF assms(1,2) nd assms(3)]], rule triple_if)
    fix ok
    show "triple (on_fs (\<lambda>u. guarded g u \<and> (ok \<longrightarrow> plain u d \<and> is_dir u d)))
      (catchE (bindE (sys P (do_open_write P False 384 (manifest_file d))) (\<lambda>fd. retE (Some fd))) is_OSError (\<lambda>_. retE None))
      ?Q ?I" if "\<not> \<not> ok"
      by (rule triple_pre[OF op]) (use that in auto)
  qed (auto intro!: triple_ret)
qed

lemma triple_write_note:
  assumes "quiet P" and "sane g" and "g_scratch g @ [NOTE_NAME] \<in> set (g_special g)"
  shows "triple (on_fs (guarded g)) (write_note P (g_scratch g) cold) (\<lambda>_. on_fs (guarded g)) (on_fs (guarded g))"
proof -
  let ?I = "on_fs (guarded g)"
  let ?r = "g_scratch g @ [NOTE_NAME]"
  have nd: "NOTE_NAME \<noteq> ''.''" "NOTE_NAME \<noteq> ''..''" by (simp_all add: NOTE_NAME_def)
  have app: "triple (on_fs (\<lambda>u. guarded g u \<and> apart g u fd)) (append_text P fd s) (\<lambda>_. ?I) ?I" for fd s
    unfolding append_text_def
  proof (rule triple_sys[OF assms(1)])
    fix n u x v assume u: "guarded g u \<and> apart g u fd"
      and "on_inode (\<lambda>x. x\<lparr>i_data := i_data x @ s, i_synced := False\<rparr>) fd u = Inr (x, v)"
    then have 1: "gentle {} {fd} u v" by (intro on_inodeD)
    have "guarded g v"
      by (rule inv_gentle[OF conjunct1[OF u] 1]) (use u in \<open>auto simp: apart_def\<close>)
    then show "guarded g v \<and> guarded g v" by simp
  qed simp
  show ?thesis
    unfolding write_note_def
  proof (rule triple_pre[OF triple_catch[OF triple_bind[OF triple_open_special[OF assms] app]]])
    show "guarded g (fsys s) \<and> plain (fsys s) ?r" if "guarded g (fsys s)" for s
      using that nd by (simp add: guarded_def)
  qed (auto intro!: triple_ret)
qed

section \<open>The sweeps and the run\<close>

lemma triple_sweep_one:
  assumes "quiet P" and "sane g" and "g_digest g = digest P" and "archivable g path" and "path \<in> set (g_plain g)"
    and "set_option fp \<subseteq> set (g_fds g)"
  shows "triple (on_fs (guarded g)) (sweep_one P (g_scratch g) (g_cold g) fp dry reason acc path)
     (\<lambda>_. on_fs (guarded g)) (on_fs (guarded g))"
  unfolding sweep_one_def by (rule triple_bind[OF triple_archive_one[OF assms]]) (auto intro!: triple_ret simp: linked_if_def)

lemma triple_capacity_sweep:
  assumes "quiet P" and "sane g" and "g_digest g = digest P" and "set_option fp \<subseteq> set (g_fds g)"
    and "\<forall>c \<in> set cs. archivable g (cand_path c) \<and> cand_path c \<in> set (g_plain g)"
  shows "triple (on_fs (guarded g)) (capacity_sweep P (g_scratch g) (g_cold g) fp dry to_free acc cs)
     (\<lambda>_. on_fs (guarded g)) (on_fs (guarded g))"
  using assms(5)
proof (induction cs arbitrary: acc)
  case (Cons c cs)
  have "triple (on_fs (guarded g)) (sweep_one P (g_scratch g) (g_cold g) fp dry reason acc (snd (snd c)))
     (\<lambda>_. on_fs (guarded g)) (on_fs (guarded g))" for reason
    by (rule triple_sweep_one[OF assms(1-3) _ _ assms(4)]) (use Cons.prems in \<open>auto simp: cand_path_def\<close>)
  then show ?case
    unfolding capacity_sweep.simps
    by (intro triple_if triple_ret triple_bind[where J = "\<lambda>_. on_fs (guarded g)"] Cons.IH)
      (use Cons.prems in auto)
qed (auto intro: triple_ret)

lemma triple_pool_bytes:
  assumes "quiet P"
  shows "triple (on_fs A) (pool_bytes P) (\<lambda>_. on_fs A) (on_fs A)"
proof -
  have "triple (on_fs A) (run_zpool P) (\<lambda>_. on_fs A) (on_fs A)"
    using assms by (auto simp: triple_def run_zpool_def Let_def quiet_def split: res.splits)
  then show ?thesis
    unfolding pool_bytes_def die_def
    by (rule triple_bind) (auto intro!: triple_if triple_raise triple_ret split: prod.splits option.splits)
qed

lemma triple_both_sweeps:
  assumes "quiet P" and "sane g" and "g_digest g = digest P" and "set_option fp \<subseteq> set (g_fds g)"
    and "\<forall>c \<in> set ttl \<union> set cap. archivable g (cand_path c) \<and> cand_path c \<in> set (g_plain g)"
    and "o_scratch args = g_scratch g" and "o_cold args = g_cold g"
  shows "triple (on_fs (guarded g)) (both_sweeps P args sz free fp ttl cap)
     (\<lambda>_. on_fs (guarded g)) (on_fs (guarded g))"
proof -
  let ?I = "on_fs (guarded g)"
  have ttl: "triple ?I (ttl_sweep P (o_scratch args) (o_cold args) fp dry ttl) (\<lambda>_. ?I) ?I" for dry
    unfolding ttl_sweep_def assms(6,7)
  proof (rule triple_foldE)
    fix acc x assume "x \<in> set (map (\<lambda>c. snd (snd c)) ttl)"
    then have "archivable g x" "x \<in> set (g_plain g)" using assms(5) by (auto simp: cand_path_def)
    then show "triple ?I (sweep_one P (g_scratch g) (g_cold g) fp dry ''ttl'' acc x) (\<lambda>_. ?I) ?I"
      by (intro triple_sweep_one[OF assms(1-3) _ _ assms(4)])
  qed
  have cap: "triple ?I (capacity_sweep P (o_scratch args) (o_cold args) fp dry n acc cap) (\<lambda>_. ?I) ?I" for dry n acc
    unfolding assms(6,7) by (rule triple_capacity_sweep[OF assms(1-4)]) (use assms(5) in auto)
  show ?thesis
    unfolding both_sweeps_def
    by (rule triple_bind[OF ttl])
      (auto split: prod.splits intro!: triple_bind[where J = "\<lambda>_. ?I"] triple_if triple_ret cap
        triple_bind[OF triple_pool_bytes[OF assms(1)]])
qed

text \<open>What an overflow run guards: the given files, with the manifest and the note set apart.\<close>

definition overflow_guard :: "plat \<Rightarrow> overflow_args \<Rightarrow> (path \<times> string) list \<Rightarrow> guard" where
  "overflow_guard P args files =
     \<lparr>g_digest = digest P, g_scratch = o_scratch args, g_cold = o_cold args, g_files = files, g_plain = [],
      g_special = [o_scratch args @ [NOTE_NAME], manifest_file (o_scratch args @ [ARCHIVE_DIR])], g_fds = [],
      g_nolink = prefix (o_cold args)\<rparr>"

lemma triple_overflow_run:
  assumes "quiet P" and g: "g = overflow_guard P args files" and "sane g" and "o_scratch args \<noteq> []"
  shows "triple (on_fs (guarded g)) (overflow_run P args sz free) (\<lambda>_. on_fs (guarded g)) (on_fs (guarded g))"
proof -
  let ?I = "on_fs (guarded g)"
  let ?sd = "o_scratch args @ [ARCHIVE_DIR]"
  let ?note = "o_scratch args @ [NOTE_NAME]"
  have gs: "o_scratch args = g_scratch g" "o_cold args = g_cold g" "g_digest g = digest P"
      "g_plain g = []" "g_fds g = []" "g_nolink g = prefix (g_cold g)" "set (g_special g) = {?note, manifest_file ?sd}"
    by (simp_all add: g overflow_guard_def)
  have gather: "triple ?I (gather_candidates P (o_scratch args) cutoff [?sd] [?note])
      (\<lambda>cands. on_fs (\<lambda>u. guarded g u \<and> (\<forall>c \<in> set cands. plain u (cand_path c) \<and> archivable g (cand_path c)))) ?I" for cutoff
  proof -
    have 1: "triple (\<lambda>s. \<exists>u. guarded g u \<and> fsys s = u) (gather_candidates P (o_scratch args) cutoff [?sd] [?note])
      (\<lambda>cands. on_fs (\<lambda>u. guarded g u \<and> (\<forall>c \<in> set cands. plain u (cand_path c) \<and> archivable g (cand_path c)))) ?I"
    proof (intro triple_ex triple_fact)
      fix u assume u: "guarded g u"
      have arch: "archivable g p" if p: "good_cand (o_scratch args) [?sd] [?note] u p" for p
      proof -
        have "below ?sd (manifest_file ?sd)"
          by (simp add: below_def manifest_file_def strict_prefix_def)
        with p have "p \<noteq> manifest_file ?sd" by (auto simp: good_cand_def)
        with p show ?thesis by (auto simp: archivable_def good_cand_def gs(1)[symmetric] gs(6,7))
      qed
      show "triple (\<lambda>s. fsys s = u) (gather_candidates P (o_scratch args) cutoff [?sd] [?note])
        (\<lambda>cands. on_fs (\<lambda>u. guarded g u \<and> (\<forall>c \<in> set cands. plain u (cand_path c) \<and> archivable g (cand_path c)))) ?I"
        by (rule triple_conseq[OF triple_gather_candidates[OF assms(1)]])
          (use u arch in \<open>auto simp: guarded_def gs(1) found_def good_cand_def\<close>)
    qed
    show ?thesis by (rule triple_pre[OF 1]) auto
  qed
  have om: "triple (on_fs (\<lambda>u. guarded g u \<and> (\<forall>p \<in> set ps. plain u p)))
      (if b then retE None else open_manifest P ?sd)
      (\<lambda>fp. on_fs (guarded (g\<lparr>g_plain := ps, g_fds := case_option [] (\<lambda>i. [i]) fp\<rparr>))) ?I" for b and ps
  proof (rule triple_if)
    show "triple (on_fs (\<lambda>u. guarded g u \<and> (\<forall>p \<in> set ps. plain u p))) (retE None)
        (\<lambda>fp. on_fs (guarded (g\<lparr>g_plain := ps, g_fds := case_option [] (\<lambda>i. [i]) fp\<rparr>))) ?I"
      by (rule triple_ret) (auto intro: guarded_update)
    let ?g = "g\<lparr>g_plain := ps, g_fds := []\<rparr>"
    have "triple (on_fs (guarded ?g)) (open_manifest P ?sd)
        (\<lambda>fp. on_fs (\<lambda>u. guarded ?g u \<and> (\<forall>i \<in> set_option fp. apart ?g u i))) (on_fs (guarded ?g))"
      by (rule triple_open_manifest[OF assms(1)]) (use assms(3) in \<open>simp_all add: gs\<close>)
    then show "triple (on_fs (\<lambda>u. guarded g u \<and> (\<forall>p \<in> set ps. plain u p))) (open_manifest P ?sd)
        (\<lambda>fp. on_fs (guarded (g\<lparr>g_plain := ps, g_fds := case_option [] (\<lambda>i. [i]) fp\<rparr>))) ?I"
    proof (rule triple_conseq)
      fix fp s assume s: "on_fs (\<lambda>u. guarded ?g u \<and> (\<forall>i \<in> set_option fp. apart ?g u i)) s"
      then have "guarded g (fsys s)" by (intro guarded_forget[OF gs(4,5)]) blast
      then show "on_fs (guarded (g\<lparr>g_plain := ps, g_fds := case_option [] (\<lambda>i. [i]) fp\<rparr>)) s"
        using s guarded_plainD[of ?g "fsys s"] by (intro guarded_update) (auto split: option.splits)
    qed (auto intro: guarded_update guarded_forget[OF gs(4,5)])
  qed
  have sweeps: "triple (on_fs (guarded (g\<lparr>g_plain := map cand_path cands, g_fds := case_option [] (\<lambda>i. [i]) fp\<rparr>)))
      (both_sweeps P args sz free fp (filter c1 cands) (filter c2 cands)) (\<lambda>_. ?I) ?I"
    if "\<forall>c \<in> set cands. archivable g (cand_path c)" for cands fp c1 c2
  proof -
    let ?g = "g\<lparr>g_plain := map cand_path cands, g_fds := case_option [] (\<lambda>i. [i]) fp\<rparr>"
    have "triple (on_fs (guarded ?g)) (both_sweeps P args sz free fp (filter c1 cands) (filter c2 cands))
        (\<lambda>_. on_fs (guarded ?g)) (on_fs (guarded ?g))"
      by (rule triple_both_sweeps[OF assms(1)])
        (use assms(3) gs that in \<open>auto simp: archivable_def split: option.splits\<close>)
    then show ?thesis by (rule triple_conseq) (auto intro: guarded_forget[OF gs(4,5)])
  qed
  have wn: "triple ?I (write_note P (o_scratch args) (o_cold args)) (\<lambda>_. ?I) ?I"
    unfolding gs(1) by (rule triple_write_note[OF assms(1,3)]) (simp add: gs)
  have tail: "triple ?I (case fm of (freed :: nat, moved :: nat) \<Rightarrow>
        if \<not> o_dry_run args \<and> moved \<noteq> 0 then
          bindE (write_note P (o_scratch args) (o_cold args)) (\<lambda>_. bindE (pool_bytes P) (\<lambda>_. retE (0::int)))
        else retE 0) (\<lambda>_. ?I) ?I" for fm
    by (auto split: prod.splits intro!: triple_if triple_ret triple_bind[OF wn] triple_bind[OF triple_pool_bytes[OF assms(1)]])
  have rest: "triple (on_fs (\<lambda>u. guarded g u \<and> (\<forall>c \<in> set cands. plain u (cand_path c) \<and> archivable g (cand_path c))))
      (if cands = [] then retE (0::int)
       else bindE (if o_dry_run args then retE None else open_manifest P ?sd) (\<lambda>fp.
          bindE (both_sweeps P args sz free fp (filter c1 cands) (filter c2 cands)) (\<lambda>(freed, moved).
            if \<not> o_dry_run args \<and> moved \<noteq> 0 then
              bindE (write_note P (o_scratch args) (o_cold args)) (\<lambda>_. bindE (pool_bytes P) (\<lambda>_. retE 0))
            else retE (0::int)))) (\<lambda>_. ?I) ?I" for cands c1 c2
  proof (cases "\<forall>c \<in> set cands. archivable g (cand_path c)")
    case True
    have "triple (on_fs (\<lambda>u. guarded g u \<and> (\<forall>p \<in> set (map cand_path cands). plain u p)))
      (bindE (if o_dry_run args then retE None else open_manifest P ?sd) (\<lambda>fp.
          bindE (both_sweeps P args sz free fp (filter c1 cands) (filter c2 cands)) (\<lambda>(freed, moved).
            if \<not> o_dry_run args \<and> moved \<noteq> 0 then
              bindE (write_note P (o_scratch args) (o_cold args)) (\<lambda>_. bindE (pool_bytes P) (\<lambda>_. retE 0))
            else retE (0::int)))) (\<lambda>_. ?I) ?I"
    proof (rule triple_bind[OF om])
      fix fp
      show "triple (on_fs (guarded (g\<lparr>g_plain := map cand_path cands, g_fds := case_option [] (\<lambda>i. [i]) fp\<rparr>)))
         (bindE (both_sweeps P args sz free fp (filter c1 cands) (filter c2 cands)) (\<lambda>(freed, moved).
            if \<not> o_dry_run args \<and> moved \<noteq> 0 then
              bindE (write_note P (o_scratch args) (o_cold args)) (\<lambda>_. bindE (pool_bytes P) (\<lambda>_. retE 0))
            else retE (0::int))) (\<lambda>_. ?I) ?I"
        by (rule triple_bind[OF sweeps[OF True] tail])
    qed
    from triple_pre[OF this] show ?thesis
      by (rule triple_if[rotated]) (auto intro: triple_ret)
  qed (auto simp: triple_def)
  show ?thesis
    unfolding overflow_run_def Let_def
    by (intro triple_bind[where J = "\<lambda>_. ?I", OF triple_ask] triple_bind[OF gather rest])
qed

lemma triple_overflow_main:
  assumes "quiet P" and "g = overflow_guard P args files" and "sane g" and "o_scratch args \<noteq> []"
  shows "triple (on_fs (guarded g)) (overflow_main P args) (\<lambda>_. on_fs (guarded g)) (on_fs (guarded g))"
  unfolding overflow_main_def die_def
  by (auto intro!: triple_if triple_ret triple_raise triple_bind[OF triple_pool_bytes[OF assms(1)]]
      triple_overflow_run[OF assms] split: prod.splits)

section \<open>Reading a guarded file\<close>

lemma content_plain: "plain u q \<Longrightarrow> lookup u q = Some (File i) \<Longrightarrow> content u q = data_of u i"
  using locate_plain_follow[of u q] by (simp add: content_def)

lemma kept_content:
  assumes "kept g u p d"
  shows "\<exists>d'. content u p = Some d' \<and> g_digest g d' = g_digest g d"
proof -
  have plain_file: "content u q = data_of u i" if "plain u q" "lookup u q = Some (File i)" for q i
    using content_plain[OF that] .
  consider "holds g u p d" | "lookup u p = Some (Symlink True (dest_of g p))" "plain u (dest_of g p)"
      "holds g u (dest_of g p) d"
    using assms by (auto simp: kept_def)
  then show ?thesis
  proof cases
    case 1
    then show ?thesis using plain_file assms by (auto simp: holds_def kept_def)
  next
    case 2
    then obtain i d' where i: "lookup u (dest_of g p) = Some (File i)" "data_of u i = Some d'" "g_digest g d' = g_digest g d"
      by (auto simp: holds_def)
    have pne: "p \<noteq> []" using 2(1) by (auto simp: lookup_def)
    have 40: "SYMLINKS = Suc 39" by (simp add: SYMLINKS_def)
    have "locate u True p = walk 39 u True [] (dest_of g p)"
      unfolding locate_def 40 using walk_link[of u "[]" p "dest_of g p" 39] assms pne 2(1) by (simp add: kept_def)
    also have "\<dots> = Inr (dest_of g p)"
      using walk_plain[of u "[]" "dest_of g p" True 39] 2(2) i(1) by simp
    finally show ?thesis using i by (simp add: content_def)
  qed
qed

end
