(* ===== verification/Scratch_Sweeps.thy ===== *)
theory Scratch_Sweeps
  imports Scratch_Overflow_Safe
begin

text \<open>
  What the overflow job selects and how much it moves: the candidates of a walk, the bytes a
  capacity sweep frees, and the runs that must not touch the file system.
\<close>

section \<open>Candidates\<close>

text \<open>A candidate describes a regular file that was last used no later than the cutoff.\<close>

definition cold_cand :: "plat \<Rightarrow> rat \<Rightarrow> fs \<Rightarrow> cand \<Rightarrow> bool" where
  "cold_cand P cutoff u c =
     (case do_stat P False (cand_path c) 0 u of
        Inl e \<Rightarrow> False
      | Inr (st, _) \<Rightarrow> st_kind st = IsReg \<and> 0 < st_size st \<and> last_use st \<le> cutoff \<and>
          fst c = last_use st \<and> fst (snd c) = st_size st)"

lemma do_stat_pure: "do_stat P fol p n u = Inr (st, v) \<Longrightarrow> v = u \<and> do_stat P fol p 0 u = Inr (st, u)"
  by (auto simp: do_stat_def split: sum.splits option.splits) (auto simp: map_sum_def split: sum.splits)

definition all_cold :: "plat \<Rightarrow> rat \<Rightarrow> fs \<Rightarrow> cand list \<Rightarrow> ost \<Rightarrow> bool" where
  "all_cold P cutoff u cands s \<longleftrightarrow> fsys s = u \<and> list_all (cold_cand P cutoff u) cands"

lemma triple_consider_cold:
  assumes "quiet P"
  shows "triple (all_cold P cutoff u cands) (consider_file P cutoff skip_dirs skip_exact dir cands name)
     (all_cold P cutoff u) (\<lambda>s. fsys s = u)"
proof -
  let ?p = "dir @ [name]"
  have st: "triple (all_cold P cutoff u cands) (os_lstat P ?p)
      (\<lambda>st s. do_stat P False ?p 0 u = Inr (st, u) \<and> all_cold P cutoff u cands s) (all_cold P cutoff u cands)"
    unfolding os_lstat_def all_cold_def
    by (rule triple_conseq[OF triple_sys[OF assms, where A = "\<lambda>v. v = u \<and> list_all (cold_cand P cutoff u) cands"
          and Q = "\<lambda>st v. do_stat P False ?p 0 u = Inr (st, u) \<and> v = u \<and> list_all (cold_cand P cutoff u) cands"
          and E = "\<lambda>v. v = u \<and> list_all (cold_cand P cutoff u) cands"]])
      (use do_stat_pure in blast)+
  have "triple (all_cold P cutoff u cands) (bindE (os_lstat P ?p) (\<lambda>st.
           if st_kind st \<noteq> IsReg then retE cands
           else if st_size st = 0 then retE cands
           else if cutoff < last_use st then retE cands
           else retE (cands @ [(last_use st, st_size st, ?p)])))
      (all_cold P cutoff u) (all_cold P cutoff u cands)"
    by (rule triple_bind[OF st], rule triple_fact)
      (auto intro!: triple_if triple_ret simp: all_cold_def cold_cand_def cand_path_def)
  then show ?thesis
    unfolding consider_file_def Let_def
    by (auto intro!: triple_if triple_ret triple_catch simp: all_cold_def)
qed

lemma triple_gather_cold:
  assumes "quiet P"
  shows "triple (all_cold P cutoff u cands) (gather_dir m P cutoff skip_dirs skip_exact dir cands)
     (all_cold P cutoff u) (\<lambda>s. fsys s = u)"
proof (induction m arbitrary: dir cands)
  case 0
  show ?case by (auto intro!: triple_halt simp: all_cold_def)
next
  case (Suc m)
  let ?C = "\<lambda>cands. all_cold P cutoff u cands"
  have fold: "triple (?C acc) (foldE f acc xs) ?C (\<lambda>s. fsys s = u)"
    if "\<And>acc x. triple (?C acc) (f acc x) ?C (\<lambda>s. fsys s = u)" for f acc and xs :: "string list"
    by (induction xs arbitrary: acc) (auto intro: triple_ret triple_bind that)
  have sc: "triple (?C cands) (sys P (do_scandir dir)) (\<lambda>_. ?C cands) (?C cands)"
    unfolding all_cold_def
    by (rule triple_sys_same[OF assms, where A = "\<lambda>v. v = u \<and> list_all (cold_cand P cutoff u) cands"])
      (auto simp: do_scandir_def split: sum.splits option.splits entry.splits)
  have scan: "triple (?C cands) (catchE (sys P (do_scandir dir)) is_OSError (\<lambda>_. retE ([], [])))
      (\<lambda>_. ?C cands) (\<lambda>s. fsys s = u)"
    by (rule triple_catch[OF sc]) (auto intro!: triple_ret simp: all_cold_def)
  have lk: "triple (?C acc) (islink P p) (\<lambda>_. ?C acc) (\<lambda>s. fsys s = u)" for acc p
    unfolding islink_def all_cold_def
    by (rule triple_conseq[OF triple_look'[OF assms, where A = "\<lambda>v. v = u \<and> list_all (cold_cand P cutoff u) acc"]])
      auto
  show ?case
    unfolding gather_dir.simps
    by (rule triple_bind[OF scan])
      (auto split: prod.splits intro!: triple_bind[OF fold] fold triple_consider_cold[OF assms] triple_if triple_ret
        triple_bind[OF lk] Suc.IH)
qed

lemma triple_gather_candidates_cold:
  assumes "quiet P"
  shows "triple (\<lambda>s. fsys s = u) (gather_candidates P scratch cutoff skip_dirs skip_exact)
     (\<lambda>cands s. fsys s = u \<and> list_all (cold_cand P cutoff u) cands \<and>
        sorted (map (\<lambda>c. (fst c, - int (fst (snd c)))) cands)) (\<lambda>s. fsys s = u)"
proof -
  have "triple (all_cold P cutoff u []) (gather_candidates P scratch cutoff skip_dirs skip_exact)
     (\<lambda>cands s. fsys s = u \<and> list_all (cold_cand P cutoff u) cands \<and>
        sorted (map (\<lambda>c. (fst c, - int (fst (snd c)))) cands)) (\<lambda>s. fsys s = u)"
    unfolding gather_candidates_def
    by (rule triple_bind[OF triple_gather_cold[OF assms]])
      (auto intro!: triple_ret simp: all_cold_def sort_cands_def list_all_iff)
  then show ?thesis by (rule triple_pre) (simp add: all_cold_def)
qed

lemma candidates_are_cold:
  assumes "quiet P" and "gather_candidates P scratch cutoff skip_dirs skip_exact s = (Ok cands, t)"
  shows "fsys t = fsys s \<and> list_all (cold_cand P cutoff (fsys s)) cands \<and>
     sorted (map (\<lambda>c. (fst c, - int (fst (snd c)))) cands)"
  using tripleD[OF triple_gather_candidates_cold[OF assms(1), of "fsys s"] _ assms(2)] by simp

section \<open>How much is freed\<close>

definition small_files :: "plat \<Rightarrow> nat \<Rightarrow> bool" where
  "small_files P B \<longleftrightarrow> (\<forall>d. blocks P d * 512 \<le> B)"

lemma yields_sys: "(\<And>n u x v. f n u = Inr (x, v) \<Longrightarrow> Q x) \<Longrightarrow> yields (sys P f) Q"
  by (auto simp: yields_def sys_def Let_def split: fault.splits sum.splits prod.splits)

lemma yields_os_stat:
  assumes "small_files P B"
  shows "yields (os_stat P p) (\<lambda>st. st_blocks st * 512 \<le> B)"
  unfolding os_stat_def
proof (rule yields_sys)
  fix n u st v assume "do_stat P True p n u = Inr (st, v)"
  then obtain e where "entry_stat P u e = Inr st"
    by (auto simp: do_stat_def map_sum_def split: sum.splits option.splits)
  with assms show "st_blocks st * 512 \<le> B"
    by (auto simp: entry_stat_def inode_stat_def plain_stat_def small_files_def
        split: entry.splits option.splits)
qed

lemma yields_archive_one:
  assumes "small_files P B"
  shows "yields (archive_one P path scratch cold fp dry reason) (\<lambda>n. n \<le> B)"
proof -
  have opt: "yields (catchE (bindE (os_stat P path) (\<lambda>s. retE (Some s))) is_OSError (\<lambda>_. retE None))
      (pred_option (\<lambda>st. st_blocks st * 512 \<le> B))"
    by (intro yields_intros yields_bindP[OF yields_os_stat[OF assms]]) simp_all
  show ?thesis
    unfolding archive_one_def Let_def
    by (rule yields_bindP[OF opt])
      (auto simp: move_to_cold_def finish_archive_def split: option.split intro!: yields_intros)
qed

lemma yields_capacity_sweep:
  assumes "small_files P B"
  shows "yields (capacity_sweep P scratch cold fp dry to_free acc cands)
     (\<lambda>r. snd r \<le> snd acc + length cands \<and> (r = acc \<or> int (fst r) < to_free + int B))"
proof (induction cands arbitrary: acc)
  case Nil
  show ?case by (simp add: yields_ret)
next
  case (Cons c cands)
  have "yields (sweep_one P scratch cold fp dry ''capacity'' acc (snd (snd c)))
      (\<lambda>r. fst r \<le> fst acc + B \<and> snd r \<le> snd acc + 1)"
    unfolding sweep_one_def by (rule yields_bindP[OF yields_archive_one[OF assms]]) (auto intro: yields_ret)
  then show ?case
    by (auto simp: yields_ret not_le intro!: yields_bindP yields_conseq[OF Cons.IH])
qed

lemma bytes_to_free_enough:
  assumes "0 < cap"
  shows "capacity_pct cap (free + bytes_to_free low cap free) < low + 100 / of_int cap"
proof -
  let ?f = "bytes_to_free low cap free"
  have "of_int cap * (1 - low / 100) - of_int free < of_int ?f + (1::rat)"
    unfolding bytes_to_free_def by linarith
  then have "100 * (of_int cap - (of_int free + of_int ?f)) < low * of_int cap + 100"
    by (simp add: algebra_simps)
  from divide_strict_right_mono[OF this, of "of_int cap"]
  show ?thesis using assms by (simp add: capacity_pct_def add_divide_distrib)
qed

section \<open>Runs that touch nothing\<close>

definition same_fs :: "ost \<Rightarrow> ost \<Rightarrow> bool" where
  "same_fs s t \<longleftrightarrow> fsys t = fsys s"

interpretation untouched: frame same_fs
  by unfold_locales (simp_all add: same_fs_def)

lemma keeps_sys:
  assumes "quiet P" and "\<And>n u x v. f n u = Inr (x, v) \<Longrightarrow> v = u"
  shows "keeps same_fs (sys P f)"
proof -
  have "snd r = u" if "f n u = Inr r" for n u r using assms(2)[of n u "fst r" "snd r"] that by simp
  then show ?thesis
    using assms(1) by (auto simp: keeps_def same_fs_def sys_def Let_def quiet_def split: fault.splits sum.splits)
qed

lemma keeps_stat:
  assumes "quiet P"
  shows "keeps same_fs (os_stat P p)" "keeps same_fs (os_lstat P p)" "keeps same_fs (islink P p)"
    "keeps same_fs (ask f)" "keeps same_fs (run_zpool P)"
proof -
  show "keeps same_fs (os_stat P p)" "keeps same_fs (os_lstat P p)"
    unfolding os_stat_def os_lstat_def by (auto intro!: keeps_sys[OF assms] dest: do_stat_pure)
  show "keeps same_fs (islink P p)" "keeps same_fs (ask f)" "keeps same_fs (run_zpool P)"
    using assms by (simp_all add: keeps_def same_fs_def islink_def look_def ask_def run_zpool_def quiet_def Let_def)
qed

lemma keeps_gather_dir:
  assumes "quiet P"
  shows "keeps same_fs (gather_dir m P cutoff skip_dirs skip_exact dir cands)"
proof (induction m arbitrary: dir cands)
  case (Suc m)
  have "keeps same_fs (sys P (do_scandir dir))"
    by (rule keeps_sys[OF assms]) (auto simp: do_scandir_def split: sum.splits option.splits entry.splits)
  then show ?case
    by (auto simp: consider_file_def Let_def split: prod.split
        intro!: untouched.keeps_rules keeps_stat[OF assms] Suc.IH)
qed (simp add: untouched.keeps_halt)

lemma keeps_dry_archive:
  "quiet P \<Longrightarrow> keeps same_fs (archive_one P path scratch cold fp True reason)"
  unfolding archive_one_def Let_def
  by (auto intro!: untouched.keeps_rules keeps_stat split: option.split)

lemma keeps_dry_sweeps:
  assumes "quiet P"
  shows "keeps same_fs (sweep_one P scratch cold fp True reason acc path)"
    and "keeps same_fs (ttl_sweep P scratch cold fp True cands)"
    and "keeps same_fs (capacity_sweep P scratch cold fp True to_free acc cands)"
proof -
  show one: "keeps same_fs (sweep_one P scratch cold fp True reason acc path)" for reason acc path
    unfolding sweep_one_def by (intro untouched.keeps_bind keeps_dry_archive[OF assms] untouched.keeps_ret)
  show "keeps same_fs (ttl_sweep P scratch cold fp True cands)"
    unfolding ttl_sweep_def by (intro untouched.keeps_foldE one)
  show "keeps same_fs (capacity_sweep P scratch cold fp True to_free acc cands)"
    by (induction cands arbitrary: acc) (auto intro!: untouched.keeps_rules one)
qed

lemma keeps_pool_bytes: "quiet P \<Longrightarrow> keeps same_fs (pool_bytes P)"
  unfolding pool_bytes_def die_def
  by (auto intro!: untouched.keeps_rules keeps_stat split: option.splits prod.splits)

lemma keeps_dry_main:
  assumes "quiet P" and "o_dry_run args"
  shows "keeps same_fs (overflow_main P args)"
  unfolding overflow_main_def overflow_run_def both_sweeps_def die_def gather_candidates_def Let_def
  using assms
  by (auto intro!: untouched.keeps_rules keeps_pool_bytes keeps_stat keeps_gather_dir keeps_dry_sweeps
      split: prod.split)

end
