(* ===== verification/Scratch_Restore_Safe.thy ===== *)
theory Scratch_Restore_Safe
  imports Scratch_Archive_Safe
begin

text \<open>
  The restore tool keeps every guarded file readable, when it pins each link to its own archive
  location and no link stands under the cold area.
\<close>

section \<open>Where links lead\<close>

lemma realwalk_no_links:
  assumes "''.'' \<notin> set cs" and "''..'' \<notin> set cs"
    and "\<And>k. 0 < k \<Longrightarrow> k \<le> length cs \<Longrightarrow> \<not> is_link u (acc @ take k cs)"
  shows "realwalk n u acc cs = acc @ cs"
  using assms
proof (induction cs arbitrary: acc)
  case (Cons c cs)
  have "\<not> is_link u (acc @ [c])" using Cons.prems(3)[of 1] by simp
  moreover have "realwalk n u (acc @ [c]) cs = acc @ c # cs"
    using Cons.IH[of "acc @ [c]"] Cons.prems(1,2) Cons.prems(3)[of "Suc k" for k] by fastforce
  ultimately show ?case
    using Cons.prems(1,2) by (auto simp: is_link_def split: option.splits entry.splits)
qed simp

text \<open>Under a directory without links a path leads to itself.\<close>

lemma realwalk_linkfree:
  assumes "plain u c" and "\<And>q. prefix c q \<Longrightarrow> \<not> is_link u q" and "''.'' \<notin> set r" and "''..'' \<notin> set r"
  shows "realwalk n u [] (c @ r) = c @ r"
proof (rule realwalk_no_links[of _ _ "[]", simplified])
  fix k assume k: "0 < k" "k \<le> length (c @ r)"
  show "\<not> is_link u (take k (c @ r))"
  proof (cases "k < length c")
    case True
    then have "is_dir u (take k c)" by (rule plain_dir[OF assms(1)])
    with True show ?thesis by (auto simp: is_dir_def is_link_def)
  qed (intro assms(2), simp)
qed (use assms(1,3,4) in \<open>auto simp: plain_def\<close>)

lemma locate_linkfree:
  assumes "plain u c" and "\<And>q. prefix c q \<Longrightarrow> \<not> is_link u q" and "''.'' \<notin> set r" and "''..'' \<notin> set r"
    and "r \<noteq> []" and "locate u False (c @ r) = Inr p"
  shows "p = c @ r"
proof -
  have e: "c @ r = (c @ butlast r) @ [last r]" using assms(5) by simp
  have d: "last r \<noteq> ''.''" "last r \<noteq> ''..''" using assms(3-5) last_in_set[of r] by metis+
  have "walk SYMLINKS u False [] ((c @ butlast r) @ [last r]) = Inr p"
    using assms(6) by (simp only: locate_def e[symmetric])
  from walk_realwalk[OF this d]
  have "p = realwalk SYMLINKS u [] (c @ butlast r) @ [last r]" .
  also have "realwalk SYMLINKS u [] (c @ butlast r) = c @ butlast r"
    by (rule realwalk_linkfree[OF assms(1,2)]) (use assms(3,4) in \<open>auto dest: in_set_butlastD\<close>)
  finally show ?thesis using e by simp
qed

text \<open>A path that leads somewhere still leads there after a call that changes no link on its way.\<close>

lemma walk_stable:
  assumes "gentle A N u v" and "\<And>r. r \<in> A \<Longrightarrow> \<not> is_link u r"
    and "walk n u fol acc cs = Inr q" and "\<not> fol"
  shows "walk n v fol acc cs = Inr q"
  using assms
proof (induction n u fol acc cs arbitrary: q rule: walk.induct)
  case (2 n u fol acc c cs)
  note g = 2(5) and A = 2(6) and w = 2(7) and nf = 2(8)
  consider "c = ''.''" | "c = ''..''" | "c \<noteq> ''.''" "c \<noteq> ''..''" by blast
  then show ?case
  proof cases
    case 1
    with w have "walk n u fol acc cs = Inr q" by simp
    from 2(1)[OF 1 g A this nf] 1 show ?thesis by simp
  next
    case c: 2
    have nd: "c \<noteq> ''.''" using c by simp
    from c nd w have "walk n u fol (butlast acc) cs = Inr q" by simp
    from 2(2)[OF nd c g A this nf] c show ?thesis by simp
  next
    case 3
    show ?thesis
    proof (cases "lookup u (acc @ [c])")
      case None
      with w 3 have "cs = []" "q = acc @ [c]" by (simp_all del: dict_get_eq_None split: if_splits)
      with 3 nf show ?thesis by (auto split: option.split entry.split)
    next
      case (Some e)
      show ?thesis
      proof (cases "cs = [] \<and> \<not> is_dir u (acc @ [c])")
        case True
        with w 3 Some nf have "q = acc @ [c]" by (cases e) (auto simp: is_dir_def)
        with True 3 nf show ?thesis by (auto split: option.split entry.split)
      next
        case False
        show ?thesis
        proof (cases e)
          case (Folder m)
          with w 3 Some have "walk n u fol (acc @ [c]) cs = Inr q" by simp
          from 2(4)[OF 3 Some Folder g A this nf]
          have 1: "walk n v fol (acc @ [c]) cs = Inr q" .
          have "is_dir v (acc @ [c])" by (rule gentle_dir[OF g]) (use Some Folder in \<open>simp add: is_dir_def\<close>)
          then obtain m' where "lookup v (acc @ [c]) = Some (Folder m')" using is_dirD by blast
          with 1 3 show ?thesis by simp
        next
          case (Symlink ab t)
          have ne: "cs \<noteq> []" using False Some Symlink by (auto simp: is_dir_def)
          then obtain k where k: "n = Suc k" using w 3 Some Symlink by (cases n) auto
          have nc: "\<not> (cs = [] \<and> \<not> fol)" using ne by simp
          from ne k w 3 Some Symlink have "walk k u fol (if ab then [] else acc) (t @ cs) = Inr q" by simp
          from 2(3)[OF 3 Some Symlink nc k g A this nf]
          have 1: "walk k v fol (if ab then [] else acc) (t @ cs) = Inr q" .
          have "acc @ [c] \<notin> A" using A Some Symlink by (auto simp: is_link_def)
          from gentle_entry[OF g this Some] Symlink Some
          have "lookup v (acc @ [c]) = Some (Symlink ab t)" by (simp add: is_dir_def)
          with 1 3 ne k show ?thesis by simp
        qed (use False w 3 Some in \<open>auto simp: is_dir_def split: if_splits\<close>)
      qed
    qed
  qed
qed simp

lemma locate_stable:
  "gentle A N u v \<Longrightarrow> (\<And>r. r \<in> A \<Longrightarrow> \<not> is_link u r) \<Longrightarrow> locate u False p = Inr q \<Longrightarrow> locate v False p = Inr q"
  unfolding locate_def by (rule walk_stable) auto


section \<open>The checks\<close>

definition adm :: "guard \<Rightarrow> path \<Rightarrow> path \<Rightarrow> fs \<Rightarrow> bool" where
  "adm g link L u \<longleftrightarrow> locate u False link = Inr L \<and> is_link u L \<and> strict_prefix (g_scratch g) L"

lemma link_location:
  assumes "locate u False link = Inr L" and "link \<noteq> []" and "last link \<noteq> ''.''" and "last link \<noteq> ''..''"
  shows "L = realwalk SYMLINKS u [] (butlast link) @ [last link]"
  by (rule walk_realwalk) (use assms in \<open>simp_all add: locate_def\<close>)

lemma path_is_link:
  "path_is P False (\<lambda>st. st_kind st = IsLink) p u \<Longrightarrow> \<exists>L. locate u False p = Inr L \<and> is_link u L"
  unfolding path_is_def do_stat_def
  by (auto simp: entry_stat_def inode_stat_def plain_stat_def is_link_def
      split: sum.splits option.splits entry.splits)

lemma under_single: "under_any p [r] \<longleftrightarrow> p = r \<or> below r p"
  by (simp add: under_any_def)

lemma triple_admitted:
  assumes "quiet P" and "guarded g u" and "sane g" and pairs: "pairs = [(g_scratch g, g_cold g)]"
    and "last link \<noteq> ''.''" and "last link \<noteq> ''..''"
  shows "triple (\<lambda>s. fsys s = u) (admitted P link scratch_roots cold_roots pairs)
     (\<lambda>a s. (\<forall>t. a = Some t \<longrightarrow> (\<exists>L. adm g link L u \<and> t = dest_of g L)) \<and> fsys s = u) (\<lambda>s. fsys s = u)"
proof -
  let ?I = "\<lambda>s. fsys s = u"
  let ?Q = "\<lambda>a s. (\<forall>t. a = Some t \<longrightarrow> (\<exists>L. adm g link L u \<and> t = dest_of g L)) \<and> fsys s = u"
  have lk: "triple ?I (look P f) (\<lambda>r s. r = f u \<and> ?I s) ?I" for f :: "fs \<Rightarrow> 'b"
    by (rule triple_conseq[OF triple_look[OF assms(1), where A = "\<lambda>v. v = u" and E = "\<lambda>v. v = u"]]) auto
  have rl: "triple ?I (resolve_target P link) (\<lambda>_. ?I) ?I"
    unfolding resolve_target_def os_realpath_def
  proof (rule triple_bind[where J = "\<lambda>_. ?I"])
    show "triple ?I (sys P (do_readlink link)) (\<lambda>_. ?I) ?I"
      by (rule triple_sys_same[OF assms(1) pure_callsD(3), where A = "\<lambda>v. v = u"])
  qed (auto split: prod.splits intro: triple_conseq[OF lk])
  have expected: "triple ?I (bindE (expected_target P pairs lp (lp @ [last link])) (\<lambda>e.
      retE (if e = Some t then Some t else None))) ?Q ?I"
    if lp: "lp = realwalk SYMLINKS u [] (butlast link)" and L: "locate u False link = Inr L" "is_link u L" for lp t L
  proof -
    have ne: "link \<noteq> []" using L by (auto simp: locate_def is_link_def lookup_def)
    have Leq: "L = lp @ [last link]" using link_location[OF L(1) ne assms(5,6)] lp by simp
    show ?thesis
    proof (cases "under_any lp [g_scratch g]")
      case True
      then have pre: "prefix (g_scratch g) lp" by (auto simp: under_single below_def)
      then have sp: "strict_prefix (g_scratch g) L" by (auto simp: Leq strict_prefix_def prefix_def)
      then have rel: "relpath L (g_scratch g) = drop (length (g_scratch g)) L"
        by (auto simp: strict_prefix_def prefix_def)
      have "plain u L" by (rule locate_result_plain[OF L(1)])
      then have dots: "''.'' \<notin> set (drop (length (g_scratch g)) L)" "''..'' \<notin> set (drop (length (g_scratch g)) L)"
        using set_drop_subset[of "length (g_scratch g)" L] by (auto simp: plain_def)
      have "realwalk SYMLINKS u [] (g_cold g @ drop (length (g_scratch g)) L) = dest_of g L"
        unfolding dest_of_def
        by (rule realwalk_linkfree) (use assms(2,3) dots in \<open>auto simp: guarded_def sane_def\<close>)
      then have e: "triple ?I (expected_target P pairs lp (lp @ [last link])) (\<lambda>r s. r = Some (dest_of g L) \<and> ?I s) ?I"
        unfolding expected_target_def pairs os_realpath_def using True
        by (auto simp: rel Leq[symmetric] intro!: triple_bind[OF lk] triple_fact triple_ret)
      have "adm g link L u" using L sp by (simp add: adm_def)
      then show ?thesis by (auto intro!: triple_bind[OF e] triple_fact triple_ret split: if_splits)
    next
      case False
      then show ?thesis
        unfolding expected_target_def pairs by (auto intro!: triple_ret)
    qed
  qed
  show ?thesis
    unfolding admitted_def islink_def os_realpath_def
  proof (rule triple_bind[OF lk], rule triple_fact)
    fix l assume l: "l = path_is P False (\<lambda>st. st_kind st = IsLink) link u"
    show "triple ?I (if \<not> l then retE None
        else bindE (look P (\<lambda>u. realwalk SYMLINKS u [] (butlast link))) (\<lambda>link_parent.
           if scratch_roots \<noteq> [] \<and> \<not> under_any link_parent scratch_roots then retE None
           else bindE (resolve_target P link) (\<lambda>target.
               if \<not> under_any target cold_roots then retE None
               else if pairs = [] then retE (Some target)
               else bindE (expected_target P pairs link_parent (link_parent @ [last link])) (\<lambda>expected.
                   retE (if expected = Some target then Some target else None))))) ?Q ?I"
    proof (cases l)
      case True
      then obtain L where L: "locate u False link = Inr L" "is_link u L" using path_is_link l by blast
      have pn: "pairs \<noteq> []" by (simp add: pairs)
      show ?thesis
        using True pn
        by (auto intro!: triple_bind[OF lk] triple_fact triple_if triple_ret triple_bind[OF rl] expected[OF _ L])
    qed (auto intro!: triple_ret)
  qed
qed


section \<open>Bringing the data back\<close>

text \<open>No link has, or will have, a temporary name that the run draws.\<close>

definition drawn_free :: "plat \<Rightarrow> guard \<Rightarrow> bool" where
  "drawn_free P g \<longleftrightarrow> (\<forall>q n. q \<noteq> [] \<longrightarrow> last q = tmp_name ''sr'' (urandom P n) \<longrightarrow> g_nolink g q)"

text \<open>What stays true while the copy is made at \<open>q\<close>.\<close>

definition bringing :: "guard \<Rightarrow> path \<Rightarrow> path \<Rightarrow> path \<Rightarrow> path \<Rightarrow> fs \<Rightarrow> bool" where
  "bringing g link L part q u \<longleftrightarrow> adm g link L u \<and> \<not> is_link u q \<and> plain u (g_cold g) \<and>
     (\<forall>r. prefix (g_cold g) r \<longrightarrow> \<not> is_link u r) \<and> (\<forall>p. locate u False part = Inr p \<longrightarrow> p = q)"

lemma gentle_link_same:
  "gentle A N u v \<Longrightarrow> r \<notin> A \<Longrightarrow> is_link u r \<Longrightarrow> is_link v r"
  using gentle_entry[of A N u v r] by (auto simp: is_link_def is_dir_def)

lemma adm_gentle:
  assumes "gentle A N u v" and "\<And>r. r \<in> A \<Longrightarrow> \<not> is_link u r" and "adm g link L u"
  shows "adm g link L v"
proof -
  have "is_link u L" using assms(3) by (simp add: adm_def)
  then have "L \<notin> A" using assms(2) by blast
  then show ?thesis
    using assms(3) locate_stable[OF assms(1,2)] gentle_link_same[OF assms(1)] by (simp add: adm_def)
qed

lemma sibling_location:
  assumes "locate u False link = Inr L" and "link \<noteq> []" and "last link \<noteq> ''.''" and "last link \<noteq> ''..''"
    and "locate u False (butlast link @ [c]) = Inr p" and "c \<noteq> ''.''" and "c \<noteq> ''..''"
  shows "p = butlast L @ [c]"
  using link_location[OF assms(1-4)] link_location[OF assms(5)] assms(6,7) by simp

lemma bringing_gentle:
  assumes "gentle A {} u v" and A: "A \<subseteq> {q}" and "\<not> is_link v q"
    and link: "link \<noteq> []" "last link \<noteq> ''.''" "last link \<noteq> ''..''"
    and part: "part = butlast link @ [c]" "q = butlast L @ [c]" "c \<noteq> ''.''" "c \<noteq> ''..''"
    and br: "bringing g link L part q u"
  shows "bringing g link L part q v"
proof -
  have nl: "\<not> is_link u r" if "r \<in> A" for r using that A br by (auto simp: bringing_def)
  have ad: "adm g link L v" by (rule adm_gentle[OF assms(1) nl]) (use br in \<open>simp_all add: bringing_def\<close>)
  have "\<not> is_link v r" if r: "prefix (g_cold g) r" for r
  proof (cases "r = q")
    case False
    show ?thesis
      by (rule no_link_gentle[OF assms(1)]) (use False A br r in \<open>auto simp: bringing_def\<close>)
  qed (use assms(3) in simp)
  moreover have "p = q" if "locate v False part = Inr p" for p
    using sibling_location[OF _ link, of v L c p] ad that part by (simp add: adm_def)
  ultimately show ?thesis
    using ad assms(3) br gentle_plain[OF assms(1)] by (simp add: bringing_def)
qed

lemma bringing_calm:
  assumes link: "link \<noteq> []" "last link \<noteq> ''.''" "last link \<noteq> ''..''"
    and part: "part = butlast link @ [c]" "q = butlast L @ [c]" "c \<noteq> ''.''" "c \<noteq> ''..''"
  shows "calm (bringing g link L part q)"
  unfolding calm_def
proof (intro allI impI)
  fix N u v assume g: "gentle {} N u v" and br: "bringing g link L part q u"
  have nl: "\<not> is_link v r" if "\<not> is_link u r" for r by (rule no_link_gentle[OF g that]) simp
  have ad: "adm g link L v" by (rule adm_gentle[OF g]) (use br in \<open>simp_all add: bringing_def\<close>)
  moreover have "p = q" if "locate v False part = Inr p" for p
    using sibling_location[OF _ link, of v L c p] ad that part by (simp add: adm_def)
  ultimately show "bringing g link L part q v"
    using br gentle_plain[OF g] nl by (simp add: bringing_def)
qed

text \<open>After the rename the file is back; the cold copy is not needed any more.\<close>

definition brought :: "guard \<Rightarrow> path \<Rightarrow> fs \<Rightarrow> bool" where
  "brought g L u \<longleftrightarrow> strict_prefix (g_scratch g) L \<and> plain u L \<and> (\<exists>j. lookup u L = Some (File j))"

lemma back_step:
  assumes "sane g" and sp: "g_special g = []" "g_fds g = []" and "q \<in> tmps" and "guarded g u"
    and ver: "verified g (dest_of g L) (bringing g link L part q) q i dd j u"
    and ren: "do_rename part link n u = Inr (x, v)"
  shows "guarded g v \<and> brought g L v"
proof -
  let ?d = "dest_of g L"
  have c: "data_of u i = Some dd" "?d \<in> tmps \<or> lookup u ?d = Some (File i)" "lookup u q = Some (File j)"
      "bringing g link L part q u"
    using ver by (simp_all add: verified_def copying_def reading_def)
  then have ad: "locate u False link = Inr L" "is_link u L" "strict_prefix (g_scratch g) L"
      "\<And>p. locate u False part = Inr p \<Longrightarrow> p = q" and ncold: "\<And>r. prefix (g_cold g) r \<Longrightarrow> \<not> is_link u r"
    by (auto simp: bringing_def adm_def)
  have fo: "files_ok u" using assms(5) by (simp add: guarded_def)
  have g: "gentle {q, L} {} u v" and vL: "lookup v L = Some (File j)"
    and vq: "lookup v q = None \<or> lookup v q = Some (File j)"
    using do_renameD[OF ren fo] ad c(3) by auto
  have pL: "plain u L" by (rule locate_result_plain[OF ad(1)])
  obtain dj where dj: "data_of u j = Some dj" "g_digest g dj = g_digest g dd"
    using ver by (auto simp: verified_def)
  have djv: "data_of v j = Some dj" by (rule gentle_data[OF g _ dj(1)]) simp
  have dL: "last ?d = last L" "?d \<noteq> []"
    using dest_of_last[OF ad(3)] ad(3) by (auto simp: dest_of_def strict_prefix_def prefix_def)
  have "guarded g v"
  proof (rule guarded_intro[OF assms(5) g, where J = "{j}"])
    fix e assume e: "e \<in> set (g_files g)"
    note se = sane_file[OF assms(1) e]
    have de: "dest_of g (fst e) \<notin> {q, L}"
      using se(3) assms(4) dest_not_scratch[OF assms(1) ad(3), of "fst e"] by auto
    show "kept g v (fst e) (snd e)"
    proof (cases "fst e = L")
      case True
      have k: "kept g u L (snd e)" using guarded_file[OF assms(5) e] True by simp
      have "\<not> holds g u L (snd e)" using ad(2) by (auto simp: holds_def is_link_def)
      then have "holds g u ?d (snd e)" using k by (simp add: kept_def)
      moreover have "?d \<notin> tmps" using dL se(2) True ad(3) by (auto simp: tmps_def)
      ultimately have "g_digest g dd = g_digest g (snd e)" using c(1,2) by (auto simp: holds_def)
      then have "holds g v L (snd e)" using vL djv dj(2) by (auto simp: holds_def)
      then show ?thesis using True gentle_plain[OF g pL] by (simp add: kept_def)
    next
      case False
      then have "fst e \<notin> {q, L}" using se(2) assms(4) by auto
      then show ?thesis by (intro kept_gentle[OF g guarded_file[OF assms(5) e] _ de]) simp_all
    qed
    fix k assume k: "k \<notin> {j}" "lookup v (fst e) = Some (File k) \<or> lookup v (dest_of g (fst e)) = Some (File k)"
    have "fst e \<noteq> q" using se(2) assms(4) by auto
    then show "lookup u (fst e) = Some (File k) \<or> lookup u (dest_of g (fst e)) = Some (File k)"
      using k vL file_entry_back[OF g, of "fst e" k] file_entry_back[OF g de, of k]
      by (cases "fst e = L") auto
  next
    fix r assume r: "r \<in> {q, L}" "g_nolink g r" "is_link v r"
    then show "is_link u r" using vL vq by (auto simp: is_link_def)
  qed (use sp in auto)
  moreover have "brought g L v" using ad(3) gentle_plain[OF g pL] vL by (auto simp: brought_def)
  ultimately show ?thesis by blast
qed

text \<open>Removing the cold copy of a file that is back loses nothing.\<close>

lemma drop_step:
  assumes "sane g" and sp: "g_special g = []" "g_fds g = []" and "guarded g u" and br: "brought g L u"
    and un: "do_unlink (dest_of g L) n u = Inr (x, v)"
  shows "guarded g v"
proof -
  let ?d = "dest_of g L"
  have L: "strict_prefix (g_scratch g) L" "plain u L" using br by (simp_all add: brought_def)
  have dots: "''.'' \<notin> set (drop (length (g_scratch g)) L)" "''..'' \<notin> set (drop (length (g_scratch g)) L)"
    using L(2) set_drop_subset[of "length (g_scratch g)" L] by (auto simp: plain_def)
  have rne: "drop (length (g_scratch g)) L \<noteq> []" using L(1) by (auto simp: strict_prefix_def prefix_def)
  obtain T where T: "locate u False ?d = Inr T" "gentle {T} {} u v" "lookup v T = None"
    using do_unlinkD[OF un] by (elim exE conjE)
  have "T = ?d"
    unfolding dest_of_def
    by (rule locate_linkfree[OF _ _ dots rne]) (use T(1) assms(1,4) in \<open>auto simp: guarded_def sane_def dest_of_def\<close>)
  then have g: "gentle {?d} {} u v" and gone: "lookup v ?d = None" using T by auto
  show ?thesis
  proof (rule guarded_intro[OF assms(4) g, where J = "{}"])
    fix e assume e: "e \<in> set (g_files g)"
    note se = sane_file[OF assms(1) e]
    have fe: "fst e \<notin> {?d}" using dest_not_scratch[OF assms(1) se(1), of L] by auto
    show "kept g v (fst e) (snd e)"
    proof (cases "dest_of g (fst e) = ?d")
      case True
      then have p: "fst e = L" by (rule dest_of_inj[OF se(1) L(1)])
      then have "holds g u (fst e) (snd e)"
        using guarded_file[OF assms(4) e] br by (auto simp: kept_def brought_def)
      then have "holds g v (fst e) (snd e)" by (rule holds_gentle[OF g fe]) simp
      then show ?thesis using gentle_plain[OF g L(2)] p by (simp add: kept_def)
    next
      case False
      then show ?thesis by (intro kept_gentle[OF g guarded_file[OF assms(4) e] fe]) simp_all
    qed
    fix k assume k: "lookup v (fst e) = Some (File k) \<or> lookup v (dest_of g (fst e)) = Some (File k)"
    show "lookup u (fst e) = Some (File k) \<or> lookup u (dest_of g (fst e)) = Some (File k)"
      using k gone file_entry_back[OF g fe, of k] file_entry_back[OF g, of "dest_of g (fst e)" k]
      by (cases "dest_of g (fst e) = ?d") auto
  qed (use sp gone in \<open>auto simp: is_link_def\<close>)
qed


section \<open>\<open>restore_one\<close>\<close>

lemma triple_pred_of:
  assumes "\<And>u. A u \<Longrightarrow> triple (\<lambda>s. fsys s = u) m (\<lambda>x s. Q x u \<and> fsys s = u) (\<lambda>s. fsys s = u)"
    and "\<And>u. A u \<Longrightarrow> E u"
  shows "triple (on_fs A) m (\<lambda>x. on_fs (\<lambda>u. A u \<and> Q x u)) (on_fs E)"
  unfolding triple_def
proof (intro allI impI)
  fix s r t assume s: "on_fs A s" and m: "m s = (r, t)"
  from tripleE[OF assms(1)[OF s] _ m]
  show "case r of Ok x \<Rightarrow> on_fs (\<lambda>u. A u \<and> Q x u) t | _ \<Rightarrow> on_fs E t"
    using s assms(2)[OF s] by (auto split: res.splits)
qed

lemma triple_checked_copy:
  assumes "quiet P" and "sane g" and "g_digest g = digest P" and "part \<in> tmps" and "calm Z"
  shows "triple (on_fs (\<lambda>u. guarded g u \<and> copying g target Z q i dd j u))
     (checked_copy P part target tst (digest P dd, n, j))
     (\<lambda>ok. on_fs (\<lambda>u. guarded g u \<and> (ok \<longrightarrow> verified g target Z q i dd j u))) (on_fs (guarded g))"
proof -
  let ?C = "copying g target Z q i dd j"
  let ?V = "verified g target Z q i dd j"
  let ?Q = "\<lambda>ok. on_fs (\<lambda>u. guarded g u \<and> (ok \<longrightarrow> ?V u))"
  let ?E = "on_fs (guarded g)"
  have drop: "triple (on_fs (\<lambda>u. guarded g u \<and> X u)) (bindE (os_unlink P part) (\<lambda>_. retE False)) ?Q ?E" for X
  proof -
    have "triple ?E (os_unlink P part) (\<lambda>_. ?E) ?E"
      using triple_unlink_tmp[OF assms(1,2) steady_True assms(4)] by simp
    then have "triple ?E (bindE (os_unlink P part) (\<lambda>_. retE False)) ?Q ?E"
      by (rule triple_bind) (auto intro: triple_ret)
    then show ?thesis by (rule triple_pre) auto
  qed
  have sha: "triple (on_fs (\<lambda>u. guarded g u \<and> ?C u)) (fd_sha256 P j)
      (\<lambda>h. on_fs (\<lambda>u. guarded g u \<and> ?C u \<and> (h = digest P dd \<longrightarrow> ?V u))) ?E"
  proof -
    have "triple (\<lambda>s. \<exists>d. on_fs (\<lambda>u. guarded g u \<and> ?C u \<and> data_of u j = Some d) s) (fd_sha256 P j)
      (\<lambda>h. on_fs (\<lambda>u. guarded g u \<and> ?C u \<and> (h = digest P dd \<longrightarrow> ?V u))) ?E"
      by (rule triple_ex, rule triple_conseq[OF triple_fd_sha256[OF assms(1), where X = ?C]])
        (auto simp: verified_def assms(3))
    then show ?thesis by (rule triple_pre) (auto simp: copying_def ours_def data_of_def)
  qed
  let ?J = "\<lambda>bad. on_fs (\<lambda>u. guarded g u \<and> ?C u \<and> (\<not> bad \<longrightarrow> ?V u))"
  have check: "triple (on_fs (\<lambda>u. guarded g u \<and> ?C u))
      (if n \<noteq> st_size tst then retE True else bindE (restore_fd_sha256 P j) (\<lambda>sha. retE (sha \<noteq> digest P dd))) ?J ?E"
    unfolding restore_fd_sha256_def
    by (rule triple_if) (auto intro!: triple_ret triple_bind[OF sha])
  let ?I = "on_fs (\<lambda>u. guarded g u \<and> ?V u)"
  note meta = triple_meta_step[where X = ?V, OF assms(1,2) verified_gentle[OF assms(5)]]
  have stamp: "triple ?I (restamp P j tst) (\<lambda>_. ?I) ?E"
    unfolding restamp_def
    by (intro triple_bind[where J = "\<lambda>_. ?I"] triple_if meta triple_ask triple_ret) (auto dest: fd_metaD)
  have changed: "triple ?I (cold_changed P target tst) (\<lambda>_. ?I) ?E"
  proof -
    have "triple ?I (cold_changed P target tst) (\<lambda>_. ?I) ?I"
      unfolding cold_changed_def
      by (rule triple_bind[OF triple_stat_opt[OF assms(1)]]) (auto intro: triple_ret)
    then show ?thesis by (rule triple_conseq) auto
  qed
  have tail: "triple ?I (bindE (restamp P j tst) (\<lambda>_.
      bindE (cold_changed P target tst) (\<lambda>changed.
        if changed then bindE (os_unlink P part) (\<lambda>_. retE False)
        else bindE (same_file P part j) (\<lambda>_. retE True)))) ?Q ?E"
    by (rule triple_bind[OF stamp triple_bind[OF changed triple_if[OF drop triple_bind[OF triple_same_file[OF assms(1)]]]]])
      (auto intro: triple_ret)
  show ?thesis
    unfolding checked_copy_def prod.case
    by (rule triple_bind[OF check], rule triple_if, rule drop, rule triple_pre[OF tail]) auto
qed

lemma triple_bring_back:
  assumes "quiet P" and "sane g" and dg: "g_digest g = digest P" and sp: "g_special g = []" "g_fds g = []"
    and link: "link \<noteq> []" "last link \<noteq> ''.''" "last link \<noteq> ''..''"
    and part: "part = butlast link @ [c]" and q: "q = butlast L @ [c]" and c: "is_tmp c" and nolink: "g_nolink g q"
  shows "triple (on_fs (\<lambda>u. guarded g u \<and> adm g link L u)) (bring_back P link (dest_of g L) tst part)
     (\<lambda>ok. on_fs (\<lambda>u. guarded g u \<and> (ok \<longrightarrow> brought g L u))) (on_fs (guarded g))"
proof -
  let ?d = "dest_of g L"
  let ?E = "on_fs (guarded g)"
  let ?Q = "\<lambda>ok. on_fs (\<lambda>u. guarded g u \<and> (ok \<longrightarrow> brought g L u))"
  let ?Z = "bringing g link L part q"
  have nd: "c \<noteq> ''.''" "c \<noteq> ''..''" using is_tmp_not_dot[OF c] by auto
  have tm: "part \<in> tmps" "q \<in> tmps" using c by (simp_all add: part q tmps_def)
  have cl: "calm ?Z" by (rule bringing_calm[OF link part q nd])
  have start: "?Z u" if "guarded g u" "adm g link L u" for u
    using that nolink assms(2) sibling_location[of u link L c, OF _ link _ nd] part q
    by (auto simp: bringing_def guarded_def sane_def adm_def)
  have clear: "triple (on_fs (\<lambda>u. guarded g u \<and> adm g link L u)) (clear_stale P part)
      (\<lambda>_. on_fs (\<lambda>u. guarded g u \<and> ?Z u)) ?E"
  proof -
    have un: "triple (on_fs (\<lambda>u. guarded g u \<and> ?Z u)) (os_unlink P part) (\<lambda>_. on_fs (\<lambda>u. guarded g u \<and> ?Z u)) ?E"
      unfolding os_unlink_def
    proof (rule triple_sys[OF assms(1)])
      fix n u x v assume u: "guarded g u \<and> ?Z u" and f: "do_unlink part n u = Inr (x, v)"
      have "\<And>p. locate u False part = Inr p \<Longrightarrow> p = q" using u by (simp add: bringing_def)
      with do_unlinkD[OF f] have g: "gentle {q} {} u v" and gone: "lookup v q = None" by auto
      have "guarded g v"
        by (rule inv_tmp[OF assms(2) conjunct1[OF u] g]) (use tm gone in \<open>auto simp: is_link_def\<close>)
      moreover have "?Z v"
        by (rule bringing_gentle[OF g _ _ link part q nd conjunct2[OF u]]) (use gone in \<open>simp_all add: is_link_def\<close>)
      ultimately show "(guarded g v \<and> ?Z v) \<and> guarded g v" by blast
    qed simp
    have lx: "triple (on_fs (\<lambda>u. guarded g u \<and> ?Z u)) (lexists P part) (\<lambda>_. on_fs (\<lambda>u. guarded g u \<and> ?Z u)) ?E"
      unfolding lexists_def
      by (rule triple_conseq[OF triple_look'[OF assms(1), of "\<lambda>u. guarded g u \<and> ?Z u"]]) auto
    have "triple (on_fs (\<lambda>u. guarded g u \<and> ?Z u)) (clear_stale P part) (\<lambda>_. on_fs (\<lambda>u. guarded g u \<and> ?Z u)) ?E"
      unfolding clear_stale_def by (rule triple_bind[OF lx], rule triple_if, rule un, rule triple_ret)
    then show ?thesis by (rule triple_pre) (use start in blast)
  qed
  have copy: "triple (on_fs (\<lambda>u. guarded g u \<and> ?Z u)) (copy_and_hash P ?d part)
      (\<lambda>copy s. \<exists>i dd j. copy = (digest P dd, length dd, j) \<and> on_fs (\<lambda>u. guarded g u \<and> copying g ?d ?Z q i dd j u) s) ?E"
  proof (rule triple_copy_and_hash[OF assms(1,2) tm(2) cl])
    show "?Z v" if "gentle {q} {} u v" "lookup v q = Some (File j)" "?Z u" for u v j
      by (rule bringing_gentle[OF that(1) _ _ link part q nd that(3)]) (use that(2) in simp_all)
    show "p = ?d" if z: "?Z u" and l: "locate u False ?d = Inr p" for u p
    proof -
      have L: "locate u False link = Inr L" "strict_prefix (g_scratch g) L" using z by (simp_all add: bringing_def adm_def)
      have "plain u L" by (rule locate_result_plain[OF L(1)])
      then have dots: "''.'' \<notin> set (drop (length (g_scratch g)) L)" "''..'' \<notin> set (drop (length (g_scratch g)) L)"
        using set_drop_subset[of "length (g_scratch g)" L] by (auto simp: plain_def)
      have rne: "drop (length (g_scratch g)) L \<noteq> []" using L(2) by (auto simp: strict_prefix_def prefix_def)
      show ?thesis
        unfolding dest_of_def
        by (rule locate_linkfree[OF _ _ dots rne]) (use z l in \<open>auto simp: bringing_def dest_of_def\<close>)
    qed
    show "p = q" if "?Z u" "locate u False part = Inr p" for u p using that by (simp add: bringing_def)
  qed
  have ren: "triple (on_fs (\<lambda>u. guarded g u \<and> verified g ?d ?Z q i dd j u)) (os_replace P part link)
      (\<lambda>_. on_fs (\<lambda>u. guarded g u \<and> brought g L u)) ?E" for i dd j
    unfolding os_replace_def
    by (rule triple_sys[OF assms(1)]) (use back_step[OF assms(2) sp tm(2)] in blast)+
  have fin: "triple (on_fs (\<lambda>u. guarded g u \<and> brought g L u)) (bindE (fsync_dir P (butlast link)) (\<lambda>_. retE True)) ?Q ?E"
  proof -
    let ?I = "on_fs (\<lambda>u. guarded g u \<and> brought g L u)"
    have "triple ?I (bindE (fsync_dir P (butlast link)) (\<lambda>_. retE True)) ?Q ?I"
      by (rule triple_bind[OF triple_fsync_dir[OF assms(1)]]) (auto intro!: triple_ret)
    then show ?thesis by (rule triple_conseq) auto
  qed
  have rest: "triple (on_fs (\<lambda>u. guarded g u \<and> (ok \<longrightarrow> verified g ?d ?Z q i dd j u)))
      (if \<not> ok then retE False
       else bindE (os_replace P part link) (\<lambda>_. bindE (fsync_dir P (butlast link)) (\<lambda>_. retE True))) ?Q ?E" for ok i dd j
    by (cases ok) (auto intro!: triple_ret triple_bind[OF ren fin])
  have body: "triple (on_fs (\<lambda>u. guarded g u \<and> adm g link L u))
     (bindE (clear_stale P part) (\<lambda>_. bindE (copy_and_hash P ?d part) (\<lambda>copy.
      bindE (checked_copy P part ?d tst copy) (\<lambda>ok.
        if \<not> ok then retE False
        else bindE (os_replace P part link) (\<lambda>_. bindE (fsync_dir P (butlast link)) (\<lambda>_. retE True)))))) ?Q ?E"
  proof (rule triple_bind[OF clear triple_bind[OF copy]], intro triple_ex triple_fact, simp only:)
    fix copy :: "string \<times> nat \<times> nat" and i dd j
    show "triple (on_fs (\<lambda>u. guarded g u \<and> copying g ?d ?Z q i dd j u))
       (bindE (checked_copy P part ?d tst (digest P dd, length dd, j)) (\<lambda>ok.
          if \<not> ok then retE False
          else bindE (os_replace P part link) (\<lambda>_. bindE (fsync_dir P (butlast link)) (\<lambda>_. retE True)))) ?Q ?E"
      by (rule triple_bind[OF triple_checked_copy[OF assms(1,2) dg tm(1) cl] rest])
  qed
  show ?thesis
    unfolding bring_back_def restore_copy_and_hash_def restore_fsync_dir_def
  proof (rule triple_catch[OF body])
    show "triple ?E (bindE (discard P part) (\<lambda>_. retE False)) ?Q ?E"
      by (rule triple_bind[OF triple_discard[OF assms(1,2) tm(1)]]) (auto intro: triple_ret)
  qed
qed

lemma triple_drop_cold:
  assumes "quiet P" and "sane g" and sp: "g_special g = []" "g_fds g = []"
  shows "triple (on_fs (\<lambda>u. guarded g u \<and> brought g L u)) (drop_cold P (dest_of g L) tst)
     (\<lambda>_. on_fs (guarded g)) (on_fs (guarded g))"
proof -
  let ?B = "on_fs (\<lambda>u. guarded g u \<and> brought g L u)"
  let ?E = "on_fs (guarded g)"
  have ch: "triple ?B (cold_changed P (dest_of g L) tst) (\<lambda>_. ?B) ?E"
  proof -
    have "triple ?B (cold_changed P (dest_of g L) tst) (\<lambda>_. ?B) ?B"
      unfolding cold_changed_def by (rule triple_bind[OF triple_stat_opt[OF assms(1)]]) (auto intro: triple_ret)
    then show ?thesis by (rule triple_conseq) auto
  qed
  have un: "triple ?B (os_unlink P (dest_of g L)) (\<lambda>_. ?E) ?E"
    unfolding os_unlink_def
    by (rule triple_sys[OF assms(1)]) (use drop_step[OF assms(2) sp] in blast)+
  have "triple ?B (catchE (bindE (os_unlink P (dest_of g L)) (\<lambda>_. restore_fsync_dir P (butlast (dest_of g L))))
      is_OSError (\<lambda>_. retE ())) (\<lambda>_. ?E) ?E"
    unfolding restore_fsync_dir_def
    by (rule triple_catch[OF triple_bind[OF un triple_fsync_dir[OF assms(1)]]]) (auto intro: triple_ret)
  then show ?thesis
    unfolding drop_cold_def by (intro triple_bind[OF ch] triple_if) (auto intro: triple_ret)
qed

lemma triple_restore_tmp:
  assumes "\<And>n. triple (on_fs A) (f (butlast p @ [tmp_name tag (urandom P n)])) Q E"
  shows "triple (on_fs A) (bindE (restore_tmp_sibling P p tag) f) Q E"
proof -
  have "triple (on_fs A) (restore_tmp_sibling P p tag)
      (\<lambda>r s. (\<exists>n. r = butlast p @ [tmp_name tag (urandom P n)]) \<and> on_fs A s) E"
    by (auto simp: restore_tmp_sibling_def tmp_sibling_def triple_def ask_def)
  then show ?thesis
  proof (rule triple_bind)
    fix r
    show "triple (\<lambda>s. (\<exists>n. r = butlast p @ [tmp_name tag (urandom P n)]) \<and> on_fs A s) (f r) Q E"
      by (rule triple_fact) (use assms in blast)
  qed
qed

text \<open>What the tool needs to know of its configuration.\<close>

definition restorable :: "plat \<Rightarrow> guard \<Rightarrow> bool" where
  "restorable P g \<longleftrightarrow> sane g \<and> g_digest g = digest P \<and> g_special g = [] \<and> g_fds g = [] \<and> drawn_free P g"

lemma restorableD:
  assumes "restorable P g"
  shows "sane g" "g_digest g = digest P" "g_special g = []" "g_fds g = []" "drawn_free P g"
  using assms by (simp_all add: restorable_def)

lemma triple_restore_from:
  assumes "quiet P" and r: "restorable P g" and dots: "last link \<noteq> ''.''" "last link \<noteq> ''..''"
  shows "triple (on_fs (\<lambda>u. guarded g u \<and> adm g link L u)) (restore_from P link keep (dest_of g L) tst)
     (\<lambda>_. on_fs (guarded g)) (on_fs (guarded g))"
  unfolding restore_from_def
proof (rule triple_restore_tmp)
  fix n
  note g = restorableD[OF r]
  let ?E = "on_fs (guarded g)"
  let ?c = "tmp_name ''sr'' (urandom P n)"
  have ne: "link \<noteq> []" if "adm g link L u" for u
    using that by (auto simp: adm_def locate_def is_link_def lookup_def)
  show "triple (on_fs (\<lambda>u. guarded g u \<and> adm g link L u))
    (bindE (bring_back P link (dest_of g L) tst (butlast link @ [?c])) (\<lambda>ok.
       if \<not> ok then retE False
       else bindE (if keep then retE () else drop_cold P (dest_of g L) tst) (\<lambda>_. retE True))) (\<lambda>_. ?E) ?E"
  proof (cases "link = []")
    case True
    with ne show ?thesis by (auto simp: triple_def)
  next
    case False
    have "last (butlast L @ [?c]) = ?c" by simp
    then have nl: "g_nolink g (butlast L @ [?c])" using g(5) unfolding drawn_free_def by blast
    show ?thesis
    proof (rule triple_bind[OF triple_bring_back[OF assms(1) g(1-4) False dots refl refl is_tmp_name(2) nl]])
      fix ok
      show "triple (on_fs (\<lambda>u. guarded g u \<and> (ok \<longrightarrow> brought g L u)))
        (if \<not> ok then retE False
         else bindE (if keep then retE () else drop_cold P (dest_of g L) tst) (\<lambda>_. retE True)) (\<lambda>_. ?E) ?E"
        using triple_drop_cold[OF assms(1) g(1,3,4), of L tst]
        by (cases ok; cases keep) (auto intro!: triple_ret intro: triple_bind)
    qed
  qed
qed

lemma triple_restore_target:
  assumes "quiet P" and "restorable P g" and "last link \<noteq> ''.''" and "last link \<noteq> ''..''"
  shows "triple (on_fs (\<lambda>u. guarded g u \<and> adm g link L u)) (restore_target P link keep (dest_of g L))
     (\<lambda>_. on_fs (guarded g)) (on_fs (guarded g))"
  unfolding restore_target_def
proof (rule triple_bind[where J = "\<lambda>_. on_fs (\<lambda>u. guarded g u \<and> adm g link L u)"])
  show "triple (on_fs (\<lambda>u. guarded g u \<and> adm g link L u))
    (catchE (bindE (os_stat P (dest_of g L)) (\<lambda>s. retE (Some s))) is_OSError (\<lambda>_. retE None))
    (\<lambda>_. on_fs (\<lambda>u. guarded g u \<and> adm g link L u)) (on_fs (guarded g))"
    by (rule triple_conseq[OF triple_stat_opt[OF assms(1), of "\<lambda>u. guarded g u \<and> adm g link L u"]]) auto
qed (auto split: option.splits intro!: triple_if triple_ret triple_restore_from[OF assms])

lemma triple_restore_one:
  assumes "quiet P" and r: "restorable P g" and "pairs = [(g_scratch g, g_cold g)]"
    and dots: "last link \<noteq> ''.''" "last link \<noteq> ''..''"
  shows "triple (on_fs (guarded g)) (restore_one P link scratch_roots cold_roots pairs keep)
     (\<lambda>_. on_fs (guarded g)) (on_fs (guarded g))"
  unfolding restore_one_def
proof (rule triple_bind[OF triple_pred_of[OF triple_admitted[OF assms(1) _ restorableD(1)[OF r] assms(3) dots]]])
  fix a :: "path option"
  have rt: "triple (\<lambda>s. \<exists>L. target = dest_of g L \<and> on_fs (\<lambda>u. guarded g u \<and> adm g link L u) s)
     (restore_target P link keep target) (\<lambda>_. on_fs (guarded g)) (on_fs (guarded g))" for target
    by (intro triple_ex triple_fact) (simp add: triple_restore_target[OF assms(1,2) dots])
  show "triple (on_fs (\<lambda>u. guarded g u \<and> (\<forall>t. a = Some t \<longrightarrow> (\<exists>L. adm g link L u \<and> t = dest_of g L))))
     (case a of None \<Rightarrow> retE False | Some target \<Rightarrow> restore_target P link keep target)
     (\<lambda>_. on_fs (guarded g)) (on_fs (guarded g))"
  proof (cases a)
    case (Some t)
    show ?thesis unfolding Some option.case by (rule triple_pre[OF rt[of t]]) blast
  qed (auto intro: triple_ret)
qed simp

section \<open>Directories and the command line\<close>

lemma triple_walk_links:
  assumes "quiet P"
    and body: "\<And>acc link. last link \<noteq> ''.'' \<Longrightarrow> last link \<noteq> ''..'' \<Longrightarrow>
       triple (on_fs A) (body acc link) (\<lambda>_. on_fs A) (on_fs A)"
  shows "triple (on_fs A) (walk_links m P body acc dir) (\<lambda>_. on_fs A) (on_fs A)"
proof (induction m arbitrary: acc dir)
  case 0
  show ?case by (auto intro: triple_halt)
next
  case (Suc m)
  let ?I = "on_fs A"
  let ?ok = "\<lambda>r. set (snd r) \<subseteq> {c. c \<noteq> ''.'' \<and> c \<noteq> ''..''}"
  have scan: "triple ?I (catchE (sys P (do_scandir dir)) is_OSError (\<lambda>_. retE ([], []))) (\<lambda>r s. ?ok r \<and> ?I s) ?I"
  proof (rule triple_catch[where F = ?I])
    show "triple ?I (sys P (do_scandir dir)) (\<lambda>r s. ?ok r \<and> ?I s) ?I"
    proof (rule triple_conseq[OF triple_sys[OF assms(1), where A = A and E = A and Q = "\<lambda>r v. ?ok r \<and> A v"]])
      fix n w x v assume "A w" and f: "do_scandir dir n w = Inr (x, v)"
      then show "(?ok x \<and> A v) \<and> A v"
        by (auto simp: do_scandir_def children_def split: sum.splits option.splits entry.splits)
    qed auto
  qed (auto intro!: triple_ret)
  have lk: "triple ?I (islink P p) (\<lambda>_. ?I) ?I" for p
    unfolding islink_def by (rule triple_look'[OF assms(1)])
  have files: "triple ?I (foldE (\<lambda>a name. bindE (islink P (dir @ [name])) (\<lambda>l. if l then body a (dir @ [name]) else retE a))
       acc fs) (\<lambda>_. ?I) ?I" if "set fs \<subseteq> {c. c \<noteq> ''.'' \<and> c \<noteq> ''..''}" for fs acc
    by (rule triple_foldE) (use that in \<open>auto intro!: triple_bind[OF lk] triple_if triple_ret body\<close>)
  have dirs: "triple ?I (foldE (\<lambda>a d. bindE (islink P (dir @ [d])) (\<lambda>l. if l then retE a
       else walk_links m P body a (dir @ [d]))) acc ds) (\<lambda>_. ?I) ?I" for ds acc
    by (rule triple_foldE) (auto intro!: triple_bind[OF lk] triple_if triple_ret Suc.IH)
  show ?case
    unfolding walk_links.simps
    by (rule triple_bind[OF scan], rule triple_fact)
      (auto split: prod.splits intro!: triple_bind[OF files dirs])
qed

definition pair_paths :: "string \<Rightarrow> path \<times> path" where
  "pair_paths m = (path_of (fst (partition_on (CHR ''='') m)), path_of (snd (snd (partition_on (CHR ''='') m))))"

text \<open>The arguments name one pair, and no path with dot components.\<close>

definition restore_config :: "restore_args \<Rightarrow> path \<Rightarrow> path \<Rightarrow> bool" where
  "restore_config args scratch cold \<longleftrightarrow>
     (\<exists>m. r_overflow_map args @ filter (\<lambda>m. m \<noteq> []) (split_on (CHR '';'') (r_env_map args)) = [m] \<and>
        contains m ''='' \<and> pair_paths m = (scratch, cold)) \<and>
     list_all (\<lambda>p. ''.'' \<notin> set (path_of p) \<and> ''..'' \<notin> set (path_of p)) (r_paths args)"

lemma realwalk_plain_dir:
  assumes "plain u p" and "is_dir u p"
  shows "realwalk n u [] p = p"
proof (rule realwalk_no_links[of p u "[]", simplified])
  fix k assume "0 < k" "k \<le> length p"
  then have "is_dir u (take k p)" using plain_dir[OF assms(1), of k] assms(2) by (cases "k = length p") auto
  then show "\<not> is_link u (take k p)" by (auto simp: is_dir_def is_link_def)
qed (use assms in \<open>auto simp: plain_def\<close>)

lemma triple_restore_main:
  assumes "quiet P" and r: "restorable P g" and cfg: "restore_config args (g_scratch g) (g_cold g)"
  shows "triple (on_fs (guarded g)) (restore_main P args) (\<lambda>_. on_fs (guarded g)) (on_fs (guarded g))"
proof -
  let ?I = "on_fs (guarded g)"
  obtain m where m: "r_overflow_map args @ filter (\<lambda>m. m \<noteq> []) (split_on (CHR '';'') (r_env_map args)) = [m]"
      "contains m ''=''" "pair_paths m = (g_scratch g, g_cold g)"
    using cfg by (auto simp: restore_config_def)
  have roots: "triple ?I (build_roots P vs e) (\<lambda>_. ?I) ?I" for vs e
  proof -
    have "triple ?I (mapE (\<lambda>r. os_realpath P (path_of r)) xs) (\<lambda>_. ?I) ?I" for xs
      by (induction xs) (auto intro!: triple_ret triple_bind[OF triple_realpath'[OF assms(1)]] intro: triple_bind)
    then show ?thesis unfolding build_roots_def by (rule triple_bind) (auto intro: triple_ret)
  qed
  have rp: "triple ?I (os_realpath P p) (\<lambda>r s. (p \<in> {g_scratch g, g_cold g} \<longrightarrow> r = p) \<and> ?I s) ?I" for p
    unfolding os_realpath_def
    by (rule triple_conseq[OF triple_look[OF assms(1), where A = "guarded g" and E = "guarded g"]])
      (auto simp: guarded_def realwalk_plain_dir)
  have pairs: "triple ?I (build_pairs P args) (\<lambda>ps s. ps = [(g_scratch g, g_cold g)] \<and> ?I s) ?I"
  proof -
    have "triple ?I (read_pair P m) (\<lambda>ps s. ps = [(g_scratch g, g_cold g)] \<and> ?I s) ?I"
      unfolding read_pair_def using m(2,3)
      by (auto simp: pair_paths_def split: prod.splits intro!: triple_bind[OF rp] triple_fact triple_ret)
    then show ?thesis
      unfolding build_pairs_def m(1) mapE.simps
      by (auto simp: bindE_assoc intro!: triple_bind triple_fact triple_ret)
  qed
  have body: "triple ?I (restore_path P sr cr [(g_scratch g, g_cold g)] keep acc p) (\<lambda>_. ?I) ?I"
    if dots: "''.'' \<notin> set p" "''..'' \<notin> set p" for sr cr keep acc p
  proof -
    have one: "triple ?I (restore_one P link sr cr [(g_scratch g, g_cold g)] keep) (\<lambda>_. ?I) ?I"
      if "last link \<noteq> ''.''" "last link \<noteq> ''..''" for link
      by (rule triple_restore_one[OF assms(1) r refl that])
    have cnt: "triple ?I (count_link P sr cr [(g_scratch g, g_cold g)] keep acc link) (\<lambda>_. ?I) ?I"
      if "last link \<noteq> ''.''" "last link \<noteq> ''..''" for acc link
      unfolding count_link_def by (rule triple_bind[OF one[OF that]]) (auto intro: triple_ret)
    have lk: "triple ?I (islink P p) (\<lambda>_. ?I) ?I" "triple ?I (isdir P p) (\<lambda>_. ?I) ?I"
      unfolding islink_def isdir_def by (rule triple_look'[OF assms(1)])+
    have probe: "triple ?I (bindE (isdir P p) (\<lambda>d. if d then bindE (islink P p) (\<lambda>l. retE (\<not> l)) else retE False))
        (\<lambda>_. ?I) ?I"
      by (auto intro!: triple_bind[OF lk(2)] triple_bind[OF lk(1)] triple_if triple_ret)
    have single: "triple ?I (bindE (restore_one P p sr cr [(g_scratch g, g_cold g)] keep) (\<lambda>ok.
         if ok then retE (fst acc + 1, snd acc)
         else bindE (islink P p) (\<lambda>l. retE (if l then (fst acc, snd acc + 1) else acc)))) (\<lambda>_. ?I) ?I"
    proof (cases "p = []")
      case True
      have "triple ?I (restore_one P [] sr cr [(g_scratch g, g_cold g)] keep) (\<lambda>_. ?I) ?I"
      proof -
        have "triple ?I (islink P []) (\<lambda>l s. \<not> l \<and> ?I s) ?I"
          unfolding islink_def
          by (rule triple_conseq[OF triple_look[OF assms(1), where A = "guarded g" and E = "guarded g"]])
            (auto simp: path_is_def do_stat_def locate_def lookup_def entry_stat_def plain_stat_def)
        then have "triple ?I (admitted P [] sr cr [(g_scratch g, g_cold g)]) (\<lambda>a s. a = None \<and> ?I s) ?I"
          unfolding admitted_def by (rule triple_bind) (auto intro!: triple_fact triple_ret)
        then show ?thesis
          unfolding restore_one_def by (rule triple_bind) (auto intro!: triple_fact triple_ret)
      qed
      note r1 = this
      from lk(1) show ?thesis
        unfolding True by (auto intro!: triple_bind[OF r1] triple_if triple_ret intro: triple_bind)
    next
      case False
      then have "last p \<noteq> ''.''" "last p \<noteq> ''..''" using dots last_in_set[of p] by metis+
      then show ?thesis by (auto intro!: triple_bind[OF one] triple_if triple_ret triple_bind[OF lk(1)])
    qed
    show ?thesis
      unfolding restore_path_def
      by (rule triple_bind[OF probe triple_if[OF triple_walk_links[OF assms(1) cnt] single]])
  qed
  show ?thesis
    unfolding restore_main_def
  proof (rule triple_bind[OF roots], rule triple_if[OF triple_ret triple_bind[OF roots triple_bind[OF pairs triple_fact]]])
    fix cr sr ps assume ps: "ps = [(g_scratch g, g_cold g)]"
    have f: "triple ?I (foldE (restore_path P sr cr ps (r_keep_cold args)) (0, 0) (map path_of (r_paths args))) (\<lambda>_. ?I) ?I"
      by (rule triple_foldE) (use cfg ps in \<open>auto simp: restore_config_def list_all_iff intro!: body\<close>)
    show "triple ?I (bindE (foldE (restore_path P sr cr ps (r_keep_cold args)) (0, 0) (map path_of (r_paths args)))
        (\<lambda>(restored, failed). retE (if failed \<noteq> 0 then 1 else 0))) (\<lambda>_. ?I) ?I"
      by (rule triple_bind[OF f]) (auto split: prod.splits intro: triple_ret)
  qed
qed

end
