(* ===== verification/Scratch_Claims.thy ===== *)
theory Scratch_Claims
  imports Scratch_Sweeps Scratch_Restore_Safe
begin

text \<open>
  The properties of the scratch tools, with a small file system to run them on: \<open>/s\<close> is the
  scratch area and \<open>/c\<close> the cold one.
\<close>

section \<open>An example\<close>

definition ex_plat :: plat where
  "ex_plat = \<lparr>fault = (\<lambda>_. Pass), env = (\<lambda>_ u. u), stored = (\<lambda>_ s. s), accepts = (\<lambda>_. 100),
     urandom = (\<lambda>n. str_nat n), clock_ns = (\<lambda>n. 1000000000000000 + int n), blocks = (\<lambda>s. length s),
     digest = (\<lambda>s. s), zpool_list = (\<lambda>_ _. Ok (0, ''100 90 10'')), mounted = (\<lambda>_. True),
     is_root = True, fuel = 5\<rparr>"

definition ex_inode :: "string \<Rightarrow> nat \<Rightarrow> inode" where
  "ex_inode d uid = \<lparr>i_data = d, i_uid = uid, i_gid = 100, i_mode = 420, i_atime = 0, i_mtime = 0,
     i_ctime = 0, i_synced = True\<rparr>"

definition ex_dir :: entry where
  "ex_dir = Folder \<lparr>d_uid = 0, d_gid = 0, d_mode = 493\<rparr>"

definition ex_fs :: fs where
  "ex_fs = \<lparr>entries = [([''s''], ex_dir), ([''c''], ex_dir), ([''s'', ''u''], ex_dir),
       ([''s'', ''u'', ''a''], File 1), ([''s'', ''b''], File 2)],
     inodes = [(1, ex_inode ''alpha'' 7), (2, ex_inode ''beta'' 8)]\<rparr>"

definition ex_overflow :: overflow_args where
  "ex_overflow = \<lparr>o_scratch = [''s''], o_cold = [''c''], o_high = 85, o_low = 75, o_min_age_days = 1,
     o_max_idle_days = 0, o_dry_run = False\<rparr>"

definition ex_ost :: "fs \<Rightarrow> ost" where
  "ex_ost u = \<lparr>fsys = u, tick = 0\<rparr>"

text \<open>Reading is evaluated without computing with the chunk size when little is left to read.\<close>

definition read_chunk :: "nat \<Rightarrow> nat \<Rightarrow> nat \<Rightarrow> fs \<Rightarrow> errno + (string \<times> fs)" where
  "read_chunk i off n u = do_read COPY_CHUNK i off n u"

lemma do_read_COPY_CHUNK [code_unfold]: "do_read COPY_CHUNK = read_chunk"
  by (simp add: fun_eq_iff read_chunk_def)

lemma read_chunk_code [code]:
  "read_chunk i off n u =
     (case data_of u i of None \<Rightarrow> Inl EIO
      | Some d \<Rightarrow> let r = drop off d in Inr (if length r < 64 then r else take COPY_CHUNK r, u))"
  by (simp add: read_chunk_def do_read_def Let_def COPY_CHUNK_def split: option.splits)

definition ex_files :: "(path \<times> string) list" where
  "ex_files = [([''s'', ''u'', ''a''], ''alpha''), ([''s'', ''b''], ''beta'')]"

lemma ex_no_link: "\<not> is_link ex_fs q"
  by (simp add: is_link_def lookup_def ex_fs_def ex_dir_def)

lemma ex_files_ok: "files_ok ex_fs"
  by (simp add: files_ok_def lookup_def ex_fs_def inode_of_def ex_dir_def)

lemma ex_quiet: "quiet ex_plat"
  by (simp add: quiet_def ex_plat_def)

lemma ex_sane: "sane (overflow_guard ex_plat ex_overflow ex_files)"
  by (simp add: sane_def overflow_guard_def ex_overflow_def ex_files_def is_tmp_def startswith_def endswith_def
      NOTE_NAME_def ARCHIVE_DIR_def manifest_file_def strict_prefix_def suffix_def)

lemma ex_guarded: "guarded (overflow_guard ex_plat ex_overflow ex_files\<lparr>g_plain := [[''s'', ''b'']], g_fds := []\<rparr>) ex_fs"
  using ex_no_link ex_files_ok
  by (simp add: guarded_def overflow_guard_def ex_overflow_def ex_files_def kept_def holds_def plain_def
      is_dir_def lookup_def ex_fs_def ex_dir_def data_of_def inode_of_def ex_inode_def NOTE_NAME_def
      ARCHIVE_DIR_def manifest_file_def)

definition ex_archived :: fs where
  "ex_archived = \<lparr>entries = [([''s''], ex_dir), ([''c''], ex_dir), ([''s'', ''a''], ex_dir), ([''c'', ''a''], ex_dir),
       ([''c'', ''a'', ''k''], File 1), ([''s'', ''a'', ''k''], Symlink True [''c'', ''a'', ''k''])],
     inodes = [(1, ex_inode ''alpha'' 7)]\<rparr>"

definition ex_restore :: "string \<Rightarrow> restore_args" where
  "ex_restore p = \<lparr>r_paths = [p], r_keep_cold = False, r_cold_root = [''/c''], r_scratch_root = [''/s''],
     r_overflow_map = [''/s=/c''], r_env_cold = [], r_env_scratch = [], r_env_map = []\<rparr>"

definition restore_guard :: "plat \<Rightarrow> path \<Rightarrow> path \<Rightarrow> (path \<times> string) list \<Rightarrow> guard" where
  "restore_guard P scratch cold files =
     \<lparr>g_digest = digest P, g_scratch = scratch, g_cold = cold, g_files = files, g_plain = [],
      g_special = [], g_fds = [],
      g_nolink = (\<lambda>q. prefix cold q \<or> q \<noteq> [] \<and> (\<exists>n. last q = tmp_name ''sr'' (urandom P n)))\<rparr>"

lemma ex_restore_config: "restore_config (ex_restore ''/s/a/k'') [''s''] [''c'']"
  by (simp add: restore_config_def ex_restore_def contains_def pair_paths_def partition_on_def path_of_def
      sublist_code)

lemma ex_restore_sane: "sane (restore_guard ex_plat [''s''] [''c''] [([''s'', ''a'', ''k''], ''alpha'')])"
  by (simp add: sane_def restore_guard_def is_tmp_def startswith_def)

lemma ex_restore_guarded:
  "guarded (restore_guard ex_plat [''s''] [''c''] [([''s'', ''a'', ''k''], ''alpha'')]) ex_archived"
  by (auto simp: guarded_def restore_guard_def kept_def holds_def plain_def dest_of_def is_link_def files_ok_def
      is_dir_def lookup_def ex_archived_def ex_dir_def data_of_def inode_of_def ex_inode_def tmp_name_def
      split: if_splits)

text \<open>Another process writes to inode 1 just before call \<open>k\<close>.\<close>

definition late_write :: "nat \<Rightarrow> nat \<Rightarrow> fs \<Rightarrow> fs" where
  "late_write k n u =
     (if n = k then set_inode 1 ((ex_inode ''omega'' 7)\<lparr>i_mtime := int k, i_ctime := int k\<rparr>) u else u)"

section \<open>Properties\<close>

text \<open>
  C37. The overflow job loses no data. The files listed in \<open>files\<close> can be read before the run, and
  nothing else writes to the file system: then, whatever calls fail, take effect and fail, or are
  the one during which the process is killed, and whatever bytes the cold storage really stores,
  each file can still be read through its path afterwards, with contents of the same hash.
\<close>

theorem overflow_loses_nothing:
  assumes "quiet P" and "sane (overflow_guard P args files)" and "o_scratch args \<noteq> []"
    and "guarded (overflow_guard P args files) (fsys s)" and "(p, d) \<in> set files"
  shows "\<exists>d'. content (fsys (snd (overflow_main P args s))) p = Some d' \<and> digest P d' = digest P d"
proof -
  let ?g = "overflow_guard P args files"
  have "on_fs (guarded ?g) (snd (overflow_main P args s))"
    by (rule triple_snd[OF triple_overflow_main[OF assms(1) refl assms(2,3)]]) (simp add: assms(4))
  then have "kept ?g (fsys (snd (overflow_main P args s))) p d"
    using assms(5) by (auto simp: guarded_def overflow_guard_def)
  from kept_content[OF this] show ?thesis by (simp add: overflow_guard_def)
qed

lemma overflow_loses_nothing_witness:
  "\<exists>d'. content (fsys (snd (overflow_main ex_plat ex_overflow (ex_ost ex_fs)))) [''s'', ''b''] = Some d' \<and>
     digest ex_plat d' = digest ex_plat ''beta''"
  by (rule overflow_loses_nothing[OF ex_quiet ex_sane])
    (use guarded_forget[OF _ _ ex_guarded] in
      \<open>simp_all add: ex_overflow_def ex_files_def ex_ost_def overflow_guard_def\<close>)

text \<open>
  C38. Restoring loses no data. Take a command line and environment that name exactly one pair of a scratch and a cold
  area and give paths without \<open>.\<close> and \<open>..\<close> components. As long as nothing else writes to the file system and the cold
  area holds no symbolic links, every file in \<open>files\<close>, archived or not, can be read through its path
  after \<open>scratch-restore\<close>, for any links it is given, any faults and a kill at any call.
\<close>

theorem restore_loses_nothing:
  assumes "quiet P" and "sane (restore_guard P scratch cold files)" and "restore_config args scratch cold"
    and "guarded (restore_guard P scratch cold files) (fsys s)" and "(p, d) \<in> set files"
  shows "\<exists>d'. content (fsys (snd (restore_main P args s))) p = Some d' \<and> digest P d' = digest P d"
proof -
  let ?g = "restore_guard P scratch cold files"
  have "restorable P ?g" using assms(2) by (auto simp: restorable_def restore_guard_def drawn_free_def)
  moreover have "restore_config args (g_scratch ?g) (g_cold ?g)" using assms(3) by (simp add: restore_guard_def)
  ultimately have "on_fs (guarded ?g) (snd (restore_main P args s))"
    by (rule triple_snd[OF triple_restore_main[OF assms(1)]]) (simp add: assms(4))
  then have "kept ?g (fsys (snd (restore_main P args s))) p d"
    using assms(5) by (auto simp: guarded_def restore_guard_def)
  from kept_content[OF this] show ?thesis by (simp add: restore_guard_def)
qed

lemma restore_loses_nothing_witness:
  "\<exists>d'. content (fsys (snd (restore_main ex_plat (ex_restore ''/s/a/k'') (ex_ost ex_archived)))) [''s'', ''a'', ''k''] =
     Some d' \<and> digest ex_plat d' = digest ex_plat ''alpha''"
  by (rule restore_loses_nothing[OF ex_quiet ex_restore_sane ex_restore_config])
    (use ex_restore_guarded in \<open>simp_all add: ex_ost_def\<close>)

text \<open>
  C39. A file reported as archived has been replaced by an absolute link to its place in the cold
  area, and the file there has the hash of the data that was at the path.
\<close>

theorem archived_file_is_linked:
  assumes "quiet P" and "g = overflow_guard P args files\<lparr>g_plain := [path], g_fds := fds\<rparr>" and "sane g"
    and "guarded g (fsys s)" and "(path, d) \<in> set files"
    and "set_option fp \<subseteq> set fds"
    and "archive_one P path (o_scratch args) (o_cold args) fp False reason s = (Ok n, t)" and "n \<noteq> 0"
  shows "lookup (fsys t) path = Some (Symlink True (dest_of g path)) \<and>
    (\<exists>d'. content (fsys t) (dest_of g path) = Some d' \<and> digest P d' = digest P d)"
proof -
  have sel: "g_scratch g = o_scratch args" "g_cold g = o_cold args" "g_digest g = digest P"
      "g_plain g = [path]" "g_fds g = fds" "g_files g = files"
    by (simp_all add: assms(2) overflow_guard_def)
  have "archivable g path"
    using assms(3,5) by (auto simp: archivable_def sane_def sel) (simp add: assms(2) overflow_guard_def)
  from triple_archive_one[OF assms(1,3) sel(3) this, of fp False reason] have
    tr: "triple (on_fs (guarded g)) (archive_one P path (o_scratch args) (o_cold args) fp False reason)
      (\<lambda>n. on_fs (linked_if g path (n \<noteq> 0))) (on_fs (guarded g))"
    using assms(6) by (simp add: sel)
  have "linked_if g path (n \<noteq> 0) (fsys t)" by (rule tripleD[OF tr _ assms(7)]) (use assms(4) in simp)
  then have l: "lookup (fsys t) path = Some (Symlink True (dest_of g path))" and "guarded g (fsys t)"
    using assms(8) by (simp_all add: linked_if_def)
  then have "plain (fsys t) (dest_of g path)" "holds g (fsys t) (dest_of g path) d"
    using assms(5) by (auto simp: guarded_def kept_def holds_def sel)
  then show ?thesis using l by (auto simp: holds_def content_plain sel)
qed

lemma archived_file_is_linked_witness:
  "lookup (fsys (snd (archive_one ex_plat [''s'', ''b''] [''s''] [''c''] None False ''ttl'' (ex_ost ex_fs)))) [''s'', ''b''] =
     Some (Symlink True [''c'', ''b''])"
proof -
  let ?g = "overflow_guard ex_plat ex_overflow ex_files\<lparr>g_plain := [[''s'', ''b'']], g_fds := []\<rparr>"
  have "guarded ?g ex_fs" by (rule ex_guarded)
  moreover have "sane ?g" using ex_sane by simp
  moreover have "fst (archive_one ex_plat [''s'', ''b''] [''s''] [''c''] None False ''ttl'' (ex_ost ex_fs)) = Ok 2048"
    by code_simp
  ultimately show ?thesis
    using archived_file_is_linked[OF ex_quiet refl, where args = ex_overflow and files = ex_files and fds = "[]"
        and path = "[''s'', ''b'']" and s = "ex_ost ex_fs" and d = "''beta''" and fp = None and reason = "''ttl''"
        and n = 2048 and t = "snd (archive_one ex_plat [''s'', ''b''] [''s''] [''c''] None False ''ttl'' (ex_ost ex_fs))"]
    by (simp add: ex_overflow_def ex_files_def ex_ost_def dest_of_def overflow_guard_def prod_eq_iff)
qed

text \<open>
  What the walk selects: each candidate describes, with its size and last use, a regular,
  nonempty file whose access, modification and change times are all no later than the cutoff, and
  the list is ordered by last use, larger files first. The walk changes nothing.
\<close>

theorem candidates_exact:
  assumes "quiet P" and "gather_candidates P scratch cutoff skip_dirs skip_exact s = (Ok cands, t)"
  shows "fsys t = fsys s \<and> list_all (cold_cand P cutoff (fsys s)) cands \<and>
     sorted (map (\<lambda>c. (fst c, - int (fst (snd c)))) cands)"
  using candidates_are_cold[OF assms] .

lemma candidates_exact_witness:
  "sorted (map (\<lambda>c. (fst c, - int (fst (snd c))))
     [(0, 5, [''s'', ''u'', ''a'']), (0, 4, [''s'', ''b''])] :: (rat \<times> int) list) \<and>
   list_all (cold_cand ex_plat 0 ex_fs) [(0, 5, [''s'', ''u'', ''a'']), (0, 4, [''s'', ''b''])]"
proof -
  have "gather_candidates ex_plat [''s''] 0 [] [] (ex_ost ex_fs) =
      (Ok [(0, 5, [''s'', ''u'', ''a'']), (0, 4, [''s'', ''b''])],
       snd (gather_candidates ex_plat [''s''] 0 [] [] (ex_ost ex_fs)))"
    by code_simp
  from candidates_exact[OF ex_quiet this] show ?thesis by (simp add: ex_ost_def)
qed



text \<open>
  A dry run, and a run without both areas mounted, leave the file system as it was; the latter
  ends at once, with exit code 0 or 1.
\<close>

theorem overflow_touches_nothing:
  assumes "quiet P" and "o_dry_run args \<or> \<not> mounted P (o_scratch args) \<or> \<not> mounted P (o_cold args)"
  shows "fsys (snd (overflow_main P args s)) = fsys s \<and>
    (\<not> mounted P (o_scratch args) \<longrightarrow> overflow_main P args s = (Ok 0, s)) \<and>
    (mounted P (o_scratch args) \<longrightarrow> \<not> mounted P (o_cold args) \<longrightarrow>
       overflow_main P args s = (Exc (SystemExit 1), s))"
proof (cases "o_dry_run args")
  case True
  with keeps_dry_main[OF assms(1) True] show ?thesis
    by (auto simp: keeps_def same_fs_def overflow_main_def die_def retE_def raiseE_def)
qed (use assms(2) in \<open>auto simp: overflow_main_def die_def retE_def raiseE_def\<close>)

lemma overflow_touches_nothing_witness:
  "fsys (snd (overflow_main ex_plat (ex_overflow\<lparr>o_dry_run := True\<rparr>) (ex_ost ex_fs))) = ex_fs"
  using overflow_touches_nothing[OF ex_quiet, of "ex_overflow\<lparr>o_dry_run := True\<rparr>" "ex_ost ex_fs"]
  by (simp add: ex_ost_def)

text \<open>
  The source is checked for changes once, before the link is swapped in. A write between the
  two (here just before call 29, when the path still leads to the file) is silently lost: the file
  is reported as archived, and the path gives the old data.
\<close>

theorem late_write_is_lost:
  "let P = ex_plat\<lparr>env := late_write 29\<rparr>;
       r = archive_one P [''s'', ''u'', ''a''] [''s''] [''c''] None False ''ttl'' (ex_ost ex_fs)
   in fst r = Ok 2560 \<and> content (fsys (snd r)) [''s'', ''u'', ''a''] = Some ''alpha'' \<and>
      data_of (late_write 29 29 ex_fs) 1 = Some ''omega'' \<and>
      lookup (fsys (snd (archive_one (P\<lparr>fault := \<lambda>n. if n = 30 then Die else Pass\<rparr>)
        [''s'', ''u'', ''a''] [''s''] [''c''] None False ''ttl'' (ex_ost ex_fs)))) [''s'', ''u'', ''a''] = Some (File 1)"
  by code_simp

text \<open>
  A file that occupies no blocks is archived, but \<open>archive_one\<close> then returns 0, which means
  that it was skipped: the sweep counts neither the file nor its bytes.
\<close>

theorem sparse_file_not_counted:
  "let r = archive_one (ex_plat\<lparr>blocks := \<lambda>_. 0\<rparr>) [''s'', ''b''] [''s''] [''c''] None False ''ttl'' (ex_ost ex_fs);
       u = fsys (snd r)
   in fst r = Ok 0 \<and> lookup u [''s'', ''b''] = Some (Symlink True [''c'', ''b'']) \<and>
      content u [''s'', ''b''] = Some ''beta''"
  by code_simp

end
