(* ===== verification/Json.thy ===== *)
theory Json
  imports Effects
begin

text \<open>
  JSON documents as Python sees them after \<open>json.loads\<close>, and the ways the programs read them:
  \<open>j[k]\<close>, which raises, \<open>j.get(k)\<close>, which does not, and truth values. Numbers are integers; an
  object is a dictionary with distinct keys.
\<close>

datatype json = JNull | JBool bool | JNum int | JStr string | JArr "json list" | JObj "(string \<times> json) list"

definition truthy :: "json \<Rightarrow> bool" where
  "truthy j =
     (case j of JNull \<Rightarrow> False | JBool b \<Rightarrow> b | JNum n \<Rightarrow> n \<noteq> 0 | JStr s \<Rightarrow> s \<noteq> []
      | JArr xs \<Rightarrow> xs \<noteq> [] | JObj d \<Rightarrow> d \<noteq> [])"

text \<open>\<open>j.get(k)\<close>; anything but an object has no such method.\<close>

definition get_key :: "string \<Rightarrow> json \<Rightarrow> ('s, json option) eff" where
  "get_key k j = (case j of JObj d \<Rightarrow> retE (dict_get d k) | _ \<Rightarrow> raiseE AttributeError)"

text \<open>\<open>j[k]\<close> for a string \<open>k\<close>.\<close>

definition field :: "string \<Rightarrow> json \<Rightarrow> ('s, json) eff" where
  "field k j =
     (case j of
        JObj d \<Rightarrow> (case dict_get d k of None \<Rightarrow> raiseE KeyError | Some v \<Rightarrow> retE v)
      | _ \<Rightarrow> raiseE TypeError)"

text \<open>What may be an element of a set or a key of a dictionary.\<close>

definition hashable :: "json \<Rightarrow> bool" where
  "hashable j = (case j of JArr _ \<Rightarrow> False | JObj _ \<Rightarrow> False | _ \<Rightarrow> True)"

text \<open>A value used where only a string, or a number, or a list makes sense.\<close>

definition as_str :: "json \<Rightarrow> ('s, string) eff" where
  "as_str j = (case j of JStr s \<Rightarrow> retE s | _ \<Rightarrow> raiseE TypeError)"

definition as_int :: "json \<Rightarrow> ('s, int) eff" where
  "as_int j = (case j of JNum n \<Rightarrow> retE n | _ \<Rightarrow> raiseE TypeError)"

definition as_list :: "json \<Rightarrow> ('s, json list) eff" where
  "as_list j = (case j of JArr xs \<Rightarrow> retE xs | _ \<Rightarrow> raiseE TypeError)"

text \<open>\<open>j.get(k) or dflt\<close>.\<close>

definition get_or :: "string \<Rightarrow> json \<Rightarrow> json \<Rightarrow> ('s, json) eff" where
  "get_or k j dflt =
     bindE (get_key k j) (\<lambda>v. retE (case v of Some x \<Rightarrow> if truthy x then x else dflt | None \<Rightarrow> dflt))"

text \<open>\<open>j[k]\<close> and \<open>j.get(k, dflt)\<close> for a text, and \<open>j.get(k, [])\<close>.\<close>

definition str_field :: "string \<Rightarrow> json \<Rightarrow> ('s, string) eff" where
  "str_field k j = bindE (field k j) as_str"

definition str_get :: "string \<Rightarrow> json \<Rightarrow> string \<Rightarrow> ('s, string) eff" where
  "str_get k j dflt =
     bindE (get_key k j) (\<lambda>v. case v of None \<Rightarrow> retE dflt | Some x \<Rightarrow> as_str x)"

definition list_get :: "string \<Rightarrow> json \<Rightarrow> ('s, json list) eff" where
  "list_get k j = bindE (get_key k j) (\<lambda>v. case v of None \<Rightarrow> retE [] | Some x \<Rightarrow> as_list x)"

lemmas json_reads = get_key_def field_def as_str_def as_int_def as_list_def

lemma ends_json [ends_intros]:
  "P AttributeError \<Longrightarrow> ends P (get_key k j)"
  "P KeyError \<Longrightarrow> P TypeError \<Longrightarrow> ends P (field k j)"
  "P TypeError \<Longrightarrow> ends P (as_str j)" "P TypeError \<Longrightarrow> ends P (as_int j)" "P TypeError \<Longrightarrow> ends P (as_list j)"
  by (auto simp: json_reads split: json.split option.split intro: ends_intros)

lemma ends_json_derived [ends_intros]:
  "P AttributeError \<Longrightarrow> ends P (get_or k j d)"
  "P KeyError \<Longrightarrow> P TypeError \<Longrightarrow> ends P (str_field k j)"
  "P AttributeError \<Longrightarrow> P TypeError \<Longrightarrow> ends P (str_get k j t)"
  "P AttributeError \<Longrightarrow> P TypeError \<Longrightarrow> ends P (list_get k j)"
  unfolding get_or_def str_field_def str_get_def list_get_def by (auto intro!: ends_intros split: option.split)

text \<open>Reading a document has no effect, so it respects every preorder on states.\<close>

context frame
begin

lemma keeps_json:
  "keeps R (get_key k j)" "keeps R (field k j)" "keeps R (as_str j)" "keeps R (as_int j)" "keeps R (as_list j)"
  by (auto simp: json_reads split: json.split option.split intro: keeps_ret keeps_raise)

lemma keeps_json_derived:
  "keeps R (get_or k j d)" "keeps R (str_field k j)" "keeps R (str_get k j t)" "keeps R (list_get k j)"
  unfolding get_or_def str_field_def str_get_def list_get_def
  by (auto intro!: keeps_rules keeps_json split: option.split)

end

end
