(* ===== verification/Outline_Api.thy ===== *)
theory Outline_Api
  imports Json
begin

text \<open>
  Model of the HTTP clients of \<open>nix/docker-compose/outline-group-sync/sync.py\<close> (class \<open>API\<close>):
  requests that stay under the configured base URL, and the two paginated listings. The server's
  answers, \<open>urljoin\<close> and the progress callback are parameters (\<open>http\<close>); the state keeps the list
  of the requests made, each with the token it carried and its answer. A \<open>SyncError\<close> keeps its message without the status code and the path.
\<close>

section \<open>Requests\<close>

record api =
  base :: string
  token :: string

text \<open>A request: the client's base URL and token, and the URL and the document it is sent with.\<close>

record call =
  c_base :: string
  c_token :: string
  c_url :: string
  c_body :: "json option"

datatype reply = HttpFailed | NotJson | Reply json

record 'w hst =
  hworld :: 'w
  calls :: "(call \<times> reply) list"

record 'w http =
  urljoin :: "string \<Rightarrow> string \<Rightarrow> string"
  send :: "call \<Rightarrow> 'w \<Rightarrow> reply \<times> 'w"
  heartbeat :: "'w \<Rightarrow> unit res \<times> 'w"

text \<open>The parts of \<open>urlsplit\<close> that are used, and \<open>rstrip("/")\<close>.\<close>

definition url_scheme :: "string \<Rightarrow> string" where
  "url_scheme u =
     (case partition_on (CHR '':'') u of (a, found, _) \<Rightarrow>
        if found \<and> a \<noteq> [] \<and> is_alpha (hd a) \<and>
           list_all (\<lambda>c. is_alpha c \<or> is_digit c \<or> List.member ''+-.'' c) a
        then lower a else [])"

definition url_fragment :: "string \<Rightarrow> string" where
  "url_fragment u = snd (snd (partition_on (CHR ''#'') u))"

definition rstrip_slash :: "string \<Rightarrow> string" where
  "rstrip_slash s = rev (dropWhile (\<lambda>c. c = CHR ''/'') (rev s))"

text \<open>\<open>API(base, token)\<close>.\<close>

definition new_api :: "string \<Rightarrow> string \<Rightarrow> ('w hst, api) eff" where
  "new_api url tok =
     (if url_scheme url \<noteq> ''https'' then raiseE (SyncError ''API URLs must use HTTPS'')
      else retE \<lparr>base = rstrip_slash url @ ''/'', token = tok\<rparr>)"

definition progress :: "'w http \<Rightarrow> ('w hst, unit) eff" where
  "progress H s = (case heartbeat H (hworld s) of (r, w) \<Rightarrow> (r, s\<lparr>hworld := w\<rparr>))"

definition transmit :: "'w http \<Rightarrow> call \<Rightarrow> ('w hst, reply) eff" where
  "transmit H c s =
     (case send H c (hworld s) of (r, w) \<Rightarrow> (Ok r, s\<lparr>hworld := w, calls := calls s @ [(c, r)]\<rparr>))"

definition answer :: "reply \<Rightarrow> ('w hst, json) eff" where
  "answer r =
     (case r of
        HttpFailed \<Rightarrow> raiseE (SyncError ''API request failed'')
      | NotJson \<Rightarrow> raiseE (SyncError ''API returned invalid JSON'')
      | Reply (JObj d) \<Rightarrow> retE (JObj d)
      | Reply _ \<Rightarrow> raiseE (SyncError ''API returned an unexpected response''))"

definition request :: "'w http \<Rightarrow> api \<Rightarrow> string \<Rightarrow> json option \<Rightarrow> ('w hst, json) eff" where
  "request H b path body =
     bindE (progress H) (\<lambda>_.
       let url = urljoin H (base b) path in
       if \<not> startswith url (base b) \<or> url_fragment url \<noteq> []
       then raiseE (SyncError ''API pagination escaped the configured base URL'')
       else bindE (transmit H \<lparr>c_base = base b, c_token = token b, c_url = url, c_body = body\<rparr>) answer)"

section \<open>Listings\<close>

text \<open>\<open>if row[k] in seen: raise\<close> for each row of a batch; \<open>seen\<close> holds the keys of the rows so far.\<close>

primrec check_new :: "string \<Rightarrow> string \<Rightarrow> json list \<Rightarrow> json list \<Rightarrow> ('w hst, json list) eff" where
  "check_new who k seen [] = retE seen"
| "check_new who k seen (row # batch) =
     bindE (field k row) (\<lambda>v.
       if \<not> hashable v then raiseE TypeError
       else if List.member seen v then raiseE (SyncError (''Duplicate '' @ who @ '' result during pagination''))
       else check_new who k (v # seen) batch)"

definition batch_of :: "string \<Rightarrow> json \<Rightarrow> ('w hst, json list) eff" where
  "batch_of who j =
     (case j of JArr xs \<Rightarrow> retE xs | _ \<Rightarrow> raiseE (SyncError (''Invalid '' @ who @ '' results'')))"

text \<open>One page of Authentik: total pages, count, whether there is a next page, and the rows.\<close>

definition ak_page :: "'w http \<Rightarrow> api \<Rightarrow> string \<Rightarrow> int \<Rightarrow> ('w hst, json \<times> json) eff" where
  "ak_page H b path page =
     bindE (request H b (path @ (if contains path ''?'' then ''&'' else ''?'') @ ''page='' @ str_int page @
              ''&page_size=100'') None) (\<lambda>result.
     bindE (field ''pagination'' result) (\<lambda>pagination. retE (result, pagination)))"

definition ak_counts :: "json \<Rightarrow> ('w hst, int \<times> int) eff" where
  "ak_counts pagination =
     bindE (field ''total_pages'' pagination) (\<lambda>p. bindE (as_int p) (\<lambda>pages.
     bindE (field ''count'' pagination) (\<lambda>c. bindE (as_int c) (\<lambda>count. retE (pages, count)))))"

function ak_pages :: "'w http \<Rightarrow> api \<Rightarrow> string \<Rightarrow> (int \<times> int) option \<Rightarrow> int \<Rightarrow> json list \<Rightarrow> json list \<Rightarrow>
    ('w hst, json list) eff" where
  "ak_pages H b path known page rows seen =
     bindE (ak_page H b path page) (\<lambda>(result, pagination).
     bindE (ak_counts pagination) (\<lambda>now.
       let (pages, count) = (case known of None \<Rightarrow> now | Some k \<Rightarrow> k) in
       if now \<noteq> (pages, count) then raiseE (SyncError ''Authentik changed during pagination; retry'')
       else
         bindE (field ''results'' result) (\<lambda>res. bindE (batch_of ''Authentik'' res) (\<lambda>batch.
         bindE (check_new ''Authentik'' ''pk'' seen batch) (\<lambda>seen'.
         bindE (field ''next'' pagination) (\<lambda>next_page.
           if \<not> truthy next_page then
             (if int (length (rows @ batch)) \<noteq> count \<or> page \<noteq> max 1 pages
              then raiseE (SyncError ''Incomplete Authentik pagination'')
              else retE (rows @ batch))
           else if batch = [] \<or> pages \<le> page then raiseE (SyncError ''Invalid Authentik pagination'')
           else ak_pages H b path (Some (pages, count)) (page + 1) (rows @ batch) seen'))))))"
  by pat_completeness auto
termination
  by (relation "inv_image (less_than <*lex*> less_than)
        (\<lambda>(H, b, path, known, page, rows, seen).
           (case known of None \<Rightarrow> Suc 0 | Some k \<Rightarrow> 0, case known of None \<Rightarrow> 0 | Some k \<Rightarrow> nat (fst k - page)))")
     (auto split: option.splits)

declare ak_pages.simps [simp del]

text \<open>Induction over the pages: the totals are known from the second page on.\<close>

lemma ak_pages_induct [case_names page]:
  fixes Q :: "(int \<times> int) option \<Rightarrow> int \<Rightarrow> json list \<Rightarrow> json list \<Rightarrow> bool"
  assumes "\<And>known page rows seen.
    (\<And>p c batch seen'. known = None \<or> known = Some (p, c) \<Longrightarrow> page < p \<Longrightarrow> batch \<noteq> [] \<Longrightarrow>
       Q (Some (p, c)) (page + 1) (rows @ batch) seen') \<Longrightarrow> Q known page rows seen"
  shows "Q known page rows seen"
proof (induction "undefined :: 'w http" "undefined :: api" "[] :: string" known page rows seen rule: ak_pages.induct)
  case (1 known page rows seen)
  show ?case
  proof (rule assms)
    fix p c batch seen' assume "known = None \<or> known = Some (p, c)" "page < p" "batch \<noteq> ([] :: json list)"
    then show "Q (Some (p, c)) (page + 1) (rows @ batch) seen'"
      by (intro "1"[of "(p, c)" "(p, c)" p c "JBool True"]) (auto simp: truthy_def)
  qed
qed

definition authentik_list :: "'w http \<Rightarrow> api \<Rightarrow> string \<Rightarrow> ('w hst, json list) eff" where
  "authentik_list H b path = ak_pages H b path None 1 [] []"

definition outline_call :: "'w http \<Rightarrow> api \<Rightarrow> string \<Rightarrow> (string \<times> json) list \<Rightarrow> ('w hst, json) eff" where
  "outline_call H b meth body =
     bindE (request H b meth (Some (JObj body))) (\<lambda>result.
     bindE (get_key ''ok'' result) (\<lambda>okay.
       if okay \<noteq> Some (JBool True) then raiseE (SyncError (''Outline rejected '' @ meth)) else retE result))"

definition outline_page :: "'w http \<Rightarrow> api \<Rightarrow> string \<Rightarrow> string option \<Rightarrow> (string \<times> json) list \<Rightarrow> int \<Rightarrow>
    ('w hst, int \<times> json) eff" where
  "outline_page H b meth key body offset =
     bindE (outline_call H b meth ([(''offset'', JNum offset), (''limit'', JNum 100)] @ body)) (\<lambda>result.
     bindE (field ''pagination'' result) (\<lambda>pagination.
     bindE (field ''total'' pagination) (\<lambda>t. bindE (as_int t) (\<lambda>current_total.
       retE (current_total, result)))))"

definition outline_data :: "string option \<Rightarrow> json \<Rightarrow> ('w hst, json) eff" where
  "outline_data key result =
     bindE (field ''data'' result) (\<lambda>d. case key of None \<Rightarrow> retE d | Some k \<Rightarrow> field k d)"

function outline_pages :: "'w http \<Rightarrow> api \<Rightarrow> string \<Rightarrow> string option \<Rightarrow> (string \<times> json) list \<Rightarrow> int option \<Rightarrow>
    int \<Rightarrow> json list \<Rightarrow> json list \<Rightarrow> ('w hst, json list) eff" where
  "outline_pages H b meth key body known offset rows seen =
     bindE (outline_page H b meth key body offset) (\<lambda>(current_total, result).
       let t = (case known of None \<Rightarrow> current_total | Some k \<Rightarrow> k) in
       if current_total \<noteq> t then raiseE (SyncError ''Outline changed during pagination; retry'')
       else
         bindE (outline_data key result) (\<lambda>res. bindE (batch_of ''Outline'' res) (\<lambda>batch.
         bindE (check_new ''Outline'' ''id'' seen batch) (\<lambda>seen'.
           let offset' = offset + int (length batch) in
           if offset' = t then retE (rows @ batch)
           else if batch = [] \<or> t < offset' then raiseE (SyncError ''Incomplete Outline pagination'')
           else outline_pages H b meth key body (Some t) offset' (rows @ batch) seen'))))"
  by pat_completeness auto
termination
  by (relation "inv_image (less_than <*lex*> less_than)
        (\<lambda>(H, b, meth, key, body, known, offset, rows, seen).
           (case known of None \<Rightarrow> Suc 0 | Some k \<Rightarrow> 0, case known of None \<Rightarrow> 0 | Some k \<Rightarrow> nat (k - offset)))")
     (auto split: option.splits)

declare outline_pages.simps [simp del]

lemma outline_pages_induct [case_names page]:
  fixes Q :: "int option \<Rightarrow> int \<Rightarrow> json list \<Rightarrow> json list \<Rightarrow> bool"
  assumes "\<And>known offset rows seen.
    (\<And>t batch seen'. known = None \<or> known = Some t \<Longrightarrow> offset + int (length batch) < t \<Longrightarrow> batch \<noteq> [] \<Longrightarrow>
       Q (Some t) (offset + int (length batch)) (rows @ batch) seen') \<Longrightarrow> Q known offset rows seen"
  shows "Q known offset rows seen"
proof (induction "undefined :: 'w http" "undefined :: api" "[] :: string" "None :: string option"
    "[] :: (string \<times> json) list" known offset rows seen rule: outline_pages.induct)
  case (1 known offset rows seen)
  show ?case
  proof (rule assms)
    fix t batch seen' assume "known = None \<or> known = Some t" "offset + int (length batch) < t" "batch \<noteq> ([] :: json list)"
    then show "Q (Some t) (offset + int (length batch)) (rows @ batch) seen'"
      by (intro "1"[of t t "offset + int (length batch)" batch]) auto
  qed
qed

definition outline_list :: "'w http \<Rightarrow> api \<Rightarrow> string \<Rightarrow> string option \<Rightarrow> (string \<times> json) list \<Rightarrow> ('w hst, json list) eff" where
  "outline_list H b meth key body = outline_pages H b meth key body None 0 [] []"

end
