(* ===== verification/Outline_Sync.thy ===== *)
theory Outline_Sync
  imports Outline_Api
begin

text \<open>
  Model of the synchronisation in \<open>nix/docker-compose/outline-group-sync/sync.py\<close>: the plan that
  turns an Authentik snapshot and an Outline snapshot into group operations, its application, and
  \<open>reconcile\<close>, with the activity of \<open>worker.py\<close>. Rows are read into records when a listing is
  complete; \<open>fromisoformat\<close> and \<open>float\<close> of a text are parameters (\<open>host\<close>).
\<close>

section \<open>Rows\<close>

record ak_group =
  g_pk :: string
  g_name :: string

text \<open>A field that is missing is \<open>None\<close>; the code reads it only for users it would add.\<close>

record ak_user =
  u_email :: string
  u_active :: "bool option"
  u_type :: "string option"
  u_groups :: "string list option"

record ol_group =
  ol_id :: string
  ol_name :: string
  ol_external :: string
  ol_external_group :: bool

record ol_user =
  m_id :: string
  m_email :: string
  m_suspended :: bool
  m_role :: string

text \<open>\<open>row.get(k)\<close> for a text: anything else counts as empty.\<close>

definition text_of :: "json option \<Rightarrow> string" where
  "text_of v = (case v of Some (JStr s) \<Rightarrow> s | _ \<Rightarrow> [])"

definition email :: "json option \<Rightarrow> string" where
  "email v = lower (strip (text_of v))"

definition truthy_opt :: "json option \<Rightarrow> bool" where
  "truthy_opt v = (case v of None \<Rightarrow> False | Some j \<Rightarrow> truthy j)"

definition read_ak_group :: "json \<Rightarrow> ('s, ak_group) eff" where
  "read_ak_group j =
     bindE (field ''pk'' j) (\<lambda>p. bindE (as_str p) (\<lambda>pk.
     bindE (field ''name'' j) (\<lambda>n. bindE (as_str n) (\<lambda>name. retE \<lparr>g_pk = pk, g_name = name\<rparr>))))"

definition read_ak_user :: "json \<Rightarrow> ('s, ak_user) eff" where
  "read_ak_user j =
     bindE (get_key ''email'' j) (\<lambda>e.
     bindE (get_key ''is_active'' j) (\<lambda>a.
     bindE (get_key ''type'' j) (\<lambda>t.
     bindE (get_key ''groups'' j) (\<lambda>g.
       retE \<lparr>u_email = email e, u_active = map_option (\<lambda>v. v = JBool True) a,
         u_type = map_option (\<lambda>v. text_of (Some v)) t,
         u_groups = map_option (\<lambda>v. case v of JArr xs \<Rightarrow> map (\<lambda>x. text_of (Some x)) xs | _ \<Rightarrow> []) g\<rparr>))))"

definition read_ol_group :: "json \<Rightarrow> ('s, ol_group) eff" where
  "read_ol_group j =
     bindE (field ''id'' j) (\<lambda>i. bindE (as_str i) (\<lambda>gid.
     bindE (field ''name'' j) (\<lambda>n. bindE (as_str n) (\<lambda>name.
     bindE (get_key ''externalId'' j) (\<lambda>x. bindE (get_key ''externalGroup'' j) (\<lambda>eg.
       retE \<lparr>ol_id = gid, ol_name = name, ol_external = text_of x, ol_external_group = truthy_opt eg\<rparr>))))))"

definition read_ol_user :: "json \<Rightarrow> ('s, ol_user) eff" where
  "read_ol_user j =
     bindE (field ''id'' j) (\<lambda>i. bindE (as_str i) (\<lambda>uid.
     bindE (get_key ''email'' j) (\<lambda>e. bindE (get_key ''isSuspended'' j) (\<lambda>su. bindE (get_key ''role'' j) (\<lambda>r.
       retE \<lparr>m_id = uid, m_email = email e, m_suspended = truthy_opt su, m_role = text_of r\<rparr>)))))"

section \<open>The plan\<close>

primrec index_from :: "(string \<times> 'a) list \<Rightarrow> ('a \<Rightarrow> string) \<Rightarrow> 'a list \<Rightarrow> ('s, (string \<times> 'a) list) eff" where
  "index_from result key [] = retE result"
| "index_from result key (row # rows) =
     (if key row = [] \<or> dict_get result (key row) \<noteq> None
      then raiseE (SyncError ''Missing or duplicate identity in snapshot'')
      else index_from (dict_set (key row) row result) key rows)"

definition index_unique :: "'a list \<Rightarrow> ('a \<Rightarrow> string) \<Rightarrow> ('s, (string \<times> 'a) list) eff" where
  "index_unique rows key = index_from [] key rows"

datatype gop =
    UpdateGroup string string string
  | CreateGroup string string
  | AddUser string string
  | RemoveUser string string

text \<open>\<open>x[k]\<close> for a field that may be missing.\<close>

definition need :: "'a option \<Rightarrow> ('s, 'a) eff" where
  "need x = (case x of None \<Rightarrow> raiseE KeyError | Some v \<Rightarrow> retE v)"

text \<open>The groups that one Outline user should be in, by address.\<close>

definition user_groups :: "(string \<times> ak_user) list \<Rightarrow> string \<Rightarrow> ol_user \<Rightarrow> ('s, string list) eff" where
  "user_groups ak_by_email address user =
     (case dict_get ak_by_email address of
        None \<Rightarrow> retE []
      | Some ak \<Rightarrow>
          bindE (need (u_active ak)) (\<lambda>active.
            if \<not> active then retE []
            else bindE (need (u_type ak)) (\<lambda>t.
              if t \<noteq> ''internal'' then retE []
              else if m_suspended user \<or> m_role user = ''guest'' then retE []
              else need (u_groups ak))))"

text \<open>For each user that is kept, the user's id and groups: \<open>desired_members\<close> by user.\<close>

definition desired_table :: "(string \<times> ak_user) list \<Rightarrow> (string \<times> ol_user) list \<Rightarrow>
    ('s, (string \<times> string list) list) eff" where
  "desired_table ak_by_email ol_by_email =
     mapE (\<lambda>(address, user). bindE (user_groups ak_by_email address user) (\<lambda>gs. retE (m_id user, gs))) ol_by_email"

definition desired_for :: "(string \<times> string list) list \<Rightarrow> string \<Rightarrow> string list" where
  "desired_for table pk = map fst (filter (\<lambda>e. List.member (snd e) pk) table)"

text \<open>\<open>sorted(a - b)\<close> of two sets.\<close>

definition sorted_diff :: "string list \<Rightarrow> string list \<Rightarrow> string list" where
  "sorted_diff a b = sort (remdups (filter (\<lambda>x. \<not> List.member b x) a))"

definition member_ops :: "string \<Rightarrow> string list \<Rightarrow> string list \<Rightarrow> gop list" where
  "member_ops gid desired current =
     map (AddUser gid) (sorted_diff desired current) @ map (RemoveUser gid) (sorted_diff current desired)"

definition external_prefix :: "string \<Rightarrow> string" where
  "external_prefix source_id = ''krg-ldap:'' @ source_id @ '':''"

text \<open>The Outline group of an LDAP group: by external id, else by name.\<close>

definition find_target :: "(string \<times> ol_group) list \<Rightarrow> (string \<times> ol_group) list \<Rightarrow> string \<Rightarrow> string \<Rightarrow>
    ('s, ol_group option) eff" where
  "find_target by_external by_name external_id name =
     (case (dict_get by_external external_id, dict_get by_name name) of
        (Some t, Some n) \<Rightarrow>
          if ol_id t \<noteq> ol_id n then raiseE (SyncError ''LDAP rename collides with another Outline group'')
          else retE (Some t)
      | (Some t, None) \<Rightarrow> retE (Some t)
      | (None, n) \<Rightarrow> retE n)"

definition plan_group :: "string \<Rightarrow> (string \<times> ol_group) list \<Rightarrow> (string \<times> ol_group) list \<Rightarrow>
    (string \<times> string list) list \<Rightarrow> (string \<times> string list) list \<Rightarrow> gop list \<times> string list \<Rightarrow>
    string \<times> ak_group \<Rightarrow> ('s, gop list \<times> string list) eff" where
  "plan_group pre by_external by_name table memberships acc entry =
     (case (acc, entry) of ((ops, used), (pk, source)) \<Rightarrow>
        let external_id = pre @ pk in
        bindE (find_target by_external by_name external_id (g_name source)) (\<lambda>target.
          case target of
            None \<Rightarrow>
              retE (ops @ CreateGroup (g_name source) external_id # member_ops external_id (desired_for table pk) [], used)
          | Some t \<Rightarrow>
              if ol_external_group t \<or> \<not> (ol_external t = [] \<or> ol_external t = external_id)
              then raiseE (SyncError ''Outline group belongs to another external source'')
              else if List.member used (ol_id t)
              then raiseE (SyncError ''Multiple LDAP groups map to one Outline group'')
              else bindE (need (dict_get memberships (ol_id t))) (\<lambda>current.
                retE (ops @
                    (if ol_external t \<noteq> external_id \<or> ol_name t \<noteq> g_name source
                     then [UpdateGroup (ol_id t) (g_name source) external_id] else []) @
                    member_ops (ol_id t) (desired_for table pk) current,
                  used @ [ol_id t]))))"

text \<open>A managed group whose LDAP group is gone is emptied.\<close>

definition retire_group :: "string \<Rightarrow> string list \<Rightarrow> (string \<times> string list) list \<Rightarrow> gop list \<Rightarrow> ol_group \<Rightarrow>
    ('s, gop list) eff" where
  "retire_group pre used memberships ops grp =
     (if startswith (ol_external grp) pre \<and> \<not> List.member used (ol_id grp) then
        (if ol_external_group grp
         then raiseE (SyncError ''Managed group is now owned by an external provider'')
         else bindE (need (dict_get memberships (ol_id grp))) (\<lambda>current.
           retE (ops @ map (RemoveUser (ol_id grp)) (sorted_diff current []))))
      else retE ops)"

definition plan_sync :: "string \<Rightarrow> ak_group list \<Rightarrow> ak_user list \<Rightarrow> ol_group list \<Rightarrow> ol_user list \<Rightarrow>
    (string \<times> string list) list \<Rightarrow> ('s, gop list) eff" where
  "plan_sync source_id ldap_groups ak_users outline_groups outline_users memberships =
     (let pre = external_prefix source_id in
      bindE (index_unique ldap_groups g_pk) (\<lambda>desired_groups.
      bindE (index_unique ldap_groups g_name) (\<lambda>_.
      bindE (index_unique outline_groups ol_name) (\<lambda>by_name.
      bindE (index_unique (filter (\<lambda>g. ol_external g \<noteq> []) outline_groups) ol_external) (\<lambda>by_external.
      bindE (index_unique (filter (\<lambda>u. u_email u \<noteq> []) ak_users) u_email) (\<lambda>ak_by_email.
      bindE (index_unique outline_users m_email) (\<lambda>ol_by_email.
      bindE (desired_table ak_by_email ol_by_email) (\<lambda>table.
      bindE (foldE (plan_group pre by_external by_name table memberships) ([], [])
               (sort_key fst desired_groups)) (\<lambda>(ops, used).
        foldE (retire_group pre used memberships) ops outline_groups)))))))))"

section \<open>Applying a plan\<close>

definition op_method :: "gop \<Rightarrow> string" where
  "op_method op =
     (case op of UpdateGroup _ _ _ \<Rightarrow> ''groups.update'' | CreateGroup _ _ \<Rightarrow> ''groups.create''
      | AddUser _ _ \<Rightarrow> ''groups.add_user'' | RemoveUser _ _ \<Rightarrow> ''groups.remove_user'')"

text \<open>The body of the call, with the group's id looked up among those created in this run.\<close>

definition op_body :: "(string \<times> string) list \<Rightarrow> gop \<Rightarrow> (string \<times> json) list" where
  "op_body created op =
     (let gid = (\<lambda>i. JStr (case dict_get created i of None \<Rightarrow> i | Some n \<Rightarrow> n)) in
      case op of
        UpdateGroup i name ext \<Rightarrow> [(''id'', gid i), (''name'', JStr name), (''externalId'', JStr ext)]
      | CreateGroup name ext \<Rightarrow> [(''name'', JStr name), (''externalId'', JStr ext)]
      | AddUser i u \<Rightarrow> [(''id'', gid i), (''userId'', JStr u)]
      | RemoveUser i u \<Rightarrow> [(''id'', gid i), (''userId'', JStr u)])"

definition apply_op :: "'w http \<Rightarrow> api \<Rightarrow> (string \<times> string) list \<Rightarrow> gop \<Rightarrow> ('w hst, (string \<times> string) list) eff" where
  "apply_op H b created op =
     bindE (progress H) (\<lambda>_.
     bindE (outline_call H b (op_method op) (op_body created op)) (\<lambda>result.
       case op of
         CreateGroup name ext \<Rightarrow>
           bindE (field ''data'' result) (\<lambda>d. bindE (field ''id'' d) (\<lambda>i. bindE (as_str i) (\<lambda>gid.
             retE (dict_set ext gid created))))
       | _ \<Rightarrow> retE created))"

definition apply_plan :: "'w http \<Rightarrow> api \<Rightarrow> gop list \<Rightarrow> ('w hst, (string \<times> string) list) eff" where
  "apply_plan H b ops = foldE (apply_op H b) [] ops"

section \<open>Reconciling\<close>

record 'w host =
  net :: "'w http"
  now_utc :: "'w \<Rightarrow> rat"
  fromisoformat :: "string \<Rightarrow> rat option"
  to_float :: "string \<Rightarrow> rat option"

text \<open>\<open>s.replace("Z", "+00:00")\<close>.\<close>

definition zulu :: "string \<Rightarrow> string" where
  "zulu s = concat (map (\<lambda>c. if c = CHR ''Z'' then ''+00:00'' else [c]) s)"

definition assert_sync_healthy :: "'w host \<Rightarrow> json \<Rightarrow> rat \<Rightarrow> ('w hst, unit) eff" where
  "assert_sync_healthy E status max_age_hours =
     bindE (get_key ''is_running'' status) (\<lambda>r.
     if r \<noteq> Some (JBool False) then raiseE (SyncError ''LDAP sync is running or its status is unknown'')
     else bindE (get_key ''last_sync_status'' status) (\<lambda>l.
     if \<not> (l = Some (JStr ''done'') \<or> l = Some (JStr ''info''))
     then raiseE (SyncError ''LDAP last sync was not successful'')
     else bindE
       (catchE
         (bindE (field ''last_successful_sync'' status) (\<lambda>t.
            case t of
              JStr s \<Rightarrow> (case fromisoformat E (zulu s) of None \<Rightarrow> raiseE ValueError
                        | Some t0 \<Rightarrow> getE (\<lambda>st. now_utc E (hworld st) - t0))
            | _ \<Rightarrow> raiseE AttributeError))
         (\<lambda>e. e = KeyError \<or> e = TypeError \<or> e = ValueError)
         (\<lambda>_. raiseE (SyncError ''LDAP sync has no valid successful timestamp''))) (\<lambda>age.
       if age < - 300 \<or> max_age_hours * 3600 < age then raiseE (SyncError ''LDAP sync snapshot is stale'')
       else retE ())))"

text \<open>\<open>quote(s, safe="")\<close> of ASCII text.\<close>

definition hex_digit :: "nat \<Rightarrow> char" where
  "hex_digit n = (if n < 10 then char_of (48 + n) else char_of (55 + n))"

definition quote :: "string \<Rightarrow> string" where
  "quote s = concat (map (\<lambda>c.
     if is_alpha c \<or> is_digit c \<or> List.member ''_.-~'' c then [c]
     else [CHR ''%'', hex_digit (of_char c div 16), hex_digit (of_char c mod 16)]) s)"

definition read_membership :: "json \<Rightarrow> ('s, string) eff" where
  "read_membership row = bindE (field ''userId'' row) as_str"

definition group_members :: "'w http \<Rightarrow> api \<Rightarrow> string \<Rightarrow> string list \<Rightarrow> (string \<times> string list) list \<Rightarrow>
    ol_group \<Rightarrow> ('w hst, (string \<times> string list) list) eff" where
  "group_members H b pre relevant memberships grp =
     (if List.member relevant (ol_name grp) \<or> startswith (ol_external grp) pre then
        bindE (progress H) (\<lambda>_.
        bindE (outline_list H b ''groups.memberships'' (Some ''groupMemberships'') [(''id'', JStr (ol_id grp))]) (\<lambda>rows.
        bindE (mapE read_membership rows) (\<lambda>us. retE (dict_set (ol_id grp) us memberships))))
      else retE memberships)"

definition linked_group :: "json \<Rightarrow> json \<Rightarrow> ('s, json list) eff" where
  "linked_group source_id link =
     bindE (field ''source'' link) (\<lambda>s.
       if s = source_id then bindE (field ''group'' link) (\<lambda>g. retE [g]) else retE [])"

text \<open>The Authentik half of the snapshot.\<close>

definition read_directory :: "'w http \<Rightarrow> api \<Rightarrow> json \<Rightarrow> ('w hst, ak_group list \<times> ak_user list) eff" where
  "read_directory H ak source_id =
     bindE (authentik_list H ak ''sources/group_connections/ldap/'') (\<lambda>links.
     bindE (mapE (linked_group source_id) links) (\<lambda>gss.
       let group_ids = concat gss in
       if group_ids = []
       then raiseE (SyncError ''No LDAP-backed groups found; refusing an empty directory snapshot'')
       else
         bindE (progress H) (\<lambda>_.
         bindE (authentik_list H ak ''core/groups/'') (\<lambda>gs.
         bindE (mapE read_ak_group gs) (\<lambda>all_groups.
           let ldap_groups = filter (\<lambda>g. List.member group_ids (JStr (g_pk g))) all_groups in
           if \<not> list_all (\<lambda>i. list_ex (\<lambda>g. i = JStr (g_pk g)) ldap_groups) group_ids
           then raiseE (SyncError ''LDAP group source connections reference unreadable groups'')
           else
             bindE (authentik_list H ak ''core/users/'') (\<lambda>us.
             bindE (mapE read_ak_user us) (\<lambda>users. retE (ldap_groups, users))))))))"

text \<open>The Outline half: users, groups, and the members of the groups that may be managed.\<close>

definition read_outline :: "'w http \<Rightarrow> api \<Rightarrow> string \<Rightarrow> ak_group list \<Rightarrow>
    ('w hst, ol_user list \<times> ol_group list \<times> (string \<times> string list) list) eff" where
  "read_outline H ol pre ldap_groups =
     bindE (progress H) (\<lambda>_.
     bindE (outline_list H ol ''users.list'' None []) (\<lambda>us. bindE (mapE read_ol_user us) (\<lambda>ol_users.
     bindE (outline_list H ol ''groups.list'' (Some ''groups'') []) (\<lambda>gs. bindE (mapE read_ol_group gs) (\<lambda>ol_groups.
     bindE (foldE (group_members H ol pre (map g_name ldap_groups)) [] ol_groups) (\<lambda>memberships.
       retE (ol_users, ol_groups, memberships)))))))"

definition read_status :: "'w host \<Rightarrow> api \<Rightarrow> string \<Rightarrow> rat \<Rightarrow> ('w hst, json) eff" where
  "read_status E ak source_path max_age_hours =
     bindE (request (net E) ak (source_path @ ''sync/status/'') None) (\<lambda>status.
     bindE (assert_sync_healthy E status max_age_hours) (\<lambda>_. retE status))"

definition check_source :: "json \<Rightarrow> ('s, unit) eff" where
  "check_source source =
     bindE (field ''enabled'' source) (\<lambda>en.
       if en \<noteq> JBool True then raiseE (SyncError ''LDAP source is disabled or does not sync groups'')
       else bindE (field ''sync_groups'' source) (\<lambda>sg.
         if sg \<noteq> JBool True then raiseE (SyncError ''LDAP source is disabled or does not sync groups'')
         else retE ()))"

text \<open>Everything up to the plan: only reads.\<close>

definition make_plan :: "'w host \<Rightarrow> api \<Rightarrow> api \<Rightarrow> string \<Rightarrow> rat \<Rightarrow> ('w hst, gop list) eff" where
  "make_plan E ak ol source_slug max_age_hours =
     (let source_path = ''sources/ldap/'' @ quote source_slug @ ''/'' in
      bindE (request (net E) ak source_path None) (\<lambda>source.
      bindE (check_source source) (\<lambda>_.
      bindE (read_status E ak source_path max_age_hours) (\<lambda>earlier.
      bindE (field ''pk'' source) (\<lambda>pk. bindE (as_str pk) (\<lambda>source_id.
      bindE (read_directory (net E) ak pk) (\<lambda>(ldap_groups, users).
      bindE (read_outline (net E) ol (external_prefix source_id) ldap_groups) (\<lambda>(ol_users, ol_groups, memberships).
      bindE (read_status E ak source_path max_age_hours) (\<lambda>after.
        if earlier \<noteq> after then raiseE (SyncError ''LDAP sync changed while reading; retry'')
        else plan_sync source_id ldap_groups users ol_groups ol_users memberships)))))))))"

definition reconcile :: "'w host \<Rightarrow> api \<Rightarrow> api \<Rightarrow> string \<Rightarrow> bool \<Rightarrow> rat \<Rightarrow> ('w hst, bool \<times> gop list) eff" where
  "reconcile E ak ol source_slug apply_changes max_age_hours =
     bindE (make_plan E ak ol source_slug max_age_hours) (\<lambda>ops.
     bindE (if apply_changes then bindE (apply_plan (net E) ol ops) (\<lambda>_. retE ()) else retE ()) (\<lambda>_.
       retE (apply_changes, ops)))"

section \<open>The environment and the activity\<close>

definition env_get :: "(string \<times> string) list \<Rightarrow> string \<Rightarrow> string \<Rightarrow> string" where
  "env_get env k dflt = (case dict_get env k of None \<Rightarrow> dflt | Some v \<Rightarrow> v)"

definition from_env :: "'w host \<Rightarrow> (string \<times> string) list \<Rightarrow> bool \<Rightarrow> ('w hst, bool \<times> gop list) eff" where
  "from_env E env apply_changes =
     bindE (need (dict_get env ''AUTHENTIK_URL'')) (\<lambda>au. bindE (need (dict_get env ''AUTHENTIK_TOKEN'')) (\<lambda>atok.
     bindE (new_api au atok) (\<lambda>ak.
     bindE (need (dict_get env ''OUTLINE_URL'')) (\<lambda>ou. bindE (need (dict_get env ''OUTLINE_TOKEN'')) (\<lambda>otok.
     bindE (new_api ou otok) (\<lambda>ol.
       case to_float E (env_get env ''LDAP_MAX_AGE_HOURS'' ''24'') of
         None \<Rightarrow> raiseE ValueError
       | Some hours \<Rightarrow>
           reconcile E ak ol (env_get env ''AUTHENTIK_LDAP_SOURCE'' ''krg-samba-ad'') apply_changes hours))))))"

text \<open>\<open>Counter\<close> of the methods, in order of first occurrence.\<close>

definition count_methods :: "gop list \<Rightarrow> (string \<times> nat) list" where
  "count_methods ops =
     foldl (\<lambda>d op. dict_set (op_method op) (Suc (case dict_get d (op_method op) of None \<Rightarrow> 0 | Some n \<Rightarrow> n)) d) [] ops"

definition reconcile_outline_groups :: "'w host \<Rightarrow> (string \<times> string) list \<Rightarrow>
    ('w hst, bool \<times> (string \<times> nat) list) eff" where
  "reconcile_outline_groups E env =
     (let a = lower (env_get env ''SYNC_APPLY'' ''false'') in
      if a \<noteq> ''true'' \<and> a \<noteq> ''false'' then raiseE ValueError
      else bindE (from_env E env (a = ''true'')) (\<lambda>(applied, ops). retE (applied, count_methods ops)))"

end
