(* ===== verification/Outline_Correct.thy ===== *)
theory Outline_Correct
  imports Outline_Sync
begin

text \<open>
  What a plan achieves. \<open>exec\<close> says what the operations of a plan mean for the members of the
  Outline groups; the lemmas describe a plan as the concatenation of what is planned for each LDAP
  group and each retired group, and follow one group's members through it.
\<close>

section \<open>Loops and dictionaries\<close>

lemma dict_set_new: "k \<notin> set (dict_keys d) \<Longrightarrow> dict_set k v d = d @ [(k, v)]"
  unfolding dict_set_def dict_keys_def by (induction d) auto

lemma dict_keys_append [simp]: "dict_keys (d @ e) = dict_keys d @ dict_keys e"
  by (simp add: dict_keys_def)

lemma yields_index_from:
  "distinct (dict_keys acc) \<Longrightarrow> yields (index_from acc key rows)
     (\<lambda>d. d = acc @ map (\<lambda>r. (key r, r)) rows \<and> distinct (dict_keys d) \<and> list_all (\<lambda>r. key r \<noteq> []) rows)"
proof (induction rows arbitrary: acc)
  case (Cons r rows)
  show ?case
    by (auto intro!: yields_raise yields_conseq[OF Cons.IH] simp: Cons.prems dict_set_new)
qed (auto intro: yields_ret)

lemma yields_index_unique:
  "yields (index_unique rows key)
     (\<lambda>d. d = map (\<lambda>r. (key r, r)) rows \<and> distinct (map key rows) \<and> list_all (\<lambda>r. key r \<noteq> []) rows)"
  unfolding index_unique_def
  by (rule yields_conseq[OF yields_index_from]) (auto simp: dict_keys_def comp_def)

lemma dict_get_index:
  "dict_get (map (\<lambda>r. (key r, r)) rows) k = Some r \<Longrightarrow> r \<in> set rows \<and> key r = k"
  by (auto simp: dict_get_def dest!: map_of_SomeD)

lemma dict_get_indexI:
  "distinct (map key rows) \<Longrightarrow> r \<in> set rows \<Longrightarrow> dict_get (map (\<lambda>r. (key r, r)) rows) (key r) = Some r"
  by (auto simp: dict_get_def comp_def intro!: map_of_is_SomeI)

section \<open>What operations mean\<close>

type_synonym members = "string \<Rightarrow> string set"

primrec op_group :: "gop \<Rightarrow> string" where
  "op_group (UpdateGroup i name ext) = i"
| "op_group (CreateGroup name ext) = ext"
| "op_group (AddUser i u) = i"
| "op_group (RemoveUser i u) = i"

primrec exec_op :: "gop \<Rightarrow> members \<Rightarrow> members" where
  "exec_op (UpdateGroup i name ext) M = M"
| "exec_op (CreateGroup name ext) M = M(ext := {})"
| "exec_op (AddUser i u) M = M(i := insert u (M i))"
| "exec_op (RemoveUser i u) M = M(i := M i - {u})"

definition exec :: "gop list \<Rightarrow> members \<Rightarrow> members" where
  "exec ops M = fold exec_op ops M"

lemma exec_simps [simp]:
  "exec [] M = M" "exec (op # ops) M = exec ops (exec_op op M)" "exec (a @ b) M = exec b (exec a M)"
  by (simp_all add: exec_def)

lemma exec_other: "list_all (\<lambda>op. op_group op \<noteq> x) ops \<Longrightarrow> exec ops M x = M x"
proof (induction ops arbitrary: M)
  case (Cons op ops)
  then show ?case by (cases op) auto
qed simp

lemma exec_adds: "exec (map (AddUser i) us) M = M(i := M i \<union> set us)"
  by (induction us arbitrary: M) (auto simp: fun_eq_iff)

lemma exec_removes: "exec (map (RemoveUser i) us) M = M(i := M i - set us)"
  by (induction us arbitrary: M) (auto simp: fun_eq_iff)

lemma set_sorted_diff [simp]: "set (sorted_diff a b) = set a - set b"
  by (auto simp: sorted_diff_def)

lemma exec_member_ops:
  "M i = set current \<Longrightarrow> exec (member_ops i desired current) M = M(i := set desired)"
  by (auto simp: member_ops_def exec_adds exec_removes fun_eq_iff)

lemma op_group_member_ops [simp]: "list_all (\<lambda>op. op_group op = i) (member_ops i desired current)"
  by (auto simp: member_ops_def list_all_iff)

section \<open>The plan for one group\<close>

definition target_of :: "(string \<times> ol_group) list \<Rightarrow> (string \<times> ol_group) list \<Rightarrow> string \<Rightarrow> string \<times> ak_group \<Rightarrow>
    ol_group option" where
  "target_of by_external by_name pre e =
     (case dict_get by_external (pre @ fst e) of Some t \<Rightarrow> Some t | None \<Rightarrow> dict_get by_name (g_name (snd e)))"

definition synced_id :: "(string \<times> ol_group) list \<Rightarrow> (string \<times> ol_group) list \<Rightarrow> string \<Rightarrow> string \<times> ak_group \<Rightarrow> string" where
  "synced_id by_external by_name pre e =
     (case target_of by_external by_name pre e of None \<Rightarrow> pre @ fst e | Some t \<Rightarrow> ol_id t)"

definition group_ops :: "string \<Rightarrow> (string \<times> ol_group) list \<Rightarrow> (string \<times> ol_group) list \<Rightarrow>
    (string \<times> string list) list \<Rightarrow> (string \<times> string list) list \<Rightarrow> string \<times> ak_group \<Rightarrow> gop list" where
  "group_ops pre by_external by_name table memberships e =
     (case target_of by_external by_name pre e of
        None \<Rightarrow> CreateGroup (g_name (snd e)) (pre @ fst e) # member_ops (pre @ fst e) (desired_for table (fst e)) []
      | Some t \<Rightarrow>
          (if ol_external t \<noteq> pre @ fst e \<or> ol_name t \<noteq> g_name (snd e)
           then [UpdateGroup (ol_id t) (g_name (snd e)) (pre @ fst e)] else []) @
          member_ops (ol_id t) (desired_for table (fst e)) (the (dict_get memberships (ol_id t))))"

definition planned :: "string \<Rightarrow> (string \<times> ol_group) list \<Rightarrow> (string \<times> ol_group) list \<Rightarrow>
    (string \<times> string list) list \<Rightarrow> (string \<times> string list) list \<Rightarrow> (string \<times> ak_group) list \<Rightarrow>
    gop list \<times> string list \<Rightarrow> bool" where
  "planned pre by_external by_name table memberships es acc \<longleftrightarrow>
     fst acc = concat (map (group_ops pre by_external by_name table memberships) es) \<and>
     snd acc = concat (map (\<lambda>e. case target_of by_external by_name pre e of None \<Rightarrow> [] | Some t \<Rightarrow> [ol_id t]) es) \<and>
     distinct (snd acc) \<and>
     list_all (\<lambda>e. pred_option (\<lambda>t. dict_get memberships (ol_id t) \<noteq> None) (target_of by_external by_name pre e)) es"

lemma yields_find_target:
  "yields (find_target by_external by_name ext name)
     (\<lambda>r. r = (case dict_get by_external ext of Some t \<Rightarrow> Some t | None \<Rightarrow> dict_get by_name name))"
  unfolding find_target_def
  by (cases "dict_get by_external ext"; cases "dict_get by_name name")
    (simp_all add: yields_ret yields_raise del: dict_get_eq_None)

lemma yields_need: "yields (need x) (\<lambda>v. x = Some v)"
  by (auto simp: need_def split: option.split intro: yields_ret yields_raise)

lemma yields_plan_group:
  assumes "planned pre by_external by_name table memberships es acc"
  shows "yields (plan_group pre by_external by_name table memberships acc e)
     (planned pre by_external by_name table memberships (es @ [e]))"
proof -
  obtain ops used pk source where e: "acc = (ops, used)" "e = (pk, source)" by (cases acc, cases e)
  let ?T = "target_of by_external by_name pre e"
  have t: "yields (find_target by_external by_name (pre @ pk) (g_name source)) (\<lambda>r. r = ?T)"
    unfolding target_of_def e fst_conv snd_conv by (rule yields_find_target)
  show ?thesis
    unfolding plan_group_def e prod.case Let_def
    by (rule yields_bindP[OF t], unfold e[symmetric])
      (use assms in \<open>auto simp: planned_def group_ops_def e need_def simp del: dict_get_eq_None
         split: option.split intro!: yields_ret yields_raise\<close>)
qed

section \<open>Who should be in a group\<close>

definition wanted :: "ak_user list \<Rightarrow> ol_user list \<Rightarrow> string \<Rightarrow> string set" where
  "wanted ak_users outline_users pk =
     {m_id m | m a. m \<in> set outline_users \<and> a \<in> set ak_users \<and> u_email a = m_email m \<and>
        u_active a = Some True \<and> u_type a = Some ''internal'' \<and> \<not> m_suspended m \<and> m_role m \<noteq> ''guest'' \<and>
        pk \<in> set (the (u_groups a))}"

lemma wanted_code [code]:
  "wanted ak_users outline_users pk = set (map m_id (filter (\<lambda>m. list_ex (\<lambda>a. u_email a = m_email m \<and>
     u_active a = Some True \<and> u_type a = Some ''internal'' \<and> \<not> m_suspended m \<and> m_role m \<noteq> ''guest'' \<and>
     List.member (the (u_groups a)) pk) ak_users) outline_users))"
  by (auto simp: wanted_def list_ex_iff)

definition kept_groups :: "(string \<times> ak_user) list \<Rightarrow> string \<Rightarrow> ol_user \<Rightarrow> string list" where
  "kept_groups ak_by_email address user =
     (case dict_get ak_by_email address of
        None \<Rightarrow> []
      | Some a \<Rightarrow> if u_active a = Some True \<and> u_type a = Some ''internal'' \<and> \<not> m_suspended user \<and> m_role user \<noteq> ''guest''
                  then the (u_groups a) else [])"

lemma yields_user_groups:
  "yields (user_groups ak_by_email address user) (\<lambda>gs. gs = kept_groups ak_by_email address user)"
  unfolding user_groups_def kept_groups_def
  by (auto split: option.split intro!: yields_ret yields_bindP[OF yields_need] yields_if yields_conseq[OF yields_need]
      simp del: dict_get_eq_None)

lemma yields_desired_table:
  "yields (desired_table ak_by_email ol) (\<lambda>t. t = map (\<lambda>(a, u). (m_id u, kept_groups ak_by_email a u)) ol)"
proof -
  have 1: "yields (case x of (a, u) \<Rightarrow> bindE (user_groups ak_by_email a u) (\<lambda>gs. retE (m_id u, gs)))
      (\<lambda>y. y = (case x of (a, u) \<Rightarrow> (m_id u, kept_groups ak_by_email a u)))" for x
    by (cases x) (auto intro!: yields_bindP[OF yields_user_groups] yields_ret)
  show ?thesis
    unfolding desired_table_def
    by (rule yields_conseq[OF yields_mapE[OF 1]]) (auto simp: list_all2_conv_all_nth intro!: nth_equalityI)
qed

lemma set_desired:
  assumes "distinct (map u_email (filter (\<lambda>u. u_email u \<noteq> []) ak_users))" and "list_all (\<lambda>m. m_email m \<noteq> []) ms"
  shows "set (desired_for (map (\<lambda>(a, u). (m_id u, kept_groups (map (\<lambda>u. (u_email u, u)) (filter (\<lambda>u. u_email u \<noteq> []) ak_users)) a u))
      (map (\<lambda>m. (m_email m, m)) ms)) pk) = wanted ak_users ms pk"
proof -
  let ?F = "filter (\<lambda>u. u_email u \<noteq> []) ak_users"
  let ?D = "map (\<lambda>u. (u_email u, u)) ?F"
  have "pk \<in> set (kept_groups ?D (m_email m) m) \<longleftrightarrow>
      (\<exists>a \<in> set ak_users. u_email a = m_email m \<and> u_active a = Some True \<and> u_type a = Some ''internal'' \<and>
        \<not> m_suspended m \<and> m_role m \<noteq> ''guest'' \<and> pk \<in> set (the (u_groups a)))" if m: "m \<in> set ms" for m
  proof (cases "dict_get ?D (m_email m)")
    case None
    then have "\<forall>a \<in> set ?F. m_email m \<noteq> u_email a" by (auto simp: dict_keys_def image_iff)
    moreover have "m_email m \<noteq> []" using assms(2) m by (auto simp: list_all_iff)
    ultimately have "u_email a \<noteq> m_email m" if "a \<in> set ak_users" for a using that by auto
    then show ?thesis using None by (auto simp: kept_groups_def simp del: dict_get_eq_None)
  next
    case (Some a)
    have a: "a \<in> set ?F" "u_email a = m_email m" using dict_get_index[OF Some] by auto
    have "b = a" if "b \<in> set ak_users" "u_email b = m_email m" for b
      using that a dict_get_indexI[OF assms(1), of b] Some by auto
    then show ?thesis using Some a by (auto simp: kept_groups_def)
  qed
  note 1 = this
  have "set (desired_for (map (\<lambda>(a, u). (m_id u, kept_groups ?D a u)) (map (\<lambda>m. (m_email m, m)) ms)) pk) =
      m_id ` {m \<in> set ms. pk \<in> set (kept_groups ?D (m_email m) m)}"
    by (force simp: desired_for_def)
  also have "{m \<in> set ms. pk \<in> set (kept_groups ?D (m_email m) m)} = {m \<in> set ms. \<exists>a \<in> set ak_users. u_email a = m_email m \<and>
      u_active a = Some True \<and> u_type a = Some ''internal'' \<and> \<not> m_suspended m \<and> m_role m \<noteq> ''guest'' \<and>
      pk \<in> set (the (u_groups a))}"
    using 1 by auto
  also have "m_id ` \<dots> = wanted ak_users ms pk" unfolding wanted_def by blast
  finally show ?thesis .
qed

section \<open>Retired groups\<close>

definition retire_ops :: "string \<Rightarrow> string list \<Rightarrow> (string \<times> string list) list \<Rightarrow> ol_group \<Rightarrow> gop list" where
  "retire_ops pre used memberships g =
     (if startswith (ol_external g) pre \<and> ol_id g \<notin> set used
      then map (RemoveUser (ol_id g)) (sorted_diff (the (dict_get memberships (ol_id g))) []) else [])"

lemma yields_retire_group:
  "yields (foldE (retire_group pre used memberships) ops gs)
     (\<lambda>r. r = ops @ concat (map (retire_ops pre used memberships) gs) \<and>
        list_all (\<lambda>g. startswith (ol_external g) pre \<longrightarrow> ol_id g \<notin> set used \<longrightarrow> dict_get memberships (ol_id g) \<noteq> None) gs)"
proof -
  let ?Inv = "\<lambda>ps r. r = ops @ concat (map (retire_ops pre used memberships) ps) \<and>
        list_all (\<lambda>g. startswith (ol_external g) pre \<longrightarrow> ol_id g \<notin> set used \<longrightarrow> dict_get memberships (ol_id g) \<noteq> None) ps"
  have "yields (foldE (retire_group pre used memberships) ops gs) (?Inv ([] @ gs))"
  proof (rule yields_foldE[where Inv = ?Inv])
    fix ps g acc assume "?Inv ps acc"
    then show "yields (retire_group pre used memberships acc g) (?Inv (ps @ [g]))"
      unfolding retire_group_def
      by (auto simp: retire_ops_def simp del: dict_get_eq_None intro!: yields_if yields_ret yields_raise
          yields_bindP[OF yields_need])
  qed simp
  then show ?thesis by simp
qed

lemma exec_concat_one:
  assumes "distinct (map gid es)" and "\<And>e. e \<in> set es \<Longrightarrow> list_all (\<lambda>op. op_group op = gid e) (ops_of e)" and "e \<in> set es"
  shows "exec (concat (map ops_of es)) M (gid e) = exec (ops_of e) M (gid e)"
proof -
  obtain as bs where es: "es = as @ e # bs" using assms(3) by (meson split_list)
  have other: "list_all (\<lambda>op. op_group op \<noteq> gid e) (concat (map ops_of xs))"
    if "set xs \<subseteq> set es" "gid e \<notin> gid ` set xs" for xs
  proof -
    have "op_group op = gid e' \<and> gid e' \<noteq> gid e" if "e' \<in> set xs" "op \<in> set (ops_of e')" for e' op
    proof -
      have "e' \<in> set es" using that(1) \<open>set xs \<subseteq> set es\<close> by blast
      then have "op_group op = gid e'" using assms(2)[of e'] that(2) by (simp add: list_all_iff)
      moreover have "gid e' \<in> gid ` set xs" using that(1) by blast
      then have "gid e' \<noteq> gid e" using \<open>gid e \<notin> gid ` set xs\<close> by metis
      ultimately show ?thesis by simp
    qed
    then show ?thesis by (auto simp: list_all_iff)
  qed
  have "exec (concat (map ops_of as)) M (gid e) = M (gid e)"
    by (rule exec_other[OF other]) (use assms(1) es in auto)
  note a = this
  have b: "exec (concat (map ops_of bs)) N (gid e) = N (gid e)" for N
    by (rule exec_other[OF other]) (use assms(1) es in auto)
  have cong: "exec xs M1 i = exec xs M2 i" if "M1 i = M2 i" for xs i and M1 M2 :: members
    using that
  proof (induction xs arbitrary: M1 M2)
    case (Cons op xs)
    show ?case unfolding exec_simps by (rule Cons.IH) (use Cons.prems in \<open>cases op; auto\<close>)
  qed simp
  from cong[of "exec (concat (map ops_of as)) M" "gid e" M, OF a] show ?thesis
    unfolding es by (simp add: b)
qed

section \<open>The whole plan\<close>

definition by_name_of :: "ol_group list \<Rightarrow> (string \<times> ol_group) list" where
  "by_name_of ogs = map (\<lambda>g. (ol_name g, g)) ogs"

definition by_external_of :: "ol_group list \<Rightarrow> (string \<times> ol_group) list" where
  "by_external_of ogs = map (\<lambda>g. (ol_external g, g)) (filter (\<lambda>g. ol_external g \<noteq> []) ogs)"

text \<open>The id of the Outline group of an LDAP group: symbolic if it is to be created.\<close>

definition synced_with :: "string \<Rightarrow> ol_group list \<Rightarrow> ak_group \<Rightarrow> string" where
  "synced_with pre ogs g = synced_id (by_external_of ogs) (by_name_of ogs) pre (g_pk g, g)"

lemma target_in_groups: "target_of (by_external_of ogs) (by_name_of ogs) pre e = Some t \<Longrightarrow> t \<in> set ogs"
  unfolding target_of_def by_external_of_def by_name_of_def
  by (auto dest: dict_get_index split: option.splits simp del: dict_get_eq_None)

lemma distinct_synced:
  assumes "distinct (map fst es)"
    and "distinct (concat (map (\<lambda>e. case target_of x n pre e of None \<Rightarrow> [] | Some t \<Rightarrow> [ol_id t]) es))"
    and "\<And>e t. e \<in> set es \<Longrightarrow> target_of x n pre e = Some t \<Longrightarrow> \<not> startswith (ol_id t) pre"
  shows "distinct (map (synced_id x n pre) es)"
  using assms
proof (induction es)
  case (Cons e es)
  have "synced_id x n pre e \<noteq> synced_id x n pre e'" if "e' \<in> set es" for e'
  proof
    assume eq: "synced_id x n pre e = synced_id x n pre e'"
    have ne: "fst e \<noteq> fst e'" using Cons.prems(1) that by auto
    have ns: "pre @ r \<noteq> ol_id t" if "target_of x n pre e = Some t \<or> target_of x n pre e' = Some t" for t r
      using Cons.prems(3)[of e t] Cons.prems(3)[of e' t] \<open>e' \<in> set es\<close> that startswith_append[of pre r]
      by (metis list.set_intros)
    have dd: "ol_id t \<noteq> ol_id t'" if "target_of x n pre e = Some t" "target_of x n pre e' = Some t'" for t t'
      using Cons.prems(2) \<open>e' \<in> set es\<close> that by (force split: option.splits)
    show False
    proof (cases "target_of x n pre e")
      case None
      then show False
        using eq ne ns[of _ "fst e"] by (cases "target_of x n pre e'") (simp_all add: synced_id_def)
    next
      case (Some t)
      then show False
        using eq ns[of t "fst e'"] dd[OF Some] by (cases "target_of x n pre e'") (simp_all add: synced_id_def)
    qed
  qed
  moreover have "distinct (map (synced_id x n pre) es)"
    by (rule Cons.IH) (use Cons.prems in auto)
  ultimately show ?case by auto
qed simp

lemma op_group_group_ops:
  "list_all (\<lambda>op. op_group op = synced_id x n pre e) (group_ops pre x n table memberships e)"
  using op_group_member_ops
  by (auto simp: group_ops_def synced_id_def list_all_iff split: option.split)

lemma exec_group_ops:
  assumes "\<And>t. target_of x n pre e = Some t \<Longrightarrow> M (ol_id t) = set (the (dict_get memberships (ol_id t)))"
  shows "exec (group_ops pre x n table memberships e) M (synced_id x n pre e) = set (desired_for table (fst e))"
  using assms
  by (auto simp: group_ops_def synced_id_def exec_member_ops split: option.split)

lemma exec_retire:
  assumes "distinct (map ol_id ogs)"
    and "\<And>g. g \<in> set ogs \<Longrightarrow> startswith (ol_external g) pre \<Longrightarrow> ol_id g = i \<Longrightarrow> i \<notin> set used \<Longrightarrow>
      M i = set (the (dict_get memberships i))"
  shows "exec (concat (map (retire_ops pre used memberships) ogs)) M i =
    (if list_ex (\<lambda>g. ol_id g = i \<and> startswith (ol_external g) pre) ogs \<and> i \<notin> set used then {} else M i)"
proof (cases "i \<in> ol_id ` set ogs")
  case True
  then obtain g where g: "g \<in> set ogs" "i = ol_id g" by auto
  have "g' = g" if "g' \<in> set ogs" "ol_id g' = i" for g'
    using assms(1) g that by (auto simp: distinct_map inj_on_def)
  then have ex: "list_ex (\<lambda>g. ol_id g = i \<and> startswith (ol_external g) pre) ogs \<longleftrightarrow> startswith (ol_external g) pre"
    using g by (auto simp: list_ex_iff)
  have "exec (concat (map (retire_ops pre used memberships) ogs)) M (ol_id g) = exec (retire_ops pre used memberships g) M (ol_id g)"
    by (rule exec_concat_one[OF assms(1) _ g(1)]) (auto simp: retire_ops_def list_all_iff)
  with ex show ?thesis using assms(2)[OF g(1)] g(2) by (auto simp: retire_ops_def exec_removes)
next
  case False
  have "exec (concat (map (retire_ops pre used memberships) ogs)) M i = M i"
    by (rule exec_other) (use False in \<open>auto simp: list_all_iff retire_ops_def split: if_splits\<close>)
  with False show ?thesis by (auto simp: list_ex_iff)
qed

text \<open>What a plan is made of.\<close>

lemma plan_parts:
  assumes "plan_sync source_id lgs aus ogs ous memberships s = (Ok ops, t)"
  defines "pre \<equiv> external_prefix source_id" and "x \<equiv> by_external_of ogs" and "n \<equiv> by_name_of ogs"
    and "es \<equiv> sort_key fst (map (\<lambda>g. (g_pk g, g)) lgs)"
  obtains table used where
    "ops = concat (map (group_ops pre x n table memberships) es) @ concat (map (retire_ops pre used memberships) ogs)"
    and "planned pre x n table memberships es (concat (map (group_ops pre x n table memberships) es), used)"
    and "\<And>pk. set (desired_for table pk) = wanted aus ous pk"
    and "list_all (\<lambda>g. startswith (ol_external g) pre \<longrightarrow> ol_id g \<notin> set used \<longrightarrow> dict_get memberships (ol_id g) \<noteq> None) ogs"
    and "distinct (map fst es)"
proof -
  let ?Q = "\<lambda>ops. \<exists>table used.
    ops = concat (map (group_ops pre x n table memberships) es) @ concat (map (retire_ops pre used memberships) ogs) \<and>
    planned pre x n table memberships es (concat (map (group_ops pre x n table memberships) es), used) \<and>
    (\<forall>pk. set (desired_for table pk) = wanted aus ous pk) \<and>
    list_all (\<lambda>g. startswith (ol_external g) pre \<longrightarrow> ol_id g \<notin> set used \<longrightarrow> dict_get memberships (ol_id g) \<noteq> None) ogs \<and>
    distinct (map fst es)"
  let ?A = "map (\<lambda>u. (u_email u, u)) (filter (\<lambda>u. u_email u \<noteq> []) aus)"
  let ?T = "map (\<lambda>(a, u). (m_id u, kept_groups ?A a u)) (map (\<lambda>m. (m_email m, m)) ous)"
  have fold: "yields (foldE (plan_group pre x n T memberships) ([], []) es) (planned pre x n T memberships es)" for T
  proof -
    have "planned pre x n T memberships [] ([], [])" by (simp add: planned_def)
    from yields_foldE[where Inv = "planned pre x n T memberships", OF yields_plan_group this, where xs = es]
    show ?thesis unfolding append_Nil .
  qed
  have finish: "yields (foldE (retire_group pre (snd acc) memberships) (fst acc) ogs) ?Q"
    if "planned pre x n ?T memberships es acc" "distinct (map g_pk lgs)"
      "distinct (map u_email (filter (\<lambda>u. u_email u \<noteq> []) aus))" "list_all (\<lambda>m. m_email m \<noteq> []) ous" for acc
  proof (rule yields_conseq[OF yields_retire_group], intro exI conjI allI)
    have "mset (map fst es) = mset (map g_pk lgs)" by (simp add: es_def multiset.map_comp comp_def)
    then show "distinct (map fst es)" using that(2) mset_eq_imp_distinct_iff by blast
    show "set (desired_for ?T pk) = wanted aus ous pk" for pk by (rule set_desired[OF that(3,4)])
  qed (use that(1) in \<open>auto simp: planned_def\<close>)
  have "yields (plan_sync source_id lgs aus ogs ous memberships) ?Q"
    unfolding plan_sync_def Let_def pre_def[symmetric]
    apply (rule yields_bindP[OF yields_index_unique])
    apply (rule yields_bind)
    apply (rule yields_bindP[OF yields_index_unique])
    apply (rule yields_bindP[OF yields_index_unique])
    apply (rule yields_bindP[OF yields_index_unique])
    apply (rule yields_bindP[OF yields_index_unique])
    apply (rule yields_bindP[OF yields_desired_table])
    apply (elim conjE)
    apply (simp only: x_def[symmetric, unfolded by_external_of_def] n_def[symmetric, unfolded by_name_of_def] es_def[symmetric])
    apply (rule yields_bindP[OF fold])
    using finish by (simp add: split_beta)
  from yieldsD[OF this assms(1)] that show ?thesis by blast
qed

text \<open>The members of every group after the plan.\<close>

lemma exec_plan:
  assumes "plan_sync source_id lgs aus ogs ous memberships s = (Ok ops, t)"
  defines "pre \<equiv> external_prefix source_id"
  assumes ids: "distinct (map ol_id ogs)" and fresh_ids: "list_all (\<lambda>g. \<not> startswith (ol_id g) pre) ogs"
    and mem: "list_all (\<lambda>g. pred_option (\<lambda>us. M (ol_id g) = set us) (dict_get memberships (ol_id g))) ogs"
  shows "g \<in> set lgs \<Longrightarrow> exec ops M (synced_with pre ogs g) = wanted aus ous (g_pk g)"
    and "i \<notin> synced_with pre ogs ` set lgs \<Longrightarrow> exec ops M i =
      (if list_ex (\<lambda>g. ol_id g = i \<and> startswith (ol_external g) pre) ogs then {} else M i)"
proof -
  let ?x = "by_external_of ogs" and ?n = "by_name_of ogs"
  let ?es = "sort_key fst (map (\<lambda>g. (g_pk g, g)) lgs)"
  let ?gid = "synced_id ?x ?n pre"
  obtain table used where
    ops: "ops = concat (map (group_ops pre ?x ?n table memberships) ?es) @ concat (map (retire_ops pre used memberships) ogs)"
    and pl: "planned pre ?x ?n table memberships ?es (concat (map (group_ops pre ?x ?n table memberships) ?es), used)"
    and want: "\<And>pk. set (desired_for table pk) = wanted aus ous pk"
    and rm: "list_all (\<lambda>g. startswith (ol_external g) pre \<longrightarrow> ol_id g \<notin> set used \<longrightarrow> dict_get memberships (ol_id g) \<noteq> None) ogs"
    and dk: "distinct (map fst ?es)"
    by (rule plan_parts[OF assms(1), folded pre_def]) (rule that)
  have es: "e \<in> set ?es \<longleftrightarrow> (\<exists>g \<in> set lgs. e = (g_pk g, g))" for e by auto
  have used: "used = concat (map (\<lambda>e. case target_of ?x ?n pre e of None \<Rightarrow> [] | Some t \<Rightarrow> [ol_id t]) ?es)"
    and du: "distinct used"
    and la: "list_all (\<lambda>e. pred_option (\<lambda>t. dict_get memberships (ol_id t) \<noteq> None) (target_of ?x ?n pre e)) ?es"
    using pl unfolding planned_def fst_conv snd_conv by blast+
  have tm: "dict_get memberships (ol_id t) \<noteq> None" if "e \<in> set ?es" "target_of ?x ?n pre e = Some t" for e t
  proof -
    have "pred_option (\<lambda>t. dict_get memberships (ol_id t) \<noteq> None) (target_of ?x ?n pre e)"
      using la that(1) unfolding list_all_iff by blast
    then show ?thesis unfolding that(2) option.pred_inject .
  qed
  have nopre: "\<not> startswith (ol_id t) pre" if "t \<in> set ogs" for t using fresh_ids that by (simp add: list_all_iff)
  have du': "distinct (concat (map (\<lambda>e. case target_of ?x ?n pre e of None \<Rightarrow> [] | Some t \<Rightarrow> [ol_id t]) ?es))"
    using du unfolding used .
  have dg: "distinct (map ?gid ?es)"
    by (rule distinct_synced[OF dk du']) (use target_in_groups nopre in blast)
  have current: "M (ol_id g) = set (the (dict_get memberships (ol_id g)))" if "g \<in> set ogs" "dict_get memberships (ol_id g) \<noteq> None" for g
    using mem that by (auto simp: list_all_iff simp del: dict_get_eq_None)
  have first: "exec (concat (map (group_ops pre ?x ?n table memberships) ?es)) M (?gid e) = wanted aus ous (fst e)"
    if e: "e \<in> set ?es" for e
  proof -
    have "exec (concat (map (group_ops pre ?x ?n table memberships) ?es)) M (?gid e) =
        exec (group_ops pre ?x ?n table memberships e) M (?gid e)"
      by (rule exec_concat_one[OF dg op_group_group_ops e])
    also have "\<dots> = set (desired_for table (fst e))"
      by (rule exec_group_ops) (use current tm[OF e] target_in_groups in blast)
    finally show ?thesis by (simp add: want)
  qed
  have rest: "exec (concat (map (group_ops pre ?x ?n table memberships) ?es)) M i = M i" if "i \<notin> ?gid ` set ?es" for i
  proof (rule exec_other)
    have "list_all (\<lambda>op. op_group op = ?gid e) (group_ops pre ?x ?n table memberships e)" for e by (rule op_group_group_ops)
    then show "list_all (\<lambda>op. op_group op \<noteq> i) (concat (map (group_ops pre ?x ?n table memberships) ?es))"
      using that unfolding list_all_iff set_concat set_map by blast
  qed
  have used_gid: "set used \<subseteq> ?gid ` set ?es"
    unfolding used by (force simp: synced_id_def split: option.splits)
  have ret: "exec ops M i = (if list_ex (\<lambda>g. ol_id g = i \<and> startswith (ol_external g) pre) ogs \<and> i \<notin> set used then {}
      else exec (concat (map (group_ops pre ?x ?n table memberships) ?es)) M i)" if i: "i \<in> set used \<or> i \<notin> ?gid ` set ?es" for i
    unfolding ops exec_simps
  proof (rule exec_retire[OF ids])
    fix g assume g: "g \<in> set ogs" "startswith (ol_external g) pre" "ol_id g = i" "i \<notin> set used"
    then have "dict_get memberships i \<noteq> None" using rm by (auto simp: list_all_iff simp del: dict_get_eq_None)
    with g i show "exec (concat (map (group_ops pre ?x ?n table memberships) ?es)) M i = set (the (dict_get memberships i))"
      using rest current[of g] by simp
  qed
  show "exec ops M (synced_with pre ogs g) = wanted aus ous (g_pk g)" if g: "g \<in> set lgs"
  proof -
    let ?e = "(g_pk g, g)"
    have e: "?e \<in> set ?es" using g by auto
    show ?thesis
    proof (cases "target_of ?x ?n pre ?e")
      case None
      have "exec ops M (?gid ?e) = exec (concat (map (group_ops pre ?x ?n table memberships) ?es)) M (?gid ?e)"
        unfolding ops exec_simps
      proof (rule exec_other)
        have "ol_id g' \<noteq> ?gid ?e" if "g' \<in> set ogs" for g'
          using nopre[OF that] None by (auto simp: synced_id_def)
        then show "list_all (\<lambda>op. op_group op \<noteq> ?gid ?e) (concat (map (retire_ops pre used memberships) ogs))"
          by (auto simp: list_all_iff retire_ops_def split: if_splits)
      qed
      then show ?thesis using first[OF e] by (simp add: synced_with_def)
    next
      case (Some t)
      have "ol_id t \<in> set used" unfolding used using e Some by force
      then show ?thesis using ret[of "?gid ?e"] first[OF e] Some by (simp add: synced_with_def synced_id_def)
    qed
  qed
  show "exec ops M i = (if list_ex (\<lambda>g. ol_id g = i \<and> startswith (ol_external g) pre) ogs then {} else M i)"
    if i: "i \<notin> synced_with pre ogs ` set lgs"
  proof -
    have "i \<notin> ?gid ` set ?es" using i by (auto simp: synced_with_def)
    with used_gid ret[of i] rest[of i] show ?thesis by auto
  qed
qed

text \<open>When there is nothing to do.\<close>

definition settled_group :: "string \<Rightarrow> ol_group list \<Rightarrow> (string \<times> string list) list \<Rightarrow> ak_user list \<Rightarrow> ol_user list \<Rightarrow>
    ak_group \<Rightarrow> bool" where
  "settled_group pre ogs memberships aus ous g =
     (case target_of (by_external_of ogs) (by_name_of ogs) pre (g_pk g, g) of
        None \<Rightarrow> False
      | Some t \<Rightarrow> ol_external t = pre @ g_pk g \<and> ol_name t = g_name g \<and>
          set (the (dict_get memberships (ol_id t))) = wanted aus ous (g_pk g))"

definition settled_other :: "string \<Rightarrow> ol_group list \<Rightarrow> ak_group list \<Rightarrow> (string \<times> string list) list \<Rightarrow> ol_group \<Rightarrow> bool" where
  "settled_other pre ogs lgs memberships g =
     (if startswith (ol_external g) pre \<and> \<not> list_ex (\<lambda>l. synced_with pre ogs l = ol_id g) lgs
      then the (dict_get memberships (ol_id g)) = [] else True)"

lemma sorted_diff_Nil [simp]: "sorted_diff a b = [] \<longleftrightarrow> set a \<subseteq> set b"
proof -
  have "sorted_diff a b = [] \<longleftrightarrow> set (sorted_diff a b) = {}" by (rule set_empty[symmetric])
  then show ?thesis by auto
qed

lemma member_ops_Nil [simp]: "member_ops i d c = [] \<longleftrightarrow> set d = set c"
  by (auto simp: member_ops_def)

lemma plan_empty:
  assumes "plan_sync source_id lgs aus ogs ous memberships s = (Ok ops, t)"
  defines "pre \<equiv> external_prefix source_id"
  assumes fresh_ids: "list_all (\<lambda>g. \<not> startswith (ol_id g) pre) ogs"
  shows "ops = [] \<longleftrightarrow> list_all (settled_group pre ogs memberships aus ous) lgs \<and>
    list_all (settled_other pre ogs lgs memberships) ogs"
proof -
  let ?x = "by_external_of ogs" and ?n = "by_name_of ogs"
  let ?es = "sort_key fst (map (\<lambda>g. (g_pk g, g)) lgs)"
  obtain table used where
    ops: "ops = concat (map (group_ops pre ?x ?n table memberships) ?es) @ concat (map (retire_ops pre used memberships) ogs)"
    and pl: "planned pre ?x ?n table memberships ?es (concat (map (group_ops pre ?x ?n table memberships) ?es), used)"
    and want: "\<And>pk. set (desired_for table pk) = wanted aus ous pk"
    by (rule plan_parts[OF assms(1), folded pre_def]) (rule that)
  have g: "group_ops pre ?x ?n table memberships (g_pk g, g) = [] \<longleftrightarrow> settled_group pre ogs memberships aus ous g" for g
    by (auto simp: group_ops_def settled_group_def want split: option.split)
  have used: "used = concat (map (\<lambda>e. case target_of ?x ?n pre e of None \<Rightarrow> [] | Some t \<Rightarrow> [ol_id t]) ?es)"
    using pl by (simp only: planned_def fst_conv snd_conv)
  have u: "ol_id o1 \<in> set used \<longleftrightarrow> list_ex (\<lambda>l. synced_with pre ogs l = ol_id o1) lgs" if o1: "o1 \<in> set ogs" for o1
  proof -
    have "pre @ r \<noteq> ol_id o1" for r using fresh_ids o1 by (metis list_all_iff startswith_append)
    then have "(case target_of ?x ?n pre (g_pk l, l) of None \<Rightarrow> False | Some t \<Rightarrow> ol_id t = ol_id o1) \<longleftrightarrow>
        synced_with pre ogs l = ol_id o1" for l
      by (auto simp: synced_with_def synced_id_def split: option.split)
    moreover have "ol_id o1 \<in> set used \<longleftrightarrow>
        (\<exists>l \<in> set lgs. case target_of ?x ?n pre (g_pk l, l) of None \<Rightarrow> False | Some t \<Rightarrow> ol_id t = ol_id o1)"
      unfolding used by simp (intro bex_cong refl, auto split: option.split)
    ultimately show ?thesis by (simp add: list_ex_iff)
  qed
  have "retire_ops pre used memberships o1 = [] \<longleftrightarrow> settled_other pre ogs lgs memberships o1" if "o1 \<in> set ogs" for o1
    using u[OF that] by (auto simp: retire_ops_def settled_other_def)
  moreover have "concat (map (group_ops pre ?x ?n table memberships) ?es) = [] \<longleftrightarrow>
      list_all (settled_group pre ogs memberships aus ous) lgs"
    by (auto simp: list_all_iff g[symmetric])
  ultimately show ?thesis unfolding ops by (auto simp: list_all_iff)
qed

end
