(* ===== verification/Outline_Calls.thy ===== *)
theory Outline_Calls
  imports Outline_Correct
begin

text \<open>
  Which requests a synchronisation makes, and in which order: only reads until there is a plan, then
  the plan's operations, one request each, in the plan's order, all of them under the base URL of
  their client.
\<close>

section \<open>Requests of a program\<close>

definition calls_only :: "(call \<Rightarrow> bool) \<Rightarrow> 'w hst \<Rightarrow> 'w hst \<Rightarrow> bool" where
  "calls_only A s t \<longleftrightarrow> (\<exists>xs. calls t = calls s @ xs \<and> list_all (\<lambda>e. A (fst e)) xs)"

interpretation requests: frame "calls_only A" for A
proof
  show "calls_only A s s" for s :: "'a hst" by (auto simp: calls_only_def)
  show "calls_only A s u" if "calls_only A s t" "calls_only A t u" for s t u :: "'a hst"
    using that by (force simp: calls_only_def)
qed

definition inside :: "call \<Rightarrow> bool" where
  "inside c \<longleftrightarrow> startswith (c_url c) (c_base c) \<and> url_fragment (c_url c) = []"

definition reading_methods :: "string list" where
  "reading_methods = [''users.list'', ''groups.list'', ''groups.memberships'']"

text \<open>The request a client makes for a URL.\<close>

definition call_at :: "api \<Rightarrow> string \<Rightarrow> json option \<Rightarrow> call" where
  "call_at b url body = \<lparr>c_base = base b, c_token = token b, c_url = url, c_body = body\<rparr>"

definition by_client :: "api \<Rightarrow> call \<Rightarrow> bool" where
  "by_client b c \<longleftrightarrow> c_base c = base b \<and> c_token c = token b"

text \<open>A request that only reads: a GET to Authentik, or one of three methods of Outline.\<close>

definition read_call :: "'w http \<Rightarrow> api \<Rightarrow> api \<Rightarrow> call \<Rightarrow> bool" where
  "read_call H ak ol c \<longleftrightarrow> inside c \<and>
     (by_client ak c \<and> c_body c = None \<or>
      by_client ol c \<and> c_body c \<noteq> None \<and> list_ex (\<lambda>m. c_url c = urljoin H (base ol) m) reading_methods)"

lemma keeps_progress: "keeps (calls_only A) (progress H)"
  by (auto simp: keeps_def progress_def calls_only_def split: prod.split)

lemma keeps_answer: "keeps (calls_only A) (answer r)"
  by (auto simp: answer_def split: reply.split json.split intro: requests.keeps_ret requests.keeps_raise)

lemma keeps_request:
  assumes "inside (call_at b (urljoin H (base b) path) body) \<Longrightarrow>
    A (call_at b (urljoin H (base b) path) body)"
  shows "keeps (calls_only A) (request H b path body)"
proof -
  have "keeps (calls_only A) (transmit H (call_at b (urljoin H (base b) path) body))"
    if "startswith (urljoin H (base b) path) (base b)" "url_fragment (urljoin H (base b) path) = []"
    using assms that by (auto simp: keeps_def transmit_def calls_only_def inside_def call_at_def split: prod.split)
  then show ?thesis
    unfolding request_def Let_def call_at_def[symmetric]
    by (auto intro!: requests.keeps_bind requests.keeps_if requests.keeps_raise keeps_progress keeps_answer)
qed

lemma keeps_check_new: "keeps (calls_only A) (check_new who k seen batch)"
  by (induction batch arbitrary: seen) (auto intro!: requests.keeps_rules requests.keeps_json)

lemma keeps_batch_of: "keeps (calls_only A) (batch_of who j)"
  by (auto simp: batch_of_def split: json.split intro: requests.keeps_ret requests.keeps_raise)

lemmas keeps_parts = requests.keeps_ret requests.keeps_raise requests.keeps_get requests.keeps_if requests.keeps_bind
  requests.keeps_json keeps_progress keeps_check_new keeps_batch_of

lemma keeps_ak_page:
  assumes "\<And>url. inside (call_at b url None) \<Longrightarrow> A (call_at b url None)"
  shows "keeps (calls_only A) (ak_page H b path page)"
  unfolding ak_page_def by (intro keeps_parts keeps_request) (rule assms)

lemma keeps_ak_pages:
  assumes "\<And>url. inside (call_at b url None) \<Longrightarrow> A (call_at b url None)"
  shows "keeps (calls_only A) (ak_pages H b path known page rows seen)"
proof (induction known page rows seen rule: ak_pages_induct)
  case (page known page rows seen)
  have pg: "keeps (calls_only A) (ak_page H b path page)"
    by (rule keeps_ak_page) (rule assms)
  show ?case
    unfolding ak_pages.simps[of H b path known page rows seen] ak_counts_def Let_def
    by (auto split: prod.split option.split intro!: keeps_parts pg page)
qed

lemma keeps_outline_pages:
  assumes "\<And>body. inside (call_at b (urljoin H (base b) meth) (Some body)) \<Longrightarrow>
    A (call_at b (urljoin H (base b) meth) (Some body))"
  shows "keeps (calls_only A) (outline_pages H b meth key body known offset rows seen)"
proof (induction known offset rows seen rule: outline_pages_induct)
  case (page known offset rows seen)
  have pg: "keeps (calls_only A) (outline_page H b meth key body offset)"
    unfolding outline_page_def outline_call_def by (intro keeps_parts keeps_request) (rule assms)
  show ?case
    unfolding outline_pages.simps[of H b meth key body known offset rows seen] outline_data_def Let_def
    by (auto split: prod.split option.splits intro!: keeps_parts pg page)
qed

section \<open>Reading\<close>

lemma keeps_read_list: "keeps (calls_only (read_call H ak ol)) (authentik_list H ak path)"
  unfolding authentik_list_def by (rule keeps_ak_pages) (simp add: read_call_def by_client_def call_at_def)

lemma keeps_read_outline:
  assumes "m \<in> set reading_methods"
  shows "keeps (calls_only (read_call H ak ol)) (outline_list H ol m key body)"
  unfolding outline_list_def
  by (rule keeps_outline_pages) (use assms in \<open>auto simp: read_call_def by_client_def call_at_def list_ex_iff\<close>)

lemma keeps_get_request: "keeps (calls_only (read_call H ak ol)) (request H ak path None)"
  by (rule keeps_request) (simp add: read_call_def by_client_def call_at_def)

text \<open>Programs that make no request at all.\<close>

lemma keeps_rows:
  "keeps (calls_only A) (read_ak_group j)" "keeps (calls_only A) (read_ak_user j)"
  "keeps (calls_only A) (read_ol_group j)" "keeps (calls_only A) (read_ol_user j)"
  "keeps (calls_only A) (read_membership j)" "keeps (calls_only A) (linked_group k j)"
  "keeps (calls_only A) (need x)" "keeps (calls_only A) (check_source j)"
  unfolding read_ak_group_def read_ak_user_def read_ol_group_def read_ol_user_def read_membership_def
    linked_group_def need_def check_source_def
  by (auto split: option.split intro!: keeps_parts)

lemma keeps_healthy: "keeps (calls_only A) (assert_sync_healthy E status hours)"
  unfolding assert_sync_healthy_def
  by (auto split: json.split option.split intro!: keeps_parts requests.keeps_catch)

lemma keeps_index: "keeps (calls_only A) (index_unique rows key)"
proof -
  have "keeps (calls_only A) (index_from acc key rows)" for acc
    by (induction rows arbitrary: acc) (auto intro!: keeps_parts)
  then show ?thesis by (simp add: index_unique_def)
qed

lemma keeps_plan: "keeps (calls_only A) (plan_sync source_id lgs aus ogs ous memberships)"
proof -
  have ug: "keeps (calls_only A) (user_groups d a u)" for d a u
    unfolding user_groups_def by (auto split: option.split intro!: keeps_parts keeps_rows)
  have table: "keeps (calls_only A) (desired_table d xs)" for d xs
    unfolding desired_table_def split_beta by (intro requests.keeps_mapE keeps_parts ug)
  have target: "keeps (calls_only A) (find_target x n e name)" for x n e name
    unfolding find_target_def by (auto split: option.split intro!: keeps_parts)
  have grp: "keeps (calls_only A) (plan_group pre x n T ms acc e)" for pre x n T ms acc e
    unfolding plan_group_def Let_def split_beta
    by (rule requests.keeps_bind[OF target]) (auto split: option.split intro!: keeps_parts keeps_rows)
  have ret: "keeps (calls_only A) (retire_group pre used ms ops g)" for pre used ms ops g
    unfolding retire_group_def by (intro keeps_parts keeps_rows)
  show ?thesis
    unfolding plan_sync_def Let_def split_beta
    by (intro keeps_parts keeps_index table grp ret requests.keeps_foldE)
qed

lemma keeps_snapshot:
  "keeps (calls_only (read_call (net E) ak ol)) (read_status E ak path hours)"
  "keeps (calls_only (read_call H ak ol)) (read_directory H ak pk)"
  "keeps (calls_only (read_call H ak ol)) (read_outline H ol pre lgs)"
proof -
  show "keeps (calls_only (read_call (net E) ak ol)) (read_status E ak path hours)"
    unfolding read_status_def by (intro keeps_parts keeps_get_request keeps_healthy)
  show "keeps (calls_only (read_call H ak ol)) (read_directory H ak pk)"
    unfolding read_directory_def Let_def
    by (intro keeps_parts keeps_rows keeps_read_list requests.keeps_mapE)
  have "keeps (calls_only (read_call H ak ol)) (group_members H ol pre relevant memberships g)" for relevant memberships g
    unfolding group_members_def
    by (intro keeps_parts keeps_rows keeps_read_outline requests.keeps_mapE) (simp add: reading_methods_def)
  then show "keeps (calls_only (read_call H ak ol)) (read_outline H ol pre lgs)"
    unfolding read_outline_def
    by (intro keeps_parts keeps_rows keeps_read_outline requests.keeps_mapE requests.keeps_foldE)
      (simp_all add: reading_methods_def)
qed

lemma keeps_make_plan: "keeps (calls_only (read_call (net E) ak ol)) (make_plan E ak ol slug hours)"
  unfolding make_plan_def Let_def split_beta
  by (intro keeps_parts keeps_get_request keeps_rows keeps_snapshot keeps_plan)

section \<open>Writing\<close>

text \<open>
  \<open>m\<close> makes one request, which together with its answer and the result is as \<open>C\<close> says, or raises before it
  makes any.
\<close>

definition one_call :: "(call \<Rightarrow> reply \<Rightarrow> 'a res \<Rightarrow> bool) \<Rightarrow> ('w hst, 'a) eff \<Rightarrow> bool" where
  "one_call C m \<longleftrightarrow> (\<forall>s r t. m s = (r, t) \<longrightarrow>
     (calls t = calls s \<and> (\<forall>x. r \<noteq> Ok x)) \<or> (\<exists>c rep. C c rep r \<and> calls t = calls s @ [(c, rep)]))"

lemma one_callD:
  "one_call C m \<Longrightarrow> m s = (r, t) \<Longrightarrow>
     (calls t = calls s \<and> (\<forall>x. r \<noteq> Ok x)) \<or> (\<exists>c rep. C c rep r \<and> calls t = calls s @ [(c, rep)])"
  unfolding one_call_def by (drule spec[of _ s], drule spec[of _ r], drule spec[of _ t], erule mp)

lemma silent: "keeps (calls_only (\<lambda>_. False)) m \<longleftrightarrow> (\<forall>s. calls (snd (m s)) = calls s)"
proof -
  have "list_all (\<lambda>_. False) xs \<longleftrightarrow> xs = []" for xs :: "(call \<times> reply) list" by (cases xs) auto
  then show ?thesis by (simp add: keeps_def calls_only_def)
qed

lemma one_call_after:
  assumes "keeps (calls_only (\<lambda>_. False)) m" and "\<And>x. one_call C (f x)"
  shows "one_call C (bindE m f)"
  unfolding one_call_def
proof (intro allI impI)
  fix s r t assume r: "bindE m f s = (r, t)"
  obtain r1 t1 where m: "m s = (r1, t1)" by (cases "m s")
  then have c: "calls t1 = calls s" using assms(1) by (metis silent snd_conv)
  show "(calls t = calls s \<and> (\<forall>x. r \<noteq> Ok x)) \<or> (\<exists>c rep. C c rep r \<and> calls t = calls s @ [(c, rep)])"
  proof (cases r1)
    case (Ok x)
    then have "f x t1 = (r, t)" using m r by (simp add: bindE_def)
    from one_callD[OF assms(2) this] c show ?thesis by simp
  qed (use m r c in \<open>auto simp: bindE_def\<close>)
qed

lemma one_call_before:
  assumes "one_call C m" and "\<And>x. keeps (calls_only (\<lambda>_. False)) (f x)"
    and "\<And>c rep x s r t. C c rep (Ok x) \<Longrightarrow> f x s = (r, t) \<Longrightarrow> D c rep r"
    and "\<And>c rep e. C c rep (Exc e) \<Longrightarrow> D c rep (Exc e)" and "\<And>c rep. C c rep Halt \<Longrightarrow> D c rep Halt"
  shows "one_call D (bindE m f)"
  unfolding one_call_def
proof (intro allI impI)
  fix s r t assume r: "bindE m f s = (r, t)"
  obtain r1 t1 where m: "m s = (r1, t1)" by (cases "m s")
  show "(calls t = calls s \<and> (\<forall>x. r \<noteq> Ok x)) \<or> (\<exists>c rep. D c rep r \<and> calls t = calls s @ [(c, rep)])"
  using one_callD[OF assms(1) m]
  proof (elim disjE exE conjE)
    assume "calls t1 = calls s" "\<forall>x. r1 \<noteq> Ok x"
    then show ?thesis using m r by (cases r1) (auto simp: bindE_def)
  next
    fix c rep assume 1: "C c rep r1" "calls t1 = calls s @ [(c, rep)]"
    show ?thesis
    proof (cases r1)
      case (Ok x)
      then have f: "f x t1 = (r, t)" using m r by (simp add: bindE_def)
      then have "calls t = calls t1" using assms(2)[of x] by (metis silent snd_conv)
      then show ?thesis using 1 assms(3)[OF _ f] Ok by auto
    qed (use m r 1 assms(4,5) in \<open>auto simp: bindE_def\<close>)
  qed
qed

lemma one_call_raise: "one_call C (raiseE e)"
  by (auto simp: one_call_def raiseE_def)

text \<open>What a request is, and that its result is the document in the answer.\<close>

definition asked :: "'w http \<Rightarrow> api \<Rightarrow> string \<Rightarrow> json option \<Rightarrow> call \<Rightarrow> reply \<Rightarrow> json res \<Rightarrow> bool" where
  "asked H b path body c rep r \<longleftrightarrow>
     c = call_at b (urljoin H (base b) path) body \<and> inside c \<and> (\<forall>x. r = Ok x \<longrightarrow> rep = Reply x)"

lemma one_call_request: "one_call (asked H b path body) (request H b path body)"
proof -
  let ?c = "call_at b (urljoin H (base b) path) body"
  have "one_call (\<lambda>c rep r. c = ?c \<and> inside c \<and> r = Ok rep) (transmit H ?c)"
    if "startswith (urljoin H (base b) path) (base b)" "url_fragment (urljoin H (base b) path) = []"
    using that by (auto simp: one_call_def transmit_def inside_def call_at_def split: prod.splits)
  note sent = this
  have "one_call (asked H b path body) (bindE (transmit H ?c) answer)"
    if "startswith (urljoin H (base b) path) (base b)" "url_fragment (urljoin H (base b) path) = []"
    by (rule one_call_before[OF sent[OF that] keeps_answer])
      (auto simp: asked_def answer_def raiseE_def retE_def split: reply.splits json.splits)
  then show ?thesis
    unfolding request_def Let_def call_at_def[symmetric]
    by (auto intro!: one_call_after[OF keeps_progress] one_call_raise)
qed

text \<open>
  The request of an operation, written from the API and not from the program: \<open>m\<close> maps the external ids of the
  groups that were created in this run to the ids that the server gave them.
\<close>

definition target_id :: "(string \<rightharpoonup> string) \<Rightarrow> string \<Rightarrow> json" where
  "target_id m i = JStr (case m i of None \<Rightarrow> i | Some gid \<Rightarrow> gid)"

fun wire :: "'w http \<Rightarrow> api \<Rightarrow> (string \<rightharpoonup> string) \<Rightarrow> gop \<Rightarrow> call" where
  "wire H b m (UpdateGroup i name ext) = call_at b (urljoin H (base b) ''groups.update'')
     (Some (JObj [(''id'', target_id m i), (''name'', JStr name), (''externalId'', JStr ext)]))"
| "wire H b m (CreateGroup name ext) = call_at b (urljoin H (base b) ''groups.create'')
     (Some (JObj [(''name'', JStr name), (''externalId'', JStr ext)]))"
| "wire H b m (AddUser i u) = call_at b (urljoin H (base b) ''groups.add_user'')
     (Some (JObj [(''id'', target_id m i), (''userId'', JStr u)]))"
| "wire H b m (RemoveUser i u) = call_at b (urljoin H (base b) ''groups.remove_user'')
     (Some (JObj [(''id'', target_id m i), (''userId'', JStr u)]))"

text \<open>The id in the answer to a create.\<close>

definition answered_id :: "reply \<Rightarrow> string option" where
  "answered_id rep =
     (case rep of
        Reply (JObj d) \<Rightarrow>
          (case dict_get d ''data'' of
             Some (JObj e) \<Rightarrow> (case dict_get e ''id'' of Some (JStr gid) \<Rightarrow> Some gid | _ \<Rightarrow> None)
           | _ \<Rightarrow> None)
      | _ \<Rightarrow> None)"

fun learned :: "(string \<rightharpoonup> string) \<Rightarrow> gop \<Rightarrow> reply \<Rightarrow> (string \<rightharpoonup> string)" where
  "learned m (CreateGroup name ext) rep = (case answered_id rep of None \<Rightarrow> m | Some gid \<Rightarrow> m(ext \<mapsto> gid))"
| "learned m _ rep = m"

text \<open>Requests that carry out the operations in order, up to some point.\<close>

fun written :: "'w http \<Rightarrow> api \<Rightarrow> (string \<rightharpoonup> string) \<Rightarrow> gop list \<Rightarrow> (call \<times> reply) list \<Rightarrow> bool" where
  "written H b m ops [] \<longleftrightarrow> True"
| "written H b m [] (e # es) \<longleftrightarrow> False"
| "written H b m (op # ops) ((c, rep) # es) \<longleftrightarrow> c = wire H b m op \<and> inside c \<and> written H b (learned m op rep) ops es"

lemma wire_body:
  "wire H b (dict_get created) op = call_at b (urljoin H (base b) (op_method op)) (Some (JObj (op_body created op)))"
  by (cases op) (auto simp: op_method_def op_body_def target_id_def Let_def)

text \<open>An operation makes the request, and what it remembers is the id in the answer.\<close>

definition carried :: "'w http \<Rightarrow> api \<Rightarrow> (string \<times> string) list \<Rightarrow> gop \<Rightarrow> call \<Rightarrow> reply \<Rightarrow> (string \<times> string) list res \<Rightarrow> bool" where
  "carried H b created op c rep r \<longleftrightarrow>
     c = wire H b (dict_get created) op \<and> inside c \<and>
     (\<forall>x. r = Ok x \<longrightarrow> dict_get x = learned (dict_get created) op rep)"

lemma field_Ok: "field k j s = (Ok v, t) \<Longrightarrow> \<exists>d. j = JObj d \<and> dict_get d k = Some v"
  by (auto simp: field_def raiseE_def retE_def simp del: dict_get_eq_None split: json.splits option.splits)

lemma as_str_Ok: "as_str v s = (Ok x, t) \<Longrightarrow> v = JStr x"
  by (auto simp: as_str_def raiseE_def retE_def split: json.splits)

lemma carried_apply_op: "one_call (carried H b created op) (apply_op H b created op)"
proof -
  let ?q = "request H b (op_method op) (Some (JObj (op_body created op)))"
  have c: "carried H b created op c rep r"
    if "asked H b (op_method op) (Some (JObj (op_body created op))) c rep r1"
      "\<forall>x. r = Ok x \<longrightarrow> dict_get x = learned (dict_get created) op rep" for c rep r r1
    using that unfolding asked_def carried_def wire_body by auto
  have "one_call (carried H b created op) (bindE ?q (\<lambda>result.
      bindE (bindE (get_key ''ok'' result) (\<lambda>okay.
        if okay \<noteq> Some (JBool True) then raiseE (SyncError (''Outline rejected '' @ op_method op)) else retE result)) (\<lambda>result.
        case op of
         CreateGroup name ext \<Rightarrow>
           bindE (field ''data'' result) (\<lambda>d. bindE (field ''id'' d) (\<lambda>i. bindE (as_str i) (\<lambda>gid.
             retE (dict_set ext gid created))))
       | _ \<Rightarrow> retE created)))"
  proof (rule one_call_before[OF one_call_request])
    show "carried H b created op c rep r"
      if a: "asked H b (op_method op) (Some (JObj (op_body created op))) c rep (Ok x)"
        and f: "bindE (bindE (get_key ''ok'' x) (\<lambda>okay.
        if okay \<noteq> Some (JBool True) then raiseE (SyncError (''Outline rejected '' @ op_method op)) else retE x)) (\<lambda>result.
        case op of
         CreateGroup name ext \<Rightarrow>
           bindE (field ''data'' result) (\<lambda>d. bindE (field ''id'' d) (\<lambda>i. bindE (as_str i) (\<lambda>gid.
             retE (dict_set ext gid created))))
       | _ \<Rightarrow> retE created) s = (r, t)" for c rep x s r t
    proof (rule c[OF a], intro allI impI)
      fix y assume "r = Ok y"
      moreover have "rep = Reply x" using a by (simp add: asked_def)
      ultimately show "dict_get y = learned (dict_get created) op rep"
        using f
      proof (cases op)
        case (CreateGroup name ext)
        with f \<open>r = Ok y\<close> obtain z u d u' i u'' gid u3 where
          z: "bindE (get_key ''ok'' x) (\<lambda>okay.
        if okay \<noteq> Some (JBool True) then raiseE (SyncError (''Outline rejected '' @ op_method op)) else retE x) s = (Ok z, u)"
          and 1: "field ''data'' z u = (Ok d, u')" and 2: "field ''id'' d u' = (Ok i, u'')" and 3: "as_str i u'' = (Ok gid, u3)"
          and y: "y = dict_set ext gid created"
          by (auto simp: bindE_Ok_iff)
        from z have "z = x" by (auto simp: bindE_Ok_iff split: if_splits)
        with 1 2 3 obtain e e' where "x = JObj e" "dict_get e ''data'' = Some (JObj e')" "dict_get e' ''id'' = Some (JStr gid)"
          by (auto dest!: field_Ok as_str_Ok)
        then have "answered_id (Reply x) = Some gid" by (simp add: answered_id_def)
        then show ?thesis using CreateGroup y \<open>rep = Reply x\<close> by (auto simp: fun_eq_iff)
      qed (auto simp: bindE_Ok_iff)
    qed
  qed (auto intro!: keeps_parts c split: gop.split)
  then show ?thesis
    unfolding apply_op_def outline_call_def bindE_assoc by (intro one_call_after[OF keeps_progress])
qed

lemma apply_plan_written:
  assumes "foldE (apply_op H b) created ops s = (r, t)"
  shows "\<exists>ws. calls t = calls s @ ws \<and> length ws \<le> length ops \<and> written H b (dict_get created) ops ws \<and>
    (\<forall>x. r = Ok x \<longrightarrow> length ws = length ops)"
  using assms
proof (induction ops arbitrary: created s)
  case Nil
  then show ?case by (auto simp: retE_def)
next
  case (Cons op ops)
  obtain r1 t1 where m: "apply_op H b created op s = (r1, t1)" by (cases "apply_op H b created op s")
  show ?case using one_callD[OF carried_apply_op m]
  proof (elim disjE exE conjE)
    assume 1: "calls t1 = calls s" "\<forall>x. r1 \<noteq> Ok x"
    then have "t = t1" "\<forall>x. r \<noteq> Ok x" using m Cons.prems by (auto simp: bindE_def split: res.splits)
    then show ?thesis using 1 by (intro exI[of _ "[]"]) auto
  next
    fix c rep assume 2: "carried H b created op c rep r1" "calls t1 = calls s @ [(c, rep)]"
    show ?thesis
    proof (cases r1)
      case (Ok cr)
      then have "foldE (apply_op H b) cr ops t1 = (r, t)" using m Cons.prems by (simp add: bindE_def)
      from Cons.IH[OF this] obtain ws where "calls t = calls t1 @ ws" "length ws \<le> length ops"
          "written H b (dict_get cr) ops ws" "\<forall>x. r = Ok x \<longrightarrow> length ws = length ops" by blast
      then show ?thesis using 2 Ok by (intro exI[of _ "(c, rep) # ws"]) (auto simp: carried_def)
    qed (use 2 m Cons.prems in \<open>auto simp: bindE_def carried_def intro!: exI[of _ "[(c, rep)]"]\<close>)
  qed
qed

text \<open>The requests of a synchronisation: the reads that make the plan, then the plan's operations.\<close>

lemma reconcile_calls:
  assumes "reconcile E ak ol slug apply_changes hours s = (r, t)"
  shows "\<exists>p u reads ws. make_plan E ak ol slug hours s = (p, u) \<and> calls u = calls s @ reads \<and> calls t = calls u @ ws \<and>
    list_all (\<lambda>e. read_call (net E) ak ol (fst e)) reads \<and>
    (ws = [] \<or> apply_changes \<and> (\<exists>ops. p = Ok ops \<and> written (net E) ol Map.empty ops ws)) \<and>
    (\<forall>b ops. r = Ok (b, ops) \<longrightarrow> b = apply_changes \<and> p = Ok ops \<and> length ws = (if apply_changes then length ops else 0))"
proof -
  obtain p u where m: "make_plan E ak ol slug hours s = (p, u)" by (cases "make_plan E ak ol slug hours s")
  obtain reads where reads: "calls u = calls s @ reads" "list_all (\<lambda>e. read_call (net E) ak ol (fst e)) reads"
    using keepsD[OF keeps_make_plan m] by (auto simp: calls_only_def)
  have "\<exists>ws. calls t = calls u @ ws \<and>
    (ws = [] \<or> apply_changes \<and> (\<exists>ops. p = Ok ops \<and> written (net E) ol Map.empty ops ws)) \<and>
    (\<forall>b ops. r = Ok (b, ops) \<longrightarrow> b = apply_changes \<and> p = Ok ops \<and> length ws = (if apply_changes then length ops else 0))"
  proof (cases "\<exists>ops. p = Ok ops \<and> apply_changes")
    case True
    then obtain ops where ops: "p = Ok ops" and ap: "apply_changes" by blast
    obtain r2 t2 where a: "foldE (apply_op (net E) ol) [] ops u = (r2, t2)"
      by (cases "foldE (apply_op (net E) ol) [] ops u")
    have "(r, t) = (case r2 of Ok x \<Rightarrow> (Ok (True, ops), t2) | Exc e \<Rightarrow> (Exc e, t2) | Halt \<Rightarrow> (Halt, t2))"
      unfolding assms[symmetric]
      by (simp add: reconcile_def apply_plan_def bindE_def m a ops ap retE_def split: res.split)
    then have t: "t = t2" and r: "\<forall>b os. r = Ok (b, os) \<longrightarrow> b \<and> os = ops \<and> (\<exists>x. r2 = Ok x)"
      by (auto split: res.splits)
    have e: "dict_get [] = (Map.empty :: string \<rightharpoonup> string)" by (simp add: fun_eq_iff dict_get_def)
    obtain ws where ws: "calls t2 = calls u @ ws" "written (net E) ol Map.empty ops ws" "\<forall>x. r2 = Ok x \<longrightarrow> length ws = length ops"
      using apply_plan_written[OF a] unfolding e by blast
    then show ?thesis using t r ops ap by (intro exI[of _ ws]) auto
  next
    case False
    then have "t = u" "\<forall>b ops. r = Ok (b, ops) \<longrightarrow> b = apply_changes \<and> p = Ok ops \<and> \<not> apply_changes"
      using assms m by (auto simp: reconcile_def bindE_def retE_def split: res.splits if_splits)
    then show ?thesis by (intro exI[of _ "[]"]) auto
  qed
  then show ?thesis using m reads by auto
qed

section \<open>The configured servers\<close>

text \<open>
  A request of the client that the environment configures under a name: its URL is below the configured one,
  which is an https URL, and it carries the token configured under the same name.
\<close>

definition from_client :: "(string \<times> string) list \<Rightarrow> string \<Rightarrow> call \<Rightarrow> bool" where
  "from_client env name c \<longleftrightarrow>
     (\<exists>u. dict_get env (name @ ''_URL'') = Some u \<and> url_scheme u = ''https'' \<and> c_base c = rstrip_slash u @ ''/'' \<and>
        startswith (c_url c) (rstrip_slash u @ ''/'') \<and> dict_get env (name @ ''_TOKEN'') = Some (c_token c))"

definition configured :: "(string \<times> string) list \<Rightarrow> string \<Rightarrow> api \<Rightarrow> bool" where
  "configured env name b \<longleftrightarrow>
     (\<exists>u. dict_get env (name @ ''_URL'') = Some u \<and> url_scheme u = ''https'' \<and> base b = rstrip_slash u @ ''/'' \<and>
        dict_get env (name @ ''_TOKEN'') = Some (token b))"

text \<open>GET requests of the Authentik client, and POST requests of the Outline client.\<close>

definition rightly_sent :: "(string \<times> string) list \<Rightarrow> call \<Rightarrow> bool" where
  "rightly_sent env c \<longleftrightarrow> url_fragment (c_url c) = [] \<and>
     (if c_body c = None then from_client env ''AUTHENTIK'' c else from_client env ''OUTLINE'' c)"

lemma keeps_new_api: "keeps (calls_only A) (new_api u tok)"
  unfolding new_api_def by (intro keeps_parts)

lemma client_call:
  assumes "configured env name b" and "by_client b c" and "inside c"
  shows "from_client env name c"
  using assms by (auto simp: configured_def by_client_def inside_def from_client_def)

lemma written_sent:
  assumes "configured env ''OUTLINE'' ol"
  shows "written H ol m ops ws \<Longrightarrow> list_all (\<lambda>e. rightly_sent env (fst e)) ws"
proof (induction ops arbitrary: m ws)
  case Nil
  then show ?case by (cases ws) auto
next
  case (Cons op ops)
  show ?case
  proof (cases ws)
    case (Cons e es)
    obtain c rep where e: "e = (c, rep)" by (cases e)
    then have w: "c = wire H ol m op" "inside c" "written H ol (learned m op rep) ops es"
      using Cons.prems \<open>ws = e # es\<close> by auto
    have "by_client ol c" "c_body c \<noteq> None" unfolding w(1) by (cases op; simp add: by_client_def call_at_def)+
    then have "rightly_sent env c"
      using client_call[OF assms _ w(2)] w(2) by (auto simp: rightly_sent_def inside_def)
    then show ?thesis using Cons.IH[OF w(3)] \<open>ws = e # es\<close> e by simp
  qed simp
qed

lemma reads_sent:
  assumes "configured env ''AUTHENTIK'' ak" and "configured env ''OUTLINE'' ol" and "read_call H ak ol c"
  shows "rightly_sent env c"
  using assms client_call[OF assms(1), of c] client_call[OF assms(2), of c]
  by (auto simp: read_call_def rightly_sent_def inside_def)

lemma keeps_reconcile_sent:
  assumes "configured env ''AUTHENTIK'' ak" and "configured env ''OUTLINE'' ol"
  shows "keeps (calls_only (rightly_sent env)) (reconcile E ak ol slug apply_changes hours)"
  unfolding keeps_def
proof
  fix s
  obtain r t where r: "reconcile E ak ol slug apply_changes hours s = (r, t)"
    by (cases "reconcile E ak ol slug apply_changes hours s")
  obtain u :: "'a hst" and reads ws where c: "calls u = calls s @ reads" "calls t = calls u @ ws"
      "list_all (\<lambda>e. read_call (net E) ak ol (fst e)) reads"
      "ws = [] \<or> (\<exists>ops. written (net E) ol Map.empty ops ws)"
    using reconcile_calls[OF r] by blast
  have "list_all (\<lambda>e. rightly_sent env (fst e)) reads"
    using c(3) reads_sent[OF assms] by (auto simp: list_all_iff)
  moreover have "list_all (\<lambda>e. rightly_sent env (fst e)) ws"
    using c(4) written_sent[OF assms(2)] by auto
  ultimately show "calls_only (rightly_sent env) s (snd (reconcile E ak ol slug apply_changes hours s))"
    using c(1,2) r by (auto simp: calls_only_def)
qed

lemma yields_new_api:
  assumes "dict_get env (name @ ''_URL'') = Some u" and "dict_get env (name @ ''_TOKEN'') = Some tok"
  shows "yields (new_api u tok) (configured env name)"
  unfolding new_api_def using assms by (auto simp: configured_def intro!: yields_if yields_ret yields_raise)

lemma keeps_need:
  assumes "\<And>v. x = Some v \<Longrightarrow> keeps (calls_only A) (f v)"
  shows "keeps (calls_only A) (bindE (need x) f)"
  using assms by (cases x) (auto simp: need_def intro: requests.keeps_raise)

lemma keeps_activity_sent: "keeps (calls_only (rightly_sent env)) (reconcile_outline_groups E env)"
proof -
  have "keeps (calls_only (rightly_sent env)) (from_env E env a)" for a
    unfolding from_env_def
  proof (intro keeps_need)
    fix au atok
    assume 1: "dict_get env ''AUTHENTIK_URL'' = Some au" "dict_get env ''AUTHENTIK_TOKEN'' = Some atok"
    have ak: "yields (new_api au atok) (configured env ''AUTHENTIK'')" by (rule yields_new_api) (simp_all add: 1)
    show "keeps (calls_only (rightly_sent env)) (bindE (new_api au atok) (\<lambda>ak.
     bindE (need (dict_get env ''OUTLINE_URL'')) (\<lambda>ou. bindE (need (dict_get env ''OUTLINE_TOKEN'')) (\<lambda>otok.
     bindE (new_api ou otok) (\<lambda>ol.
       case to_float E (env_get env ''LDAP_MAX_AGE_HOURS'' ''24'') of
         None \<Rightarrow> raiseE ValueError
       | Some hours \<Rightarrow>
           reconcile E ak ol (env_get env ''AUTHENTIK_LDAP_SOURCE'' ''krg-samba-ad'') a hours)))))"
    proof (rule requests.keeps_bindP[OF keeps_new_api ak], intro keeps_need)
      fix ak ou otok
      assume c: "configured env ''AUTHENTIK'' ak"
        and 2: "dict_get env ''OUTLINE_URL'' = Some ou" "dict_get env ''OUTLINE_TOKEN'' = Some otok"
      have ol: "yields (new_api ou otok) (configured env ''OUTLINE'')" by (rule yields_new_api) (simp_all add: 2)
      show "keeps (calls_only (rightly_sent env)) (bindE (new_api ou otok) (\<lambda>ol.
       case to_float E (env_get env ''LDAP_MAX_AGE_HOURS'' ''24'') of
         None \<Rightarrow> raiseE ValueError
       | Some hours \<Rightarrow>
           reconcile E ak ol (env_get env ''AUTHENTIK_LDAP_SOURCE'' ''krg-samba-ad'') a hours))"
        by (rule requests.keeps_bindP[OF keeps_new_api ol])
          (auto split: option.split intro!: keeps_reconcile_sent c requests.keeps_raise)
    qed
  qed
  then show ?thesis
    unfolding reconcile_outline_groups_def Let_def split_beta by (intro keeps_parts)
qed

end
