(* ===== verification/Outline_Listing.thy ===== *)
theory Outline_Listing
  imports Outline_Calls
begin

text \<open>
  Listings against a server that pages through a fixed list, as the two services document: the
  client ends and returns exactly that list.
\<close>

section \<open>Programs with one possible result\<close>

definition gives :: "('s, 'a) eff \<Rightarrow> 'a \<Rightarrow> bool" where
  "gives m x \<longleftrightarrow> (\<forall>s. fst (m s) = Ok x)"

named_theorems gives_intros

lemma gives_ret [gives_intros]: "gives (retE x) x"
  by (simp add: gives_def)

lemma gives_bind:
  assumes "gives m x" and "gives (f x) y"
  shows "gives (bindE m f) y"
  unfolding gives_def
proof
  fix s
  obtain t where "m s = (Ok x, t)" using assms(1) by (metis gives_def prod.collapse)
  then show "fst (bindE m f s) = Ok y" using assms(2) by (simp add: bindE_def gives_def)
qed

lemma givesD: "gives m x \<Longrightarrow> fst (m s) = Ok x"
  by (simp add: gives_def)

section \<open>Servers\<close>

text \<open>
  The progress callback returns. The server answers a request with a document: the URL that \<open>urljoin\<close> makes of
  this one path is below the base URL and has no fragment, and whenever the client sends the request, the answer is
  the document.
\<close>

definition alive :: "'w http \<Rightarrow> bool" where
  "alive H \<longleftrightarrow> (\<forall>w. fst (heartbeat H w) = Ok ())"

definition answers :: "'w http \<Rightarrow> api \<Rightarrow> string \<Rightarrow> json option \<Rightarrow> json \<Rightarrow> bool" where
  "answers H b path body j \<longleftrightarrow>
     startswith (urljoin H (base b) path) (base b) \<and> url_fragment (urljoin H (base b) path) = [] \<and>
     (\<forall>w. fst (send H (call_at b (urljoin H (base b) path) body) w) = Reply j)"

lemma gives_request:
  assumes "alive H" and "answers H b path body (JObj d)"
  shows "gives (request H b path body) (JObj d)"
proof -
  have "gives (progress H) ()"
    using assms(1) by (auto simp: gives_def progress_def alive_def split: prod.split) (metis fst_conv)
  moreover have "gives (transmit H (call_at b (urljoin H (base b) path) body)) (Reply (JObj d))"
    using assms(2) by (auto simp: gives_def transmit_def answers_def split: prod.split) (metis fst_conv)
  moreover have "gives (answer (Reply (JObj d))) (JObj d)" by (simp add: answer_def gives_ret)
  ultimately show ?thesis
    using assms(2) unfolding request_def Let_def answers_def call_at_def[symmetric] by (auto intro!: gives_bind)
qed

section \<open>Rows with distinct keys\<close>

definition keyed :: "string \<Rightarrow> json list \<Rightarrow> bool" where
  "keyed k rows \<longleftrightarrow> (\<exists>vs. distinct vs \<and> list_all hashable vs \<and>
     list_all2 (\<lambda>row v. \<exists>d. row = JObj d \<and> dict_get d k = Some v) rows vs)"

lemma gives_check_new:
  assumes "list_all2 (\<lambda>row v. \<exists>d. row = JObj d \<and> dict_get d k = Some v) rows vs"
    and "distinct (vs @ seen)" and "list_all hashable vs"
  shows "gives (check_new who k seen rows) (rev vs @ seen)"
  using assms
proof (induction rows vs arbitrary: seen rule: list_all2_induct)
  case Nil
  show ?case by (simp add: gives_ret)
next
  case (Cons row rows v vs)
  show ?case
    unfolding check_new.simps
    by (rule gives_bind[where x = v]) (use Cons in \<open>auto simp: field_def gives_ret intro!: Cons.IH\<close>)
qed

text \<open>A window of a list with distinct keys, after what has been seen.\<close>

lemma gives_check_window:
  assumes "list_all2 (\<lambda>row v. \<exists>d. row = JObj d \<and> dict_get d k = Some v) L vs" and "distinct vs" and "list_all hashable vs"
  shows "gives (check_new who k (rev (take o1 vs)) (take n (drop o1 L))) (rev (take (o1 + n) vs))"
proof -
  have "list_all2 (\<lambda>row v. \<exists>d. row = JObj d \<and> dict_get d k = Some v) (take n (drop o1 L)) (take n (drop o1 vs))"
    using assms(1) by (intro list_all2_takeI list_all2_dropI)
  moreover have "distinct (take n (drop o1 vs) @ rev (take o1 vs))"
  proof -
    have "distinct (take o1 vs @ take n (drop o1 vs))"
      using assms(2) by (metis distinct_take take_add)
    then show ?thesis by auto
  qed
  moreover have "list_all hashable (take n (drop o1 vs))"
    using assms(3) by (auto simp: list_all_iff dest!: in_set_takeD in_set_dropD)
  ultimately have "gives (check_new who k (rev (take o1 vs)) (take n (drop o1 L)))
      (rev (take n (drop o1 vs)) @ rev (take o1 vs))"
    by (rule gives_check_new)
  then show ?thesis by (simp add: take_add)
qed

section \<open>Outline\<close>

definition in_key :: "string option \<Rightarrow> json \<Rightarrow> json" where
  "in_key key j = (case key of None \<Rightarrow> j | Some k \<Rightarrow> JObj [(k, j)])"

definition outline_answer :: "string option \<Rightarrow> json list \<Rightarrow> nat \<Rightarrow> (string \<times> json) list" where
  "outline_answer key L o1 =
     [(''ok'', JBool True), (''pagination'', JObj [(''total'', JNum (int (length L)))]),
      (''data'', in_key key (JArr (take 100 (drop o1 L))))]"

definition outline_serves :: "'w http \<Rightarrow> api \<Rightarrow> string \<Rightarrow> string option \<Rightarrow> (string \<times> json) list \<Rightarrow> json list \<Rightarrow> bool" where
  "outline_serves H b meth key body L \<longleftrightarrow>
     (\<forall>p. p = 0 \<or> 100 * p < length L \<longrightarrow> answers H b meth (Some (JObj ([(''offset'', JNum (int (100 * p))), (''limit'', JNum 100)] @ body)))
        (JObj (outline_answer key L (100 * p))))"

lemma gives_outline_page:
  assumes "alive H" and "outline_serves H b meth key body L" and "o1 = 100 * p" and "p = 0 \<or> o1 < length L"
  shows "gives (outline_page H b meth key body (int o1)) (int (length L), JObj (outline_answer key L o1))"
proof -
  have "gives (request H b meth (Some (JObj ([(''offset'', JNum (int o1)), (''limit'', JNum 100)] @ body))))
      (JObj (outline_answer key L o1))"
    by (rule gives_request[OF assms(1)]) (use assms(2,4) in \<open>unfold assms(3) outline_serves_def, blast\<close>)
  moreover have "dict_get (outline_answer key L o1) ''ok'' = Some (JBool True)"
    "dict_get (outline_answer key L o1) ''pagination'' = Some (JObj [(''total'', JNum (int (length L)))])"
    by (simp_all add: outline_answer_def)
  ultimately show ?thesis
    unfolding outline_page_def outline_call_def
    by (auto intro!: gives_bind[of "request H b meth _"] gives_ret simp: bindE_assoc get_key_def field_def as_int_def)
qed

lemma gives_outline_data: "gives (outline_data key (JObj (outline_answer key L o1))) (JArr (take 100 (drop o1 L)))"
  by (auto simp: outline_data_def field_def outline_answer_def in_key_def gives_ret split: option.split)

lemma gives_outline_pages:
  assumes "alive H" and "outline_serves H b meth key body L"
    and vs: "list_all2 (\<lambda>row v. \<exists>d. row = JObj d \<and> dict_get d ''id'' = Some v) L vs" "distinct vs" "list_all hashable vs"
    and "known = None \<or> known = Some (int (length L))" and "p = 0 \<or> 100 * p < length L"
  shows "gives (outline_pages H b meth key body known (int (100 * p)) (take (100 * p) L) (rev (take (100 * p) vs))) L"
  using assms(6,7)
proof (induction "length L - 100 * p" arbitrary: known p rule: less_induct)
  case less
  define o1 where "o1 = 100 * p"
  have o1: "100 * Suc p = o1 + 100" by (simp add: o1_def)
  let ?B = "take 100 (drop o1 L)"
  have batch: "take o1 L @ ?B = take (o1 + 100) L" by (simp add: take_add)
  have step: "gives (outline_pages H b meth key body (Some (int (length L))) (int (o1 + 100)) (take (o1 + 100) L)
      (rev (take (o1 + 100) vs))) L" if "o1 + 100 < length L"
    unfolding o1[symmetric] by (rule less.hyps) (use that in \<open>auto simp: o1_def\<close>)
  have pages: "gives (if o1 + length ?B = length L then retE (take o1 L @ ?B)
      else if ?B = [] \<or> int (length L) < int o1 + int (length ?B)
      then raiseE (SyncError ''Incomplete Outline pagination'')
      else outline_pages H b meth key body (Some (int (length L))) (int o1 + int (length ?B)) (take o1 L @ ?B)
        (rev (take (o1 + 100) vs))) L"
  proof (cases "o1 + 100 < length L")
    case True
    then have "length ?B = 100" by simp
    then show ?thesis using step[OF True] True unfolding batch by (auto simp: add.commute)
  next
    case False
    then show ?thesis using less.prems(2) by (auto simp: batch gives_ret o1_def)
  qed
  have at: "p = 0 \<or> o1 < length L" using less.prems(2) by (simp add: o1_def)
  have t: "(case known of None \<Rightarrow> int (length L) | Some k \<Rightarrow> k) = int (length L)" using less.prems(1) by auto
  show ?case
    unfolding o1_def[symmetric] outline_pages.simps[of H b meth key body known]
  proof (rule gives_bind[OF gives_outline_page[OF assms(1,2) o1_def at]], simp only: prod.case Let_def t simp_thms if_False,
      rule gives_bind[OF gives_outline_data], rule gives_bind)
    show "gives (batch_of ''Outline'' (JArr ?B)) ?B" by (simp add: batch_of_def gives_ret)
  qed (rule gives_bind[OF gives_check_window[OF vs]], insert pages, simp only: int_plus[symmetric] of_nat_eq_iff)
qed

lemma outline_list_complete:
  assumes "alive H" and "outline_serves H b meth key body L" and "keyed ''id'' L"
  shows "gives (outline_list H b meth key body) L"
proof -
  obtain vs where "list_all2 (\<lambda>row v. \<exists>d. row = JObj d \<and> dict_get d ''id'' = Some v) L vs" "distinct vs" "list_all hashable vs"
    using assms(3) by (auto simp: keyed_def)
  from gives_outline_pages[OF assms(1,2) this, of None 0] show ?thesis by (simp add: outline_list_def)
qed

section \<open>Authentik\<close>

definition ak_path :: "string \<Rightarrow> int \<Rightarrow> string" where
  "ak_path path p =
     path @ (if contains path ''?'' then ''&'' else ''?'') @ ''page='' @ str_int p @ ''&page_size=100''"

text \<open>The \<open>p\<close>-th page, counted from 0; \<open>next\<close> is 0 on the last one.\<close>

definition ak_pagination :: "json list \<Rightarrow> nat \<Rightarrow> json" where
  "ak_pagination L p = JObj
     [(''next'', JNum (if 100 * Suc p < length L then int p + 2 else 0)), (''count'', JNum (int (length L))),
      (''total_pages'', JNum (int ((length L + 99) div 100)))]"

definition ak_answer :: "json list \<Rightarrow> nat \<Rightarrow> (string \<times> json) list" where
  "ak_answer L p = [(''pagination'', ak_pagination L p), (''results'', JArr (take 100 (drop (100 * p) L)))]"

definition ak_serves :: "'w http \<Rightarrow> api \<Rightarrow> string \<Rightarrow> json list \<Rightarrow> bool" where
  "ak_serves H b path L \<longleftrightarrow> (\<forall>p. p = 0 \<or> 100 * p < length L \<longrightarrow> answers H b (ak_path path (int (Suc p))) None (JObj (ak_answer L p)))"

lemma gives_ak_page:
  assumes "alive H" and "ak_serves H b path L" and "p = 0 \<or> 100 * p < length L"
  shows "gives (ak_page H b path (int (Suc p))) (JObj (ak_answer L p), ak_pagination L p)"
proof -
  have "gives (request H b (ak_path path (int (Suc p))) None) (JObj (ak_answer L p))"
    by (rule gives_request[OF assms(1)]) (use assms(2,3) in \<open>simp only: ak_serves_def\<close>)
  then show ?thesis
    unfolding ak_page_def ak_path_def[symmetric]
    by (rule gives_bind) (simp add: field_def ak_answer_def gives_ret)
qed

lemma gives_ak_counts: "gives (ak_counts (ak_pagination L p)) (int ((length L + 99) div 100), int (length L))"
  by (simp add: ak_counts_def ak_pagination_def field_def as_int_def gives_ret)

lemma gives_ak_pages:
  assumes "alive H" and "ak_serves H b path L"
    and vs: "list_all2 (\<lambda>row v. \<exists>d. row = JObj d \<and> dict_get d ''pk'' = Some v) L vs" "distinct vs" "list_all hashable vs"
    and "known = None \<or> known = Some (int ((length L + 99) div 100), int (length L))" and "p = 0 \<or> 100 * p < length L"
  shows "gives (ak_pages H b path known (int (Suc p)) (take (100 * p) L) (rev (take (100 * p) vs))) L"
  using assms(6,7)
proof (induction "length L - 100 * p" arbitrary: known p rule: less_induct)
  case less
  let ?o = "100 * p" and ?N = "int ((length L + 99) div 100)"
  let ?B = "take 100 (drop ?o L)"
  have batch: "take ?o L @ ?B = take (?o + 100) L" by (simp add: take_add)
  have step: "gives (ak_pages H b path (Some (?N, int (length L))) (int (Suc (Suc p))) (take (100 * Suc p) L)
      (rev (take (100 * Suc p) vs))) L" if "100 * Suc p < length L"
    by (rule less.hyps) (use that in auto)
  have pages: "gives (if \<not> truthy (JNum (if 100 * Suc p < length L then int p + 2 else 0)) then
      (if int (length (take ?o L @ ?B)) \<noteq> int (length L) \<or> int (Suc p) \<noteq> max 1 ?N
       then raiseE (SyncError ''Incomplete Authentik pagination'') else retE (take ?o L @ ?B))
     else if ?B = [] \<or> ?N \<le> int (Suc p) then raiseE (SyncError ''Invalid Authentik pagination'')
     else ak_pages H b path (Some (?N, int (length L))) (int (Suc p) + 1) (take ?o L @ ?B) (rev (take (?o + 100) vs))) L"
  proof (cases "100 * Suc p < length L")
    case True
    then have "?B \<noteq> []" "\<not> ?N \<le> int (Suc p)" by auto
    then show ?thesis using step[OF True] True unfolding batch by (simp add: truthy_def add.commute)
  next
    case False
    then have "max 1 ?N = int (Suc p)" using less.prems(2) by auto
    then show ?thesis using False by (auto simp: batch truthy_def gives_ret)
  qed
  have t: "(case known of None \<Rightarrow> (?N, int (length L)) | Some k \<Rightarrow> k) = (?N, int (length L))" using less.prems(1) by auto
  have rows: "gives (batch_of ''Authentik'' (JArr ?B)) ?B" by (simp add: batch_of_def gives_ret)
  have more: "gives (field ''next'' (ak_pagination L p)) (JNum (if 100 * Suc p < length L then int p + 2 else 0))"
    by (simp add: ak_pagination_def field_def gives_ret)
  have at: "p = 0 \<or> 100 * p < length L" by (rule less.prems(2))
  show ?case
    unfolding ak_pages.simps[of H b path known]
  proof (rule gives_bind[OF gives_ak_page[OF assms(1,2) at]], unfold prod.case, rule gives_bind[OF gives_ak_counts],
      simp only: prod.case Let_def t simp_thms if_False, rule gives_bind[where x = "JArr ?B"])
    show "gives (field ''results'' (JObj (ak_answer L p))) (JArr ?B)"
      by (simp add: field_def ak_answer_def gives_ret)
  qed (rule gives_bind[OF rows], rule gives_bind[OF gives_check_window[OF vs]], rule gives_bind[OF more], rule pages)
qed

lemma authentik_list_complete:
  assumes "alive H" and "ak_serves H b path L" and "keyed ''pk'' L"
  shows "gives (authentik_list H b path) L"
proof -
  obtain vs where "list_all2 (\<lambda>row v. \<exists>d. row = JObj d \<and> dict_get d ''pk'' = Some v) L vs" "distinct vs" "list_all hashable vs"
    using assms(3) by (auto simp: keyed_def)
  from gives_ak_pages[OF assms(1,2) this, of None 0] show ?thesis by (simp add: authentik_list_def)
qed

end
