(* ===== verification/Outline_Claims.thy ===== *)
theory Outline_Claims
  imports Outline_Listing
begin

text \<open>
  The properties of the Outline group synchronisation, with a small directory to run it on.
\<close>

section \<open>An example\<close>

definition eo_groups :: "ak_group list" where
  "eo_groups = [\<lparr>g_pk = ''g2'', g_name = ''ops''\<rparr>, \<lparr>g_pk = ''g1'', g_name = ''lab''\<rparr>]"

definition eo_ak_users :: "ak_user list" where
  "eo_ak_users =
     [\<lparr>u_email = ''alice@x'', u_active = Some True, u_type = Some ''internal'', u_groups = Some [''g1'', ''g2'']\<rparr>,
      \<lparr>u_email = ''bob@x'', u_active = Some False, u_type = Some ''internal'', u_groups = Some [''g1'']\<rparr>]"

definition eo_users :: "ol_user list" where
  "eo_users = [\<lparr>m_id = ''u1'', m_email = ''alice@x'', m_suspended = False, m_role = ''member''\<rparr>,
     \<lparr>m_id = ''u2'', m_email = ''bob@x'', m_suspended = False, m_role = ''member''\<rparr>]"

definition eo_ol_groups :: "ol_group list" where
  "eo_ol_groups =
     [\<lparr>ol_id = ''o1'', ol_name = ''lab'', ol_external = [], ol_external_group = False\<rparr>,
      \<lparr>ol_id = ''o9'', ol_name = ''old'', ol_external = ''krg-ldap:S:gone'', ol_external_group = False\<rparr>,
      \<lparr>ol_id = ''o5'', ol_name = ''private'', ol_external = [], ol_external_group = False\<rparr>]"

definition eo_memberships :: "(string \<times> string list) list" where
  "eo_memberships = [(''o1'', [''u2'']), (''o9'', [''u1''])]"

definition eo_plan :: "gop list" where
  "eo_plan = [UpdateGroup ''o1'' ''lab'' ''krg-ldap:S:g1'', AddUser ''o1'' ''u1'', RemoveUser ''o1'' ''u2'',
     CreateGroup ''ops'' ''krg-ldap:S:g2'', AddUser ''krg-ldap:S:g2'' ''u1'', RemoveUser ''o9'' ''u1'']"

definition eo_members :: members where
  "eo_members i = (if i = ''o1'' then {''u2''} else if i = ''o9'' then {''u1''} else if i = ''o5'' then {''u2''} else {})"

lemma eo_run:
  "plan_sync ''S'' eo_groups eo_ak_users eo_ol_groups eo_users eo_memberships () = (Ok eo_plan, ())"
  by code_simp

text \<open>
  \<open>urljoin\<close> as the standard library has it for paths without dot segments: an absolute URL and a path from the
  root replace what is in the base, and a relative path is put behind the base, which ends in a slash.
\<close>

definition eo_join :: "string \<Rightarrow> string \<Rightarrow> string" where
  "eo_join b p =
     (if url_scheme p \<noteq> [] then p
      else if startswith p ''/'' then take (8 + length (takeWhile (\<lambda>c. c \<noteq> CHR ''/'') (drop 8 b))) b @ p
      else b @ p)"

definition eo_ak :: api where
  "eo_ak = \<lparr>base = ''https://a/'', token = ''s1''\<rparr>"

definition eo_ol :: api where
  "eo_ol = \<lparr>base = ''https://o/'', token = ''s2''\<rparr>"

text \<open>Two services with one group and one user each. The group has no counterpart in Outline yet.\<close>

definition eo_links :: "json list" where
  "eo_links = [JObj [(''pk'', JStr ''c''), (''source'', JStr ''S''), (''group'', JStr ''g1'')]]"

definition eo_gs :: "json list" where
  "eo_gs = [JObj [(''pk'', JStr ''g1''), (''name'', JStr ''lab'')]]"

definition eo_us :: "json list" where
  "eo_us = [JObj [(''pk'', JStr ''p''), (''email'', JStr ''a@x''), (''is_active'', JBool True), (''type'', JStr ''internal''),
     (''groups'', JArr [JStr ''g1''])]]"

definition eo_mine :: "json list" where
  "eo_mine = [JObj [(''id'', JStr ''u1''), (''email'', JStr ''a@x''), (''role'', JStr ''member'')]]"

definition eo_source :: json where
  "eo_source = JObj [(''enabled'', JBool True), (''sync_groups'', JBool True), (''pk'', JStr ''S'')]"

definition eo_status :: json where
  "eo_status = JObj [(''is_running'', JBool False), (''last_sync_status'', JStr ''done''), (''last_successful_sync'', JStr ''t'')]"

definition eo_docs :: "(string \<times> json) list" where
  "eo_docs =
     [(''https://a/sources/ldap/x/'', eo_source),
      (''https://a/sources/ldap/x/sync/status/'', eo_status),
      (''https://a/sources/group_connections/ldap/?page=1&page_size=100'', JObj (ak_answer eo_links 0)),
      (''https://a/core/groups/?page=1&page_size=100'', JObj (ak_answer eo_gs 0)),
      (''https://a/core/users/?page=1&page_size=100'', JObj (ak_answer eo_us 0)),
      (''https://o/users.list'', JObj (outline_answer None eo_mine 0)),
      (''https://o/groups.list'', JObj (outline_answer (Some ''groups'') [] 0)),
      (''https://o/groups.create'', JObj [(''ok'', JBool True), (''data'', JObj [(''id'', JStr ''n7'')])]),
      (''https://o/groups.add_user'', JObj [(''ok'', JBool True)])]"

definition eo_host :: "unit host" where
  "eo_host = \<lparr>net = \<lparr>urljoin = eo_join,
       send = (\<lambda>c w. (case dict_get eo_docs (c_url c) of None \<Rightarrow> HttpFailed | Some j \<Rightarrow> Reply j, w)), heartbeat = (\<lambda>w. (Ok (), w))\<rparr>,
     now_utc = (\<lambda>_. 0), fromisoformat = (\<lambda>_. Some 0), to_float = (\<lambda>_. Some 24)\<rparr>"

definition eo_start :: "unit hst" where
  "eo_start = \<lparr>hworld = (), calls = []\<rparr>"

lemma eo_alive: "alive (net eo_host)"
  by (simp add: alive_def eo_host_def)

lemma eo_answers:
  assumes "dict_get eo_docs (eo_join (base b) path) = Some j" and "startswith (eo_join (base b) path) (base b)"
    and "url_fragment (eo_join (base b) path) = []"
  shows "answers (net eo_host) b path body j"
  using assms by (simp add: answers_def eo_host_def call_at_def)

text \<open>What the two services give, request by request.\<close>

lemma eo_served:
  "answers (net eo_host) eo_ak ''sources/ldap/x/'' None eo_source"
  "answers (net eo_host) eo_ak ''sources/ldap/x/sync/status/'' None eo_status"
  "answers (net eo_host) eo_ak (ak_path ''sources/group_connections/ldap/'' 1) None (JObj (ak_answer eo_links 0))"
  "answers (net eo_host) eo_ak (ak_path ''core/groups/'' 1) None (JObj (ak_answer eo_gs 0))"
  "answers (net eo_host) eo_ak (ak_path ''core/users/'' 1) None (JObj (ak_answer eo_us 0))"
  "answers (net eo_host) eo_ol ''users.list'' body (JObj (outline_answer None eo_mine 0))"
  "answers (net eo_host) eo_ol ''groups.list'' body (JObj (outline_answer (Some ''groups'') [] 0))"
  "answers (net eo_host) eo_ol ''groups.create'' body (JObj [(''ok'', JBool True), (''data'', JObj [(''id'', JStr ''n7'')])])"
  "answers (net eo_host) eo_ol ''groups.add_user'' body (JObj [(''ok'', JBool True)])"
  by (rule eo_answers; code_simp)+

lemma eo_keyed: "keyed ''pk'' eo_links" "keyed ''pk'' eo_gs" "keyed ''pk'' eo_us" "keyed ''id'' eo_mine" "keyed ''id'' []"
  unfolding keyed_def eo_links_def eo_gs_def eo_us_def eo_mine_def
  by (rule exI[of _ "[JStr _]"] exI[of _ "[]"]; simp add: hashable_def)+

lemma eo_lists:
  "gives (authentik_list (net eo_host) eo_ak ''sources/group_connections/ldap/'') eo_links"
  "gives (authentik_list (net eo_host) eo_ak ''core/groups/'') eo_gs"
  "gives (authentik_list (net eo_host) eo_ak ''core/users/'') eo_us"
  "gives (outline_list (net eo_host) eo_ol ''users.list'' None []) eo_mine"
  "gives (outline_list (net eo_host) eo_ol ''groups.list'' (Some ''groups'') []) []"
proof -
  have a: "ak_serves (net eo_host) eo_ak path L"
    if "answers (net eo_host) eo_ak (ak_path path 1) None (JObj (ak_answer L 0))" "length L = 1" for path L
    using that by (auto simp: ak_serves_def)
  have o: "outline_serves (net eo_host) eo_ol m k [] L"
    if "\<And>body. answers (net eo_host) eo_ol m body (JObj (outline_answer k L 0))" "length L \<le> 1" for m k L
    unfolding outline_serves_def
  proof (intro allI impI)
    fix p :: nat assume "p = 0 \<or> 100 * p < length L"
    then have "p = 0" using that(2) by auto
    then show "answers (net eo_host) eo_ol m (Some (JObj ([(''offset'', JNum (int (100 * p))), (''limit'', JNum 100)] @ [])))
        (JObj (outline_answer k L (100 * p)))" using that(1) by simp
  qed
  show "gives (authentik_list (net eo_host) eo_ak ''sources/group_connections/ldap/'') eo_links"
    by (rule authentik_list_complete[OF eo_alive a[OF eo_served(3)] eo_keyed(1)]) (simp add: eo_links_def)
  show "gives (authentik_list (net eo_host) eo_ak ''core/groups/'') eo_gs"
    by (rule authentik_list_complete[OF eo_alive a[OF eo_served(4)] eo_keyed(2)]) (simp add: eo_gs_def)
  show "gives (authentik_list (net eo_host) eo_ak ''core/users/'') eo_us"
    by (rule authentik_list_complete[OF eo_alive a[OF eo_served(5)] eo_keyed(3)]) (simp add: eo_us_def)
  show "gives (outline_list (net eo_host) eo_ol ''users.list'' None []) eo_mine"
    by (rule outline_list_complete[OF eo_alive o[OF eo_served(6)] eo_keyed(4)]) (simp add: eo_mine_def)
  show "gives (outline_list (net eo_host) eo_ol ''groups.list'' (Some ''groups'') []) []"
    by (rule outline_list_complete[OF eo_alive o[OF eo_served(7)] eo_keyed(5)]) simp
qed

definition eo_ops :: "gop list" where
  "eo_ops = [CreateGroup ''lab'' ''krg-ldap:S:g1'', AddUser ''krg-ldap:S:g1'' ''u1'']"

lemma eo_status_gives: "gives (read_status eo_host eo_ak ''sources/ldap/x/'' 24) eo_status"
proof -
  have r: "gives (request (net eo_host) eo_ak ''sources/ldap/x/sync/status/'' None) eo_status"
    unfolding eo_status_def by (rule gives_request[OF eo_alive eo_served(2)[unfolded eo_status_def]])
  have h: "gives (assert_sync_healthy eo_host eo_status 24) ()"
    by (simp add: gives_def assert_sync_healthy_def eo_status_def get_key_def field_def eff_defs eo_host_def)
  show ?thesis unfolding read_status_def
    by (rule gives_bind) (use r in \<open>simp\<close>, rule gives_bind[OF h gives_ret])
qed

lemma eo_directory_gives:
  "gives (read_directory (net eo_host) eo_ak (JStr ''S''))
     ([\<lparr>g_pk = ''g1'', g_name = ''lab''\<rparr>],
      [\<lparr>u_email = ''a@x'', u_active = Some True, u_type = Some ''internal'', u_groups = Some [''g1'']\<rparr>])"
proof -
  have l: "gives (mapE (linked_group (JStr ''S'')) eo_links) [[JStr ''g1'']]"
    by (simp add: eo_links_def linked_group_def field_def gives_ret)
  have g: "gives (mapE read_ak_group eo_gs) [\<lparr>g_pk = ''g1'', g_name = ''lab''\<rparr>]"
    by (simp add: eo_gs_def read_ak_group_def field_def as_str_def gives_ret)
  have e: "email (Some (JStr ''a@x'')) = ''a@x''" by code_simp
  have u: "gives (mapE read_ak_user eo_us)
      [\<lparr>u_email = ''a@x'', u_active = Some True, u_type = Some ''internal'', u_groups = Some [''g1'']\<rparr>]"
    by (simp add: eo_us_def read_ak_user_def get_key_def e text_of_def gives_ret)
  have p: "gives (progress (net eo_host)) ()" by (simp add: gives_def progress_def eo_host_def)
  show ?thesis unfolding read_directory_def
    by (rule gives_bind[OF eo_lists(1)], rule gives_bind[OF l], simp, rule gives_bind[OF p], rule gives_bind[OF eo_lists(2)],
        rule gives_bind[OF g], simp, rule gives_bind[OF eo_lists(3)], rule gives_bind[OF u], rule gives_ret)
qed

lemma eo_outline_gives:
  "gives (read_outline (net eo_host) eo_ol pre lgs)
     ([\<lparr>m_id = ''u1'', m_email = ''a@x'', m_suspended = False, m_role = ''member''\<rparr>], [], [])"
proof -
  have e: "email (Some (JStr ''a@x'')) = ''a@x''" by code_simp
  have u: "gives (mapE read_ol_user eo_mine) [\<lparr>m_id = ''u1'', m_email = ''a@x'', m_suspended = False, m_role = ''member''\<rparr>]"
    by (simp add: eo_mine_def read_ol_user_def get_key_def field_def as_str_def e truthy_opt_def text_of_def gives_ret)
  have p: "gives (progress (net eo_host)) ()" by (simp add: gives_def progress_def eo_host_def)
  show ?thesis unfolding read_outline_def
    by (rule gives_bind[OF p], rule gives_bind[OF eo_lists(4)], rule gives_bind[OF u], rule gives_bind[OF eo_lists(5)],
        simp add: gives_ret)
qed

lemma eo_plan_gives: "gives (make_plan eo_host eo_ak eo_ol ''x'' 24) eo_ops"
proof -
  have q: "''sources/ldap/'' @ quote ''x'' @ ''/'' = ''sources/ldap/x/''" by code_simp
  have r: "gives (request (net eo_host) eo_ak ''sources/ldap/x/'' None) eo_source"
    unfolding eo_source_def by (rule gives_request[OF eo_alive eo_served(1)[unfolded eo_source_def]])
  have c: "gives (check_source eo_source) ()" "gives (field ''pk'' eo_source) (JStr ''S'')" "gives (as_str (JStr ''S'')) ''S''"
    by (simp_all add: check_source_def eo_source_def field_def as_str_def gives_ret)
  have p: "gives (plan_sync ''S'' [\<lparr>g_pk = ''g1'', g_name = ''lab''\<rparr>]
      [\<lparr>u_email = ''a@x'', u_active = Some True, u_type = Some ''internal'', u_groups = Some [''g1'']\<rparr>] []
      [\<lparr>m_id = ''u1'', m_email = ''a@x'', m_suspended = False, m_role = ''member''\<rparr>] []) eo_ops"
    unfolding gives_def by (rule allI) code_simp
  show ?thesis unfolding make_plan_def Let_def q
    by (rule gives_bind[OF r], rule gives_bind[OF c(1)], rule gives_bind[OF eo_status_gives], rule gives_bind[OF c(2)],
        rule gives_bind[OF c(3)], rule gives_bind[OF eo_directory_gives], unfold prod.case, rule gives_bind[OF eo_outline_gives],
        unfold prod.case, rule gives_bind[OF eo_status_gives]) (use p in simp)
qed

lemma eo_reconcile_gives: "gives (reconcile eo_host eo_ak eo_ol ''x'' True 24) (True, eo_ops)"
proof -
  have p: "gives (progress (net eo_host)) ()" by (simp add: gives_def progress_def eo_host_def)
  have 1: "gives (apply_op (net eo_host) eo_ol [] (CreateGroup ''lab'' ''krg-ldap:S:g1'')) [(''krg-ldap:S:g1'', ''n7'')]"
    unfolding apply_op_def outline_call_def op_method_def gop.case bindE_assoc
    by (rule gives_bind[OF p], rule gives_bind[OF gives_request[OF eo_alive eo_served(8)]])
      (simp add: get_key_def field_def as_str_def dict_set_def gives_ret)
  have 2: "gives (apply_op (net eo_host) eo_ol cr (AddUser ''krg-ldap:S:g1'' ''u1'')) cr" for cr
    unfolding apply_op_def outline_call_def op_method_def gop.case bindE_assoc
    by (rule gives_bind[OF p], rule gives_bind[OF gives_request[OF eo_alive eo_served(9)]]) (simp add: get_key_def gives_ret)
  have a: "gives (apply_plan (net eo_host) eo_ol eo_ops) [(''krg-ldap:S:g1'', ''n7'')]"
    unfolding apply_plan_def eo_ops_def foldE.simps by (rule gives_bind[OF 1], rule gives_bind[OF 2], rule gives_ret)
  show ?thesis unfolding reconcile_def
    by (rule gives_bind[OF eo_plan_gives]) (simp add: bindE_assoc, rule gives_bind[OF a], simp add: gives_ret)
qed

text \<open>A directory and an Outline with 150 rows each, which takes two pages.\<close>

definition eo_rows :: "string \<Rightarrow> json list" where
  "eo_rows k = map (\<lambda>i. JObj [(k, JNum (int i))]) [0..<150]"

definition eo_server :: "unit http" where
  "eo_server = \<lparr>urljoin = eo_join,
     send = (\<lambda>c w. (case c_body c of
          Some (JObj ((k, JNum o1) # d)) \<Rightarrow> Reply (JObj (outline_answer (Some ''groups'') (eo_rows ''id'') (nat o1)))
        | _ \<Rightarrow> if c_url c = ''https://a/core/users/?page=1&page_size=100'' then Reply (JObj (ak_answer (eo_rows ''pk'') 0))
            else if c_url c = ''https://a/core/users/?page=2&page_size=100'' then Reply (JObj (ak_answer (eo_rows ''pk'') 1))
            else HttpFailed, w)),
     heartbeat = (\<lambda>w. (Ok (), w))\<rparr>"

section \<open>Properties\<close>

text \<open>
  C32. A plan brings Outline to the directory's state. If \<open>plan_sync\<close> returns operations, then
  executing them leaves in the Outline group of each LDAP group exactly the users that the directory
  says (matched by address; active, internal, neither suspended nor guests), empties every managed
  group whose LDAP group is gone, and leaves the members of every other group alone.
\<close>

theorem plan_reaches_directory:
  assumes "plan_sync source_id lgs aus ogs ous memberships s = (Ok ops, t)"
    and "distinct (map ol_id ogs)" and "list_all (\<lambda>g. \<not> startswith (ol_id g) (external_prefix source_id)) ogs"
    and "list_all (\<lambda>g. pred_option (\<lambda>us. M (ol_id g) = set us) (dict_get memberships (ol_id g))) ogs"
  shows "list_all (\<lambda>g. exec ops M (synced_with (external_prefix source_id) ogs g) = wanted aus ous (g_pk g)) lgs \<and>
    (i \<notin> synced_with (external_prefix source_id) ogs ` set lgs \<longrightarrow>
      exec ops M i =
        (if list_ex (\<lambda>g. ol_id g = i \<and> startswith (ol_external g) (external_prefix source_id)) ogs then {} else M i))"
  using exec_plan[OF assms] by (simp add: list_all_iff)

lemma plan_reaches_directory_witness:
  "exec eo_plan eo_members ''o1'' = {''u1''} \<and> exec eo_plan eo_members ''krg-ldap:S:g2'' = {''u1''} \<and>
   exec eo_plan eo_members ''o5'' = {''u2''} \<and> exec eo_plan eo_members ''o9'' = {}"
proof -
  let ?pre = "external_prefix ''S''"
  have syn: "map (synced_with ?pre eo_ol_groups) eo_groups = [''krg-ldap:S:g2'', ''o1'']" by code_simp
  have w: "wanted eo_ak_users eo_users pk = (if pk \<in> {''g1'', ''g2''} then {''u1''} else {})" for pk
    by (simp add: wanted_code eo_ak_users_def eo_users_def)
  have "exec eo_plan eo_members ''o1'' = {''u1''} \<and> exec eo_plan eo_members ''krg-ldap:S:g2'' = {''u1''} \<and>
    (i \<notin> {''o1'', ''krg-ldap:S:g2''} \<longrightarrow> exec eo_plan eo_members i =
      (if list_ex (\<lambda>g. ol_id g = i \<and> startswith (ol_external g) ?pre) eo_ol_groups then {} else eo_members i))" for i
    using plan_reaches_directory[OF eo_run, of eo_members i] syn
    by (auto simp: w eo_groups_def eo_ol_groups_def eo_memberships_def eo_members_def external_prefix_def startswith_def)
  from this[of "''o5''"] this[of "''o9''"] show ?thesis
    by (simp add: eo_ol_groups_def external_prefix_def startswith_def eo_members_def)
qed

text \<open>
  C35. There is nothing to do exactly when Outline already has the directory's state: a plan is empty
  if and only if every LDAP group has an Outline group of its name that is marked as managed by it
  and has the right members, and every managed group whose LDAP group is gone is empty.
\<close>

theorem plan_empty_iff_settled:
  assumes "plan_sync source_id lgs aus ogs ous memberships s = (Ok ops, t)"
    and "list_all (\<lambda>g. \<not> startswith (ol_id g) (external_prefix source_id)) ogs"
  shows "ops = [] \<longleftrightarrow>
    list_all (settled_group (external_prefix source_id) ogs memberships aus ous) lgs \<and>
    list_all (settled_other (external_prefix source_id) ogs lgs memberships) ogs"
  by (rule plan_empty[OF assms])

lemma plan_empty_iff_settled_witness:
  "\<not> (list_all (settled_group (external_prefix ''S'') eo_ol_groups eo_memberships eo_ak_users eo_users) eo_groups \<and>
      list_all (settled_other (external_prefix ''S'') eo_ol_groups eo_groups eo_memberships) eo_ol_groups)"
  using plan_empty_iff_settled[OF eo_run]
  by (simp add: eo_plan_def eo_ol_groups_def external_prefix_def startswith_def)

text \<open>
  C33. A synchronisation writes only what it planned. Whatever the servers answer, its requests are reads (GETs
  of the Authentik client, and the three reading methods of the Outline client) followed by writes. There are
  writes only if changes are to be applied and a plan was made, and then they are the plan's operations in order, up
  to where it stopped: each with the method, the names and the user of its operation, and with the group's id,
  which is the id in the answer to the create if the group was created in this run. If the run succeeds, it
  returns the plan and has sent all of it.
\<close>

theorem reconcile_reads_then_writes:
  assumes "reconcile E ak ol slug apply_changes hours s = (r, t)"
  shows "\<exists>p u reads ws. make_plan E ak ol slug hours s = (p, u) \<and> calls u = calls s @ reads \<and> calls t = calls u @ ws \<and>
    list_all (\<lambda>e. read_call (net E) ak ol (fst e)) reads \<and>
    (ws = [] \<or> apply_changes \<and> (\<exists>ops. p = Ok ops \<and> written (net E) ol Map.empty ops ws)) \<and>
    (\<forall>b ops. r = Ok (b, ops) \<longrightarrow> b = apply_changes \<and> p = Ok ops \<and> length ws = (if apply_changes then length ops else 0))"
  using assms by (rule reconcile_calls)

lemma reconcile_reads_then_writes_witness:
  "\<exists>t reads create rep add rep'. reconcile eo_host eo_ak eo_ol ''x'' True 24 eo_start =
      (Ok (True, [CreateGroup ''lab'' ''krg-ldap:S:g1'', AddUser ''krg-ldap:S:g1'' ''u1'']), t) \<and>
    calls t = reads @ [(create, rep), (add, rep')] \<and> list_all (\<lambda>e. read_call (net eo_host) eo_ak eo_ol (fst e)) reads \<and>
    create = wire (net eo_host) eo_ol Map.empty (CreateGroup ''lab'' ''krg-ldap:S:g1'') \<and>
    add = wire (net eo_host) eo_ol (learned Map.empty (CreateGroup ''lab'' ''krg-ldap:S:g1'') rep) (AddUser ''krg-ldap:S:g1'' ''u1'')"
proof -
  let ?ops = "[CreateGroup ''lab'' ''krg-ldap:S:g1'', AddUser ''krg-ldap:S:g1'' ''u1'']"
  let ?m = "reconcile eo_host eo_ak eo_ol ''x'' True 24 eo_start"
  have "fst ?m = Ok (True, ?ops)" using eo_reconcile_gives by (simp add: gives_def eo_ops_def)
  then have m: "?m = (Ok (True, ?ops), snd ?m)" by (metis prod.collapse)
  obtain reads ws where c: "calls (snd ?m) = reads @ ws" "list_all (\<lambda>e. read_call (net eo_host) eo_ak eo_ol (fst e)) reads"
      "ws = [] \<or> written (net eo_host) eo_ol Map.empty ?ops ws" "length ws = length ?ops"
    using reconcile_reads_then_writes[OF m] by (auto simp: eo_start_def)
  obtain e e' where ws: "ws = [e, e']" using c(4) by (auto simp: length_Suc_conv)
  obtain create rep add rep' where e: "e = (create, rep)" "e' = (add, rep')" by (cases e; cases e')
  show ?thesis using m c ws e by (auto simp del: wire.simps learned.simps)
qed

text \<open>
  C34. Tokens stay with their servers. Every request of the scheduled activity that is a GET carries the token of
  \<open>AUTHENTIK_TOKEN\<close> and goes to a URL below \<open>AUTHENTIK_URL\<close>; every other one carries the token of
  \<open>OUTLINE_TOKEN\<close> and goes to a URL below \<open>OUTLINE_URL\<close>; both are https URLs. This holds whatever \<open>urljoin\<close>
  and the servers return.
\<close>

theorem requests_stay_inside:
  "\<exists>cs. calls (snd (reconcile_outline_groups E env s)) = calls s @ cs \<and>
     list_all (\<lambda>e. rightly_sent env (fst e)) cs"
  using keeps_activity_sent[of env E] by (auto simp: keeps_def calls_only_def)

text \<open>
  C36. Listings end and are complete: against a server that pages through a fixed list of rows with
  distinct keys, 100 at a time, as Authentik and Outline document, the clients return that list. Of \<open>urljoin\<close>
  this only needs that the paths of the pages that there are stay below the base URL.
\<close>

theorem listings_complete:
  assumes "alive H" and "ak_serves H a path rows1" and "keyed ''pk'' rows1"
    and "outline_serves H b meth key body rows2" and "keyed ''id'' rows2"
  shows "fst (authentik_list H a path s) = Ok rows1 \<and> fst (outline_list H b meth key body s) = Ok rows2"
  using givesD[OF authentik_list_complete[OF assms(1-3)]] givesD[OF outline_list_complete[OF assms(1,4,5)]] by simp

lemma eo_rows_keyed: "keyed k (eo_rows k)"
  unfolding keyed_def eo_rows_def
  by (rule exI[of _ "map (\<lambda>i. JNum (int i)) [0..<150]"])
    (simp add: hashable_def distinct_map inj_on_def list_all_iff list_all2_conv_all_nth)

lemma listings_complete_witness:
  "fst (authentik_list eo_server eo_ak ''core/users/'' eo_start) = Ok (eo_rows ''pk'') \<and>
   fst (outline_list eo_server eo_ol ''groups.list'' (Some ''groups'') [] eo_start) = Ok (eo_rows ''id'')"
proof (rule listings_complete)
  show "alive eo_server" by (simp add: alive_def eo_server_def)
  have u: "eo_join ''https://a/'' (ak_path ''core/users/'' 1) = ''https://a/core/users/?page=1&page_size=100''"
    "eo_join ''https://a/'' (ak_path ''core/users/'' 2) = ''https://a/core/users/?page=2&page_size=100''"
    "startswith ''https://a/core/users/?page=1&page_size=100'' ''https://a/''"
    "startswith ''https://a/core/users/?page=2&page_size=100'' ''https://a/''"
    "url_fragment ''https://a/core/users/?page=1&page_size=100'' = []"
    "url_fragment ''https://a/core/users/?page=2&page_size=100'' = []"
    "eo_join ''https://o/'' ''groups.list'' = ''https://o/groups.list''"
    "startswith ''https://o/groups.list'' ''https://o/''" "url_fragment ''https://o/groups.list'' = []"
    by code_simp+
  have n: "length (eo_rows k) = 150" for k by (simp add: eo_rows_def)
  have "answers eo_server eo_ak (ak_path ''core/users/'' (int (Suc p))) None (JObj (ak_answer (eo_rows ''pk'') p))"
    if "p = 0 \<or> 100 * p < length (eo_rows ''pk'')" for p
  proof -
    have "p = 0 \<or> p = 1" using that n[of "''pk''"] by auto
    then show ?thesis by (auto simp: answers_def eo_server_def eo_ak_def call_at_def u)
  qed
  then show "ak_serves eo_server eo_ak ''core/users/'' (eo_rows ''pk'')" unfolding ak_serves_def by blast
  show "outline_serves eo_server eo_ol ''groups.list'' (Some ''groups'') [] (eo_rows ''id'')"
    by (simp add: outline_serves_def answers_def eo_server_def eo_ol_def call_at_def u nat_mult_distrib)
qed (rule eo_rows_keyed)+

text \<open>
  A source that has never completed a synchronisation is not reported as such: the check means
  to raise \<open>SyncError\<close> for a missing timestamp, but a null one raises \<open>AttributeError\<close>, which
  its handler does not name.
\<close>

theorem never_synced_is_attribute_error:
  "fst (assert_sync_healthy E (JObj [(''is_running'', JBool False), (''last_sync_status'', JStr ''done''),
     (''last_successful_sync'', JNull)]) hours s) = Exc AttributeError"
  by (simp add: assert_sync_healthy_def get_key_def field_def bindE_def catchE_def retE_def raiseE_def)

end
