(* ===== verification/Cve_Report.thy ===== *)
theory Cve_Report
  imports Json "HOL-Library.Product_Lexorder"
begin

text \<open>
  Model of the pure half of \<open>nix/modules/security/cve-scan/cve-scan.py\<close> that turns scanner reports
  into metrics and reads last night's metrics back: \<open>summarize\<close>, \<open>render_metrics\<close>,
  \<open>parse_previous\<close>, \<open>container_ref\<close> and \<open>parse_image_inventory\<close>. Floats are rational
  numbers; the regular expressions are written out as the scans they perform.
\<close>

section \<open>Severities and fixes\<close>

definition SEVERITIES :: "string list" where
  "SEVERITIES = [''critical'', ''high'', ''medium'', ''low'', ''negligible'', ''unknown'']"

definition FIXES :: "string list" where
  "FIXES = [''available'', ''none'']"

type_synonym bucket = "string \<times> string"

type_synonym counts = "(bucket \<times> int) list"

section \<open>Summarising a report\<close>

text \<open>\<open>j.get(k) or {}\<close>, and \<open>j.get(k)\<close> inside a key.\<close>

definition sub_object :: "string \<Rightarrow> json \<Rightarrow> ('s, json) eff" where
  "sub_object k j =
     bindE (get_key k j) (\<lambda>v. retE (case v of Some x \<Rightarrow> if truthy x then x else JObj [] | None \<Rightarrow> JObj []))"

definition get_null :: "string \<Rightarrow> json \<Rightarrow> ('s, json) eff" where
  "get_null k j = bindE (get_key k j) (\<lambda>v. retE (case v of Some x \<Rightarrow> x | None \<Rightarrow> JNull))"

type_synonym match_key = "json \<times> json \<times> json"

definition match_id :: "json \<Rightarrow> json \<Rightarrow> ('s, match_key) eff" where
  "match_id vuln art =
     bindE (get_null ''id'' vuln) (\<lambda>i. bindE (get_null ''name'' art) (\<lambda>n. bindE (get_null ''version'' art) (\<lambda>v.
       if hashable i \<and> hashable n \<and> hashable v then retE (i, n, v) else raiseE TypeError)))"

definition severity_of :: "json \<Rightarrow> ('s, string) eff" where
  "severity_of vuln =
     bindE (get_null ''severity'' vuln) (\<lambda>s.
       let t = (if truthy s then s else JStr ''unknown'') in
       case t of
         JStr x \<Rightarrow> retE (if List.member SEVERITIES (lower x) then lower x else ''unknown'')
       | _ \<Rightarrow> raiseE AttributeError)"

definition fix_of :: "json \<Rightarrow> ('s, string) eff" where
  "fix_of vuln =
     bindE (sub_object ''fix'' vuln) (\<lambda>f. bindE (get_null ''state'' f) (\<lambda>st.
       retE (if st = JStr ''fixed'' then ''available'' else ''none'')))"

definition add_match :: "counts \<times> match_key list \<Rightarrow> json \<Rightarrow> ('s, counts \<times> match_key list) eff" where
  "add_match acc mt =
     bindE (sub_object ''vulnerability'' mt) (\<lambda>vuln.
     bindE (sub_object ''artifact'' mt) (\<lambda>art.
     bindE (match_id vuln art) (\<lambda>key.
       if List.member (snd acc) key then retE acc
       else
         bindE (severity_of vuln) (\<lambda>sev. bindE (fix_of vuln) (\<lambda>fx.
           retE (dict_set (sev, fx) (the (dict_get (fst acc) (sev, fx)) + 1) (fst acc), key # snd acc))))))"

definition zero_counts :: counts where
  "zero_counts = map (\<lambda>b. (b, 0)) (List.product SEVERITIES FIXES)"

definition summarize :: "json \<Rightarrow> ('s, counts) eff" where
  "summarize report =
     bindE (get_null ''matches'' report) (\<lambda>ms.
     bindE (if truthy ms then as_list ms else retE []) (\<lambda>matches.
     bindE (foldE add_match (zero_counts, []) matches) (\<lambda>(counts, seen). retE counts)))"

section \<open>Rendering\<close>

record result =
  r_target :: string
  r_image :: string
  r_ok :: bool
  r_counts :: "counts option"
  r_at :: "rat option"

definition QUOTE :: string where
  "QUOTE = [CHR 0x22]"

definition label :: "string \<times> string \<Rightarrow> string" where
  "label kv = fst kv @ ''='' @ QUOTE @ snd kv @ QUOTE"

definition labels :: "(string \<times> string) list \<Rightarrow> string" where
  "labels d = join '','' (map label (sort d))"

definition VULNS :: string where
  "VULNS = ''krg_cve_vulnerabilities''"

definition STAMPS :: string where
  "STAMPS = ''krg_cve_scan_timestamp_seconds''"

definition sample :: "string \<Rightarrow> (string \<times> string) list \<Rightarrow> string \<Rightarrow> string" where
  "sample name d v = name @ ''{'' @ labels d @ ''} '' @ v"

definition count_line :: "result \<Rightarrow> bucket \<times> int \<Rightarrow> string" where
  "count_line r e = sample VULNS [(''target'', r_target r), (''image'', r_image r),
     (''severity'', fst (fst e)), (''fix'', snd (fst e))] (str_int (snd e))"

definition count_lines :: "result \<Rightarrow> string list" where
  "count_lines r =
     (case r_counts r of None \<Rightarrow> [] | Some c \<Rightarrow> map (count_line r) (sort c))"

definition success_line :: "result \<Rightarrow> string" where
  "success_line r = sample ''krg_cve_scan_success'' [(''target'', r_target r), (''image'', r_image r)]
     (if r_ok r then ''1'' else ''0'')"

definition stamp_lines :: "result \<Rightarrow> string list" where
  "stamp_lines r =
     (case r_at r of
        None \<Rightarrow> []
      | Some t \<Rightarrow> if t = 0 then []
                 else [sample STAMPS [(''target'', r_target r), (''image'', r_image r)] (str_int \<lfloor>t\<rfloor>)])"

definition render_lines :: "result list \<Rightarrow> rat option \<Rightarrow> string list" where
  "render_lines results db_built =
     [''# HELP krg_cve_vulnerabilities Vulnerability matches by severity and fix availability (grype).'',
      ''# TYPE krg_cve_vulnerabilities gauge''] @
     concat (map count_lines results) @
     [''# HELP krg_cve_scan_success Whether this target was scanned successfully on the last run.'',
      ''# TYPE krg_cve_scan_success gauge''] @
     map success_line results @
     [''# HELP krg_cve_scan_timestamp_seconds Time of the last successful scan of this target.'',
      ''# TYPE krg_cve_scan_timestamp_seconds gauge''] @
     concat (map stamp_lines results) @
     (case db_built of
        None \<Rightarrow> []
      | Some t \<Rightarrow> if t = 0 then [] else
          [''# HELP krg_cve_db_built_timestamp_seconds Build time of the grype vulnerability DB used.'',
           ''# TYPE krg_cve_db_built_timestamp_seconds gauge'',
           ''krg_cve_db_built_timestamp_seconds '' @ str_int \<lfloor>t\<rfloor>])"

definition render_metrics :: "result list \<Rightarrow> rat option \<Rightarrow> string" where
  "render_metrics results db_built = join [CHR 0x0A] (render_lines results db_built) @ [CHR 0x0A]"

section \<open>Reading last night's file\<close>

text \<open>
  \<open>(name){(.*)} (\S+)\<close> on a whole line: the value has no blanks, so the brace and the blank before
  it are the last ones.
\<close>

definition split_value :: "string \<Rightarrow> (string \<times> string) option" where
  "split_value s =
     (let v = rev (takeWhile (\<lambda>c. \<not> is_space c) (rev s));
          r = dropWhile (\<lambda>c. \<not> is_space c) (rev s) in
      case r of
        b # e # body \<Rightarrow> if v \<noteq> [] \<and> b = CHR '' '' \<and> e = CHR ''}'' then Some (rev body, v) else None
      | _ \<Rightarrow> None)"

definition match_line :: "string \<Rightarrow> (bool \<times> string \<times> string) option" where
  "match_line line =
     (if startswith line (VULNS @ ''{'')
      then map_option (\<lambda>(ls, v). (True, ls, v)) (split_value (drop (length VULNS + 1) line))
      else if startswith line (STAMPS @ ''{'')
      then map_option (\<lambda>(ls, v). (False, ls, v)) (split_value (drop (length STAMPS + 1) line))
      else None)"

text \<open>\<open>re.findall\<close> of a word, an equals sign and a quoted text without quotes.\<close>

function find_labels :: "string \<Rightarrow> (string \<times> string) list" where
  "find_labels s =
     (let w = takeWhile is_word s; r = dropWhile is_word s;
          v = takeWhile (\<lambda>c. c \<noteq> CHR 0x22) (drop 2 r); r' = dropWhile (\<lambda>c. c \<noteq> CHR 0x22) (drop 2 r) in
      if s = [] then []
      else if w \<noteq> [] \<and> startswith r (''='' @ QUOTE) \<and> r' \<noteq> [] then (w, v) # find_labels (tl r')
      else find_labels (tl s))"
  by auto
termination
proof (relation "measure length")
  fix s r r' :: string
  assume "r = dropWhile is_word s" "r' = dropWhile (\<lambda>c. c \<noteq> CHR 0x22) (drop 2 r)" "s \<noteq> []"
  then have "length r' \<le> length s"
    using length_dropWhile_le[of "\<lambda>c. c \<noteq> CHR 0x22" "drop 2 r"] length_dropWhile_le[of is_word s] by simp
  then show "(tl r', s) \<in> measure length"
    using \<open>s \<noteq> []\<close> by (cases r') auto
qed auto

declare find_labels.simps [simp del]

definition labels_of :: "string \<Rightarrow> (string \<times> string) list" where
  "labels_of s = foldl (\<lambda>d kv. dict_set (fst kv) (snd kv) d) [] (find_labels s)"

text \<open>\<open>float(s)\<close> for decimal notation without an exponent.\<close>

definition float_of_string :: "string \<Rightarrow> rat option" where
  "float_of_string s =
     (let neg = startswith s ''-''; t = (if neg \<or> startswith s ''+'' then tl s else s) in
      case partition_on (CHR ''.'') t of (a, dot, b) \<Rightarrow>
        if a @ b = [] \<or> \<not> list_all is_digit (a @ b) then None
        else (let v = of_nat (nat_of_digits (a @ b)) / 10 ^ length b in Some (if neg then - v else v)))"

text \<open>Last night's counts and time per target; a missing label reads as it would be rendered.\<close>

type_synonym previous = "((string \<times> string) \<times> (counts \<times> rat option)) list"

definition add_line :: "previous \<Rightarrow> string \<Rightarrow> previous res" where
  "add_line prev line =
     (case match_line line of
        None \<Rightarrow> Ok prev
      | Some (is_count, ls, v) \<Rightarrow>
          let d = labels_of ls;
              get = (\<lambda>k dflt. case dict_get d k of None \<Rightarrow> dflt | Some x \<Rightarrow> x);
              key = (get ''target'' [], get ''image'' []);
              (counts, ts) = (case dict_get prev key of None \<Rightarrow> ([], None) | Some p \<Rightarrow> p) in
          case float_of_string v of
            None \<Rightarrow> Exc ValueError
          | Some x \<Rightarrow>
              Ok (dict_set key
                (if is_count
                 then (dict_set (get ''severity'' ''None'', get ''fix'' ''None'')
                         (if x < 0 then - \<lfloor>- x\<rfloor> else \<lfloor>x\<rfloor>) counts, ts)
                 else (counts, Some x)) prev))"

definition parse_previous :: "string \<Rightarrow> ('s, previous) eff" where
  "parse_previous text = foldE (\<lambda>prev line. liftE (add_line prev line)) [] (splitlines text)"

section \<open>Images\<close>

definition before_at :: "char \<Rightarrow> string \<Rightarrow> string" where
  "before_at c s = takeWhile (\<lambda>x. x \<noteq> c) s"

definition container_ref :: "string list \<Rightarrow> string option" where
  "container_ref refs =
     (let names = remdups (map (before_at (CHR ''@'')) (filter (\<lambda>r. r \<noteq> [] \<and> \<not> startswith r ''sha256:'') refs)) in
      case sort_key (\<lambda>n. (- int (length n), n)) names of [] \<Rightarrow> None | n # ns \<Rightarrow> Some n)"

record image =
  im_id :: string
  im_ref :: string
  im_digest :: "string option"
  im_size :: "nat option"

text \<open>\<open>json.loads(x or "null") or []\<close>; \<open>json.loads\<close> is a parameter.\<close>

definition load_list :: "(string \<Rightarrow> json option) \<Rightarrow> string \<Rightarrow> ('s, string list) eff" where
  "load_list loads x =
     (case loads (if x = [] then ''null'' else x) of
        None \<Rightarrow> raiseE ValueError
      | Some j \<Rightarrow> if truthy j then bindE (as_list j) (mapE as_str) else retE [])"

definition container_pairs :: "string \<Rightarrow> (string \<times> string) list" where
  "container_pairs text =
     concat (map (\<lambda>line. case split_on (CHR 0x09) line of
         [a, b, c] \<Rightarrow> if a = ''container'' then [(b, c)] else [] | _ \<Rightarrow> []) (splitlines text))"

definition repository :: "string \<Rightarrow> string" where
  "repository ref =
     (if List.member (last (split_on (CHR ''/'') ref)) (CHR '':'')
      then rev (tl (dropWhile (\<lambda>c. c \<noteq> CHR '':'') (rev ref))) else ref)"

definition pick_digest :: "string \<Rightarrow> string list \<Rightarrow> string option" where
  "pick_digest repo digests =
     (case List.find (\<lambda>d. before_at (CHR ''@'') d = repo) digests of
        Some d \<Rightarrow> Some d
      | None \<Rightarrow> (case digests of [] \<Rightarrow> None | d # ds \<Rightarrow> Some d))"

definition image_of_fields :: "(string \<Rightarrow> json option) \<Rightarrow> (string \<times> string) list \<Rightarrow> string list \<Rightarrow>
    ('s, image) eff" where
  "image_of_fields loads pairs parts =
     (let image_id = parts ! 0;
          size_text = (if length parts = 4 then strip (parts ! 3) else []);
          sz = (if size_text \<noteq> [] \<and> list_all is_digit size_text then Some (nat_of_digits size_text) else None) in
      bindE (load_list loads (parts ! 1)) (\<lambda>tags.
      bindE (load_list loads (parts ! 2)) (\<lambda>digests.
        let ref = (case container_ref (map snd (filter (\<lambda>p. fst p = image_id) pairs)) of
                     Some r \<Rightarrow> if r = [] then (case tags of [] \<Rightarrow> take 19 image_id | t # ts \<Rightarrow> t) else r
                   | None \<Rightarrow> (case tags of [] \<Rightarrow> take 19 image_id | t # ts \<Rightarrow> t)) in
        retE \<lparr>im_id = image_id, im_ref = ref, im_digest = pick_digest (repository ref) digests, im_size = sz\<rparr>)))"

definition parse_image_inventory :: "(string \<Rightarrow> json option) \<Rightarrow> string \<Rightarrow> ('s, image list) eff" where
  "parse_image_inventory loads text =
     mapE (image_of_fields loads (container_pairs text))
       (filter (\<lambda>parts. (length parts = 3 \<or> length parts = 4) \<and> parts ! 0 \<noteq> ''container'')
          (map (split_on (CHR 0x09)) (splitlines text)))"

end
