(* ===== verification/Cve_Sbom.thy ===== *)
theory Cve_Sbom
  imports Json
begin

text \<open>
  Model of the inventory half of \<open>nix/modules/security/cve-scan/cve-scan.py\<close>: reading the stream that
  \<open>nix derivation show\<close> prints, a derivation's name and version, the vendor of a product, and the
  CycloneDX document of a NixOS system. The JSON reader (\<open>raw_decode\<close>, \<open>loads\<close>) and the rows of the
  CSV reader are parameters.
\<close>

section \<open>The stream of derivations\<close>

type_synonym derivations = "(string \<times> json) list"

text \<open>The derivations of one document, in either of its two shapes.\<close>

definition drv_items :: "json \<Rightarrow> ('s, (string \<times> json) list) eff" where
  "drv_items obj =
     (case obj of
        JObj d \<Rightarrow> retE (case dict_get d ''derivations'' of Some (JObj e) \<Rightarrow> e | _ \<Rightarrow> d)
      | _ \<Rightarrow> raiseE AttributeError)"

definition store_path :: "string \<Rightarrow> string" where
  "store_path drv = (if startswith drv ''/'' then drv else ''/nix/store/'' @ drv)"

definition add_drv :: "derivations \<Rightarrow> string \<times> json \<Rightarrow> derivations" where
  "add_drv out kv = dict_set (store_path (fst kv)) (snd kv) out"

text \<open>
  \<open>raw_decode\<close> gives the value at the head of a text and the rest of the text. A call that reads
  nothing would be made for ever; \<open>haltE\<close> stands for that.
\<close>

function derivation_stream ::
  "(string \<Rightarrow> (json \<times> string) option) \<Rightarrow> derivations \<Rightarrow> string \<Rightarrow> ('s, derivations) eff" where
  "derivation_stream raw_decode out text =
     (let t = lstrip text in
      if t = [] then retE out
      else
        case raw_decode t of
          None \<Rightarrow> raiseE ValueError
        | Some (obj, rest) \<Rightarrow>
            if length t \<le> length rest then haltE
            else bindE (drv_items obj) (\<lambda>kvs. derivation_stream raw_decode (foldl add_drv out kvs) rest))"
  by auto
termination
proof (relation "measure (\<lambda>(d, out, text). length text)")
  fix raw_decode out inp t x obj rest kvs
  assume "t = lstrip inp" and "\<not> length t \<le> length (rest :: string)"
  then show "((raw_decode, foldl add_drv out kvs, rest), (raw_decode, out, inp)) \<in>
      measure (\<lambda>(d, out, text). length text)"
    using length_dropWhile_le[of is_space inp] by (simp add: lstrip_def)
qed auto

declare derivation_stream.simps [simp del]

definition parse_derivation_stream ::
  "(string \<Rightarrow> (json \<times> string) option) \<Rightarrow> string \<Rightarrow> ('s, derivations) eff" where
  "parse_derivation_stream raw_decode text = derivation_stream raw_decode [] text"

section \<open>Names and versions\<close>

text \<open>\<open>s in j\<close>.\<close>

definition is_in :: "string \<Rightarrow> json \<Rightarrow> ('s, bool) eff" where
  "is_in s j =
     (case j of
        JObj d \<Rightarrow> retE (List.member (dict_keys d) s)
      | JArr xs \<Rightarrow> retE (List.member xs (JStr s))
      | JStr t \<Rightarrow> retE (contains t s)
      | _ \<Rightarrow> raiseE TypeError)"

text \<open>\<open>dict(env, **json.loads(env["__json"]))\<close>; a text that is not JSON leaves \<open>env\<close> as it is.\<close>

definition structured_attrs :: "(string \<Rightarrow> json option) \<Rightarrow> json \<Rightarrow> ('s, json) eff" where
  "structured_attrs loads env =
     bindE (is_in ''__json'' env) (\<lambda>b.
       if \<not> b then retE env
       else
         bindE (field ''__json'' env) (\<lambda>x. bindE (as_str x) (\<lambda>t.
           case loads t of
             None \<Rightarrow> retE env
           | Some (JObj e) \<Rightarrow>
               (case env of
                  JObj d \<Rightarrow> retE (JObj (foldl (\<lambda>acc kv. dict_set (fst kv) (snd kv) acc) d e))
                | _ \<Rightarrow> raiseE TypeError)
           | Some _ \<Rightarrow> raiseE TypeError)))"

text \<open>\<open>s.partition(sep)[0]\<close>: an empty separator raises.\<close>

fun before_str :: "string \<Rightarrow> string \<Rightarrow> string" where
  "before_str sep [] = []"
| "before_str sep (c # s) = (if startswith (c # s) sep then [] else c # before_str sep s)"

definition partition_head :: "string \<Rightarrow> string \<Rightarrow> ('s, string) eff" where
  "partition_head s sep = (if sep = [] then raiseE ValueError else retE (before_str sep s))"

definition name_version :: "(string \<Rightarrow> json option) \<Rightarrow> json \<Rightarrow> ('s, string \<times> string) eff" where
  "name_version loads drv =
     bindE (get_or ''env'' drv (JObj [])) (\<lambda>env0.
     bindE (structured_attrs loads env0) (\<lambda>env.
     bindE (get_or ''name'' env JNull) (\<lambda>n0.
     bindE (if truthy n0 then retE n0 else get_or ''name'' drv (JStr [])) (\<lambda>name.
     bindE (get_or ''pname'' env name) (\<lambda>pname.
       case (pname, name) of
         (JStr p, JStr n) \<Rightarrow>
           bindE (partition_head n p) (\<lambda>h.
           bindE (get_or ''version'' env (JStr [])) (\<lambda>version.
             retE (h @ p, case version of JStr v \<Rightarrow> v | _ \<Rightarrow> [])))
       | (_, JStr n) \<Rightarrow> retE (n, [])
       | _ \<Rightarrow> retE ([], []))))))"

section \<open>Vendors\<close>

type_synonym cpedict = "(string \<times> string list) list"

text \<open>\<open>CpeDict\<close> over the rows (product, vendor); an absent or empty cell is skipped.\<close>

definition add_vendor :: "cpedict \<Rightarrow> string option \<times> string option \<Rightarrow> cpedict" where
  "add_vendor vendors row =
     (case row of
        (Some p, Some v) \<Rightarrow>
          if p = [] \<or> v = [] then vendors
          else
            let vs = (case dict_get vendors p of None \<Rightarrow> [] | Some vs \<Rightarrow> vs) in
            dict_set p (if List.member vs v then vs else vs @ [v]) vendors
      | _ \<Rightarrow> vendors)"

definition CpeDict :: "(string option \<times> string option) list \<Rightarrow> cpedict" where
  "CpeDict rows = foldl add_vendor [] rows"

definition unique :: "cpedict \<Rightarrow> string \<Rightarrow> string option" where
  "unique vendors product =
     (if product = [] \<or> length product = 1 then None
      else case dict_get vendors product of Some [v] \<Rightarrow> Some v | _ \<Rightarrow> None)"

definition rstrip_digits :: "string \<Rightarrow> string" where
  "rstrip_digits s = rev (dropWhile is_digit (rev s))"

definition vendor :: "cpedict \<Rightarrow> string \<Rightarrow> string" where
  "vendor vendors product =
     (let v = (case unique vendors product of
                 Some v \<Rightarrow> Some v
               | None \<Rightarrow>
                   let stripped = rstrip_digits product in
                   if stripped \<noteq> product then unique vendors stripped else None) in
      case v of Some x \<Rightarrow> x | None \<Rightarrow> product)"

definition cpe :: "cpedict \<Rightarrow> string \<Rightarrow> string \<Rightarrow> string" where
  "cpe vendors name version =
     (let n = strip name; v = strip version in
      ''cpe:2.3:a:'' @ vendor vendors n @ '':'' @ n @ '':'' @ v @ '':*:*:*:*:*:*:*'')"

section \<open>The SBOM\<close>

definition component :: "cpedict \<Rightarrow> string \<Rightarrow> string \<Rightarrow> string \<Rightarrow> json" where
  "component cpedict drv_path pname version =
     JObj ([(''type'', JStr ''application''), (''bom-ref'', JStr drv_path), (''name'', JStr pname),
            (''version'', JStr version)] @
       (if pname = ''source'' then []
        else [(''purl'', JStr (''pkg:nix/'' @ pname @ (if version = [] then [] else ''@'' @ version))),
              (''cpe'', JStr (cpe cpedict pname version))]))"

definition components :: "(string \<Rightarrow> json option) \<Rightarrow> cpedict \<Rightarrow> string \<times> json \<Rightarrow> ('s, json list) eff" where
  "components loads cpedict d =
     bindE (name_version loads (snd d)) (\<lambda>(pname, version).
       retE (if pname = [] \<or> startswith pname ''nixos-system-'' then []
             else [component cpedict (fst d) pname version]))"

definition basename :: "string \<Rightarrow> string" where
  "basename p = rev (takeWhile (\<lambda>c. c \<noteq> CHR ''/'') (rev p))"

definition nixos_sbom :: "(string \<Rightarrow> json option) \<Rightarrow> string \<Rightarrow> derivations \<Rightarrow> cpedict \<Rightarrow> ('s, json) eff" where
  "nixos_sbom loads system_path derivations cpedict =
     bindE (mapE (components loads cpedict) (sort_key fst derivations)) (\<lambda>cs.
       retE (JObj [(''bomFormat'', JStr ''CycloneDX''), (''specVersion'', JStr ''1.4''), (''version'', JNum 1),
         (''metadata'', JObj [(''component'', JObj [(''type'', JStr ''application''),
            (''name'', JStr (basename system_path))])]),
         (''components'', JArr (concat cs))]))"

text \<open>A derivation without a name raises before the check for an empty name is reached.\<close>

lemma nameless_derivation_raises:
  "components lds cd (path, JObj [(''env'', JObj [])]) = (raiseE ValueError :: ('s, json list) eff)"
  by (simp add: components_def name_version_def get_or_def get_key_def truthy_def structured_attrs_def is_in_def
      partition_head_def)

section \<open>What the vendor table holds\<close>

text \<open>The vendors of a product are those of its rows, each once, whatever their order.\<close>

definition vendors_of :: "(string option \<times> string option) list \<Rightarrow> string \<Rightarrow> string set" where
  "vendors_of rows p = {v. v \<noteq> [] \<and> p \<noteq> [] \<and> (Some p, Some v) \<in> set rows}"

lemma CpeDict_snoc: "CpeDict (rows @ [r]) = add_vendor (CpeDict rows) r"
  by (simp add: CpeDict_def)

lemma CpeDict_holds:
  "(case dict_get (CpeDict rows) p of None \<Rightarrow> vendors_of rows p = {}
    | Some vs \<Rightarrow> distinct vs \<and> set vs = vendors_of rows p \<and> vs \<noteq> [])"
proof (induction rows rule: rev_induct)
  case Nil
  show ?case by (simp add: CpeDict_def vendors_of_def)
next
  case (snoc r rows)
  have v: "vendors_of (rows @ [r]) p = vendors_of rows p \<union> (case r of (Some q, Some v) \<Rightarrow> if q = p \<and> p \<noteq> [] \<and> v \<noteq> [] then {v} else {} | _ \<Rightarrow> {})"
    by (auto simp: vendors_of_def split: option.splits if_splits prod.splits)
  show ?case
    using snoc unfolding v CpeDict_snoc add_vendor_def
    by (auto simp: Let_def simp del: dict_get_eq_None split: option.splits prod.splits if_splits)
qed

lemma unique_iff:
  assumes "length product \<noteq> 1"
  shows "unique (CpeDict rows) product = Some v \<longleftrightarrow> vendors_of rows product = {v}"
proof -
  have one: "set vs = {v} \<longleftrightarrow> vs = [v]" if "distinct vs" for vs
    using that by (cases vs) (auto simp: subset_singleton_iff)
  have e: "vendors_of rows [] = {}" by (simp add: vendors_of_def)
  show ?thesis
  proof (cases "dict_get (CpeDict rows) product")
    case None
    then have "vendors_of rows product = {}" using CpeDict_holds[of rows product] unfolding None by simp
    then show ?thesis unfolding unique_def None by simp
  next
    case (Some vs)
    then have vs: "distinct vs" "set vs = vendors_of rows product"
      using CpeDict_holds[of rows product] unfolding Some by simp_all
    show ?thesis
    proof (cases "product = []")
      case False
      then show ?thesis
        using assms one[OF vs(1)] unfolding unique_def Some vs(2) by (auto split: list.split)
    qed (simp add: unique_def e)
  qed
qed

section \<open>The stream comes to an end\<close>

lemma drv_items_returns: "returns (drv_items j)"
  unfolding drv_items_def by (auto split: json.split intro: returns_intros)

lemma derivation_stream_returns:
  assumes "\<And>t j rest. raw_decode t = Some (j, rest) \<Longrightarrow> length rest < length t"
  shows "returns (derivation_stream raw_decode out inp)"
proof (induction "length inp" arbitrary: out inp rule: less_induct)
  case less
  have l: "length (lstrip inp) \<le> length inp" by (simp add: lstrip_def length_dropWhile_le)
  show ?case
  proof (cases "raw_decode (lstrip inp)")
    case None
    then show ?thesis by (subst derivation_stream.simps) (auto simp: Let_def intro: returns_intros)
  next
    case (Some p)
    obtain j rest where p: "p = (j, rest)" by (cases p)
    have "length rest < length (lstrip inp)" using assms[of "lstrip inp" j rest] Some p by simp
    then show ?thesis
      using l Some p
      by (subst derivation_stream.simps)
        (auto simp: Let_def intro!: returns_intros drv_items_returns less)
  qed
qed

end
