(* ===== verification/Cve_Scan.thy ===== *)
theory Cve_Scan
  imports Cve_Report Cve_Sbom
begin

text \<open>
  Model of the effects of \<open>nix/modules/security/cve-scan/cve-scan.py\<close>: the classes \<open>Runner\<close> and
  \<open>Scanner\<close>, the small helpers and \<open>main\<close>. The state is the control node's files, the list of
  commands issued with what each one returned, and a world; what a command prints, the download, the clock, the file system's
  failures, the JSON and CSV readers and SHA-256 are the parameters \<open>tools\<close>. The temporary trees
  handed to syft are known by their name only, and \<open>log\<close> is not modelled.
\<close>

section \<open>The state and what is outside the program\<close>

record command =
  k_argv :: "string list"
  k_input :: "string option"

record 'w cst =
  cworld :: 'w
  files :: "string \<Rightarrow> string option"
  commands :: "(command \<times> string res) list"

record 'w tools =
  run :: "command \<Rightarrow> 'w \<Rightarrow> string res \<times> 'w"
  urlopen :: "string \<Rightarrow> 'w \<Rightarrow> string res \<times> 'w"
  time :: "'w \<Rightarrow> rat \<times> 'w"
  temp :: "string list \<Rightarrow> 'w \<Rightarrow> string res \<times> 'w"
  makedirs :: "string \<Rightarrow> 'w \<Rightarrow> unit res \<times> 'w"
  write_fault :: "string \<Rightarrow> 'w \<Rightarrow> (string option \<times> errno) option"
  replace_fault :: "string \<Rightarrow> 'w \<Rightarrow> errno option"
  loads :: "string \<Rightarrow> json option"
  raw_decode :: "string \<Rightarrow> (json \<times> string) option"
  dumps :: "json \<Rightarrow> string"
  csv_rows :: "string \<Rightarrow> (string option \<times> string option) list"
  sha256 :: "string \<Rightarrow> string"
  timestamp :: "string \<Rightarrow> rat option"

text \<open>One step of the world.\<close>

definition ask :: "('w \<Rightarrow> 'a res \<times> 'w) \<Rightarrow> ('w cst, 'a) eff" where
  "ask f s = (case f (cworld s) of (r, w) \<Rightarrow> (r, s\<lparr>cworld := w\<rparr>))"

definition now :: "'w tools \<Rightarrow> ('w cst, rat) eff" where
  "now T = ask (\<lambda>w. case time T w of (t, w') \<Rightarrow> (Ok t, w'))"

section \<open>Commands\<close>

record runner =
  ssh_key :: string
  grype :: string
  syft :: string

definition local :: "'w tools \<Rightarrow> string list \<Rightarrow> string option \<Rightarrow> ('w cst, string) eff" where
  "local T argv inp s =
     (let c = \<lparr>k_argv = argv, k_input = inp\<rparr>
      in case run T c (cworld s) of (out, w) \<Rightarrow> (out, s\<lparr>cworld := w, commands := commands s @ [(c, out)]\<rparr>))"

text \<open>\<open>shlex.quote\<close>.\<close>

definition shell_safe :: "char \<Rightarrow> bool" where
  "shell_safe c = (is_word c \<or> List.member ''@%+=:,./-'' c)"

definition SQ :: char where
  "SQ = CHR 0x27"

definition shlex_quote :: "string \<Rightarrow> string" where
  "shlex_quote s =
     (if s = [] then [SQ, SQ]
      else if list_all shell_safe s then s
      else SQ # concat (map (\<lambda>c. if c = SQ then [SQ, CHR 0x22, SQ, CHR 0x22, SQ] else [c]) s) @ [SQ])"

definition remote_argv :: "runner \<Rightarrow> string \<Rightarrow> string \<Rightarrow> string list \<Rightarrow> string list" where
  "remote_argv r target script args =
     (let argv = [''sh'', ''-c'', script, ''sh''] @ args in
      if target \<noteq> ''local''
      then [''ssh'', ''-i'', ssh_key r, ''-o'', ''BatchMode=yes'', ''-o'', ''StrictHostKeyChecking=yes'',
            ''-o'', ''ConnectTimeout=20'', target, join '' '' (map shlex_quote argv)]
      else argv)"

definition remote :: "'w tools \<Rightarrow> runner \<Rightarrow> string \<Rightarrow> string \<Rightarrow> string list \<Rightarrow> string option \<Rightarrow>
    ('w cst, string) eff" where
  "remote T r target script args inp = local T (remote_argv r target script args) inp"

text \<open>The streamed output ends in a temporary file, which only syft reads.\<close>

definition remote_to_file :: "'w tools \<Rightarrow> runner \<Rightarrow> string \<Rightarrow> string \<Rightarrow> string list \<Rightarrow> ('w cst, unit) eff" where
  "remote_to_file T r target script args =
     bindE (local T (remote_argv r target script args) None) (\<lambda>_. retE ())"

section \<open>The scripts\<close>

definition NIXOS_SYSTEM :: string where
  "NIXOS_SYSTEM = ''readlink -f /run/current-system''"

definition NIXOS_DERIVATIONS :: string where
  "NIXOS_DERIVATIONS = ''for p in $(nix-store -qR '' @ QUOTE @ ''$1'' @ QUOTE @ ''); do '' @
     ''nix --extra-experimental-features nix-command derivation show '' @ QUOTE @ ''$p'' @ QUOTE @
     '' 2>/dev/null; echo; done''"

definition quoted :: "char \<Rightarrow> string \<Rightarrow> string" where
  "quoted q s = q # s @ [q]"

definition DOCKER_IMAGES :: string where
  "DOCKER_IMAGES =
     ''command -v docker >/dev/null || exit 0; '' @
     ''pairs=$(sudo -n docker ps -q | xargs -r sudo -n docker inspect --format '' @
       quoted SQ (''{{.Image}}'' @ [CHR 0x09] @ ''{{.Config.Image}}'') @ '' | sort -u); '' @
     ''[ -n '' @ QUOTE @ ''$pairs'' @ QUOTE @ '' ] || exit 0; '' @
     ''printf '' @ QUOTE @ ''%s'' @ [CHR 0x5C] @ ''n'' @ QUOTE @ '' '' @ QUOTE @ ''$pairs'' @ QUOTE @
       '' | while IFS= read -r p; do printf '' @ QUOTE @ ''container'' @ [CHR 0x5C] @ ''t%s'' @ [CHR 0x5C] @
       ''n'' @ QUOTE @ '' '' @ QUOTE @ ''$p'' @ QUOTE @ ''; done; '' @
     ''for i in $(printf '' @ quoted SQ (''%s'' @ [CHR 0x5C] @ ''n'') @ '' '' @ QUOTE @ ''$pairs'' @ QUOTE @
       '' | cut -f1 | sort -u); do sudo -n docker image inspect --format '' @
       quoted SQ (''{{.Id}}'' @ [CHR 0x09] @ ''{{json .RepoTags}}'' @ [CHR 0x09] @ ''{{json .RepoDigests}}'' @
         [CHR 0x09] @ ''{{.Size}}'') @ '' '' @ QUOTE @ ''$i'' @ QUOTE @ ''; done''"

definition DOCKER_SAVE :: string where
  "DOCKER_SAVE = ''sudo -n docker save '' @ QUOTE @ ''$1'' @ QUOTE"

definition SEP :: string where
  "SEP = ''===KRG-CVE-SEP===''"

definition DEBIAN_INVENTORY :: string where
  "DEBIAN_INVENTORY = ''cat /etc/os-release; echo '' @ SEP @ ''; cat /var/lib/dpkg/status''"

definition SAVE_MAX_BYTES :: int where
  "SAVE_MAX_BYTES = 8 * 10 ^ 9"

definition CPEDICT_URL :: string where
  "CPEDICT_URL = ''https://github.com/tiiuae/cpedict/raw/main/data/cpes.csv''"

definition PROM_NAME :: string where
  "PROM_NAME = ''krg_cve.prom''"

section \<open>Files\<close>

definition path_join :: "string \<Rightarrow> string \<Rightarrow> string" where
  "path_join a b =
     (if startswith b ''/'' then b else if a = [] \<or> endswith a ''/'' then a @ b else a @ ''/'' @ b)"

definition write_text :: "'w tools \<Rightarrow> string \<Rightarrow> string \<Rightarrow> ('w cst, unit) eff" where
  "write_text T path body =
     bindE (getE (\<lambda>s. write_fault T path (cworld s))) (\<lambda>fault.
       case fault of
         None \<Rightarrow> modE (\<lambda>s. s\<lparr>files := (files s)(path := Some body)\<rparr>)
       | Some (left, e) \<Rightarrow>
           bindE (modE (\<lambda>s. s\<lparr>files := (files s)(path := left)\<rparr>)) (\<lambda>_. raiseE (OSError e)))"

definition replace_file :: "'w tools \<Rightarrow> string \<Rightarrow> string \<Rightarrow> ('w cst, unit) eff" where
  "replace_file T src dst =
     bindE (getE (\<lambda>s. replace_fault T dst (cworld s))) (\<lambda>fault.
       case fault of
         None \<Rightarrow> modE (\<lambda>s. s\<lparr>files := (files s)(dst := files s src, src := None)\<rparr>)
       | Some e \<Rightarrow> raiseE (OSError e))"

definition atomic_write :: "'w tools \<Rightarrow> string \<Rightarrow> string \<Rightarrow> ('w cst, unit) eff" where
  "atomic_write T path body =
     bindE (write_text T (path @ ''.tmp'') body) (\<lambda>_. replace_file T (path @ ''.tmp'') path)"

definition read_text :: "string \<Rightarrow> ('w cst, string) eff" where
  "read_text path =
     bindE (getE (\<lambda>s. files s path)) (\<lambda>c. case c of None \<Rightarrow> raiseE (OSError ENOENT) | Some b \<Rightarrow> retE b)"

definition exists_file :: "string \<Rightarrow> ('w cst, bool) eff" where
  "exists_file path = getE (\<lambda>s. files s path \<noteq> None)"

section \<open>Time stamps\<close>

text \<open>\<open>re.sub(r"\.\d+", "", s)\<close>.\<close>

fun drop_fractions :: "bool \<Rightarrow> string \<Rightarrow> string" where
  "drop_fractions skip [] = []"
| "drop_fractions skip (c # s) =
     (if skip \<and> is_digit c then drop_fractions True s
      else if c = CHR ''.'' \<and> s \<noteq> [] \<and> is_digit (hd s) then drop_fractions True s
      else c # drop_fractions False s)"

definition parse_time :: "'w tools \<Rightarrow> json option \<Rightarrow> ('w cst, rat option) eff" where
  "parse_time T s =
     (case s of
        None \<Rightarrow> retE None
      | Some j \<Rightarrow>
          if \<not> truthy j then retE None
          else bindE (as_str j) (\<lambda>t.
            let t' = concat (map (\<lambda>c. if c = CHR ''Z'' then ''+00:00'' else [c]) (drop_fractions False t)) in
            case timestamp T t' of None \<Rightarrow> raiseE ValueError | Some x \<Rightarrow> retE (Some x)))"

definition load :: "'w tools \<Rightarrow> string \<Rightarrow> ('w cst, json) eff" where
  "load T x = (case loads T x of None \<Rightarrow> raiseE ValueError | Some j \<Rightarrow> retE j)"

section \<open>The scanner\<close>

record scanner =
  r :: runner
  state :: string
  textfile_dir :: string
  save_max_bytes :: int
  sbom_dir :: string
  cpe_dict :: cpedict
  db_built :: "rat option"

definition Scanner :: "'w tools \<Rightarrow> runner \<Rightarrow> string \<Rightarrow> string \<Rightarrow> int \<Rightarrow> ('w cst, scanner) eff" where
  "Scanner T rn state_dir tdir cap =
     (let sdir = path_join state_dir ''sbom'' in
      bindE (ask (makedirs T sdir)) (\<lambda>_.
        retE \<lparr>r = rn, state = state_dir, textfile_dir = tdir, save_max_bytes = cap, sbom_dir = sdir,
              cpe_dict = [], db_built = None\<rparr>))"

definition is_command_failure :: "exc \<Rightarrow> bool" where
  "is_command_failure e = (is_CalledProcessError e \<or> e = TimeoutExpired)"

definition cpedict_text :: "'w tools \<Rightarrow> scanner \<Rightarrow> ('w cst, string) eff" where
  "cpedict_text T S =
     (let cache = path_join (state S) ''cpes.csv'' in
      catchE
        (bindE (ask (urlopen T CPEDICT_URL)) (\<lambda>body. bindE (atomic_write T cache body) (\<lambda>_. retE body)))
        is_OSError
        (\<lambda>_. catchE (read_text cache) is_OSError (\<lambda>_. retE [])))"

text \<open>The scanner with its database and vendors, or \<open>None\<close> when there is no usable database.\<close>

definition db_status :: "'w tools \<Rightarrow> scanner \<Rightarrow> ('w cst, rat option) eff" where
  "db_status T S =
     bindE (local T [grype (r S), ''db'', ''status'', ''-o'', ''json''] None) (\<lambda>out.
     bindE (load T out) (\<lambda>status. bindE (get_key ''built'' status) (\<lambda>b. parse_time T b)))"

definition prepare :: "'w tools \<Rightarrow> scanner \<Rightarrow> ('w cst, scanner option) eff" where
  "prepare T S =
     bindE (catchE (bindE (local T [grype (r S), ''db'', ''update''] None) (\<lambda>_. retE ())) is_command_failure
        (\<lambda>_. retE ())) (\<lambda>_.
     bindE (catchE (bindE (db_status T S) (\<lambda>b. retE (Some b))) (\<lambda>e. is_CalledProcessError e \<or> e = ValueError)
        (\<lambda>_. retE None)) (\<lambda>built.
       case built of
         None \<Rightarrow> retE None
       | Some b \<Rightarrow>
           bindE (cpedict_text T S) (\<lambda>t. retE (Some (S\<lparr>db_built := b, cpe_dict := CpeDict (csv_rows T t)\<rparr>)))))"

definition cached :: "'w tools \<Rightarrow> scanner \<Rightarrow> string \<Rightarrow> string" where
  "cached T S key = path_join (sbom_dir S) (take 32 (sha256 T key) @ ''.cdx.json'')"

definition system_sbom :: "'w tools \<Rightarrow> scanner \<Rightarrow> string \<Rightarrow> ('w cst, string) eff" where
  "system_sbom T S target =
     bindE (remote T (r S) target NIXOS_SYSTEM [] None) (\<lambda>out.
       let system = strip out; path = cached T S (''nixos:'' @ system) in
       if \<not> startswith system ''/nix/store/'' then raiseE (RuntimeError ''unexpected /run/current-system'')
       else
         bindE (exists_file path) (\<lambda>b.
           if b then retE path
           else
             bindE (remote T (r S) target NIXOS_DERIVATIONS [system] None) (\<lambda>listing.
             bindE (parse_derivation_stream (raw_decode T) listing) (\<lambda>derivations.
               if derivations = [] then raiseE (RuntimeError ''no derivations found for the running system'')
               else
                 bindE (nixos_sbom (loads T) system derivations (cpe_dict S)) (\<lambda>sbom.
                 bindE (atomic_write T path (dumps T sbom)) (\<lambda>_. retE path))))))"

definition images :: "'w tools \<Rightarrow> scanner \<Rightarrow> string \<Rightarrow> ('w cst, image list) eff" where
  "images T S target =
     bindE (remote T (r S) target DOCKER_IMAGES [] None) (\<lambda>out. parse_image_inventory (loads T) out)"

definition registry_sbom :: "'w tools \<Rightarrow> scanner \<Rightarrow> string \<Rightarrow> string \<Rightarrow> ('w cst, string) eff" where
  "registry_sbom T S path digest =
     bindE (local T [syft (r S), ''-q'', ''registry:'' @ digest, ''-o'', ''cyclonedx-json''] None) (\<lambda>sbom.
     bindE (atomic_write T path sbom) (\<lambda>_. retE path))"

definition saved_sbom :: "'w tools \<Rightarrow> scanner \<Rightarrow> string \<Rightarrow> string \<Rightarrow> string \<Rightarrow> int option \<Rightarrow> ('w cst, string) eff" where
  "saved_sbom T S target path image_id sz =
     (case sz of
        None \<Rightarrow> raiseE (RuntimeError ''no registry copy and the image is too large'')
      | Some n \<Rightarrow>
          if n > save_max_bytes S then raiseE (RuntimeError ''no registry copy and the image is too large'')
          else
            bindE (ask (temp T [])) (\<lambda>tar.
            bindE (remote_to_file T (r S) target DOCKER_SAVE [image_id]) (\<lambda>_.
            bindE (local T [syft (r S), ''-q'', ''docker-archive:'' @ tar, ''-o'', ''cyclonedx-json''] None) (\<lambda>sbom.
            bindE (atomic_write T path sbom) (\<lambda>_. retE path)))))"

definition image_sbom :: "'w tools \<Rightarrow> scanner \<Rightarrow> string \<Rightarrow> string \<Rightarrow> string option \<Rightarrow> int option \<Rightarrow>
    ('w cst, string) eff" where
  "image_sbom T S target image_id digest sz =
     (let path = cached T S (''image:'' @ image_id) in
      bindE (exists_file path) (\<lambda>b.
        if b then retE path
        else
          case digest of
            None \<Rightarrow> saved_sbom T S target path image_id sz
          | Some d \<Rightarrow>
              if d = [] then saved_sbom T S target path image_id sz
              else catchE (registry_sbom T S path d) is_command_failure
                     (\<lambda>_. saved_sbom T S target path image_id sz)))"

text \<open>\<open>s.partition(sep)\<close> for the text before and after the separator.\<close>

definition partition_text :: "string \<Rightarrow> string \<Rightarrow> string \<times> string" where
  "partition_text s sep =
     (let a = before_str sep s in (a, drop (length a + length sep) s))"

definition debian_sbom :: "'w tools \<Rightarrow> scanner \<Rightarrow> string \<Rightarrow> ('w cst, string) eff" where
  "debian_sbom T S target =
     bindE (remote T (r S) target DEBIAN_INVENTORY [] None) (\<lambda>out.
       let (os_release, status) = partition_text out (SEP @ [CHR 0x0A]);
           path = cached T S (''debian:'' @ sha256 T out) in
       bindE (exists_file path) (\<lambda>b.
         if b then retE path
         else
           bindE (ask (temp T [os_release, status])) (\<lambda>dir.
           bindE (local T [syft (r S), ''-q'', ''dir:'' @ dir, ''-o'', ''cyclonedx-json''] None) (\<lambda>sbom.
           bindE (atomic_write T path sbom) (\<lambda>_. retE path)))))"

definition scan :: "'w tools \<Rightarrow> scanner \<Rightarrow> string \<Rightarrow> ('w cst, counts) eff" where
  "scan T S sbom_path =
     bindE (local T [grype (r S), ''sbom:'' @ sbom_path, ''-q'', ''-o'', ''json''] None) (\<lambda>out.
     bindE (load T out) (\<lambda>report. summarize report))"

section \<open>One host\<close>

definition read_published :: "'w tools \<Rightarrow> scanner \<Rightarrow> string \<Rightarrow> ('w cst, string) eff" where
  "read_published T S target =
     catchE (remote T (r S) target (''cat '' @ quoted (CHR 0x22) ''$1'' @ '' 2>/dev/null || true'')
        [path_join (textfile_dir S) PROM_NAME] None)
       is_CalledProcessError (\<lambda>_. retE [])"

definition publish_script :: "string \<Rightarrow> string" where
  "publish_script target =
     (let tmp = quoted (CHR 0x22) ''$1.tmp''; dst = quoted (CHR 0x22) ''$1'' in
      if startswith target ''root@'' then ''cat > '' @ tmp @ '' && mv -f '' @ tmp @ '' '' @ dst
      else ''sudo -n tee '' @ tmp @ '' >/dev/null && sudo -n mv -f '' @ tmp @ '' '' @ dst)"

definition publish :: "'w tools \<Rightarrow> scanner \<Rightarrow> string \<Rightarrow> string \<Rightarrow> ('w cst, unit) eff" where
  "publish T S target body =
     bindE (remote T (r S) target (publish_script target) [path_join (textfile_dir S) PROM_NAME] (Some body))
       (\<lambda>_. retE ())"

text \<open>A failed target keeps last night's counts and time.\<close>

definition failed :: "previous \<Rightarrow> string \<Rightarrow> string \<Rightarrow> result" where
  "failed prev tgt img =
     (case dict_get prev (tgt, img) of
        None \<Rightarrow> \<lparr>r_target = tgt, r_image = img, r_ok = False, r_counts = None, r_at = None\<rparr>
      | Some (c, t) \<Rightarrow> \<lparr>r_target = tgt, r_image = img, r_ok = False, r_counts = Some c, r_at = t\<rparr>)"

definition record_target :: "'w tools \<Rightarrow> scanner \<Rightarrow> previous \<Rightarrow> string \<Rightarrow> string \<Rightarrow> ('w cst, string) eff \<Rightarrow>
    ('w cst, result) eff" where
  "record_target T S prev tgt img fn =
     catchE
       (bindE fn (\<lambda>path. bindE (scan T S path) (\<lambda>counts. bindE (now T) (\<lambda>t.
          retE \<lparr>r_target = tgt, r_image = img, r_ok = True, r_counts = Some counts, r_at = Some t\<rparr>))))
       is_Exception
       (\<lambda>_. retE (failed prev tgt img))"

text \<open>The images to scan, or last night's images marked as failed.\<close>

definition listed :: "'w tools \<Rightarrow> scanner \<Rightarrow> previous \<Rightarrow> string \<Rightarrow> string \<Rightarrow> ('w cst, result list \<times> image list) eff" where
  "listed T S prev target kind =
     catchE
       (if kind = ''nixos'' then bindE (images T S target) (\<lambda>ims. retE ([], ims)) else retE ([], []))
       is_Exception
       (\<lambda>_. retE (map (\<lambda>k. failed prev (fst k) (snd k)) (filter (\<lambda>k. fst k = ''image'') (dict_keys prev)), []))"

definition scan_host :: "'w tools \<Rightarrow> scanner \<Rightarrow> previous \<Rightarrow> string \<Rightarrow> string \<Rightarrow> ('w cst, result list) eff" where
  "scan_host T S prev target kind =
     bindE (record_target T S prev ''system'' []
        (if kind = ''nixos'' then system_sbom T S target else debian_sbom T S target)) (\<lambda>sys.
     bindE (listed T S prev target kind) (\<lambda>(old, ims).
     bindE (mapE (\<lambda>im. record_target T S prev ''image'' (im_ref im)
        (image_sbom T S target (im_id im) (im_digest im) (map_option int (im_size im)))) ims) (\<lambda>rs.
       retE (sys # old @ rs))))"

definition host :: "'w tools \<Rightarrow> scanner \<Rightarrow> string \<Rightarrow> string \<Rightarrow> string \<Rightarrow> ('w cst, unit) eff" where
  "host T S target kind publish_to =
     bindE (read_published T S publish_to) (\<lambda>body.
     bindE (parse_previous body) (\<lambda>prev.
     bindE (scan_host T S prev target kind) (\<lambda>results.
       publish T S publish_to (render_metrics results (db_built S)))))"

section \<open>The whole run\<close>

text \<open>\<open>h.get("kind", "nixos")\<close>; anything but \<open>nixos\<close> is a Debian host.\<close>

definition kind_of :: "json \<Rightarrow> ('s, string) eff" where
  "kind_of h =
     bindE (get_key ''kind'' h) (\<lambda>v.
       retE (case v of None \<Rightarrow> ''nixos'' | Some (JStr k) \<Rightarrow> k | Some _ \<Rightarrow> []))"

definition scan_one :: "'w tools \<Rightarrow> scanner \<Rightarrow> json \<Rightarrow> ('w cst, unit) eff" where
  "scan_one T S h =
     catchE
       (bindE (field ''name'' h) (\<lambda>_. bindE (str_field ''target'' h) (\<lambda>target.
        bindE (kind_of h) (\<lambda>kind. bindE (str_get ''publish'' h target) (\<lambda>publish_to.
          host T S target kind publish_to)))))
       is_Exception
       (\<lambda>_. bindE (field ''name'' h) (\<lambda>_. retE ()))"

definition new_scanner :: "'w tools \<Rightarrow> json \<Rightarrow> ('w cst, scanner) eff" where
  "new_scanner T cfg =
     bindE (str_field ''ssh_key'' cfg) (\<lambda>k. bindE (str_field ''grype'' cfg) (\<lambda>g. bindE (str_field ''syft'' cfg) (\<lambda>y.
     bindE (str_field ''state_dir'' cfg) (\<lambda>d. bindE (str_field ''textfile_dir'' cfg) (\<lambda>t.
     bindE (get_key ''save_max_bytes'' cfg) (\<lambda>m.
     bindE (case m of None \<Rightarrow> retE SAVE_MAX_BYTES | Some j \<Rightarrow> as_int j) (\<lambda>cap.
       Scanner T \<lparr>ssh_key = k, grype = g, syft = y\<rparr> d t cap)))))))"

definition configure :: "'w tools \<Rightarrow> string \<Rightarrow> ('w cst, json \<times> scanner) eff" where
  "configure T config =
     bindE (read_text config) (\<lambda>body. bindE (load T body) (\<lambda>cfg. bindE (new_scanner T cfg) (\<lambda>S.
       retE (cfg, S))))"

definition main :: "'w tools \<Rightarrow> string \<Rightarrow> ('w cst, int) eff" where
  "main T config =
     bindE (configure T config) (\<lambda>(cfg, S0).
     bindE (prepare T S0) (\<lambda>ready.
       case ready of
         None \<Rightarrow> retE 0
       | Some S \<Rightarrow>
           bindE (field ''hosts'' cfg) (\<lambda>hs. bindE (as_list hs) (\<lambda>hosts.
           bindE (forE hosts (scan_one T S)) (\<lambda>_. retE 0)))))"

end
