(* ===== verification/Cve_Report_Correct.thy ===== *)
theory Cve_Report_Correct
  imports Cve_Report
begin

text \<open>
  Reading back what was rendered, and what a summary counts.
\<close>

section \<open>Numbers as text\<close>

lemma float_of_str_nat: "float_of_string (str_nat n) = Some (of_nat n)"
proof -
  obtain c s where s: "str_nat n = c # s" by (cases "str_nat n") auto
  have "is_digit c" using str_nat_clean[of c n] s by simp
  then have "\<not> startswith (str_nat n) ''-''" "\<not> startswith (str_nat n) ''+''"
    using digit_not_special[of c] by (auto simp: startswith_def s)
  moreover have d: "dropWhile (\<lambda>x. x \<noteq> CHR ''.'') (str_nat n) = []"
    using str_nat_clean digit_not_special unfolding dropWhile_eq_Nil_conv by blast
  have "partition_on (CHR ''.'') (str_nat n) = (str_nat n, False, [])" unfolding partition_on_def d by simp
  ultimately show ?thesis using str_nat_digits[of n] by (simp add: float_of_string_def Let_def)
qed

lemma float_of_str_int: "0 \<le> i \<Longrightarrow> float_of_string (str_int i) = Some (of_int i)"
  by (simp add: str_int_def float_of_str_nat)

lemma str_int_clean: "0 \<le> i \<Longrightarrow> str_int i \<noteq> [] \<and> list_all (\<lambda>c. \<not> is_space c \<and> \<not> is_break c) (str_int i)"
  using str_nat_clean digit_not_special by (fastforce simp: str_int_def list_all_iff)

section \<open>Lines\<close>

lemma lines_acc_line:
  assumes "list_all (\<lambda>c. \<not> is_break c) l"
  shows "lines_acc acc (l @ CHR 0x0A # rest) = (rev acc @ l) # lines_acc [] rest"
  using assms
proof (induction l arbitrary: acc)
  case Nil
  have "is_break (CHR 0x0A)" "of_char (CHR 0x0A) \<noteq> (13 :: nat)" by (simp_all add: is_break_def)
  then show ?case by (cases rest) simp_all
next
  case (Cons c l)
  then show ?case by simp
qed

lemma splitlines_join:
  assumes "ls \<noteq> []" and "list_all (list_all (\<lambda>c. \<not> is_break c)) ls"
  shows "splitlines (join [CHR 0x0A] ls @ [CHR 0x0A]) = ls"
proof -
  have "lines_acc [] (join [CHR 0x0A] ls @ [CHR 0x0A]) = ls"
    using assms
  proof (induction ls rule: induct_list012)
    case (2 x)
    then show ?case using lines_acc_line[of x "[]" "[]"] by simp
  next
    case (3 x y zs)
    then show ?case using lines_acc_line[of x "[]"] by simp
  qed simp
  then show ?thesis by (simp add: splitlines_def)
qed

section \<open>Labels\<close>

definition plain_label :: "string \<times> string \<Rightarrow> bool" where
  "plain_label kv \<longleftrightarrow> fst kv \<noteq> [] \<and> list_all is_word (fst kv) \<and> CHR 0x22 \<notin> set (snd kv)"

lemma find_label:
  assumes "plain_label kv" and "\<not> (case rest of c # _ \<Rightarrow> is_word c | [] \<Rightarrow> False)"
  shows "find_labels (label kv @ rest) = kv # find_labels rest"
proof -
  obtain k v where kv: "kv = (k, v)" by (cases kv)
  have q: "\<not> is_word (CHR ''='')" by (simp add: is_word_def is_alpha_def is_digit_def)
  have s: "label kv @ rest = k @ CHR ''='' # CHR 0x22 # v @ CHR 0x22 # rest"
    by (simp add: label_def QUOTE_def kv)
  have k: "takeWhile is_word (label kv @ rest) = k"
    "dropWhile is_word (label kv @ rest) = CHR ''='' # CHR 0x22 # v @ CHR 0x22 # rest"
    unfolding s using assms(1) q
    by (auto simp: kv plain_label_def list_all_iff takeWhile_append2 dropWhile_append2)
  have v: "takeWhile (\<lambda>c. c \<noteq> CHR 0x22) (v @ CHR 0x22 # rest) = v"
    "dropWhile (\<lambda>c. c \<noteq> CHR 0x22) (v @ CHR 0x22 # rest) = CHR 0x22 # rest"
  proof -
    have "c \<noteq> CHR 0x22" if "c \<in> set v" for c using assms(1) that by (auto simp: kv plain_label_def)
    then show "takeWhile (\<lambda>c. c \<noteq> CHR 0x22) (v @ CHR 0x22 # rest) = v"
      "dropWhile (\<lambda>c. c \<noteq> CHR 0x22) (v @ CHR 0x22 # rest) = CHR 0x22 # rest"
      by (subst takeWhile_append2 dropWhile_append2; simp)+
  qed
  have "k \<noteq> []" using assms(1) by (simp add: kv plain_label_def)
  then show ?thesis
    by (subst find_labels.simps) (simp add: k v Let_def startswith_def QUOTE_def, simp add: kv label_def)
qed

lemma find_labels_comma: "find_labels (CHR '','' # s) = find_labels s"
  by (subst find_labels.simps) (simp add: is_word_def is_alpha_def is_digit_def Let_def)

lemma find_labels_Nil [simp]: "find_labels [] = []"
  by (subst find_labels.simps) simp

lemma find_labels_join: "list_all plain_label kvs \<Longrightarrow> find_labels (join '','' (map label kvs)) = kvs"
proof (induction kvs rule: induct_list012)
  case (2 kv)
  then show ?case using find_label[of kv "[]"] by simp
next
  case (3 kv kv' kvs)
  have "\<not> is_word (CHR '','')" by (simp add: is_word_def is_alpha_def is_digit_def)
  then show ?case
    using 3 find_label[of kv "CHR '','' # join '','' (map label (kv' # kvs))"] by (simp add: find_labels_comma)
qed simp

lemma labels_of_labels:
  assumes "list_all plain_label d" and "distinct (map fst d)"
  shows "labels_of (labels d) = sort d"
proof -
  have "find_labels (labels d) = sort d"
    unfolding labels_def by (rule find_labels_join) (use assms(1) in \<open>simp add: list_all_iff\<close>)
  moreover have "foldl (\<lambda>d kv. dict_set (fst kv) (snd kv) d) acc xs = acc @ xs"
    if "distinct (dict_keys acc @ map fst xs)" for acc xs :: "(string \<times> string) list"
    using that
  proof (induction xs arbitrary: acc)
    case (Cons x xs)
    have "dict_set (fst x) (snd x) acc = acc @ [x]"
      using Cons.prems unfolding dict_set_def dict_keys_def by (induction acc) auto
    then show ?case using Cons by (simp add: dict_keys_def)
  qed simp
  moreover have "distinct (map fst (sort d))"
    using assms(2) by (metis distinct_map distinct_sort set_sort)
  ultimately show ?thesis by (simp add: labels_of_def dict_keys_def)
qed

section \<open>Samples\<close>

definition clean_text :: "string \<Rightarrow> bool" where
  "clean_text s \<longleftrightarrow> list_all (\<lambda>c. c \<noteq> CHR 0x22 \<and> \<not> is_break c) s"

lemma split_value_sample:
  assumes "v \<noteq> []" and "list_all (\<lambda>c. \<not> is_space c) v"
  shows "split_value (body @ ''} '' @ v) = Some (body, v)"
proof -
  have sp: "is_space (CHR '' '')" by (simp add: is_space_def)
  have "takeWhile (\<lambda>c. \<not> is_space c) (rev v @ CHR '' '' # CHR ''}'' # rev body) = rev v"
    "dropWhile (\<lambda>c. \<not> is_space c) (rev v @ CHR '' '' # CHR ''}'' # rev body) = CHR '' '' # CHR ''}'' # rev body"
    using assms(2) sp by (auto simp: takeWhile_append dropWhile_append list_all_iff)
  with assms(1) show ?thesis by (simp add: split_value_def Let_def)
qed

lemma match_sample:
  assumes "v \<noteq> []" and "list_all (\<lambda>c. \<not> is_space c) v"
  shows "match_line (sample VULNS d v) = Some (True, labels d, v)"
    and "match_line (sample STAMPS d v) = Some (False, labels d, v)"
    and "match_line (sample ''krg_cve_scan_success'' d v) = None"
proof -
  have l: "length VULNS = 23" "length STAMPS = 30" by (simp_all add: VULNS_def STAMPS_def)
  have "sample VULNS d v = (VULNS @ ''{'') @ labels d @ ''} '' @ v" by (simp add: sample_def)
  then show "match_line (sample VULNS d v) = Some (True, labels d, v)"
    using split_value_sample[OF assms, of "labels d"] by (simp add: match_line_def startswith_def)
  have "sample STAMPS d v = (STAMPS @ ''{'') @ labels d @ ''} '' @ v" by (simp add: sample_def)
  moreover have "\<not> startswith (sample STAMPS d v) (VULNS @ ''{'')"
    by (simp add: sample_def startswith_def VULNS_def STAMPS_def)
  ultimately show "match_line (sample STAMPS d v) = Some (False, labels d, v)"
    using split_value_sample[OF assms, of "labels d"] by (simp add: match_line_def startswith_def)
  show "match_line (sample ''krg_cve_scan_success'' d v) = None"
    by (simp add: match_line_def sample_def startswith_def VULNS_def STAMPS_def)
qed

section \<open>Reading a file line by line\<close>

text \<open>What a line says: a count or a time for a target.\<close>

datatype item = Count "string \<times> string" bucket int | Stamp "string \<times> string" rat

primrec item_key :: "item \<Rightarrow> string \<times> string" where
  "item_key (Count k b n) = k" | "item_key (Stamp k t) = k"

definition entry_of :: "(counts \<times> rat option) option \<Rightarrow> counts \<times> rat option" where
  "entry_of v = (case v of None \<Rightarrow> ([], None) | Some p \<Rightarrow> p)"

primrec upd :: "item \<Rightarrow> (counts \<times> rat option) option \<Rightarrow> (counts \<times> rat option) option" where
  "upd (Count k b n) v = Some (dict_set b n (fst (entry_of v)), snd (entry_of v))"
| "upd (Stamp k t) v = Some (fst (entry_of v), Some t)"

definition says :: "string \<Rightarrow> item list \<Rightarrow> bool" where
  "says line is \<longleftrightarrow> (\<forall>prev. \<exists>prev'. add_line prev line = Ok prev' \<and>
     (\<forall>k. dict_get prev' k = fold upd (filter (\<lambda>i. item_key i = k) is) (dict_get prev k)))"

lemma says_nothing: "match_line line = None \<Longrightarrow> says line []"
  by (simp add: says_def add_line_def)

lemma says_count:
  assumes "clean_text (r_target r)" and "clean_text (r_image r)" and "clean_text sev" and "clean_text fx" and "0 \<le> n"
  shows "says (count_line r ((sev, fx), n)) [Count (r_target r, r_image r) (sev, fx) n]"
proof -
  let ?d = "[(''target'', r_target r), (''image'', r_image r), (''severity'', sev), (''fix'', fx)]"
  have "list_all plain_label ?d"
    using assms(1-4) by (auto simp: plain_label_def clean_text_def list_all_iff is_word_def is_alpha_def)
  then have "labels_of (labels ?d) = sort ?d" by (rule labels_of_labels) simp
  also have "\<dots> = [(''fix'', fx), (''image'', r_image r), (''severity'', sev), (''target'', r_target r)]"
    by (simp add: less_eq_prod_def)
  finally have lab: "labels_of (labels ?d) = \<dots>" .
  have "match_line (count_line r ((sev, fx), n)) = Some (True, labels ?d, str_int n)"
    unfolding count_line_def fst_conv snd_conv by (rule match_sample(1)) (use str_int_clean[OF assms(5)] in \<open>auto simp: list_all_iff\<close>)
  then show ?thesis
    using assms(5) unfolding says_def add_line_def
    by (auto simp: lab float_of_str_int Let_def entry_of_def simp del: dict_get_eq_None split: option.split prod.split)
qed

lemma says_stamp:
  assumes "clean_text (r_target r)" and "clean_text (r_image r)" and "0 \<le> n"
  shows "says (sample STAMPS [(''target'', r_target r), (''image'', r_image r)] (str_int n))
    [Stamp (r_target r, r_image r) (of_int n)]"
proof -
  let ?d = "[(''target'', r_target r), (''image'', r_image r)]"
  have "list_all plain_label ?d"
    using assms(1,2) by (auto simp: plain_label_def clean_text_def list_all_iff is_word_def is_alpha_def)
  then have "labels_of (labels ?d) = sort ?d" by (rule labels_of_labels) simp
  also have "\<dots> = [(''image'', r_image r), (''target'', r_target r)]" by (simp add: less_eq_prod_def)
  finally have lab: "labels_of (labels ?d) = \<dots>" .
  have "match_line (sample STAMPS ?d (str_int n)) = Some (False, labels ?d, str_int n)"
    by (rule match_sample(2)) (use str_int_clean[OF assms(3)] in \<open>auto simp: list_all_iff\<close>)
  then show ?thesis
    unfolding says_def add_line_def
    by (auto simp: lab float_of_str_int[OF assms(3)] Let_def entry_of_def simp del: dict_get_eq_None split: option.split prod.split)
qed

lemma parse_lines:
  assumes "list_all2 says lines iss"
  shows "\<exists>prev'. foldE (\<lambda>prev line. liftE (add_line prev line)) prev lines = (retE prev' :: ('s, previous) eff) \<and>
    (\<forall>k. dict_get prev' k = fold upd (filter (\<lambda>i. item_key i = k) (concat iss)) (dict_get prev k))"
  using assms
proof (induction lines iss arbitrary: prev rule: list_all2_induct)
  case Nil
  show ?case by (intro exI[of _ prev]) simp
next
  case (Cons line lines its iss)
  obtain p1 where p1: "add_line prev line = Ok p1"
      "\<forall>k. dict_get p1 k = fold upd (filter (\<lambda>i. item_key i = k) its) (dict_get prev k)"
    using Cons(1) unfolding says_def by blast
  obtain p2 where "foldE (\<lambda>prev line. liftE (add_line prev line)) p1 lines = (retE p2 :: ('s, previous) eff)"
      "\<forall>k. dict_get p2 k = fold upd (filter (\<lambda>i. item_key i = k) (concat iss)) (dict_get p1 k)"
    using Cons.IH by blast
  with p1 show ?case by (intro exI[of _ p2]) (simp add: liftE_Ok)
qed

section \<open>Round trip\<close>

definition result_key :: "result \<Rightarrow> string \<times> string" where
  "result_key r = (r_target r, r_image r)"

definition clean_result :: "result \<Rightarrow> bool" where
  "clean_result r \<longleftrightarrow> clean_text (r_target r) \<and> clean_text (r_image r) \<and>
     pred_option (\<lambda>c. distinct (map fst c) \<and>
       list_all (\<lambda>e. clean_text (fst (fst e)) \<and> clean_text (snd (fst e)) \<and> 0 \<le> snd e) c) (r_counts r) \<and>
     pred_option (\<lambda>t. 0 \<le> t) (r_at r)"

text \<open>What a file keeps of a result: the counts, and the time in whole seconds.\<close>

definition kept_counts :: "result \<Rightarrow> counts" where
  "kept_counts r = (case r_counts r of None \<Rightarrow> [] | Some c \<Rightarrow> sort c)"

definition kept_time :: "result \<Rightarrow> rat option" where
  "kept_time r = (case r_at r of None \<Rightarrow> None | Some t \<Rightarrow> if t = 0 then None else Some (of_int \<lfloor>t\<rfloor>))"

definition remembered :: "result \<Rightarrow> (counts \<times> rat option) option" where
  "remembered r =
     (if kept_counts r = [] \<and> kept_time r = None then None else Some (kept_counts r, kept_time r))"

definition count_items :: "result \<Rightarrow> item list" where
  "count_items r = map (\<lambda>e. Count (result_key r) (fst e) (snd e)) (kept_counts r)"

definition stamp_items :: "result \<Rightarrow> item list" where
  "stamp_items r = (case kept_time r of None \<Rightarrow> [] | Some t \<Rightarrow> [Stamp (result_key r) t])"

lemma says_count_lines:
  assumes "clean_result r"
  shows "list_all2 says (count_lines r) (map (\<lambda>i. [i]) (count_items r))"
proof (cases "r_counts r")
  case None
  then show ?thesis by (simp add: count_lines_def count_items_def kept_counts_def)
next
  case (Some c)
  have "says (count_line r e) [Count (result_key r) (fst e) (snd e)]" if "e \<in> set c" for e
    using says_count[of r "fst (fst e)" "snd (fst e)" "snd e"] assms that
    by (auto simp: clean_result_def Some list_all_iff result_key_def)
  then have "list_all2 (\<lambda>e e'. says (count_line r e) [Count (result_key r) (fst e') (snd e')]) (sort c) (sort c)"
    by (simp add: list_all2_same)
  then show ?thesis
    by (simp add: count_lines_def count_items_def kept_counts_def Some list_all2_map1 list_all2_map2)
qed

lemma says_stamp_lines:
  assumes "clean_result r"
  shows "list_all2 says (stamp_lines r) (map (\<lambda>i. [i]) (stamp_items r))"
proof (cases "r_at r")
  case (Some t)
  then have "0 \<le> \<lfloor>t\<rfloor>" using assms by (simp add: clean_result_def)
  then show ?thesis
    using says_stamp[of r "\<lfloor>t\<rfloor>"] assms
    by (auto simp: stamp_lines_def stamp_items_def kept_time_def Some clean_result_def result_key_def)
qed (simp add: stamp_lines_def stamp_items_def kept_time_def)

lemma list_all2_concat_map:
  "(\<And>x. x \<in> set xs \<Longrightarrow> list_all2 R (f x) (g x)) \<Longrightarrow> list_all2 R (concat (map f xs)) (concat (map g xs))"
  by (induction xs) (auto intro: list_all2_appendI)

lemma says_render:
  assumes "list_all clean_result results"
  shows "\<exists>iss. list_all2 says (render_lines results db_built) iss \<and>
    concat iss = concat (map count_items results) @ concat (map stamp_items results)"
proof -
  have none: "list_all2 says ls (map (\<lambda>_. []) ls)" if "list_all (\<lambda>l. match_line l = None) ls" for ls
    using that by (induction ls) (auto intro: says_nothing)
  have comment: "match_line (CHR ''#'' # s) = None" for s
    by (simp add: match_line_def startswith_def VULNS_def STAMPS_def)
  have db: "match_line (''krg_cve_db_built_timestamp_seconds '' @ s) = None" for s
    by (simp add: match_line_def startswith_def VULNS_def STAMPS_def)
  have ok: "match_line (success_line r) = None" for r
    unfolding success_line_def by (rule match_sample(3)) (simp_all add: is_space_def)
  let ?c = "concat (map (\<lambda>r. map (\<lambda>i. [i]) (count_items r)) results)"
  let ?s = "concat (map (\<lambda>r. map (\<lambda>i. [i]) (stamp_items r)) results)"
  let ?db = "(case db_built of None \<Rightarrow> [] | Some t \<Rightarrow> if t = 0 then [] else
          [''# HELP krg_cve_db_built_timestamp_seconds Build time of the grype vulnerability DB used.'',
           ''# TYPE krg_cve_db_built_timestamp_seconds gauge'',
           ''krg_cve_db_built_timestamp_seconds '' @ str_int \<lfloor>t\<rfloor>])"
  let ?iss = "[[], []] @ ?c @ [[], []] @ map (\<lambda>_. []) (map success_line results) @ [[], []] @ ?s @ map (\<lambda>_. []) ?db"
  have "list_all2 says (render_lines results db_built) ?iss"
    unfolding render_lines_def
    by (intro list_all2_appendI list_all2_concat_map says_count_lines says_stamp_lines none)
      (use assms in \<open>auto simp: list_all_iff comment db[simplified] ok says_nothing split: option.split\<close>)
  moreover have "concat ?iss = concat (map count_items results) @ concat (map stamp_items results)"
  proof -
    have 1: "concat (map (\<lambda>i. [i]) xs) = xs" for xs :: "item list" by (induction xs) auto
    have 2: "concat (concat (map (\<lambda>r. map (\<lambda>i. [i]) (f r)) rs)) = concat (map f rs)" for f :: "result \<Rightarrow> item list" and rs
      by (induction rs) (simp_all add: 1)
    have 3: "concat (map (\<lambda>_. []) xs) = ([] :: item list)" for xs :: "string list" by (induction xs) auto
    show ?thesis by (simp add: 2 3)
  qed
  ultimately show ?thesis by blast
qed

lemma filter_key:
  assumes "distinct (map result_key rs)" and "\<And>r i. i \<in> set (f r) \<Longrightarrow> item_key i = result_key r"
  shows "r \<in> set rs \<Longrightarrow> filter (\<lambda>i. item_key i = result_key r) (concat (map f rs)) = f r"
    and "k \<notin> set (map result_key rs) \<Longrightarrow> filter (\<lambda>i. item_key i = k) (concat (map f rs)) = []"
proof -
  show 1: "filter (\<lambda>i. item_key i = k) (concat (map f rs)) = []" if "k \<notin> set (map result_key rs)" for k rs
    using that assms(2) by (auto simp: filter_empty_conv)
  show "filter (\<lambda>i. item_key i = result_key r) (concat (map f rs)) = f r" if "r \<in> set rs"
    using that assms(1)
  proof (induction rs)
    case (Cons r' rs)
    have f: "filter (\<lambda>i. item_key i = result_key r') (f r') = f r'" using assms(2) by (simp add: filter_id_conv)
    show ?case
    proof (cases "r = r'")
      case True
      then show ?thesis using Cons.prems f 1[of "result_key r'" rs] by simp
    next
      case False
      then have "r \<in> set rs" "result_key r' \<noteq> result_key r" using Cons.prems by auto
      then show ?thesis using Cons assms(2)[of _ r'] by (auto simp: filter_empty_conv)
    qed
  qed simp
qed

lemma fold_count_items:
  assumes "distinct (map fst (ys @ xs))"
  shows "fold upd (map (\<lambda>e. Count k (fst e) (snd e)) xs) (Some (ys, t)) = Some (ys @ xs, t)"
  using assms
proof (induction xs arbitrary: ys)
  case (Cons e xs)
  have "dict_set (fst e) (snd e) ys = ys @ [e]"
    using Cons.prems unfolding dict_set_def by (induction ys) auto
  then show ?case using Cons.IH[of "ys @ [e]"] Cons.prems by (simp add: entry_of_def)
qed simp

lemma fold_items:
  assumes "clean_result r"
  shows "fold upd (count_items r @ stamp_items r) None = remembered r"
proof -
  have d: "distinct (map fst (kept_counts r))"
  proof (cases "r_counts r")
    case (Some c)
    then have "distinct (map fst c)" using assms by (simp add: clean_result_def)
    then show ?thesis by (simp add: kept_counts_def Some distinct_map) 
  qed (simp add: kept_counts_def)
  have c: "fold upd (count_items r) None = (if kept_counts r = [] then None else Some (kept_counts r, None))"
  proof (cases "kept_counts r")
    case Nil
    then show ?thesis by (simp add: count_items_def)
  next
    case (Cons e es)
    have "fold upd (count_items r) None = fold upd (count_items r) (Some ([], None))"
      by (simp add: count_items_def Cons entry_of_def)
    then show ?thesis using fold_count_items[of "[]" "kept_counts r"] d Cons by (simp add: count_items_def)
  qed
  then show ?thesis by (auto simp: stamp_items_def remembered_def entry_of_def split: option.split)
qed

abbreviation one_line :: "string \<Rightarrow> bool" where
  "one_line s \<equiv> list_all (\<lambda>c. \<not> is_break c) s"

lemma one_line_join: "one_line sep \<Longrightarrow> list_all one_line xs \<Longrightarrow> one_line (join sep xs)"
  by (induction sep xs rule: join.induct) auto

lemma one_line_labels:
  assumes "list_all (\<lambda>kv. one_line (fst kv) \<and> one_line (snd kv)) d"
  shows "one_line (labels d)"
proof -
  have "\<not> is_break (CHR '','')" "\<not> is_break (CHR ''='')" "\<not> is_break (CHR 0x22)" by (simp_all add: is_break_def)
  with assms show ?thesis
    unfolding labels_def by (intro one_line_join) (auto simp: list_all_iff label_def QUOTE_def)
qed

lemma one_line_sample:
  assumes "list_all (\<lambda>kv. one_line (fst kv) \<and> clean_text (snd kv)) d" and "one_line name" and "one_line v"
  shows "one_line (sample name d v)"
proof -
  have "one_line (labels d)"
    by (rule one_line_labels) (use assms(1) in \<open>auto simp: list_all_iff clean_text_def\<close>)
  then show ?thesis using assms(2,3) by (simp add: sample_def is_break_def)
qed

lemma clean_lines:
  assumes "list_all clean_result results" and "pred_option (\<lambda>t. 0 \<le> t) db_built"
  shows "list_all one_line (render_lines results db_built)"
proof -
  have i: "one_line (str_int n)" if "0 \<le> n" for n
    using str_int_clean[OF that] by (simp add: list_all_iff)
  have c1: "one_line (count_line r e)" if "clean_result r" "r_counts r = Some c" "e \<in> set c" for r c e
    unfolding count_line_def using that
    by (intro one_line_sample i) (auto simp: clean_result_def VULNS_def is_break_def list_all_iff)
  then have c: "list_all one_line (count_lines r)" if "clean_result r" for r
    using c1[OF that] by (cases "r_counts r") (simp_all add: count_lines_def list_all_iff)
  have s: "one_line (success_line r)" if "clean_result r" for r
    using that unfolding success_line_def
    by (intro one_line_sample) (auto simp: clean_result_def is_break_def)
  have "one_line (sample STAMPS [(''target'', r_target r), (''image'', r_image r)] (str_int n))"
    if "clean_result r" "0 \<le> n" for r n
    using that by (intro one_line_sample i) (auto simp: clean_result_def STAMPS_def is_break_def)
  then have t: "list_all one_line (stamp_lines r)" if "clean_result r" for r
    using that by (cases "r_at r") (auto simp: stamp_lines_def clean_result_def)
  have m: "list_all one_line (concat (map f results))" if "\<And>r. clean_result r \<Longrightarrow> list_all one_line (f r)" for f
    using assms(1) that by (induction results) auto
  have d: "one_line (''krg_cve_db_built_timestamp_seconds '' @ str_int \<lfloor>t\<rfloor>)" if "db_built = Some t" for t
    using i[of "\<lfloor>t\<rfloor>"] assms(2) that by (simp add: is_break_def)
  have "list_all one_line (map success_line results)" using assms(1) s by (induction results) auto
  then show ?thesis
    unfolding render_lines_def using m[OF c] m[OF t] d
    by (cases db_built) (simp_all add: is_break_def)
qed

lemma parse_render:
  assumes "list_all clean_result results" and "distinct (map result_key results)"
    and "pred_option (\<lambda>t. 0 \<le> t) db_built"
  shows "\<exists>prev. parse_previous (render_metrics results db_built) = (retE prev :: ('s, previous) eff) \<and>
    list_all (\<lambda>r. dict_get prev (result_key r) = remembered r) results \<and>
    (\<forall>k. k \<notin> result_key ` set results \<longrightarrow> dict_get prev k = None)"
proof -
  obtain iss where iss: "list_all2 says (render_lines results db_built) iss"
    "concat iss = concat (map count_items results) @ concat (map stamp_items results)"
    using says_render[OF assms(1)] by blast
  have ck: "item_key i = result_key r" if "i \<in> set (count_items r)" for i r using that by (auto simp: count_items_def)
  have sk: "item_key i = result_key r" if "i \<in> set (stamp_items r)" for i r
    using that by (auto simp: stamp_items_def split: option.splits)
  have ne: "render_lines results db_built \<noteq> []" by (simp add: render_lines_def)
  have sl: "splitlines (render_metrics results db_built) = render_lines results db_built"
    unfolding render_metrics_def by (rule splitlines_join[OF ne clean_lines[OF assms(1,3)]])
  obtain prev where "parse_previous (render_metrics results db_built) = (retE prev :: ('s, previous) eff)"
    and prev: "dict_get prev k = fold upd (filter (\<lambda>i. item_key i = k) (concat iss)) None" for k
    using parse_lines[OF iss(1), of "[]"] unfolding parse_previous_def sl by auto
  moreover have 1: "dict_get prev (result_key r) = remembered r" if "r \<in> set results" for r
    using fold_items[of r] assms(1) that
    by (simp add: prev iss(2) filter_key(1)[OF assms(2) ck that] filter_key(1)[OF assms(2) sk that] list_all_iff)
  moreover have 2: "dict_get prev k = None" if "k \<notin> result_key ` set results" for k
    using that by (simp add: prev iss(2) filter_key(2)[OF assms(2) ck] filter_key(2)[OF assms(2) sk] del: dict_get_eq_None)
  ultimately show ?thesis by (intro exI[of _ prev]) (simp add: list_all_iff del: dict_get_eq_None)
qed

end
