(* ===== verification/Cve_Scan_Correct.thy ===== *)
theory Cve_Scan_Correct
  imports Cve_Scan Cve_Report_Correct
begin

text \<open>
  What a report counts, which commands a host is asked to run, what a failed target keeps, and which
  exceptions a run lets out.
\<close>

section \<open>What a summary counts\<close>

text \<open>A report as grype writes it, from its matches.\<close>

record finding =
  v_id :: string
  v_severity :: string
  v_state :: string
  a_name :: string
  a_version :: string

definition match_json :: "finding \<Rightarrow> json" where
  "match_json m =
     JObj [(''vulnerability'', JObj [(''id'', JStr (v_id m)), (''severity'', JStr (v_severity m)),
              (''fix'', JObj [(''state'', JStr (v_state m))])]),
           (''artifact'', JObj [(''name'', JStr (a_name m)), (''version'', JStr (a_version m))])]"

definition report_json :: "finding list \<Rightarrow> json" where
  "report_json ms = JObj [(''matches'', JArr (map match_json ms))]"

definition bucket_of :: "finding \<Rightarrow> bucket" where
  "bucket_of m =
     (if List.member SEVERITIES (lower (v_severity m)) then lower (v_severity m) else ''unknown'',
      if v_state m = ''fixed'' then ''available'' else ''none'')"

definition ident :: "finding \<Rightarrow> match_key" where
  "ident m = (JStr (v_id m), JStr (a_name m), JStr (a_version m))"

text \<open>The first match of every vulnerability of a package.\<close>

primrec firsts :: "match_key list \<Rightarrow> finding list \<Rightarrow> finding list" where
  "firsts seen [] = []"
| "firsts seen (m # ms) =
     (if List.member seen (ident m) then firsts seen ms else m # firsts (ident m # seen) ms)"

lemma firsts_distinct: "distinct (map ident (firsts seen ms)) \<and> ident ` set (firsts seen ms) \<inter> set seen = {}"
proof (induction ms arbitrary: seen)
  case (Cons m ms)
  have "distinct (map ident (firsts (ident m # seen) ms))"
    and "ident ` set (firsts (ident m # seen) ms) \<inter> set (ident m # seen) = {}"
    using Cons.IH[of "ident m # seen"] by blast+
  then show ?case using Cons.IH[of seen] by simp
qed simp

lemma firsts_set: "ident ` set (firsts seen ms) = ident ` set ms - set seen"
proof (induction ms arbitrary: seen)
  case (Cons m ms)
  then show ?case by (cases "ident m \<in> set seen") auto
qed simp

definition count_match :: "counts \<Rightarrow> finding \<Rightarrow> counts" where
  "count_match c m = dict_set (bucket_of m) (the (dict_get c (bucket_of m)) + 1) c"

lemma add_match_json:
  "add_match (c, seen) (match_json m) =
     retE (if List.member seen (ident m) then (c, seen) else (count_match c m, ident m # seen))"
proof -
  have low: "lower [] = []" "lower ''unknown'' = ''unknown''"
    by (simp_all add: lower_def lower_char_def Let_def)
  have s: "severity_of (JObj [(''id'', JStr (v_id m)), (''severity'', JStr (v_severity m)),
      (''fix'', JObj [(''state'', JStr (v_state m))])]) = retE (fst (bucket_of m))"
    by (auto simp: severity_of_def get_null_def get_key_def truthy_def bucket_of_def low SEVERITIES_def
        Let_def)
  have f: "fix_of (JObj [(''id'', JStr (v_id m)), (''severity'', JStr (v_severity m)),
      (''fix'', JObj [(''state'', JStr (v_state m))])]) = retE (snd (bucket_of m))"
    by (simp add: fix_of_def sub_object_def get_null_def get_key_def truthy_def bucket_of_def)
  have k: "match_id (JObj [(''id'', JStr (v_id m)), (''severity'', JStr (v_severity m)),
      (''fix'', JObj [(''state'', JStr (v_state m))])])
      (JObj [(''name'', JStr (a_name m)), (''version'', JStr (a_version m))]) = retE (ident m)"
    by (simp add: match_id_def get_null_def get_key_def hashable_def ident_def)
  show ?thesis
    by (simp add: add_match_def match_json_def sub_object_def get_key_def truthy_def s f k count_match_def)
qed

lemma fold_matches:
  "foldE add_match (c, seen) (map match_json ms) =
     retE (foldl count_match c (firsts seen ms), rev (map ident (firsts seen ms)) @ seen)"
  by (induction ms arbitrary: c seen) (simp_all add: add_match_json)

lemma dict_set_table:
  assumes "distinct bs" and "b \<in> set bs"
  shows "dict_set b v (map (\<lambda>x. (x, g x)) bs) = map (\<lambda>x. (x, (g(b := v)) x)) bs"
  using assms unfolding dict_set_def by (induction bs) auto

lemma dict_get_table: "b \<in> set bs \<Longrightarrow> dict_get (map (\<lambda>x. (x, g x)) bs) b = Some (g b)"
  by (simp add: dict_get_def map_of_map_restrict restrict_map_def)

lemma bucket_listed: "bucket_of m \<in> set (List.product SEVERITIES FIXES)"
  by (simp add: bucket_of_def SEVERITIES_def FIXES_def)

lemma fold_count_table:
  "foldl count_match (map (\<lambda>b. (b, g b)) (List.product SEVERITIES FIXES)) ms =
     map (\<lambda>b. (b, g b + int (length (filter (\<lambda>m. bucket_of m = b) ms)))) (List.product SEVERITIES FIXES)"
proof (induction ms arbitrary: g)
  case (Cons m ms)
  have d: "distinct (List.product SEVERITIES FIXES)"
    by (intro distinct_product) (simp_all add: SEVERITIES_def FIXES_def)
  show ?case
    using Cons.IH[of "g(bucket_of m := g (bucket_of m) + 1)"]
    by (auto simp: count_match_def dict_get_table[OF bucket_listed] dict_set_table[OF d bucket_listed])
qed simp

lemma summarize_report:
  "summarize (report_json ms) =
     retE (map (\<lambda>b. (b, int (length (filter (\<lambda>m. bucket_of m = b) (firsts [] ms)))))
             (List.product SEVERITIES FIXES))"
  by (simp add: summarize_def report_json_def get_null_def get_key_def truthy_def as_list_def zero_counts_def
      fold_count_table fold_matches fold_matches[of _ "[]" "[]", simplified])

section \<open>Quoting for the remote shell\<close>

text \<open>
  How a POSIX shell splits a command line into words, as far as quoting needs it: blanks separate
  words, single and double quotes are taken off. Other characters that mean something to the shell are
  not accepted outside quotes, and neither is an expansion inside double quotes.
\<close>

datatype quoting = Bare | Single | Double

definition plain_in_double :: "char \<Rightarrow> bool" where
  "plain_in_double c = (\<not> List.member (''$`'' @ [CHR 0x5C]) c)"

fun sh_words :: "quoting \<Rightarrow> string option \<Rightarrow> string \<Rightarrow> string list option" where
  "sh_words Bare w [] = Some (case w of None \<Rightarrow> [] | Some x \<Rightarrow> [x])"
| "sh_words q w [] = None"
| "sh_words Single w (c # s) =
     (if c = SQ then sh_words Bare w s else sh_words Single (map_option (\<lambda>x. x @ [c]) w) s)"
| "sh_words Double w (c # s) =
     (if c = CHR 0x22 then sh_words Bare w s
      else if plain_in_double c then sh_words Double (map_option (\<lambda>x. x @ [c]) w) s
      else None)"
| "sh_words Bare w (c # s) =
     (let x = (case w of None \<Rightarrow> [] | Some x \<Rightarrow> x) in
      if c = SQ then sh_words Single (Some x) s
      else if c = CHR 0x22 then sh_words Double (Some x) s
      else if c = CHR '' '' then map_option ((@) (case w of None \<Rightarrow> [] | Some y \<Rightarrow> [y])) (sh_words Bare None s)
      else if shell_safe c then sh_words Bare (Some (x @ [c])) s
      else None)"

lemma shell_safe_plain: "shell_safe c \<Longrightarrow> c \<noteq> SQ \<and> c \<noteq> CHR 0x22 \<and> c \<noteq> CHR '' ''"
  by (auto simp: shell_safe_def is_word_def is_alpha_def is_digit_def SQ_def)

lemma sh_words_safe:
  "list_all shell_safe s \<Longrightarrow> sh_words Bare (Some x) (s @ rest) = sh_words Bare (Some (x @ s)) rest"
proof (induction s arbitrary: x)
  case (Cons c s)
  then show ?case using shell_safe_plain[of c] by (simp add: Let_def)
qed simp

lemma sh_words_single:
  "sh_words Single (Some x) (concat (map (\<lambda>c. if c = SQ then [SQ, CHR 0x22, SQ, CHR 0x22, SQ] else [c]) s) @ SQ # rest) =
     sh_words Bare (Some (x @ s)) rest"
proof (induction s arbitrary: x)
  case (Cons c s)
  have "SQ \<noteq> CHR 0x22" "plain_in_double SQ" by (simp_all add: SQ_def plain_in_double_def)
  then show ?case using Cons by (simp add: Let_def)
qed simp

lemma sh_words_quoted: "sh_words Bare None (shlex_quote s @ rest) = sh_words Bare (Some s) rest"
proof (cases "s \<noteq> [] \<and> list_all shell_safe s")
  case True
  then obtain c s' where s: "s = c # s'" by (cases s) auto
  with True have "sh_words Bare None (s @ rest) = sh_words Bare (Some [c]) (s' @ rest)"
    using shell_safe_plain[of c] by (simp add: Let_def)
  then show ?thesis using True sh_words_safe[of s' "[c]" rest] by (simp add: shlex_quote_def s)
next
  case False
  then show ?thesis
    using sh_words_single[of "[]" s rest] by (auto simp: shlex_quote_def Let_def)
qed

lemma sh_words_join: "sh_words Bare None (join '' '' (map shlex_quote argv)) = Some argv"
proof (induction argv rule: induct_list012)
  case (2 a)
  then show ?case using sh_words_quoted[of a "[]"] by simp
next
  case (3 a b argv)
  have "CHR '' '' \<noteq> SQ" by (simp add: SQ_def)
  then show ?case using 3 sh_words_quoted[of a "CHR '' '' # join '' '' (map shlex_quote (b # argv))"]
    by (simp add: Let_def)
qed simp

section \<open>Reading reports and inventories has no effect\<close>

lemmas pure_rules = still.keeps_rules still.keeps_json

lemma still_sub: "keeps (=) (sub_object k j)" "keeps (=) (get_null k j)" "keeps (=) (get_or k j d)"
  unfolding sub_object_def get_null_def get_or_def by (intro pure_rules)+

lemma still_summarize: "keeps (=) (summarize report)"
proof -
  have s: "keeps (=) (severity_of v)" for v
    unfolding severity_of_def Let_def by (auto intro!: pure_rules still_sub split: json.split)
  have a: "keeps (=) (add_match acc mt)" for acc mt
    unfolding add_match_def match_id_def fix_of_def by (intro pure_rules still_sub s)
  show ?thesis
    unfolding summarize_def by (auto intro!: pure_rules still_sub a)
qed

lemma still_load: "keeps (=) (load T x)"
  unfolding load_def by (auto intro!: pure_rules split: option.split)

lemma still_parse_previous: "keeps (=) (parse_previous body)"
  unfolding parse_previous_def by (intro pure_rules)

lemma still_inventory: "keeps (=) (parse_image_inventory ld body)"
proof -
  have l: "keeps (=) (load_list ld x)" for x
    unfolding load_list_def by (auto intro!: pure_rules split: option.split)
  show ?thesis
    unfolding parse_image_inventory_def image_of_fields_def Let_def by (intro pure_rules l)
qed

lemma still_stream: "keeps (=) (derivation_stream rd out inp)"
proof (induction rd out inp rule: derivation_stream.induct)
  case (1 rd out inp)
  have i: "keeps (=) (drv_items j)" for j
    unfolding drv_items_def by (auto intro!: pure_rules split: json.split)
  show ?case
    by (subst derivation_stream.simps) (auto simp: Let_def intro!: pure_rules i 1 split: option.split)
qed

lemma still_name_version: "keeps (=) (name_version ld drv)"
proof -
  have a: "keeps (=) (is_in x j)" for x j
    unfolding is_in_def by (auto intro!: pure_rules split: json.split)
  have b: "keeps (=) (structured_attrs ld env)" for env
    unfolding structured_attrs_def by (auto intro!: pure_rules a split: option.split json.split)
  have c: "keeps (=) (partition_head x y)" for x y
    unfolding partition_head_def by (intro pure_rules)
  show ?thesis
    unfolding name_version_def by (auto intro!: pure_rules still_sub b c split: json.split)
qed

lemma still_nixos_sbom: "keeps (=) (nixos_sbom ld sys ds cd)"
  unfolding nixos_sbom_def components_def
  by (auto intro!: pure_rules still_name_version split: prod.split)

section \<open>What a host is asked to do\<close>

text \<open>The commands of a scan: a read-only script on the target, or grype and syft on the control node.\<close>

definition inventory_command :: "scanner \<Rightarrow> string \<Rightarrow> command \<Rightarrow> bool" where
  "inventory_command S target c \<longleftrightarrow> k_input c = None \<and>
     ((\<exists>script args. k_argv c = remote_argv (r S) target script args \<and>
         script \<in> {NIXOS_SYSTEM, NIXOS_DERIVATIONS, DOCKER_IMAGES, DOCKER_SAVE, DEBIAN_INVENTORY}) \<or>
      (\<exists>path. k_argv c = [grype (r S), ''sbom:'' @ path, ''-q'', ''-o'', ''json'']) \<or>
      (\<exists>src. k_argv c = [syft (r S), ''-q'', src, ''-o'', ''cyclonedx-json'']))"

definition commands_only :: "(command \<Rightarrow> bool) \<Rightarrow> 'w cst \<Rightarrow> 'w cst \<Rightarrow> bool" where
  "commands_only A s t \<longleftrightarrow> (\<exists>cs. commands t = commands s @ cs \<and> list_all (\<lambda>e. A (fst e)) cs)"

interpretation issued: frame "commands_only A" for A
proof
  show "commands_only A s s" for s :: "'a cst" by (auto simp: commands_only_def)
  show "commands_only A s u" if "commands_only A s t" "commands_only A t u" for s t u :: "'a cst"
    using that by (force simp: commands_only_def)
qed

lemma issued_ask: "keeps (commands_only A) (ask f)"
  by (auto simp: keeps_def ask_def commands_only_def split: prod.split)

lemma issued_local: "A \<lparr>k_argv = argv, k_input = inp\<rparr> \<Longrightarrow> keeps (commands_only A) (local T argv inp)"
  by (auto simp: keeps_def local_def Let_def commands_only_def split: prod.split)

lemma issued_files:
  "keeps (commands_only A) (exists_file path)" "keeps (commands_only A) (read_text path)"
  "keeps (commands_only A) (atomic_write T path body)"
proof -
  have m: "keeps (commands_only A) (modE (\<lambda>s. s\<lparr>files := f s\<rparr>))" for f
    by (simp add: keeps_def modE_def commands_only_def)
  show "keeps (commands_only A) (exists_file path)" "keeps (commands_only A) (read_text path)"
    "keeps (commands_only A) (atomic_write T path body)"
    unfolding exists_file_def read_text_def atomic_write_def write_text_def replace_file_def
    by (auto intro!: issued.keeps_rules m split: option.split prod.split)
qed

lemmas issued_rules = issued.keeps_rules issued_ask issued_files
  still_summarize[THEN issued.keeps_still] still_load[THEN issued.keeps_still]
  still_inventory[THEN issued.keeps_still] still_stream[THEN issued.keeps_still]
  still_nixos_sbom[THEN issued.keeps_still]

lemma scan_host_inventory: "keeps (commands_only (inventory_command S target)) (scan_host T S prev target kind)"
proof -
  let ?K = "\<lambda>m. keeps (commands_only (inventory_command S target)) m"
  have rem: "?K (remote T (r S) target script args None)"
    if "script \<in> {NIXOS_SYSTEM, NIXOS_DERIVATIONS, DOCKER_IMAGES, DOCKER_SAVE, DEBIAN_INVENTORY}" for script args
    unfolding remote_def by (rule issued_local) (use that in \<open>auto simp: inventory_command_def\<close>)
  have gr: "?K (local T [grype (r S), ''sbom:'' @ path, ''-q'', ''-o'', ''json''] None)" for path
    by (rule issued_local) (auto simp: inventory_command_def)
  have sy: "?K (local T [syft (r S), ''-q'', src, ''-o'', ''cyclonedx-json''] None)" for src
    by (rule issued_local) (auto simp: inventory_command_def)
  have tf: "?K (remote_to_file T (r S) target DOCKER_SAVE args)" for args
    using rem[of DOCKER_SAVE args] unfolding remote_to_file_def remote_def by (intro issued_rules) simp
  have sv: "?K (saved_sbom T S target path i sz)" for path i sz
    unfolding saved_sbom_def by (auto intro!: issued_rules tf sy split: option.split)
  have im: "?K (image_sbom T S target i d sz)" for i d sz
    unfolding image_sbom_def registry_sbom_def Let_def
    by (auto intro!: issued_rules sv sy split: option.split)
  have ss: "?K (system_sbom T S target)"
    unfolding system_sbom_def parse_derivation_stream_def Let_def by (intro issued_rules rem) auto
  have de: "?K (debian_sbom T S target)"
    unfolding debian_sbom_def Let_def by (auto intro!: issued_rules rem sy split: prod.split)
  have li: "?K (listed T S prev target k)" for k
    unfolding listed_def images_def by (intro issued_rules rem) auto
  have rc: "?K (record_target T S prev tgt img fn)" if "?K fn" for tgt img fn
    unfolding record_target_def scan_def now_def by (intro issued_rules gr that)
  show ?thesis
    unfolding scan_host_def by (auto intro!: issued_rules rc ss de im li split: prod.split)
qed

section \<open>What a host's results are\<close>

text \<open>Reading a document is a function of the document: the state plays no part in it.\<close>

definition pure_read :: "('s, 'a) eff \<Rightarrow> bool" where
  "pure_read m \<longleftrightarrow> (\<exists>x. m = retE x) \<or> (\<exists>e. m = raiseE e) \<or> m = haltE"

lemma pure_ret: "pure_read (retE x)" "pure_read (raiseE e)"
  by (auto simp: pure_read_def)

lemma pure_bind:
  assumes "pure_read m" and "\<And>x. pure_read (f x)"
  shows "pure_read (bindE m f)"
proof -
  have "bindE haltE f = haltE" by (simp add: bindE_def haltE_def fun_eq_iff)
  then show ?thesis using assms unfolding pure_read_def by (metis bind_retE bindE_raiseE)
qed

lemma pure_if: "(c \<Longrightarrow> pure_read m) \<Longrightarrow> (\<not> c \<Longrightarrow> pure_read n) \<Longrightarrow> pure_read (if c then m else n)"
  by simp

lemma pure_lift: "pure_read (liftE x)"
  by (cases x) (auto simp: pure_read_def liftE_def retE_def raiseE_def haltE_def fun_eq_iff)

lemma pure_foldE: "(\<And>a x. pure_read (f a x)) \<Longrightarrow> pure_read (foldE f a xs)"
  by (induction xs arbitrary: a) (auto intro: pure_ret pure_bind)

lemma pure_mapE: "(\<And>x. pure_read (f x)) \<Longrightarrow> pure_read (mapE f xs)"
  by (induction xs) (auto intro!: pure_ret pure_bind)

lemma pure_json:
  "pure_read (get_key k j)" "pure_read (as_str j)" "pure_read (as_list j)" "pure_read (get_null k j)" "pure_read (sub_object k j)"
  by (auto simp: json_reads get_null_def sub_object_def split: json.split option.split intro!: pure_ret pure_bind)

lemma pure_Ok:
  assumes "pure_read m" and "m s = (Ok x, t)"
  shows "m = retE x"
  using assms by (auto simp: pure_read_def haltE_def)

lemmas pure_rules' = pure_ret pure_bind pure_if pure_lift pure_foldE pure_mapE pure_json

lemma pure_summarize: "pure_read (summarize report)"
proof -
  have s: "pure_read (severity_of v)" for v
    unfolding severity_of_def Let_def by (auto intro!: pure_rules' split: json.split)
  have a: "pure_read (add_match acc mt)" for acc mt
    unfolding add_match_def match_id_def fix_of_def by (intro pure_rules' s)
  show ?thesis
    unfolding summarize_def by (auto intro!: pure_rules' a)
qed

lemma pure_inventory: "pure_read (parse_image_inventory ld body)"
proof -
  have l: "pure_read (load_list ld x)" for x
    unfolding load_list_def by (auto intro!: pure_rules' split: option.split)
  show ?thesis
    unfolding parse_image_inventory_def image_of_fields_def Let_def by (intro pure_rules' l)
qed

lemma pure_parse_previous: "pure_read (parse_previous body)"
  unfolding parse_previous_def by (intro pure_rules')

text \<open>
  What the commands of one run were and what they returned: \<open>X\<close> below is the set of them. A target was
  measured when grype, given its SBOM, answered with a report in this run; the counts are the summary of
  that answer, and the time is what the clock showed after it.
\<close>

type_synonym exchange = "command \<times> string res"

definition remote_command :: "scanner \<Rightarrow> string \<Rightarrow> string \<Rightarrow> string list \<Rightarrow> string option \<Rightarrow> command" where
  "remote_command S target script args inp = \<lparr>k_argv = remote_argv (r S) target script args, k_input = inp\<rparr>"

definition grype_command :: "scanner \<Rightarrow> string \<Rightarrow> command" where
  "grype_command S path = \<lparr>k_argv = [grype (r S), ''sbom:'' @ path, ''-q'', ''-o'', ''json''], k_input = None\<rparr>"

definition measured :: "'w tools \<Rightarrow> scanner \<Rightarrow> exchange set \<Rightarrow> string \<Rightarrow> counts \<Rightarrow> rat \<Rightarrow> bool" where
  "measured T S X path c t \<longleftrightarrow>
     (\<exists>out report w w'. (grype_command S path, Ok out) \<in> X \<and> loads T out = Some report \<and>
        summarize report = (retE c :: ('w cst, counts) eff) \<and>
        run T (grype_command S path) w = (Ok out, w') \<and> t = fst (time T w'))"

text \<open>The SBOM of the system and of an image: named after what the target answered in this run.\<close>

definition system_path :: "'w tools \<Rightarrow> scanner \<Rightarrow> string \<Rightarrow> string \<Rightarrow> exchange set \<Rightarrow> string \<Rightarrow> bool" where
  "system_path T S target kind X path \<longleftrightarrow>
     (if kind = ''nixos''
      then \<exists>out. (remote_command S target NIXOS_SYSTEM [] None, Ok out) \<in> X \<and> path = cached T S (''nixos:'' @ strip out)
      else \<exists>out. (remote_command S target DEBIAN_INVENTORY [] None, Ok out) \<in> X \<and> path = cached T S (''debian:'' @ sha256 T out))"

definition image_path :: "'w tools \<Rightarrow> scanner \<Rightarrow> image \<Rightarrow> exchange set \<Rightarrow> string \<Rightarrow> bool" where
  "image_path T S im X path \<longleftrightarrow> path = cached T S (''image:'' @ im_id im)"

text \<open>
  A result marked \<open>ok\<close> was measured at an SBOM of the target; any other one has the counts and the time that
  last night's file gave for the same target and image, or none of both.
\<close>

definition reported :: "'w tools \<Rightarrow> scanner \<Rightarrow> previous \<Rightarrow> (exchange set \<Rightarrow> string \<Rightarrow> bool) \<Rightarrow> exchange set \<Rightarrow> result \<Rightarrow> bool" where
  "reported T S prev sbom X res \<longleftrightarrow>
     (if r_ok res
      then \<exists>path c t. sbom X path \<and> measured T S X path c t \<and> r_counts res = Some c \<and> r_at res = Some t
      else (r_counts res, r_at res) =
         (case dict_get prev (result_key res) of None \<Rightarrow> (None, None) | Some (c, t) \<Rightarrow> (Some c, t)))"

text \<open>
  The images to report on: those of the inventory the target answered with, and none on a host that is not NixOS.
  When it was asked and gave no readable inventory, the images of last night's file stand in, each marked as failed.
\<close>

definition inventory :: "'w tools \<Rightarrow> scanner \<Rightarrow> string \<Rightarrow> string \<Rightarrow> exchange set \<Rightarrow> image list \<Rightarrow> bool" where
  "inventory T S target kind X ims \<longleftrightarrow>
     (if kind = ''nixos''
      then \<exists>out. (remote_command S target DOCKER_IMAGES [] None, Ok out) \<in> X \<and>
             parse_image_inventory (loads T) out = (retE ims :: ('w cst, image list) eff)
      else ims = [])"

definition unlisted :: "'w tools \<Rightarrow> scanner \<Rightarrow> string \<Rightarrow> string \<Rightarrow> exchange set \<Rightarrow> bool" where
  "unlisted T S target kind X \<longleftrightarrow> kind = ''nixos'' \<and>
     (\<exists>a. (remote_command S target DOCKER_IMAGES [] None, a) \<in> X \<and>
        (\<forall>out ims. a = Ok out \<longrightarrow> parse_image_inventory (loads T) out \<noteq> (retE ims :: ('w cst, image list) eff)))"

definition image_results :: "'w tools \<Rightarrow> scanner \<Rightarrow> string \<Rightarrow> string \<Rightarrow> previous \<Rightarrow> exchange set \<Rightarrow> result list \<Rightarrow> bool" where
  "image_results T S target kind prev X rs \<longleftrightarrow>
     (\<exists>ims. inventory T S target kind X ims \<and>
        list_all2 (\<lambda>im res. result_key res = (''image'', im_ref im) \<and> reported T S prev (image_path T S im) X res) ims rs) \<or>
     (unlisted T S target kind X \<and>
        map result_key rs = filter (\<lambda>k. fst k = ''image'') (dict_keys prev) \<and>
        list_all (\<lambda>res. \<not> r_ok res \<and> reported T S prev (\<lambda>_ _. False) X res) rs)"

definition host_results :: "'w tools \<Rightarrow> scanner \<Rightarrow> string \<Rightarrow> string \<Rightarrow> previous \<Rightarrow> exchange set \<Rightarrow> result list \<Rightarrow> bool" where
  "host_results T S target kind prev X results \<longleftrightarrow>
     (\<exists>sys rs. results = sys # rs \<and> result_key sys = (''system'', []) \<and>
        reported T S prev (system_path T S target kind) X sys \<and> image_results T S target kind prev X rs)"

lemma measured_mono: "measured T S X path c t \<Longrightarrow> X \<subseteq> Y \<Longrightarrow> measured T S Y path c t"
  unfolding measured_def by blast

lemma paths_mono:
  "X \<subseteq> Y \<Longrightarrow> system_path T S target kind X path \<Longrightarrow> system_path T S target kind Y path"
  "X \<subseteq> Y \<Longrightarrow> image_path T S im X path \<Longrightarrow> image_path T S im Y path"
  unfolding system_path_def image_path_def by (auto split: if_splits)

lemma reported_mono:
  assumes "reported T S prev sbom X res" and "X \<subseteq> Y" and "\<And>path. sbom X path \<Longrightarrow> sbom Y path"
  shows "reported T S prev sbom Y res"
proof (cases "r_ok res")
  case True
  then show ?thesis using assms measured_mono[OF _ assms(2)] by (simp add: reported_def) blast
qed (use assms(1) in \<open>simp add: reported_def\<close>)

lemma inventory_mono: "inventory T S target kind X ims \<Longrightarrow> X \<subseteq> Y \<Longrightarrow> inventory T S target kind Y ims"
  unfolding inventory_def by (auto split: if_splits)

lemma unlisted_mono: "unlisted T S target kind X \<Longrightarrow> X \<subseteq> Y \<Longrightarrow> unlisted T S target kind Y"
  unfolding unlisted_def by blast

lemma image_results_mono:
  assumes "image_results T S target kind prev X rs" and "X \<subseteq> Y"
  shows "image_results T S target kind prev Y rs"
proof -
  let ?P = "\<lambda>X im res. result_key res = (''image'', im_ref im) \<and> reported T S prev (image_path T S im) X res"
  let ?R = "\<lambda>X res. \<not> r_ok res \<and> reported T S prev (\<lambda>_ _. False) X res"
  from assms(1) consider (a) ims where "inventory T S target kind X ims" "list_all2 (?P X) ims rs"
    | (b) "unlisted T S target kind X" "map result_key rs = filter (\<lambda>k. fst k = ''image'') (dict_keys prev)" "list_all (?R X) rs"
    unfolding image_results_def by (elim disjE exE conjE)
  then show ?thesis
  proof cases
    case a
    have "list_all2 (?P Y) ims rs"
      using a(2) by (rule list_all2_mono) (use assms(2) in \<open>auto intro: reported_mono paths_mono(2)\<close>)
    then show ?thesis unfolding image_results_def
      by (intro disjI1 exI[of _ ims] conjI inventory_mono[OF a(1) assms(2)])
  next
    case b
    have "list_all (?R Y) rs"
      using b(3) by (rule list.pred_mono_strong) (use assms(2) in \<open>auto intro: reported_mono\<close>)
    then show ?thesis unfolding image_results_def
      by (intro disjI2 conjI b(2) unlisted_mono[OF b(1) assms(2)])
  qed
qed

text \<open>A program's commands with their answers are appended, and its result is tied to them by \<open>Q\<close>.\<close>

definition told :: "('w cst, 'a) eff \<Rightarrow> (exchange set \<Rightarrow> 'a \<Rightarrow> bool) \<Rightarrow> bool" where
  "told m Q \<longleftrightarrow> (\<forall>s x t. m s = (Ok x, t) \<longrightarrow> (\<exists>cs. commands t = commands s @ cs \<and> Q (set cs) x))"

abbreviation any :: "'w cst \<Rightarrow> 'w cst \<Rightarrow> bool" where
  "any \<equiv> commands_only (\<lambda>_. True)"

lemma any_D: "keeps any m \<Longrightarrow> m s = (x, t) \<Longrightarrow> \<exists>cs. commands t = commands s @ cs"
  unfolding keeps_def commands_only_def by (metis snd_conv)

lemma toldD: "told m Q \<Longrightarrow> m s = (Ok x, t) \<Longrightarrow> \<exists>cs. commands t = commands s @ cs \<and> Q (set cs) x"
  unfolding told_def by blast

lemma told_ret: "(\<And>X. Q X x) \<Longrightarrow> told (retE x) Q"
  by (auto simp: told_def)

lemma told_keeps:
  assumes "keeps any m" and "yields m P"
  shows "told m (\<lambda>_. P)"
  unfolding told_def using any_D[OF assms(1)] yieldsD[OF assms(2)] by blast

lemma told_conseq: "told m P \<Longrightarrow> (\<And>X x. P X x \<Longrightarrow> Q X x) \<Longrightarrow> told m Q"
  unfolding told_def by blast

lemma told_bind:
  assumes "told m P" and "\<And>x. told (f x) (R x)"
    and "\<And>X Y x y. P X x \<Longrightarrow> R x Y y \<Longrightarrow> Q (X \<union> Y) y"
  shows "told (bindE m f) Q"
  unfolding told_def
proof (intro allI impI)
  fix s y u assume "bindE m f s = (Ok y, u)"
  then obtain x t where 1: "m s = (Ok x, t)" and 2: "f x t = (Ok y, u)" by (auto simp: bindE_Ok_iff)
  obtain cs ds where "commands t = commands s @ cs" "P (set cs) x" "commands u = commands t @ ds" "R x (set ds) y"
    using toldD[OF assms(1) 1] toldD[OF assms(2) 2] by blast
  then show "\<exists>cs. commands u = commands s @ cs \<and> Q (set cs) y"
    using assms(3) by (intro exI[of _ "cs @ ds"]) simp
qed

lemma told_bind_ret: "told m P \<Longrightarrow> (\<And>X x. P X x \<Longrightarrow> Q X (g x)) \<Longrightarrow> told (bindE m (\<lambda>x. retE (g x))) Q"
  unfolding told_def by (force simp: bindE_Ok_iff)

lemma told_mapE:
  assumes "\<And>x. told (f x) (\<lambda>X y. R x X y)" and "\<And>x X Y y. R x X y \<Longrightarrow> X \<subseteq> Y \<Longrightarrow> R x Y y"
  shows "told (mapE f xs) (\<lambda>X ys. list_all2 (\<lambda>x y. R x X y) xs ys)"
proof (induction xs)
  case (Cons x xs)
  have m: "list_all2 (\<lambda>x y. R x X y) xs ys \<Longrightarrow> X \<subseteq> Y \<Longrightarrow> list_all2 (\<lambda>x y. R x Y y) xs ys" for X Y ys
    by (erule list_all2_mono) (rule assms(2))
  show ?case unfolding mapE.simps
  proof (rule told_bind[OF assms(1)])
    show "told (bindE (mapE f xs) (\<lambda>ys. retE (y # ys))) (\<lambda>X zs. \<exists>ys. zs = y # ys \<and> list_all2 (\<lambda>x y. R x X y) xs ys)" for y
      by (rule told_bind_ret[OF Cons.IH]) simp
    show "list_all2 (\<lambda>x y. R x (X \<union> Y) y) (x # xs) zs"
      if "R x X y" "\<exists>ys. zs = y # ys \<and> list_all2 (\<lambda>x y. R x Y y) xs ys" for X Y y zs
      using that assms(2)[of x X y "X \<union> Y"] m[of Y _ "X \<union> Y"] by auto
  qed
qed (auto intro: told_ret)

lemma told_remote: "told (remote T (r S) target script args None) (\<lambda>X out. (remote_command S target script args None, Ok out) \<in> X)"
  by (auto simp: told_def remote_def local_def remote_command_def Let_def split: prod.splits)

lemma any_rules:
  "keeps any (local T argv inp)" "keeps any (remote T rn target script args inp)" "keeps any (remote_to_file T rn target script args)"
  unfolding remote_def remote_to_file_def by (auto intro!: issued_local issued.keeps_rules)

lemma any_sboms:
  "keeps any (system_sbom T S target)" "keeps any (debian_sbom T S target)" "keeps any (image_sbom T S target i d sz)"
proof -
  have sv: "keeps any (saved_sbom T S target path i sz)" for path i sz
    unfolding saved_sbom_def by (auto intro!: issued_rules any_rules split: option.split)
  show "keeps any (image_sbom T S target i d sz)"
    unfolding image_sbom_def registry_sbom_def Let_def by (auto intro!: issued_rules sv any_rules split: option.split)
  show "keeps any (system_sbom T S target)"
    unfolding system_sbom_def parse_derivation_stream_def Let_def by (intro issued_rules any_rules)
  show "keeps any (debian_sbom T S target)"
    unfolding debian_sbom_def Let_def by (auto intro!: issued_rules any_rules split: prod.split)
qed

lemma told_system:
  "told (if kind = ''nixos'' then system_sbom T S target else debian_sbom T S target) (system_path T S target kind)"
proof (cases "kind = ''nixos''")
  case True
  have "told (system_sbom T S target) (system_path T S target kind)"
    unfolding system_sbom_def Let_def
  proof (rule told_bind[OF told_remote told_keeps])
    show "system_path T S target kind (X \<union> Y) path"
      if "(remote_command S target NIXOS_SYSTEM [] None, Ok out) \<in> X" "path = cached T S (''nixos:'' @ strip out)" for X Y out path
      using that True by (auto simp: system_path_def)
  qed (auto intro!: issued_rules any_rules yields_intros yields_ret simp: parse_derivation_stream_def intro: yields_conseq)
  then show ?thesis using True by simp
next
  case False
  have "told (debian_sbom T S target) (system_path T S target kind)"
    unfolding debian_sbom_def Let_def
  proof (rule told_bind[OF told_remote told_keeps])
    show "system_path T S target kind (X \<union> Y) path"
      if "(remote_command S target DEBIAN_INVENTORY [] None, Ok out) \<in> X" "path = cached T S (''debian:'' @ sha256 T out)" for X Y out path
      using that False by (auto simp: system_path_def)
  qed (auto intro!: issued_rules any_rules yields_intros yields_ret split: prod.split)
  then show ?thesis using False by simp
qed

lemma told_image: "told (image_sbom T S target (im_id im) d sz) (image_path T S im)"
proof -
  have sv: "yields (saved_sbom T S target path i sz) (\<lambda>p. p = path)" for path i sz
    unfolding saved_sbom_def by (auto intro!: yields_intros yields_ret split: option.split)
  have "yields (image_sbom T S target (im_id im) d sz) (\<lambda>p. image_path T S im {} p)"
    unfolding image_sbom_def registry_sbom_def Let_def image_path_def
    by (auto intro!: yields_intros yields_ret sv split: option.split)
  from told_keeps[OF any_sboms(3) this] show ?thesis by (rule told_conseq) (simp add: image_path_def)
qed

lemma told_measure:
  "told (bindE (scan T S path) (\<lambda>counts. bindE (now T) (\<lambda>t. retE (g counts t))))
     (\<lambda>X res. \<exists>c t. measured T S X path c t \<and> res = g c t)"
  unfolding told_def
proof (intro allI impI)
  fix s res v assume "bindE (scan T S path) (\<lambda>counts. bindE (now T) (\<lambda>t. retE (g counts t))) s = (Ok res, v)"
  then obtain out s1 report s2 c s3 t where
    1: "local T [grype (r S), ''sbom:'' @ path, ''-q'', ''-o'', ''json''] None s = (Ok out, s1)" and
    2: "load T out s1 = (Ok report, s2)" and 3: "summarize report s2 = (Ok c, s3)" and
    4: "now T s3 = (Ok t, v)" and res: "res = g c t"
    by (auto simp: scan_def bindE_Ok_iff)
  have "s1 = s2" "s2 = s3" using keepsD[OF still_load 2] keepsD[OF still_summarize 3] .
  have ld: "loads T out = Some report" using 2 by (auto simp: load_def split: option.splits)
  have run: "run T (grype_command S path) (cworld s) = (Ok out, cworld s1)"
    and cs: "commands s1 = commands s @ [(grype_command S path, Ok out)]"
    using 1 by (auto simp: local_def grype_command_def Let_def split: prod.splits)
  have "commands v = commands s3" "t = fst (time T (cworld s3))"
    using 4 by (auto simp: now_def ask_def split: prod.splits)
  moreover have "summarize report = (retE c :: ('a cst, counts) eff)" using pure_Ok[OF pure_summarize 3] .
  ultimately show "\<exists>cs. commands v = commands s @ cs \<and> (\<exists>c t. measured T S (set cs) path c t \<and> res = g c t)"
    using ld run cs res \<open>s1 = s2\<close> \<open>s2 = s3\<close>
    by (intro exI[of _ "[(grype_command S path, Ok out)]"] conjI) (auto simp: measured_def)
qed

lemma reported_failed:
  "result_key (failed prev tgt img) = (tgt, img)" "\<not> r_ok (failed prev tgt img)"
  "reported T S prev sbom X (failed prev tgt img)"
  by (auto simp: failed_def reported_def result_key_def simp del: dict_get_eq_None split: option.split)

lemma told_catch_ret:
  assumes "told m Q" and "keeps any m" and "\<And>X. Q X z"
  shows "told (catchE m A (\<lambda>_. retE z)) Q"
  unfolding told_def
proof (intro allI impI)
  fix s y t assume c: "catchE m A (\<lambda>_. retE z) s = (Ok y, t)"
  obtain x u where x: "m s = (x, u)" by (cases "m s")
  show "\<exists>cs. commands t = commands s @ cs \<and> Q (set cs) y"
  proof (cases x)
    case (Ok y')
    then show ?thesis using toldD[OF assms(1)] x c by (auto simp: catchE_def)
  next
    case (Exc e)
    then have "y = z" "t = u" using x c by (auto simp: catchE_def split: if_splits)
    then show ?thesis using any_D[OF assms(2) x] assms(3) by blast
  qed (use x c in \<open>auto simp: catchE_def\<close>)
qed

lemma told_record:
  assumes "told fn sbom" and "keeps any fn" and "\<And>X Y path. X \<subseteq> Y \<Longrightarrow> sbom X path \<Longrightarrow> sbom Y path"
  shows "told (record_target T S prev tgt img fn) (\<lambda>X res. result_key res = (tgt, img) \<and> reported T S prev sbom X res)"
proof -
  let ?m = "bindE fn (\<lambda>path. bindE (scan T S path) (\<lambda>counts. bindE (now T) (\<lambda>t.
          retE \<lparr>r_target = tgt, r_image = img, r_ok = True, r_counts = Some counts, r_at = Some t\<rparr>)))"
  let ?Q = "\<lambda>X res. result_key res = (tgt, img) \<and> reported T S prev sbom X res"
  have m: "told ?m ?Q"
  proof (rule told_bind[OF assms(1) told_measure])
    show "?Q (X \<union> Y) res" if "sbom X path" "\<exists>c t. measured T S Y path c t \<and>
        res = \<lparr>r_target = tgt, r_image = img, r_ok = True, r_counts = Some c, r_at = Some t\<rparr>" for X Y path res
      using that assms(3)[of X "X \<union> Y" path] measured_mono[of T S Y path _ _ "X \<union> Y"]
      by (auto simp: reported_def result_key_def)
  qed
  have k: "keeps any ?m" unfolding scan_def now_def by (intro issued_rules any_rules assms(2))
  show ?thesis unfolding record_target_def by (rule told_catch_ret[OF m k]) (simp add: reported_failed)
qed

lemma told_listed:
  "told (listed T S prev target kind) (\<lambda>X (old, ims).
     old = [] \<and> inventory T S target kind X ims \<or>
     ims = [] \<and> unlisted T S target kind X \<and>
       old = map (\<lambda>k. failed prev (fst k) (snd k)) (filter (\<lambda>k. fst k = ''image'') (dict_keys prev)))"
proof (cases "kind = ''nixos''")
  case True
  let ?c = "remote_command S target DOCKER_IMAGES [] None"
  let ?old = "map (\<lambda>k. failed prev (fst k) (snd k)) (filter (\<lambda>k. fst k = ''image'') (dict_keys prev))"
  show ?thesis unfolding told_def listed_def True
  proof (simp, intro allI impI)
    fix s old ims t
    assume c: "catchE (bindE (images T S target) (\<lambda>ims. retE ([], ims))) is_Exception (\<lambda>_. retE (?old, [])) s = (Ok (old, ims), t)"
    obtain a w where a: "run T ?c (cworld s) = (a, w)" by (cases "run T ?c (cworld s)")
    let ?u = "s\<lparr>cworld := w, commands := commands s @ [(?c, a)]\<rparr>"
    have i: "images T S target s = (case a of Ok out \<Rightarrow> parse_image_inventory (loads T) out ?u | Exc e \<Rightarrow> (Exc e, ?u) | Halt \<Rightarrow> (Halt, ?u))"
      using a by (simp add: images_def remote_def local_def remote_command_def bindE_def Let_def split: res.split)
    have "commands t = commands s @ [(?c, a)] \<and>
      (old = [] \<and> inventory T S target kind {(?c, a)} ims \<or> ims = [] \<and> unlisted T S target kind {(?c, a)} \<and> old = ?old)"
    proof (cases "\<exists>out ims. a = Ok out \<and> parse_image_inventory (loads T) out = (retE ims :: ('a cst, image list) eff)")
      case True
      then show ?thesis using c i \<open>kind = _\<close> by (auto simp: bindE_def catchE_def retE_def inventory_def)
    next
      case False
      have "parse_image_inventory (loads T) out ?u \<noteq> (Ok x, u)" if "a = Ok out" for out x u
      proof
        assume "parse_image_inventory (loads T) out ?u = (Ok x, u)"
        from pure_Ok[OF pure_inventory this] show False using False that by blast
      qed
      then have "\<forall>x u. images T S target s \<noteq> (Ok x, u)" using i by (auto split: res.splits)
      moreover have "snd (parse_image_inventory (loads T) out ?u) = ?u" for out
        using still_inventory[of "loads T" out, unfolded keeps_def, rule_format, of ?u] by (rule sym)
      then have "commands (snd (images T S target s)) = commands s @ [(?c, a)]"
        using i by (simp split: res.splits)
      ultimately show ?thesis using c False \<open>kind = _\<close>
        by (cases "images T S target s") (auto simp: bindE_def catchE_def retE_def unlisted_def split: res.splits if_splits)
    qed
    then show "\<exists>cs. commands t = commands s @ cs \<and>
      (old = [] \<and> inventory T S target ''nixos'' (set cs) ims \<or> ims = [] \<and> unlisted T S target ''nixos'' (set cs) \<and> old = ?old)"
      using True by (intro exI[of _ "[(?c, a)]"]) simp
  qed
next
  case False
  then show ?thesis unfolding listed_def by (simp add: catchE_def retE_def told_def inventory_def)
qed

lemma told_scan_host: "told (scan_host T S prev target kind) (host_results T S target kind prev)"
proof -
  let ?im = "\<lambda>im X res. result_key res = (''image'', im_ref im) \<and> reported T S prev (image_path T S im) X res"
  have sys: "told (record_target T S prev ''system'' [] (if kind = ''nixos'' then system_sbom T S target else debian_sbom T S target))
      (\<lambda>X res. result_key res = (''system'', []) \<and> reported T S prev (system_path T S target kind) X res)"
    by (rule told_record[OF told_system]) (auto intro: any_sboms paths_mono)
  have ims: "told (mapE (\<lambda>im. record_target T S prev ''image'' (im_ref im)
        (image_sbom T S target (im_id im) (im_digest im) (map_option int (im_size im)))) ims) (\<lambda>X rs. list_all2 (\<lambda>im res. ?im im X res) ims rs)" for ims
  proof (rule told_mapE)
    show "told (record_target T S prev ''image'' (im_ref im)
        (image_sbom T S target (im_id im) (im_digest im) (map_option int (im_size im)))) (?im im)" for im
      by (rule told_record[OF told_image any_sboms(3)]) (rule paths_mono)
    show "?im im Y res" if "?im im X res" "X \<subseteq> Y" for im X Y res
      using that paths_mono(2)[OF that(2)] by (blast intro: reported_mono)
  qed
  have rest: "told (bindE (listed T S prev target kind) (\<lambda>(old, ims).
     bindE (mapE (\<lambda>im. record_target T S prev ''image'' (im_ref im)
        (image_sbom T S target (im_id im) (im_digest im) (map_option int (im_size im)))) ims) (\<lambda>rs. retE (x # old @ rs))))
     (\<lambda>X rs. \<exists>rs'. rs = x # rs' \<and> image_results T S target kind prev X rs')" for x
  proof (rule told_bind[OF told_listed], simp only: case_prod_beta, rule told_bind_ret[OF ims])
    fix p :: "result list \<times> image list" and X rs assume "list_all2 (\<lambda>im res. ?im im X res) (snd p) rs"
    then show "\<exists>ims. list_all2 (\<lambda>im res. ?im im X res) (snd p) ims \<and> x # fst p @ rs = x # fst p @ ims" by blast
  next
    fix X Y rs and p :: "result list \<times> image list"
    assume l: "case p of (old, ims) \<Rightarrow> old = [] \<and> inventory T S target kind X ims \<or>
        ims = [] \<and> unlisted T S target kind X \<and>
        old = map (\<lambda>k. failed prev (fst k) (snd k)) (filter (\<lambda>k. fst k = ''image'') (dict_keys prev))"
      and r: "\<exists>ims. list_all2 (\<lambda>im res. ?im im Y res) (snd p) ims \<and> rs = x # fst p @ ims"
    then obtain rs' where rs': "rs = x # fst p @ rs'" "list_all2 (\<lambda>im res. ?im im Y res) (snd p) rs'" by blast
    have "image_results T S target kind prev (X \<union> Y) (fst p @ rs')"
    proof (cases "fst p = [] \<and> inventory T S target kind X (snd p)")
      case True
      then have "inventory T S target kind (X \<union> Y) (snd p)" using inventory_mono[of T S target kind X _ "X \<union> Y"] by blast
      moreover have "list_all2 (\<lambda>im res. ?im im (X \<union> Y) res) (snd p) rs'"
        using rs'(2) by (rule list_all2_mono) (auto intro: reported_mono paths_mono(2))
      ultimately show ?thesis using True by (auto simp: image_results_def)
    next
      case False
      with l have "snd p = []" "unlisted T S target kind X"
        "fst p = map (\<lambda>k. failed prev (fst k) (snd k)) (filter (\<lambda>k. fst k = ''image'') (dict_keys prev))" by auto
      moreover have "map (result_key \<circ> (\<lambda>k. failed prev (fst k) (snd k))) ks = ks" for ks
        by (simp add: reported_failed comp_def)
      ultimately show ?thesis using rs'(2) unlisted_mono[of T S target kind X "X \<union> Y"]
        by (simp add: image_results_def reported_failed list_all_iff)
    qed
    then show "\<exists>rs'. rs = x # rs' \<and> image_results T S target kind prev (X \<union> Y) rs'" using rs'(1) by blast
  qed
  show ?thesis unfolding scan_host_def
  proof (rule told_bind[OF sys rest])
    show "host_results T S target kind prev (X \<union> Y) results"
      if "result_key x = (''system'', []) \<and> reported T S prev (system_path T S target kind) X x"
        "\<exists>rs. results = x # rs \<and> image_results T S target kind prev Y rs" for X Y x results
      using that reported_mono[of T S prev "system_path T S target kind" X x "X \<union> Y"] paths_mono(1)[of X "X \<union> Y"]
        image_results_mono[of T S target kind prev Y _ "X \<union> Y"]
      unfolding host_results_def by blast
  qed
qed

section \<open>One host\<close>

text \<open>The first and the last command of a host's scan: last night's file is read, tonight's is written.\<close>

definition read_command :: "scanner \<Rightarrow> string \<Rightarrow> command" where
  "read_command S target =
     remote_command S target (''cat '' @ quoted (CHR 0x22) ''$1'' @ '' 2>/dev/null || true'') [path_join (textfile_dir S) PROM_NAME] None"

definition publish_command :: "scanner \<Rightarrow> string \<Rightarrow> string \<Rightarrow> command" where
  "publish_command S target body =
     remote_command S target (publish_script target) [path_join (textfile_dir S) PROM_NAME] (Some body)"

lemma local_runs:
  assumes "remote T (r S) target script args inp s = (a, t)"
  shows "commands t = commands s @ [(remote_command S target script args inp, a)]"
  using assms by (auto simp: remote_def local_def remote_command_def Let_def split: prod.splits)

lemma host_runs:
  fixes T :: "'w tools"
  assumes "host T S target kind publish_to s = (Ok (), t)"
  shows "\<exists>a prev cs results out.
    commands t = commands s @ [(read_command S publish_to, a)] @ cs @
      [(publish_command S publish_to (render_metrics results (db_built S)), Ok out)] \<and>
    parse_previous (case a of Ok body \<Rightarrow> body | _ \<Rightarrow> []) = (retE prev :: ('w cst, previous) eff) \<and>
    list_all (\<lambda>e. inventory_command S target (fst e)) cs \<and>
    host_results T S target kind prev (set cs) results"
proof -
  from assms obtain body u prev v results w where
    1: "read_published T S publish_to s = (Ok body, u)" and 2: "parse_previous body u = (Ok prev, v)" and
    3: "scan_host T S prev target kind v = (Ok results, w)" and
    4: "publish T S publish_to (render_metrics results (db_built S)) w = (Ok (), t)"
    unfolding host_def bindE_Ok_iff by blast
  have "v = u" using keepsD[OF still_parse_previous 2] by simp
  obtain a u' where a: "remote T (r S) publish_to (''cat '' @ quoted (CHR 0x22) ''$1'' @ '' 2>/dev/null || true'')
      [path_join (textfile_dir S) PROM_NAME] None s = (a, u')" by fastforce
  have ru: "commands u = commands s @ [(read_command S publish_to, a)]" "body = (case a of Ok body \<Rightarrow> body | _ \<Rightarrow> [])"
    using 1 local_runs[OF a] a by (auto simp: read_published_def catchE_def read_command_def split: res.splits if_splits)
  obtain cs where cs: "commands w = commands v @ cs" "host_results T S target kind prev (set cs) results"
    using toldD[OF told_scan_host 3] by blast
  have i: "list_all (\<lambda>e. inventory_command S target (fst e)) cs"
    using keepsD[OF scan_host_inventory 3] cs(1) by (auto simp: commands_only_def)
  obtain out where "commands t = commands w @ [(publish_command S publish_to (render_metrics results (db_built S)), Ok out)]"
    using 4 by (auto simp: publish_def bindE_Ok_iff publish_command_def dest: local_runs)
  then show ?thesis
    using ru cs i pure_Ok[OF pure_parse_previous 2] \<open>v = u\<close> by auto
qed

section \<open>Which exceptions a run lets out\<close>

text \<open>The commands and the temporary trees fail with ordinary exceptions, and a decoder reads something.\<close>

definition ordinary :: "'a res \<Rightarrow> bool" where
  "ordinary x = (case x of Ok _ \<Rightarrow> True | Exc e \<Rightarrow> is_Exception e | Halt \<Rightarrow> False)"

definition well_behaved :: "'w tools \<Rightarrow> bool" where
  "well_behaved T \<longleftrightarrow>
     (\<forall>c w. ordinary (fst (run T c w))) \<and> (\<forall>fs w. ordinary (fst (temp T fs w))) \<and>
     (\<forall>t j rest. raw_decode T t = Some (j, rest) \<longrightarrow> length rest < length t)"

abbreviation ends_well :: "('s, 'a) eff \<Rightarrow> bool" where
  "ends_well m \<equiv> ends is_Exception m"

lemma ends_ask: "(\<And>w. ordinary (fst (f w))) \<Longrightarrow> ends_well (ask f)"
  by (auto simp: ends_def ask_def ordinary_def split: prod.split res.splits) (metis fst_conv res.simps)+

lemma ends_local: "well_behaved T \<Longrightarrow> ends_well (local T argv inp)"
  by (auto simp: ends_def local_def well_behaved_def ordinary_def Let_def split: prod.split res.splits) (metis fst_conv res.simps)+

lemma ends_remote: "well_behaved T \<Longrightarrow> ends_well (remote T rn target script args inp)"
  unfolding remote_def by (rule ends_local)

lemma ends_exc_json:
  "ends_well (get_key k j)" "ends_well (field k j)" "ends_well (as_str j)" "ends_well (as_int j)" "ends_well (as_list j)"
  by (intro ends_json; simp)+

lemma ends_sub: "ends_well (sub_object k j)" "ends_well (get_null k j)" "ends_well (get_or k j d)"
  unfolding sub_object_def get_null_def get_or_def by (intro ends_intros ends_exc_json)+

lemma ends_summarize: "ends_well (summarize report)"
proof -
  have s: "ends_well (severity_of v)" for v
    unfolding severity_of_def Let_def by (auto intro!: ends_intros ends_sub split: json.split)
  have a: "ends_well (add_match acc mt)" for acc mt
    unfolding add_match_def match_id_def fix_of_def by (intro ends_intros ends_sub s) simp
  show ?thesis
    unfolding summarize_def by (auto intro!: ends_intros ends_sub ends_exc_json a)
qed

lemma ends_load: "ends_well (load T x)"
  unfolding load_def by (auto intro!: ends_intros split: option.split)

lemma ends_lift: "ordinary x \<Longrightarrow> ends_well (liftE x)"
  by (auto simp: ends_def liftE_def ordinary_def split: res.splits)

lemma ends_parse_previous: "ends_well (parse_previous body)"
  unfolding parse_previous_def
  by (intro ends_intros ends_lift) (auto simp: ordinary_def add_line_def Let_def split: option.split prod.split)

lemma ends_inventory: "ends_well (parse_image_inventory ld body)"
proof -
  have l: "ends_well (load_list ld x)" for x
    unfolding load_list_def by (auto intro!: ends_intros ends_exc_json split: option.split)
  show ?thesis
    unfolding parse_image_inventory_def image_of_fields_def Let_def by (intro ends_intros l)
qed

lemma ends_stream:
  assumes "\<And>t j rest. rd t = Some (j, rest) \<Longrightarrow> length rest < length t"
  shows "ends_well (derivation_stream rd out inp)"
  using assms
proof (induction rd out inp rule: derivation_stream.induct)
  case (1 rd out inp)
  have i: "ends_well (drv_items j)" for j
    unfolding drv_items_def by (auto intro!: ends_intros split: json.split)
  show ?case
    using 1(2) by (subst derivation_stream.simps) (auto simp: Let_def not_le[symmetric] intro!: ends_intros i 1(1) split: option.split)
qed

lemma ends_name_version: "ends_well (name_version ld drv)"
proof -
  have a: "ends_well (is_in x j)" for x j
    unfolding is_in_def by (auto intro!: ends_intros split: json.split)
  have b: "ends_well (structured_attrs ld env)" for env
    unfolding structured_attrs_def by (auto intro!: ends_intros ends_exc_json a split: option.split json.split)
  have c: "ends_well (partition_head x y)" for x y
    unfolding partition_head_def by (intro ends_intros) simp
  show ?thesis
    unfolding name_version_def by (auto intro!: ends_intros ends_sub b c split: json.split)
qed

lemma ends_nixos_sbom: "ends_well (nixos_sbom ld sys ds cd)"
  unfolding nixos_sbom_def components_def
  by (auto intro!: ends_intros ends_name_version split: prod.split)

lemma ends_files: "ends_well (exists_file path)" "ends_well (read_text path)" "ends_well (atomic_write T path body)"
  unfolding exists_file_def read_text_def atomic_write_def write_text_def replace_file_def
  by (auto intro!: ends_intros split: option.split prod.split)

lemma ends_scan_host:
  assumes "well_behaved T"
  shows "ends_well (scan_host T S prev target kind)"
proof -
  have n: "ends_well (now T)" unfolding now_def by (rule ends_ask) (simp add: ordinary_def split: prod.split)
  have t: "ends_well (ask (temp T fs))" for fs using assms by (intro ends_ask) (simp add: well_behaved_def)
  have tf: "ends_well (remote_to_file T (r S) target script args)" for script args
    unfolding remote_to_file_def by (intro ends_intros ends_local assms)
  have c: "ends_well (catchE m is_Exception (\<lambda>_. retE x))" if "ends_well m" for m :: "('a cst, 'x) eff" and x
    by (rule ends_catch[OF that]) (auto intro: ends_intros)
  have sv: "ends_well (saved_sbom T S target path i sz)" for path i sz
    unfolding saved_sbom_def by (auto intro!: ends_intros t tf ends_local assms ends_files split: option.split)
  have im: "ends_well (image_sbom T S target i d sz)" for i d sz
    unfolding image_sbom_def registry_sbom_def Let_def
    by (auto intro!: ends_intros sv ends_local assms ends_files ends_catch[where Q = is_Exception] split: option.split)
  have st: "ends_well (parse_derivation_stream (raw_decode T) x)" for x
    unfolding parse_derivation_stream_def by (rule ends_stream) (use assms in \<open>auto simp: well_behaved_def\<close>)
  have ss: "ends_well (system_sbom T S target)"
    unfolding system_sbom_def Let_def by (intro ends_intros ends_remote assms st ends_nixos_sbom ends_files) auto
  have de: "ends_well (debian_sbom T S target)"
    unfolding debian_sbom_def Let_def by (auto intro!: ends_intros ends_remote ends_local assms t ends_files split: prod.split)
  have li: "ends_well (listed T S prev target k)" for k
    unfolding listed_def images_def by (intro c ends_intros ends_remote assms ends_inventory)
  have rc: "ends_well (record_target T S prev tgt img fn)" if "ends_well fn" for tgt img fn
    unfolding record_target_def scan_def by (intro c ends_intros ends_local assms ends_load ends_summarize n that)
  show ?thesis
    unfolding scan_host_def by (auto intro!: ends_intros rc ss de im li split: prod.split)
qed

lemma ends_host: "well_behaved T \<Longrightarrow> ends_well (host T S target kind publish_to)"
  unfolding host_def read_published_def publish_def
  by (intro ends_intros ends_parse_previous ends_scan_host ends_remote ends_catch[where Q = is_Exception]) auto

text \<open>A host's entry in the configuration has a name.\<close>

definition named :: "json \<Rightarrow> bool" where
  "named h = (case h of JObj d \<Rightarrow> dict_get d ''name'' \<noteq> None | _ \<Rightarrow> False)"

lemma ends_scan_one:
  assumes "well_behaved T" and "named h"
  shows "ends (\<lambda>_. False) (scan_one T S h)"
proof -
  have f: "ends (\<lambda>_. False) (bindE (field ''name'' h) (\<lambda>_. retE ()))"
    using assms(2) by (auto simp: named_def field_def split: json.splits option.splits intro!: ends_intros simp del: dict_get_eq_None)
  have "ends_well (bindE (field ''name'' h) (\<lambda>_. bindE (str_field ''target'' h) (\<lambda>target.
        bindE (kind_of h) (\<lambda>kind. bindE (str_get ''publish'' h target) (\<lambda>publish_to.
          host T S target kind publish_to)))))"
    unfolding str_field_def kind_of_def str_get_def
    by (auto intro!: ends_intros ends_exc_json ends_host assms(1) split: option.split)
  then show ?thesis unfolding scan_one_def by (rule ends_catch) (use f in auto)
qed

end
