(* ===== verification/Cve_Claims.thy ===== *)
theory Cve_Claims
  imports Cve_Scan_Correct
begin

text \<open>
  The properties of the nightly CVE scan, with the inputs at which each is applied: hosts on which
  every command answers with an empty text, or runs into its time limit.
\<close>

definition quiet_tools :: "unit tools" where
  "quiet_tools = \<lparr>run = \<lambda>c w. (Ok [], w), urlopen = \<lambda>u w. (Ok [], w), time = \<lambda>w. (0, w),
     temp = \<lambda>fs w. (Ok ''/tmp/t'', w), makedirs = \<lambda>p w. (Ok (), w), write_fault = \<lambda>p w. None,
     replace_fault = \<lambda>p w. None,
     loads = \<lambda>s. if s = ''cfg'' then Some (JObj [(''ssh_key'', JStr ''k''), (''grype'', JStr ''g''), (''syft'', JStr ''y''),
         (''state_dir'', JStr ''/s''), (''textfile_dir'', JStr ''/t''),
         (''hosts'', JArr [JObj [(''name'', JStr ''h''), (''target'', JStr ''root@h'')], JObj [(''name'', JStr ''i'')]])])
       else Some (JObj []),
     raw_decode = \<lambda>s. None, dumps = \<lambda>j. [], csv_rows = \<lambda>s. [], sha256 = \<lambda>s. ''0'',
     timestamp = \<lambda>s. None\<rparr>"

definition quiet_scanner :: scanner where
  "quiet_scanner = \<lparr>r = \<lparr>ssh_key = ''k'', grype = ''g'', syft = ''y''\<rparr>, state = ''/s'', textfile_dir = ''/t'',
     save_max_bytes = SAVE_MAX_BYTES, sbom_dir = ''/s/sbom'', cpe_dict = [], db_built = None\<rparr>"

definition quiet_state :: "unit cst" where
  "quiet_state = \<lparr>cworld = (), files = [''c'' \<mapsto> ''cfg''], commands = []\<rparr>"

lemma sbom_path: "path_join ''/s'' ''sbom'' = ''/s/sbom''"
  by code_simp

text \<open>
  C15. A night's file is read back as it was written: for every target of the results (with distinct
  names, and no quotes or line breaks in the labels) the counts of each severity and fix and the
  time of its last scan in whole seconds, and nothing for any other target.
\<close>

theorem metrics_round_trip:
  assumes "list_all clean_result results" and "distinct (map result_key results)"
    and "pred_option (\<lambda>t. 0 \<le> t) built"
  shows "\<exists>prev. parse_previous (render_metrics results built) = (retE prev :: ('s, previous) eff) \<and>
    list_all (\<lambda>res. dict_get prev (result_key res) = remembered res) results \<and>
    (\<forall>k. k \<notin> result_key ` set results \<longrightarrow> dict_get prev k = None)"
  using assms by (rule parse_render)

definition sample_results :: "result list" where
  "sample_results =
     [\<lparr>r_target = ''system'', r_image = [], r_ok = True,
       r_counts = Some [((''high'', ''none''), 3), ((''high'', ''available''), 12)], r_at = Some (7 / 2)\<rparr>,
      \<lparr>r_target = ''image'', r_image = ''postgres:16'', r_ok = False, r_counts = None, r_at = None\<rparr>]"

lemma sample_results_clean: "list_all clean_result sample_results"
  by (simp add: sample_results_def clean_result_def clean_text_def is_break_def)

theorem metrics_round_trip_witness:
  "\<exists>prev. parse_previous (render_metrics sample_results (Some 9)) = (retE prev :: (nat, previous) eff) \<and>
    dict_get prev (''system'', []) =
      Some ([((''high'', ''available''), 12), ((''high'', ''none''), 3)], Some 3) \<and>
    dict_get prev (''image'', ''postgres:16'') = None"
proof -
  have "remembered (hd sample_results) = Some ([((''high'', ''available''), 12), ((''high'', ''none''), 3)], Some 3)"
    "remembered (last sample_results) = None"
    by (simp_all add: sample_results_def remembered_def kept_counts_def kept_time_def less_eq_prod_def floor_divide_of_int_eq[of 7 2, simplified])
  then show ?thesis
    using metrics_round_trip[where results = sample_results and built = "Some 9"] sample_results_clean
    by (auto simp: sample_results_def result_key_def simp del: dict_get_eq_None)
qed

text \<open>
  C14. When a host is done, these were its commands and answers: one that read last night's file, the scan's own (only
  the read-only inventory scripts on the target, and grype and syft on the control node), and one that wrote tonight's
  file. Tonight's file has one result for the system and then one for each image of the inventory the target answered
  with, or, when it gave no readable inventory, one for each image of last night's file. A result marked \<open>ok\<close> was
  measured in this run: grype, given the SBOM of that target, answered with a report whose summary are the counts. Any
  other result has the counts and the time that last night's file gives for that target and image, or none of both.
\<close>

theorem host_reads_then_publishes:
  fixes T :: "'w tools"
  assumes "host T S target kind publish_to s = (Ok (), t)"
  shows "\<exists>a prev cs results out.
    commands t = commands s @ [(read_command S publish_to, a)] @ cs @
      [(publish_command S publish_to (render_metrics results (db_built S)), Ok out)] \<and>
    parse_previous (case a of Ok body \<Rightarrow> body | _ \<Rightarrow> []) = (retE prev :: ('w cst, previous) eff) \<and>
    list_all (\<lambda>e. inventory_command S target (fst e)) cs \<and>
    host_results T S target kind prev (set cs) results"
  using assms by (rule host_runs)

theorem host_reads_then_publishes_witness:
  "\<exists>t a prev cs results out. host quiet_tools quiet_scanner ''root@h'' ''debian'' ''root@h'' quiet_state = (Ok (), t) \<and>
    commands t = [(read_command quiet_scanner ''root@h'', a)] @ cs @
      [(publish_command quiet_scanner ''root@h'' (render_metrics results None), Ok out)] \<and>
    host_results quiet_tools quiet_scanner ''root@h'' ''debian'' prev (set cs) results"
proof -
  let ?h = "host quiet_tools quiet_scanner ''root@h'' ''debian'' ''root@h'' quiet_state"
  have "fst ?h = Ok ()" by code_simp
  then have h: "?h = (Ok (), snd ?h)" by (metis prod.collapse)
  have e: "commands quiet_state = []" "db_built quiet_scanner = None" by (simp_all add: quiet_state_def quiet_scanner_def)
  show ?thesis
    using host_reads_then_publishes[OF h, unfolded e append_Nil] h by blast
qed

text \<open>
  Once the configuration is read and the database is prepared, the run returns 0 whatever any
  host does: every command may fail on every host.
\<close>

theorem main_returns_zero:
  assumes "well_behaved T" and "configure T config s = (Ok (cfg, S0), u)" and "prepare T S0 u = (Ok ready, v)"
    and "cfg = JObj d" and "dict_get d ''hosts'' = Some (JArr hosts)" and "list_all named hosts"
  shows "\<exists>t. main T config s = (Ok 0, t)"
proof (cases ready)
  case None
  then show ?thesis using assms(2,3) by (simp add: main_def bindE_def retE_def)
next
  case (Some S)
  have "ends (\<lambda>_. False) (forE hosts (scan_one T S))"
    using assms(1,6) by (intro ends_intros ends_scan_one) (auto simp: list_all_iff)
  then obtain x t where "forE hosts (scan_one T S) v = (Ok x, t)" using ends_Ok by metis
  then show ?thesis
    using assms(2-5) Some by (simp add: main_def bindE_def retE_def field_def as_list_def)
qed

theorem main_returns_zero_witness: "\<exists>t. main quiet_tools ''c'' quiet_state = (Ok 0, t)"
proof -
  have w: "well_behaved quiet_tools"
    by (simp add: well_behaved_def quiet_tools_def ordinary_def)
  have c: "configure quiet_tools ''c'' quiet_state =
      (Ok (the (loads quiet_tools ''cfg''), quiet_scanner\<lparr>db_built := None\<rparr>), quiet_state)"
    by (simp add: configure_def read_text_def load_def new_scanner_def Scanner_def str_field_def field_def as_str_def
        get_key_def ask_def quiet_tools_def quiet_scanner_def quiet_state_def sbom_path bindE_def getE_def
        retE_def Let_def)
  obtain ready v where p: "prepare quiet_tools (quiet_scanner\<lparr>db_built := None\<rparr>) quiet_state = (Ok ready, v)"
  proof -
    have "case fst (prepare quiet_tools (quiet_scanner\<lparr>db_built := None\<rparr>) quiet_state) of Ok _ \<Rightarrow> True | _ \<Rightarrow> False"
      by code_simp
    then show thesis
      using that by (cases "prepare quiet_tools (quiet_scanner\<lparr>db_built := None\<rparr>) quiet_state") (auto split: res.splits)
  qed
  show ?thesis
    using main_returns_zero[OF w c p] by (simp add: quiet_tools_def named_def del: dict_get_eq_None)
qed

text \<open>
  But a run exits with an error when reading the database's state runs into its time limit: the
  handler around it names failures of the command and of the JSON only.
\<close>

theorem slow_status_escapes:
  assumes "configure T config s = (Ok (cfg, S), u)"
    and "run T \<lparr>k_argv = [grype (r S), ''db'', ''update''], k_input = None\<rparr> (cworld u) = (Ok out, w)"
    and "run T \<lparr>k_argv = [grype (r S), ''db'', ''status'', ''-o'', ''json''], k_input = None\<rparr> w = (Exc TimeoutExpired, w')"
  shows "fst (main T config s) = Exc TimeoutExpired"
  using assms
  by (simp add: main_def prepare_def db_status_def local_def ask_def Let_def bindE_def catchE_def modE_def retE_def
      is_CalledProcessError_def)

definition slow_tools :: "unit tools" where
  "slow_tools = quiet_tools\<lparr>run := \<lambda>c w. (if List.member (k_argv c) ''status'' then Exc TimeoutExpired else Ok [], w)\<rparr>"

theorem slow_status_escapes_witness: "fst (main slow_tools ''c'' quiet_state) = Exc TimeoutExpired"
proof -
  have c: "configure slow_tools ''c'' quiet_state =
      (Ok (the (loads quiet_tools ''cfg''), quiet_scanner\<lparr>db_built := None\<rparr>), quiet_state)"
    by (simp add: configure_def read_text_def load_def new_scanner_def Scanner_def str_field_def field_def as_str_def
        get_key_def ask_def slow_tools_def quiet_tools_def quiet_scanner_def quiet_state_def sbom_path bindE_def getE_def
        retE_def Let_def)
  show ?thesis
    by (rule slow_status_escapes[OF c, where out = "[]" and w = "()" and w' = "()"])
      (simp_all add: slow_tools_def quiet_scanner_def)
qed

text \<open>
  C16. A summary counts every vulnerability of a package once, whatever the number of its matches: in
  the bucket of its first match, and every bucket is present.
\<close>

theorem summary_counts_once:
  "summarize (report_json ms) =
     (retE (map (\<lambda>b. (b, int (length (filter (\<lambda>m. bucket_of m = b) (firsts [] ms)))))
       (List.product SEVERITIES FIXES)) :: ('s, counts) eff) \<and>
   distinct (map ident (firsts [] ms)) \<and> ident ` set (firsts [] ms) = ident ` set ms"
  using summarize_report[of ms] firsts_distinct[of "[]" ms] firsts_set[of "[]" ms] by auto

text \<open>
  C17. The remote shell sees the words of a command as they were given: splitting the quoted command
  line gives the arguments back, whatever characters they hold.
\<close>

theorem remote_words_survive:
  "target \<noteq> ''local'' \<Longrightarrow>
     sh_words Bare None (last (remote_argv rn target script args)) = Some ([''sh'', ''-c'', script, ''sh''] @ args)"
  unfolding remote_argv_def Let_def using sh_words_join[of "[''sh'', ''-c'', script, ''sh''] @ args"] by simp

theorem remote_words_survive_witness:
  "sh_words Bare None (last (remote_argv \<lparr>ssh_key = ''k'', grype = ''g'', syft = ''y''\<rparr> ''root@h'' DOCKER_SAVE [''a b;'' @ [SQ]])) =
     Some [''sh'', ''-c'', DOCKER_SAVE, ''sh'', ''a b;'' @ [SQ]]"
  using remote_words_survive[where target = "''root@h''" and script = DOCKER_SAVE and args = "[''a b;'' @ [SQ]]"
      and rn = "\<lparr>ssh_key = ''k'', grype = ''g'', syft = ''y''\<rparr>"]
  by simp

end
