(* ===== verification/Shell.thy ===== *)
theory Shell
  imports Json
begin

text \<open>
  Programs that converge a system by running its command-line tools: the appliers of
  \<open>ansible/krg-ad\<close> and of \<open>ansible/synology\<close>. A tool is a parameter: a function from the arguments
  and the world to the exit code, the two outputs and the next world. The state keeps the commands
  that were run and the lines that were printed; an applier's own fields extend it.
\<close>

type_synonym proc = "int \<times> string \<times> string"

type_synonym 'w shell = "string list \<Rightarrow> 'w \<Rightarrow> proc res \<times> 'w"

record 'w sh =
  shw :: 'w
  ran :: "string list list"
  printed :: "string list"

definition exec :: "'w shell \<Rightarrow> string list \<Rightarrow> (('w, 'z) sh_scheme, proc) eff" where
  "exec P argv s =
     (case P argv (shw s) of (r, w) \<Rightarrow> (r, s\<lparr>shw := w, ran := ran s @ [argv]\<rparr>))"

definition say :: "string \<Rightarrow> (('w, 'z) sh_scheme, unit) eff" where
  "say line = modE (\<lambda>s. s\<lparr>printed := printed s @ [line]\<rparr>)"

text \<open>\<open>(err or out).strip()\<close>.\<close>

definition complaint :: "string \<Rightarrow> string \<Rightarrow> string" where
  "complaint err out = strip (if err \<noteq> [] then err else out)"

section \<open>Which commands a program runs\<close>

definition ran_only :: "(string list \<Rightarrow> bool) \<Rightarrow> ('w, 'z) sh_scheme \<Rightarrow> ('w, 'z) sh_scheme \<Rightarrow> bool" where
  "ran_only A s t \<longleftrightarrow> (\<exists>cs. ran t = ran s @ cs \<and> list_all A cs)"

interpretation runs: frame "ran_only A" for A
proof
  show "ran_only A s s" for s :: "('a, 'b) sh_scheme" by (auto simp: ran_only_def)
  show "ran_only A s u" if "ran_only A s t" "ran_only A t u" for s t u :: "('a, 'b) sh_scheme"
    using that by (force simp: ran_only_def)
qed

lemma runs_exec: "A argv \<Longrightarrow> keeps (ran_only A) (exec P argv)"
  by (auto simp: keeps_def exec_def ran_only_def split: prod.split)

lemma runs_say: "keeps (ran_only A) (say line)"
  by (simp add: keeps_def say_def modE_def ran_only_def)

lemma runs_mono: "keeps (ran_only A) m \<Longrightarrow> (\<And>c. A c \<Longrightarrow> B c) \<Longrightarrow> keeps (ran_only B) m"
  unfolding keeps_def ran_only_def by (metis (full_types) list.pred_mono_strong)

lemmas runs_rules = runs.keeps_rules runs.keeps_json runs.keeps_json_derived runs_exec runs_say

end
