(* ===== verification/Ad_Apply.thy ===== *)
theory Ad_Apply
  imports Shell
begin

text \<open>
  Model of \<open>ansible/krg-ad/roles/krg_ad/files/apply_krg_ad.py\<close>, which adds the groups, memberships,
  delegated rights and password settings of a plan to the directory by running samba-tool. The plan
  is a JSON document; a value of a type the code does not expect raises TypeError. samba-tool is the
  parameter \<open>P\<close>.
\<close>

section \<open>Tables\<close>

definition RIGHTS :: "(string \<times> string) list" where
  "RIGHTS = [(''reset-password'', ''00299570-246d-11d0-a768-00aa006e0529'')]"

definition INHERIT_FLAGS :: "(string \<times> string) list" where
  "INHERIT_FLAGS = [(''this-object'', ''''), (''child-users'', ''CI'')]"

datatype caster = CastInt | CastStr

record setting =
  s_label :: string
  s_flag :: string
  s_cast :: caster

definition PWD_SETTINGS :: "(string \<times> setting) list" where
  "PWD_SETTINGS =
     [(''min_pwd_length'', \<lparr>s_label = ''Minimum password length'', s_flag = ''--min-pwd-length'', s_cast = CastInt\<rparr>),
      (''max_pwd_age'', \<lparr>s_label = ''Maximum password age (days)'', s_flag = ''--max-pwd-age'', s_cast = CastInt\<rparr>),
      (''min_pwd_age'', \<lparr>s_label = ''Minimum password age (days)'', s_flag = ''--min-pwd-age'', s_cast = CastInt\<rparr>),
      (''history_length'', \<lparr>s_label = ''Password history length'', s_flag = ''--history-length'', s_cast = CastInt\<rparr>),
      (''complexity'', \<lparr>s_label = ''Password complexity'', s_flag = ''--complexity'', s_cast = CastStr\<rparr>)]"

section \<open>Pure helpers\<close>

datatype pval = PInt int | PStr string

definition str_pval :: "pval \<Rightarrow> string" where
  "str_pval v = (case v of PInt n \<Rightarrow> str_int n | PStr s \<Rightarrow> s)"

definition label_to_key :: "string \<Rightarrow> string option" where
  "label_to_key lbl = map_option fst (List.find (\<lambda>e. s_label (snd e) = lbl) PWD_SETTINGS)"

definition add_setting :: "(string \<times> pval) list \<Rightarrow> string \<Rightarrow> ('s, (string \<times> pval) list) eff" where
  "add_setting acc line =
     (case partition_on (CHR '':'') line of (lbl, has_colon, v) \<Rightarrow>
        if \<not> has_colon then retE acc
        else
          case label_to_key (strip lbl) of
            None \<Rightarrow> retE acc
          | Some key \<Rightarrow>
              if key = ''complexity'' then retE (dict_set key (PStr (lower (strip v))) acc)
              else
                case int_of_string (strip v) of
                  None \<Rightarrow> raiseE ValueError
                | Some n \<Rightarrow> retE (dict_set key (PInt n) acc))"

definition parse_pwd_settings :: "string \<Rightarrow> ('s, (string \<times> pval) list) eff" where
  "parse_pwd_settings body = foldE add_setting [] (splitlines body)"

text \<open>\<open>int(want)\<close> and \<open>str(want).lower()\<close>.\<close>

definition cast_value :: "caster \<Rightarrow> json \<Rightarrow> ('s, pval) eff" where
  "cast_value c j =
     (case c of
        CastInt \<Rightarrow>
          (case j of
             JNum n \<Rightarrow> retE (PInt n)
           | JBool b \<Rightarrow> retE (PInt (if b then 1 else 0))
           | JStr s \<Rightarrow> (case int_of_string s of None \<Rightarrow> raiseE ValueError | Some n \<Rightarrow> retE (PInt n))
           | _ \<Rightarrow> raiseE TypeError)
      | CastStr \<Rightarrow>
          (case j of
             JStr s \<Rightarrow> retE (PStr (lower s))
           | JBool b \<Rightarrow> retE (PStr (if b then ''true'' else ''false''))
           | JNum n \<Rightarrow> retE (PStr (str_int n))
           | JNull \<Rightarrow> retE (PStr ''none'')
           | _ \<Rightarrow> raiseE TypeError))"

type_synonym pwd_diff = "string \<times> pval option \<times> pval"

definition diff_setting :: "(string \<times> pval) list \<Rightarrow> pwd_diff list \<Rightarrow> string \<times> json \<Rightarrow> ('s, pwd_diff list) eff" where
  "diff_setting live found_diffs kv =
     (case dict_get PWD_SETTINGS (fst kv) of
        None \<Rightarrow> retE found_diffs
      | Some st \<Rightarrow>
          bindE (cast_value (s_cast st) (snd kv)) (\<lambda>want.
            let have_live = dict_get live (fst kv) in
            retE (if have_live \<noteq> Some want then found_diffs @ [(fst kv, have_live, want)] else found_diffs)))"

definition pwd_policy_diff :: "(string \<times> json) list \<Rightarrow> (string \<times> pval) list \<Rightarrow> ('s, pwd_diff list) eff" where
  "pwd_policy_diff desired live = foldE (diff_setting live) [] desired"

text \<open>The flags are cast from the plan again; the plan has every key of the differences.\<close>

definition set_flag :: "(string \<times> json) list \<Rightarrow> pwd_diff \<Rightarrow> ('s, string) eff" where
  "set_flag desired d =
     (case (dict_get PWD_SETTINGS (fst d), dict_get desired (fst d)) of
        (Some st, Some want) \<Rightarrow>
          bindE (cast_value (s_cast st) want) (\<lambda>v. retE (s_flag st @ ''='' @ str_pval v))
      | _ \<Rightarrow> raiseE KeyError)"

definition pwd_set_flags :: "pwd_diff list \<Rightarrow> (string \<times> json) list \<Rightarrow> ('s, string list) eff" where
  "pwd_set_flags found_diffs desired = mapE (set_flag desired) found_diffs"

text \<open>A set, as the list of its elements in order of first occurrence.\<close>

definition parse_name_list :: "string \<Rightarrow> string list" where
  "parse_name_list body = rev (remdups (rev (filter (\<lambda>n. n \<noteq> []) (map strip (splitlines body)))))"

definition build_ace :: "string \<Rightarrow> string \<Rightarrow> string \<Rightarrow> ('s, string) eff" where
  "build_ace inherit right_guid sid =
     (case dict_get INHERIT_FLAGS inherit of
        None \<Rightarrow> raiseE KeyError
      | Some f \<Rightarrow> retE (''(OA;'' @ f @ '';CR;'' @ right_guid @ '';;'' @ sid @ '')''))"

text \<open>\<open>sddl.replace("(", "\n(").split("\n")\<close>.\<close>

definition ace_chunks :: "string \<Rightarrow> string list" where
  "ace_chunks sddl = split_on (CHR 0x0A) (concat (map (\<lambda>c. if c = CHR ''('' then [CHR 0x0A, c] else [c]) sddl))"

definition ace_present :: "string \<Rightarrow> string \<Rightarrow> string \<Rightarrow> bool" where
  "ace_present sddl right_guid sid =
     list_ex (\<lambda>chunk. startswith (lower chunk) ''('' \<and> contains (lower chunk) (lower right_guid) \<and>
       contains (lower chunk) (lower sid)) (ace_chunks sddl)"

section \<open>The report\<close>

record 'w ad = "'w sh" +
  changed :: bool
  failed :: bool

definition rep_ok :: "string \<Rightarrow> ('w ad, unit) eff" where
  "rep_ok msg = say (''OK '' @ msg)"

definition rep_would :: "string \<Rightarrow> ('w ad, unit) eff" where
  "rep_would msg = bindE (modE (\<lambda>s. s\<lparr>changed := True\<rparr>)) (\<lambda>_. say (''WOULD-CHANGE '' @ msg))"

definition rep_changed :: "string \<Rightarrow> ('w ad, unit) eff" where
  "rep_changed msg = bindE (modE (\<lambda>s. s\<lparr>changed := True\<rparr>)) (\<lambda>_. say (''CHANGED '' @ msg))"

definition rep_fail :: "string \<Rightarrow> ('w ad, unit) eff" where
  "rep_fail msg = bindE (modE (\<lambda>s. s\<lparr>failed := True\<rparr>)) (\<lambda>_. say (''FAIL '' @ msg))"

text \<open>\<open>if not rep.changed and not rep.failed: rep.ok()\<close>.\<close>

definition finish :: "('w ad, unit) eff" where
  "finish = bindE (getE (\<lambda>s. changed s \<or> failed s)) (\<lambda>b. if b then retE () else rep_ok ''no-change'')"

section \<open>Groups\<close>

definition sq :: "string \<Rightarrow> string" where
  "sq s = CHR 0x27 # s @ [CHR 0x27]"

definition create_group :: "'w shell \<Rightarrow> string \<Rightarrow> bool \<Rightarrow> string list \<Rightarrow> json \<Rightarrow> ('w ad, string list) eff" where
  "create_group P container check live g =
     bindE (str_field ''name'' g) (\<lambda>name.
       if List.member live name then retE live
       else
         bindE (get_or ''description'' g (JStr [])) (\<lambda>d. bindE (as_str d) (\<lambda>descr.
         let extra = (if descr = [] then [] else [''--description='' @ descr]) @
               (if container \<noteq> [] \<and> \<not> startswith (upper container) ''CN=USERS,''
                then [''--groupou='' @ container] else []) in
         if check then bindE (rep_would (''create group '' @ sq name)) (\<lambda>_. retE live)
         else
           bindE (exec P ([''group'', ''add'', name] @ extra)) (\<lambda>(rc, out, err).
             if rc \<noteq> 0
             then bindE (rep_fail (''create group '' @ sq name @ '': '' @ complaint err out)) (\<lambda>_. retE live)
             else bindE (rep_changed (''created group '' @ sq name)) (\<lambda>_. retE (live @ [name]))))))"

text \<open>Adding one member to a group, for nested groups and for service accounts.\<close>

definition add_member :: "'w shell \<Rightarrow> bool \<Rightarrow> string \<Rightarrow> string \<Rightarrow> ('w ad, unit) eff" where
  "add_member P check parent member =
     bindE (exec P [''group'', ''listmembers'', parent]) (\<lambda>(rc, out, err).
       if rc \<noteq> 0 then rep_fail (''listmembers '' @ sq parent @ '': '' @ complaint err out)
       else if List.member (parse_name_list out) member then retE ()
       else if check then rep_would (''add '' @ sq member @ '' to group '' @ sq parent)
       else
         bindE (exec P [''group'', ''addmembers'', parent, member]) (\<lambda>(rc, out, err).
           if rc \<noteq> 0
           then rep_fail (''addmembers '' @ member @ '' -> '' @ parent @ '': '' @ complaint err out)
           else rep_changed (''added '' @ sq member @ '' to group '' @ sq parent)))"

definition nest_members :: "'w shell \<Rightarrow> bool \<Rightarrow> string list \<Rightarrow> json \<Rightarrow> ('w ad, unit) eff" where
  "nest_members P check live g =
     bindE (str_field ''name'' g) (\<lambda>parent.
     bindE (list_get ''members'' g) (\<lambda>members.
       forE members (\<lambda>m. bindE (as_str m) (\<lambda>member.
         if \<not> List.member live parent
         then rep_would (''add '' @ sq member @ '' to group '' @ sq parent @ '' (parent pending creation)'')
         else add_member P check parent member))))"

definition BUILTIN :: "string list" where
  "BUILTIN =
     [''Domain Admins'', ''Domain Users'', ''Domain Guests'', ''Domain Computers'', ''Domain Controllers'',
      ''Enterprise Admins'', ''Schema Admins'', ''Group Policy Creator Owners'', ''Read-only Domain Controllers'',
      ''Enterprise Read-only Domain Controllers'', ''DnsAdmins'', ''DnsUpdateProxy'', ''Cert Publishers'',
      ''RAS and IAS Servers'', ''Allowed RODC Password Replication Group'',
      ''Denied RODC Password Replication Group'', ''Protected Users'', ''Key Admins'', ''Enterprise Key Admins'',
      ''Cloneable Domain Controllers'', ''Storage Replica Administrators'', ''Administrators'', ''Users'',
      ''Guests'', ''Account Operators'', ''Server Operators'', ''Print Operators'', ''Backup Operators'',
      ''Replicator'', ''Remote Desktop Users'', ''Network Configuration Operators'',
      ''Performance Monitor Users'', ''Performance Log Users'', ''Distributed COM Users'', ''IIS_IUSRS'',
      ''Cryptographic Operators'', ''Event Log Readers'', ''Certificate Service DCOM Access'',
      ''Terminal Server License Servers'', ''Incoming Forest Trust Builders'',
      ''Windows Authorization Access Group'', ''Pre-Windows 2000 Compatible Access'']"

definition is_builtin :: "string \<Rightarrow> bool" where
  "is_builtin name = List.member BUILTIN name"

definition report_extras :: "string list \<Rightarrow> string list \<Rightarrow> ('w ad, unit) eff" where
  "report_extras live desired_names =
     (let extras = sort (filter (\<lambda>n. \<not> List.member desired_names n \<and> \<not> is_builtin n) live) in
      if extras = [] then retE ()
      else say (''OK drift: live non-builtin groups absent from spec (not removed): '' @ join '', '' extras))"

text \<open>\<open>plan.get("container", dflt)\<close>; null reads as the empty text.\<close>

definition container_of :: "json \<Rightarrow> ('s, string) eff" where
  "container_of plan =
     bindE (get_key ''container'' plan) (\<lambda>v.
       case v of None \<Rightarrow> retE ''CN=Users,DC=krg,DC=local'' | Some JNull \<Rightarrow> retE [] | Some x \<Rightarrow> as_str x)"

definition not_skipped :: "json \<Rightarrow> ('s, bool) eff" where
  "not_skipped g =
     bindE (get_key ''skip'' g) (\<lambda>v. retE (case v of None \<Rightarrow> True | Some x \<Rightarrow> \<not> truthy x))"

definition desired_groups :: "json \<Rightarrow> ('s, json list) eff" where
  "desired_groups plan = bindE (list_get ''groups'' plan) (filterE not_skipped)"

definition cmd_groups :: "'w shell \<Rightarrow> json \<Rightarrow> bool \<Rightarrow> ('w ad, unit) eff" where
  "cmd_groups P plan check =
     bindE (container_of plan) (\<lambda>container.
     bindE (desired_groups plan) (\<lambda>desired.
     bindE (exec P [''group'', ''list'']) (\<lambda>(rc, out, err).
       if rc \<noteq> 0 then rep_fail (''group list failed: '' @ complaint err out)
       else
         bindE (mapE (str_field ''name'') desired) (\<lambda>names.
         bindE (foldE (create_group P container check) (parse_name_list out) desired) (\<lambda>live.
         bindE (forE desired (nest_members P check live)) (\<lambda>_.
         bindE (report_extras live names) (\<lambda>_. finish)))))))"

section \<open>Service accounts\<close>

definition place_account :: "'w shell \<Rightarrow> bool \<Rightarrow> string list \<Rightarrow> json \<Rightarrow> ('w ad, unit) eff" where
  "place_account P check live_users acc =
     bindE (str_field ''name'' acc) (\<lambda>name.
       if \<not> List.member live_users name
       then rep_fail (''service account '' @ sq name @ '' is ABSENT'')
       else
         bindE (list_get ''member_of'' acc) (\<lambda>gs.
           forE gs (\<lambda>g. bindE (as_str g) (\<lambda>grp. add_member P check grp name))))"

definition cmd_service_accounts :: "'w shell \<Rightarrow> json \<Rightarrow> bool \<Rightarrow> ('w ad, unit) eff" where
  "cmd_service_accounts P plan check =
     bindE (exec P [''user'', ''list'']) (\<lambda>(rc, out, err).
       if rc \<noteq> 0 then rep_fail (''user list failed: '' @ complaint err out)
       else
         bindE (list_get ''accounts'' plan) (\<lambda>accs.
         bindE (forE accs (place_account P check (parse_name_list out))) (\<lambda>_. finish)))"

section \<open>Delegated rights\<close>

text \<open>The first line with the attribute, and a kind of object that can be shown.\<close>

definition sid_line :: "string \<Rightarrow> string option" where
  "sid_line out =
     map_option (\<lambda>l. strip (snd (snd (partition_on (CHR '':'') l))))
       (List.find (\<lambda>l. startswith (lower (strip l)) ''objectsid:'') (splitlines out))"

primrec resolve_as :: "'w shell \<Rightarrow> string \<Rightarrow> string list \<Rightarrow> ('w ad, string option) eff" where
  "resolve_as P name [] = retE None"
| "resolve_as P name (kind # kinds) =
     bindE (exec P [kind, ''show'', name, ''--attributes=objectSid'']) (\<lambda>(rc, out, err).
       if rc \<noteq> 0 then resolve_as P name kinds
       else case sid_line out of None \<Rightarrow> resolve_as P name kinds | Some sid \<Rightarrow> retE (Some sid))"

definition resolve_sid :: "'w shell \<Rightarrow> string \<Rightarrow> ('w ad, string option) eff" where
  "resolve_sid P name = resolve_as P name [''user'', ''group'']"

definition grant_right :: "'w shell \<Rightarrow> bool \<Rightarrow> string \<Rightarrow> string \<Rightarrow> string \<Rightarrow> string \<Rightarrow> string \<Rightarrow> string \<Rightarrow>
    ('w ad, unit) eff" where
  "grant_right P check dn trustee right inherit guid sid =
     bindE (exec P [''dsacl'', ''get'', ''--objectdn='' @ dn]) (\<lambda>(rc, out, err).
       if rc \<noteq> 0 then rep_fail (''dsacl get '' @ dn @ '': '' @ complaint err out)
       else if ace_present out guid sid then retE ()
       else
         bindE (build_ace inherit guid sid) (\<lambda>sddl.
           if check then rep_would (''grant '' @ right @ '' '' @ sq trustee @ '' on '' @ dn @ '' ('' @ sddl @ '')'')
           else
             bindE (exec P [''dsacl'', ''set'', ''--objectdn='' @ dn, ''--sddl='' @ sddl]) (\<lambda>(rc, out, err).
               if rc \<noteq> 0 then rep_fail (''dsacl set '' @ right @ '' on '' @ dn @ '': '' @ complaint err out)
               else rep_changed (''granted '' @ right @ '' '' @ sq trustee @ '' on '' @ dn))))"

definition apply_ace :: "'w shell \<Rightarrow> bool \<Rightarrow> json \<Rightarrow> ('w ad, unit) eff" where
  "apply_ace P check ace =
     bindE (str_field ''objectdn'' ace) (\<lambda>dn. bindE (str_field ''trustee'' ace) (\<lambda>trustee.
     bindE (str_field ''right'' ace) (\<lambda>right. bindE (str_get ''inherit'' ace ''child-users'') (\<lambda>inherit.
       case dict_get RIGHTS right of
         None \<Rightarrow> rep_fail (''unknown right '' @ sq right @ '' (known: '' @ join '', '' (dict_keys RIGHTS) @ '')'')
       | Some guid \<Rightarrow>
           if dict_get INHERIT_FLAGS inherit = None then rep_fail (''unknown inherit '' @ sq inherit)
           else
             bindE (resolve_sid P trustee) (\<lambda>sid.
               case sid of
                 None \<Rightarrow> rep_fail (''cannot resolve SID for trustee '' @ sq trustee)
               | Some x \<Rightarrow>
                   if x = [] then rep_fail (''cannot resolve SID for trustee '' @ sq trustee)
                   else grant_right P check dn trustee right inherit guid x)))))"

definition cmd_acls :: "'w shell \<Rightarrow> json \<Rightarrow> bool \<Rightarrow> ('w ad, unit) eff" where
  "cmd_acls P plan check =
     bindE (list_get ''acls'' plan) (\<lambda>aces. bindE (forE aces (apply_ace P check)) (\<lambda>_. finish))"

section \<open>The password policy\<close>

definition str_diff :: "pwd_diff \<Rightarrow> string" where
  "str_diff d =
     (case d of (k, h, w) \<Rightarrow>
        k @ '': '' @ (case h of None \<Rightarrow> ''None'' | Some v \<Rightarrow> str_pval v) @ '' -> '' @ str_pval w)"

definition plan_items :: "json \<Rightarrow> ('s, (string \<times> json) list) eff" where
  "plan_items plan = (case plan of JObj d \<Rightarrow> retE d | _ \<Rightarrow> raiseE AttributeError)"

definition cmd_password_policy :: "'w shell \<Rightarrow> json \<Rightarrow> bool \<Rightarrow> ('w ad, unit) eff" where
  "cmd_password_policy P plan check =
     bindE (exec P [''domain'', ''passwordsettings'', ''show'']) (\<lambda>(rc, out, err).
       if rc \<noteq> 0 then rep_fail (''passwordsettings show failed: '' @ complaint err out)
       else
         bindE (parse_pwd_settings out) (\<lambda>live.
         bindE (plan_items plan) (\<lambda>items.
         let desired = filter (\<lambda>kv. dict_get PWD_SETTINGS (fst kv) \<noteq> None) items in
         bindE (pwd_policy_diff desired live) (\<lambda>found_diffs.
           if found_diffs = [] then rep_ok ''policy already converged''
           else
             let detail = join ''; '' (map str_diff found_diffs) in
             if check then rep_would (''passwordsettings '' @ detail)
             else
               bindE (pwd_set_flags found_diffs desired) (\<lambda>flags.
               bindE (exec P ([''domain'', ''passwordsettings'', ''set''] @ flags)) (\<lambda>(rc, out, err).
                 if rc \<noteq> 0 then rep_fail (''passwordsettings set: '' @ complaint err out)
                 else rep_changed (''passwordsettings '' @ detail)))))))"

section \<open>The program\<close>

datatype concern = Groups | ServiceAccounts | Acls | PasswordPolicy

definition handler :: "concern \<Rightarrow> 'w shell \<Rightarrow> json \<Rightarrow> bool \<Rightarrow> ('w ad, unit) eff" where
  "handler c =
     (case c of Groups \<Rightarrow> cmd_groups | ServiceAccounts \<Rightarrow> cmd_service_accounts | Acls \<Rightarrow> cmd_acls
      | PasswordPolicy \<Rightarrow> cmd_password_policy)"

text \<open>The exit code; reading the plan is a parameter.\<close>

definition ad_main :: "'w shell \<Rightarrow> json res \<Rightarrow> concern \<Rightarrow> bool \<Rightarrow> ('w ad, int) eff" where
  "ad_main P load_plan c check =
     bindE (modE (\<lambda>s. s\<lparr>changed := False, failed := False\<rparr>)) (\<lambda>_.
     bindE (liftE load_plan) (\<lambda>plan.
     bindE (handler c P plan check) (\<lambda>_.
       getE (\<lambda>s. if failed s then 2 else 0))))"

end
