(* ===== verification/Ad_Correct.thy ===== *)
theory Ad_Correct
  imports Ad_Apply
begin

text \<open>
  What the directory applier does to the directory. \<open>samba_groups\<close> states what samba-tool documents of
  its group commands, through a view of the world: the members of every group there is. Under these
  laws a run without failures merges the plan into the directory, and a second run changes nothing.
\<close>

section \<open>Commands\<close>

definition inspects :: "string list \<Rightarrow> bool" where
  "inspects c \<longleftrightarrow> c = [''group'', ''list''] \<or> c = [''user'', ''list''] \<or> take 2 c = [''group'', ''listmembers''] \<or>
     (length c = 4 \<and> (hd c = ''user'' \<or> hd c = ''group'') \<and> c ! 1 = ''show'') \<or>
     take 2 c = [''dsacl'', ''get''] \<or> c = [''domain'', ''passwordsettings'', ''show'']"

definition adds :: "string list \<Rightarrow> bool" where
  "adds c \<longleftrightarrow> take 2 c = [''group'', ''add''] \<or> take 2 c = [''group'', ''addmembers''] \<or>
     take 2 c = [''dsacl'', ''set''] \<or> take 3 c = [''domain'', ''passwordsettings'', ''set'']"

definition allowed :: "bool \<Rightarrow> string list \<Rightarrow> bool" where
  "allowed check c \<longleftrightarrow> inspects c \<or> \<not> check \<and> adds c"

lemma allowed_simps [simp]:
  "allowed check [''group'', ''list'']" "allowed check [''user'', ''list'']"
  "allowed check [''group'', ''listmembers'', g]" "allowed check [''user'', ''show'', n, a]"
  "allowed check [''group'', ''show'', n, a]" "allowed check [''dsacl'', ''get'', d]"
  "allowed check [''domain'', ''passwordsettings'', ''show'']"
  "allowed False (''group'' # ''add'' # x)" "allowed False (''group'' # ''addmembers'' # x)"
  "allowed False (''dsacl'' # ''set'' # x)" "allowed False (''domain'' # ''passwordsettings'' # ''set'' # x)"
  by (simp_all add: allowed_def inspects_def adds_def)

lemma runs_report:
  "keeps (ran_only A) (rep_ok m)" "keeps (ran_only A) (rep_would m)"
  "keeps (ran_only A) (rep_changed m)" "keeps (ran_only A) (rep_fail m)" "keeps (ran_only A) finish"
proof -
  have m: "keeps (ran_only A) (modE (\<lambda>s. s\<lparr>changed := b\<rparr>))" "keeps (ran_only A) (modE (\<lambda>s. s\<lparr>failed := b\<rparr>))" for b
    by (simp_all add: keeps_def modE_def ran_only_def)
  show "keeps (ran_only A) (rep_ok m)" "keeps (ran_only A) (rep_would m)"
    "keeps (ran_only A) (rep_changed m)" "keeps (ran_only A) (rep_fail m)" "keeps (ran_only A) finish"
    unfolding rep_ok_def rep_would_def rep_changed_def rep_fail_def finish_def by (intro runs_rules m)+
qed

lemma runs_add_member: "keeps (ran_only (allowed check)) (add_member P check parent member)"
  unfolding add_member_def by (auto intro!: runs_rules runs_report split: prod.split)

lemma runs_cmd_groups: "keeps (ran_only (allowed check)) (cmd_groups P plan check)"
proof -
  have c: "keeps (ran_only (allowed check)) (create_group P container check live g)" for container live g
    unfolding create_group_def Let_def
    by (auto intro!: runs_rules runs_report split: prod.split)
  have n: "keeps (ran_only (allowed check)) (nest_members P check live g)" for live g
    unfolding nest_members_def by (intro runs_rules runs_report runs_add_member)
  show ?thesis
    unfolding cmd_groups_def container_of_def desired_groups_def not_skipped_def report_extras_def Let_def
    by (auto intro!: runs_rules runs_report c n split: prod.split option.split json.split)
qed

lemma runs_cmd_service_accounts: "keeps (ran_only (allowed check)) (cmd_service_accounts P plan check)"
  unfolding cmd_service_accounts_def place_account_def
  by (auto intro!: runs_rules runs_report runs_add_member split: prod.split)

lemma runs_cmd_acls: "keeps (ran_only (allowed check)) (cmd_acls P plan check)"
proof -
  have r: "keeps (ran_only (allowed check)) (resolve_as P name ks)" if "set ks \<subseteq> {''user'', ''group''}" for name ks
    using that
  proof (induction ks)
    case (Cons k ks)
    have e: "keeps (ran_only (allowed check)) (exec P [k, ''show'', name, ''--attributes=objectSid''])"
      by (rule runs_exec) (use Cons.prems in auto)
    have "keeps (ran_only (allowed check)) (case sid_line out of None \<Rightarrow> resolve_as P name ks | Some sid \<Rightarrow> retE (Some sid))" for out
      using Cons by (auto intro: runs_rules split: option.split)
    then show ?case using Cons by (auto intro!: runs_rules e split: prod.split)
  qed (simp add: runs.keeps_ret)
  have s: "keeps (ran_only (allowed check)) (resolve_sid P name)" for name
    unfolding resolve_sid_def by (rule r) simp
  have b: "keeps (ran_only A) (build_ace i g x)" for A :: "string list \<Rightarrow> bool" and i g x
    unfolding build_ace_def by (auto intro!: runs_rules split: option.split)
  have g: "keeps (ran_only (allowed check)) (grant_right P check dn tr ri inh guid sid)" for dn tr ri inh guid sid
    unfolding grant_right_def by (auto intro!: runs_rules runs_report b split: prod.split)
  show ?thesis
    unfolding cmd_acls_def apply_ace_def
    by (auto intro!: runs_rules runs_report s g simp del: dict_get_eq_None split: option.split)
qed

lemma runs_cmd_password_policy: "keeps (ran_only (allowed check)) (cmd_password_policy P plan check)"
proof -
  have c: "keeps (ran_only A) (cast_value x j)" for A :: "string list \<Rightarrow> bool" and x j
    unfolding cast_value_def by (auto intro!: runs_rules split: caster.split json.split option.split)
  have a: "keeps (ran_only A) (add_setting acc line)" for A :: "string list \<Rightarrow> bool" and acc line
    unfolding add_setting_def by (auto intro!: runs_rules split: prod.split option.split)
  have d: "keeps (ran_only A) (diff_setting live ds kv)" for A :: "string list \<Rightarrow> bool" and live ds kv
    unfolding diff_setting_def Let_def by (auto intro!: runs_rules c split: option.split)
  have f: "keeps (ran_only A) (set_flag des x)" for A :: "string list \<Rightarrow> bool" and des x
    unfolding set_flag_def by (auto intro!: runs_rules c split: option.split)
  show ?thesis
    unfolding cmd_password_policy_def parse_pwd_settings_def pwd_policy_diff_def pwd_set_flags_def plan_items_def Let_def
    by (auto intro!: runs_rules runs_report a d f split: prod.split json.split)
qed

lemma runs_ad_main: "keeps (ran_only (allowed check)) (ad_main P ld c check)"
proof -
  have m: "keeps (ran_only A) (modE (\<lambda>s. s\<lparr>changed := False, failed := False\<rparr>))" for A
    by (simp add: keeps_def modE_def ran_only_def)
  show ?thesis
    unfolding ad_main_def handler_def
    by (cases c)
      (auto intro!: runs_rules m runs_cmd_groups runs_cmd_service_accounts runs_cmd_acls runs_cmd_password_policy)
qed

section \<open>The directory's groups\<close>

type_synonym groups = "string \<Rightarrow> string set option"

text \<open>What samba-tool promises: what its listings print, what its additions do, and that a call that
  fails does nothing.\<close>

definition samba_groups :: "'w shell \<Rightarrow> ('w \<Rightarrow> groups) \<Rightarrow> bool" where
  "samba_groups P view \<longleftrightarrow>
     (\<forall>w out err w'. P [''group'', ''list''] w = (Ok (0, out, err), w') \<longrightarrow>
        view w' = view w \<and> set (parse_name_list out) = dom (view w)) \<and>
     (\<forall>g w out err w'. P [''group'', ''listmembers'', g] w = (Ok (0, out, err), w') \<longrightarrow>
        view w' = view w \<and> view w g = Some (set (parse_name_list out))) \<and>
     (\<forall>g extra w out err w'. P ([''group'', ''add'', g] @ extra) w = (Ok (0, out, err), w') \<longrightarrow>
        view w g = None \<and> view w' = (view w)(g \<mapsto> {})) \<and>
     (\<forall>g m w out err w'. P [''group'', ''addmembers'', g, m] w = (Ok (0, out, err), w') \<longrightarrow>
        view w' = (view w)(g \<mapsto> insert m (case view w g of None \<Rightarrow> {} | Some M \<Rightarrow> M))) \<and>
     (\<forall>c w r w'. P c w = (r, w') \<longrightarrow> (\<forall>out err. r \<noteq> Ok (0, out, err)) \<longrightarrow> view w' = view w)"

text \<open>Adding members to a group that is created when it is not there.\<close>

definition put_members :: "groups \<Rightarrow> string \<times> string set \<Rightarrow> groups" where
  "put_members v e = v(fst e \<mapsto> (case v (fst e) of None \<Rightarrow> {} | Some M \<Rightarrow> M) \<union> snd e)"

definition merge_all :: "groups \<Rightarrow> (string \<times> string set) list \<Rightarrow> groups" where
  "merge_all v es = foldl put_members v es"

lemma merge_all_simps [simp]:
  "merge_all v [] = v" "merge_all v (e # es) = merge_all (put_members v e) es"
  "merge_all v (es @ fs) = merge_all (merge_all v es) fs"
  by (simp_all add: merge_all_def)

lemma merge_all_eq:
  "merge_all v es n =
     (if v n = None \<and> n \<notin> fst ` set es then None
      else Some ((case v n of None \<Rightarrow> {} | Some M \<Rightarrow> M) \<union> \<Union> {M. (n, M) \<in> set es}))"
proof (induction es arbitrary: v)
  case (Cons e es)
  show ?case
    by (cases e; cases "fst e = n") (auto simp: Cons.IH put_members_def split: option.splits)
qed (simp split: option.split)

lemma put_members_present: "v n = Some M \<Longrightarrow> m \<in> M \<Longrightarrow> put_members v (n, {m}) = v"
  "n \<in> dom v \<Longrightarrow> put_members v (n, {}) = v"
  by (auto simp: put_members_def insert_absorb)

section \<open>Plans\<close>

record group_plan =
  gp_name :: string
  gp_description :: string
  gp_members :: "string list"
  gp_skip :: bool

definition group_json :: "group_plan \<Rightarrow> json" where
  "group_json g = JObj [(''name'', JStr (gp_name g)), (''description'', JStr (gp_description g)),
     (''members'', JArr (map JStr (gp_members g))), (''skip'', JBool (gp_skip g))]"

definition groups_plan :: "string \<Rightarrow> group_plan list \<Rightarrow> json" where
  "groups_plan container gs = JObj [(''container'', JStr container), (''groups'', JArr (map group_json gs))]"

definition planned :: "group_plan list \<Rightarrow> group_plan list" where
  "planned gs = filter (\<lambda>g. \<not> gp_skip g) gs"

lemma desired_groups_plan: "desired_groups (groups_plan container gs) = retE (map group_json (planned gs))"
proof -
  have "filterE not_skipped (map group_json gs) = retE (map group_json (planned gs))"
    by (induction gs) (simp_all add: planned_def not_skipped_def group_json_def get_key_def truthy_def)
  then show ?thesis by (simp add: desired_groups_def groups_plan_def list_get_def get_key_def as_list_def)
qed

lemma container_plan: "container_of (groups_plan container gs) = retE container"
  by (simp add: container_of_def groups_plan_def get_key_def as_str_def)

lemma name_plan: "str_field ''name'' (group_json g) = retE (gp_name g)"
  by (simp add: str_field_def group_json_def field_def as_str_def)

lemma names_plan: "mapE (str_field ''name'') (map group_json gs) = retE (map gp_name gs)"
  by (induction gs) (simp_all add: name_plan)

lemma forE_members: "forE (map JStr ms) (\<lambda>m. bindE (as_str m) f) = forE ms f"
  by (induction ms) (simp_all add: as_str_def)

text \<open>What a plan adds to the directory: its groups, then the members of each.\<close>

definition creations :: "group_plan list \<Rightarrow> (string \<times> string set) list" where
  "creations gs = map (\<lambda>g. (gp_name g, {})) gs"

definition nestings :: "group_plan list \<Rightarrow> (string \<times> string set) list" where
  "nestings gs = concat (map (\<lambda>g. map (\<lambda>m. (gp_name g, {m})) (gp_members g)) gs)"

text \<open>The directory with a plan merged into it.\<close>

definition merged :: "groups \<Rightarrow> group_plan list \<Rightarrow> groups" where
  "merged v gs n =
     (if v n = None \<and> n \<notin> gp_name ` set gs then None
      else Some ((case v n of None \<Rightarrow> {} | Some M \<Rightarrow> M) \<union> {m. \<exists>g \<in> set gs. gp_name g = n \<and> m \<in> set (gp_members g)}))"

lemma merged_eq: "merge_all v (creations gs @ nestings gs) = merged v gs"
proof
  fix n
  have "fst ` set (creations gs @ nestings gs) = gp_name ` set gs"
    by (force simp: creations_def nestings_def)
  moreover have "\<Union> {M. (n, M) \<in> set (creations gs @ nestings gs)} =
      {m. \<exists>g \<in> set gs. gp_name g = n \<and> m \<in> set (gp_members g)}"
    by (auto simp: creations_def nestings_def)
  ultimately show "merge_all v (creations gs @ nestings gs) n = merged v gs n"
    unfolding merge_all_eq merged_def by simp
qed

lemma merged_again: "merged (merged v gs) gs = merged v gs"
  by (rule ext) (auto simp: merged_def)

section \<open>A run merges its plan\<close>

abbreviation anything :: "'w ad \<Rightarrow> bool" where
  "anything \<equiv> \<lambda>_. True"

text \<open>Unless something failed, the directory is \<open>v\<close>.\<close>

definition holds :: "('w \<Rightarrow> groups) \<Rightarrow> groups \<Rightarrow> 'w ad \<Rightarrow> bool" where
  "holds view v s \<longleftrightarrow> failed s \<or> view (shw s) = v"

lemma holds_fun: "holds view v = (\<lambda>s. failed s \<or> view (shw s) = v)"
  by (simp add: fun_eq_iff holds_def)

lemma triple_forE_fold:
  assumes "\<And>x v. x \<in> set xs \<Longrightarrow> C v \<Longrightarrow> triple (I v) (f x) (\<lambda>_. I (g v x)) E"
    and "\<And>x v. x \<in> set xs \<Longrightarrow> C v \<Longrightarrow> C (g v x)" and "C v"
  shows "triple (I v) (forE xs f) (\<lambda>_. I (foldl g v xs)) E"
  using assms
proof (induction xs arbitrary: v)
  case (Cons x xs)
  have "triple (I v) (f x) (\<lambda>_. I (g v x)) E" using Cons.prems by simp
  moreover have "triple (I (g v x)) (forE xs f) (\<lambda>_. I (foldl g (g v x) xs)) E"
    by (rule Cons.IH) (use Cons.prems in auto)
  ultimately show ?case by (auto intro: triple_bind)
qed (simp add: triple_ret)

definition sticky :: "'w ad \<Rightarrow> 'w ad \<Rightarrow> bool" where
  "sticky s t \<longleftrightarrow> (failed s \<longrightarrow> failed t)"

interpretation sticks: frame sticky
  by unfold_locales (auto simp: sticky_def)

lemma sticks_basic:
  "keeps sticky (exec P argv)" "keeps sticky (say m)" "keeps sticky (rep_ok m)" "keeps sticky (rep_would m)"
  "keeps sticky (rep_changed m)" "keeps sticky (rep_fail m)" "keeps sticky finish"
proof -
  have m: "keeps sticky (modE (\<lambda>s. s\<lparr>changed := b\<rparr>))" "keeps sticky (modE (\<lambda>s. s\<lparr>failed := True\<rparr>))" for b
    by (simp_all add: keeps_def modE_def sticky_def)
  show 1: "keeps sticky (exec P argv)" by (auto simp: keeps_def exec_def sticky_def split: prod.split)
  show 2: "keeps sticky (say m)" for m by (simp add: keeps_def say_def modE_def sticky_def)
  show "keeps sticky (rep_ok m)" "keeps sticky (rep_would m)" "keeps sticky (rep_changed m)"
    "keeps sticky (rep_fail m)" "keeps sticky finish"
    unfolding rep_ok_def rep_would_def rep_changed_def rep_fail_def finish_def
    by (intro sticks.keeps_rules m 2)+
qed

lemmas sticks_rules = sticks.keeps_rules sticks.keeps_json sticks.keeps_json_derived sticks_basic

lemma sticks_add_member: "keeps sticky (add_member P check parent member)"
  unfolding add_member_def by (auto intro!: sticks_rules split: prod.split)

lemma sticks_create_group: "keeps sticky (create_group P container check live g)"
  unfolding create_group_def Let_def by (auto intro!: sticks_rules split: prod.split)

lemma sticks_create: "keeps sticky (foldE (create_group P container check) live gs)"
  by (intro sticks_rules sticks_create_group)

text \<open>What happened before a failure does not matter after it.\<close>

lemma triple_sticky:
  assumes "keeps sticky m" and "triple (\<lambda>s. view (shw s) = v) m (\<lambda>x s. failed s \<or> Q x s) anything"
  shows "triple (holds view v) m (\<lambda>x s. failed s \<or> Q x s) anything"
  unfolding triple_def holds_def
proof (intro allI impI)
  fix s x t assume s: "failed s \<or> view (shw s) = v" and m: "m s = (x, t)"
  show "case x of Ok y \<Rightarrow> failed t \<or> Q y t | _ \<Rightarrow> True"
    using s keepsD[OF assms(1) m] assms(2)[unfolded triple_def, rule_format, OF _ m]
    by (cases x) (auto simp: sticky_def)
qed

lemma triple_failed: "keeps sticky m \<Longrightarrow> triple (\<lambda>s. failed s) m (\<lambda>_ s. failed s) anything"
  unfolding triple_def by (auto split: res.split dest: keepsD simp: sticky_def)

lemma triple_reports:
  "triple I (rep_fail m) (\<lambda>_ s. failed s) anything"
  "triple (\<lambda>s. view (shw s) = v) (rep_changed m) (\<lambda>_ s. view (shw s) = v) anything"
  "triple (\<lambda>s. view (shw s) = v) (rep_would m) (\<lambda>_ s. view (shw s) = v) anything"
  by (simp_all add: triple_def rep_fail_def rep_changed_def rep_would_def say_def eff_defs)

lemma triple_exec:
  assumes "\<And>w x w'. view w = v \<Longrightarrow> P argv w = (Ok x, w') \<Longrightarrow> Q x (view w')"
  shows "triple (\<lambda>s. view (shw s) = v) (exec P argv) (\<lambda>x s. Q x (view (shw s))) anything"
  using assms unfolding triple_def exec_def by (auto split: prod.splits res.split)

lemma samba_groupsD:
  assumes "samba_groups P view"
  shows "P [''group'', ''list''] w = (Ok (rc, out, err), w') \<Longrightarrow>
      view w' = view w \<and> (rc = 0 \<longrightarrow> set (parse_name_list out) = dom (view w))"
    and "P [''group'', ''listmembers'', g] w = (Ok (rc, out, err), w') \<Longrightarrow>
      view w' = view w \<and> (rc = 0 \<longrightarrow> view w g = Some (set (parse_name_list out)))"
    and "P ([''group'', ''add'', g] @ extra) w = (Ok (0, out, err), w') \<Longrightarrow> view w' = put_members (view w) (g, {})"
    and "P [''group'', ''addmembers'', g, m] w = (Ok (0, out, err), w') \<Longrightarrow> view w' = put_members (view w) (g, {m})"
proof -
  have none: "view w' = view w" if "P c w = (Ok (rc, out, err), w')" "rc \<noteq> 0" for c w rc out err w'
    using assms that unfolding samba_groups_def by (metis prod.inject res.inject(1))
  show "view w' = view w \<and> (rc = 0 \<longrightarrow> set (parse_name_list out) = dom (view w))"
    if "P [''group'', ''list''] w = (Ok (rc, out, err), w')"
    using that assms none[OF that] unfolding samba_groups_def by metis
  show "view w' = view w \<and> (rc = 0 \<longrightarrow> view w g = Some (set (parse_name_list out)))"
    if "P [''group'', ''listmembers'', g] w = (Ok (rc, out, err), w')"
    using that assms none[OF that] unfolding samba_groups_def by metis
  show "view w' = put_members (view w) (g, {})" if "P ([''group'', ''add'', g] @ extra) w = (Ok (0, out, err), w')"
    using that assms unfolding samba_groups_def put_members_def by (metis Un_empty_right fst_conv option.simps(4) snd_conv)
  show "view w' = put_members (view w) (g, {m})" if "P [''group'', ''addmembers'', g, m] w = (Ok (0, out, err), w')"
    using that assms unfolding samba_groups_def put_members_def by simp
qed

lemma triple_weaken: "triple I m Q anything \<Longrightarrow> (\<And>x s. Q x s \<Longrightarrow> Q' x s) \<Longrightarrow> triple I m Q' anything"
  by (rule triple_conseq[where I = I and Q = Q and E = anything]) auto

lemma triple_create_group:
  fixes P :: "'w shell"
  assumes "samba_groups P view" and "set live = dom v"
  shows "triple (\<lambda>s. view (shw s) = v) (create_group P container False live (group_json g))
    (\<lambda>live' s. failed s \<or> view (shw s) = put_members v (gp_name g, {}) \<and>
       set live' = dom (put_members v (gp_name g, {}))) anything"
proof (cases "gp_name g \<in> dom v")
  case True
  then have "put_members v (gp_name g, {}) = v" by (rule put_members_present(2))
  with True show ?thesis
    by (simp add: create_group_def name_plan assms(2) triple_ret)
next
  case False
  have d: "get_or ''description'' (group_json g) (JStr []) = retE (JStr (gp_description g))"
    by (auto simp: get_or_def group_json_def get_key_def truthy_def)
  have e: "triple (\<lambda>s. view (shw s) = v) (exec P ([''group'', ''add'', gp_name g] @ extra))
      (\<lambda>x s. fst x = 0 \<longrightarrow> view (shw s) = put_members v (gp_name g, {})) anything" for extra
    by (rule triple_exec) (use samba_groupsD(3)[OF assms(1)] in auto)
  have dm: "set (live @ [gp_name g]) = dom (put_members v (gp_name g, {}))"
    using assms(2) by (auto simp: put_members_def)
  define rest :: "proc \<Rightarrow> ('w ad, string list) eff" where "rest = (\<lambda>(rc, out, err). if rc \<noteq> 0
      then bindE (rep_fail (''create group '' @ sq (gp_name g) @ '': '' @ complaint err out)) (\<lambda>_. retE live)
      else bindE (rep_changed (''created group '' @ sq (gp_name g))) (\<lambda>_. retE (live @ [gp_name g])))"
  have r: "triple (\<lambda>s. fst x = 0 \<longrightarrow> view (shw s) = put_members v (gp_name g, {})) (rest x)
    (\<lambda>live' s. failed s \<or> view (shw s) = put_members v (gp_name g, {}) \<and>
       set live' = dom (put_members v (gp_name g, {}))) anything" for x :: proc
  proof (cases x)
    case (fields rc out err)
    show ?thesis
    proof (cases "rc = 0")
      case True
      then show ?thesis
        unfolding rest_def fields using dm by (auto intro!: triple_bind[OF triple_reports(2)] triple_ret)
    next
      case False
      then show ?thesis
        unfolding rest_def fields by (auto intro!: triple_bind[OF triple_reports(1)] triple_ret)
    qed
  qed
  have "create_group P container False live (group_json g) = bindE (exec P ([''group'', ''add'', gp_name g] @
      ((if gp_description g = [] then [] else [''--description='' @ gp_description g]) @
       (if container \<noteq> [] \<and> \<not> startswith (upper container) ''CN=USERS,'' then [''--groupou='' @ container] else []))))
      rest"
    using False by (simp add: create_group_def name_plan d assms(2) as_str_def rest_def)
  then show ?thesis by (simp only: triple_bind[OF e r])
qed

lemma triple_add_member:
  assumes "samba_groups P view"
  shows "triple (\<lambda>s. view (shw s) = v) (add_member P False parent member)
    (\<lambda>_ s. failed s \<or> view (shw s) = put_members v (parent, {member})) anything"
proof -
  have l: "triple (\<lambda>s. view (shw s) = v) (exec P [''group'', ''listmembers'', parent])
      (\<lambda>x s. view (shw s) = v \<and> (fst x = 0 \<longrightarrow> v parent = Some (set (parse_name_list (fst (snd x)))))) anything"
    by (rule triple_exec) (use samba_groupsD(2)[OF assms] in auto)
  have a: "triple (\<lambda>s. view (shw s) = v) (exec P [''group'', ''addmembers'', parent, member])
      (\<lambda>x s. fst x = 0 \<longrightarrow> view (shw s) = put_members v (parent, {member})) anything"
    by (rule triple_exec) (use samba_groupsD(4)[OF assms] in auto)
  have end_fail: "triple I (rep_fail m) (\<lambda>_ s. failed s \<or> Q s) anything" for I m Q
    by (rule triple_weaken[OF triple_reports(1)]) simp
  have end_change: "triple (\<lambda>s. view (shw s) = u) (rep_changed m) (\<lambda>_ s. failed s \<or> view (shw s) = u) anything" for u m
    by (rule triple_weaken[OF triple_reports(2)]) simp
  have "triple (\<lambda>s. view (shw s) = v \<and> (rc = 0 \<longrightarrow> v parent = Some (set (parse_name_list out))))
      (if rc \<noteq> 0 then rep_fail (''listmembers '' @ sq parent @ '': '' @ complaint err out)
       else if List.member (parse_name_list out) member then retE ()
       else if False then rep_would (''add '' @ sq member @ '' to group '' @ sq parent)
       else bindE (exec P [''group'', ''addmembers'', parent, member]) (\<lambda>(rc, out, err).
           if rc \<noteq> 0
           then rep_fail (''addmembers '' @ member @ '' -> '' @ parent @ '': '' @ complaint err out)
           else rep_changed (''added '' @ sq member @ '' to group '' @ sq parent)))
      (\<lambda>_ s. failed s \<or> view (shw s) = put_members v (parent, {member})) anything" for rc out err
  proof (intro triple_if)
    show "triple (\<lambda>s. view (shw s) = v \<and> (rc = 0 \<longrightarrow> v parent = Some (set (parse_name_list out)))) (retE ())
        (\<lambda>_ s. failed s \<or> view (shw s) = put_members v (parent, {member})) anything"
      if "\<not> rc \<noteq> 0" "List.member (parse_name_list out) member"
      by (rule triple_ret) (use that put_members_present(1) in auto)
    have s: "triple (\<lambda>s. rc = 0 \<longrightarrow> view (shw s) = put_members v (parent, {member}))
       (if rc \<noteq> 0 then rep_fail (''addmembers '' @ member @ '' -> '' @ parent @ '': '' @ complaint err out)
        else rep_changed (''added '' @ sq member @ '' to group '' @ sq parent))
       (\<lambda>_ s. failed s \<or> view (shw s) = put_members v (parent, {member})) anything" for rc out err
      by (cases "rc = 0") (simp_all add: end_fail end_change del: append.simps)
    show "triple (\<lambda>s. view (shw s) = v \<and> (rc = 0 \<longrightarrow> v parent = Some (set (parse_name_list out))))
       (bindE (exec P [''group'', ''addmembers'', parent, member]) (\<lambda>(rc, out, err).
           if rc \<noteq> 0
           then rep_fail (''addmembers '' @ member @ '' -> '' @ parent @ '': '' @ complaint err out)
           else rep_changed (''added '' @ sq member @ '' to group '' @ sq parent)))
       (\<lambda>_ s. failed s \<or> view (shw s) = put_members v (parent, {member})) anything"
      apply (rule triple_bind[OF triple_pre[OF a]])
       apply simp
      subgoal for x using s by (cases x) (simp only: prod.case fst_conv)
      done
  qed (auto intro: end_fail)
  note s = this
  show ?thesis
    unfolding add_member_def
    apply (rule triple_bind[OF l])
    subgoal for x using s by (cases x) (simp only: prod.case fst_conv snd_conv)
    done
qed

lemma triple_creations:
  assumes "samba_groups P view" and "set live = dom v"
  shows "triple (holds view v) (foldE (create_group P container False) live (map group_json gs))
    (\<lambda>live' s. failed s \<or> view (shw s) = merge_all v (creations gs) \<and>
       set live' = dom (merge_all v (creations gs))) anything"
  using assms(2)
proof (induction gs arbitrary: v live)
  case Nil
  then show ?case by (simp add: creations_def triple_ret holds_def)
next
  case (Cons g gs)
  let ?v = "put_members v (gp_name g, {})"
  let ?Q = "\<lambda>live' s. failed s \<or> view (shw s) = merge_all v (creations (g # gs)) \<and>
       set live' = dom (merge_all v (creations (g # gs)))"
  have c: "creations (g # gs) = (gp_name g, {}) # creations gs" by (simp add: creations_def)
  have 1: "triple (holds view v) (create_group P container False live (group_json g))
      (\<lambda>live' s. failed s \<or> view (shw s) = ?v \<and> set live' = dom ?v) anything"
    by (rule triple_sticky[OF sticks_create_group triple_create_group[OF assms(1) Cons.prems]])
  have 2: "triple (\<lambda>s. failed s \<or> view (shw s) = ?v \<and> set live' = dom ?v)
      (foldE (create_group P container False) live' (map group_json gs)) ?Q anything" for live'
  proof (cases "set live' = dom ?v")
    case True
    show ?thesis
      unfolding c merge_all_simps using Cons.IH[OF True] by (rule triple_pre) (auto simp: holds_def)
  next
    case False
    have "triple (\<lambda>s. failed s) (foldE (create_group P container False) live' (map group_json gs)) ?Q anything"
      by (rule triple_weaken[OF triple_failed[OF sticks_create]]) simp
    then show ?thesis by (rule triple_pre) (use False in simp)
  qed
  show ?case using triple_bind[OF 1 2] by simp
qed

lemma members_plan: "list_get ''members'' (group_json g) = retE (map JStr (gp_members g))"
  by (simp add: list_get_def group_json_def get_key_def as_list_def)

lemma triple_nest:
  assumes "samba_groups P view" and "gp_name g \<in> set live"
  shows "triple (holds view v) (nest_members P False live (group_json g))
    (\<lambda>_. holds view (merge_all v (map (\<lambda>m. (gp_name g, {m})) (gp_members g)))) anything"
proof -
  have "nest_members P False live (group_json g) = forE (gp_members g) (add_member P False (gp_name g))"
    using assms(2) by (simp add: nest_members_def name_plan members_plan forE_members)
  moreover have "triple (holds view v) (forE (gp_members g) (add_member P False (gp_name g)))
      (\<lambda>_. holds view (foldl (\<lambda>v m. put_members v (gp_name g, {m})) v (gp_members g))) anything"
  proof (rule triple_forE_fold[where C = "\<lambda>_. True" and I = "holds view" and g = "\<lambda>v m. put_members v (gp_name g, {m})"])
    show "triple (holds view u) (add_member P False (gp_name g) m) (\<lambda>_. holds view (put_members u (gp_name g, {m}))) anything"
      for u m
      by (simp only: holds_fun[of _ "put_members u (gp_name g, {m})"]) (rule triple_sticky[OF sticks_add_member triple_add_member[OF assms(1)]])
  qed simp_all
  moreover have "foldl (\<lambda>v m. put_members v (gp_name g, {m})) v ms = merge_all v (map (\<lambda>m. (gp_name g, {m})) ms)" for ms
    by (induction ms arbitrary: v) simp_all
  ultimately show ?thesis by simp
qed

lemma triple_nestings:
  assumes "samba_groups P view" and "gp_name ` set gs \<subseteq> set live"
  shows "triple (holds view v) (forE (map group_json gs) (nest_members P False live))
    (\<lambda>_. holds view (merge_all v (nestings gs))) anything"
  using assms(2)
proof (induction gs arbitrary: v)
  case (Cons g gs)
  have "triple (holds view v) (nest_members P False live (group_json g))
    (\<lambda>_. holds view (merge_all v (map (\<lambda>m. (gp_name g, {m})) (gp_members g)))) anything"
    by (rule triple_nest[OF assms(1)]) (use Cons.prems in simp)
  from triple_bind[OF this Cons.IH] Cons.prems show ?case by (simp add: nestings_def)
qed (simp add: nestings_def triple_ret)

lemma sticks_nest: "keeps sticky (forE gs (nest_members P check live))"
  unfolding nest_members_def by (intro sticks_rules sticks_add_member)

lemma silent_end:
  "triple (holds view v) (report_extras live names) (\<lambda>_. holds view v) anything"
  "triple (holds view v) finish (\<lambda>_. holds view v) anything"
  by (auto simp: triple_def report_extras_def finish_def rep_ok_def say_def eff_defs Let_def holds_def
      split: if_splits)

lemma triple_cmd_groups:
  assumes "samba_groups P view"
  shows "triple (holds view v) (cmd_groups P (groups_plan container gs) False)
    (\<lambda>_. holds view (merged v (planned gs))) anything"
proof -
  let ?gs = "planned gs"
  let ?w = "merge_all v (creations ?gs)"
  define tail where "tail = (\<lambda>live :: string list. bindE (forE (map group_json ?gs) (nest_members P False live)) (\<lambda>_.
     bindE (report_extras live (map gp_name ?gs)) (\<lambda>_. finish)))"
  have tail: "triple (\<lambda>s. failed s \<or> view (shw s) = ?w \<and> set live = dom ?w) (tail live)
      (\<lambda>_. holds view (merged v ?gs)) anything" for live
  proof (cases "set live = dom ?w")
    case True
    have "gp_name ` set ?gs \<subseteq> dom ?w" by (force simp: dom_def merge_all_eq creations_def)
    then have n: "triple (holds view ?w) (forE (map group_json ?gs) (nest_members P False live))
        (\<lambda>_. holds view (merge_all ?w (nestings ?gs))) anything"
      by (intro triple_nestings[OF assms]) (use True in simp)
    have "merge_all ?w (nestings ?gs) = merged v ?gs" using merged_eq[of v ?gs] by simp
    then have "triple (holds view ?w) (tail live) (\<lambda>_. holds view (merged v ?gs)) anything"
      unfolding tail_def using n by (auto intro!: triple_bind[OF n] triple_bind[OF silent_end(1)] silent_end(2))
    then show ?thesis by (rule triple_pre) (auto simp: holds_def)
  next
    case False
    have k: "keeps sticky (tail live)"
      unfolding tail_def report_extras_def Let_def by (intro sticks_rules sticks_nest)
    have "triple (\<lambda>s. failed s) (tail live) (\<lambda>_. holds view (merged v ?gs)) anything"
      by (rule triple_weaken[OF triple_failed[OF k]]) (simp add: holds_def)
    then show ?thesis by (rule triple_pre) (use False in simp)
  qed
  have l: "triple (holds view v) (exec P [''group'', ''list''])
      (\<lambda>x s. failed s \<or> view (shw s) = v \<and> (fst x = 0 \<longrightarrow> set (parse_name_list (fst (snd x))) = dom v)) anything"
    by (rule triple_sticky[OF sticks_basic(1)], rule triple_weaken[OF triple_exec[where Q = "\<lambda>x u. u = v \<and> (fst x = 0 \<longrightarrow> set (parse_name_list (fst (snd x))) = dom v)"]])
      (use samba_groupsD(1)[OF assms] in auto)
  have rest: "triple (\<lambda>s. failed s \<or> view (shw s) = v \<and> (rc = 0 \<longrightarrow> set (parse_name_list out) = dom v))
      (if rc \<noteq> 0 then rep_fail (''group list failed: '' @ complaint err out)
       else bindE (foldE (create_group P container False) (parse_name_list out) (map group_json ?gs)) tail)
      (\<lambda>_. holds view (merged v ?gs)) anything" for rc out err
  proof (intro triple_if)
    show "triple (\<lambda>s. failed s \<or> view (shw s) = v \<and> (rc = 0 \<longrightarrow> set (parse_name_list out) = dom v))
       (rep_fail (''group list failed: '' @ complaint err out)) (\<lambda>_. holds view (merged v ?gs)) anything"
      by (rule triple_weaken[OF triple_reports(1)]) (simp add: holds_def)
    let ?f = "foldE (create_group P container False) (parse_name_list out) (map group_json ?gs)"
    assume rc: "\<not> rc \<noteq> 0"
    show "triple (\<lambda>s. failed s \<or> view (shw s) = v \<and> (rc = 0 \<longrightarrow> set (parse_name_list out) = dom v))
       (bindE ?f tail) (\<lambda>_. holds view (merged v ?gs)) anything"
    proof (cases "set (parse_name_list out) = dom v")
      case True
      show ?thesis
        by (rule triple_pre[OF triple_bind[OF triple_creations[OF assms True] tail]]) (auto simp: holds_def)
    next
      case False
      have k: "keeps sticky (bindE ?f tail)"
        unfolding tail_def report_extras_def Let_def by (intro sticks_rules sticks_create_group sticks_nest)
      have "triple (\<lambda>s. failed s) (bindE ?f tail) (\<lambda>_. holds view (merged v ?gs)) anything"
        by (rule triple_weaken[OF triple_failed[OF k]]) (simp add: holds_def)
      then show ?thesis by (rule triple_pre) (use False rc in simp)
    qed
  qed
  have "cmd_groups P (groups_plan container gs) False = bindE (exec P [''group'', ''list'']) (\<lambda>(rc, out, err).
       if rc \<noteq> 0 then rep_fail (''group list failed: '' @ complaint err out)
       else bindE (foldE (create_group P container False) (parse_name_list out) (map group_json ?gs)) tail)"
    unfolding cmd_groups_def tail_def by (simp only: container_plan desired_groups_plan bind_retE names_plan)
  then show ?thesis
    apply (simp only:)
    apply (rule triple_bind[OF l])
    subgoal for x using rest by (cases x) (simp only: prod.case fst_conv snd_conv)
    done
qed

section \<open>A settled plan changes nothing\<close>

definition unchanged :: "('w \<Rightarrow> groups) \<Rightarrow> groups \<Rightarrow> 'w ad \<Rightarrow> 'w ad \<Rightarrow> bool" where
  "unchanged view v s t \<longleftrightarrow> view (shw t) = v \<and> ran_only inspects s t"

lemma ran_only_snoc:
  assumes "ran_only A s t" and "A argv"
  shows "ran_only A s (t\<lparr>shw := w, ran := ran t @ [argv]\<rparr>)"
proof -
  obtain cs where "ran t = ran s @ cs" "list_all A cs" using assms(1) by (auto simp: ran_only_def)
  then show ?thesis using assms(2) unfolding ran_only_def by (intro exI[of _ "cs @ [argv]"]) simp
qed

lemma triple_inspect:
  assumes "inspects argv" and "\<And>w x w'. view w = v \<Longrightarrow> P argv w = (x, w') \<Longrightarrow> view w' = v \<and> (\<forall>y. x = Ok y \<longrightarrow> Q y)"
  shows "triple (unchanged view v s0) (exec P argv) (\<lambda>x s. Q x \<and> unchanged view v s0 s) (unchanged view v s0)"
  unfolding triple_def
proof (intro allI impI)
  fix s x t assume s: "unchanged view v s0 s" and e: "exec P argv s = (x, t)"
  obtain w where w: "P argv (shw s) = (x, w)" "t = s\<lparr>shw := w, ran := ran s @ [argv]\<rparr>"
    using e by (auto simp: exec_def split: prod.splits)
  have "view w = v \<and> (\<forall>y. x = Ok y \<longrightarrow> Q y)"
    by (rule assms(2)[OF _ w(1)]) (use s in \<open>simp add: unchanged_def\<close>)
  moreover have "ran_only inspects s0 t" unfolding w(2) by (rule ran_only_snoc) (use s assms(1) in \<open>auto simp: unchanged_def\<close>)
  ultimately show "case x of Ok y \<Rightarrow> Q y \<and> unchanged view v s0 t | _ \<Rightarrow> unchanged view v s0 t"
    using w(2) by (auto simp: unchanged_def split: res.split)
qed

lemma triple_quiet:
  "triple (unchanged view v s0) (rep_fail m) (\<lambda>_. unchanged view v s0) (unchanged view v s0)"
  "triple (unchanged view v s0) (rep_would m) (\<lambda>_. unchanged view v s0) (unchanged view v s0)"
  "triple (unchanged view v s0) (report_extras live names) (\<lambda>_. unchanged view v s0) (unchanged view v s0)"
  "triple (unchanged view v s0) finish (\<lambda>_. unchanged view v s0) (unchanged view v s0)"
  by (auto simp: triple_def rep_fail_def rep_would_def report_extras_def finish_def rep_ok_def say_def eff_defs Let_def
      unchanged_def ran_only_def split: if_splits)

lemma samba_reads:
  assumes "samba_groups P view"
  shows "P [''group'', ''list''] w = (x, w') \<Longrightarrow> view w' = view w"
    and "P [''group'', ''listmembers'', g] w = (x, w') \<Longrightarrow> view w' = view w"
proof -
  have bad: "view w' = view w" if "P c w = (x, w')" "\<forall>out err. x \<noteq> Ok (0, out, err)" for c
    using assms that unfolding samba_groups_def by blast
  show "view w' = view w" if "P [''group'', ''list''] w = (x, w')"
    using bad[OF that] samba_groupsD(1)[OF assms] that by blast
  show "view w' = view w" if "P [''group'', ''listmembers'', g] w = (x, w')"
    using bad[OF that] samba_groupsD(2)[OF assms] that by blast
qed

lemma triple_settled_member:
  assumes "samba_groups P view" and "v parent = Some M" and "member \<in> M"
  shows "triple (unchanged view v s0) (add_member P check parent member) (\<lambda>_. unchanged view v s0) (unchanged view v s0)"
proof -
  have l: "triple (unchanged view v s0) (exec P [''group'', ''listmembers'', parent])
      (\<lambda>x s. (fst x = 0 \<longrightarrow> member \<in> set (parse_name_list (fst (snd x)))) \<and> unchanged view v s0 s) (unchanged view v s0)"
  proof (rule triple_inspect)
    show "inspects [''group'', ''listmembers'', parent]" by (simp add: inspects_def)
    fix w x w' assume w: "view w = v" "P [''group'', ''listmembers'', parent] w = (x, w')"
    show "view w' = v \<and> (\<forall>y. x = Ok y \<longrightarrow> fst y = 0 \<longrightarrow> member \<in> set (parse_name_list (fst (snd y))))"
      using samba_reads(2)[OF assms(1) w(2)] samba_groupsD(2)[OF assms(1)] w assms(2,3) by force
  qed
  show ?thesis
    unfolding add_member_def
    by (rule triple_bind[OF l]) (auto intro!: triple_if triple_fact triple_quiet triple_ret split: prod.split)
qed

lemma triple_settled_groups:
  assumes "samba_groups P view" and "merged v (planned gs) = v"
  shows "triple (unchanged view v s0) (cmd_groups P (groups_plan container gs) check)
    (\<lambda>_. unchanged view v s0) (unchanged view v s0)"
proof -
  let ?gs = "planned gs" and ?I = "unchanged view v s0"
  have there: "\<exists>M. v (gp_name g) = Some M \<and> set (gp_members g) \<subseteq> M" if "g \<in> set ?gs" for g
    using fun_cong[OF assms(2), of "gp_name g"] that unfolding merged_def
    by (auto split: if_splits option.splits)
  have create: "foldE (create_group P container check) live (map group_json hs) = retE live"
    if "gp_name ` set hs \<subseteq> set live" for hs live
    using that by (induction hs) (simp_all add: create_group_def name_plan)
  have nest: "triple ?I (nest_members P check live (group_json g)) (\<lambda>_. ?I) ?I"
    if g: "g \<in> set ?gs" and live: "set live = dom v" for g live
  proof -
    obtain M where M: "v (gp_name g) = Some M" "set (gp_members g) \<subseteq> M" using there[OF g] by blast
    then have "nest_members P check live (group_json g) = forE (gp_members g) (add_member P check (gp_name g))"
      using live by (simp add: nest_members_def name_plan members_plan forE_members dom_def)
    moreover have "triple ?I (forE (gp_members g) (add_member P check (gp_name g))) (\<lambda>_. ?I) ?I"
      by (rule triple_forE[OF triple_settled_member[where M = M]]) (use M assms(1) in auto)
    ultimately show ?thesis by simp
  qed
  have l: "triple ?I (exec P [''group'', ''list''])
      (\<lambda>x s. (fst x = 0 \<longrightarrow> set (parse_name_list (fst (snd x))) = dom v) \<and> ?I s) ?I"
  proof (rule triple_inspect)
    show "inspects [''group'', ''list'']" by (simp add: inspects_def)
    fix w x w' assume w: "view w = v" "P [''group'', ''list''] w = (x, w')"
    show "view w' = v \<and> (\<forall>y. x = Ok y \<longrightarrow> fst y = 0 \<longrightarrow> set (parse_name_list (fst (snd y))) = dom v)"
      using samba_reads(1)[OF assms(1) w(2)] samba_groupsD(1)[OF assms(1)] w by force
  qed
  have tail: "triple ?I (bindE (foldE (create_group P container check) live (map group_json ?gs)) (\<lambda>live.
         bindE (forE (map group_json ?gs) (nest_members P check live)) (\<lambda>_.
         bindE (report_extras live names) (\<lambda>_. finish)))) (\<lambda>_. ?I) ?I" if live: "set live = dom v" for live names
  proof -
    have "gp_name g \<in> set live" if "g \<in> set ?gs" for g using there[OF that] live by auto
    then have "gp_name ` set ?gs \<subseteq> set live" by blast
    moreover have "triple ?I (forE (map group_json ?gs) (nest_members P check live)) (\<lambda>_. ?I) ?I"
      by (rule triple_forE) (use nest live in auto)
    ultimately show ?thesis
      by (simp only: create bind_retE) (rule triple_bind, assumption, rule triple_bind, (rule triple_quiet)+)
  qed
  show ?thesis
    unfolding cmd_groups_def container_plan desired_groups_plan bind_retE names_plan
    apply (rule triple_bind[OF l])
    subgoal for x
      using tail by (cases x) (auto intro!: triple_if triple_fact triple_quiet)
    done
qed

section \<open>The exit code\<close>

lemma ad_main_groups:
  assumes "samba_groups P view" and "ad_main P (Ok (groups_plan container gs)) Groups False s = (Ok 0, t)"
  shows "view (shw t) = merged (view (shw s)) (planned gs)"
proof -
  let ?s = "s\<lparr>changed := False, failed := False\<rparr>"
  obtain x where x: "cmd_groups P (groups_plan container gs) False ?s = (Ok x, t)" "\<not> failed t"
    using assms(2) by (auto simp: ad_main_def handler_def bindE_Ok_iff modE_def liftE_def getE_def split: if_splits)
  have "holds view (merged (view (shw s)) (planned gs)) t"
    by (rule tripleD[OF triple_cmd_groups[OF assms(1)] _ x(1)]) (simp add: holds_def)
  with x(2) show ?thesis by (simp add: holds_def)
qed

lemma ad_main_settled:
  assumes "samba_groups P view" and "merged (view (shw s)) (planned gs) = view (shw s)"
  shows "view (shw (snd (ad_main P (Ok (groups_plan container gs)) Groups check s))) = view (shw s) \<and>
    ran_only inspects s (snd (ad_main P (Ok (groups_plan container gs)) Groups check s))"
proof -
  let ?s = "s\<lparr>changed := False, failed := False\<rparr>" and ?v = "view (shw s)"
  have "triple (unchanged view ?v ?s) (bindE (cmd_groups P (groups_plan container gs) check)
      (\<lambda>_. getE (\<lambda>s. if failed s then 2 else (0 :: int)))) (\<lambda>_. unchanged view ?v ?s) (unchanged view ?v ?s)"
    by (rule triple_bind[OF triple_settled_groups[OF assms]]) (simp add: triple_get)
  from triple_snd[OF this, of ?s]
  have "unchanged view ?v ?s (snd (bindE (cmd_groups P (groups_plan container gs) check)
      (\<lambda>_. getE (\<lambda>s. if failed s then 2 else (0 :: int))) ?s))"
    by (simp add: unchanged_def runs.frame_refl)
  moreover have "ad_main P (Ok (groups_plan container gs)) Groups check s =
      bindE (cmd_groups P (groups_plan container gs) check) (\<lambda>_. getE (\<lambda>s. if failed s then 2 else (0 :: int))) ?s"
    by (simp add: ad_main_def handler_def bindE_def[of "modE _"] bindE_def[of "liftE _"] modE_def liftE_def)
  ultimately show ?thesis by (simp add: unchanged_def ran_only_def)
qed

section \<open>Plans of the documented shape\<close>

definition is_str :: "json \<Rightarrow> bool" where
  "is_str j = (case j of JStr _ \<Rightarrow> True | _ \<Rightarrow> False)"

definition is_strs :: "json \<Rightarrow> bool" where
  "is_strs j = (case j of JArr xs \<Rightarrow> list_all is_str xs | _ \<Rightarrow> False)"

definition is_list_of :: "(json \<Rightarrow> bool) \<Rightarrow> json \<Rightarrow> bool" where
  "is_list_of p j = (case j of JArr xs \<Rightarrow> list_all p xs | _ \<Rightarrow> False)"

text \<open>An object with a field, or with a field that may be missing.\<close>

definition has_field :: "string \<Rightarrow> (json \<Rightarrow> bool) \<Rightarrow> json \<Rightarrow> bool" where
  "has_field k p j = (case j of JObj d \<Rightarrow> (case dict_get d k of None \<Rightarrow> False | Some v \<Rightarrow> p v) | _ \<Rightarrow> False)"

definition may_field :: "string \<Rightarrow> (json \<Rightarrow> bool) \<Rightarrow> json \<Rightarrow> bool" where
  "may_field k p j = (case j of JObj d \<Rightarrow> pred_option p (dict_get d k) | _ \<Rightarrow> False)"

definition group_shape :: "json \<Rightarrow> bool" where
  "group_shape g \<longleftrightarrow> has_field ''name'' is_str g \<and> may_field ''description'' (\<lambda>v. truthy v \<longrightarrow> is_str v) g \<and>
     may_field ''members'' is_strs g"

definition account_shape :: "json \<Rightarrow> bool" where
  "account_shape a \<longleftrightarrow> has_field ''name'' is_str a \<and> may_field ''member_of'' is_strs a"

definition ace_shape :: "json \<Rightarrow> bool" where
  "ace_shape a \<longleftrightarrow> has_field ''objectdn'' is_str a \<and> has_field ''trustee'' is_str a \<and> has_field ''right'' is_str a \<and>
     may_field ''inherit'' is_str a"

definition policy_shape :: "string \<times> json \<Rightarrow> bool" where
  "policy_shape kv = (case snd kv of JNum _ \<Rightarrow> True | JBool _ \<Rightarrow> True | JStr _ \<Rightarrow> True | _ \<Rightarrow> False)"

definition plan_shape :: "concern \<Rightarrow> json \<Rightarrow> bool" where
  "plan_shape c plan =
     (case c of
        Groups \<Rightarrow> may_field ''container'' (\<lambda>v. v = JNull \<or> is_str v) plan \<and>
          may_field ''groups'' (is_list_of group_shape) plan
      | ServiceAccounts \<Rightarrow> may_field ''accounts'' (is_list_of account_shape) plan
      | Acls \<Rightarrow> may_field ''acls'' (is_list_of ace_shape) plan
      | PasswordPolicy \<Rightarrow> (case plan of JObj d \<Rightarrow> list_all policy_shape d | _ \<Rightarrow> False))"

lemma shaped_reads:
  "has_field k is_str j \<Longrightarrow> ends E (str_field k j)"
  "may_field k is_str j \<Longrightarrow> ends E (str_get k j t)"
  "may_field k p j \<Longrightarrow> ends E (get_key k j)"
  "may_field k (\<lambda>v. truthy v \<longrightarrow> is_str v) j \<Longrightarrow> ends E (bindE (get_or k j (JStr [])) as_str)"
  "may_field k (is_list_of p) j \<Longrightarrow> ends E (list_get k j)"
  "may_field k is_strs j \<Longrightarrow> ends E (list_get k j)"
  unfolding has_field_def may_field_def is_list_of_def is_strs_def
  by (auto simp: str_field_def str_get_def get_or_def list_get_def get_key_def field_def as_str_def as_list_def is_str_def
      simp del: dict_get_eq_None split: json.splits option.splits intro!: ends_intros)

lemma shaped_elements:
  "may_field k (is_list_of p) j \<Longrightarrow> yields (list_get k j) (list_all p)"
  "may_field k is_strs j \<Longrightarrow> yields (list_get k j) (list_all is_str)"
  unfolding may_field_def is_list_of_def is_strs_def
  by (auto simp: yields_def list_get_def get_key_def as_list_def raiseE_def split: json.splits option.splits)

lemma ends_report:
  "ends E (say m)" "ends E (rep_ok m)" "ends E (rep_would m)" "ends E (rep_changed m)" "ends E (rep_fail m)" "ends E finish"
  "ends E (report_extras live names)"
  unfolding say_def rep_ok_def rep_would_def rep_changed_def rep_fail_def finish_def report_extras_def Let_def
  by (auto intro!: ends_intros)

text \<open>samba-tool itself raises only exceptions in \<open>E\<close>.\<close>

definition tool_ends :: "(exc \<Rightarrow> bool) \<Rightarrow> 'w shell \<Rightarrow> bool" where
  "tool_ends E P \<longleftrightarrow> (\<forall>argv w. case fst (P argv w) of Ok _ \<Rightarrow> True | Exc e \<Rightarrow> E e | Halt \<Rightarrow> False)"

lemma tool_ends_mono: "tool_ends E P \<Longrightarrow> (\<And>e. E e \<Longrightarrow> F e) \<Longrightarrow> tool_ends F P"
  unfolding tool_ends_def by (auto split: res.splits)

lemma ends_exec: "tool_ends E P \<Longrightarrow> ends E (exec P argv)"
  unfolding ends_def
proof
  fix s :: "('a, 'b) sh_scheme"
  assume "tool_ends E P"
  then show "case fst (exec P argv s) of Ok _ \<Rightarrow> True | Exc e \<Rightarrow> E e | Halt \<Rightarrow> False"
    unfolding tool_ends_def exec_def by (cases "P argv (shw s)") (auto dest!: spec[of _ argv] spec[of _ "shw s"])
qed

lemmas ends_tool = ends_exec ends_report ends_intros shaped_reads

lemma ends_add_member: "tool_ends E P \<Longrightarrow> ends E (add_member P check parent member)"
  unfolding add_member_def by (auto intro!: ends_tool split: prod.split)

lemma ends_forE_strs:
  assumes "\<And>x. ends E (f x)" and "list_all is_str xs"
  shows "ends E (forE xs (\<lambda>m. bindE (as_str m) f))"
  by (rule ends_loops(1)) (use assms in \<open>auto simp: list_all_iff is_str_def as_str_def split: json.splits\<close>)

lemma ends_cmd_groups:
  assumes "tool_ends E P" and "plan_shape Groups plan"
  shows "ends E (cmd_groups P plan check)"
proof -
  have con: "ends E (container_of plan)"
    using assms(2) unfolding plan_shape_def may_field_def container_of_def get_key_def
    by (auto simp: is_str_def as_str_def simp del: dict_get_eq_None split: json.splits option.splits intro!: ends_intros)
  have g: "ends E (list_get ''groups'' plan)" and y: "yields (list_get ''groups'' plan) (list_all group_shape)"
    using assms(2) by (auto simp: plan_shape_def intro: shaped_reads(5) shaped_elements(1))
  have f: "ends E (filterE not_skipped gs :: ('t, json list) eff) \<and>
      yields (filterE not_skipped gs :: ('t, json list) eff) (list_all group_shape)"
    if "list_all group_shape gs" for gs
    using that
  proof (induction gs)
    case (Cons g gs)
    then have "ends E (not_skipped g :: ('t, bool) eff)"
      by (auto simp: group_shape_def may_field_def not_skipped_def get_key_def split: json.splits intro!: ends_intros)
    moreover have "ends E (filterE not_skipped gs :: ('t, json list) eff)"
      and y: "yields (filterE not_skipped gs :: ('t, json list) eff) (list_all group_shape)"
      using Cons by auto
    ultimately show ?case using Cons.prems by (auto intro!: ends_intros yields_bind yields_bindP[OF y] yields_ret)
  qed (simp add: ends_intros yields_ret)
  have d: "ends E (desired_groups plan)"
    unfolding desired_groups_def using f by (auto intro!: ends_bindP[OF g y])
  have dy: "yields (desired_groups plan) (list_all group_shape)"
    unfolding desired_groups_def using f by (auto intro!: yields_bindP[OF y])
  have n: "ends E (mapE (str_field ''name'') gs)" if "list_all group_shape gs" for gs
    by (rule ends_loops(2)) (use that in \<open>auto simp: list_all_iff group_shape_def intro: shaped_reads\<close>)
  have c: "ends E (create_group P con check live x)" if "group_shape x" for con live x
  proof -
    have "create_group P con check live x = bindE (str_field ''name'' x) (\<lambda>name.
       if List.member live name then retE live
       else bindE (bindE (get_or ''description'' x (JStr [])) as_str) (\<lambda>descr.
         let extra = (if descr = [] then [] else [''--description='' @ descr]) @
               (if con \<noteq> [] \<and> \<not> startswith (upper con) ''CN=USERS,'' then [''--groupou='' @ con] else []) in
         if check then bindE (rep_would (''create group '' @ sq name)) (\<lambda>_. retE live)
         else bindE (exec P ([''group'', ''add'', name] @ extra)) (\<lambda>(rc, out, err).
             if rc \<noteq> 0
             then bindE (rep_fail (''create group '' @ sq name @ '': '' @ complaint err out)) (\<lambda>_. retE live)
             else bindE (rep_changed (''created group '' @ sq name)) (\<lambda>_. retE (live @ [name])))))"
      unfolding create_group_def bindE_assoc ..
    moreover have "ends E \<dots>"
      using that assms(1) unfolding group_shape_def Let_def
      by (auto intro!: ends_bind[OF shaped_reads(1)] ends_bind[OF shaped_reads(4)] ends_if ends_bind[OF ends_exec]
          ends_bind[OF ends_report(3)] ends_bind[OF ends_report(4)] ends_bind[OF ends_report(5)] ends_basic split: prod.split)
    ultimately show ?thesis by simp
  qed
  have cs: "ends E (foldE (create_group P con check) live gs)" if "list_all group_shape gs" for con live gs
    by (rule ends_foldE) (use that c in \<open>auto simp: list_all_iff\<close>)
  have m: "ends E (nest_members P check live x)" if "group_shape x" for live x
    using that unfolding nest_members_def group_shape_def
    by (auto intro!: ends_bind[OF shaped_reads(1)] ends_bindP[OF shaped_reads(6) shaped_elements(2)] ends_forE_strs
        ends_if ends_report ends_add_member assms(1))
  have ms: "ends E (forE gs (nest_members P check live))" if "list_all group_shape gs" for gs live
    by (rule ends_loops(1)) (use that m in \<open>auto simp: list_all_iff\<close>)
  show ?thesis
    unfolding cmd_groups_def
    by (rule ends_bind[OF con], rule ends_bindP[OF d dy], rule ends_bind[OF ends_exec[OF assms(1)]])
      (auto intro!: ends_if ends_report ends_bind[OF n] ends_bind[OF cs] ends_bind[OF ms] ends_bind[OF ends_report(7)] split: prod.split)
qed

lemma ends_cmd_service_accounts:
  assumes "tool_ends E P" and "plan_shape ServiceAccounts plan"
  shows "ends E (cmd_service_accounts P plan check)"
proof -
  have g: "ends E (list_get ''accounts'' plan)" and y: "yields (list_get ''accounts'' plan) (list_all account_shape)"
    using assms(2) by (auto simp: plan_shape_def intro: shaped_reads(5) shaped_elements(1))
  have p: "ends E (place_account P check live x)" if "account_shape x" for live x
    using that unfolding place_account_def account_shape_def
    by (auto intro!: ends_bind[OF shaped_reads(1)] ends_bindP[OF shaped_reads(6) shaped_elements(2)] ends_forE_strs
        ends_if ends_report ends_add_member assms(1))
  have "ends E (forE xs (place_account P check live))" if "list_all account_shape xs" for xs live
    by (rule ends_loops(1)) (use that p in \<open>auto simp: list_all_iff\<close>)
  then show ?thesis
    unfolding cmd_service_accounts_def
    by (auto intro!: ends_bind[OF ends_exec[OF assms(1)]] ends_if ends_report ends_bindP[OF g y] ends_bind split: prod.split)
qed

lemma ends_cmd_acls:
  assumes "tool_ends E P" and "plan_shape Acls plan"
  shows "ends E (cmd_acls P plan check)"
proof -
  have g: "ends E (list_get ''acls'' plan)" and y: "yields (list_get ''acls'' plan) (list_all ace_shape)"
    using assms(2) by (auto simp: plan_shape_def intro: shaped_reads(5) shaped_elements(1))
  have r: "ends E (resolve_as P name ks)" for name ks
  proof (induction ks)
    case (Cons k ks)
    have "ends E (case sid_line out of None \<Rightarrow> resolve_as P name ks | Some sid \<Rightarrow> retE (Some sid))" for out
      using Cons by (auto intro: ends_basic split: option.split)
    with Cons show ?case by (auto intro!: ends_bind[OF ends_exec[OF assms(1)]] ends_if split: prod.split)
  qed (simp add: ends_basic)
  have b: "ends E (build_ace i gd x)" if "dict_get INHERIT_FLAGS i = Some f" for i gd x f
    using that by (simp add: build_ace_def ends_basic)
  have gr: "ends E (grant_right P check dn tr ri inh gd sid)" if "dict_get INHERIT_FLAGS inh = Some f" for dn tr ri inh gd sid f
    unfolding grant_right_def
    by (auto intro!: ends_bind[OF ends_exec[OF assms(1)]] ends_bind[OF b[OF that]] ends_if ends_report ends_basic split: prod.split)
  have a: "ends E (apply_ace P check x)" if "ace_shape x" for x
    using that unfolding apply_ace_def ace_shape_def resolve_sid_def
    by (auto intro!: ends_bind[OF shaped_reads(1)] ends_bind[OF shaped_reads(2)] ends_bind[OF r] ends_if ends_option ends_report gr)
  have "ends E (forE xs (apply_ace P check))" if "list_all ace_shape xs" for xs
    by (rule ends_loops(1)) (use that a in \<open>auto simp: list_all_iff\<close>)
  then show ?thesis
    unfolding cmd_acls_def by (auto intro!: ends_bindP[OF g y] ends_bind ends_report)
qed

lemma cast_shape: "policy_shape (k, j) \<Longrightarrow> ends (\<lambda>e. e = ValueError) (cast_value c j)"
  by (auto simp: policy_shape_def cast_value_def split: caster.split json.splits option.split intro!: ends_intros)

lemma ends_cmd_password_policy:
  assumes "tool_ends E P" and "plan_shape PasswordPolicy plan"
  shows "ends (\<lambda>e. E e \<or> e = ValueError) (cmd_password_policy P plan check)"
proof -
  let ?E = "\<lambda>e. E e \<or> e = ValueError"
  obtain items where plan: "plan = JObj items" "list_all policy_shape items"
    using assms(2) by (auto simp: plan_shape_def split: json.splits)
  let ?desired = "filter (\<lambda>kv. dict_get PWD_SETTINGS (fst kv) \<noteq> None) items"
  have P: "tool_ends ?E P" using assms(1) by (rule tool_ends_mono) simp
  have c: "ends ?E (cast_value x j)" if "policy_shape (k, j)" for x k j
    by (rule ends_mono[OF cast_shape[OF that]]) simp
  have s: "ends ?E (parse_pwd_settings out)" for out
    unfolding parse_pwd_settings_def add_setting_def
    by (auto intro!: ends_intros split: prod.split option.split)
  have d: "ends ?E (foldE (diff_setting live) ds kvs :: ('t, pwd_diff list) eff)" if "list_all policy_shape kvs" for live ds kvs
    using that
  proof (induction kvs arbitrary: ds)
    case (Cons kv kvs)
    obtain k j where kv: "kv = (k, j)" by (cases kv)
    have "ends ?E (diff_setting live ds kv :: ('t, pwd_diff list) eff)"
      using Cons.prems unfolding diff_setting_def Let_def kv
      by (auto intro!: ends_bind[OF c] ends_basic split: option.split)
    then show ?case unfolding foldE.simps by (rule ends_bind) (use Cons in simp)
  qed (simp add: ends_basic)
  have y: "yields (foldE (diff_setting live) ds kvs :: ('t, pwd_diff list) eff) (list_all (\<lambda>x. fst x \<in> K))"
    if "fst ` set kvs \<subseteq> K" "list_all (\<lambda>x. fst x \<in> K) ds" for live ds kvs K
    using that
  proof (induction kvs arbitrary: ds)
    case (Cons kv kvs)
    have "yields (diff_setting live ds kv :: ('t, pwd_diff list) eff) (list_all (\<lambda>x. fst x \<in> K))"
      using Cons.prems unfolding diff_setting_def Let_def
      by (auto intro!: yields_intros split: option.split)
    then show ?case unfolding foldE.simps by (rule yields_bindP) (use Cons in simp)
  qed (simp add: yields_ret)
  let ?K = "fst ` set ?desired"
  have f: "ends ?E (set_flag ?desired x)" if "fst x \<in> ?K" for x
  proof -
    from that obtain kv where "fst x = fst kv" "kv \<in> set ?desired" by (rule imageE)
    then have "dict_get PWD_SETTINGS (fst x) \<noteq> None" by simp
    then obtain st where st: "dict_get PWD_SETTINGS (fst x) = Some st" by blast
    have "fst x \<in> set (dict_keys ?desired)" using that by (simp add: dict_keys_def)
    then obtain want where want: "dict_get ?desired (fst x) = Some want" unfolding dict_mem_iff by blast
    have "(fst x, want) \<in> set items" using dict_get_SomeD[OF want] by simp
    then have "policy_shape (fst x, want)" using plan(2) by (auto simp: list_all_iff)
    then show ?thesis unfolding set_flag_def st want by (auto intro!: ends_bind[OF c] ends_basic)
  qed
  have fs: "ends ?E (pwd_set_flags ds ?desired)" if "list_all (\<lambda>x. fst x \<in> ?K) ds" for ds
    unfolding pwd_set_flags_def by (rule ends_loops(2), rule f) (use that in \<open>simp only: list_all_iff\<close>)
  have dd: "ends ?E (pwd_policy_diff ?desired live)" and dy: "yields (pwd_policy_diff ?desired live) (list_all (\<lambda>x. fst x \<in> ?K))"
    for live
    unfolding pwd_policy_diff_def by (rule d, use plan(2) in \<open>simp add: list_all_iff\<close>) (rule y; simp)
  show ?thesis
    unfolding cmd_password_policy_def plan plan_items_def json.case bind_retE Let_def
    by (auto intro!: ends_bind[OF ends_exec[OF P]] ends_if ends_report ends_bind[OF s] ends_bindP[OF dd dy] ends_bind[OF fs] split: prod.split)
qed

lemma ends_ad_main:
  assumes "tool_ends E P" and "plan_shape c plan"
  shows "ends (\<lambda>e. E e \<or> c = PasswordPolicy \<and> e = ValueError) (ad_main P (Ok plan) c check)"
proof -
  have "ends (\<lambda>e. E e \<or> c = PasswordPolicy \<and> e = ValueError) (handler c P plan check)"
    using assms ends_mono[OF ends_cmd_groups[OF assms(1)]] ends_mono[OF ends_cmd_service_accounts[OF assms(1)]]
      ends_mono[OF ends_cmd_acls[OF assms(1)]] ends_mono[OF ends_cmd_password_policy[OF assms(1)]]
    unfolding handler_def by (cases c) auto
  then show ?thesis
    unfolding ad_main_def by (auto intro!: ends_intros)
qed

section \<open>Rights that look granted\<close>

lemma contains_append: "contains (x @ p @ y) p"
  by (auto simp: contains_def)

lemma lower_append [simp]: "lower (x @ y) = lower x @ lower y"
  by (simp add: lower_def)

lemma ace_chunks_one:
  assumes "CHR ''('' \<notin> set b" and "CHR 0x0A \<notin> set b"
  shows "ace_chunks (CHR ''('' # b) = [[], CHR ''('' # b]"
proof -
  have "concat (map (\<lambda>c. if c = CHR ''('' then [CHR 0x0A, c] else [c]) b) = b"
    using assms(1) by (induction b) auto
  moreover have "split_on c x = [x]" if "c \<notin> set x" for x c using that by (induction x) auto
  ultimately show ?thesis using assms(2) by (simp add: ace_chunks_def)
qed

text \<open>An access-control entry for a longer identifier contains the identifier that is its prefix.\<close>

lemma ace_present_prefix:
  assumes "CHR ''('' \<notin> set (guid @ sid @ suff)" and "CHR 0x0A \<notin> set (guid @ sid @ suff)"
  shows "ace_present (''(OA;CI;CR;'' @ guid @ '';;'' @ sid @ suff @ '')'') guid sid"
proof -
  let ?b = "''OA;CI;CR;'' @ guid @ '';;'' @ sid @ suff @ '')''"
  have no: "CHR ''('' \<notin> set ?b" "CHR 0x0A \<notin> set ?b" using assms by auto
  have "ace_chunks (CHR ''('' # ?b) = [[], CHR ''('' # ?b]" by (rule ace_chunks_one[OF no])
  moreover have "lower (CHR ''('' # ?b) = lower ''(OA;CI;CR;'' @ lower guid @ lower ('';;'' @ sid @ suff @ '')'')"
    "lower (CHR ''('' # ?b) = lower (''(OA;CI;CR;'' @ guid @ '';;'') @ lower sid @ lower (suff @ '')'')"
    by (simp_all add: lower_def)
  then have "contains (lower (CHR ''('' # ?b)) (lower guid)" "contains (lower (CHR ''('' # ?b)) (lower sid)"
    by (metis contains_append)+
  moreover have "startswith (lower (CHR ''('' # ?b)) ''(''" by (simp add: lower_def lower_char_def Let_def startswith_def)
  ultimately show ?thesis by (simp add: ace_present_def)
qed

end
