(* ===== verification/Ad_Claims.thy ===== *)
theory Ad_Claims
  imports Ad_Correct
begin

text \<open>
  The properties of the directory applier, with a small directory at which each is applied: there is
  no group, then the group \<open>ops\<close>, then \<open>ops\<close> with the member \<open>alice\<close>.
\<close>

definition small_samba :: "nat shell" where
  "small_samba c w =
     (if c = [''group'', ''list''] then (Ok (0, if w = 0 then '''' else ''ops'', ''''), w)
      else if c = [''group'', ''listmembers'', ''ops''] \<and> w \<noteq> 0
      then (Ok (0, if w = 1 then '''' else ''alice'', ''''), w)
      else if take 3 c = [''group'', ''add'', ''ops''] \<and> w = 0 then (Ok (0, '''', ''''), 1)
      else if c = [''group'', ''addmembers'', ''ops'', ''alice''] \<and> w \<noteq> 0 then (Ok (0, '''', ''''), 2)
      else (Ok (1, '''', ''no''), w))"

definition small_view :: "nat \<Rightarrow> groups" where
  "small_view w = (if w = 0 then Map.empty else [''ops'' \<mapsto> if w = 1 then {} else {''alice''}])"

lemma small_names: "parse_name_list '''' = []" "parse_name_list ''ops'' = [''ops'']" "parse_name_list ''alice'' = [''alice'']"
  by code_simp+

lemma small_samba_groups: "samba_groups small_samba small_view"
  unfolding samba_groups_def small_samba_def small_view_def
  by (auto simp: small_names split: if_splits)

definition small_plan :: "group_plan list" where
  "small_plan = [\<lparr>gp_name = ''ops'', gp_description = ''on call'', gp_members = [''alice''], gp_skip = False\<rparr>]"

definition small_state :: "nat ad" where
  "small_state = \<lparr>shw = 0, ran = [], printed = [], changed = False, failed = False\<rparr>"

lemma small_run:
  "ad_main small_samba (Ok (groups_plan ''CN=Users,DC=krg,DC=local'' small_plan)) Groups False small_state =
     (Ok 0, snd (ad_main small_samba (Ok (groups_plan ''CN=Users,DC=krg,DC=local'' small_plan)) Groups False small_state))"
proof -
  have "fst (ad_main small_samba (Ok (groups_plan ''CN=Users,DC=krg,DC=local'' small_plan)) Groups False small_state) = Ok 0"
    by code_simp
  then show ?thesis by (metis prod.collapse)
qed

text \<open>
  C1. A run over a plan of groups that exits with 0 leaves the directory as the plan merged into it:
  every planned group exists, every listed member is in its group, and nothing else was added or
  removed, whatever the directory was before.
\<close>

theorem groups_are_merged:
  assumes "samba_groups P view" and "ad_main P (Ok (groups_plan container gs)) Groups False s = (Ok 0, t)"
  shows "view (shw t) = merged (view (shw s)) (planned gs)"
  using assms by (rule ad_main_groups)

theorem groups_are_merged_witness:
  "small_view (shw (snd (ad_main small_samba (Ok (groups_plan ''CN=Users,DC=krg,DC=local'' small_plan)) Groups False small_state)))
     ''ops'' = Some {''alice''}"
  unfolding groups_are_merged[OF small_samba_groups small_run]
  by (auto simp: merged_def small_plan_def planned_def small_view_def small_state_def)

text \<open>
  C2. A second run changes nothing: after a run that exits with 0, running the same plan again, with
  or without \<open>--check\<close>, only lists groups and members, and the directory stays as it is.
\<close>

theorem second_run_only_looks:
  assumes "samba_groups P view" and "ad_main P (Ok (groups_plan container gs)) Groups False s = (Ok 0, t)"
  shows "ran_only inspects t (snd (ad_main P (Ok (groups_plan container gs)) Groups check t)) \<and>
    view (shw (snd (ad_main P (Ok (groups_plan container gs)) Groups check t))) = view (shw t)"
proof -
  have "merged (view (shw t)) (planned gs) = view (shw t)"
    unfolding ad_main_groups[OF assms] by (rule merged_again)
  from ad_main_settled[where check = check, OF assms(1) this] show ?thesis by simp
qed

theorem second_run_only_looks_witness:
  "\<exists>t :: nat ad. shw t \<noteq> 0 \<and>
     ran_only inspects t (snd (ad_main small_samba (Ok (groups_plan ''CN=Users,DC=krg,DC=local'' small_plan)) Groups False t))"
proof -
  let ?t = "snd (ad_main small_samba (Ok (groups_plan ''CN=Users,DC=krg,DC=local'' small_plan)) Groups False small_state)"
  have "shw ?t = 2" by code_simp
  then show ?thesis
    using second_run_only_looks[OF small_samba_groups small_run, where check = False] by (intro exI[of _ ?t]) simp
qed

text \<open>
  C3. Nothing is ever removed, whatever the plan and whatever samba-tool answers: each command of a
  run lists something, adds a group, a member or a right, or sets password options; and with
  \<open>--check\<close> each one only lists.
\<close>

theorem never_removes:
  "ran_only (\<lambda>c. inspects c \<or> \<not> check \<and> adds c) s (snd (ad_main P plan concern check s))"
  using runs_ad_main[of check P plan concern] unfolding keeps_def allowed_def by simp

text \<open>
  C4. A plan of the documented shape never makes the program raise: a missing key, a value of the
  wrong type or an unknown setting is out of the question, and what remains are samba-tool's own
  exceptions and, for the password policy, a number that is not one.
\<close>

theorem shaped_plan_raises_nothing:
  assumes "plan_shape concern plan" and "tool_ends E P"
  shows "ends (\<lambda>e. E e \<or> concern = PasswordPolicy \<and> e = ValueError) (ad_main P (Ok plan) concern check)"
  using ends_ad_main[OF assms(2,1)] .

theorem shaped_plan_raises_nothing_witness:
  "ends (\<lambda>e. False) (ad_main small_samba (Ok (JObj [(''acls'', JArr [JObj [(''objectdn'', JStr ''DC=krg''),
      (''trustee'', JStr ''svc''), (''right'', JStr ''reset-password'')]])])) Acls True)"
  using shaped_plan_raises_nothing[where concern = Acls and check = True and E = "\<lambda>_. False" and P = small_samba
      and plan = "JObj [(''acls'', JArr [JObj [(''objectdn'', JStr ''DC=krg''), (''trustee'', JStr ''svc''),
        (''right'', JStr ''reset-password'')]])]"]
  by (simp add: plan_shape_def may_field_def is_list_of_def ace_shape_def has_field_def is_str_def tool_ends_def
      small_samba_def)

text \<open>
  C5. A right can be missed: when the object grants the right to another account whose SID begins
  with the trustee's, the check for an existing grant finds the text of the shorter SID inside it, so
  nothing is granted and nothing is reported.
\<close>

theorem longer_sid_hides_grant:
  assumes "P [''dsacl'', ''get'', ''--objectdn='' @ dn] (shw s) =
      (Ok (0, ''(OA;CI;CR;'' @ guid @ '';;'' @ sid @ suff @ '')'', err), w)"
    and "CHR ''('' \<notin> set (guid @ sid @ suff)" and "CHR 0x0A \<notin> set (guid @ sid @ suff)"
  shows "grant_right P check dn trustee right inherit guid sid s =
    (Ok (), s\<lparr>shw := w, ran := ran s @ [[''dsacl'', ''get'', ''--objectdn='' @ dn]]\<rparr>)"
  using assms(1) ace_present_prefix[OF assms(2,3)]
  by (simp add: grant_right_def exec_def bindE_def retE_def)

theorem longer_sid_hides_grant_witness:
  "grant_right (\<lambda>c w. (Ok (0, ''(OA;CI;CR;00299570;;S-1-5-21-7-1104)'', ''''), w)) False ''OU=People'' ''svc''
     ''reset-password'' ''child-users'' ''00299570'' ''S-1-5-21-7-110'' small_state =
   (Ok (), small_state\<lparr>ran := [[''dsacl'', ''get'', ''--objectdn=OU=People'']]\<rparr>)"
  using longer_sid_hides_grant[where P = "\<lambda>c w. (Ok (0, ''(OA;CI;CR;00299570;;S-1-5-21-7-1104)'', ''''), w)"
      and dn = "''OU=People''" and s = small_state and guid = "''00299570''" and sid = "''S-1-5-21-7-110''"
      and suff = "''4''" and err = "''''" and w = 0 and check = False and trustee = "''svc''"
      and right = "''reset-password''" and inherit = "''child-users''"]
  by (simp add: small_state_def)

end
