(* ===== verification/Pylib.thy ===== *)
theory Pylib
  imports Json
begin

text \<open>
  The parts of Python's standard library the appliers share: \<open>json.dumps\<close>, \<open>repr\<close> and \<open>int\<close> of JSON
  values, iteration over one, \<open>%\<close>-formatting of a template, and \<open>os.path\<close>. A text is the list of its
  UTF-8 bytes here, so that a file's contents and its text are the same list.
\<close>

section \<open>Texts\<close>

definition em_dash :: string where
  "em_dash = [CHR 0xE2, CHR 0x80, CHR 0x94]"

definition right_arrow :: string where
  "right_arrow = [CHR 0xE2, CHR 0x86, CHR 0x92]"

definition hex_digit :: "nat \<Rightarrow> char" where
  "hex_digit n = (if n < 10 then char_of (48 + n) else char_of (87 + n))"

text \<open>The code points of a UTF-8 text (of the basic plane).\<close>

fun code_points :: "nat list \<Rightarrow> nat list" where
  "code_points [] = []"
| "code_points (a # b # c # r) =
     (if 0xE0 \<le> a then ((a mod 16 * 64 + b mod 64) * 64 + c mod 64) # code_points r
      else if 0xC0 \<le> a then (a mod 32 * 64 + b mod 64) # code_points (c # r)
      else a # code_points (b # c # r))"
| "code_points [a, b] = (if 0xC0 \<le> a then [a mod 32 * 64 + b mod 64] else [a, b])"
| "code_points [a] = [a]"

definition json_escape :: "nat \<Rightarrow> string" where
  "json_escape n =
     (if n = 34 \<or> n = 92 then [CHR 0x5C, char_of n]
      else if n = 10 then [CHR 0x5C, CHR ''n''] else if n = 13 then [CHR 0x5C, CHR ''r'']
      else if n = 9 then [CHR 0x5C, CHR ''t''] else if n = 12 then [CHR 0x5C, CHR ''f'']
      else if n = 8 then [CHR 0x5C, CHR ''b'']
      else if 32 \<le> n \<and> n \<le> 126 then [char_of n]
      else CHR 0x5C # CHR ''u'' # map hex_digit [n div 4096, n div 256 mod 16, n div 16 mod 16, n mod 16])"

definition json_string :: "string \<Rightarrow> string" where
  "json_string s = CHR 0x22 # concat (map json_escape (code_points (map of_char s))) @ [CHR 0x22]"

text \<open>\<open>json.dumps(j)\<close>, and the same document with its keys sorted.\<close>

primrec dumps :: "json \<Rightarrow> string" where
  "dumps JNull = ''null''"
| "dumps (JBool b) = (if b then ''true'' else ''false'')"
| "dumps (JNum n) = str_int n"
| "dumps (JStr s) = json_string s"
| "dumps (JArr xs) = ''['' @ join '', '' (map dumps xs) @ '']''"
| "dumps (JObj d) =
     ''{'' @ join '', '' (map (\<lambda>p. json_string (fst p) @ '': '' @ snd p) (map (map_prod (\<lambda>k. k) dumps) d)) @ ''}''"

primrec sort_keys :: "json \<Rightarrow> json" where
  "sort_keys JNull = JNull"
| "sort_keys (JBool b) = JBool b"
| "sort_keys (JNum n) = JNum n"
| "sort_keys (JStr s) = JStr s"
| "sort_keys (JArr xs) = JArr (map sort_keys xs)"
| "sort_keys (JObj d) = JObj (sort_key fst (map (map_prod (\<lambda>k. k) sort_keys) d))"

text \<open>\<open>repr(j)\<close> and \<open>str(j)\<close>.\<close>

definition repr_char :: "char \<Rightarrow> char \<Rightarrow> string" where
  "repr_char q c =
     (let n = of_char c :: nat in
      if c = CHR 0x5C \<or> c = q then [CHR 0x5C, c]
      else if n = 10 then [CHR 0x5C, CHR ''n''] else if n = 13 then [CHR 0x5C, CHR ''r'']
      else if n = 9 then [CHR 0x5C, CHR ''t'']
      else if n < 32 \<or> n = 127 then CHR 0x5C # CHR ''x'' # map hex_digit [n div 16, n mod 16]
      else [c])"

definition repr_string :: "string \<Rightarrow> string" where
  "repr_string s =
     (let q = (if CHR 0x27 \<in> set s \<and> CHR 0x22 \<notin> set s then CHR 0x22 else CHR 0x27) in
      q # concat (map (repr_char q) s) @ [q])"

primrec repr :: "json \<Rightarrow> string" where
  "repr JNull = ''None''"
| "repr (JBool b) = (if b then ''True'' else ''False'')"
| "repr (JNum n) = str_int n"
| "repr (JStr s) = repr_string s"
| "repr (JArr xs) = ''['' @ join '', '' (map repr xs) @ '']''"
| "repr (JObj d) =
     ''{'' @ join '', '' (map (\<lambda>p. repr_string (fst p) @ '': '' @ snd p) (map (map_prod (\<lambda>k. k) repr) d)) @ ''}''"

definition py_str :: "json \<Rightarrow> string" where
  "py_str j = (case j of JStr s \<Rightarrow> s | _ \<Rightarrow> repr j)"

section \<open>Values\<close>

text \<open>\<open>int(s)\<close> of a text, and of any JSON value.\<close>

definition int_of_text :: "string \<Rightarrow> ('s, int) eff" where
  "int_of_text s = (case int_of_string s of None \<Rightarrow> raiseE ValueError | Some n \<Rightarrow> retE n)"

definition py_int :: "json \<Rightarrow> ('s, int) eff" where
  "py_int j =
     (case j of
        JNum n \<Rightarrow> retE n | JBool b \<Rightarrow> retE (if b then 1 else 0) | JStr s \<Rightarrow> int_of_text s
      | _ \<Rightarrow> raiseE TypeError)"

text \<open>\<open>for x in j\<close>: a list's elements, an object's keys, a text's characters.\<close>

definition iter :: "json \<Rightarrow> ('s, json list) eff" where
  "iter j =
     (case j of
        JArr xs \<Rightarrow> retE xs | JObj d \<Rightarrow> retE (map (\<lambda>p. JStr (fst p)) d)
      | JStr s \<Rightarrow> retE (map (\<lambda>c. JStr [c]) s) | _ \<Rightarrow> raiseE TypeError)"

text \<open>\<open>for x in j.get(k) or []\<close>.\<close>

definition iter_get :: "string \<Rightarrow> json \<Rightarrow> ('s, json list) eff" where
  "iter_get k j = bindE (get_or k j (JArr [])) iter"

text \<open>\<open>j.lower()\<close>; only a text has that method.\<close>

definition lower_json :: "json \<Rightarrow> ('s, json) eff" where
  "lower_json j = (case j of JStr s \<Rightarrow> retE (JStr (lower s)) | _ \<Rightarrow> raiseE AttributeError)"

text \<open>A JSON value as the key of a dictionary, or as the element of a set.\<close>

definition key_of :: "json \<Rightarrow> ('s, json) eff" where
  "key_of j = (if hashable j then retE j else raiseE TypeError)"

section \<open>Templates\<close>

text \<open>A template: literal text, \<open>"\<close>, the end of a line, \<open>%(f)s\<close> and \<open>%(f)d\<close>.\<close>

datatype piece = Txt string | Quo | Eol | Fld string | Dec string

datatype fval = FS string | FN int

definition put_piece :: "(string \<times> fval) list \<Rightarrow> piece \<Rightarrow> ('s, string) eff" where
  "put_piece fs p =
     (case p of
        Txt s \<Rightarrow> retE s | Quo \<Rightarrow> retE [CHR 0x22] | Eol \<Rightarrow> retE [CHR 0x0A]
      | Fld f \<Rightarrow> (case dict_get fs f of None \<Rightarrow> raiseE KeyError | Some (FS s) \<Rightarrow> retE s | Some (FN n) \<Rightarrow> retE (str_int n))
      | Dec f \<Rightarrow> (case dict_get fs f of None \<Rightarrow> raiseE KeyError | Some (FN n) \<Rightarrow> retE (str_int n) | _ \<Rightarrow> raiseE TypeError))"

definition fill :: "piece list \<Rightarrow> (string \<times> fval) list \<Rightarrow> ('s, string) eff" where
  "fill ps fs = bindE (mapE (put_piece fs) ps) (\<lambda>xs. retE (concat xs))"

section \<open>Paths\<close>

definition path_join :: "string \<Rightarrow> string \<Rightarrow> string" where
  "path_join a b =
     (if startswith b ''/'' then b else if a = [] \<or> endswith a ''/'' then a @ b else a @ ''/'' @ b)"

definition dirname :: "string \<Rightarrow> string" where
  "dirname p =
     (let head = rev (dropWhile (\<lambda>c. c \<noteq> CHR ''/'') (rev p)) in
      if list_all (\<lambda>c. c = CHR ''/'') head then head else rev (dropWhile (\<lambda>c. c = CHR ''/'') (rev head)))"

text \<open>The directories above a path, outermost first.\<close>

definition ancestors :: "string \<Rightarrow> string list" where
  "ancestors p =
     map (\<lambda>i. take i p) (filter (\<lambda>i. p ! i = CHR ''/'' \<and> p ! (i - 1) \<noteq> CHR ''/'') [1..<length p])"

section \<open>Reading has no effect\<close>

lemma still_pylib:
  "keeps (=) (int_of_text s)" "keeps (=) (py_int j)" "keeps (=) (iter j)" "keeps (=) (iter_get k j)"
  "keeps (=) (lower_json j)" "keeps (=) (key_of j)"
  unfolding int_of_text_def py_int_def iter_def iter_get_def lower_json_def key_of_def
  by (auto intro!: still.keeps_rules still.keeps_json_derived split: json.split option.split)

lemma still_put_piece: "keeps (=) (put_piece fs p)"
  unfolding put_piece_def by (auto intro!: still.keeps_rules split: piece.split option.split fval.split)

lemma still_fill: "keeps (=) (fill ps fs)"
  unfolding fill_def by (intro still.keeps_rules still_put_piece)

context frame
begin

lemmas keeps_pylib = still_pylib[THEN keeps_still] still_fill[THEN keeps_still]

end

end
