(* ===== verification/Drift.thy ===== *)
theory Drift
  imports Pylib
begin

text \<open>
  Model of \<open>drift/drift_detector.py\<close>: the differences between the spec of a NAS and the snapshots of
  its live state, the metrics and the exit code. Reading a YAML file, whether a file is there,
  \<open>json.loads\<close>, the clock and writing the metrics file are parameters; a YAML error is
  \<open>RuntimeError ''YAMLError''\<close>. Python compares booleans with numbers (\<open>True == 1\<close>), and so does
  \<open>py_eq\<close>. The text report is not modelled.
\<close>

section \<open>Values\<close>

definition number_of :: "json \<Rightarrow> int option" where
  "number_of j = (case j of JNum n \<Rightarrow> Some n | JBool b \<Rightarrow> Some (if b then 1 else 0) | _ \<Rightarrow> None)"

text \<open>\<open>a == b\<close>, where one of the two is a text, a number or a boolean.\<close>

definition py_eq :: "json \<Rightarrow> json \<Rightarrow> bool" where
  "py_eq a b = (if number_of a \<noteq> None \<and> number_of b \<noteq> None then number_of a = number_of b else a = b)"

record drift =
  d_resource :: string
  d_key :: string
  d_desired :: json
  d_live :: json

definition D :: "string \<Rightarrow> string \<Rightarrow> json \<Rightarrow> json \<Rightarrow> drift" where
  "D resource key desired live = \<lparr>d_resource = resource, d_key = key, d_desired = desired, d_live = live\<rparr>"

text \<open>A set of texts, as its elements in order.\<close>

definition sorted_set :: "string list \<Rightarrow> string list" where
  "sorted_set xs = sort (remdups xs)"

section \<open>Reading the tools' output\<close>

definition PROTO :: "(string \<times> int) list" where
  "PROTO = [(''SMB1'', 1), (''SMB2'', 2), (''SMB3'', 3)]"

definition AUTO_SHARES :: "string list" where
  "AUTO_SHARES = [''homes'', ''home'', ''NetBackup'', ''photo'', ''web'', ''surveillance'', ''ActiveBackupforBusiness'']"

definition str_list :: "json list \<Rightarrow> ('s, string list) eff" where
  "str_list xs = mapE as_str xs"

definition lines_get :: "string \<Rightarrow> json \<Rightarrow> ('s, string list) eff" where
  "lines_get k j = bindE (list_get k j) str_list"

definition webapi_data :: "(string \<Rightarrow> json option) \<Rightarrow> string list \<Rightarrow> ('s, json) eff" where
  "webapi_data loads ls =
     (case dropWhile (\<lambda>l. \<not> startswith (lstrip l) ''{'') ls of
        [] \<Rightarrow> raiseE ValueError
      | rest \<Rightarrow>
          (case loads (join [CHR 0x0A] rest) of None \<Rightarrow> raiseE ValueError | Some j \<Rightarrow> field ''data'' j))"

definition parse_enum :: "string list \<Rightarrow> string list" where
  "parse_enum ls =
     filter (\<lambda>s. s \<noteq> []) (map strip (tl (dropWhile (\<lambda>l. \<not> endswith (strip l) ''Listed:'') ls)))"

text \<open>\<open>re.search\<close> of the list of one tier: blanks, dots, and the text up to the next bracket on the line.\<close>

definition tier_at :: "string \<Rightarrow> string \<Rightarrow> string option" where
  "tier_at t s =
     (let head = ''ACL '' @ t @ '' List'' in
      if \<not> startswith s head then None
      else
        case dropWhile (\<lambda>c. c = CHR ''.'') (dropWhile is_space (drop (length head) s)) of
          [] \<Rightarrow> None
        | c # body \<Rightarrow>
            let inner = takeWhile (\<lambda>x. x \<noteq> CHR '']'') body in
            if c \<noteq> CHR ''['' \<or> List.member inner (CHR 0x0A) \<or> length inner = length body then None
            else Some inner)"

fun tier_search :: "string \<Rightarrow> string \<Rightarrow> string option" where
  "tier_search t [] = None"
| "tier_search t (c # s) = (case tier_at t (c # s) of Some x \<Rightarrow> Some x | None \<Rightarrow> tier_search t s)"

definition TIERS :: "string list" where
  "TIERS = [''RW'', ''RO'', ''NA'']"

definition tier_names :: "string \<Rightarrow> string \<Rightarrow> string list" where
  "tier_names body t =
     (case tier_search t body of
        None \<Rightarrow> []
      | Some x \<Rightarrow> if x = [] then [] else filter (\<lambda>n. n \<noteq> []) (split_on (CHR '','') x))"

definition parse_list_acl :: "string \<Rightarrow> (string \<times> string list) list" where
  "parse_list_acl body = map (\<lambda>t. (t, sorted_set (tier_names body t))) TIERS"

definition TIER_OF :: "(string \<times> string) list" where
  "TIER_OF = [(''rw'', ''RW''), (''ro'', ''RO''), (''no'', ''NA'')]"

text \<open>\<open>str(v)\<close> of an access level.\<close>

definition str_of :: "json \<Rightarrow> ('s, string) eff" where
  "str_of j =
     (case j of JStr s \<Rightarrow> retE s | JNum n \<Rightarrow> retE (str_int n)
      | JBool b \<Rightarrow> retE (if b then ''True'' else ''False'') | JNull \<Rightarrow> retE ''None'' | _ \<Rightarrow> raiseE KeyError)"

definition grant_of :: "json \<Rightarrow> ('s, string \<times> string) eff" where
  "grant_of g =
     bindE (get_key ''group'' g) (\<lambda>v.
     bindE (case v of Some x \<Rightarrow> bindE (as_str x) (\<lambda>s. retE (''@'' @ s)) | None \<Rightarrow> str_field ''user'' g) (\<lambda>name.
     bindE (field ''access'' g) (\<lambda>a. bindE (str_of a) (\<lambda>s.
       case dict_get TIER_OF (lower s) of None \<Rightarrow> raiseE KeyError | Some t \<Rightarrow> retE (t, name)))))"

definition desired_tiers :: "json list \<Rightarrow> ('s, (string \<times> string list) list) eff" where
  "desired_tiers grants =
     bindE (mapE grant_of grants) (\<lambda>gs.
       retE (map (\<lambda>t. (t, sorted_set (map snd (filter (\<lambda>g. fst g = t) gs)))) TIERS))"

section \<open>The differences of each resource\<close>

definition diff_shares :: "json \<Rightarrow> json \<Rightarrow> ('s, drift list) eff" where
  "diff_shares spec snap =
     bindE (list_get ''shares'' spec) (\<lambda>ss. bindE (mapE (str_field ''name'') ss) (\<lambda>desired.
     bindE (lines_get ''shares_raw'' snap) (\<lambda>raw.
       let live = parse_enum raw in
       retE (map (\<lambda>n. D ''shares'' n (JStr ''present'') (JStr ''absent''))
               (sorted_set (filter (\<lambda>n. \<not> List.member live n) desired)) @
             map (\<lambda>n. D ''shares'' n (JStr ''absent (unmanaged)'') (JStr ''present''))
               (sorted_set (filter (\<lambda>n. \<not> List.member desired n \<and> \<not> List.member AUTO_SHARES n) live))))))"

text \<open>\<open>[D(...) for k, v in desired.items() if live.get(k) != v]\<close>.\<close>

definition diff_keys :: "string \<Rightarrow> string \<Rightarrow> (string \<times> json) list \<Rightarrow> json \<Rightarrow> ('s, drift list) eff" where
  "diff_keys resource pre desired live =
     (if desired = [] then retE []
      else
        case live of
          JObj d \<Rightarrow>
            retE (concat (map (\<lambda>(k, v).
              let l = (case dict_get d k of None \<Rightarrow> JNull | Some x \<Rightarrow> x) in
              if py_eq l v then [] else [D resource (pre @ k) v l]) desired))
        | _ \<Rightarrow> raiseE AttributeError)"

definition bool_get :: "string \<Rightarrow> json \<Rightarrow> bool \<Rightarrow> ('s, bool) eff" where
  "bool_get k j dflt = bindE (get_key k j) (\<lambda>v. retE (case v of None \<Rightarrow> dflt | Some x \<Rightarrow> truthy x))"

definition obj_get :: "string \<Rightarrow> json \<Rightarrow> ('s, json) eff" where
  "obj_get k j = bindE (get_key k j) (\<lambda>v. retE (case v of None \<Rightarrow> JObj [] | Some x \<Rightarrow> x))"

definition protocol :: "string \<Rightarrow> json \<Rightarrow> string \<Rightarrow> ('s, json) eff" where
  "protocol k s dflt =
     bindE (get_key k s) (\<lambda>v.
       case v of
         None \<Rightarrow> (case dict_get PROTO dflt of None \<Rightarrow> raiseE KeyError | Some n \<Rightarrow> retE (JNum n))
       | Some (JStr p) \<Rightarrow> (case dict_get PROTO p of None \<Rightarrow> raiseE KeyError | Some n \<Rightarrow> retE (JNum n))
       | Some x \<Rightarrow> if hashable x then raiseE KeyError else raiseE TypeError)"

definition diff_smb :: "(string \<Rightarrow> json option) \<Rightarrow> json \<Rightarrow> json \<Rightarrow> ('s, drift list) eff" where
  "diff_smb loads spec snap =
     bindE (obj_get ''smb'' spec) (\<lambda>s.
     bindE (bool_get ''enable'' s True) (\<lambda>enable.
     bindE (protocol ''min_protocol'' s ''SMB2'') (\<lambda>lo.
     bindE (protocol ''max_protocol'' s ''SMB3'') (\<lambda>hi.
     bindE (bool_get ''server_signing'' s True) (\<lambda>signing.
     bindE (bool_get ''ntlmv1_auth'' s False) (\<lambda>ntlm.
     bindE (lines_get ''smb_raw'' snap) (\<lambda>raw.
     bindE (webapi_data loads raw) (\<lambda>live.
       diff_keys ''smb'' [] [(''enable_samba'', JBool enable), (''smb_min_protocol'', lo), (''smb_max_protocol'', hi),
         (''enable_server_signing'', JNum (if signing then 1 else 0)), (''enable_ntlmv1_auth'', JBool ntlm)] live))))))))"

text \<open>\<open>r.get("client", "")\<close>; the rules are sorted by it, which needs texts once there are two.\<close>

definition client_of :: "json \<Rightarrow> ('s, json) eff" where
  "client_of rule = bindE (get_key ''client'' rule) (\<lambda>v. retE (case v of None \<Rightarrow> JStr [] | Some x \<Rightarrow> x))"

definition norm_rules :: "json list \<Rightarrow> ('s, json list) eff" where
  "norm_rules rules =
     bindE (mapE client_of rules) (\<lambda>keys.
       if length rules \<le> 1 then retE (map sort_keys rules)
       else bindE (str_list keys) (\<lambda>ks. retE (map (\<lambda>p. sort_keys (snd p)) (sort_key fst (zip ks rules)))))"

definition live_rule :: "(string \<Rightarrow> json option) \<Rightarrow> json \<Rightarrow> ('s, string \<times> json) eff" where
  "live_rule loads row =
     bindE (str_field ''share'' row) (\<lambda>share.
     bindE (field ''load'' row) (\<lambda>x. bindE (as_list x) (\<lambda>xs. bindE (str_list xs) (\<lambda>ls.
     bindE (webapi_data loads ls) (\<lambda>d. bindE (field ''rule'' d) (\<lambda>rules. retE (share, rules)))))))"

definition diff_export :: "(string \<times> json) list \<Rightarrow> json \<Rightarrow> ('s, drift list) eff" where
  "diff_export live_rules entry =
     bindE (str_field ''share'' entry) (\<lambda>share.
     bindE (list_get ''rules'' entry) (\<lambda>desired.
     bindE (case dict_get live_rules share of None \<Rightarrow> retE [] | Some x \<Rightarrow> as_list x) (\<lambda>live.
     bindE (norm_rules desired) (\<lambda>a. bindE (norm_rules live) (\<lambda>b.
       retE (if a \<noteq> b then [D ''nfs'' (''rules.'' @ share) (JArr desired) (JArr live)] else []))))))"

definition diff_nfs :: "(string \<Rightarrow> json option) \<Rightarrow> json \<Rightarrow> json \<Rightarrow> ('s, drift list) eff" where
  "diff_nfs loads spec snap =
     bindE (obj_get ''nfs'' spec) (\<lambda>n.
     bindE (bool_get ''enable'' n True) (\<lambda>enable.
     bindE (bool_get ''nfsv4'' n True) (\<lambda>v4.
     bindE (get_key ''v4_domain'' n) (\<lambda>dom.
     bindE (lines_get ''nfs_global_raw'' snap) (\<lambda>raw.
     bindE (webapi_data loads raw) (\<lambda>glive.
     bindE (diff_keys ''nfs'' ''global.'' [(''enable_nfs'', JBool enable), (''enable_nfs_v4'', JBool v4),
         (''nfs_v4_domain'', case dom of None \<Rightarrow> JStr [] | Some x \<Rightarrow> x)] glive) (\<lambda>out.
     bindE (list_get ''nfs_rules_raw'' snap) (\<lambda>rows.
     bindE (mapE (live_rule loads) rows) (\<lambda>pairs.
     bindE (list_get ''exports'' spec) (\<lambda>exports.
     bindE (mapE (diff_export (foldl (\<lambda>d p. dict_set (fst p) (snd p) d) [] pairs)) exports) (\<lambda>outs.
       retE (out @ concat outs))))))))))))"

definition live_acl :: "json \<Rightarrow> ('s, string \<times> (string \<times> string list) list) eff" where
  "live_acl a =
     bindE (str_field ''share'' a) (\<lambda>share.
     bindE (field ''list_acl'' a) (\<lambda>x. bindE (as_list x) (\<lambda>xs. bindE (str_list xs) (\<lambda>ls.
       retE (share, parse_list_acl (join [CHR 0x0A] ls))))))"

definition NO_TIERS :: "(string \<times> string list) list" where
  "NO_TIERS = map (\<lambda>t. (t, [])) TIERS"

definition diff_tiers :: "string \<Rightarrow> (string \<times> string list) list \<Rightarrow> (string \<times> string list) list \<Rightarrow> drift list" where
  "diff_tiers share des live =
     concat (map (\<lambda>t.
       let d = the (dict_get des t); l = the (dict_get live t) in
       if d \<noteq> l then [D ''acls'' (share @ ''.'' @ t) (JArr (map JStr d)) (JArr (map JStr l))] else []) TIERS)"

definition diff_acl :: "(string \<times> (string \<times> string list) list) list \<Rightarrow> json \<Rightarrow> ('s, drift list) eff" where
  "diff_acl live_by_share entry =
     bindE (str_field ''share'' entry) (\<lambda>share.
     bindE (list_get ''grants'' entry) (\<lambda>grants. bindE (desired_tiers grants) (\<lambda>des.
       retE (diff_tiers share des (case dict_get live_by_share share of None \<Rightarrow> NO_TIERS | Some l \<Rightarrow> l)))))"

definition diff_acls :: "json \<Rightarrow> json \<Rightarrow> ('s, drift list) eff" where
  "diff_acls spec snap =
     bindE (list_get ''share_acls'' snap) (\<lambda>rows. bindE (mapE live_acl rows) (\<lambda>pairs.
     bindE (get_or ''acls'' spec (JArr [])) (\<lambda>x. bindE (as_list x) (\<lambda>entries.
     bindE (mapE (diff_acl (foldl (\<lambda>d p. dict_set (fst p) (snd p) d) [] pairs)) entries) (\<lambda>outs.
       retE (concat outs))))))"

section \<open>The run\<close>

record files =
  load_yaml :: "string \<Rightarrow> json res"
  exists :: "string \<Rightarrow> bool"
  loads :: "string \<Rightarrow> json option"
  write_metrics :: "string \<Rightarrow> unit res"
  time :: int

datatype resource = Shares | Smb | Nfs | Acls

definition RESOURCES :: "resource list" where
  "RESOURCES = [Shares, Smb, Nfs, Acls]"

definition res_name :: "resource \<Rightarrow> string" where
  "res_name r = (case r of Shares \<Rightarrow> ''shares'' | Smb \<Rightarrow> ''smb'' | Nfs \<Rightarrow> ''nfs'' | Acls \<Rightarrow> ''acls'')"

definition spec_file :: "resource \<Rightarrow> string" where
  "spec_file r = (case r of Shares \<Rightarrow> ''shares.yml'' | Smb \<Rightarrow> ''smb-globals.yml'' | Nfs \<Rightarrow> ''nfs-exports.yml'' | Acls \<Rightarrow> ''acls.yml'')"

definition diff_fn :: "files \<Rightarrow> resource \<Rightarrow> json \<Rightarrow> json \<Rightarrow> ('s, drift list) eff" where
  "diff_fn F r = (case r of Shares \<Rightarrow> diff_shares | Smb \<Rightarrow> diff_smb (loads F) | Nfs \<Rightarrow> diff_nfs (loads F) | Acls \<Rightarrow> diff_acls)"

definition has_key :: "string \<Rightarrow> json \<Rightarrow> ('s, bool) eff" where
  "has_key k j = bool_get k j False"

definition has_work :: "resource \<Rightarrow> json \<Rightarrow> ('s, bool) eff" where
  "has_work r sp =
     (case r of
        Nfs \<Rightarrow> bindE (has_key ''nfs'' sp) (\<lambda>b. if b then retE True else has_key ''exports'' sp)
      | _ \<Rightarrow> has_key (res_name r) sp)"

definition load_doc :: "files \<Rightarrow> string \<Rightarrow> ('s, json) eff" where
  "load_doc F path = bindE (liftE (load_yaml F path)) (\<lambda>j. retE (if truthy j then j else JObj []))"

datatype status = Settled | Drifted | NoSnapshot | Failed exc

definition is_yaml_error :: "exc \<Rightarrow> bool" where
  "is_yaml_error e = (is_OSError e \<or> e = RuntimeError ''YAMLError'')"

definition is_diff_error :: "exc \<Rightarrow> bool" where
  "is_diff_error e = (is_yaml_error e \<or> e = ValueError \<or> e = KeyError)"

definition check_resource :: "files \<Rightarrow> string \<Rightarrow> string \<Rightarrow> string \<Rightarrow> resource \<Rightarrow> ('s, status \<times> drift list) eff" where
  "check_resource F spec_dir snapshot_dir host r =
     (let snap_path = path_join snapshot_dir (host @ ''-'' @ res_name r @ ''.yml'') in
      bindE (catchE (bindE (load_doc F (path_join spec_dir (spec_file r))) (\<lambda>j. retE (Inr j))) is_yaml_error
        (\<lambda>e. retE (Inl e))) (\<lambda>x.
        case x of
          Inl e \<Rightarrow> retE (Failed e, [])
        | Inr spec \<Rightarrow>
            bindE (has_work r spec) (\<lambda>work.
              if \<not> work then retE (Settled, [])
              else if \<not> exists F snap_path then retE (NoSnapshot, [])
              else
                catchE
                  (bindE (load_doc F snap_path) (\<lambda>snap. bindE (diff_fn F r spec snap) (\<lambda>found.
                     retE (if found = [] then Settled else Drifted, found))))
                  is_diff_error (\<lambda>e. retE (Failed e, [])))))"

definition run :: "files \<Rightarrow> string \<Rightarrow> string \<Rightarrow> string \<Rightarrow> ('s, (resource \<times> status) list \<times> drift list) eff" where
  "run F spec_dir snapshot_dir host =
     bindE (mapE (\<lambda>r. bindE (check_resource F spec_dir snapshot_dir host r) (\<lambda>x. retE (r, x))) RESOURCES) (\<lambda>rows.
       retE (map (\<lambda>p. (fst p, fst (snd p))) rows, concat (map (\<lambda>p. snd (snd p)) rows)))"

definition bad :: "status \<Rightarrow> bool" where
  "bad s = (case s of NoSnapshot \<Rightarrow> True | Failed _ \<Rightarrow> True | _ \<Rightarrow> False)"

section \<open>Metrics and exit code\<close>

definition lbl :: "string \<Rightarrow> string" where
  "lbl s = concat (map (\<lambda>c. if c = CHR 0x5C then [c, c] else if c = CHR 0x22 then [CHR 0x5C, c] else [c]) s)"

definition quote :: "string \<Rightarrow> string" where
  "quote s = CHR 0x22 # s @ [CHR 0x22]"

definition resource_lines :: "string \<Rightarrow> drift list \<Rightarrow> resource \<Rightarrow> string list" where
  "resource_lines host drifts r =
     (let n = length (filter (\<lambda>d. d_resource d = res_name r) drifts);
          labels = ''{host='' @ quote (lbl host) @ '',resource='' @ quote (res_name r) @ ''} '' in
      [''krg_synology_drift'' @ labels @ (if n \<noteq> 0 then ''1'' else ''0''),
       ''krg_synology_drift_items'' @ labels @ str_nat n])"

definition render_prometheus :: "files \<Rightarrow> string \<Rightarrow> (resource \<times> status) list \<Rightarrow> drift list \<Rightarrow> string" where
  "render_prometheus F host results drifts =
     (let good = list_all (\<lambda>p. \<not> bad (snd p)) results; h = ''{host='' @ quote (lbl host) @ ''} '' in
      join [CHR 0x0A]
        ([''# HELP krg_synology_drift Live DSM state diverges from spec (1=drift).'',
          ''# TYPE krg_synology_drift gauge''] @
         concat (map (resource_lines host drifts) RESOURCES) @
         [''# HELP krg_synology_drift_check_success Detector ran with all snapshots present+parsed.'',
          ''# TYPE krg_synology_drift_check_success gauge'',
          ''krg_synology_drift_check_success'' @ h @ (if good then ''1'' else ''0''),
          ''# HELP krg_synology_drift_check_timestamp_seconds Unix time of this check.'',
          ''# TYPE krg_synology_drift_check_timestamp_seconds gauge'',
          ''krg_synology_drift_check_timestamp_seconds'' @ h @ str_int (time F)]) @ [CHR 0x0A])"

definition main :: "files \<Rightarrow> string \<Rightarrow> string \<Rightarrow> string \<Rightarrow> bool \<Rightarrow> ('s, int) eff" where
  "main F spec_dir snapshot_dir host metrics =
     bindE (run F spec_dir snapshot_dir host) (\<lambda>(results, drifts).
     bindE (if metrics then liftE (write_metrics F (render_prometheus F host results drifts)) else retE ()) (\<lambda>_.
       retE (if list_ex (\<lambda>p. bad (snd p)) results then 2 else if drifts \<noteq> [] then 1 else 0)))"

end
