(* ===== verification/Drift_Claims.thy ===== *)
theory Drift_Claims
  imports Drift
begin

text \<open>
  What the exit code of the drift detector says. All of its computations leave the state as it is, so
  the four checks do not depend on each other.
\<close>

section \<open>Checks have no effect\<close>

lemmas quiet_rules = still.keeps_rules still.keeps_json still.keeps_json_derived

lemma quiet_reads:
  "keeps (=) (str_list xs)" "keeps (=) (lines_get k j)" "keeps (=) (webapi_data ld ls)" "keeps (=) (bool_get k j b)"
  "keeps (=) (obj_get k j)" "keeps (=) (protocol k j p)" "keeps (=) (diff_keys rs pre ds live)"
  unfolding str_list_def lines_get_def webapi_data_def bool_get_def obj_get_def protocol_def diff_keys_def
  by (auto intro!: quiet_rules split: list.split option.split json.split)

lemma quiet_tiers: "keeps (=) (desired_tiers gs)"
  unfolding desired_tiers_def grant_of_def str_of_def
  by (auto intro!: quiet_rules split: option.split json.split)

lemma quiet_norm_rules: "keeps (=) (norm_rules rs)"
  unfolding norm_rules_def client_of_def by (intro quiet_rules quiet_reads)

lemma quiet_diff: "keeps (=) (diff_fn F r sp sn)"
proof -
  have "keeps (=) (diff_shares sp sn)"
    unfolding diff_shares_def Let_def by (intro quiet_rules quiet_reads)
  moreover have "keeps (=) (diff_smb (loads F) sp sn)"
    unfolding diff_smb_def by (intro quiet_rules quiet_reads)
  moreover have "keeps (=) (diff_nfs (loads F) sp sn)"
    unfolding diff_nfs_def live_rule_def diff_export_def
    by (auto intro!: quiet_rules quiet_reads quiet_norm_rules split: option.split)
  moreover have "keeps (=) (diff_acls sp sn)"
    unfolding diff_acls_def live_acl_def diff_acl_def by (intro quiet_rules quiet_reads quiet_tiers)
  ultimately show ?thesis by (cases r) (simp_all add: diff_fn_def)
qed

lemma quiet_work: "keeps (=) (has_work r sp)"
  unfolding has_work_def has_key_def by (auto intro!: quiet_rules quiet_reads split: resource.split)

lemma quiet_load: "keeps (=) (load_doc F path)"
  unfolding load_doc_def by (intro quiet_rules)

lemma quiet_check: "keeps (=) (check_resource F sd nd host r)"
  unfolding check_resource_def Let_def
  by (intro quiet_rules quiet_load) (auto intro!: quiet_rules quiet_load quiet_work quiet_diff split: sum.split)

lemma quiet_eq: "keeps (=) m \<Longrightarrow> m s = (fst (m s), s)"
  by (metis keeps_def prod.collapse)

text \<open>A comprehension over such computations.\<close>

lemma quiet_mapE:
  assumes "\<And>x. keeps (=) (f x)"
  shows "fst (mapE f xs s) = Ok ys \<longleftrightarrow> list_all2 (\<lambda>x y. fst (f x s) = Ok y) xs ys"
proof (induction xs arbitrary: ys)
  case (Cons x xs)
  have m: "mapE f xs s = (fst (mapE f xs s), s)" by (intro quiet_eq still.keeps_mapE assms)
  have x: "f x s = (fst (f x s), s)" by (rule quiet_eq[OF assms])
  show ?case
  proof (cases "fst (f x s)")
    case (Ok y)
    with x have y: "f x s = (Ok y, s)" by simp
    show ?thesis
    proof (cases "fst (mapE f xs s)")
      case zs: (Ok zs)
      with m have "mapE f xs s = (Ok zs, s)" by simp
      then show ?thesis using y Cons.IH[of "tl ys"] zs by (cases ys) (auto simp: bindE_def retE_def)
    qed (use m y Cons.IH[of "tl ys"] in \<open>cases ys; auto simp: bindE_def retE_def\<close>)+
  qed (use x in \<open>auto simp: bindE_def list_all2_Cons1\<close>)
qed (auto simp: retE_def)

section \<open>What it takes to be settled\<close>

definition or_empty :: "json \<Rightarrow> json" where
  "or_empty j = (if truthy j then j else JObj [])"

definition enforced :: "files \<Rightarrow> string \<Rightarrow> string \<Rightarrow> string \<Rightarrow> 's \<Rightarrow> resource \<Rightarrow> bool" where
  "enforced F sd nd host s r =
     (case load_yaml F (path_join sd (spec_file r)) of
        Ok j \<Rightarrow>
          (case fst (has_work r (or_empty j) s) of
             Ok False \<Rightarrow> True
           | Ok True \<Rightarrow>
               (let snap = path_join nd (host @ ''-'' @ res_name r @ ''.yml'') in
                exists F snap \<and>
                (case load_yaml F snap of Ok k \<Rightarrow> fst (diff_fn F r (or_empty j) (or_empty k) s) = Ok [] | _ \<Rightarrow> False))
           | _ \<Rightarrow> False)
      | _ \<Rightarrow> False)"

lemma load_doc_eq: "load_doc F path = bindE (liftE (load_yaml F path)) (\<lambda>j. retE (or_empty j))"
  by (simp add: load_doc_def or_empty_def)

lemma check_settled:
  "(\<exists>st. fst (check_resource F sd nd host r s) = Ok (st, []) \<and> \<not> bad st) \<longleftrightarrow> enforced F sd nd host s r"
proof -
  let ?sp = "path_join sd (spec_file r)" and ?sn = "path_join nd (host @ ''-'' @ res_name r @ ''.yml'')"
  show ?thesis
  proof (cases "load_yaml F ?sp")
    case (Ok j)
    have w: "has_work r (or_empty j) s = (fst (has_work r (or_empty j) s), s)" by (rule quiet_eq[OF quiet_work])
    show ?thesis
    proof (cases "fst (has_work r (or_empty j) s)")
      case work: (Ok b)
      show ?thesis
      proof (cases "b \<and> exists F ?sn")
        case False
        then show ?thesis
          using w Ok work
          by (auto simp: check_resource_def enforced_def load_doc_eq Let_def bindE_def catchE_def liftE_def retE_def bad_def)
      next
        case True
        show ?thesis
        proof (cases "load_yaml F ?sn")
          case sn: (Ok k)
          have d: "diff_fn F r (or_empty j) (or_empty k) s = (fst (diff_fn F r (or_empty j) (or_empty k) s), s)"
            by (rule quiet_eq[OF quiet_diff])
          show ?thesis
            using w d Ok work True sn
            by (cases "fst (diff_fn F r (or_empty j) (or_empty k) s)")
              (auto simp: check_resource_def enforced_def load_doc_eq Let_def bindE_def catchE_def liftE_def retE_def bad_def)
        qed (use w Ok work True in \<open>auto simp: check_resource_def enforced_def load_doc_eq Let_def bindE_def catchE_def
            liftE_def retE_def bad_def\<close>)
      qed
    qed (use w Ok in \<open>auto simp: check_resource_def enforced_def load_doc_eq Let_def bindE_def catchE_def liftE_def retE_def\<close>)
  qed (auto simp: check_resource_def enforced_def load_doc_eq Let_def bindE_def catchE_def liftE_def retE_def bad_def)
qed

text \<open>
  C18. The exit code is 0 exactly when the NAS is as the spec says: for each of the four resources the
  spec can be read, and it has nothing to enforce or the snapshot is there, can be read and shows no
  difference. No failure is taken for success.
\<close>

theorem exit_zero_iff_enforced:
  "fst (main F sd nd host False s) = Ok 0 \<longleftrightarrow> list_all (enforced F sd nd host s) RESOURCES"
proof -
  let ?f = "\<lambda>r. bindE (check_resource F sd nd host r) (\<lambda>x. retE (r, x))"
  have q: "keeps (=) (?f r)" for r by (intro quiet_rules quiet_check)
  have f: "fst (?f r s) = Ok y \<longleftrightarrow> fst y = r \<and> fst (check_resource F sd nd host r s) = Ok (snd y)" for r y
    by (cases "check_resource F sd nd host r s"; cases y; cases "fst (check_resource F sd nd host r s)")
      (auto simp: bindE_def retE_def)
  have m: "mapE ?f RESOURCES s = (fst (mapE ?f RESOURCES s), s)"
    by (rule quiet_eq) (intro quiet_rules quiet_check)
  have "fst (main F sd nd host False s) = Ok 0 \<longleftrightarrow>
      (\<exists>rows. fst (mapE ?f RESOURCES s) = Ok rows \<and> list_all (\<lambda>y. \<not> bad (fst (snd y)) \<and> snd (snd y) = []) rows)"
    using m unfolding main_def run_def
    by (cases "fst (mapE ?f RESOURCES s)")
      (auto simp: bindE_def retE_def list_ex_iff list_all_iff split: if_splits)
  also have "\<dots> \<longleftrightarrow> (\<exists>rows. list_all2 (\<lambda>r y. fst y = r \<and> fst (check_resource F sd nd host r s) = Ok (snd y) \<and>
      \<not> bad (fst (snd y)) \<and> snd (snd y) = []) RESOURCES rows)"
    unfolding quiet_mapE[OF q] f
    by (intro iff_exI) (auto simp: list_all2_conv_all_nth list_all_length)
  also have "\<dots> \<longleftrightarrow> list_all (enforced F sd nd host s) RESOURCES"
    unfolding RESOURCES_def check_settled[symmetric]
    by (simp add: list_all2_Cons1 ex_simps) blast
  finally show ?thesis .
qed

text \<open>
  But a spec file that holds a list instead of a mapping is not reported as an error: whether
  there is work is asked outside the handlers, the AttributeError leaves the program, and Python exits
  with 1, the code for drift.
\<close>

theorem list_spec_escapes:
  assumes "load_yaml F (path_join sd ''shares.yml'') = Ok (JArr (x # xs))"
  shows "fst (main F sd nd host metrics s) = Exc AttributeError"
  using assms
  by (simp add: main_def run_def RESOURCES_def check_resource_def load_doc_def spec_file_def truthy_def has_work_def
      has_key_def bool_get_def get_key_def bindE_def catchE_def liftE_def retE_def raiseE_def res_name_def Let_def)

theorem list_spec_escapes_witness:
  "fst (main \<lparr>load_yaml = \<lambda>p. Ok (JArr [JStr ''maya'']), exists = \<lambda>p. True, loads = \<lambda>t. None,
     write_metrics = \<lambda>t. Ok (), time = 0\<rparr> ''spec'' ''snap'' ''nas'' True (0 :: nat)) = Exc AttributeError"
  using list_spec_escapes[where F = "\<lparr>load_yaml = \<lambda>p. Ok (JArr [JStr ''maya'']), exists = \<lambda>p. True,
      loads = \<lambda>t. None, write_metrics = \<lambda>t. Ok (), time = 0\<rparr>" and x = "JStr ''maya''" and xs = "[]"]
  by simp

end
