(* ===== verification/Host.thy ===== *)
theory Host
  imports Pylib
begin

text \<open>
  A NAS as an applier sees it: a tree of files, and everything else (containers, servers, the clock)
  as an outer state that only the parameters of a \<open>host\<close> read and change. Each call to the operating
  system may fail or be the last one: \<open>fate\<close> decides. The helpers that every subcommand of
  \<open>apply_garage.py\<close> shares are modelled here: running a command, reading and atomically writing a
  file, talking to the admin API, and printing the result line.
\<close>

section \<open>The host\<close>

text \<open>A regular file has contents, permission bits and an owner and group.\<close>

datatype node = Dir | Plain string nat "int \<times> int"

type_synonym tree = "string \<Rightarrow> node option"

datatype fsop =
    MkDir string | MkTemp string | WriteTo string string | Chmod string nat | Chown string "int \<times> int"
  | Replace string string | Unlink string | ReadFile string | Stat string

datatype fate = Go | Fails errno | Killed

text \<open>
  A request to the admin API with its query and its JSON body before encoding, and the answer: a body
  is empty, a JSON document or some other text.
\<close>

record request =
  rq_method :: string
  rq_port :: int
  rq_path :: string
  rq_query :: "(string \<times> json) list"
  rq_token :: string
  rq_body :: "json option"

datatype content = Empty | Doc json | Junk string

datatype reply = Answer int content | HttpError int content | NoAnswer exc

datatype act = Cmd "string list" | Req request | Sys fsop

record 'w box =
  files :: tree
  outer :: 'w
  acts :: "act list"
  stdout :: "string list"

record 'w host =
  environ :: "string \<Rightarrow> string option"
  subprocess :: "string list \<Rightarrow> tree \<times> 'w \<Rightarrow> (int \<times> string \<times> string) res \<times> (tree \<times> 'w)"
  http :: "request \<Rightarrow> 'w \<Rightarrow> reply \<times> 'w"
  clock :: "'w \<Rightarrow> rat"
  sleep :: "rat \<Rightarrow> 'w \<Rightarrow> 'w"
  fate :: "fsop \<Rightarrow> 'w \<Rightarrow> fate \<times> 'w"
  torn :: "'w \<Rightarrow> nat"
  random_name :: "'w \<Rightarrow> string"
  euid :: "int \<times> int"
  sha256 :: "string \<Rightarrow> string"
  loads :: "string \<Rightarrow> json option"
  exc_text :: "exc \<Rightarrow> string"

text \<open>Permission bits, one octal digit for the owner, the group and the others.\<close>

definition perm :: "nat \<Rightarrow> nat \<Rightarrow> nat \<Rightarrow> nat" where
  "perm u g o' = 64 * u + 8 * g + o'"

section \<open>System calls\<close>

text \<open>A call is recorded, and its fate is decided before it has any effect.\<close>

definition os_call :: "'w host \<Rightarrow> fsop \<Rightarrow> ('w box, unit) eff" where
  "os_call H c s =
     (case fate H c (outer s) of
        (f, w) \<Rightarrow>
          let t = s\<lparr>outer := w, acts := acts s @ [Sys c]\<rparr> in
          case f of Go \<Rightarrow> (Ok (), t) | Fails n \<Rightarrow> (Exc (OSError n), t) | Killed \<Rightarrow> (Halt, t))"

definition set_file :: "string \<Rightarrow> node option \<Rightarrow> ('w box, unit) eff" where
  "set_file p n = modE (\<lambda>s. s\<lparr>files := (files s)(p := n)\<rparr>)"

definition is_dir :: "tree \<Rightarrow> string \<Rightarrow> bool" where
  "is_dir fs p = (p = [] \<or> p = ''.'' \<or> p = ''/'' \<or> fs p = Some Dir)"

definition oserror :: "errno \<Rightarrow> ('w box, 'a) eff" where
  "oserror n = raiseE (OSError n)"

definition os_mkdir :: "'w host \<Rightarrow> string \<Rightarrow> ('w box, unit) eff" where
  "os_mkdir H p =
     bindE (os_call H (MkDir p)) (\<lambda>_. bindE (getE files) (\<lambda>fs.
       if p = [] then oserror ENOENT
       else if is_dir fs p \<or> fs p \<noteq> None then oserror EEXIST
       else if is_dir fs (dirname p) then set_file p (Some Dir)
       else oserror (if fs (dirname p) = None then ENOENT else ENOTDIR)))"

text \<open>\<open>os.path.exists(p)\<close> and \<open>os.path.isdir(p)\<close>: a call that fails reads as no.\<close>

definition os_exists :: "'w host \<Rightarrow> string \<Rightarrow> ('w box, bool) eff" where
  "os_exists H p =
     catchE (bindE (os_call H (Stat p)) (\<lambda>_. getE (\<lambda>s. (p \<noteq> [] \<and> is_dir (files s) p) \<or> files s p \<noteq> None)))
       is_OSError (\<lambda>_. retE False)"

definition os_isdir :: "'w host \<Rightarrow> string \<Rightarrow> ('w box, bool) eff" where
  "os_isdir H p =
     catchE (bindE (os_call H (Stat p)) (\<lambda>_. getE (\<lambda>s. p \<noteq> [] \<and> is_dir (files s) p)))
       is_OSError (\<lambda>_. retE False)"

text \<open>\<open>os.stat(p).st_uid\<close>; directories belong to root.\<close>

definition os_stat_uid :: "'w host \<Rightarrow> string \<Rightarrow> ('w box, int) eff" where
  "os_stat_uid H p =
     bindE (os_call H (Stat p)) (\<lambda>_. bindE (getE (\<lambda>s. files s p)) (\<lambda>n.
       case n of None \<Rightarrow> oserror ENOENT | Some Dir \<Rightarrow> retE 0 | Some (Plain c m ids) \<Rightarrow> retE (fst ids)))"

text \<open>\<open>os.makedirs(p, exist_ok=True)\<close>.\<close>

definition make_dir :: "'w host \<Rightarrow> string \<Rightarrow> ('w box, unit) eff" where
  "make_dir H p =
     catchE (os_mkdir H p) is_OSError (\<lambda>e. bindE (os_isdir H p) (\<lambda>d. if d then retE () else raiseE e))"

definition makedirs :: "'w host \<Rightarrow> string \<Rightarrow> ('w box, unit) eff" where
  "makedirs H p =
     bindE (forE (ancestors p) (\<lambda>q. bindE (os_exists H q) (\<lambda>there. if there then retE () else make_dir H q)))
       (\<lambda>_. make_dir H p)"

text \<open>\<open>tempfile.mkstemp(prefix=".krg-", dir=d)\<close>: a new empty file, readable by its owner only.\<close>

definition mkstemp :: "'w host \<Rightarrow> string \<Rightarrow> ('w box, string) eff" where
  "mkstemp H d =
     bindE (getE (\<lambda>s. path_join d (''.krg-'' @ random_name H (outer s)))) (\<lambda>tmp.
     bindE (os_call H (MkTemp tmp)) (\<lambda>_. bindE (getE files) (\<lambda>fs.
       if fs tmp \<noteq> None then oserror EEXIST
       else if \<not> is_dir fs d then oserror ENOENT
       else bindE (set_file tmp (Some (Plain [] (perm 6 0 0) (euid H)))) (\<lambda>_. retE tmp))))"

text \<open>Changing a file that is there; for a directory nothing of interest changes.\<close>

definition edit_file :: "string \<Rightarrow> (node \<Rightarrow> node) \<Rightarrow> ('w box, unit) eff" where
  "edit_file p f =
     bindE (getE (\<lambda>s. files s p)) (\<lambda>n. case n of None \<Rightarrow> oserror ENOENT | Some x \<Rightarrow> set_file p (Some (f x)))"

definition set_content :: "string \<Rightarrow> node \<Rightarrow> node" where
  "set_content c n = (case n of Dir \<Rightarrow> Dir | Plain _ m ids \<Rightarrow> Plain c m ids)"

definition set_mode :: "nat \<Rightarrow> node \<Rightarrow> node" where
  "set_mode m n = (case n of Dir \<Rightarrow> Dir | Plain c _ ids \<Rightarrow> Plain c m ids)"

definition set_owner :: "int \<times> int \<Rightarrow> node \<Rightarrow> node" where
  "set_owner ids n = (case n of Dir \<Rightarrow> Dir | Plain c m _ \<Rightarrow> Plain c m ids)"

text \<open>Writing through a descriptor: when it does not come to its end some first part is in the file.\<close>

definition os_write :: "'w host \<Rightarrow> string \<Rightarrow> string \<Rightarrow> ('w box, unit) eff" where
  "os_write H p c =
     bindE (getE (\<lambda>s. torn H (outer s))) (\<lambda>k.
     bindE (edit_file p (set_content (take k c))) (\<lambda>_.
     bindE (os_call H (WriteTo p c)) (\<lambda>_. edit_file p (set_content c))))"

definition os_chmod :: "'w host \<Rightarrow> string \<Rightarrow> nat \<Rightarrow> ('w box, unit) eff" where
  "os_chmod H p m = bindE (os_call H (Chmod p m)) (\<lambda>_. edit_file p (set_mode m))"

definition os_chown :: "'w host \<Rightarrow> string \<Rightarrow> int \<times> int \<Rightarrow> ('w box, unit) eff" where
  "os_chown H p ids = bindE (os_call H (Chown p ids)) (\<lambda>_. edit_file p (set_owner ids))"

definition os_replace :: "'w host \<Rightarrow> string \<Rightarrow> string \<Rightarrow> ('w box, unit) eff" where
  "os_replace H a b =
     bindE (os_call H (Replace a b)) (\<lambda>_. bindE (getE files) (\<lambda>fs.
       if fs a = None then oserror ENOENT
       else if is_dir fs b then oserror EISDIR
       else modE (\<lambda>s. s\<lparr>files := fs(a := None, b := fs a)\<rparr>)))"

definition os_unlink :: "'w host \<Rightarrow> string \<Rightarrow> ('w box, unit) eff" where
  "os_unlink H p =
     bindE (os_call H (Unlink p)) (\<lambda>_. bindE (getE files) (\<lambda>fs.
       if fs p = None then oserror ENOENT
       else if is_dir fs p then oserror EISDIR
       else set_file p None))"

text \<open>Reading text turns \<open>\r\n\<close> and \<open>\r\<close> into \<open>\n\<close>.\<close>

fun universal_newlines :: "string \<Rightarrow> string" where
  "universal_newlines (a # b # r) =
     (if a = CHR 0x0D then CHR 0x0A # universal_newlines (if b = CHR 0x0A then r else b # r)
      else a # universal_newlines (b # r))"
| "universal_newlines [a] = [if a = CHR 0x0D then CHR 0x0A else a]"
| "universal_newlines [] = []"

definition read_text :: "'w host \<Rightarrow> string \<Rightarrow> ('w box, string) eff" where
  "read_text H p =
     bindE (os_call H (ReadFile p)) (\<lambda>_. bindE (getE files) (\<lambda>fs.
       if is_dir fs p then oserror (if p = [] then ENOENT else EISDIR)
       else case fs p of Some (Plain c m ids) \<Rightarrow> retE (universal_newlines c) | _ \<Rightarrow> oserror ENOENT))"

section \<open>Helpers of \<open>apply_garage.py\<close>\<close>

definition run_tool :: "'w host \<Rightarrow> string list \<Rightarrow> ('w box, int \<times> string \<times> string) eff" where
  "run_tool H argv s =
     (case subprocess H argv (files s, outer s) of
        (r, fs, w) \<Rightarrow> (r, s\<lparr>files := fs, outer := w, acts := acts s @ [Cmd argv]\<rparr>))"

definition run_cmd :: "'w host \<Rightarrow> string list \<Rightarrow> ('w box, int \<times> string \<times> string) eff" where
  "run_cmd H argv =
     catchE (run_tool H argv) (\<lambda>e. e = OSError ENOENT)
       (\<lambda>e. retE (127, [], ''binary not found on PATH: '' @ (case argv of [] \<Rightarrow> ''<empty>'' | c # _ \<Rightarrow> c) @
          '' ('' @ exc_text H e @ '')''))"

definition read_file :: "'w host \<Rightarrow> string \<Rightarrow> ('w box, string option) eff" where
  "read_file H path =
     catchE (bindE (read_text H path) (\<lambda>c. retE (Some c))) (\<lambda>e. e = OSError ENOENT \<or> e = OSError EISDIR)
       (\<lambda>_. retE None)"

definition atomic_write :: "'w host \<Rightarrow> string \<Rightarrow> string \<Rightarrow> nat \<Rightarrow> int \<times> int \<Rightarrow> ('w box, unit) eff" where
  "atomic_write H path content mode ids =
     (let d = (if dirname path = [] then ''.'' else dirname path) in
      bindE (makedirs H d) (\<lambda>_. bindE (mkstemp H d) (\<lambda>tmp.
        catchE
          (bindE (os_write H tmp content) (\<lambda>_. bindE (os_chmod H tmp mode) (\<lambda>_.
           bindE (os_chown H tmp ids) (\<lambda>_. os_replace H tmp path))))
          is_Exception
          (\<lambda>e. bindE (catchE (os_unlink H tmp) (\<lambda>x. x = OSError ENOENT) (\<lambda>_. retE ())) (\<lambda>_. raiseE e)))))"

definition say :: "string \<Rightarrow> ('w box, unit) eff" where
  "say line = modE (\<lambda>s. s\<lparr>stdout := stdout s @ [line]\<rparr>)"

definition emit :: "string \<Rightarrow> (string \<times> json) list \<Rightarrow> bool \<Rightarrow> ('w box, int) eff" where
  "emit state payload check =
     bindE
       (if state = ''no-change'' then say ''OK no-change''
        else if check then say (''WOULD-CHANGE '' @ dumps (sort_keys (JObj payload)))
        else say (''CHANGED '' @ dumps (sort_keys (JObj payload))))
       (\<lambda>_. retE 0)"

definition fail :: "(string \<times> json) list \<Rightarrow> ('w box, int) eff" where
  "fail payload = bindE (say (''FAIL '' @ dumps (JObj payload))) (\<lambda>_. retE 1)"

text \<open>\<open>os.environ.get(v, "")\<close>.\<close>

definition getenv :: "'w host \<Rightarrow> string \<Rightarrow> string" where
  "getenv H v = (case environ H v of None \<Rightarrow> [] | Some s \<Rightarrow> s)"

text \<open>\<open>json.loads(s)\<close>, and \<open>str(e)\<close> of an exception.\<close>

definition json_loads :: "'w host \<Rightarrow> string \<Rightarrow> ('s, json) eff" where
  "json_loads H s = (case loads H s of None \<Rightarrow> raiseE ValueError | Some j \<Rightarrow> retE j)"

definition str_exc :: "'w host \<Rightarrow> exc \<Rightarrow> string" where
  "str_exc H e = (case e of BadValue msg \<Rightarrow> msg | RuntimeError msg \<Rightarrow> msg | _ \<Rightarrow> exc_text H e)"

definition is_ValueError :: "exc \<Rightarrow> bool" where
  "is_ValueError e = (case e of ValueError \<Rightarrow> True | BadValue _ \<Rightarrow> True | _ \<Rightarrow> False)"

section \<open>The admin API\<close>

definition send :: "'w host \<Rightarrow> request \<Rightarrow> ('w box, reply) eff" where
  "send H r s = (case http H r (outer s) of (a, w) \<Rightarrow> (Ok a, s\<lparr>outer := w, acts := acts s @ [Req r]\<rparr>))"

definition admin_request ::
  "'w host \<Rightarrow> int \<Rightarrow> string \<Rightarrow> string \<Rightarrow> string \<Rightarrow> (string \<times> json) list \<Rightarrow> json option \<Rightarrow> ('w box, int \<times> json) eff" where
  "admin_request H port token method path query body =
     bindE
       (send H \<lparr>rq_method = method, rq_port = port, rq_path = path, rq_query = query, rq_token = token, rq_body = body\<rparr>)
       (\<lambda>a. case a of
          Answer status raw \<Rightarrow>
            (case raw of Empty \<Rightarrow> retE (status, JNull) | Doc j \<Rightarrow> retE (status, j) | Junk _ \<Rightarrow> raiseE ValueError)
        | HttpError status raw \<Rightarrow>
            retE (status, case raw of Empty \<Rightarrow> JNull | Doc j \<Rightarrow> j | Junk t \<Rightarrow> JObj [(''raw'', JStr t)])
        | NoAnswer e \<Rightarrow> raiseE e)"

section \<open>Early returns\<close>

text \<open>
  A statement that may return from the function: \<open>Inl\<close> carries the function's result, \<open>Inr\<close> the
  value with which it goes on. \<open>walkE\<close> is a loop of such statements, \<open>attempt\<close> a \<open>try\<close> whose handler
  reports and returns.
\<close>

definition andthen :: "('s, 'r + 'a) eff \<Rightarrow> ('a \<Rightarrow> ('s, 'r) eff) \<Rightarrow> ('s, 'r) eff" where
  "andthen m k = bindE m (\<lambda>x. case x of Inl r \<Rightarrow> retE r | Inr y \<Rightarrow> k y)"

primrec walkE :: "('a \<Rightarrow> 'x \<Rightarrow> ('s, 'r + 'a) eff) \<Rightarrow> 'a \<Rightarrow> 'x list \<Rightarrow> ('s, 'r + 'a) eff" where
  "walkE f a [] = retE (Inr a)"
| "walkE f a (x # xs) = bindE (f a x) (\<lambda>r. case r of Inl e \<Rightarrow> retE (Inl e) | Inr b \<Rightarrow> walkE f b xs)"

definition go_on :: "'a \<Rightarrow> ('s, 'r + 'a) eff" where
  "go_on x = retE (Inr x)"

definition stop_with :: "(string \<times> json) list \<Rightarrow> ('w box, int + 'a) eff" where
  "stop_with payload = bindE (fail payload) (\<lambda>rc. retE (Inl rc))"

definition attempt ::
  "('w box, 'a) eff \<Rightarrow> (exc \<Rightarrow> bool) \<Rightarrow> (exc \<Rightarrow> (string \<times> json) list) \<Rightarrow> ('w box, int + 'a) eff" where
  "attempt m c report =
     bindE (catchE (bindE m (\<lambda>x. retE (Inr x))) c (\<lambda>e. retE (Inl e)))
       (\<lambda>r. case r of Inl e \<Rightarrow> stop_with (report e) | Inr x \<Rightarrow> go_on x)"

section \<open>What a program does to its host\<close>

text \<open>\<open>did A s t\<close>: from \<open>s\<close> to \<open>t\<close> only actions in \<open>A\<close> were taken.\<close>

definition did :: "(act \<Rightarrow> bool) \<Rightarrow> 'w box \<Rightarrow> 'w box \<Rightarrow> bool" where
  "did A s t \<longleftrightarrow> (\<exists>xs. acts t = acts s @ xs \<and> list_all A xs)"

interpretation does: frame "did A" for A
proof
  show "did A s s" for s :: "'a box" by (auto simp: did_def)
  show "did A s u" if "did A s t" "did A t u" for s t u :: "'a box"
    using that by (force simp: did_def)
qed

lemma does_mono: "keeps (did A) m \<Longrightarrow> (\<And>a. A a \<Longrightarrow> B a) \<Longrightarrow> keeps (did B) m"
  unfolding keeps_def did_def by (metis (full_types) list.pred_mono_strong)

lemma does_basic:
  "A (Sys c) \<Longrightarrow> keeps (did A) (os_call H c)"
  "A (Cmd argv) \<Longrightarrow> keeps (did A) (run_tool H argv)"
  "A (Req r) \<Longrightarrow> keeps (did A) (send H r)"
  "keeps (did A) (say line)" "keeps (did A) (set_file p n)" "keeps (did A) (oserror eno)"
  by (auto simp: keeps_def os_call_def run_tool_def send_def say_def set_file_def oserror_def raiseE_def modE_def
      did_def Let_def split: prod.split fate.split)

lemma does_edit: "keeps (did A) (edit_file p f)"
  unfolding edit_file_def by (auto intro!: does.keeps_rules does_basic split: option.split)

lemma does_looking:
  "A (Sys (Stat p)) \<Longrightarrow> keeps (did A) (os_exists H p)"
  "A (Sys (Stat p)) \<Longrightarrow> keeps (did A) (os_isdir H p)"
  "A (Sys (Stat p)) \<Longrightarrow> keeps (did A) (os_stat_uid H p)"
  "A (Sys (ReadFile p)) \<Longrightarrow> keeps (did A) (read_text H p)"
  "A (Sys (ReadFile p)) \<Longrightarrow> keeps (did A) (read_file H p)"
  unfolding os_exists_def os_isdir_def os_stat_uid_def read_text_def read_file_def
  by (auto intro!: does.keeps_rules does_basic split: option.split node.split)

lemma does_run_cmd: "A (Cmd argv) \<Longrightarrow> keeps (did A) (run_cmd H argv)"
  unfolding run_cmd_def by (intro does.keeps_rules does_basic)

lemma does_result: "keeps (did A) (emit st payload check)" "keeps (did A) (fail payload)"
  unfolding emit_def fail_def by (auto intro!: does.keeps_rules does_basic)

lemma does_loads: "keeps (did A) (json_loads H s)"
  unfolding json_loads_def by (auto intro!: does.keeps_rules split: option.split)

lemma does_admin_request:
  "A (Req \<lparr>rq_method = method, rq_port = port, rq_path = path, rq_query = query, rq_token = token, rq_body = body\<rparr>) \<Longrightarrow>
     keeps (did A) (admin_request H port token method path query body)"
  unfolding admin_request_def
  by (auto intro!: does.keeps_rules does_basic split: reply.split content.split)

lemma does_andthen: "keeps (did A) m \<Longrightarrow> (\<And>x. keeps (did A) (k x)) \<Longrightarrow> keeps (did A) (andthen m k)"
  unfolding andthen_def by (auto intro!: does.keeps_rules split: sum.split)

lemma does_walkE: "(\<And>a x. x \<in> set xs \<Longrightarrow> keeps (did A) (f a x)) \<Longrightarrow> keeps (did A) (walkE f a xs)"
  by (induction xs arbitrary: a) (auto intro!: does.keeps_rules split: sum.split)

lemma does_stops: "keeps (did A) (go_on x)" "keeps (did A) (stop_with payload)"
  unfolding go_on_def stop_with_def by (auto intro!: does.keeps_rules does_result)

lemma does_attempt: "keeps (did A) m \<Longrightarrow> keeps (did A) (attempt m c report)"
  unfolding attempt_def by (auto intro!: does.keeps_rules does_stops split: sum.split)

lemmas does_rules =
  does_andthen does_walkE does_stops does_attempt
  does.keeps_rules does.keeps_json does.keeps_json_derived does.keeps_pylib does_basic does_edit does_looking
  does_run_cmd does_result does_loads does_admin_request

end
