(* ===== verification/Garage_Config.thy ===== *)
theory Garage_Config
  imports Host
begin

text \<open>
  The subcommands of \<open>ansible/synology/roles/synology_garage/files/apply_garage.py\<close> that render a
  configuration file or converge a container: render-config, deploy, layout, render-ui-config and
  deploy-ui. The parsed command line is a record per subcommand. A \<open>'w host\<close> is the NAS.
\<close>

section \<open>Templates\<close>

definition GARAGE_TOML_TEMPLATE :: "piece list" where
  "GARAGE_TOML_TEMPLATE =
     [Txt ''# RENDERED BY synology_garage ansible role '', Txt em_dash, Txt '' DO NOT HAND-EDIT.'', Eol,
      Txt ''# Source of truth: spec/e4e-nas/garage.yml + extra_vars secrets.'', Eol,
      Txt ''metadata_dir = '', Quo, Txt ''/var/lib/garage/meta'', Quo, Eol,
      Txt ''data_dir = '', Quo, Txt ''/var/lib/garage/data'', Quo, Eol,
      Txt ''db_engine = '', Quo, Fld ''db_engine'', Quo, Eol,
      Eol,
      Txt ''replication_factor = '', Dec ''replication_factor'', Eol,
      Eol,
      Txt ''compression_level = '', Dec ''compression_level'', Eol,
      Eol,
      Txt ''rpc_bind_addr = '', Quo, Fld ''rpc_bind_addr'', Quo, Eol,
      Txt ''rpc_public_addr = '', Quo, Fld ''rpc_public_addr'', Quo, Eol,
      Txt ''rpc_secret = '', Quo, Fld ''rpc_secret'', Quo, Eol,
      Eol,
      Txt ''[s3_api]'', Eol,
      Txt ''api_bind_addr = '', Quo, Fld ''s3_api_bind_addr'', Quo, Eol,
      Txt ''s3_region = '', Quo, Fld ''s3_region'', Quo, Eol,
      Txt ''root_domain = '', Quo, Fld ''s3_root_domain'', Quo, Eol,
      Eol,
      Txt ''[s3_web]'', Eol,
      Txt ''bind_addr = '', Quo, Fld ''s3_web_bind_addr'', Quo, Eol,
      Txt ''root_domain = '', Quo, Fld ''s3_web_root_domain'', Quo, Eol,
      Txt ''index = '', Quo, Fld ''s3_web_index'', Quo, Eol,
      Eol,
      Txt ''[admin]'', Eol,
      Txt ''api_bind_addr = '', Quo, Fld ''admin_api_bind_addr'', Quo, Eol,
      Txt ''admin_token = '', Quo, Fld ''admin_token'', Quo, Eol,
      Txt ''metrics_token = '', Quo, Fld ''metrics_token'', Quo, Eol]"

definition COMPOSE_TEMPLATE :: "piece list" where
  "COMPOSE_TEMPLATE =
     [Txt ''# RENDERED BY synology_garage ansible role '', Txt em_dash, Txt '' DO NOT HAND-EDIT.'', Eol,
      Txt ''# Source of truth: spec/e4e-nas/garage.yml deployment block.'', Eol,
      Txt ''services:'', Eol,
      Txt ''  '', Fld ''container_name'', Txt '':'', Eol,
      Txt ''    image: '', Fld ''image'', Txt '':'', Fld ''image_tag'', Eol,
      Txt ''    container_name: '', Fld ''container_name'', Eol,
      Txt ''    restart: '', Fld ''restart_policy'', Eol,
      Txt ''    network_mode: '', Fld ''network_mode'', Eol,
      Txt ''    environment:'', Eol,
      Txt ''      RUST_LOG: '', Fld ''rust_log'', Eol,
      Txt ''    volumes:'', Eol,
      Txt ''      - '', Fld ''meta_dir'', Txt '':/var/lib/garage/meta'', Eol,
      Txt ''      - '', Fld ''data_dir'', Txt '':/var/lib/garage/data'', Eol,
      Txt ''      - '', Fld ''config_path'', Txt '':/etc/garage.toml:ro'', Eol]"

definition GARAGE_UI_CONFIG_TEMPLATE :: "piece list" where
  "GARAGE_UI_CONFIG_TEMPLATE =
     [Txt ''# RENDERED BY synology_garage ansible role '', Txt em_dash, Txt '' DO NOT HAND-EDIT.'', Eol,
      Txt ''# Source of truth: spec/e4e-nas/garage.yml `ui:` block + the'', Eol,
      Txt ''# GARAGE_UI_OIDC_CLIENT_SECRET env var.'', Eol,
      Txt ''server:'', Eol,
      Txt ''  host: '', Quo, Fld ''bind_host'', Quo, Eol,
      Txt ''  port: '', Dec ''port'', Eol,
      Txt ''  environment: production'', Eol,
      Txt ''  domain: '', Quo, Fld ''public_hostname'', Quo, Eol,
      Txt ''  protocol: https'', Eol,
      Txt ''  root_url: '', Quo, Fld ''public_url'', Quo, Eol,
      Eol,
      Txt ''garage:'', Eol,
      Txt ''  endpoint: '', Quo, Txt ''http://127.0.0.1:'', Dec ''garage_s3_port'', Quo, Eol,
      Txt ''  region: '', Quo, Fld ''garage_region'', Quo, Eol,
      Txt ''  admin_endpoint: '', Quo, Txt ''http://127.0.0.1:'', Dec ''garage_admin_port'', Quo, Eol,
      Txt ''  admin_token: '', Quo, Fld ''garage_admin_token'', Quo, Eol,
      Eol,
      Txt ''auth:'', Eol,
      Txt ''  jwt_private_key: '', Quo, Fld ''jwt_private_key'', Quo, Eol,
      Txt ''  admin:'', Eol,
      Txt ''    enabled: false'', Eol,
      Txt ''  token:'', Eol,
      Txt ''    enabled: false'', Eol,
      Txt ''  oidc:'', Eol,
      Txt ''    enabled: true'', Eol,
      Txt ''    provider_name: '', Quo, Fld ''oidc_provider_name'', Quo, Eol,
      Txt ''    client_id: '', Quo, Fld ''oidc_client_id'', Quo, Eol,
      Txt ''    client_secret: '', Quo, Fld ''oidc_client_secret'', Quo, Eol,
      Txt ''    scopes:'', Eol,
      Fld ''oidc_scopes_yaml'', Eol,
      Txt ''    issuer_url: '', Quo, Fld ''oidc_issuer_url'', Quo, Eol,
      Txt ''    skip_issuer_check: false'', Eol,
      Txt ''    skip_expiry_check: false'', Eol,
      Txt ''    email_attribute: '', Quo, Txt ''email'', Quo, Eol,
      Txt ''    username_attribute: '', Quo, Txt ''preferred_username'', Quo, Eol,
      Txt ''    name_attribute: '', Quo, Txt ''name'', Quo, Eol,
      Txt ''    role_attribute_path: '', Quo, Fld ''oidc_role_attribute_path'', Quo, Eol,
      Txt ''    admin_roles:'', Eol,
      Fld ''oidc_admin_roles_yaml'', Eol,
      Txt ''    tls_skip_verify: false'', Eol,
      Txt ''    session_max_age: 86400'', Eol,
      Txt ''    cookie_name: '', Quo, Txt ''garage_ui_session'', Quo, Eol,
      Txt ''    cookie_secure: true'', Eol,
      Txt ''    cookie_http_only: true'', Eol,
      Txt ''    cookie_same_site: '', Quo, Txt ''lax'', Quo, Eol,
      Eol,
      Txt ''cors:'', Eol,
      Txt ''  enabled: false'', Eol,
      Eol,
      Txt ''logging:'', Eol,
      Txt ''  level: '', Quo, Txt ''info'', Quo, Eol,
      Txt ''  format: '', Quo, Txt ''json'', Quo, Eol]"

definition GARAGE_UI_COMPOSE_TEMPLATE :: "piece list" where
  "GARAGE_UI_COMPOSE_TEMPLATE =
     [Txt ''# RENDERED BY synology_garage ansible role '', Txt em_dash, Txt '' DO NOT HAND-EDIT.'', Eol,
      Txt ''# Source of truth: spec/e4e-nas/garage.yml `ui:` block.'', Eol,
      Txt ''# NOTE: garage + garage-ui are SEPARATE compose projects, so no'', Eol,
      Txt ''# `depends_on:` (cross-project depends aren'', Txt [CHR 0x27], Txt ''t supported). If garage isn'', Txt [CHR 0x27], Txt ''t'', Eol,
      Txt ''# up yet, `restart: unless-stopped` reconverges. Both use host networking,'', Eol,
      Txt ''# so UI reaches garage at 127.0.0.1:3900 / 127.0.0.1:3903.'', Eol,
      Txt ''#'', Eol,
      Txt ''# The image has NO ENTRYPOINT and `CMD ['', Quo, Txt ''./garage-ui'', Quo, Txt '']` (WORKDIR /app); it reads'', Eol,
      Txt ''# config from the FIXED path /app/config.yaml automatically '', Txt em_dash, Txt '' there is no'', Eol,
      Txt ''# `--config` flag. So we do NOT override `command:` (overriding it dropped the'', Eol,
      Txt ''# binary '', Txt right_arrow, Txt '' docker exec'', Txt [CHR 0x27], Txt ''d '', Quo, Txt ''--config'', Quo, Txt '' as argv[0]) and mount the config to'', Eol,
      Txt ''# /app/config.yaml.'', Eol,
      Txt ''#'', Eol,
      Txt ''# We DON'', Txt [CHR 0x27], Txt ''T override `user:` '', Txt em_dash, Txt '' the image runs as its non-root USER garageui'', Eol,
      Txt ''# (UID 1000), and render-ui-config writes config.yaml owned by that UID (mode'', Eol,
      Txt ''# 0400) so the container can read its own secret-bearing config without running'', Eol,
      Txt ''# as root. See _GARAGE_UI_UID.'', Eol,
      Txt ''services:'', Eol,
      Txt ''  '', Fld ''container_name'', Txt '':'', Eol,
      Txt ''    image: '', Fld ''image'', Txt '':'', Fld ''image_tag'', Eol,
      Txt ''    container_name: '', Fld ''container_name'', Eol,
      Txt ''    restart: unless-stopped'', Eol,
      Txt ''    network_mode: host'', Eol,
      Txt ''    volumes:'', Eol,
      Txt ''      - '', Fld ''config_path'', Txt '':/app/config.yaml:ro'', Eol]"

section \<open>Rendering the configuration of Garage\<close>

definition SECRET_ENV_VARS :: "string list" where
  "SECRET_ENV_VARS = [''GARAGE_RPC_SECRET'', ''GARAGE_ADMIN_TOKEN'', ''GARAGE_METRICS_TOKEN'']"

record render_config_args =
  rc_config_path :: string
  rc_db_engine :: string
  rc_replication_factor :: string
  rc_compression_level :: string
  rc_rpc_bind_addr :: string
  rc_rpc_public_addr :: string
  rc_s3_api_bind_addr :: string
  rc_s3_region :: string
  rc_s3_root_domain :: string
  rc_s3_web_bind_addr :: string
  rc_s3_web_root_domain :: string
  rc_s3_web_index :: string
  rc_admin_api_bind_addr :: string
  rc_meta_dir :: string
  rc_data_dir :: string
  rc_check :: bool

definition config_fields :: "'w host \<Rightarrow> render_config_args \<Rightarrow> ('s, (string \<times> fval) list) eff" where
  "config_fields H a =
     bindE (int_of_text (rc_replication_factor a)) (\<lambda>rf. bindE (int_of_text (rc_compression_level a)) (\<lambda>cl.
       retE
         [(''db_engine'', FS (rc_db_engine a)),
          (''replication_factor'', FN rf),
          (''compression_level'', FN cl),
          (''rpc_bind_addr'', FS (rc_rpc_bind_addr a)),
          (''rpc_public_addr'', FS (rc_rpc_public_addr a)),
          (''rpc_secret'', FS (getenv H ''GARAGE_RPC_SECRET'')),
          (''s3_api_bind_addr'', FS (rc_s3_api_bind_addr a)),
          (''s3_region'', FS (rc_s3_region a)),
          (''s3_root_domain'', FS (rc_s3_root_domain a)),
          (''s3_web_bind_addr'', FS (rc_s3_web_bind_addr a)),
          (''s3_web_root_domain'', FS (rc_s3_web_root_domain a)),
          (''s3_web_index'', FS (rc_s3_web_index a)),
          (''admin_api_bind_addr'', FS (rc_admin_api_bind_addr a)),
          (''admin_token'', FS (getenv H ''GARAGE_ADMIN_TOKEN'')),
          (''metrics_token'', FS (getenv H ''GARAGE_METRICS_TOKEN''))]))"

text \<open>A text with a double quote or a line break in it, and the first field that holds one.\<close>

definition breaks_literal :: "string \<Rightarrow> bool" where
  "breaks_literal s = list_ex (\<lambda>c. c = CHR 0x22 \<or> c = CHR 0x0A \<or> c = CHR 0x0D) s"

definition bad_field :: "(string \<times> fval) list \<Rightarrow> string option" where
  "bad_field fs =
     map_option fst (List.find (\<lambda>p. case snd p of FS s \<Rightarrow> breaks_literal s | FN n \<Rightarrow> False) fs)"

definition do_render_config :: "'w host \<Rightarrow> render_config_args \<Rightarrow> ('w box, int) eff" where
  "do_render_config H a =
     (let missing = filter (\<lambda>v. getenv H v = []) SECRET_ENV_VARS in
      if missing \<noteq> [] then
        fail [(''reason'', JStr ''required secret env vars unset''), (''vars'', JArr (map JStr missing))]
      else
        bindE (config_fields H a) (\<lambda>fs.
          case bad_field fs of
            Some k \<Rightarrow> fail [(''reason'', JStr ''field contains unescaped quote or newline''), (''field'', JStr k)]
          | None \<Rightarrow>
              bindE (fill GARAGE_TOML_TEMPLATE fs) (\<lambda>desired.
              bindE (read_file H (rc_config_path a)) (\<lambda>current.
                let payload =
                  [(''config_path'', JStr (rc_config_path a)), (''had_existing'', JBool (current \<noteq> None)),
                   (''desired_sha256'', JStr (sha256 H desired))] in
                if map_option (sha256 H) current = Some (sha256 H desired) then emit ''no-change'' [] (rc_check a)
                else if rc_check a then emit ''would-change'' payload True
                else
                  bindE (atomic_write H (rc_config_path a) desired (perm 4 0 0) (0, 0))
                    (\<lambda>_. emit ''changed'' payload False)))))"

section \<open>Deploying a container\<close>

definition container_running :: "'w host \<Rightarrow> string \<Rightarrow> ('w box, bool) eff" where
  "container_running H name =
     bindE (run_cmd H [''docker'', ''inspect'', ''--format'', ''{{.State.Running}}'', name]) (\<lambda>(rc, out, err).
       retE (rc = 0 \<and> strip out = ''true''))"

definition container_image :: "'w host \<Rightarrow> string \<Rightarrow> ('w box, string option) eff" where
  "container_image H name =
     bindE (run_cmd H [''docker'', ''inspect'', ''--format'', ''{{.Config.Image}}'', name]) (\<lambda>(rc, out, err).
       retE (if rc \<noteq> 0 then None else Some (strip out)))"

definition json_opt :: "string option \<Rightarrow> json" where
  "json_opt x = (case x of None \<Rightarrow> JNull | Some s \<Rightarrow> JStr s)"

record deploy_args =
  dp_compose_path :: string
  dp_container_name :: string
  dp_image :: string
  dp_image_tag :: string
  dp_network_mode :: string
  dp_restart_policy :: string
  dp_meta_dir :: string
  dp_data_dir :: string
  dp_config_path :: string
  dp_rust_log :: string
  dp_check :: bool

definition do_deploy :: "'w host \<Rightarrow> deploy_args \<Rightarrow> ('w box, int) eff" where
  "do_deploy H a =
     bindE
       (fill COMPOSE_TEMPLATE
         [(''container_name'', FS (dp_container_name a)), (''image'', FS (dp_image a)),
          (''image_tag'', FS (dp_image_tag a)), (''network_mode'', FS (dp_network_mode a)),
          (''restart_policy'', FS (dp_restart_policy a)), (''rust_log'', FS (dp_rust_log a)),
          (''meta_dir'', FS (dp_meta_dir a)), (''data_dir'', FS (dp_data_dir a)),
          (''config_path'', FS (dp_config_path a))]) (\<lambda>desired_compose.
     bindE (read_file H (dp_compose_path a)) (\<lambda>current_compose.
     bindE (os_exists H (dp_config_path a)) (\<lambda>config_there.
       if \<not> config_there then
         if \<not> dp_check a then
           fail [(''reason'', JStr (''garage.toml missing '' @ em_dash @ '' run render-config first'')),
             (''config_path'', JStr (dp_config_path a))]
         else
           emit ''would-change''
             [(''compose_path'', JStr (dp_compose_path a)), (''config_missing'', JBool True),
              (''reason'', JStr ''render-config must run before deploy on apply'')] True
       else
         let desired_image = dp_image a @ '':'' @ dp_image_tag a;
             compose_drift = (current_compose \<noteq> Some desired_compose) in
         bindE (container_image H (dp_container_name a)) (\<lambda>current_image.
         bindE (container_running H (dp_container_name a)) (\<lambda>running.
           let image_drift = (current_image \<noteq> Some desired_image);
               payload =
                 [(''compose_path'', JStr (dp_compose_path a)), (''compose_drift'', JBool compose_drift),
                  (''image_drift'', JBool image_drift), (''image_current'', json_opt current_image),
                  (''image_desired'', JStr desired_image), (''not_running'', JBool (\<not> running))] in
           if \<not> (compose_drift \<or> image_drift \<or> \<not> running) then emit ''no-change'' [] (dp_check a)
           else if dp_check a then emit ''would-change'' payload True
           else
             bindE (makedirs H (dirname (dp_compose_path a))) (\<lambda>_.
             bindE (if compose_drift
                    then atomic_write H (dp_compose_path a) desired_compose (perm 6 4 4) (0, 0) else retE ()) (\<lambda>_.
             bindE (run_cmd H [''docker'', ''compose'', ''-f'', dp_compose_path a, ''up'', ''-d'']) (\<lambda>(rc, out, err).
               if rc \<noteq> 0 then
                 fail [(''reason'', JStr ''docker compose up failed''), (''stdout'', JStr out),
                   (''stderr'', JStr err), (''payload'', JObj payload)]
               else
                 emit ''changed''
                   (payload @ [(''compose_out'', JStr (if strip err \<noteq> [] then strip err else strip out))])
                   False))))))))"

section \<open>The layout\<close>

definition VERSION_LABEL :: string where
  "VERSION_LABEL = ''Current cluster layout version:''"

text \<open>\<open>_LAYOUT_VER_RE.search(show)\<close> and its group as a number.\<close>

definition version_at :: "string \<Rightarrow> nat option" where
  "version_at s =
     (if \<not> startswith s VERSION_LABEL then None
      else
        let d = takeWhile is_digit (dropWhile is_space (drop (length VERSION_LABEL) s)) in
        if d = [] then None else Some (nat_of_digits d))"

fun version_search :: "string \<Rightarrow> nat option" where
  "version_search [] = None"
| "version_search (c # s) = (case version_at (c # s) of Some n \<Rightarrow> Some n | None \<Rightarrow> version_search s)"

definition layout_version :: "string \<Rightarrow> nat" where
  "layout_version s = (case version_search s of None \<Rightarrow> 0 | Some n \<Rightarrow> n)"

definition is_hex :: "char \<Rightarrow> bool" where
  "is_hex c =
     (is_digit c \<or> (let n = of_char c :: nat in (65 \<le> n \<and> n \<le> 70) \<or> (97 \<le> n \<and> n \<le> 102)))"

definition node_id_in :: "string \<Rightarrow> string option" where
  "node_id_in status =
     map_option (\<lambda>l. take 16 (hd (split_ws (strip l))))
       (List.find
         (\<lambda>l. let parts = split_ws (strip l) in
            parts \<noteq> [] \<and> 16 \<le> length (hd parts) \<and> list_all is_hex (hd parts))
         (splitlines status))"

definition garage :: "'w host \<Rightarrow> string \<Rightarrow> string list \<Rightarrow> ('w box, int \<times> string \<times> string) eff" where
  "garage H container cmd = run_cmd H ([''docker'', ''exec'', container, ''/garage''] @ cmd)"

definition GARAGE_READY_TIMEOUT :: rat where
  "GARAGE_READY_TIMEOUT = 90"

definition GARAGE_READY_INTERVAL :: rat where
  "GARAGE_READY_INTERVAL = 3"

text \<open>The loop that waits for the daemon. Each round takes one unit of fuel.\<close>

primrec status_poll :: "'w host \<Rightarrow> string \<Rightarrow> rat \<Rightarrow> nat \<Rightarrow> ('w box, int \<times> string \<times> string) eff" where
  "status_poll H container deadline 0 = haltE"
| "status_poll H container deadline (Suc n) =
     bindE (garage H container [''status'']) (\<lambda>r.
     bindE (getE (\<lambda>s. clock H (outer s))) (\<lambda>now.
       if fst r = 0 \<or> now + GARAGE_READY_INTERVAL \<ge> deadline then retE r
       else
         bindE (modE (\<lambda>s. s\<lparr>outer := sleep H GARAGE_READY_INTERVAL (outer s)\<rparr>))
           (\<lambda>_. status_poll H container deadline n)))"

definition READY_FUEL :: nat where
  "READY_FUEL = 30"

definition garage_status_ready :: "'w host \<Rightarrow> string \<Rightarrow> ('w box, int \<times> string \<times> string) eff" where
  "garage_status_ready H container =
     bindE (getE (\<lambda>s. clock H (outer s))) (\<lambda>now.
       status_poll H container (now + GARAGE_READY_TIMEOUT) READY_FUEL)"

record layout_args =
  ly_container_name :: string
  ly_zone :: string
  ly_capacity :: string
  ly_check :: bool

definition do_layout :: "'w host \<Rightarrow> layout_args \<Rightarrow> ('w box, int) eff" where
  "do_layout H a =
     bindE (if ly_check a then garage H (ly_container_name a) [''status'']
            else garage_status_ready H (ly_container_name a)) (\<lambda>(rc, out, err).
       if rc \<noteq> 0 then
         if ly_check a then
           emit ''would-change''
             [(''reason'', JStr (''container not yet running '' @ em_dash @ '' would assign layout once it'' @
                [CHR 0x27] @ ''s up'')),
              (''zone'', JStr (ly_zone a)), (''capacity'', JStr (ly_capacity a))] True
         else
           fail [(''reason'', JStr (''`garage status` failed '' @ em_dash @ '' container not ready'')),
             (''stdout'', JStr out), (''stderr'', JStr err)]
       else
         bindE (garage H (ly_container_name a) [''layout'', ''show'']) (\<lambda>(rc, out, err).
           if rc \<noteq> 0 then
             fail [(''reason'', JStr ''`garage layout show` failed''), (''stdout'', JStr out), (''stderr'', JStr err)]
           else if layout_version out > 0 then emit ''no-change'' [] (ly_check a)
           else
             bindE (garage H (ly_container_name a) [''status'']) (\<lambda>(rc, status, err).
               case node_id_in status of
                 None \<Rightarrow>
                   fail [(''reason'', JStr (''couldn'' @ [CHR 0x27] @ ''t parse node id from `garage status`'')),
                     (''stdout'', JStr status)]
               | Some node_id \<Rightarrow>
                   let payload =
                     [(''node_id'', JStr node_id), (''zone'', JStr (ly_zone a)),
                      (''capacity'', JStr (ly_capacity a)), (''version'', JNum 1)] in
                   if ly_check a then emit ''would-change'' payload True
                   else
                     bindE (garage H (ly_container_name a)
                         [''layout'', ''assign'', ''-z'', ly_zone a, ''-c'', ly_capacity a, node_id]) (\<lambda>(rc, out, err).
                       if rc \<noteq> 0 then
                         fail [(''reason'', JStr ''`garage layout assign` failed''), (''stdout'', JStr out),
                           (''stderr'', JStr err), (''payload'', JObj payload)]
                       else
                         bindE (garage H (ly_container_name a) [''layout'', ''apply'', ''--version'', ''1''])
                           (\<lambda>(rc, out, err).
                             if rc \<noteq> 0 then
                               fail [(''reason'', JStr ''`garage layout apply` failed''), (''stdout'', JStr out),
                                 (''stderr'', JStr err), (''payload'', JObj payload)]
                             else emit ''changed'' payload False)))))"

section \<open>The web interface\<close>

definition JWT_KEY_FILENAME :: string where
  "JWT_KEY_FILENAME = ''jwt-key.pem''"

definition UI_SECRET_ENV_VAR :: string where
  "UI_SECRET_ENV_VAR = ''GARAGE_UI_OIDC_CLIENT_SECRET''"

definition GARAGE_UI_UID :: int where
  "GARAGE_UI_UID = 1000"

definition GARAGE_UI_GID :: int where
  "GARAGE_UI_GID = 1000"

definition ensure_jwt_key :: "'w host \<Rightarrow> string \<Rightarrow> ('w box, string) eff" where
  "ensure_jwt_key H config_path =
     (let key_path = path_join (dirname config_path) JWT_KEY_FILENAME in
      bindE (os_exists H key_path) (\<lambda>there.
      bindE
        (if there then retE ()
         else
           bindE (makedirs H (dirname key_path)) (\<lambda>_.
           bindE (run_cmd H [''openssl'', ''genpkey'', ''-algorithm'', ''ED25519'', ''-out'', key_path]) (\<lambda>(rc, out, err).
             if rc \<noteq> 0
             then raiseE (RuntimeError (''openssl genpkey ED25519 failed: '' @ (if err \<noteq> [] then err else out)))
             else bindE (os_chmod H key_path (perm 4 0 0)) (\<lambda>_. os_chown H key_path (0, 0)))))
        (\<lambda>_. read_text H key_path)))"

definition yaml_item :: "nat \<Rightarrow> json \<Rightarrow> ('s, string) eff" where
  "yaml_item indent v =
     (if breaks_literal (py_str v)
      then raiseE (BadValue (''YAML list item contains unescaped quote or newline: '' @ py_str v))
      else retE (replicate indent (CHR '' '') @ ''- '' @ [CHR 0x22] @ py_str v @ [CHR 0x22]))"

definition yaml_list_lines :: "json \<Rightarrow> nat \<Rightarrow> ('s, string) eff" where
  "yaml_list_lines items indent =
     bindE (iter items) (\<lambda>vs. bindE (mapE (yaml_item indent) vs) (\<lambda>ls. retE (join [CHR 0x0A] ls)))"

record render_ui_args =
  ru_config_path :: string
  ru_bind_host :: string
  ru_port :: string
  ru_public_hostname :: string
  ru_public_url :: string
  ru_garage_s3_port :: string
  ru_garage_admin_port :: string
  ru_garage_region :: string
  ru_oidc_provider_name :: string
  ru_oidc_client_id :: string
  ru_oidc_issuer_url :: string
  ru_oidc_role_attribute_path :: string
  ru_oidc_scopes_json :: string
  ru_oidc_admin_roles_json :: string
  ru_check :: bool

definition ui_str_fields :: "'w host \<Rightarrow> render_ui_args \<Rightarrow> (string \<times> fval) list" where
  "ui_str_fields H a =
     [(''bind_host'', FS (ru_bind_host a)),
      (''public_hostname'', FS (ru_public_hostname a)),
      (''public_url'', FS (ru_public_url a)),
      (''garage_region'', FS (ru_garage_region a)),
      (''garage_admin_token'', FS (getenv H ''GARAGE_ADMIN_TOKEN'')),
      (''oidc_provider_name'', FS (ru_oidc_provider_name a)),
      (''oidc_client_id'', FS (ru_oidc_client_id a)),
      (''oidc_client_secret'', FS (getenv H UI_SECRET_ENV_VAR)),
      (''oidc_issuer_url'', FS (ru_oidc_issuer_url a)),
      (''oidc_role_attribute_path'', FS (ru_oidc_role_attribute_path a))]"

text \<open>The other fields of the template: numbers, the key on one line, and the two lists.\<close>

definition ui_fields :: "'w host \<Rightarrow> render_ui_args \<Rightarrow> string \<Rightarrow> json \<Rightarrow> json \<Rightarrow> ('s, (string \<times> fval) list) eff" where
  "ui_fields H a jwt_pem scopes admin_roles =
     bindE (int_of_text (ru_port a)) (\<lambda>port.
     bindE (int_of_text (ru_garage_s3_port a)) (\<lambda>s3_port.
     bindE (int_of_text (ru_garage_admin_port a)) (\<lambda>admin_port.
     bindE (yaml_list_lines scopes 6) (\<lambda>scopes_yaml.
     bindE (yaml_list_lines admin_roles 6) (\<lambda>roles_yaml.
       retE (ui_str_fields H a @
         [(''port'', FN port), (''garage_s3_port'', FN s3_port), (''garage_admin_port'', FN admin_port),
          (''jwt_private_key'', FS (concat (map (\<lambda>c. if c = CHR 0x0A then [CHR 0x5C, CHR ''n''] else [c]) jwt_pem))),
          (''oidc_scopes_yaml'', FS scopes_yaml), (''oidc_admin_roles_yaml'', FS roles_yaml)]))))))"

text \<open>The key, made when it is missing (but not by a check).\<close>

definition jwt_for :: "'w host \<Rightarrow> render_ui_args \<Rightarrow> bool \<Rightarrow> string \<Rightarrow> ('w box, string) eff" where
  "jwt_for H a key_missing key_path =
     (if key_missing \<and> ru_check a then retE ''<would-generate-on-apply>''
      else
        bindE (if key_missing then bindE (ensure_jwt_key H (ru_config_path a)) (\<lambda>_. retE ()) else retE ()) (\<lambda>_.
        bindE (read_file H key_path) (\<lambda>pem.
          case pem of None \<Rightarrow> raiseE AttributeError | Some t \<Rightarrow> retE (rstrip t))))"

definition do_render_ui_config :: "'w host \<Rightarrow> render_ui_args \<Rightarrow> ('w box, int) eff" where
  "do_render_ui_config H a =
     (if getenv H UI_SECRET_ENV_VAR = [] then
        fail [(''reason'', JStr ''required secret env var unset''), (''vars'', JArr [JStr UI_SECRET_ENV_VAR])]
      else if getenv H ''GARAGE_ADMIN_TOKEN'' = [] then
        fail [(''reason'', JStr ''required secret env var unset''), (''vars'', JArr [JStr ''GARAGE_ADMIN_TOKEN''])]
      else
        case bad_field (ui_str_fields H a) of
          Some k \<Rightarrow> fail [(''reason'', JStr ''field contains unescaped quote or newline''), (''field'', JStr k)]
        | None \<Rightarrow>
            bindE (json_loads H (ru_oidc_scopes_json a)) (\<lambda>scopes.
            bindE (json_loads H (ru_oidc_admin_roles_json a)) (\<lambda>admin_roles.
              if \<not> truthy admin_roles then
                fail [(''reason'', JStr ''ui.oidc.admin_roles must list at least one role'')]
              else
                let key_path = path_join (dirname (ru_config_path a)) JWT_KEY_FILENAME in
                bindE (os_exists H key_path) (\<lambda>key_there.
                bindE (jwt_for H a (\<not> key_there) key_path) (\<lambda>jwt_pem.
                bindE (ui_fields H a jwt_pem scopes admin_roles) (\<lambda>fs.
                bindE (fill GARAGE_UI_CONFIG_TEMPLATE fs) (\<lambda>desired.
                bindE (read_file H (ru_config_path a)) (\<lambda>current.
                bindE (catchE (bindE (os_stat_uid H (ru_config_path a)) (\<lambda>u. retE (u = GARAGE_UI_UID)))
                         is_OSError (\<lambda>_. retE False)) (\<lambda>owner_ok.
                  let payload =
                    [(''config_path'', JStr (ru_config_path a)), (''jwt_key_path'', JStr key_path),
                     (''key_generated'', JBool (\<not> key_there)), (''had_existing'', JBool (current \<noteq> None)),
                     (''desired_sha256'', JStr (sha256 H desired))] in
                  if map_option (sha256 H) current = Some (sha256 H desired) \<and> key_there \<and> owner_ok
                  then emit ''no-change'' [] (ru_check a)
                  else if ru_check a then emit ''would-change'' payload True
                  else
                    bindE (atomic_write H (ru_config_path a) desired (perm 4 0 0) (GARAGE_UI_UID, GARAGE_UI_GID))
                      (\<lambda>_. emit ''changed'' payload False))))))))))"

record deploy_ui_args =
  du_compose_path :: string
  du_container_name :: string
  du_image :: string
  du_image_tag :: string
  du_config_path :: string
  du_config_changed :: bool
  du_check :: bool

definition do_deploy_ui :: "'w host \<Rightarrow> deploy_ui_args \<Rightarrow> ('w box, int) eff" where
  "do_deploy_ui H a =
     bindE
       (fill GARAGE_UI_COMPOSE_TEMPLATE
         [(''container_name'', FS (du_container_name a)), (''image'', FS (du_image a)),
          (''image_tag'', FS (du_image_tag a)), (''config_path'', FS (du_config_path a))]) (\<lambda>desired_compose.
     bindE (read_file H (du_compose_path a)) (\<lambda>current_compose.
     bindE (os_exists H (du_config_path a)) (\<lambda>config_there.
       if \<not> config_there then
         if \<not> du_check a then
           fail [(''reason'', JStr (''garage-ui config.yaml missing '' @ em_dash @ '' run render-ui-config first'')),
             (''config_path'', JStr (du_config_path a))]
         else
           emit ''would-change''
             [(''compose_path'', JStr (du_compose_path a)), (''config_missing'', JBool True),
              (''reason'', JStr ''render-ui-config must run before deploy-ui on apply'')] True
       else
         let desired_image = du_image a @ '':'' @ du_image_tag a;
             compose_drift = (current_compose \<noteq> Some desired_compose) in
         bindE (container_image H (du_container_name a)) (\<lambda>current_image.
         bindE (container_running H (du_container_name a)) (\<lambda>running.
           let image_drift = (current_image \<noteq> Some desired_image);
               recreate = (compose_drift \<or> image_drift \<or> \<not> running);
               payload =
                 [(''compose_path'', JStr (du_compose_path a)), (''compose_drift'', JBool compose_drift),
                  (''image_drift'', JBool image_drift), (''image_current'', json_opt current_image),
                  (''image_desired'', JStr desired_image), (''not_running'', JBool (\<not> running)),
                  (''config_changed'', JBool (du_config_changed a))] in
           if \<not> (recreate \<or> du_config_changed a) then emit ''no-change'' [] (du_check a)
           else if du_check a then emit ''would-change'' payload True
           else
             bindE (makedirs H (dirname (du_compose_path a))) (\<lambda>_.
             bindE (if compose_drift
                    then atomic_write H (du_compose_path a) desired_compose (perm 6 4 4) (0, 0) else retE ()) (\<lambda>_.
             let op = (if recreate then ''up'' else ''restart'') in
             bindE (run_cmd H ([''docker'', ''compose'', ''-f'', du_compose_path a, op] @
                 (if recreate then [''-d''] else []))) (\<lambda>(rc, out, err).
               if rc \<noteq> 0 then
                 fail [(''reason'', JStr (''docker compose '' @ op @ '' failed'')), (''stdout'', JStr out),
                   (''stderr'', JStr err), (''payload'', JObj payload)]
               else
                 emit ''changed''
                   (payload @ [(''compose_out'', JStr (if strip err \<noteq> [] then strip err else strip out))])
                   False))))))))"

end
