(* ===== verification/Garage_Sync.thy ===== *)
theory Garage_Sync
  imports Garage_Config
begin

text \<open>
  The subcommands of \<open>apply_garage.py\<close> that converge buckets, their CORS rules, access keys and grants
  through the admin API, and the dispatch of \<open>main\<close>. Names and identifiers are JSON values wherever the
  code leaves their type open; a dictionary with such keys is an association list.
\<close>

section \<open>Permissions\<close>

definition PERM_FLAGS :: "string list" where
  "PERM_FLAGS = [''read'', ''write'', ''owner'']"

definition is_one_of :: "string list \<Rightarrow> json \<Rightarrow> bool" where
  "is_one_of xs j = (case j of JStr s \<Rightarrow> List.member xs s | _ \<Rightarrow> False)"

definition permissions_dict :: "json \<Rightarrow> ('s, (string \<times> bool) list) eff" where
  "permissions_dict perm_list =
     bindE (iter perm_list) (\<lambda>ps.
       let bad = filter (\<lambda>p. \<not> is_one_of PERM_FLAGS p) ps in
       if bad \<noteq> [] then
         raiseE (BadValue (''invalid permission(s) '' @ repr (JArr bad) @ '' (valid: '' @
           repr (JArr (map JStr PERM_FLAGS)) @ '')''))
       else retE (map (\<lambda>f. (f, List.member ps (JStr f))) PERM_FLAGS))"

section \<open>CORS rules\<close>

definition CORS_METHODS :: "string list" where
  "CORS_METHODS = [''GET'', ''HEAD'', ''PUT'', ''POST'', ''DELETE'', ''PATCH'', ''OPTIONS'']"

text \<open>\<open>out[k] = j.get(k')\<close> when that is not null.\<close>

definition optional :: "string \<Rightarrow> json option \<Rightarrow> (string \<times> json) list" where
  "optional k v = (case v of None \<Rightarrow> [] | Some JNull \<Rightarrow> [] | Some x \<Rightarrow> [(k, x)])"

definition optional_int :: "string \<Rightarrow> json option \<Rightarrow> ('s, (string \<times> json) list) eff" where
  "optional_int k v =
     (case v of None \<Rightarrow> retE [] | Some JNull \<Rightarrow> retE []
      | Some x \<Rightarrow> bindE (py_int x) (\<lambda>n. retE [(k, JNum n)]))"

definition cors_api_rule :: "json \<Rightarrow> json \<Rightarrow> ('s, json) eff" where
  "cors_api_rule rule bucket =
     (let place = ''bucket '' @ repr bucket @ '' cors rule'' in
      bindE (get_or ''allowed_origins'' rule (JArr [])) (\<lambda>origins.
      bindE (get_or ''allowed_methods'' rule (JArr [])) (\<lambda>methods.
        if \<not> truthy origins then raiseE (BadValue (place @ '': allowed_origins must be a non-empty list''))
        else if \<not> truthy methods then raiseE (BadValue (place @ '': allowed_methods must be a non-empty list''))
        else
          bindE (iter methods) (\<lambda>ms.
            let bad = filter (\<lambda>m. \<not> is_one_of CORS_METHODS m) ms in
            if bad \<noteq> [] then
              raiseE (BadValue (place @ '': invalid allowed_methods '' @ repr (JArr bad) @ '' (valid: '' @
                repr (JArr (map JStr CORS_METHODS)) @ '')''))
            else
              bindE (iter origins) (\<lambda>os.
              bindE (iter_get ''allowed_headers'' rule) (\<lambda>hs. bindE (mapE lower_json hs) (\<lambda>headers.
              bindE (iter_get ''expose_headers'' rule) (\<lambda>exposed.
              bindE (get_key ''id'' rule) (\<lambda>i.
              bindE (get_key ''max_age_seconds'' rule) (\<lambda>age.
              bindE (optional_int ''MaxAgeSeconds'' age) (\<lambda>age_part.
                retE (JObj
                  ([(''AllowedOrigin'', JArr os), (''AllowedMethod'', JArr ms), (''AllowedHeader'', JArr headers),
                    (''ExposeHeader'', JArr exposed)] @ optional ''ID'' i @ age_part)))))))))))))"

definition canonical_rule :: "json \<Rightarrow> ('s, json) eff" where
  "canonical_rule r =
     bindE (iter_get ''AllowedOrigin'' r) (\<lambda>os.
     bindE (iter_get ''AllowedMethod'' r) (\<lambda>ms.
     bindE (iter_get ''AllowedHeader'' r) (\<lambda>hs.
     bindE (iter_get ''ExposeHeader'' r) (\<lambda>es.
     bindE (get_key ''ID'' r) (\<lambda>i.
     bindE (get_key ''MaxAgeSeconds'' r) (\<lambda>age.
     bindE (optional_int ''MaxAgeSeconds'' age) (\<lambda>age_part.
       retE (JObj
         ([(''AllowedOrigin'', JArr os), (''AllowedMethod'', JArr ms), (''AllowedHeader'', JArr hs),
           (''ExposeHeader'', JArr es)] @ optional ''ID'' i @ age_part)))))))))"

definition cors_canonical :: "json \<Rightarrow> ('s, json list) eff" where
  "cors_canonical api_rules =
     bindE (iter (if truthy api_rules then api_rules else JArr [])) (mapE canonical_rule)"

section \<open>Buckets\<close>

type_synonym ids = "(json \<times> json) list"

definition get_dflt :: "string \<Rightarrow> json \<Rightarrow> json \<Rightarrow> ('s, json) eff" where
  "get_dflt k j dflt = bindE (get_key k j) (\<lambda>v. retE (case v of None \<Rightarrow> dflt | Some x \<Rightarrow> x))"

definition add_alias :: "json \<Rightarrow> ids \<Rightarrow> json \<Rightarrow> ('s, ids) eff" where
  "add_alias b d alias = bindE (field ''id'' b) (\<lambda>i. bindE (key_of alias) (\<lambda>k. retE (dict_set k i d)))"

definition add_bucket :: "ids \<Rightarrow> json \<Rightarrow> ('s, ids) eff" where
  "add_bucket d b = bindE (iter_get ''globalAliases'' b) (foldE (add_alias b) d)"

text \<open>ListBuckets, as the identifiers of the buckets by their global aliases.\<close>

definition list_buckets :: "'w host \<Rightarrow> int \<Rightarrow> string \<Rightarrow> ('w box, int + ids) eff" where
  "list_buckets H port token =
     bindE
       (attempt (admin_request H port token ''GET'' ''/v2/ListBuckets'' [] None) is_OSError
         (\<lambda>e. [(''reason'', JStr ''ListBuckets request failed''), (''error'', JStr (str_exc H e))]))
       (\<lambda>r. case r of
          Inl rc \<Rightarrow> retE (Inl rc)
        | Inr (status, buckets) \<Rightarrow>
            if status \<noteq> 200 then
              stop_with [(''reason'', JStr ''ListBuckets returned non-200''), (''status'', JNum status), (''body'', buckets)]
            else bindE (iter buckets) (\<lambda>bs. bindE (foldE add_bucket [] bs) go_on))"

definition as_bucket :: "json \<Rightarrow> json" where
  "as_bucket b = (case b of JStr s \<Rightarrow> JObj [(''name'', JStr s)] | _ \<Rightarrow> b)"

definition add_desired :: "(json \<times> json list) list \<Rightarrow> json \<Rightarrow> ('s, (json \<times> json list) list) eff" where
  "add_desired d b =
     bindE (field ''name'' b) (\<lambda>name.
     bindE (iter_get ''cors'' b) (\<lambda>rules.
     bindE (mapE (\<lambda>r. cors_api_rule r name) rules) (\<lambda>api.
     bindE (key_of name) (\<lambda>k. retE (dict_set k api d)))))"

definition desired_buckets :: "json \<Rightarrow> ('s, json list \<times> (json \<times> json list) list) eff" where
  "desired_buckets spec =
     bindE (iter spec) (\<lambda>bs.
     bindE (foldE add_desired [] (map as_bucket bs)) (\<lambda>cors.
     bindE (mapE (field ''name'') (map as_bucket bs)) (\<lambda>names. retE (names, cors))))"

definition cors_of :: "(json \<times> json list) list \<Rightarrow> json \<Rightarrow> json list" where
  "cors_of d name = (case dict_get d name of None \<Rightarrow> [] | Some rules \<Rightarrow> rules)"

definition is_shape_error :: "exc \<Rightarrow> bool" where
  "is_shape_error e = (e = KeyError \<or> e = TypeError \<or> e = AttributeError)"

text \<open>Whether a bucket's rules have to be written: the body of the comparing loop.\<close>

definition compare_cors ::
  "'w host \<Rightarrow> int \<Rightarrow> string \<Rightarrow> ids \<Rightarrow> json list \<Rightarrow> (json \<times> json list) list \<Rightarrow> (json \<times> json list) list \<Rightarrow> json \<Rightarrow>
     ('w box, int + (json \<times> json list) list) eff" where
  "compare_cors H port token bucket_id missing desired_cors todo name =
     (let want = cors_of desired_cors name in
      if List.member missing name then go_on (if want \<noteq> [] then todo @ [(name, want)] else todo)
      else
        bindE (case dict_get bucket_id name of None \<Rightarrow> raiseE KeyError | Some i \<Rightarrow> retE i) (\<lambda>i.
        bindE (admin_request H port token ''GET'' ''/v2/GetBucketInfo'' [(''id'', i)] None) (\<lambda>(status, info).
          if status \<noteq> 200 then
            stop_with [(''reason'', JStr ''GetBucketInfo failed''), (''bucket'', name), (''status'', JNum status), (''body'', info)]
          else
            bindE (get_dflt ''corsRules'' info JNull) (\<lambda>live.
            bindE (cors_canonical live) (\<lambda>have_rules.
            bindE (cors_canonical (JArr want)) (\<lambda>want_rules.
              go_on (if have_rules \<noteq> want_rules then todo @ [(name, want)] else todo)))))))"

definition create_bucket :: "'w host \<Rightarrow> int \<Rightarrow> string \<Rightarrow> ids \<Rightarrow> json \<Rightarrow> ('w box, int + ids) eff" where
  "create_bucket H port token bucket_id name =
     bindE (admin_request H port token ''POST'' ''/v2/CreateBucket'' [] (Some (JObj [(''globalAlias'', name)])))
       (\<lambda>(status, resp).
         if status \<noteq> 200 \<and> status \<noteq> 201 then
           stop_with [(''reason'', JStr ''CreateBucket failed''), (''bucket'', name), (''status'', JNum status), (''body'', resp)]
         else
           bindE (get_dflt ''id'' (if truthy resp then resp else JObj []) JNull) (\<lambda>i. go_on (dict_set name i bucket_id)))"

definition write_cors :: "'w host \<Rightarrow> int \<Rightarrow> string \<Rightarrow> ids \<Rightarrow> unit \<Rightarrow> json \<times> json list \<Rightarrow> ('w box, int + unit) eff" where
  "write_cors H port token bucket_id u p =
     (case p of (name, rules) \<Rightarrow>
        case dict_get bucket_id name of
          None \<Rightarrow> stop_with [(''reason'', JStr ''no bucket id to set CORS on''), (''bucket'', name)]
        | Some i \<Rightarrow>
            if \<not> truthy i then stop_with [(''reason'', JStr ''no bucket id to set CORS on''), (''bucket'', name)]
            else
              bindE (admin_request H port token ''POST'' ''/v2/UpdateBucket'' [(''id'', i)]
                  (Some (JObj [(''corsRules'', JArr rules)]))) (\<lambda>(status, resp).
                if status \<noteq> 200 then
                  stop_with [(''reason'', JStr ''UpdateBucket (corsRules) failed''), (''bucket'', name),
                    (''status'', JNum status), (''body'', resp)]
                else go_on ()))"

record sync_buckets_args =
  sb_admin_port :: string
  sb_buckets_json :: string
  sb_check :: bool

definition sync_buckets_with ::
  "'w host \<Rightarrow> int \<Rightarrow> string \<Rightarrow> bool \<Rightarrow> json list \<Rightarrow> (json \<times> json list) list \<Rightarrow> ('w box, int) eff" where
  "sync_buckets_with H port token check names desired_cors =
     andthen (list_buckets H port token) (\<lambda>bucket_id.
       let missing = filter (\<lambda>n. \<not> List.member (dict_keys bucket_id) n) names in
       andthen (walkE (compare_cors H port token bucket_id missing desired_cors) [] names) (\<lambda>todo.
         let payload = [(''buckets_to_create'', JArr missing), (''cors_to_set'', JArr (map fst todo))] in
         if missing = [] \<and> todo = [] then emit ''no-change'' [] check
         else if check then emit ''would-change'' payload True
         else
           andthen (walkE (create_bucket H port token) bucket_id missing) (\<lambda>ids.
           andthen (walkE (write_cors H port token ids) () todo) (\<lambda>_. emit ''changed'' payload False))))"

definition do_sync_buckets :: "'w host \<Rightarrow> sync_buckets_args \<Rightarrow> ('w box, int) eff" where
  "do_sync_buckets H a =
     (let token = getenv H ''GARAGE_ADMIN_TOKEN'' in
      if token = [] then
        fail [(''reason'', JStr ''required secret env var unset''), (''vars'', JArr [JStr ''GARAGE_ADMIN_TOKEN''])]
      else
        andthen
          (attempt (json_loads H (sb_buckets_json a)) is_ValueError
            (\<lambda>e. [(''reason'', JStr ''invalid --buckets-json''), (''error'', JStr (str_exc H e))])) (\<lambda>spec.
        andthen
          (attempt (desired_buckets spec) (\<lambda>e. is_ValueError e \<or> is_shape_error e)
            (\<lambda>e. [(''reason'', JStr (if is_ValueError e then ''invalid bucket spec'' else ''malformed --buckets-json entry'')),
               (''error'', JStr (str_exc H e))])) (\<lambda>(names, desired_cors).
        bindE (int_of_text (sb_admin_port a)) (\<lambda>port.
          sync_buckets_with H port token (sb_check a) names desired_cors))))"

section \<open>Keys\<close>

text \<open>\<open>d.get(k)\<close> for any key, and \<open>(d.get(k) or {}).get(part)\<close>.\<close>

definition get_by :: "json \<Rightarrow> json \<Rightarrow> ('s, json option) eff" where
  "get_by d k =
     (case d of
        JObj m \<Rightarrow>
          (if hashable k then retE (case k of JStr s \<Rightarrow> dict_get m s | _ \<Rightarrow> None) else raiseE TypeError)
      | _ \<Rightarrow> raiseE AttributeError)"

definition has_part :: "json \<Rightarrow> json \<Rightarrow> string \<Rightarrow> ('s, bool) eff" where
  "has_part creds name part =
     bindE (get_by creds name) (\<lambda>c.
     bindE (get_key part (case c of None \<Rightarrow> JObj [] | Some x \<Rightarrow> if truthy x then x else JObj [])) (\<lambda>v.
       retE (case v of None \<Rightarrow> False | Some x \<Rightarrow> truthy x)))"

definition lacks_cred :: "json \<Rightarrow> json \<Rightarrow> ('s, bool) eff" where
  "lacks_cred creds kspec =
     bindE (field ''name'' kspec) (\<lambda>name.
     bindE (has_part creds name ''access_key_id'') (\<lambda>b.
       if \<not> b then retE True
       else bindE (has_part creds name ''secret_access_key'') (\<lambda>c. retE (\<not> c))))"

definition bucket_specs :: "json \<Rightarrow> ('s, json list) eff" where
  "bucket_specs kspec = bindE (get_dflt ''buckets'' kspec (JArr [])) iter"

definition desired_perms :: "json \<Rightarrow> ('s, (string \<times> bool) list) eff" where
  "desired_perms bspec = bindE (get_dflt ''permissions'' bspec (JArr [])) permissions_dict"

definition check_permissions :: "json list \<Rightarrow> ('s, unit) eff" where
  "check_permissions specs =
     forE specs (\<lambda>kspec. bindE (bucket_specs kspec) (\<lambda>bs.
       forE bs (\<lambda>bspec. bindE (desired_perms bspec) (\<lambda>_. retE ()))))"

definition check_bucket :: "ids \<Rightarrow> json \<Rightarrow> unit \<Rightarrow> json \<Rightarrow> ('w box, int + unit) eff" where
  "check_bucket bucket_id kspec u bspec =
     bindE (field ''name'' bspec) (\<lambda>b. bindE (key_of b) (\<lambda>k.
       if List.member (dict_keys bucket_id) k then go_on ()
       else
         bindE (field ''name'' kspec) (\<lambda>name.
           stop_with
             [(''reason'', JStr (''bucket not found on Garage '' @ em_dash @
                '' sync-buckets must run before sync-keys (task ordering)'')),
              (''key'', name), (''bucket'', b)])))"

definition check_buckets :: "ids \<Rightarrow> unit \<Rightarrow> json \<Rightarrow> ('w box, int + unit) eff" where
  "check_buckets bucket_id u kspec = bindE (bucket_specs kspec) (walkE (check_bucket bucket_id kspec) ())"

text \<open>ListKeys, as the identifiers of the keys by their names.\<close>

definition add_key :: "ids \<Rightarrow> json \<Rightarrow> ('w box, int + ids) eff" where
  "add_key d k =
     bindE (get_dflt ''name'' k JNull) (\<lambda>n. bindE (key_of n) (\<lambda>name.
       if List.member (dict_keys d) name then
         stop_with
           [(''reason'', JStr (''duplicate Garage key name '' @ em_dash @ '' can'' @ [CHR 0x27] @
              ''t manage declaratively; rename or delete the duplicate on the box first'')),
            (''name'', name)]
       else bindE (field ''id'' k) (\<lambda>i. go_on (dict_set name i d))))"

definition list_keys :: "'w host \<Rightarrow> int \<Rightarrow> string \<Rightarrow> ('w box, int + ids) eff" where
  "list_keys H port token =
     bindE
       (attempt (admin_request H port token ''GET'' ''/v2/ListKeys'' [] None) is_OSError
         (\<lambda>e. [(''reason'', JStr ''ListKeys request failed''), (''error'', JStr (str_exc H e))]))
       (\<lambda>r. case r of
          Inl rc \<Rightarrow> retE (Inl rc)
        | Inr (status, keys) \<Rightarrow>
            if status \<noteq> 200 then
              stop_with [(''reason'', JStr ''ListKeys returned non-200''), (''status'', JNum status), (''body'', keys)]
            else bindE (iter keys) (walkE add_key []))"

definition secret_path :: "string \<Rightarrow> string \<Rightarrow> string" where
  "secret_path keys_dir name = path_join keys_dir (name @ ''.env'')"

definition cred :: "json \<Rightarrow> string \<Rightarrow> string \<Rightarrow> ('s, json) eff" where
  "cred creds name part = bindE (field name creds) (field part)"

definition env_body :: "json \<Rightarrow> string \<Rightarrow> ('s, string) eff" where
  "env_body creds name =
     bindE (cred creds name ''access_key_id'') (\<lambda>i. bindE (cred creds name ''secret_access_key'') (\<lambda>s.
       retE (''ACCESS_KEY_ID='' @ py_str i @ [CHR 0x0A] @ ''SECRET_ACCESS_KEY='' @ py_str s @ [CHR 0x0A])))"

definition id_mismatch :: "json \<Rightarrow> ids \<Rightarrow> string \<Rightarrow> ('s, json list) eff" where
  "id_mismatch creds key_id name =
     bindE (cred creds name ''access_key_id'') (\<lambda>want.
       retE (case dict_get key_id (JStr name) of
               None \<Rightarrow> []
             | Some i \<Rightarrow> if i \<noteq> want then [JObj [(''key'', JStr name), (''on_garage'', i), (''in_openbao'', want)]] else []))"

definition env_stale :: "'w host \<Rightarrow> string \<Rightarrow> json \<Rightarrow> string \<Rightarrow> ('w box, bool) eff" where
  "env_stale H keys_dir creds name =
     bindE (read_file H (secret_path keys_dir name)) (\<lambda>have_text. bindE (env_body creds name) (\<lambda>want.
       retE (have_text \<noteq> Some want)))"

definition no_perms :: "(string \<times> bool) list" where
  "no_perms = map (\<lambda>f. (f, False)) PERM_FLAGS"

primrec perms_of :: "json \<Rightarrow> json list \<Rightarrow> ('s, (string \<times> bool) list) eff" where
  "perms_of key_id [] = retE no_perms"
| "perms_of key_id (kperm # ks) =
     bindE (get_dflt ''accessKeyId'' kperm JNull) (\<lambda>i.
       if i = key_id then
         bindE (get_or ''permissions'' kperm (JObj [])) (\<lambda>p.
           mapE (\<lambda>f. bindE (get_dflt f p JNull) (\<lambda>v. retE (f, truthy v))) PERM_FLAGS)
       else perms_of key_id ks)"

definition has_perm :: "(string \<times> bool) list \<Rightarrow> string \<Rightarrow> bool" where
  "has_perm p f = (dict_get p f = Some True)"

definition to_allow :: "(string \<times> bool) list \<Rightarrow> (string \<times> bool) list \<Rightarrow> string list" where
  "to_allow desired current = filter (\<lambda>f. has_perm desired f \<and> \<not> has_perm current f) PERM_FLAGS"

definition to_deny :: "(string \<times> bool) list \<Rightarrow> (string \<times> bool) list \<Rightarrow> string list" where
  "to_deny desired current = filter (\<lambda>f. has_perm current f \<and> \<not> has_perm desired f) PERM_FLAGS"

record grant_op =
  g_key :: string
  g_bucket :: json
  g_bucket_id :: json
  g_allow :: bool
  g_perms :: "string list"

definition grant_ops :: "string \<Rightarrow> json \<Rightarrow> json \<Rightarrow> (string \<times> bool) list \<Rightarrow> (string \<times> bool) list \<Rightarrow> grant_op list" where
  "grant_ops name bucket i desired current =
     (if to_allow desired current \<noteq> []
      then [\<lparr>g_key = name, g_bucket = bucket, g_bucket_id = i, g_allow = True, g_perms = to_allow desired current\<rparr>] else []) @
     (if to_deny desired current \<noteq> []
      then [\<lparr>g_key = name, g_bucket = bucket, g_bucket_id = i, g_allow = False, g_perms = to_deny desired current\<rparr>] else [])"

text \<open>The permissions of a key on a bucket; a key that is not there yet (\<open>JNull\<close>) has none.\<close>

definition current_perms ::
  "'w host \<Rightarrow> int \<Rightarrow> string \<Rightarrow> json \<Rightarrow> json \<Rightarrow> json \<Rightarrow> ('w box, int + (string \<times> bool) list) eff" where
  "current_perms H port token key_id i bucket =
     (if key_id = JNull then go_on no_perms
      else
        bindE (admin_request H port token ''GET'' ''/v2/GetBucketInfo'' [(''id'', i)] None) (\<lambda>(status, info).
          if status \<noteq> 200 then
            stop_with [(''reason'', JStr ''GetBucketInfo failed''), (''bucket'', bucket), (''status'', JNum status), (''body'', info)]
          else bindE (iter_get ''keys'' info) (\<lambda>ks. bindE (perms_of key_id ks) go_on)))"

definition diff_bucket ::
  "'w host \<Rightarrow> int \<Rightarrow> string \<Rightarrow> ids \<Rightarrow> string \<Rightarrow> json \<Rightarrow> grant_op list \<Rightarrow> json \<Rightarrow> ('w box, int + grant_op list) eff" where
  "diff_bucket H port token bucket_id name key_id ops bspec =
     bindE (desired_perms bspec) (\<lambda>desired.
     bindE (field ''name'' bspec) (\<lambda>bucket.
     bindE (case dict_get bucket_id bucket of None \<Rightarrow> raiseE KeyError | Some i \<Rightarrow> retE i) (\<lambda>i.
     bindE (current_perms H port token key_id i bucket) (\<lambda>r.
       case r of
         Inl rc \<Rightarrow> retE (Inl rc)
       | Inr current \<Rightarrow> go_on (ops @ grant_ops name bucket i desired current)))))"

definition diff_key ::
  "'w host \<Rightarrow> int \<Rightarrow> string \<Rightarrow> ids \<Rightarrow> ids \<Rightarrow> grant_op list \<Rightarrow> json \<Rightarrow> ('w box, int + grant_op list) eff" where
  "diff_key H port token bucket_id key_ids ops kspec =
     bindE (str_field ''name'' kspec) (\<lambda>name.
     bindE (bucket_specs kspec)
       (walkE (diff_bucket H port token bucket_id name
         (case dict_get key_ids (JStr name) of None \<Rightarrow> JNull | Some i \<Rightarrow> i)) ops))"

definition import_key ::
  "'w host \<Rightarrow> int \<Rightarrow> string \<Rightarrow> json \<Rightarrow> ids \<Rightarrow> string \<Rightarrow> ('w box, int + ids) eff" where
  "import_key H port token creds key_id name =
     bindE (cred creds name ''access_key_id'') (\<lambda>i. bindE (cred creds name ''secret_access_key'') (\<lambda>secret.
     bindE (admin_request H port token ''POST'' ''/v2/ImportKey'' []
         (Some (JObj [(''accessKeyId'', i), (''secretAccessKey'', secret), (''name'', JStr name)]))) (\<lambda>(status, resp).
       if status \<noteq> 200 \<and> status \<noteq> 201 then
         stop_with [(''reason'', JStr ''ImportKey failed''), (''key'', JStr name), (''status'', JNum status), (''body'', resp)]
       else go_on (dict_set (JStr name) i key_id))))"

definition write_env :: "'w host \<Rightarrow> string \<Rightarrow> json \<Rightarrow> string \<Rightarrow> ('w box, unit) eff" where
  "write_env H keys_dir creds name =
     bindE (env_body creds name) (\<lambda>body. atomic_write H (secret_path keys_dir name) body (perm 4 0 0) (0, 0))"

definition apply_grant ::
  "'w host \<Rightarrow> int \<Rightarrow> string \<Rightarrow> ids \<Rightarrow> unit \<Rightarrow> grant_op \<Rightarrow> ('w box, int + unit) eff" where
  "apply_grant H port token key_id u g =
     bindE (case dict_get key_id (JStr (g_key g)) of None \<Rightarrow> raiseE KeyError | Some i \<Rightarrow> retE i) (\<lambda>i.
       let path = (if g_allow g then ''/v2/AllowBucketKey'' else ''/v2/DenyBucketKey'') in
       bindE (admin_request H port token ''POST'' path []
           (Some (JObj [(''bucketId'', g_bucket_id g), (''accessKeyId'', i),
             (''permissions'', JObj (map (\<lambda>f. (f, JBool True)) (g_perms g)))]))) (\<lambda>(status, resp).
         if status \<noteq> 200 then
           stop_with [(''reason'', JStr (path @ '' failed'')), (''key'', JStr (g_key g)), (''bucket'', g_bucket g),
             (''status'', JNum status), (''body'', resp)]
         else go_on ()))"

definition grant_json :: "grant_op \<Rightarrow> json" where
  "grant_json g =
     JObj [(''key'', JStr (g_key g)), (''bucket'', g_bucket g), (''op'', JStr (if g_allow g then ''allow'' else ''deny'')),
       (''permissions'', JArr (map JStr (sort (g_perms g))))]"

record sync_keys_args =
  sk_admin_port :: string
  sk_keys_json :: string
  sk_keys_dir :: string
  sk_check :: bool

text \<open>The end of sync-keys: the imports, the rendered credentials and the grants.\<close>

definition apply_keys ::
  "'w host \<Rightarrow> int \<Rightarrow> string \<Rightarrow> string \<Rightarrow> json \<Rightarrow> ids \<Rightarrow> string list \<Rightarrow> string list \<Rightarrow> grant_op list \<Rightarrow>
     (string \<times> json) list \<Rightarrow> ('w box, int) eff" where
  "apply_keys H port token keys_dir creds key_id to_import env_to_write ops payload =
     bindE (makedirs H keys_dir) (\<lambda>_.
     andthen (walkE (import_key H port token creds) key_id to_import) (\<lambda>ids.
     bindE (forE env_to_write (write_env H keys_dir creds)) (\<lambda>_.
     andthen (walkE (apply_grant H port token ids) () ops) (\<lambda>_. emit ''changed'' payload False))))"

definition sync_keys_with ::
  "'w host \<Rightarrow> int \<Rightarrow> string \<Rightarrow> string \<Rightarrow> bool \<Rightarrow> json list \<Rightarrow> json \<Rightarrow> ('w box, int) eff" where
  "sync_keys_with H port token keys_dir check specs creds =
     andthen (list_buckets H port token) (\<lambda>bucket_id.
     andthen (walkE (check_buckets bucket_id) () specs) (\<lambda>_.
     andthen (list_keys H port token) (\<lambda>key_id.
     bindE (mapE (str_field ''name'') specs) (\<lambda>names.
       let to_import = filter (\<lambda>n. \<not> List.member (dict_keys key_id) (JStr n)) names in
       bindE (mapE (id_mismatch creds key_id) names) (\<lambda>mismatches.
         if concat mismatches \<noteq> [] then
           fail [(''reason'', JStr (''key(s) exist on Garage with a different access key id than OpenBao holds '' @ em_dash @
               '' out-of-band rotation. Reconcile by deleting the key on Garage (`docker exec garage /garage key delete <id>`) and re-running (re-imports the OpenBao credential), or update OpenBao to match the live id.'')),
             (''keys'', JArr (concat mismatches))]
         else
           bindE (filterE (env_stale H keys_dir creds) names) (\<lambda>env_to_write.
           andthen (walkE (diff_key H port token bucket_id key_id) [] specs) (\<lambda>ops.
             let payload =
               [(''keys_to_import'', JArr (map JStr to_import)), (''env_to_write'', JArr (map JStr env_to_write)),
                (''grant_ops'', JArr (map grant_json ops))] in
             if to_import = [] \<and> env_to_write = [] \<and> ops = [] then emit ''no-change'' [] check
             else if check then emit ''would-change'' payload True
             else apply_keys H port token keys_dir creds key_id to_import env_to_write ops payload)))))))"

definition do_sync_keys :: "'w host \<Rightarrow> sync_keys_args \<Rightarrow> ('w box, int) eff" where
  "do_sync_keys H a =
     (let token = getenv H ''GARAGE_ADMIN_TOKEN''; creds_raw = getenv H ''GARAGE_KEY_CREDENTIALS_JSON'' in
      if token = [] then
        fail [(''reason'', JStr ''required secret env var unset''), (''vars'', JArr [JStr ''GARAGE_ADMIN_TOKEN''])]
      else
        bindE (int_of_text (sk_admin_port a)) (\<lambda>port.
        andthen
          (attempt (json_loads H (sk_keys_json a)) is_ValueError
            (\<lambda>e. [(''reason'', JStr ''invalid --keys-json''), (''error'', JStr (str_exc H e))])) (\<lambda>desired_keys.
        if creds_raw = [] then
          fail [(''reason'', JStr ''required secret env var unset''),
            (''vars'', JArr [JStr ''GARAGE_KEY_CREDENTIALS_JSON''])]
        else
          andthen
            (attempt (json_loads H creds_raw) is_ValueError
              (\<lambda>e. [(''reason'', JStr ''invalid GARAGE_KEY_CREDENTIALS_JSON''), (''error'', JStr (str_exc H e))])) (\<lambda>creds.
          bindE (iter desired_keys) (\<lambda>specs.
          bindE (filterE (lacks_cred creds) specs) (\<lambda>lacking.
          bindE (mapE (field ''name'') lacking) (\<lambda>missing_cred.
            if missing_cred \<noteq> [] then
              fail [(''reason'', JStr (''no credential supplied in GARAGE_KEY_CREDENTIALS_JSON for key(s) '' @ em_dash @
                  '' the control node must provision secret/e4e-nas/garage-keys/<name> before sync-keys (see deploy/deploy-ansible.sh)'')),
                (''keys'', JArr missing_cred)]
            else
              andthen
                (attempt (check_permissions specs) is_ValueError (\<lambda>e. [(''reason'', JStr (str_exc H e))])) (\<lambda>_.
                sync_keys_with H port token (sk_keys_dir a) (sk_check a) specs creds))))))))"

section \<open>The command line\<close>

datatype cmd =
    RenderConfig render_config_args
  | Deploy deploy_args
  | Layout layout_args
  | SyncBuckets sync_buckets_args
  | SyncKeys sync_keys_args
  | RenderUiConfig render_ui_args
  | DeployUi deploy_ui_args

definition garage_main :: "'w host \<Rightarrow> cmd \<Rightarrow> ('w box, int) eff" where
  "garage_main H c =
     (case c of
        RenderConfig a \<Rightarrow> do_render_config H a
      | Deploy a \<Rightarrow> do_deploy H a
      | Layout a \<Rightarrow> do_layout H a
      | SyncBuckets a \<Rightarrow> do_sync_buckets H a
      | SyncKeys a \<Rightarrow> do_sync_keys H a
      | RenderUiConfig a \<Rightarrow> do_render_ui_config H a
      | DeployUi a \<Rightarrow> do_deploy_ui H a)"

end
