(* ===== verification/Garage_Looks.thy ===== *)
theory Garage_Looks
  imports Garage_Sync
begin

text \<open>
  What a run of the Garage applier may do: with \<open>--check\<close> every subcommand only looks, and a layout
  that is in place is never assigned again; and how long the wait for the daemon takes.
\<close>

section \<open>Looking\<close>

definition inspects :: "string list \<Rightarrow> bool" where
  "inspects argv =
     (take 2 argv = [''docker'', ''inspect''] \<or>
      (take 2 argv = [''docker'', ''exec''] \<and> drop 3 argv \<in> {[''/garage'', ''status''], [''/garage'', ''layout'', ''show'']}))"

definition looks :: "act \<Rightarrow> bool" where
  "looks a =
     (case a of
        Cmd argv \<Rightarrow> inspects argv
      | Req r \<Rightarrow> rq_method r = ''GET''
      | Sys c \<Rightarrow> (case c of ReadFile p \<Rightarrow> True | Stat p \<Rightarrow> True | _ \<Rightarrow> False))"

text \<open>Commands that only look do not change files: what docker and Garage document.\<close>

definition inspects_quietly :: "'w host \<Rightarrow> bool" where
  "inspects_quietly H \<longleftrightarrow> (\<forall>argv x. inspects argv \<longrightarrow> fst (snd (subprocess H argv x)) = fst x)"

definition looked :: "'w box \<Rightarrow> 'w box \<Rightarrow> bool" where
  "looked s t \<longleftrightarrow> did looks s t \<and> files t = files s"

interpretation looking: frame looked
proof
  show "looked s s" for s :: "'a box" by (simp add: looked_def does.frame_refl)
  show "looked s u" if "looked s t" "looked t u" for s t u :: "'a box"
    using that does.frame_trans[of looks s t u] by (simp add: looked_def)
qed

lemma looked_split: "keeps (did looks) m \<Longrightarrow> (\<And>s. files (snd (m s)) = files s) \<Longrightarrow> keeps looked m"
  by (simp add: keeps_def looked_def)

lemma quietD: "inspects_quietly H \<Longrightarrow> inspects argv \<Longrightarrow> subprocess H argv (fs, w) = (r, fs', w') \<Longrightarrow> fs' = fs"
  unfolding inspects_quietly_def by (drule spec[of _ argv], drule spec[of _ "(fs, w)"]) simp

lemma looked_basic:
  "keeps looked (os_call H (ReadFile p))" "keeps looked (os_call H (Stat p))"
  "rq_method r = ''GET'' \<Longrightarrow> keeps looked (send H r)" "keeps looked (say line)"
  "inspects_quietly H \<Longrightarrow> inspects argv \<Longrightarrow> keeps looked (run_tool H argv)"
  by (rule looked_split, force intro: does_basic simp: looks_def,
      force simp: os_call_def send_def say_def modE_def run_tool_def Let_def split: prod.split fate.split dest: quietD)+

lemma looked_looking:
  "keeps looked (os_exists H p)" "keeps looked (os_stat_uid H p)" "keeps looked (read_text H p)"
  "keeps looked (read_file H p)"
  unfolding os_exists_def os_stat_uid_def read_text_def read_file_def oserror_def
  by (auto intro!: looking.keeps_rules looked_basic split: option.split node.split)

lemma looked_run_cmd: "inspects_quietly H \<Longrightarrow> inspects argv \<Longrightarrow> keeps looked (run_cmd H argv)"
  unfolding run_cmd_def by (intro looking.keeps_rules looked_basic)

lemma looked_garage:
  "inspects_quietly H \<Longrightarrow> keeps looked (garage H c [''status''])"
  "inspects_quietly H \<Longrightarrow> keeps looked (garage H c [''layout'', ''show''])"
  unfolding garage_def by (auto intro!: looked_run_cmd simp: inspects_def)

lemma looked_docker:
  "inspects_quietly H \<Longrightarrow> keeps looked (container_running H c)"
  "inspects_quietly H \<Longrightarrow> keeps looked (container_image H c)"
  unfolding container_running_def container_image_def
  by (auto intro!: looking.keeps_rules looked_run_cmd simp: inspects_def split: prod.split)

lemma looked_result: "keeps looked (emit st payload check)" "keeps looked (fail payload)"
  unfolding emit_def fail_def by (auto intro!: looking.keeps_rules looked_basic)

lemma looked_loads: "keeps looked (json_loads H s)"
  unfolding json_loads_def by (auto intro!: looking.keeps_rules split: option.split)

lemma looked_get: "keeps looked (admin_request H port token ''GET'' path query body)"
  unfolding admin_request_def
  by (auto intro!: looking.keeps_rules looked_basic split: reply.split content.split)

lemma looked_andthen: "keeps looked m \<Longrightarrow> (\<And>x. keeps looked (k x)) \<Longrightarrow> keeps looked (andthen m k)"
  unfolding andthen_def by (auto intro!: looking.keeps_rules split: sum.split)

lemma looked_walkE: "(\<And>a x. x \<in> set xs \<Longrightarrow> keeps looked (f a x)) \<Longrightarrow> keeps looked (walkE f a xs)"
  by (induction xs arbitrary: a) (auto intro!: looking.keeps_rules split: sum.split)

lemma looked_stops: "keeps looked (go_on x)" "keeps looked (stop_with payload)"
  unfolding go_on_def stop_with_def by (auto intro!: looking.keeps_rules looked_result)

lemma looked_attempt: "keeps looked m \<Longrightarrow> keeps looked (attempt m c report)"
  unfolding attempt_def by (auto intro!: looking.keeps_rules looked_stops split: sum.split)

lemmas looked_rules =
  looked_andthen looked_walkE looked_stops looked_attempt looking.keeps_rules looking.keeps_json
  looking.keeps_json_derived looking.keeps_pylib looked_looking looked_garage looked_docker looked_result
  looked_loads looked_get

section \<open>The subcommands with \<open>--check\<close>\<close>

lemma still_config_fields: "keeps (=) (config_fields H a)"
  unfolding config_fields_def by (intro still.keeps_rules still_pylib)

lemma still_yaml: "keeps (=) (yaml_list_lines j n)"
  unfolding yaml_list_lines_def yaml_item_def by (auto intro!: still.keeps_rules still_pylib)

lemma still_ui_fields: "keeps (=) (ui_fields H a p j k)"
  unfolding ui_fields_def by (intro still.keeps_rules still_pylib still_yaml)

lemmas looked_fields =
  still_config_fields[THEN looking.keeps_still] still_ui_fields[THEN looking.keeps_still]

lemma looked_render_config: "rc_check a \<Longrightarrow> keeps looked (do_render_config H a)"
  unfolding do_render_config_def
  by (auto simp: Let_def intro!: looked_rules looked_fields split: option.split)

lemma looked_deploy: "inspects_quietly H \<Longrightarrow> dp_check a \<Longrightarrow> keeps looked (do_deploy H a)"
  unfolding do_deploy_def by (auto simp: Let_def intro!: looked_rules)

lemma looked_layout: "inspects_quietly H \<Longrightarrow> ly_check a \<Longrightarrow> keeps looked (do_layout H a)"
  unfolding do_layout_def by (auto simp: Let_def intro!: looked_rules split: prod.split option.split)

lemma looked_jwt: "ru_check a \<Longrightarrow> keeps looked (jwt_for H a missing p)"
  unfolding jwt_for_def by (cases missing) (auto intro!: looked_rules split: option.split)

lemma looked_render_ui: "ru_check a \<Longrightarrow> keeps looked (do_render_ui_config H a)"
  unfolding do_render_ui_config_def
  by (auto simp: Let_def intro!: looked_rules looked_fields looked_jwt split: option.split)

lemma looked_deploy_ui: "inspects_quietly H \<Longrightarrow> du_check a \<Longrightarrow> keeps looked (do_deploy_ui H a)"
  unfolding do_deploy_ui_def by (auto simp: Let_def intro!: looked_rules)

lemma still_case_get: "keeps (=) (case x of None \<Rightarrow> raiseE e | Some i \<Rightarrow> retE i)"
  by (auto intro!: still.keeps_rules split: option.split)

lemmas still_rules =
  still.keeps_rules still.keeps_json still.keeps_json_derived still_pylib still_case_get

lemma still_get_dflt: "keeps (=) (get_dflt k j d)"
  unfolding get_dflt_def by (intro still_rules)

lemma still_cors: "keeps (=) (optional_int k v)" "keeps (=) (cors_api_rule r b)" "keeps (=) (cors_canonical j)"
  unfolding optional_int_def cors_api_rule_def cors_canonical_def canonical_rule_def
  by (auto simp: Let_def intro!: still_rules split: option.split json.split)

lemma still_buckets: "keeps (=) (add_bucket d b)" "keeps (=) (desired_buckets j)"
  unfolding add_bucket_def add_alias_def desired_buckets_def add_desired_def by (intro still_rules still_cors)+

lemma still_perms: "keeps (=) (permissions_dict j)" "keeps (=) (desired_perms j)" "keeps (=) (bucket_specs j)"
  "keeps (=) (check_permissions js)"
proof -
  show *: "keeps (=) (permissions_dict j)" for j
    unfolding permissions_dict_def by (auto simp: Let_def intro!: still_rules)
  show "keeps (=) (desired_perms j)" "keeps (=) (bucket_specs j)" "keeps (=) (check_permissions js)"
    unfolding desired_perms_def bucket_specs_def check_permissions_def by (intro still_rules still_get_dflt *)+
qed

lemma still_perms_of: "keeps (=) (perms_of k js)"
  by (induction js) (auto intro!: still_rules still_get_dflt)

lemma still_creds:
  "keeps (=) (lacks_cred creds kspec)" "keeps (=) (cred creds n part)" "keeps (=) (env_body creds n)"
  "keeps (=) (id_mismatch creds ids n)"
  unfolding lacks_cred_def has_part_def get_by_def cred_def env_body_def id_mismatch_def
  by (auto intro!: still_rules split: json.split option.split)

lemmas looked_pure =
  still_case_get[THEN looking.keeps_still] still_get_dflt[THEN looking.keeps_still] still_cors[THEN looking.keeps_still]
  still_buckets[THEN looking.keeps_still] still_perms[THEN looking.keeps_still]
  still_perms_of[THEN looking.keeps_still] still_creds[THEN looking.keeps_still]

lemma looked_lists: "keeps looked (list_buckets H port token)" "keeps looked (list_keys H port token)"
  unfolding list_buckets_def list_keys_def add_key_def
  by (auto intro!: looked_rules looked_pure split: sum.split prod.split)

lemma looked_compare_cors: "keeps looked (compare_cors H port token ids missing d todo n)"
  unfolding compare_cors_def by (auto simp: Let_def intro!: looked_rules looked_pure split: option.split)

lemma looked_check_buckets: "keeps looked (check_buckets ids u kspec)"
  unfolding check_buckets_def check_bucket_def by (auto intro!: looked_rules looked_pure)

lemma looked_diff_key: "keeps looked (diff_key H port token bids kids ops kspec)"
  unfolding diff_key_def diff_bucket_def current_perms_def
  by (auto intro!: looked_rules looked_pure split: sum.split option.split)

lemma looked_env_stale: "keeps looked (env_stale H dir creds n)"
  unfolding env_stale_def by (auto intro!: looked_rules looked_pure)

lemma looked_sync_buckets: "sb_check a \<Longrightarrow> keeps looked (do_sync_buckets H a)"
  unfolding do_sync_buckets_def sync_buckets_with_def
  by (auto simp: Let_def intro!: looked_rules looked_pure looked_lists looked_compare_cors)

lemma looked_sync_keys: "sk_check a \<Longrightarrow> keeps looked (do_sync_keys H a)"
  unfolding do_sync_keys_def sync_keys_with_def
  by (auto simp: Let_def intro!: looked_rules looked_pure looked_lists looked_check_buckets looked_diff_key
      looked_env_stale)

definition check_of :: "cmd \<Rightarrow> bool" where
  "check_of c =
     (case c of
        RenderConfig a \<Rightarrow> rc_check a | Deploy a \<Rightarrow> dp_check a | Layout a \<Rightarrow> ly_check a | SyncBuckets a \<Rightarrow> sb_check a
      | SyncKeys a \<Rightarrow> sk_check a | RenderUiConfig a \<Rightarrow> ru_check a | DeployUi a \<Rightarrow> du_check a)"

lemma looked_main: "inspects_quietly H \<Longrightarrow> check_of c \<Longrightarrow> keeps looked (garage_main H c)"
  unfolding garage_main_def check_of_def
  by (auto split: cmd.splits
      intro: looked_render_config looked_deploy looked_layout looked_sync_buckets looked_sync_keys looked_render_ui
        looked_deploy_ui)

section \<open>The layout\<close>

text \<open>Every answer to \<open>garage layout show\<close> tells a version above 0: a layout is in place.\<close>

definition layout_in_place :: "'w host \<Rightarrow> bool" where
  "layout_in_place H \<longleftrightarrow>
     (\<forall>c x out err y.
        subprocess H [''docker'', ''exec'', c, ''/garage'', ''layout'', ''show''] x = (Ok (0, out, err), y) \<longrightarrow>
        0 < layout_version out)"

lemma yields_run_cmd:
  assumes "\<And>x rc out err y. subprocess H argv x = (Ok (rc, out, err), y) \<Longrightarrow> Q (rc, out, err)"
    and "\<And>msg. Q (127, [], msg)"
  shows "yields (run_cmd H argv) Q"
  using assms unfolding yields_def run_cmd_def catchE_def run_tool_def
  by (fastforce split: prod.splits res.splits if_splits)

lemma looked_sleep: "keeps looked (modE (\<lambda>s. s\<lparr>outer := f (outer s)\<rparr>))"
  by (simp add: keeps_def modE_def looked_def did_def)

lemma looked_status_poll: "inspects_quietly H \<Longrightarrow> keeps looked (status_poll H c deadline n)"
  by (induction n) (auto intro!: looked_rules looked_sleep)

lemma looked_settled_layout:
  assumes "inspects_quietly H" and "layout_in_place H"
  shows "keeps looked (do_layout H a)"
proof -
  have *: "0 < layout_version out"
    if "subprocess H [''docker'', ''exec'', c, ''/garage'', ''layout'', ''show''] x = (Ok (0, out, err), y)" for c x out err y
    using assms(2) that unfolding layout_in_place_def by blast
  have shown: "yields (garage H c [''layout'', ''show'']) (\<lambda>(rc, out, err). rc = 0 \<longrightarrow> 0 < layout_version out)" for c
    unfolding garage_def by (intro yields_run_cmd) (auto dest: *)
  have ready: "keeps looked (garage_status_ready H c)" for c
    unfolding garage_status_ready_def using looked_status_poll[OF assms(1)] by (auto intro!: looked_rules)
  show ?thesis
    unfolding do_layout_def
    using assms(1) ready
    by (auto simp: Let_def intro!: looked_rules looking.keeps_bindP[OF looked_garage(2)[OF assms(1)] shown])
qed

text \<open>
  A clock that follows the calls: sleeping takes at least as long as asked for, and no command turns
  the clock back or fails to come back.
\<close>

definition clock_advances :: "'w host \<Rightarrow> bool" where
  "clock_advances H \<longleftrightarrow>
     (\<forall>d w. clock H w + d \<le> clock H (sleep H d w)) \<and>
     (\<forall>argv fs w. clock H w \<le> clock H (snd (snd (subprocess H argv (fs, w)))) \<and>
        fst (subprocess H argv (fs, w)) \<noteq> Halt)"

lemma run_cmd_clock:
  assumes "clock_advances H" and "run_cmd H argv s = (r, t)"
  shows "r \<noteq> Halt" and "clock H (outer s) \<le> clock H (outer t)"
proof -
  obtain r' fs w where *: "subprocess H argv (files s, outer s) = (r', fs, w)" by (metis prod_cases3)
  with assms(1) have "clock H (outer s) \<le> clock H w" and "r' \<noteq> Halt"
    unfolding clock_advances_def by (metis fst_conv snd_conv)+
  then show "r \<noteq> Halt" and "clock H (outer s) \<le> clock H (outer t)"
    using assms(2) * by (auto simp: run_cmd_def catchE_def run_tool_def retE_def split: res.splits if_splits)
qed

lemma status_poll_ends:
  assumes "clock_advances H" and "deadline \<le> clock H (outer s) + 3 * of_nat n" and "0 < n"
  shows "fst (status_poll H c deadline n s) \<noteq> Halt"
  using assms(2,3)
proof (induction n arbitrary: s)
  case (Suc n)
  obtain r t where r: "garage H c [''status''] s = (r, t)" by (cases "garage H c [''status''] s")
  have *: "r \<noteq> Halt" "clock H (outer s) \<le> clock H (outer t)"
    using run_cmd_clock[OF assms(1) r[unfolded garage_def]] by blast+
  show ?case
  proof (cases "\<exists>p. r = Ok p \<and> fst p \<noteq> 0 \<and> clock H (outer t) + 3 < deadline")
    case True
    let ?t = "t\<lparr>outer := sleep H 3 (outer t)\<rparr>"
    have "clock H (outer t) + 3 \<le> clock H (outer ?t)" using assms(1) by (simp add: clock_advances_def)
    then have "deadline \<le> clock H (outer ?t) + 3 * of_nat n" and "0 < n"
      using True Suc.prems(1) *(2) by (auto simp: algebra_simps intro: gr0I)
    from Suc.IH[OF this] True r show ?thesis
      by (auto simp: bindE_def getE_def modE_def retE_def GARAGE_READY_INTERVAL_def)
  qed (use r *(1) in \<open>auto simp: bindE_def getE_def retE_def GARAGE_READY_INTERVAL_def not_less split: res.splits\<close>)
qed simp

lemma status_ready_ends: "clock_advances H \<Longrightarrow> fst (garage_status_ready H c s) \<noteq> Halt"
  using status_poll_ends[of H "clock H (outer s) + GARAGE_READY_TIMEOUT" s READY_FUEL c]
  by (simp add: garage_status_ready_def bindE_def getE_def GARAGE_READY_TIMEOUT_def READY_FUEL_def)

end
