(* ===== verification/Garage_Files.thy ===== *)
theory Garage_Files
  imports Garage_Looks
begin

text \<open>
  What an atomic write leaves behind, whatever calls fail and wherever it is killed: the file is as it
  was or complete, and anything else that is new is a directory or a file for its owner only.
\<close>

section \<open>Growing trees\<close>

definition grown :: "tree \<Rightarrow> tree \<Rightarrow> bool" where
  "grown F G \<longleftrightarrow> (\<forall>p. G p = F p \<or> (F p = None \<and> G p = Some Dir))"

lemma grown_refl: "grown F F"
  by (simp add: grown_def)

lemma grown_trans: "grown F G \<Longrightarrow> grown G K \<Longrightarrow> grown F K"
  unfolding grown_def by (metis option.distinct(1))

interpretation growing: frame "\<lambda>s t. grown (files s) (files t)"
  by unfold_locales (auto intro: grown_refl grown_trans)

lemma growing_basic:
  "keeps (\<lambda>s t. grown (files s) (files t)) (os_call H c)"
  "keeps (\<lambda>s t. grown (files s) (files t)) (say line)"
  by (auto simp: keeps_def os_call_def say_def modE_def grown_refl Let_def split: prod.split fate.split)

lemma growing_mkdir: "keeps (\<lambda>s t. grown (files s) (files t)) (os_mkdir H p)"
proof -
  have "keeps (\<lambda>s t. grown (files s) (files t))
      (bindE (getE files) (\<lambda>fs. if p = [] then oserror ENOENT
       else if is_dir fs p \<or> fs p \<noteq> None then oserror EEXIST
       else if is_dir fs (dirname p) then set_file p (Some Dir)
       else oserror (if fs (dirname p) = None then ENOENT else ENOTDIR)))"
    by (auto simp: keeps_def bindE_def getE_def oserror_def raiseE_def set_file_def modE_def grown_def)
  then show ?thesis unfolding os_mkdir_def by (rule growing.keeps_bind[OF growing_basic(1)])
qed

lemma growing_makedirs: "keeps (\<lambda>s t. grown (files s) (files t)) (makedirs H p)"
  unfolding makedirs_def make_dir_def os_exists_def os_isdir_def
  by (intro growing.keeps_rules growing_basic growing_mkdir)

section \<open>Triples about the files\<close>

definition fs_triple :: "(tree \<Rightarrow> bool) \<Rightarrow> ('w box, 'a) eff \<Rightarrow> ('a \<Rightarrow> tree \<Rightarrow> bool) \<Rightarrow> (tree \<Rightarrow> bool) \<Rightarrow> bool" where
  "fs_triple I m Q E = triple (\<lambda>s. I (files s)) m (\<lambda>x s. Q x (files s)) (\<lambda>s. E (files s))"

lemma fs_bind: "fs_triple I m J E \<Longrightarrow> (\<And>x. fs_triple (J x) (f x) Q E) \<Longrightarrow> fs_triple I (bindE m f) Q E"
  unfolding fs_triple_def by (rule triple_bind)

lemma fs_conseq:
  "fs_triple I m Q E \<Longrightarrow> (\<And>s. I' s \<Longrightarrow> I s) \<Longrightarrow> (\<And>x s. Q x s \<Longrightarrow> Q' x s) \<Longrightarrow> (\<And>s. E s \<Longrightarrow> E' s) \<Longrightarrow> fs_triple I' m Q' E'"
  unfolding fs_triple_def by (erule triple_conseq)

lemma fs_call: "fs_triple I (os_call H c) (\<lambda>_. I) I"
  unfolding fs_triple_def triple_def os_call_def Let_def by (auto split: prod.splits fate.splits)

lemma fs_growing:
  assumes "keeps (\<lambda>s t. grown (files s) (files t)) m"
  shows "fs_triple (grown F) m (\<lambda>_. grown F) (grown F)"
  using assms unfolding fs_triple_def triple_def keeps_def
  by (auto split: res.split) (metis grown_trans snd_conv)+

text \<open>The temporary file, and nothing else but directories.\<close>

definition temp_at :: "tree \<Rightarrow> string \<Rightarrow> string \<Rightarrow> nat \<Rightarrow> int \<times> int \<Rightarrow> tree \<Rightarrow> bool" where
  "temp_at F tmp c m ids G \<longleftrightarrow> (\<exists>F'. grown F F' \<and> F' tmp = None \<and> G = F'(tmp := Some (Plain c m ids)))"

lemma fs_mkstemp: "fs_triple (grown F) (mkstemp H d) (\<lambda>tmp. temp_at F tmp [] (perm 6 0 0) (euid H)) (grown F)"
proof -
  have "fs_triple (grown F)
      (bindE (getE files) (\<lambda>fs. if fs tmp \<noteq> None then oserror EEXIST else if \<not> is_dir fs d then oserror ENOENT
         else bindE (set_file tmp (Some (Plain [] (perm 6 0 0) (euid H)))) (\<lambda>_. retE tmp)))
      (\<lambda>tmp. temp_at F tmp [] (perm 6 0 0) (euid H)) (grown F)" for tmp
    by (auto simp: fs_triple_def triple_def bindE_def getE_def oserror_def raiseE_def set_file_def modE_def retE_def
        temp_at_def split: res.splits if_splits)
  then show ?thesis
    unfolding mkstemp_def by (intro fs_bind[OF _ fs_bind[OF fs_call]]) (auto simp: fs_triple_def intro: triple_get)
qed

lemma fs_edit:
  assumes "\<And>c m ids. f (Plain c m ids) = Plain (gc c) (gm m) (gi ids)"
  shows "fs_triple (temp_at F tmp c m ids) (edit_file tmp f) (\<lambda>_. temp_at F tmp (gc c) (gm m) (gi ids)) E"
  using assms[of c m ids] unfolding edit_file_def
  by (auto simp: fs_triple_def triple_def bindE_def getE_def set_file_def modE_def temp_at_def split: res.splits)
      blast

lemma fs_write:
  "fs_triple (temp_at F tmp c m ids) (os_write H tmp c') (\<lambda>_. temp_at F tmp c' m ids)
     (\<lambda>G. \<exists>c. temp_at F tmp c m ids G)"
proof -
  have 1: "fs_triple (temp_at F tmp c m ids) (edit_file tmp (set_content c')) (\<lambda>_. temp_at F tmp c' m ids) E" for c c' E
    by (rule fs_edit[where gc = "\<lambda>_. c'" and gm = "\<lambda>x. x" and gi = "\<lambda>x. x"]) (simp add: set_content_def)
  have 2: "fs_triple (temp_at F tmp c m ids) (os_call H op) (\<lambda>_. temp_at F tmp c m ids) (\<lambda>G. \<exists>c. temp_at F tmp c m ids G)" for c op
    by (rule fs_conseq[OF fs_call[where I = "temp_at F tmp c m ids"]]) auto
  have 3: "fs_triple (temp_at F tmp c m ids) (getE f) (\<lambda>_. temp_at F tmp c m ids) E" for f :: "'w box \<Rightarrow> nat" and E
    by (simp add: fs_triple_def triple_def getE_def)
  show ?thesis
    unfolding os_write_def
    by (rule fs_bind[OF 3], rule fs_bind[OF 1], rule fs_bind[OF 2], rule 1)
qed

lemma fs_chmod:
  "fs_triple (temp_at F tmp c m ids) (os_chmod H tmp m') (\<lambda>_. temp_at F tmp c m' ids) (temp_at F tmp c m ids)"
  unfolding os_chmod_def
  by (rule fs_bind[OF fs_call], rule fs_edit[where gc = "\<lambda>x. x" and gm = "\<lambda>_. m'" and gi = "\<lambda>x. x"])
     (simp add: set_mode_def)

lemma fs_chown:
  "fs_triple (temp_at F tmp c m ids) (os_chown H tmp ids') (\<lambda>_. temp_at F tmp c m ids') (temp_at F tmp c m ids)"
  unfolding os_chown_def
  by (rule fs_bind[OF fs_call], rule fs_edit[where gc = "\<lambda>x. x" and gm = "\<lambda>x. x" and gi = "\<lambda>_. ids'"])
     (simp add: set_owner_def)

text \<open>The file in its place, and nothing else but directories.\<close>

definition placed :: "tree \<Rightarrow> string \<Rightarrow> node \<Rightarrow> tree \<Rightarrow> bool" where
  "placed F path n G \<longleftrightarrow> (\<exists>F'. grown F F' \<and> G = F'(path := Some n))"

lemma fs_replace:
  "fs_triple (temp_at F tmp c m ids) (os_replace H tmp path) (\<lambda>_. placed F path (Plain c m ids)) (temp_at F tmp c m ids)"
proof -
  have *: "placed F path (Plain c m ids) (G(tmp := None, path := G tmp))" if "temp_at F tmp c m ids G" for G
    using that unfolding temp_at_def placed_def by (auto simp: fun_upd_twist)
       (metis fun_upd_apply fun_upd_triv fun_upd_upd)
  have "fs_triple (temp_at F tmp c m ids)
      (bindE (getE files) (\<lambda>fs. if fs tmp = None then oserror ENOENT else if is_dir fs path then oserror EISDIR
         else modE (\<lambda>s. s\<lparr>files := fs(tmp := None, path := fs tmp)\<rparr>)))
      (\<lambda>_. placed F path (Plain c m ids)) (temp_at F tmp c m ids)"
    using * by (auto simp: fs_triple_def triple_def bindE_def getE_def oserror_def raiseE_def modE_def split: res.splits if_splits)
  then show ?thesis unfolding os_replace_def by (intro fs_bind[OF fs_call])
qed

lemma fs_unlink:
  "fs_triple (temp_at F tmp c m ids) (os_unlink H tmp) (\<lambda>_. grown F) (temp_at F tmp c m ids)"
proof -
  have *: "grown F (G(tmp := None))" if "temp_at F tmp c m ids G" for G
    using that unfolding temp_at_def by (auto simp: fun_upd_idem)
  have "fs_triple (temp_at F tmp c m ids)
      (bindE (getE files) (\<lambda>fs. if fs tmp = None then oserror ENOENT else if is_dir fs tmp then oserror EISDIR
         else set_file tmp None))
      (\<lambda>_. grown F) (temp_at F tmp c m ids)"
    using * by (auto simp: fs_triple_def triple_def bindE_def getE_def oserror_def raiseE_def modE_def set_file_def split: res.splits if_splits)
  then show ?thesis unfolding os_unlink_def by (intro fs_bind[OF fs_call])
qed

section \<open>Atomic writes\<close>

text \<open>
  \<open>wrote F path n G\<close>: compared with \<open>F\<close>, the tree \<open>G\<close> may have \<open>n\<close> at \<open>path\<close>, new directories, and a
  new file that only its owner can read or that has the mode of \<open>n\<close>.
\<close>

definition node_mode :: "node \<Rightarrow> nat" where
  "node_mode n = (case n of Dir \<Rightarrow> 0 | Plain c m ids \<Rightarrow> m)"

definition is_leftover :: "node \<Rightarrow> node option \<Rightarrow> bool" where
  "is_leftover n x = (case x of Some (Plain c m ids) \<Rightarrow> m = perm 6 0 0 \<or> m = node_mode n | _ \<Rightarrow> False)"

definition wrote :: "tree \<Rightarrow> string \<Rightarrow> node \<Rightarrow> tree \<Rightarrow> bool" where
  "wrote F path n G \<longleftrightarrow>
     (\<forall>p. G p = F p \<or> (p = path \<and> G p = Some n) \<or> (F p = None \<and> (G p = Some Dir \<or> is_leftover n (G p))))"

lemma grown_wrote: "grown F G \<Longrightarrow> wrote F path n G"
  by (auto simp: grown_def wrote_def)

lemma placed_wrote:
  assumes "placed F path n G"
  shows "wrote F path n G"
  unfolding wrote_def
proof
  fix p
  obtain F' where "F' p = F p \<or> (F p = None \<and> F' p = Some Dir)" and "G = F'(path := Some n)"
    using assms unfolding placed_def grown_def by blast
  then show "G p = F p \<or> (p = path \<and> G p = Some n) \<or> (F p = None \<and> (G p = Some Dir \<or> is_leftover n (G p)))"
    by (cases "p = path") auto
qed

lemma placed_at: "placed F path n G \<Longrightarrow> G path = Some n"
  by (auto simp: placed_def)

lemma temp_wrote:
  assumes "temp_at F tmp c m ids G" and m: "m = perm 6 0 0 \<or> m = node_mode n"
  shows "wrote F path n G"
  unfolding wrote_def
proof
  fix p
  obtain F' where F': "\<And>p. F' p = F p \<or> (F p = None \<and> F' p = Some Dir)" "F' tmp = None"
    and G: "G = F'(tmp := Some (Plain c m ids))"
    using assms(1) unfolding temp_at_def grown_def by blast
  show "G p = F p \<or> (p = path \<and> G p = Some n) \<or> (F p = None \<and> (G p = Some Dir \<or> is_leftover n (G p)))"
  proof (cases "p = tmp")
    case True
    have "F tmp = None" using F'(1)[of tmp] F'(2) by auto
    then show ?thesis using True m by (simp add: G is_leftover_def)
  qed (use F'(1)[of p] in \<open>auto simp: G\<close>)
qed

lemma fs_weak: "fs_triple I m Q E \<Longrightarrow> (\<And>s. E s \<Longrightarrow> E' s) \<Longrightarrow> fs_triple I m Q E'"
  by (rule fs_conseq)

lemma fs_fact: "(b \<Longrightarrow> fs_triple I m Q E) \<Longrightarrow> fs_triple (\<lambda>G. b \<and> I G) m Q E"
  unfolding fs_triple_def by (rule triple_fact)

lemma fs_ex: "(\<And>x. fs_triple (I x) m Q E) \<Longrightarrow> fs_triple (\<lambda>G. \<exists>x. I x G) m Q E"
  unfolding fs_triple_def by (auto intro!: triple_ex)

lemma fs_if: "(b \<Longrightarrow> fs_triple I m Q E) \<Longrightarrow> (\<not> b \<Longrightarrow> fs_triple I n Q E) \<Longrightarrow> fs_triple I (if b then m else n) Q E"
  by simp

lemma fs_raise: "(\<And>G. I G \<Longrightarrow> E G) \<Longrightarrow> fs_triple I (raiseE e) Q E"
  unfolding fs_triple_def by (rule triple_raise)

lemma fs_ret: "(\<And>G. I G \<Longrightarrow> Q x G) \<Longrightarrow> fs_triple I (retE x) Q E"
  unfolding fs_triple_def by (rule triple_ret)

lemma fs_catch:
  "fs_triple I m Q F \<Longrightarrow> (\<And>e. fs_triple F (h e) Q E) \<Longrightarrow> (\<And>G. F G \<Longrightarrow> E G) \<Longrightarrow> fs_triple I (catchE m c h) Q E"
  unfolding fs_triple_def by (rule triple_catch)

text \<open>The temporary file with some contents and owner, and one of the two modes.\<close>

definition temp_left :: "tree \<Rightarrow> string \<Rightarrow> nat \<Rightarrow> tree \<Rightarrow> bool" where
  "temp_left F tmp mode G \<longleftrightarrow> (\<exists>m. (m = perm 6 0 0 \<or> m = mode) \<and> (\<exists>c ids. temp_at F tmp c m ids G))"

lemma temp_leftI: "temp_at F tmp c m ids G \<Longrightarrow> m = perm 6 0 0 \<or> m = mode \<Longrightarrow> temp_left F tmp mode G"
  unfolding temp_left_def by blast

lemma fs_fill_temp:
  "fs_triple (temp_at F tmp [] (perm 6 0 0) ids0)
     (bindE (os_write H tmp c) (\<lambda>_. bindE (os_chmod H tmp m) (\<lambda>_. bindE (os_chown H tmp ids) (\<lambda>_. os_replace H tmp path))))
     (\<lambda>_. placed F path (Plain c m ids)) (temp_left F tmp m)"
  by (rule fs_bind[OF fs_weak[OF fs_write] fs_bind[OF fs_weak[OF fs_chmod] fs_bind[OF fs_weak[OF fs_chown] fs_weak[OF fs_replace]]]])
     (auto intro: temp_leftI)

lemma fs_clean_up:
  "fs_triple (temp_left F tmp (node_mode n)) (bindE (catchE (os_unlink H tmp) c (\<lambda>x. retE ())) (\<lambda>_. raiseE e)) Q (wrote F path n)"
proof -
  have left: "temp_left F tmp (node_mode n) G \<Longrightarrow> wrote F path n G" for G
    unfolding temp_left_def by (auto intro: temp_wrote)
  have unlink: "fs_triple (temp_left F tmp (node_mode n)) (os_unlink H tmp) (\<lambda>_ G. wrote F path n G) (wrote F path n)"
    unfolding temp_left_def
    by (intro fs_ex fs_fact) (rule fs_conseq[OF fs_unlink], auto intro: grown_wrote temp_wrote)
  show ?thesis
    by (rule fs_bind[OF fs_catch[OF unlink fs_ret]]) (auto intro: fs_raise)
qed

lemma fs_atomic:
  "fs_triple (\<lambda>G. G = F) (atomic_write H path c m ids) (\<lambda>_. placed F path (Plain c m ids)) (wrote F path (Plain c m ids))"
proof -
  have n: "node_mode (Plain c m ids) = m" by (simp add: node_mode_def)
  have body: "fs_triple (temp_at F tmp [] (perm 6 0 0) (euid H))
     (catchE (bindE (os_write H tmp c) (\<lambda>_. bindE (os_chmod H tmp m) (\<lambda>_. bindE (os_chown H tmp ids) (\<lambda>_. os_replace H tmp path))))
        is_Exception (\<lambda>e. bindE (catchE (os_unlink H tmp) (\<lambda>x. x = OSError ENOENT) (\<lambda>_. retE ())) (\<lambda>_. raiseE e)))
     (\<lambda>_. placed F path (Plain c m ids)) (wrote F path (Plain c m ids))" for tmp
    by (rule fs_catch[OF fs_fill_temp]) (auto intro: fs_clean_up[where n = "Plain c m ids", unfolded n] temp_wrote simp: temp_left_def n)
  show ?thesis
    unfolding atomic_write_def Let_def
    by (rule fs_conseq[where I = "grown F"],
        rule fs_bind[OF fs_weak[OF fs_growing[OF growing_makedirs]] fs_bind[OF fs_weak[OF fs_mkstemp] body]])
       (auto intro: grown_wrote grown_refl)
qed

end
