(* ===== verification/Garage_Toml.thy ===== *)
theory Garage_Toml
  imports Garage_Files
begin

text \<open>
  A reader for the part of TOML that \<open>garage.toml\<close> uses, written from the TOML specification and not
  from the program, and the proof that it reads the rendered configuration back.
\<close>

section \<open>A reader of TOML\<close>

datatype tval = TStr string | TInt int

definition toml_escape :: "char \<Rightarrow> char option" where
  "toml_escape c =
     map_of [(CHR 0x5C, CHR 0x5C), (CHR 0x22, CHR 0x22), (CHR ''b'', CHR 0x08), (CHR ''t'', CHR 0x09),
       (CHR ''n'', CHR 0x0A), (CHR ''f'', CHR 0x0C), (CHR ''r'', CHR 0x0D)] c"

definition is_control :: "char \<Rightarrow> bool" where
  "is_control c = (let n = of_char c :: nat in (n < 32 \<and> n \<noteq> 9) \<or> n = 127)"

text \<open>A basic string after its opening quote: its value, and what follows the closing quote.\<close>

fun basic_string :: "string \<Rightarrow> (string \<times> string) option" where
  "basic_string [] = None"
| "basic_string (c # s) =
     (if c = CHR 0x22 then Some ([], s)
      else if c = CHR 0x5C then
        (case s of
           [] \<Rightarrow> None
         | e # r \<Rightarrow>
             (case toml_escape e of
                None \<Rightarrow> None
              | Some x \<Rightarrow> map_option (\<lambda>(v, rest). (x # v, rest)) (basic_string r)))
      else if is_control c then None
      else map_option (\<lambda>(v, rest). (c # v, rest)) (basic_string s))"

definition toml_value :: "string \<Rightarrow> tval option" where
  "toml_value s =
     (case s of
        [] \<Rightarrow> None
      | c # r \<Rightarrow>
          if c = CHR 0x22
          then (case basic_string r of Some (v, rest) \<Rightarrow> if strip rest = [] then Some (TStr v) else None | None \<Rightarrow> None)
          else map_option TInt (int_of_string s))"

datatype tline = Skip | Section string | Entry string tval | Bad

definition is_bare :: "char \<Rightarrow> bool" where
  "is_bare c = (is_word c \<or> c = CHR ''-'')"

definition toml_entry :: "string \<Rightarrow> tline" where
  "toml_entry l =
     (let k = takeWhile is_bare l; r = lstrip (dropWhile is_bare l) in
      if k = [] \<or> \<not> startswith r ''='' then Bad
      else case toml_value (lstrip (tl r)) of None \<Rightarrow> Bad | Some v \<Rightarrow> Entry k v)"

definition toml_line :: "string \<Rightarrow> tline" where
  "toml_line l =
     (if l = [] \<or> startswith l ''#'' then Skip
      else if startswith l ''['' then
        (let n = takeWhile is_bare (tl l) in if n \<noteq> [] \<and> l = ''['' @ n @ '']'' then Section n else Bad)
      else toml_entry l)"

type_synonym toml = "((string \<times> string) \<times> tval) list"

primrec toml_lines :: "string \<Rightarrow> string list \<Rightarrow> toml option" where
  "toml_lines sec [] = Some []"
| "toml_lines sec (l # ls) =
     (case toml_line l of
        Skip \<Rightarrow> toml_lines sec ls
      | Section n \<Rightarrow> toml_lines n ls
      | Entry k v \<Rightarrow> map_option (\<lambda>d. ((sec, k), v) # d) (toml_lines sec ls)
      | Bad \<Rightarrow> None)"

definition toml_doc :: "string \<Rightarrow> toml option" where
  "toml_doc text = toml_lines [] (split_on (CHR 0x0A) text)"

section \<open>Lines\<close>

definition unlines :: "string list \<Rightarrow> string" where
  "unlines ls = concat (map (\<lambda>l. l @ [CHR 0x0A]) ls)"

definition one_line :: "string \<Rightarrow> bool" where
  "one_line l = list_all (\<lambda>c. c \<noteq> CHR 0x0A \<and> c \<noteq> CHR 0x0D) l"

lemma split_on_line: "list_all (\<lambda>x. x \<noteq> c) l \<Longrightarrow> split_on c (l @ c # rest) = l # split_on c rest"
  by (induction l) auto

lemma split_on_unlines: "list_all one_line ls \<Longrightarrow> split_on (CHR 0x0A) (unlines ls) = ls @ [[]]"
proof (induction ls)
  case (Cons l ls)
  then have "list_all (\<lambda>x. x \<noteq> CHR 0x0A) l" by (simp add: one_line_def list_all_iff)
  with Cons show ?case by (simp add: unlines_def split_on_line)
qed (simp add: unlines_def)

lemma universal_newlines_id: "CHR 0x0D \<notin> set s \<Longrightarrow> universal_newlines s = s"
  by (induction s rule: universal_newlines.induct) auto

lemma universal_newlines_unlines: "list_all one_line ls \<Longrightarrow> universal_newlines (unlines ls) = unlines ls"
  by (rule universal_newlines_id) (auto simp: unlines_def one_line_def list_all_iff)

section \<open>Reading an entry\<close>

text \<open>A text that needs no escape: no quote, no backslash, no control character but the tab.\<close>

definition plain :: "string \<Rightarrow> bool" where
  "plain v = list_all (\<lambda>c. c \<noteq> CHR 0x22 \<and> c \<noteq> CHR 0x5C \<and> \<not> is_control c) v"

lemma is_control_breaks: "is_control (CHR 0x0A)" "is_control (CHR 0x0D)"
  by code_simp+

lemma plain_one_line: "plain v \<Longrightarrow> one_line v"
  using is_control_breaks by (auto simp: plain_def one_line_def list_all_iff)

lemma basic_string_plain: "plain v \<Longrightarrow> basic_string (v @ CHR 0x22 # rest) = Some (v, rest)"
  by (induction v) (auto simp: plain_def)

definition bare_key :: "string \<Rightarrow> bool" where
  "bare_key k = (k \<noteq> [] \<and> list_all is_bare k)"

definition kv :: "string \<Rightarrow> string \<Rightarrow> string" where
  "kv k v = k @ '' = '' @ [CHR 0x22] @ v @ [CHR 0x22]"

definition kv_int :: "string \<Rightarrow> int \<Rightarrow> string" where
  "kv_int k n = k @ '' = '' @ str_int n"

lemma is_bare_special: "\<not> is_bare (CHR '' '')" "is_bare c \<Longrightarrow> c \<noteq> CHR ''#'' \<and> c \<noteq> CHR ''[''"
  by (auto simp: is_bare_def is_word_def is_alpha_def is_digit_def Let_def)

lemma entry_of:
  assumes "bare_key k" and "lstrip s = s" and "toml_value s = Some v"
  shows "toml_line (k @ '' = '' @ s) = Entry k v"
proof -
  obtain c k' where k: "k = c # k'" and c: "is_bare c" using assms(1) by (cases k) (auto simp: bare_key_def)
  have tw: "takeWhile is_bare (k @ '' = '' @ s) = k" and dw: "dropWhile is_bare (k @ '' = '' @ s) = '' = '' @ s"
    using assms(1) is_bare_special(1) by (auto simp: bare_key_def list_all_iff takeWhile_append2 dropWhile_append2)
  have ls: "lstrip ('' = '' @ s) = ''= '' @ s" "lstrip ('' '' @ s) = s"
    using assms(2) by (simp_all add: lstrip_def is_space_def Let_def)
  have "toml_entry (k @ '' = '' @ s) = Entry k v"
    unfolding toml_entry_def tw dw Let_def ls(1) using ls(2) assms(3) k by (simp add: startswith_def)
  then show ?thesis using is_bare_special(2)[OF c] by (auto simp: toml_line_def k startswith_def)
qed

lemma toml_line_kv: "bare_key k \<Longrightarrow> plain v \<Longrightarrow> toml_line (kv k v) = Entry k (TStr v)"
  unfolding kv_def
  by (rule entry_of) (simp_all add: lstrip_def is_space_def toml_value_def basic_string_plain strip_def rstrip_def)

lemma str_int_head: "\<exists>c s. str_int n = c # s \<and> (is_digit c \<or> c = CHR ''-'')"
proof (cases "n < 0")
  case False
  obtain c s where "str_nat (nat n) = c # s" by (cases "str_nat (nat n)") auto
  moreover from this have "is_digit c" using str_nat_clean[of c "nat n"] by simp
  ultimately show ?thesis using False by (simp add: str_int_def)
qed (simp add: str_int_def)

lemma toml_line_kv_int: "bare_key k \<Longrightarrow> toml_line (kv_int k n) = Entry k (TInt n)"
proof -
  assume k: "bare_key k"
  obtain c s where s: "str_int n = c # s" and c: "is_digit c \<or> c = CHR ''-''" using str_int_head by blast
  have "c \<noteq> CHR 0x22" "\<not> is_space c" using c by (auto simp: is_digit_def is_space_def Let_def)
  then have "toml_value (str_int n) = Some (TInt n)" "lstrip (str_int n) = str_int n"
    using int_of_str_int[of n] by (simp_all add: toml_value_def lstrip_def s)
  then show ?thesis unfolding kv_int_def using k by (intro entry_of)
qed

lemma one_line_kv: "one_line k \<Longrightarrow> one_line v \<Longrightarrow> one_line (kv k v)"
  by (simp add: one_line_def kv_def)

lemma one_line_kv_int: "one_line k \<Longrightarrow> one_line (kv_int k n)"
proof -
  assume k: "one_line k"
  have "one_line (str_int n)"
    using str_nat_clean by (fastforce simp: str_int_def one_line_def list_all_iff is_digit_def)
  then show ?thesis using k by (simp add: one_line_def kv_int_def)
qed

section \<open>The rendered configuration\<close>

definition config_lines :: "'w host \<Rightarrow> render_config_args \<Rightarrow> int \<Rightarrow> int \<Rightarrow> string list" where
  "config_lines H a rf cl =
     [''# RENDERED BY synology_garage ansible role '' @ em_dash @ '' DO NOT HAND-EDIT.'',
      ''# Source of truth: spec/e4e-nas/garage.yml + extra_vars secrets.'',
      kv ''metadata_dir'' ''/var/lib/garage/meta'', kv ''data_dir'' ''/var/lib/garage/data'',
      kv ''db_engine'' (rc_db_engine a), [],
      kv_int ''replication_factor'' rf, [],
      kv_int ''compression_level'' cl, [],
      kv ''rpc_bind_addr'' (rc_rpc_bind_addr a), kv ''rpc_public_addr'' (rc_rpc_public_addr a),
      kv ''rpc_secret'' (getenv H ''GARAGE_RPC_SECRET''), [],
      ''[s3_api]'',
      kv ''api_bind_addr'' (rc_s3_api_bind_addr a), kv ''s3_region'' (rc_s3_region a), kv ''root_domain'' (rc_s3_root_domain a), [],
      ''[s3_web]'',
      kv ''bind_addr'' (rc_s3_web_bind_addr a), kv ''root_domain'' (rc_s3_web_root_domain a), kv ''index'' (rc_s3_web_index a), [],
      ''[admin]'',
      kv ''api_bind_addr'' (rc_admin_api_bind_addr a), kv ''admin_token'' (getenv H ''GARAGE_ADMIN_TOKEN''),
      kv ''metrics_token'' (getenv H ''GARAGE_METRICS_TOKEN'')]"

definition replication_of :: "render_config_args \<Rightarrow> int" where
  "replication_of a = the (int_of_string (rc_replication_factor a))"

definition compression_of :: "render_config_args \<Rightarrow> int" where
  "compression_of a = the (int_of_string (rc_compression_level a))"

definition config_text :: "'w host \<Rightarrow> render_config_args \<Rightarrow> string" where
  "config_text H a = unlines (config_lines H a (replication_of a) (compression_of a))"

text \<open>What the file is to say, section by section.\<close>

definition config_says :: "'w host \<Rightarrow> render_config_args \<Rightarrow> toml" where
  "config_says H a =
     [(([], ''metadata_dir''), TStr ''/var/lib/garage/meta''),
      (([], ''data_dir''), TStr ''/var/lib/garage/data''),
      (([], ''db_engine''), TStr (rc_db_engine a)),
      (([], ''replication_factor''), TInt (replication_of a)),
      (([], ''compression_level''), TInt (compression_of a)),
      (([], ''rpc_bind_addr''), TStr (rc_rpc_bind_addr a)),
      (([], ''rpc_public_addr''), TStr (rc_rpc_public_addr a)),
      (([], ''rpc_secret''), TStr (getenv H ''GARAGE_RPC_SECRET'')),
      ((''s3_api'', ''api_bind_addr''), TStr (rc_s3_api_bind_addr a)),
      ((''s3_api'', ''s3_region''), TStr (rc_s3_region a)),
      ((''s3_api'', ''root_domain''), TStr (rc_s3_root_domain a)),
      ((''s3_web'', ''bind_addr''), TStr (rc_s3_web_bind_addr a)),
      ((''s3_web'', ''root_domain''), TStr (rc_s3_web_root_domain a)),
      ((''s3_web'', ''index''), TStr (rc_s3_web_index a)),
      ((''admin'', ''api_bind_addr''), TStr (rc_admin_api_bind_addr a)),
      ((''admin'', ''admin_token''), TStr (getenv H ''GARAGE_ADMIN_TOKEN'')),
      ((''admin'', ''metrics_token''), TStr (getenv H ''GARAGE_METRICS_TOKEN''))]"

definition config_texts :: "'w host \<Rightarrow> render_config_args \<Rightarrow> string list" where
  "config_texts H a =
     [rc_db_engine a, rc_rpc_bind_addr a, rc_rpc_public_addr a, getenv H ''GARAGE_RPC_SECRET'',
      rc_s3_api_bind_addr a, rc_s3_region a, rc_s3_root_domain a, rc_s3_web_bind_addr a, rc_s3_web_root_domain a,
      rc_s3_web_index a, rc_admin_api_bind_addr a, getenv H ''GARAGE_ADMIN_TOKEN'', getenv H ''GARAGE_METRICS_TOKEN'']"

definition config_keys :: "string list" where
  "config_keys =
     [''metadata_dir'', ''data_dir'', ''db_engine'', ''replication_factor'', ''compression_level'', ''rpc_bind_addr'',
      ''rpc_public_addr'', ''rpc_secret'', ''api_bind_addr'', ''s3_region'', ''root_domain'', ''bind_addr'', ''index'',
      ''admin_token'', ''metrics_token'']"

lemma config_keys_ok: "list_all bare_key config_keys" "list_all one_line config_keys"
  by code_simp+

lemma config_fixed:
  "toml_line (''# RENDERED BY synology_garage ansible role '' @ em_dash @ '' DO NOT HAND-EDIT.'') = Skip"
  "toml_line ''# Source of truth: spec/e4e-nas/garage.yml + extra_vars secrets.'' = Skip"
  "toml_line [] = Skip" "toml_line ''[s3_api]'' = Section ''s3_api''" "toml_line ''[s3_web]'' = Section ''s3_web''"
  "toml_line ''[admin]'' = Section ''admin''"
  by code_simp+

lemma config_fixed_lines:
  "one_line (''# RENDERED BY synology_garage ansible role '' @ em_dash @ '' DO NOT HAND-EDIT.'')"
  "one_line ''# Source of truth: spec/e4e-nas/garage.yml + extra_vars secrets.''"
  "one_line []" "one_line ''[s3_api]''" "one_line ''[s3_web]''" "one_line ''[admin]''"
  by code_simp+

lemma config_dirs_plain: "plain ''/var/lib/garage/meta''" "plain ''/var/lib/garage/data''"
  by code_simp+

lemma config_lines_one_line:
  assumes "list_all one_line (config_texts H a)"
  shows "list_all one_line (config_lines H a rf cl)"
  using assms config_keys_ok(2) config_dirs_plain[THEN plain_one_line]
  by (simp only: config_lines_def config_texts_def config_keys_def list.pred_inject config_fixed_lines one_line_kv
      one_line_kv_int simp_thms)

lemma toml_lines_snoc: "toml_lines sec (ls @ [[]]) = toml_lines sec ls"
proof (induction ls arbitrary: sec)
  case (Cons l ls)
  then show ?case by (cases "toml_line l") simp_all
qed (simp add: toml_line_def)

lemma toml_lines_bad: "l \<in> set ls \<Longrightarrow> toml_line l = Bad \<Longrightarrow> toml_lines sec ls = None"
proof (induction ls arbitrary: sec)
  case (Cons x ls)
  then show ?case by (cases "toml_line x") auto
qed simp

lemma toml_lines_step:
  "toml_lines sec [] = Some []"
  "toml_line l = Skip \<Longrightarrow> toml_lines sec (l # ls) = toml_lines sec ls"
  "toml_line l = Section n \<Longrightarrow> toml_lines sec (l # ls) = toml_lines n ls"
  "toml_line l = Entry k v \<Longrightarrow> toml_lines sec (l # ls) = map_option (\<lambda>d. ((sec, k), v) # d) (toml_lines sec ls)"
  by simp_all

lemma toml_config_lines:
  assumes "list_all plain (config_texts H a)"
  shows "toml_lines [] (config_lines H a (replication_of a) (compression_of a)) = Some (config_says H a)"
  using assms config_keys_ok(1)
  by (simp only: config_lines_def config_texts_def config_keys_def list.pred_inject toml_lines_step
      config_fixed toml_line_kv toml_line_kv_int config_dirs_plain option.map simp_thms config_says_def)

theorem toml_config_text:
  assumes "list_all plain (config_texts H a)"
  shows "toml_doc (config_text H a) = Some (config_says H a)"
proof -
  have "list_all one_line (config_texts H a)" using assms plain_one_line by (auto simp: list_all_iff)
  then show ?thesis
    by (simp add: toml_doc_def config_text_def split_on_unlines config_lines_one_line toml_lines_snoc toml_config_lines[OF assms] del: append.simps)
qed

lemma toml_config_bad:
  assumes "list_all one_line (config_texts H a)"
    and "l \<in> set (config_lines H a (replication_of a) (compression_of a))" and "toml_line l = Bad"
  shows "toml_doc (config_text H a) = None"
  using toml_lines_bad[OF assms(2,3)]
  by (simp add: toml_doc_def config_text_def split_on_unlines config_lines_one_line[OF assms(1)] toml_lines_snoc)

end
