(* ===== verification/Garage_Render.thy ===== *)
theory Garage_Render
  imports Garage_Toml
begin

text \<open>
  What render-config does to the file it maintains: it renders exactly the text that the TOML reader
  reads back, and its write is all or nothing.
\<close>

section \<open>Filling a template\<close>

definition piece_text :: "(string \<times> fval) list \<Rightarrow> piece \<Rightarrow> string option" where
  "piece_text fs p =
     (case p of
        Txt s \<Rightarrow> Some s | Quo \<Rightarrow> Some [CHR 0x22] | Eol \<Rightarrow> Some [CHR 0x0A]
      | Fld f \<Rightarrow> (case dict_get fs f of Some (FS s) \<Rightarrow> Some s | Some (FN n) \<Rightarrow> Some (str_int n) | None \<Rightarrow> None)
      | Dec f \<Rightarrow> (case dict_get fs f of Some (FN n) \<Rightarrow> Some (str_int n) | _ \<Rightarrow> None))"

lemma put_piece_text: "piece_text fs p = Some s \<Longrightarrow> put_piece fs p = retE s"
  unfolding piece_text_def put_piece_def by (auto simp del: dict_get_eq_None split: piece.splits option.splits fval.splits)

lemma fill_text:
  assumes "list_all (\<lambda>p. piece_text fs p \<noteq> None) ps"
  shows "(fill ps fs :: ('s, string) eff) = retE (concat (map (\<lambda>p. the (piece_text fs p)) ps))"
proof -
  have "(mapE (put_piece fs) ps :: ('s, string list) eff) = retE (map (\<lambda>p. the (piece_text fs p)) ps)"
    using assms by (induction ps) (auto simp: put_piece_text)
  then show ?thesis by (simp add: fill_def)
qed

section \<open>The rendered text\<close>

definition field_list :: "'w host \<Rightarrow> render_config_args \<Rightarrow> (string \<times> fval) list" where
  "field_list H a =
     [(''db_engine'', FS (rc_db_engine a)),
      (''replication_factor'', FN (replication_of a)),
      (''compression_level'', FN (compression_of a)),
      (''rpc_bind_addr'', FS (rc_rpc_bind_addr a)),
      (''rpc_public_addr'', FS (rc_rpc_public_addr a)),
      (''rpc_secret'', FS (getenv H ''GARAGE_RPC_SECRET'')),
      (''s3_api_bind_addr'', FS (rc_s3_api_bind_addr a)),
      (''s3_region'', FS (rc_s3_region a)),
      (''s3_root_domain'', FS (rc_s3_root_domain a)),
      (''s3_web_bind_addr'', FS (rc_s3_web_bind_addr a)),
      (''s3_web_root_domain'', FS (rc_s3_web_root_domain a)),
      (''s3_web_index'', FS (rc_s3_web_index a)),
      (''admin_api_bind_addr'', FS (rc_admin_api_bind_addr a)),
      (''admin_token'', FS (getenv H ''GARAGE_ADMIN_TOKEN'')),
      (''metrics_token'', FS (getenv H ''GARAGE_METRICS_TOKEN''))]"

lemma config_fields_cases:
  "config_fields H a s = (Ok fs, t) \<Longrightarrow> fs = field_list H a \<and> t = s"
  unfolding config_fields_def field_list_def int_of_text_def replication_of_def compression_of_def
  by (auto simp: bindE_def retE_def raiseE_def split: option.splits)

lemma fill_config: "fill GARAGE_TOML_TEMPLATE (field_list H a) = retE (config_text H a)"
proof -
  have 1: "list_all (\<lambda>p. piece_text (field_list H a) p \<noteq> None) GARAGE_TOML_TEMPLATE"
    by (simp add: GARAGE_TOML_TEMPLATE_def field_list_def piece_text_def)
  have 2: "concat (map (\<lambda>p. the (piece_text (field_list H a) p)) GARAGE_TOML_TEMPLATE) = config_text H a"
    by (simp add: GARAGE_TOML_TEMPLATE_def field_list_def piece_text_def config_text_def config_lines_def unlines_def kv_def kv_int_def)
  show ?thesis by (simp only: fill_text[OF 1] 2)
qed

section \<open>A run of render-config\<close>

lemma bad_field_None:
  assumes "bad_field (field_list H a) = None"
  shows "list_all one_line (config_texts H a)"
proof -
  have "list_all (\<lambda>p. \<not> (case snd p of FS s \<Rightarrow> breaks_literal s | FN n \<Rightarrow> False)) (field_list H a)"
    using assms unfolding bad_field_def list_all_iff by (simp only: option.map_disc_iff find_None_iff) blast
  moreover have "one_line v" if "\<not> breaks_literal v" for v
    using that by (simp add: breaks_literal_def one_line_def list_all_iff list_ex_iff)
  ultimately show ?thesis by (simp add: field_list_def config_texts_def)
qed

lemma config_text_newlines:
  "bad_field (field_list H a) = None \<Longrightarrow> universal_newlines (config_text H a) = config_text H a"
  unfolding config_text_def by (intro universal_newlines_unlines config_lines_one_line bad_field_None)

text \<open>The file at \<open>path\<close>, as Python reads it, has the hash of the text.\<close>

definition hash_at :: "'w host \<Rightarrow> tree \<Rightarrow> string \<Rightarrow> string \<Rightarrow> bool" where
  "hash_at H G path text \<longleftrightarrow>
     (\<exists>c m ids. G path = Some (Plain c m ids) \<and> sha256 H (universal_newlines c) = sha256 H text)"

lemma fs_looked: "keeps looked m \<Longrightarrow> fs_triple (\<lambda>G. G = F) m (\<lambda>_ G. G = F) (\<lambda>G. G = F)"
  unfolding fs_triple_def triple_def keeps_def looked_def by (auto split: res.split) (metis snd_conv)+

lemma fs_read_file:
  "fs_triple (\<lambda>G. G = F) (read_file H p)
     (\<lambda>cur G. (\<forall>c. cur = Some c \<longrightarrow> (\<exists>c0 m ids. F p = Some (Plain c0 m ids) \<and> c = universal_newlines c0)) \<and> G = F) (\<lambda>G. G = F)"
proof -
  have "fs_triple (\<lambda>G. G = F)
      (bindE (getE files) (\<lambda>fs. if is_dir fs p then oserror (if p = [] then ENOENT else EISDIR)
         else case fs p of Some (Plain c m ids) \<Rightarrow> retE (universal_newlines c) | _ \<Rightarrow> oserror ENOENT))
      (\<lambda>c G. (\<exists>c0 m ids. F p = Some (Plain c0 m ids) \<and> c = universal_newlines c0) \<and> G = F) (\<lambda>G. G = F)"
    by (auto simp: fs_triple_def triple_def bindE_def getE_def oserror_def raiseE_def retE_def
        split: res.splits if_splits option.splits node.splits)
  then have "fs_triple (\<lambda>G. G = F) (read_text H p)
      (\<lambda>c G. (\<exists>c0 m ids. F p = Some (Plain c0 m ids) \<and> c = universal_newlines c0) \<and> G = F) (\<lambda>G. G = F)"
    unfolding read_text_def by (rule fs_bind[OF fs_call])
  then show ?thesis
    unfolding read_file_def
    by (rule fs_catch[OF fs_bind[OF _ fs_ret] fs_ret]) auto
qed

lemma fs_fields:
  "fs_triple (\<lambda>G. G = F) (config_fields H a) (\<lambda>fs G. fs = field_list H a \<and> G = F) (\<lambda>G. G = F)"
  unfolding fs_triple_def triple_def
proof (intro allI impI)
  fix s t :: "'w box" and r
  assume s: "files s = F" and r: "config_fields H a s = (r, t)"
  have "files t = F" using keepsD[OF looked_fields(1) r] s by (simp add: looked_def)
  then show "case r of Ok fs \<Rightarrow> fs = field_list H a \<and> files t = F | _ \<Rightarrow> files t = F"
    using r by (cases r) (auto dest: config_fields_cases)
qed

lemma fs_render_config:
  defines "n a H \<equiv> Plain (config_text H a) (perm 4 0 0) (0, 0)"
  shows "fs_triple (\<lambda>G. G = F) (do_render_config H a)
    (\<lambda>rc G. wrote F (rc_config_path a) (n a H) G \<and>
       (rc = 0 \<longrightarrow> rc_check a \<or> hash_at H G (rc_config_path a) (config_text H a)))
    (wrote F (rc_config_path a) (n a H))"
    (is "fs_triple _ _ ?Q ?E")
proof -
  have same: "wrote F p x F" for p x by (simp add: wrote_def)
  have stop: "fs_triple (\<lambda>G. G = F) (fail payload) ?Q ?E" for payload
    by (auto simp: fs_triple_def triple_def fail_def bindE_def say_def modE_def retE_def same)
  have told: "fs_triple I (emit st payload c) ?Q ?E" if "\<And>G. I G \<Longrightarrow> ?Q 0 G" for st payload c I
    using that by (auto simp: fs_triple_def triple_def emit_def bindE_def say_def modE_def retE_def split: if_splits)
  show ?thesis
  proof (cases "filter (\<lambda>v. getenv H v = []) SECRET_ENV_VARS = []")
    case False
    then show ?thesis unfolding do_render_config_def Let_def by (simp add: stop)
  next
    case env: True
    have main: "fs_triple (\<lambda>G. G = F)
       (case bad_field (field_list H a) of
            Some k \<Rightarrow> fail [(''reason'', JStr ''field contains unescaped quote or newline''), (''field'', JStr k)]
          | None \<Rightarrow>
              bindE (fill GARAGE_TOML_TEMPLATE (field_list H a)) (\<lambda>desired.
              bindE (read_file H (rc_config_path a)) (\<lambda>current.
                let payload =
                  [(''config_path'', JStr (rc_config_path a)), (''had_existing'', JBool (current \<noteq> None)),
                   (''desired_sha256'', JStr (sha256 H desired))] in
                if map_option (sha256 H) current = Some (sha256 H desired) then emit ''no-change'' [] (rc_check a)
                else if rc_check a then emit ''would-change'' payload True
                else
                  bindE (atomic_write H (rc_config_path a) desired (perm 4 0 0) (0, 0))
                    (\<lambda>_. emit ''changed'' payload False)))) ?Q ?E"
    proof (cases "bad_field (field_list H a)")
      case (Some k)
      then show ?thesis by (simp add: stop)
    next
      case None
      have placed: "?Q 0 G" if "placed F (rc_config_path a) (n a H) G" for G
        using placed_wrote[OF that] placed_at[OF that] config_text_newlines[OF None] by (simp add: n_def hash_at_def)
      note aw = fs_atomic[of F H "rc_config_path a" "config_text H a" "perm 4 0 0" "(0, 0)", folded n_def]
      show ?thesis
        unfolding None option.case fill_config bind_retE Let_def
        by (rule fs_bind[OF fs_weak[OF fs_read_file]], simp add: same,
            rule fs_fact, rule fs_if[OF told fs_if[OF told fs_bind[OF fs_weak[OF aw] told[OF placed]]]])
          (auto simp: same hash_at_def)
    qed
    show ?thesis
      unfolding do_render_config_def Let_def
    proof (rule fs_if)
      show "fs_triple (\<lambda>G. G = F) (fail payload) ?Q ?E" for payload by (rule stop)
    qed (rule fs_bind[OF fs_weak[OF fs_fields] fs_fact], simp add: same, hypsubst, rule main[unfolded Let_def])
  qed
qed

end
