(* ===== verification/Garage_Smooth.thy ===== *)
theory Garage_Smooth
  imports Garage_Render
begin

text \<open>
  A run of render-config with nothing in its way comes to its end and reports success. With it, what a
  backslash at the end of a value does to the rendered file.
\<close>

section \<open>Runs that succeed\<close>

definition succeeds :: "(tree \<Rightarrow> bool) \<Rightarrow> ('w box, 'a) eff \<Rightarrow> ('a \<Rightarrow> tree \<Rightarrow> bool) \<Rightarrow> bool" where
  "succeeds I m Q \<longleftrightarrow> (\<forall>s. I (files s) \<longrightarrow> (\<exists>x t. m s = (Ok x, t) \<and> Q x (files t)))"

definition smooth :: "'w host \<Rightarrow> bool" where
  "smooth H \<longleftrightarrow> (\<forall>c w. fst (fate H c w) = Go)"

lemma succeeds_ret: "(\<And>G. I G \<Longrightarrow> Q x G) \<Longrightarrow> succeeds I (retE x) Q"
  by (simp add: succeeds_def)

lemma succeeds_bind: "succeeds I m J \<Longrightarrow> (\<And>x. succeeds (J x) (f x) Q) \<Longrightarrow> succeeds I (bindE m f) Q"
  unfolding succeeds_def bindE_Ok_iff by meson

lemma succeeds_catch: "succeeds I m Q \<Longrightarrow> succeeds I (catchE m c h) Q"
  unfolding succeeds_def catchE_def by (fastforce split: prod.split)

lemma succeeds_conseq:
  "succeeds I m Q \<Longrightarrow> (\<And>G. I' G \<Longrightarrow> I G) \<Longrightarrow> (\<And>x G. Q x G \<Longrightarrow> Q' x G) \<Longrightarrow> succeeds I' m Q'"
  unfolding succeeds_def by meson

lemma succeeds_get: "(\<And>G. I G \<Longrightarrow> succeeds (\<lambda>G'. G' = G) (f G) Q) \<Longrightarrow> succeeds I (bindE (getE files) f) Q"
  by (auto simp: succeeds_def bindE_def getE_def)

lemma succeeds_read: "(\<And>s x. f s = x \<Longrightarrow> R x) \<Longrightarrow> succeeds I (getE f) (\<lambda>x G. I G \<and> R x)"
  by (auto simp: succeeds_def getE_def)

lemma succeeds_fact: "(\<And>G. I G \<Longrightarrow> b) \<Longrightarrow> (b \<Longrightarrow> succeeds I m Q) \<Longrightarrow> succeeds I m Q"
  unfolding succeeds_def by blast

lemma succeeds_set: "succeeds (\<lambda>G'. G' = G) (set_file p n) (\<lambda>_ G'. G' = G(p := n))"
  by (simp add: succeeds_def set_file_def modE_def)

lemma succeeds_say: "succeeds I (say line) (\<lambda>_. I)"
  by (simp add: succeeds_def say_def modE_def)

lemma succeeds_call:
  fixes H :: "'w host"
  assumes "smooth H"
  shows "succeeds I (os_call H c) (\<lambda>_. I)"
  unfolding succeeds_def
proof (intro allI impI)
  fix s :: "'w box" assume "I (files s)"
  moreover obtain w where "fate H c (outer s) = (Go, w)"
    using assms by (metis smooth_def prod.collapse)
  ultimately show "\<exists>x t. os_call H c s = (Ok x, t) \<and> I (files t)" by (simp add: os_call_def Let_def)
qed

section \<open>The system calls of an atomic write\<close>

lemma succeeds_stat: "smooth H \<Longrightarrow> p \<noteq> [] \<Longrightarrow> is_dir F p \<Longrightarrow> succeeds (\<lambda>G. G = F) (os_exists H p) (\<lambda>b G. b \<and> G = F)"
  unfolding os_exists_def
  by (intro succeeds_catch succeeds_bind[OF succeeds_call]) (auto simp: succeeds_def getE_def)

lemma succeeds_isdir: "smooth H \<Longrightarrow> p \<noteq> [] \<Longrightarrow> is_dir F p \<Longrightarrow> succeeds (\<lambda>G. G = F) (os_isdir H p) (\<lambda>b G. b \<and> G = F)"
  unfolding os_isdir_def
  by (intro succeeds_catch succeeds_bind[OF succeeds_call]) (auto simp: succeeds_def getE_def)

lemma succeeds_make_dir:
  fixes H :: "'w host"
  assumes "smooth H" and "p \<noteq> []" and "is_dir F p"
  shows "succeeds (\<lambda>G. G = F) (make_dir H p) (\<lambda>_ G. G = F)"
  unfolding succeeds_def
proof (intro allI impI)
  fix s :: "'w box" assume s: "files s = F"
  obtain w where w: "fate H (MkDir p) (outer s) = (Go, w)" using assms(1) by (metis smooth_def prod.collapse)
  let ?t = "s\<lparr>outer := w, acts := acts s @ [Sys (MkDir p)]\<rparr>"
  have "os_mkdir H p s = (Exc (OSError EEXIST), ?t)"
    using assms s w by (simp add: os_mkdir_def os_call_def bindE_def getE_def oserror_def raiseE_def Let_def)
  moreover obtain t where "os_isdir H p ?t = (Ok True, t)" "files t = F"
    using succeeds_isdir[OF assms, unfolded succeeds_def, rule_format, of ?t] s by auto
  ultimately show "\<exists>x t. make_dir H p s = (Ok x, t) \<and> files t = F"
    by (simp add: make_dir_def catchE_def bindE_def retE_def)
qed

lemma succeeds_makedirs:
  assumes "smooth H" and "p \<noteq> []" and "is_dir F p" and "list_all (\<lambda>q. q \<noteq> [] \<and> is_dir F q) (ancestors p)"
  shows "succeeds (\<lambda>G. G = F) (makedirs H p) (\<lambda>_ G. G = F)"
proof -
  have step: "succeeds (\<lambda>G. G = F) (bindE (os_exists H q) (\<lambda>there. if there then retE () else make_dir H q)) (\<lambda>_ G. G = F)"
    if "q \<noteq> []" "is_dir F q" for q
    by (rule succeeds_bind[OF succeeds_stat[OF assms(1) that]]) (auto intro: succeeds_ret simp: succeeds_def)
  have "succeeds (\<lambda>G. G = F) (forE qs (\<lambda>q. bindE (os_exists H q) (\<lambda>there. if there then retE () else make_dir H q))) (\<lambda>_ G. G = F)"
    if "list_all (\<lambda>q. q \<noteq> [] \<and> is_dir F q) qs" for qs
    using that by (induction qs) (auto intro!: succeeds_ret succeeds_bind[OF step])
  from succeeds_bind[OF this[OF assms(4)] succeeds_make_dir[OF assms(1-3)]] show ?thesis unfolding makedirs_def .
qed

definition temp_free :: "'w host \<Rightarrow> string \<Rightarrow> tree \<Rightarrow> bool" where
  "temp_free H d F \<longleftrightarrow> (\<forall>w. F (path_join d (''.krg-'' @ random_name H w)) = None)"

definition temp_only :: "'w host \<Rightarrow> string \<Rightarrow> tree \<Rightarrow> string \<Rightarrow> tree \<Rightarrow> bool" where
  "temp_only H d F tmp G \<longleftrightarrow> (\<exists>w. tmp = path_join d (''.krg-'' @ random_name H w)) \<and> (\<exists>n. G = F(tmp := Some n))"

lemma succeeds_mkstemp:
  assumes "smooth H" and "is_dir F d" and "temp_free H d F"
  shows "succeeds (\<lambda>G. G = F) (mkstemp H d) (temp_only H d F)"
proof -
  have new: "succeeds (\<lambda>G. G = F \<and> (\<exists>w. tmp = path_join d (''.krg-'' @ random_name H w)))
      (bindE (getE files) (\<lambda>fs. if fs tmp \<noteq> None then oserror EEXIST else if \<not> is_dir fs d then oserror ENOENT
         else bindE (set_file tmp (Some (Plain [] (perm 6 0 0) (euid H)))) (\<lambda>_. retE tmp))) (temp_only H d F)" for tmp
  proof -
    have t: "temp_only H d F tmp (F(tmp := Some (Plain [] (perm 6 0 0) (euid H))))" if "\<exists>w. tmp = path_join d (''.krg-'' @ random_name H w)"
      using that unfolding temp_only_def by blast
    show ?thesis
      using assms(2,3) t by (auto simp: succeeds_def bindE_def getE_def set_file_def modE_def retE_def temp_free_def simp del: append.simps)
  qed
  show ?thesis
    unfolding mkstemp_def
    by (rule succeeds_bind[OF succeeds_read[where R = "\<lambda>tmp. \<exists>w. tmp = path_join d (''.krg-'' @ random_name H w)"]],
        blast, rule succeeds_bind[OF succeeds_call[OF assms(1)]], rule new)
qed

lemma succeeds_edit: "succeeds (temp_only H d F tmp) (edit_file tmp f) (\<lambda>_. temp_only H d F tmp)"
proof -
  have "\<exists>n'. G(tmp := Some (f n)) = F(tmp := Some n')" if "G = F(tmp := Some n)" for G n
    using that by auto
  then show ?thesis
    by (auto simp: succeeds_def edit_file_def bindE_def getE_def set_file_def modE_def temp_only_def split: option.split)
qed

lemma succeeds_fill:
  assumes "smooth H" and "\<not> is_dir F path" and "\<forall>w. path \<noteq> path_join d (''.krg-'' @ random_name H w)"
  shows "succeeds (temp_only H d F tmp)
    (bindE (os_write H tmp c) (\<lambda>_. bindE (os_chmod H tmp m) (\<lambda>_. bindE (os_chown H tmp ids) (\<lambda>_. os_replace H tmp path))))
    (\<lambda>_ _. True)"
proof -
  have g: "succeeds (temp_only H d F tmp) (getE f) (\<lambda>_. temp_only H d F tmp)" for f :: "'a box \<Rightarrow> nat"
    by (simp add: succeeds_def getE_def)
  have r: "succeeds (temp_only H d F tmp) (os_replace H tmp path) (\<lambda>_ _. True)"
    unfolding os_replace_def
    by (rule succeeds_bind[OF succeeds_call[OF assms(1)]])
      (use assms(2,3) in \<open>auto simp: succeeds_def bindE_def getE_def modE_def temp_only_def is_dir_def\<close>)
  show ?thesis
    unfolding os_write_def os_chmod_def os_chown_def
    by (rule succeeds_bind[OF succeeds_bind[OF g succeeds_bind[OF succeeds_edit succeeds_bind[OF succeeds_call[OF assms(1)] succeeds_edit]]]],
        rule succeeds_bind[OF succeeds_bind[OF succeeds_call[OF assms(1)] succeeds_edit]],
        rule succeeds_bind[OF succeeds_bind[OF succeeds_call[OF assms(1)] succeeds_edit] r])
qed

lemma succeeds_atomic_write:
  assumes "smooth H" and "\<not> is_dir F path" and "d = (if dirname path = [] then ''.'' else dirname path)"
    and "is_dir F d" and "list_all (\<lambda>q. q \<noteq> [] \<and> is_dir F q) (ancestors d)" and "temp_free H d F"
    and "\<forall>w. path \<noteq> path_join d (''.krg-'' @ random_name H w)"
  shows "succeeds (\<lambda>G. G = F) (atomic_write H path c m ids) (\<lambda>_ _. True)"
proof -
  have "d \<noteq> []" using assms(3) by simp
  then show ?thesis
    unfolding atomic_write_def Let_def assms(3)[symmetric]
    by (rule succeeds_bind[OF succeeds_makedirs[OF assms(1) _ assms(4,5)] succeeds_bind[OF succeeds_mkstemp[OF assms(1,4,6)]
          succeeds_catch[OF succeeds_fill[OF assms(1,2,7)]]]])
qed

lemma succeeds_read_file:
  fixes H :: "'w host"
  assumes "smooth H" and "\<not> is_dir F p"
  shows "succeeds (\<lambda>G. G = F) (read_file H p) (\<lambda>_ G. G = F)"
proof -
  have "\<exists>x t. read_file H p s = (Ok x, t) \<and> files t = F" if s: "files s = F" for s :: "'w box"
  proof -
    obtain t where t: "os_call H (ReadFile p) s = (Ok (), t)" "files t = F"
      using succeeds_call[OF assms(1), of "\<lambda>G. G = F" "ReadFile p", unfolded succeeds_def, rule_format, OF s] by auto
    then show ?thesis using assms(2)
      by (cases "F p"; cases "the (F p)") (auto simp: read_file_def read_text_def bindE_def getE_def catchE_def oserror_def raiseE_def retE_def is_dir_def)
  qed
  then show ?thesis unfolding succeeds_def by blast
qed

text \<open>
  Nothing is in the way of render-config: no system call fails, the secrets are set, the two numbers are
  numbers, the directory of the file is there, and neither the file's name nor that of its temporary copy is
  taken by something else.
\<close>

definition config_dir :: "render_config_args \<Rightarrow> string" where
  "config_dir a = (if dirname (rc_config_path a) = [] then ''.'' else dirname (rc_config_path a))"

definition way_clear :: "'w host \<Rightarrow> render_config_args \<Rightarrow> tree \<Rightarrow> bool" where
  "way_clear H a F \<longleftrightarrow> smooth H \<and> list_all (\<lambda>v. getenv H v \<noteq> []) SECRET_ENV_VARS \<and>
     int_of_string (rc_replication_factor a) \<noteq> None \<and> int_of_string (rc_compression_level a) \<noteq> None \<and>
     \<not> is_dir F (rc_config_path a) \<and> is_dir F (config_dir a) \<and>
     list_all (\<lambda>q. q \<noteq> [] \<and> is_dir F q) (ancestors (config_dir a)) \<and> temp_free H (config_dir a) F \<and>
     (\<forall>w. rc_config_path a \<noteq> path_join (config_dir a) (''.krg-'' @ random_name H w))"

lemma succeeds_emit: "succeeds I (emit st payload c) (\<lambda>rc _. rc = 0)"
  unfolding emit_def by (rule succeeds_bind[where J = "\<lambda>_. I"]) (auto intro: succeeds_say succeeds_ret)

lemma succeeds_render_config:
  fixes H :: "'w host"
  assumes "way_clear H a F" and "bad_field (field_list H a) = None"
  shows "succeeds (\<lambda>G. G = F) (do_render_config H a) (\<lambda>rc _. rc = 0)"
proof -
  have f: "config_fields H a = (retE (field_list H a) :: ('w box, _) eff)"
    using assms(1) by (auto simp: way_clear_def config_fields_def field_list_def int_of_text_def replication_of_def compression_of_def)
  have e: "filter (\<lambda>v. getenv H v = []) SECRET_ENV_VARS = []"
    using assms(1) by (auto simp: way_clear_def list_all_iff filter_empty_conv)
  have w: "succeeds (\<lambda>G. G = F) (atomic_write H (rc_config_path a) c m ids) (\<lambda>_ _. True)" for c m ids
    using assms(1) by (intro succeeds_atomic_write[where d = "config_dir a"]) (auto simp: way_clear_def config_dir_def)
  have r: "succeeds (\<lambda>G. G = F) (read_file H (rc_config_path a)) (\<lambda>_ G. G = F)"
    using assms(1) by (intro succeeds_read_file) (auto simp: way_clear_def)
  show ?thesis
    unfolding do_render_config_def Let_def e f bind_retE assms(2) fill_config option.case
    using succeeds_emit w by (auto intro!: succeeds_bind[OF r] succeeds_bind[OF w])
qed

section \<open>A backslash before the closing quote\<close>

text \<open>A text that ends in an odd number of backslashes, and one with no quote and no line break in it.\<close>

definition ends_open :: "string \<Rightarrow> bool" where
  "ends_open v = odd (length (takeWhile (\<lambda>c. c = CHR 0x5C) (rev v)))"

definition unquoted :: "string \<Rightarrow> bool" where
  "unquoted v = list_all (\<lambda>c. c \<noteq> CHR 0x22 \<and> c \<noteq> CHR 0x0A \<and> c \<noteq> CHR 0x0D) v"

lemma ends_open_Cons: "c \<noteq> CHR 0x5C \<Longrightarrow> ends_open (c # s) = ends_open s"
  by (simp add: ends_open_def takeWhile_tail)

lemma ends_open_escape: "ends_open (CHR 0x5C # e # r) = ends_open r"
proof (cases "\<forall>x \<in> set (rev r). x = CHR 0x5C")
  case True
  then have a: "takeWhile (\<lambda>c. c = CHR 0x5C) (rev r @ ys) = rev r @ takeWhile (\<lambda>c. c = CHR 0x5C) ys" for ys
    by (intro takeWhile_append2) blast
  from a[of "[]"] have b: "takeWhile (\<lambda>c. c = CHR 0x5C) (rev r) = rev r" unfolding append_Nil2 takeWhile.simps .
  show ?thesis unfolding ends_open_def rev.simps append_assoc append.simps a b by simp
next
  case False
  then obtain x where "x \<in> set (rev r)" "x \<noteq> CHR 0x5C" by blast
  then have "takeWhile (\<lambda>c. c = CHR 0x5C) (rev r @ ys) = takeWhile (\<lambda>c. c = CHR 0x5C) (rev r)" for ys
    by (intro takeWhile_append1)
  then show ?thesis unfolding ends_open_def by simp
qed

lemma basic_string_open: "ends_open v \<Longrightarrow> CHR 0x22 \<notin> set v \<Longrightarrow> basic_string (v @ [CHR 0x22]) = None"
proof (induction v rule: length_induct)
  case (1 v)
  show ?case
  proof (cases v)
    case Nil
    then show ?thesis using 1(2) by (simp add: ends_open_def)
  next
    case (Cons c s)
    show ?thesis
    proof (cases "c = CHR 0x5C")
      case False
      then show ?thesis using 1 Cons ends_open_Cons[OF False, of s] by auto
    next
      case True
      show ?thesis
      proof (cases s)
        case Nil
        have "toml_escape (CHR 0x22) = Some (CHR 0x22)" by code_simp
        then show ?thesis using True Cons Nil by simp
      next
        case (Cons e r)
        then have "basic_string (r @ [CHR 0x22]) = None" using 1 True \<open>v = c # s\<close> ends_open_escape[of e r] by auto
        then show ?thesis using True Cons \<open>v = c # s\<close> by (auto split: option.split)
      qed
    qed
  qed
qed

lemma toml_line_open:
  assumes "bare_key k" and "ends_open v" and "CHR 0x22 \<notin> set v"
  shows "toml_line (kv k v) = Bad"
proof -
  obtain c k' where k: "k = c # k'" and c: "is_bare c" using assms(1) by (cases k) (auto simp: bare_key_def)
  let ?s = "[CHR 0x22] @ v @ [CHR 0x22]"
  have tw: "takeWhile is_bare (k @ '' = '' @ ?s) = k" and dw: "dropWhile is_bare (k @ '' = '' @ ?s) = '' = '' @ ?s"
    using assms(1) is_bare_special(1) by (auto simp: bare_key_def list_all_iff takeWhile_append2 dropWhile_append2)
  have ls: "lstrip ('' = '' @ ?s) = ''= '' @ ?s" "lstrip ('' '' @ ?s) = ?s"
    by (simp_all add: lstrip_def is_space_def Let_def)
  have "toml_value ?s = None" using basic_string_open[OF assms(2,3)] by (simp add: toml_value_def)
  then have "toml_entry (k @ '' = '' @ ?s) = Bad"
    unfolding toml_entry_def tw dw Let_def ls(1) using ls(2) k by (simp add: startswith_def)
  then show ?thesis using is_bare_special(2)[OF c] by (auto simp: kv_def toml_line_def k startswith_def)
qed

lemma config_text_line:
  assumes "v \<in> set (config_texts H a)"
  shows "\<exists>k. bare_key k \<and> kv k v \<in> set (config_lines H a rf cl)"
proof -
  let ?ks = "[''db_engine'', ''rpc_bind_addr'', ''rpc_public_addr'', ''rpc_secret'', ''api_bind_addr'', ''s3_region'', ''root_domain'',
    ''bind_addr'', ''root_domain'', ''index'', ''api_bind_addr'', ''admin_token'', ''metrics_token'']"
  have l: "list_all2 (\<lambda>k v. kv k v \<in> set (config_lines H a rf cl)) ?ks (config_texts H a)"
    by (simp only: config_texts_def config_lines_def list_all2_Cons list_all2_Nil list.set insert_iff simp_thms)
  have k: "list_all bare_key ?ks" by code_simp
  obtain i where i: "i < length (config_texts H a)" "v = config_texts H a ! i" using assms unfolding in_set_conv_nth by blast
  have "kv (?ks ! i) v \<in> set (config_lines H a rf cl)" "bare_key (?ks ! i)"
    using list_all2_nthD2[OF l i(1)] i(2) list_all2_lengthD[OF l] i(1) k[unfolded list_all_length] by (simp_all only:)
  then show ?thesis by blast
qed

lemma unquoted_passes:
  assumes "list_all unquoted (config_texts H a)"
  shows "bad_field (field_list H a) = None"
proof -
  have "\<not> breaks_literal v" if "unquoted v" for v
    using that by (auto simp: unquoted_def breaks_literal_def list_all_iff list_ex_iff)
  with assms have "list_all (\<lambda>v. \<not> breaks_literal v) (config_texts H a)" by (auto simp: list_all_iff)
  then have "list_all (\<lambda>p. \<not> (case snd p of FS s \<Rightarrow> breaks_literal s | FN n \<Rightarrow> False)) (field_list H a)"
    by (simp add: field_list_def config_texts_def)
  then show ?thesis
    unfolding bad_field_def option.map_disc_iff find_None_iff list_all_iff by blast
qed

lemma open_config_bad:
  assumes "list_all unquoted (config_texts H a)" and "v \<in> set (config_texts H a)" and "ends_open v"
  shows "toml_doc (config_text H a) = None"
proof -
  obtain k where k: "bare_key k" "kv k v \<in> set (config_lines H a (replication_of a) (compression_of a))"
    using config_text_line[OF assms(2)] by blast
  have "unquoted v" using assms(1,2) by (simp add: list_all_iff)
  then have "CHR 0x22 \<notin> set v" by (auto simp: unquoted_def list_all_iff)
  with k(1) assms(3) have "toml_line (kv k v) = Bad" by (intro toml_line_open)
  with k(2) show ?thesis using bad_field_None[OF unquoted_passes[OF assms(1)]] by (intro toml_config_bad)
qed

end
