(* ===== verification/Garage_Buckets.thy ===== *)
theory Garage_Buckets
  imports Garage_Looks
begin

text \<open>
  sync-buckets against a server that does what Garage documents: the server's state is seen through
  two functions of the outer state, the listing (identifier and aliases of each bucket) and the CORS
  rules by identifier.
\<close>

section \<open>CORS rules in their canonical form\<close>

definition age_part :: "int option \<Rightarrow> (string \<times> json) list" where
  "age_part age = (case age of None \<Rightarrow> [] | Some n \<Rightarrow> [(''MaxAgeSeconds'', JNum n)])"

definition api_rule ::
  "json list \<Rightarrow> json list \<Rightarrow> json list \<Rightarrow> json list \<Rightarrow> json option \<Rightarrow> int option \<Rightarrow> json" where
  "api_rule os ms hs es i age =
     JObj ([(''AllowedOrigin'', JArr os), (''AllowedMethod'', JArr ms), (''AllowedHeader'', JArr hs), (''ExposeHeader'', JArr es)] @
       (case i of None \<Rightarrow> [] | Some x \<Rightarrow> [(''ID'', x)]) @ age_part age)"

definition is_rule :: "json \<Rightarrow> bool" where
  "is_rule r \<longleftrightarrow> (\<exists>os ms hs es i age. i \<noteq> Some JNull \<and> r = api_rule os ms hs es i age)"

lemma iter_get_arr: "dict_get d k = Some (JArr xs) \<Longrightarrow> iter_get k (JObj d) = retE xs"
  by (cases xs) (simp_all add: iter_get_def get_or_def get_key_def iter_def truthy_def)

lemma canonical_api_rule: "i \<noteq> Some JNull \<Longrightarrow> canonical_rule (api_rule os ms hs es i age) = retE (api_rule os ms hs es i age)"
  unfolding canonical_rule_def api_rule_def
  by (cases i; cases age) (auto simp: age_part_def iter_get_arr get_key_def optional_def optional_int_def py_int_def split: json.splits)

lemma canonical_is_rule: "is_rule r \<Longrightarrow> canonical_rule r = retE r"
  unfolding is_rule_def by (auto simp: canonical_api_rule)

lemma cors_canonical_rules: "list_all is_rule rs \<Longrightarrow> cors_canonical (JArr rs) = retE rs"
proof -
  assume "list_all is_rule rs"
  then have "(mapE canonical_rule rs :: ('s, json list) eff) = retE rs"
    by (induction rs) (simp_all add: canonical_is_rule)
  then show "(cors_canonical (JArr rs) :: ('s, json list) eff) = retE rs"
    by (cases rs) (simp_all add: cors_canonical_def truthy_def iter_def)
qed

text \<open>What \<open>cors_api_rule\<close> returns is in canonical form.\<close>

lemma yields_optional_int: "yields (optional_int ''MaxAgeSeconds'' v) (\<lambda>x. \<exists>age. x = age_part age)"
proof -
  have "yields (bindE (py_int x) (\<lambda>n. retE [(''MaxAgeSeconds'', JNum n)])) (\<lambda>x. \<exists>age. x = age_part age)" for x
    by (intro yields_bind yields_ret) (metis age_part_def option.simps(5))
  moreover have "yields (retE []) (\<lambda>x. \<exists>age. x = age_part age)"
    by (intro yields_ret) (metis age_part_def option.simps(4))
  ultimately show ?thesis unfolding optional_int_def by (auto split: option.split json.split)
qed

lemma optional_rule: "\<exists>i'. i' \<noteq> Some JNull \<and> optional k i = (case i' of None \<Rightarrow> [] | Some x \<Rightarrow> [(k, x)])"
  by (cases i) (auto simp: optional_def split: json.split option.split intro: exI[of _ None] exI[of _ i])

lemma api_part_rule:
  "is_rule (JObj ([(''AllowedOrigin'', JArr os), (''AllowedMethod'', JArr ms), (''AllowedHeader'', JArr hs),
      (''ExposeHeader'', JArr es)] @ optional ''ID'' i @ age_part age))"
  using optional_rule[of "''ID''" i] unfolding is_rule_def api_rule_def by metis

lemma yields_cors_api_rule: "yields (cors_api_rule r b) is_rule"
proof -
  show ?thesis
    unfolding cors_api_rule_def Let_def
    by (auto intro!: yields_bind yields_if yields_raise yields_ret yields_bindP[OF yields_optional_int] api_part_rule)
qed

lemma canonical_fixed: "fst (canonical_rule r s) = Ok r \<Longrightarrow> is_rule r"
proof -
  have "yields (canonical_rule r) is_rule"
    unfolding canonical_rule_def
    by (rule yields_bind, rule yields_bind, rule yields_bind, rule yields_bind, rule yields_bind, rule yields_bind,
        rule yields_bindP[OF yields_optional_int], elim exE, hypsubst, rule yields_ret, rule api_part_rule)
  moreover assume "fst (canonical_rule r s) = Ok r"
  ultimately show ?thesis by (metis yieldsD prod.collapse)
qed

lemma desired_rules:
  "yields (desired_buckets spec) (\<lambda>(names, cors). \<forall>k v. dict_get cors k = Some v \<longrightarrow> list_all is_rule v)"
proof -
  define Inv :: "json list \<Rightarrow> (json \<times> json list) list \<Rightarrow> bool" where
    "Inv ps d \<longleftrightarrow> (\<forall>k v. dict_get d k = Some v \<longrightarrow> list_all is_rule v)" for ps d
  have step: "yields (add_desired d b) (Inv (ps @ [b]))" if "Inv ps d" for ps b d
  proof -
    have *: "yields (mapE (\<lambda>r. cors_api_rule r name) rules) (list_all is_rule)" for name rules
      by (rule yields_conseq[OF yields_mapE[where Q = "\<lambda>_. is_rule", OF yields_cors_api_rule]])
         (auto simp: list_all2_conv_all_nth list_all_length)
    show ?thesis
      unfolding add_desired_def
      by (rule yields_bind, rule yields_bind, rule yields_bindP[OF *], rule yields_bind, rule yields_ret)
         (use that in \<open>simp add: Inv_def\<close>)
  qed
  have "yields (foldE add_desired [] bs) (Inv ([] @ bs))" for bs
    by (rule yields_foldE[where Inv = Inv, OF step]) (simp_all add: Inv_def)
  then show ?thesis
    unfolding desired_buckets_def
    by (intro yields_bind yields_bindP[where m = "foldE add_desired [] bs" and P = "Inv ([] @ bs)" for bs] yields_ret)
       (auto simp: Inv_def)
qed

section \<open>The server\<close>

type_synonym listing = "(string \<times> string option) list"

definition bucket_json :: "string \<times> string option \<Rightarrow> json" where
  "bucket_json b =
     JObj [(''id'', JStr (fst b)), (''globalAliases'', JArr (case snd b of None \<Rightarrow> [] | Some n \<Rightarrow> [JStr n]))]"

definition id_of :: "listing \<Rightarrow> string \<Rightarrow> string option" where
  "id_of l = foldl (\<lambda>m b. case snd b of None \<Rightarrow> m | Some n \<Rightarrow> m(n \<mapsto> fst b)) Map.empty l"

definition rq :: "int \<Rightarrow> string \<Rightarrow> string \<Rightarrow> string \<Rightarrow> (string \<times> json) list \<Rightarrow> json option \<Rightarrow> request" where
  "rq port token method path query body =
     \<lparr>rq_method = method, rq_port = port, rq_path = path, rq_query = query, rq_token = token, rq_body = body\<rparr>"

text \<open>
  Garage's admin API as far as sync-buckets uses it: the listing and the rules of a bucket are
  reported and reading changes nothing, a new alias gets a bucket of its own with no rules, and
  updating replaces the rules of that bucket.
\<close>

definition bucket_server ::
  "'w host \<Rightarrow> int \<Rightarrow> string \<Rightarrow> ('w \<Rightarrow> listing) \<Rightarrow> ('w \<Rightarrow> string \<Rightarrow> json list) \<Rightarrow> bool" where
  "bucket_server H port token bl br \<longleftrightarrow>
     (\<forall>w. http H (rq port token ''GET'' ''/v2/ListBuckets'' [] None) w = (Answer 200 (Doc (JArr (map bucket_json (bl w)))), w)) \<and>
     (\<forall>w i. i \<in> fst ` set (bl w) \<longrightarrow>
        (\<exists>rep. http H (rq port token ''GET'' ''/v2/GetBucketInfo'' [(''id'', JStr i)] None) w =
             (Answer 200 (Doc (JObj [(''corsRules'', rep)])), w) \<and>
           (\<forall>s :: 'w box. cors_canonical rep s = (Ok (br w i), s)))) \<and>
     (\<forall>w n. id_of (bl w) n = None \<longrightarrow>
        (\<exists>i w'. i \<noteq> [] \<and> i \<notin> fst ` set (bl w) \<and> bl w' = bl w @ [(i, Some n)] \<and> br w' = (br w)(i := []) \<and>
           http H (rq port token ''POST'' ''/v2/CreateBucket'' [] (Some (JObj [(''globalAlias'', JStr n)]))) w =
             (Answer 200 (Doc (JObj [(''id'', JStr i)])), w'))) \<and>
     (\<forall>w i rules. i \<in> fst ` set (bl w) \<longrightarrow> list_all is_rule rules \<longrightarrow>
        (\<exists>j w'. bl w' = bl w \<and> br w' = (br w)(i := rules) \<and>
           http H (rq port token ''POST'' ''/v2/UpdateBucket'' [(''id'', JStr i)] (Some (JObj [(''corsRules'', JArr rules)]))) w =
             (Answer 200 (Doc j), w')))"

lemmas server_lists = bucket_server_def[THEN iffD1, THEN conjunct1, rule_format]

lemmas server_informs = bucket_server_def[THEN iffD1, THEN conjunct2, THEN conjunct1, rule_format]

lemmas server_creates = bucket_server_def[THEN iffD1, THEN conjunct2, THEN conjunct2, THEN conjunct1, rule_format]

lemmas server_updates = bucket_server_def[THEN iffD1, THEN conjunct2, THEN conjunct2, THEN conjunct2, rule_format]

definition ok_listing :: "listing \<Rightarrow> bool" where
  "ok_listing l \<longleftrightarrow> distinct (map fst l) \<and> [] \<notin> fst ` set l"

lemma id_of_snoc: "id_of (l @ [(i, Some n)]) = (id_of l)(n \<mapsto> i)"
  by (simp add: id_of_def)

lemma id_of_mem: "id_of l n = Some i \<Longrightarrow> (i, Some n) \<in> set l"
  unfolding id_of_def
  by (induction l rule: rev_induct) (auto split: option.splits if_splits)

lemma id_of_inj: "ok_listing l \<Longrightarrow> id_of l n = Some i \<Longrightarrow> id_of l m = Some i \<Longrightarrow> n = m"
  using id_of_mem[of l n i] id_of_mem[of l m i] unfolding ok_listing_def by (metis eq_key_imp_eq_value option.inject)

lemma id_of_known: "id_of l n = Some i \<Longrightarrow> i \<in> fst ` set l"
  using id_of_mem by (metis fst_conv image_iff)

definition ids_agree :: "ids \<Rightarrow> listing \<Rightarrow> bool" where
  "ids_agree d l \<longleftrightarrow> (\<forall>n. dict_get d (JStr n) = map_option JStr (id_of l n))"

lemma add_buckets: "\<exists>d. foldE add_bucket [] (map bucket_json l) = (retE d :: ('s, ids) eff) \<and> ids_agree d l"
proof -
  have step: "\<exists>d'. (add_bucket d (bucket_json b) :: ('s, ids) eff) = retE d' \<and>
      (\<forall>n. dict_get d' (JStr n) = (if snd b = Some n then Some (JStr (fst b)) else dict_get d (JStr n)))" for d b
    by (cases "snd b")
       (auto simp: add_bucket_def bucket_json_def iter_get_arr add_alias_def field_def key_of_def hashable_def
         simp del: dict_get_eq_None)
  have "\<exists>d'. foldE add_bucket d (map bucket_json l) = (retE d' :: ('s, ids) eff) \<and>
      (\<forall>n. dict_get d' (JStr n) = (case id_of l n of Some i \<Rightarrow> Some (JStr i) | None \<Rightarrow> dict_get d (JStr n)))" for d
  proof (induction l rule: rev_induct)
    case (snoc b l)
    then obtain d1 where d1: "foldE add_bucket d (map bucket_json l) = (retE d1 :: ('s, ids) eff)"
      "\<And>n. dict_get d1 (JStr n) = (case id_of l n of Some i \<Rightarrow> Some (JStr i) | None \<Rightarrow> dict_get d (JStr n))" by blast
    obtain d2 where d2: "(add_bucket d1 (bucket_json b) :: ('s, ids) eff) = retE d2"
      "\<And>n. dict_get d2 (JStr n) = (if snd b = Some n then Some (JStr (fst b)) else dict_get d1 (JStr n))"
      using step[of d1 b] by blast
    have "foldE f a (xs @ [x]) = bindE (foldE f a xs) (\<lambda>c. f c x)" for f :: "ids \<Rightarrow> json \<Rightarrow> ('s, ids) eff" and a xs x
      by (induction xs arbitrary: a) (simp_all add: bindE_assoc, simp add: bindE_def retE_def fun_eq_iff split: prod.split res.split)
    then have "foldE add_bucket d (map bucket_json (l @ [b])) = (retE d2 :: ('s, ids) eff)" using d1(1) d2(1) by simp
    then show ?case using d1(2) d2(2) by (auto simp: id_of_def split: option.split)
  qed (auto simp: id_of_def intro: exI[of _ d])
  from this[of "[]"] obtain d where "foldE add_bucket [] (map bucket_json l) = (retE d :: ('s, ids) eff)"
    and d: "\<And>n. dict_get d (JStr n) = (case id_of l n of Some i \<Rightarrow> Some (JStr i) | None \<Rightarrow> dict_get [] (JStr n))" by blast
  moreover have "ids_agree d l" unfolding ids_agree_def d by (auto split: option.split)
  ultimately show ?thesis by blast
qed

section \<open>The loops\<close>

text \<open>\<open>gives m s x t\<close>: from \<open>s\<close> the program returns \<open>x\<close> in \<open>t\<close>; \<open>calm s t\<close>: nothing but the record of actions differs.\<close>

definition calm :: "'w box \<Rightarrow> 'w box \<Rightarrow> bool" where
  "calm s t \<longleftrightarrow> outer t = outer s \<and> files t = files s \<and> stdout t = stdout s \<and> did looks s t"

lemma calm_refl: "calm s s"
  by (simp add: calm_def does.frame_refl)

lemma calm_trans: "calm s t \<Longrightarrow> calm t u \<Longrightarrow> calm s u"
  unfolding calm_def using does.frame_trans by fastforce

lemma bindE_run: "m s = (Ok x, t) \<Longrightarrow> bindE m f s = f x t"
  by (simp add: bindE_def)

lemma andthen_run: "m s = (Ok (Inr x), t) \<Longrightarrow> andthen m k s = k x t"
  by (simp add: andthen_def bindE_def)

lemma andthen_walk: "walkE f a xs s = (Ok (Inr x), t) \<Longrightarrow> andthen (walkE f a xs) k s = k x t"
  by (rule andthen_run)

lemma request_run:
  assumes "http H (rq port token method path query body) (outer s) = (Answer status (Doc j), w)"
  shows "admin_request H port token method path query body s =
    (Ok (status, j), s\<lparr>outer := w, acts := acts s @ [Req (rq port token method path query body)]\<rparr>)"
  using assms by (simp add: admin_request_def rq_def bindE_def send_def retE_def)

lemma get_calm: "calm s (s\<lparr>outer := outer s, acts := acts s @ [Req (rq port token ''GET'' path query body)]\<rparr>)"
  by (simp add: calm_def did_def looks_def rq_def)

lemma list_buckets_run:
  assumes "bucket_server H port token bl br"
  shows "\<exists>d t. list_buckets H port token s = (Ok (Inr d), t) \<and> calm s t \<and> ids_agree d (bl (outer s))"
proof -
  let ?q = "rq port token ''GET'' ''/v2/ListBuckets'' [] None"
  have "http H ?q (outer s) = (Answer 200 (Doc (JArr (map bucket_json (bl (outer s))))), outer s)"
    by (rule server_lists[OF assms])
  note q = request_run[OF this]
  obtain d where d: "foldE add_bucket [] (map bucket_json (bl (outer s))) = (retE d :: ('a box, ids) eff)"
    and "ids_agree d (bl (outer s))" using add_buckets by blast
  then show ?thesis
    using get_calm[of s port token "''/v2/ListBuckets''" "[]" None]
    by (auto simp: list_buckets_def attempt_def bindE_def catchE_def q retE_def go_on_def iter_def)
qed

definition needs :: "(json \<times> json list) list \<Rightarrow> listing \<Rightarrow> (string \<Rightarrow> json list) \<Rightarrow> string \<Rightarrow> bool" where
  "needs cors l r n = (case id_of l n of None \<Rightarrow> cors_of cors (JStr n) \<noteq> [] | Some i \<Rightarrow> r i \<noteq> cors_of cors (JStr n))"

lemma compare_run:
  assumes "bucket_server H port token bl br" and "ids_agree d (bl (outer s))"
    and "List.member missing (JStr n) \<longleftrightarrow> id_of (bl (outer s)) n = None" and "list_all is_rule (cors_of cors (JStr n))"
  shows "\<exists>t. compare_cors H port token d missing cors todo (JStr n) s =
      (Ok (Inr (todo @ (if needs cors (bl (outer s)) (br (outer s)) n then [(JStr n, cors_of cors (JStr n))] else []))), t) \<and> calm s t"
proof (cases "id_of (bl (outer s)) n")
  case None
  then show ?thesis using assms(3) calm_refl by (auto simp: compare_cors_def Let_def go_on_def retE_def needs_def)
next
  case (Some i)
  let ?q = "rq port token ''GET'' ''/v2/GetBucketInfo'' [(''id'', JStr i)] None"
  have "i \<in> fst ` set (bl (outer s))" using id_of_known[OF Some] .
  then obtain rep where "http H ?q (outer s) = (Answer 200 (Doc (JObj [(''corsRules'', rep)])), outer s)"
    and rep: "\<And>u :: 'a box. cors_canonical rep u = (Ok (br (outer s) i), u)"
    using server_informs[OF assms(1)] by blast
  note q = request_run[OF this(1)]
  have "dict_get d (JStr n) = Some (JStr i)" using assms(2) Some by (simp add: ids_agree_def)
  then show ?thesis
    using assms(3) Some get_calm[of s port token "''/v2/GetBucketInfo''" "[(''id'', JStr i)]" None]
    by (simp add: compare_cors_def Let_def bindE_def q get_dflt_def get_key_def rep cors_canonical_rules[OF assms(4)]
        go_on_def retE_def needs_def)
qed

lemma compare_loop:
  assumes "bucket_server H port token bl br" and "ids_agree d l"
    and "\<And>n. n \<in> set ns \<Longrightarrow> List.member missing (JStr n) \<longleftrightarrow> id_of l n = None"
    and "\<And>n. list_all is_rule (cors_of cors (JStr n))" and "bl (outer s) = l" and "br (outer s) = r"
  shows "\<exists>t. walkE (compare_cors H port token d missing cors) todo (map JStr ns) s =
      (Ok (Inr (todo @ map (\<lambda>n. (JStr n, cors_of cors (JStr n))) (filter (needs cors l r) ns))), t) \<and> calm s t"
  using assms(3,5,6)
proof (induction ns arbitrary: todo s)
  case Nil
  show ?case using calm_refl by (simp add: retE_def)
next
  case (Cons n ns)
  obtain t where t: "compare_cors H port token d missing cors todo (JStr n) s =
      (Ok (Inr (todo @ (if needs cors l r n then [(JStr n, cors_of cors (JStr n))] else []))), t)" "calm s t"
    using compare_run[OF assms(1), of d s missing n cors todo] assms(2,4) Cons.prems by auto
  then have "bl (outer t) = l" "br (outer t) = r" using Cons.prems by (auto simp: calm_def)
  from Cons.IH[OF Cons.prems(1) this, of "todo @ (if needs cors l r n then [(JStr n, cors_of cors (JStr n))] else [])"]
  show ?case using t calm_trans by (force simp: bindE_def)
qed

lemma create_loop:
  assumes "bucket_server H port token bl br" and "distinct ns" and "\<forall>n\<in>set ns. id_of (bl (outer s)) n = None"
    and "ids_agree d (bl (outer s))" and "ok_listing (bl (outer s))"
  shows "\<exists>d' t. walkE (create_bucket H port token) d (map JStr ns) s = (Ok (Inr d'), t) \<and> ids_agree d' (bl (outer t)) \<and>
    ok_listing (bl (outer t)) \<and> prefix (bl (outer s)) (bl (outer t)) \<and> stdout t = stdout s \<and> files t = files s \<and>
    (\<forall>i\<in>fst ` set (bl (outer s)). br (outer t) i = br (outer s) i) \<and>
    (\<forall>n\<in>set ns. \<exists>i. id_of (bl (outer t)) n = Some i \<and> br (outer t) i = [] \<and> i \<notin> fst ` set (bl (outer s))) \<and>
    (\<forall>n. n \<notin> set ns \<longrightarrow> id_of (bl (outer t)) n = id_of (bl (outer s)) n)"
  using assms(2-)
proof (induction ns arbitrary: d s)
  case Nil
  then show ?case by (simp add: retE_def)
next
  case (Cons n ns)
  let ?q = "rq port token ''POST'' ''/v2/CreateBucket'' [] (Some (JObj [(''globalAlias'', JStr n)]))"
  have "id_of (bl (outer s)) n = None" using Cons.prems by simp
  then obtain i w where i: "i \<noteq> []" "i \<notin> fst ` set (bl (outer s))" "bl w = bl (outer s) @ [(i, Some n)]"
    "br w = (br (outer s))(i := [])" and "http H ?q (outer s) = (Answer 200 (Doc (JObj [(''id'', JStr i)])), w)"
    using server_creates[OF assms(1)] by blast
  note q = request_run[OF this(5)]
  let ?u = "s\<lparr>outer := w, acts := acts s @ [Req ?q]\<rparr>"
  have c: "create_bucket H port token d (JStr n) s = (Ok (Inr (dict_set (JStr n) (JStr i) d)), ?u)"
    by (simp add: create_bucket_def bindE_def q get_dflt_def get_key_def truthy_def go_on_def retE_def)
  have a: "ids_agree (dict_set (JStr n) (JStr i) d) (bl (outer ?u))" "ok_listing (bl (outer ?u))"
    using Cons.prems(3,4) i by (auto simp: ids_agree_def id_of_snoc ok_listing_def simp del: dict_get_eq_None)
  have b: "\<forall>m\<in>set ns. id_of (bl (outer ?u)) m = None"
    using Cons.prems(1,2) i(3) by (auto simp: id_of_snoc)
  have "distinct ns" using Cons.prems(1) by simp
  from Cons.IH[OF this b a] obtain d' t where
    t: "walkE (create_bucket H port token) (dict_set (JStr n) (JStr i) d) (map JStr ns) ?u = (Ok (Inr d'), t)"
      "ids_agree d' (bl (outer t))" "ok_listing (bl (outer t))" "prefix (bl (outer ?u)) (bl (outer t))" "stdout t = stdout ?u"
      "files t = files ?u"
    and t': "\<forall>j\<in>fst ` set (bl (outer ?u)). br (outer t) j = br (outer ?u) j"
      "\<forall>m\<in>set ns. \<exists>i. id_of (bl (outer t)) m = Some i \<and> br (outer t) i = [] \<and> i \<notin> fst ` set (bl (outer ?u))"
      "\<forall>m. m \<notin> set ns \<longrightarrow> id_of (bl (outer t)) m = id_of (bl (outer ?u)) m"
    by blast
  have n: "id_of (bl (outer t)) n = Some i" "br (outer t) i = []"
    using t'(3)[rule_format, of n] t'(1) Cons.prems(1) i by (auto simp: id_of_snoc)
  have "prefix (bl (outer s)) (bl (outer t))" using t(4) i(3) by (auto simp: prefix_def)
  moreover have "br (outer t) j = br (outer s) j" if "j \<in> fst ` set (bl (outer s))" for j
  proof -
    have "j \<in> fst ` set (bl (outer ?u))" and "j \<noteq> i" using that i(2,3) by auto
    with bspec[OF t'(1)] have "br (outer t) j = br (outer ?u) j" by blast
    with i(4) \<open>j \<noteq> i\<close> show ?thesis by simp
  qed
  moreover have "id_of (bl (outer t)) m = id_of (bl (outer s)) m" if "m \<notin> set (n # ns)" for m
    using t'(3) that i(3) by (auto simp: id_of_snoc)
  moreover have "\<exists>i. id_of (bl (outer t)) m = Some i \<and> br (outer t) i = [] \<and> i \<notin> fst ` set (bl (outer s))"
    if m: "m \<in> set (n # ns)" for m
  proof (cases "m = n")
    case False
    then have "m \<in> set ns" using m by simp
    from bspec[OF t'(2) this] i(3) show ?thesis by auto
  qed (use n i(2) in auto)
  ultimately show ?case using c t(1,2,3,5,6) by (simp add: bindE_def)
qed

lemma write_run:
  assumes "bucket_server H port token bl br" and "ids_agree d (bl (outer s))" and "ok_listing (bl (outer s))"
    and "id_of (bl (outer s)) n = Some i" and "list_all is_rule rules"
  shows "\<exists>t. write_cors H port token d () (JStr n, rules) s = (Ok (Inr ()), t) \<and> bl (outer t) = bl (outer s) \<and>
    br (outer t) = (br (outer s))(i := rules) \<and> stdout t = stdout s \<and> files t = files s"
proof -
  let ?q = "rq port token ''POST'' ''/v2/UpdateBucket'' [(''id'', JStr i)] (Some (JObj [(''corsRules'', JArr rules)]))"
  obtain j w where w: "bl w = bl (outer s)" "br w = (br (outer s))(i := rules)"
    and "http H ?q (outer s) = (Answer 200 (Doc j), w)"
    using server_updates[OF assms(1) id_of_known[OF assms(4)] assms(5)] by blast
  note q = request_run[OF this(3)]
  have "dict_get d (JStr n) = Some (JStr i)" using assms(2,4) by (simp add: ids_agree_def)
  moreover have "i \<noteq> []" using assms(3) id_of_known[OF assms(4)] unfolding ok_listing_def by metis
  ultimately show ?thesis using w by (simp add: write_cors_def truthy_def bindE_def q go_on_def retE_def)
qed

lemma write_loop:
  assumes "bucket_server H port token bl br" and "ids_agree d (bl (outer s))" and "ok_listing (bl (outer s))"
    and "\<And>n. list_all is_rule (rules n)" and "distinct ns" and "\<And>n. n \<in> set ns \<Longrightarrow> id_of (bl (outer s)) n \<noteq> None"
  shows "\<exists>t. walkE (write_cors H port token d) () (map (\<lambda>n. (JStr n, rules n)) ns) s = (Ok (Inr ()), t) \<and>
    bl (outer t) = bl (outer s) \<and> stdout t = stdout s \<and> files t = files s \<and>
    (\<forall>n i. id_of (bl (outer s)) n = Some i \<longrightarrow> n \<in> set ns \<longrightarrow> br (outer t) i = rules n) \<and>
    (\<forall>i. (\<forall>n\<in>set ns. id_of (bl (outer s)) n \<noteq> Some i) \<longrightarrow> br (outer t) i = br (outer s) i)"
  using assms(2,3,5,6)
proof (induction ns arbitrary: s)
  case Nil
  then show ?case by (simp add: retE_def)
next
  case (Cons n ns)
  obtain i where i: "id_of (bl (outer s)) n = Some i" using Cons.prems(4)[of n] by auto
  obtain u where u: "write_cors H port token d () (JStr n, rules n) s = (Ok (Inr ()), u)" "bl (outer u) = bl (outer s)"
    "br (outer u) = (br (outer s))(i := rules n)" "stdout u = stdout s" "files u = files s"
    using write_run[OF assms(1) Cons.prems(1,2) i assms(4)] by blast
  have "\<And>m. m \<in> set ns \<Longrightarrow> id_of (bl (outer u)) m \<noteq> None" using Cons.prems(4) u(2) by simp
  from Cons.IH[OF _ _ _ this] Cons.prems(1-3) u(2) obtain t where
    t: "walkE (write_cors H port token d) () (map (\<lambda>n. (JStr n, rules n)) ns) u = (Ok (Inr ()), t)"
      "bl (outer t) = bl (outer s)" "stdout t = stdout u" "files t = files u"
    and t': "\<And>m j. id_of (bl (outer s)) m = Some j \<Longrightarrow> m \<in> set ns \<Longrightarrow> br (outer t) j = rules m"
      "\<And>j. \<forall>m\<in>set ns. id_of (bl (outer s)) m \<noteq> Some j \<Longrightarrow> br (outer t) j = br (outer u) j"
    by auto
  have "br (outer t) i = rules n"
  proof -
    have "\<forall>m\<in>set ns. id_of (bl (outer s)) m \<noteq> Some i" using id_of_inj[OF Cons.prems(2) i] Cons.prems(3) by auto
    then show ?thesis using t'(2) u(3) by simp
  qed
  then have "br (outer t) j = rules m" if "id_of (bl (outer s)) m = Some j" "m \<in> set (n # ns)" for m j
    using that i t'(1) by auto
  moreover have "br (outer t) j = br (outer s) j" if "\<forall>m\<in>set (n # ns). id_of (bl (outer s)) m \<noteq> Some j" for j
    using that t'(2)[of j] u(3) i by auto
  ultimately show ?case using u(1,4,5) t(1-4) by (auto simp: bindE_def)
qed

section \<open>A whole run\<close>

definition synced ::
  "string list \<Rightarrow> (json \<times> json list) list \<Rightarrow> listing \<Rightarrow> (string \<Rightarrow> json list) \<Rightarrow> listing \<Rightarrow> (string \<Rightarrow> json list) \<Rightarrow> bool" where
  "synced ns cors l r l' r' \<longleftrightarrow>
     (\<forall>n\<in>set ns. \<exists>i. id_of l' n = Some i \<and> r' i = cors_of cors (JStr n)) \<and> prefix l l' \<and>
     (\<forall>i\<in>fst ` set l. (\<forall>n\<in>set ns. id_of l n \<noteq> Some i) \<longrightarrow> r' i = r i)"

definition in_sync :: "string list \<Rightarrow> (json \<times> json list) list \<Rightarrow> listing \<Rightarrow> (string \<Rightarrow> json list) \<Rightarrow> bool" where
  "in_sync ns cors l r \<longleftrightarrow> (\<forall>n\<in>set ns. \<exists>i. id_of l n = Some i \<and> r i = cors_of cors (JStr n))"

lemma synced_in_sync: "synced ns cors l r l' r' \<Longrightarrow> in_sync ns cors l' r'"
  by (simp add: synced_def in_sync_def)

text \<open>The first part of a run: the listing, what is missing and what has to be written.\<close>

lemma sync_start:
  assumes "bucket_server H port token bl br" and "\<And>n. list_all is_rule (cors_of cors (JStr n))"
    and "bl (outer s) = l" and "br (outer s) = r"
  shows "\<exists>d t. ids_agree d l \<and> calm s t \<and>
    sync_buckets_with H port token check (map JStr ns) cors s =
      (let missing = map JStr (filter (\<lambda>n. id_of l n = None) ns);
           todo = map (\<lambda>n. (JStr n, cors_of cors (JStr n))) (filter (needs cors l r) ns);
           payload = [(''buckets_to_create'', JArr missing), (''cors_to_set'', JArr (map fst todo))] in
       (if missing = [] \<and> todo = [] then emit ''no-change'' [] check
        else if check then emit ''would-change'' payload True
        else
          andthen (walkE (create_bucket H port token) d missing) (\<lambda>ids.
          andthen (walkE (write_cors H port token ids) () todo) (\<lambda>_. emit ''changed'' payload False))) t)"
proof -
  obtain d t where d: "list_buckets H port token s = (Ok (Inr d), t)" "calm s t" "ids_agree d l"
    using list_buckets_run[OF assms(1), of s] assms(3) by blast
  have "List.member (dict_keys d) (JStr n) \<longleftrightarrow> id_of l n \<noteq> None" for n
    using d(3) dict_mem_iff[of "JStr n" d] by (auto simp: ids_agree_def)
  then have m: "filter (\<lambda>n. \<not> List.member (dict_keys d) n) (map JStr ns) = map JStr (filter (\<lambda>n. id_of l n = None) ns)"
    by (simp add: filter_map comp_def)
  let ?missing = "map JStr (filter (\<lambda>n. id_of l n = None) ns)"
  have mem: "n \<in> set ns \<Longrightarrow> List.member ?missing (JStr n) \<longleftrightarrow> id_of l n = None" for n
    by auto
  obtain u where u: "walkE (compare_cors H port token d ?missing cors) [] (map JStr ns) t =
      (Ok (Inr ([] @ map (\<lambda>n. (JStr n, cors_of cors (JStr n))) (filter (needs cors l r) ns))), u)" "calm t u"
    using compare_loop[OF assms(1) d(3) mem assms(2), of ns t r "[]"] d(2) assms(3,4) unfolding calm_def by auto
  have "calm s u" using calm_trans[OF d(2) u(2)] .
  then show ?thesis
    unfolding sync_buckets_with_def andthen_run[of "list_buckets H port token", OF d(1)] Let_def m
      andthen_walk[OF u(1)] append_Nil
    using d(3) by blast
qed

lemma emit_run: "\<exists>t. emit st payload check s = (Ok 0, t) \<and> outer t = outer s \<and> files t = files s \<and> acts t = acts s"
  by (simp add: emit_def bindE_def say_def modE_def retE_def)

lemma emit_no_change: "emit ''no-change'' [] check s = (Ok 0, s\<lparr>stdout := stdout s @ [''OK no-change'']\<rparr>)"
  by (simp add: emit_def bindE_def say_def modE_def retE_def)

lemma sync_settled:
  assumes "bucket_server H port token bl br" and "\<And>n. list_all is_rule (cors_of cors (JStr n))"
    and "in_sync ns cors (bl (outer s)) (br (outer s))"
  shows "\<exists>t. sync_buckets_with H port token check (map JStr ns) cors s = (Ok 0, t) \<and> outer t = outer s \<and>
    stdout t = stdout s @ [''OK no-change''] \<and> did looks s t"
proof -
  have none: "filter (\<lambda>n. id_of (bl (outer s)) n = None) ns = []" "filter (needs cors (bl (outer s)) (br (outer s))) ns = []"
    using assms(3) by (auto simp: in_sync_def filter_empty_conv needs_def)
  obtain t where t: "calm s t" "sync_buckets_with H port token check (map JStr ns) cors s = emit ''no-change'' [] check t"
    using sync_start[OF assms(1,2) refl refl, where s = s and check = check and ns = ns] unfolding none Let_def by auto
  then show ?thesis by (auto simp: emit_no_change calm_def did_def)
qed

lemma sync_run:
  assumes "bucket_server H port token bl br" and "\<And>n. list_all is_rule (cors_of cors (JStr n))"
    and "ok_listing (bl (outer s))" and "distinct ns"
  shows "\<exists>t. sync_buckets_with H port token False (map JStr ns) cors s = (Ok 0, t) \<and>
    synced ns cors (bl (outer s)) (br (outer s)) (bl (outer t)) (br (outer t))"
proof -
  let ?l = "bl (outer s)" and ?r = "br (outer s)"
  let ?missing = "filter (\<lambda>n. id_of ?l n = None) ns" and ?todo = "filter (needs cors ?l ?r) ns"
  obtain d t where d: "ids_agree d ?l" and t: "calm s t" and run:
    "sync_buckets_with H port token False (map JStr ns) cors s =
      (let missing = map JStr ?missing; todo = map (\<lambda>n. (JStr n, cors_of cors (JStr n))) ?todo;
           payload = [(''buckets_to_create'', JArr missing), (''cors_to_set'', JArr (map fst todo))] in
       (if missing = [] \<and> todo = [] then emit ''no-change'' [] False
        else if False then emit ''would-change'' payload True
        else
          andthen (walkE (create_bucket H port token) d missing) (\<lambda>ids.
          andthen (walkE (write_cors H port token ids) () todo) (\<lambda>_. emit ''changed'' payload False))) t)"
    using sync_start[OF assms(1,2) refl refl, where s = s and check = False and ns = ns] by blast
  have t': "bl (outer t) = ?l" "br (outer t) = ?r" using t by (simp_all add: calm_def)
  show ?thesis
  proof (cases "?missing = [] \<and> ?todo = []")
    case True
    then have "in_sync ns cors ?l ?r"
      unfolding in_sync_def filter_empty_conv needs_def by (auto split: option.splits)
    then have "synced ns cors ?l ?r ?l ?r" by (simp add: synced_def in_sync_def)
    moreover have "sync_buckets_with H port token False (map JStr ns) cors s = emit ''no-change'' [] False t"
      using run True by (simp add: Let_def)
    ultimately show ?thesis using t' by (simp add: emit_no_change)
  next
    case False
    have "distinct ?missing" and "\<forall>n\<in>set ?missing. id_of ?l n = None" using assms(4) by auto
    note created = create_loop[OF assms(1) this(1), where s = t, unfolded t', OF this(2) d assms(3)]
    obtain d' u where
      u: "walkE (create_bucket H port token) d (map JStr ?missing) t = (Ok (Inr d'), u)" "ids_agree d' (bl (outer u))"
        "ok_listing (bl (outer u))" "prefix ?l (bl (outer u))"
      and u': "\<forall>i\<in>fst ` set ?l. br (outer u) i = ?r i"
        "\<forall>n\<in>set ?missing. \<exists>i. id_of (bl (outer u)) n = Some i \<and> br (outer u) i = [] \<and> i \<notin> fst ` set ?l"
        "\<And>n. n \<notin> set ?missing \<Longrightarrow> id_of (bl (outer u)) n = id_of ?l n"
      using created by (elim exE conjE) (rule that, assumption+, blast)
    have known: "id_of (bl (outer u)) n \<noteq> None" if "n \<in> set ns" for n
    proof (cases "n \<in> set ?missing")
      case True
      from bspec[OF u'(2) this] show ?thesis by auto
    next
      case False
      then show ?thesis using u'(3)[OF False] that by auto
    qed
    have "distinct ?todo" "\<And>n. n \<in> set ?todo \<Longrightarrow> id_of (bl (outer u)) n \<noteq> None" using assms(4) known by auto
    from write_loop[OF assms(1) u(2,3), where rules = "\<lambda>n. cors_of cors (JStr n)", OF assms(2) this] obtain v where
      v: "walkE (write_cors H port token d') () (map (\<lambda>n. (JStr n, cors_of cors (JStr n))) ?todo) u = (Ok (Inr ()), v)"
        "bl (outer v) = bl (outer u)"
      and v': "\<And>n i. id_of (bl (outer u)) n = Some i \<Longrightarrow> n \<in> set ?todo \<Longrightarrow> br (outer v) i = cors_of cors (JStr n)"
        "\<And>i. \<forall>n\<in>set ?todo. id_of (bl (outer u)) n \<noteq> Some i \<Longrightarrow> br (outer v) i = br (outer u) i"
      by blast
    have "\<exists>i. id_of (bl (outer v)) n = Some i \<and> br (outer v) i = cors_of cors (JStr n)" if n: "n \<in> set ns" for n
    proof -
      obtain i where i: "id_of (bl (outer u)) n = Some i" using known[OF n] by blast
      have "br (outer v) i = cors_of cors (JStr n)"
      proof (cases "needs cors ?l ?r n")
        case True
        then show ?thesis using v'(1)[OF i] n by simp
      next
        case settled: False
        have "br (outer v) i = br (outer u) i"
          using id_of_inj[OF u(3) i] settled by (intro v'(2)) auto
        also have "\<dots> = cors_of cors (JStr n)"
        proof (cases "id_of ?l n")
          case None
          then have "n \<in> set ?missing" using n by simp
          from bspec[OF u'(2) this] show ?thesis using i settled None by (auto simp: needs_def)
        next
          case (Some j)
          then have "j = i" using u'(3)[of n] i by simp
          then show ?thesis using bspec[OF u'(1) id_of_known[OF Some]] settled Some by (simp add: needs_def)
        qed
        finally show ?thesis .
      qed
      then show ?thesis using i v(2) by simp
    qed
    moreover have "br (outer v) i = ?r i" if i: "i \<in> fst ` set ?l" "\<forall>n\<in>set ns. id_of ?l n \<noteq> Some i" for i
    proof -
      have "id_of (bl (outer u)) n \<noteq> Some i" if "n \<in> set ns" for n
      proof (cases "n \<in> set ?missing")
        case True
        from bspec[OF u'(2) this] show ?thesis using i(1) by (metis option.inject)
      next
        case False
        then show ?thesis using u'(3)[of n] i(2) that by simp
      qed
      then show ?thesis using v'(2)[of i] bspec[OF u'(1) i(1)] by simp
    qed
    ultimately have "synced ns cors ?l ?r (bl (outer v)) (br (outer v))" using u(4) v(2) by (simp add: synced_def)
    moreover have "\<exists>p. sync_buckets_with H port token False (map JStr ns) cors s = emit ''changed'' p False v"
      unfolding run Let_def map_is_Nil_conv if_not_P[OF False] if_False andthen_walk[OF u(1)] andthen_walk[OF v(1)]
      by blast
    moreover note emit_run[of "''changed''" _ False v]
    ultimately show ?thesis by metis
  qed
qed

text \<open>The arguments of a run: a token, a port and a spec that names the buckets.\<close>

definition spec_names :: "'w host \<Rightarrow> sync_buckets_args \<Rightarrow> int \<Rightarrow> json \<Rightarrow> bool" where
  "spec_names H a port spec \<longleftrightarrow>
     getenv H ''GARAGE_ADMIN_TOKEN'' \<noteq> [] \<and> int_of_string (sb_admin_port a) = Some port \<and>
     loads H (sb_buckets_json a) = Some spec"

lemma do_sync_buckets_run:
  assumes "spec_names H a port spec" and "\<And>u :: 'w box. desired_buckets spec u = (Ok (map JStr ns, cors), u)"
  shows "do_sync_buckets H a (s :: 'w box) =
    sync_buckets_with H port (getenv H ''GARAGE_ADMIN_TOKEN'') (sb_check a) (map JStr ns) cors s"
  using assms(1)
  by (simp add: spec_names_def do_sync_buckets_def andthen_def attempt_def json_loads_def int_of_text_def catchE_def
      bindE_def retE_def go_on_def assms(2))

lemma desired_are_rules:
  assumes "\<And>u :: 'w box. desired_buckets spec u = (Ok (names, cors), u)"
  shows "list_all is_rule (cors_of cors n)"
  using yieldsD[OF desired_rules assms] by (auto simp: cors_of_def split: option.split)

end
