(* ===== verification/Garage_Claims.thy ===== *)
theory Garage_Claims
  imports Garage_Smooth Garage_Buckets Garage_Keys
begin

text \<open>
  Properties of \<open>apply_garage.py\<close>, over any host: any docker, any admin API, any failures of system
  calls.
\<close>

section \<open>A host for the examples\<close>

definition demo_host :: "rat host" where
  "demo_host =
     \<lparr>environ = \<lambda>v. Some ''secret'', subprocess = \<lambda>argv x. (Ok (0, ''Current cluster layout version: 3'', []), x),
      http = \<lambda>r w. (HttpError 404 Empty, w), clock = \<lambda>w. w, sleep = \<lambda>d w. w + d, fate = \<lambda>c w. (Go, w),
      torn = \<lambda>w. 0, random_name = \<lambda>w. ''tmp'', euid = (0, 0), sha256 = \<lambda>s. s, loads = \<lambda>s. None, exc_text = \<lambda>e. []\<rparr>"

definition demo_box :: "rat box" where
  "demo_box = \<lparr>files = \<lambda>p. None, outer = 0, acts = [], stdout = []\<rparr>"

definition demo_config :: "string \<Rightarrow> render_config_args" where
  "demo_config engine =
     \<lparr>rc_config_path = ''/garage.toml'', rc_db_engine = engine, rc_replication_factor = ''1'', rc_compression_level = ''-1'',
      rc_rpc_bind_addr = ''[::]:3901'', rc_rpc_public_addr = ''127.0.0.1:3901'', rc_s3_api_bind_addr = ''127.0.0.1:3900'',
      rc_s3_region = ''garage'', rc_s3_root_domain = ''.s3'', rc_s3_web_bind_addr = ''127.0.0.1:3902'',
      rc_s3_web_root_domain = ''.web'', rc_s3_web_index = ''index.html'', rc_admin_api_bind_addr = ''127.0.0.1:3903'',
      rc_meta_dir = ''/meta'', rc_data_dir = ''/data'', rc_check = False\<rparr>"

lemma demo_host_quiet: "inspects_quietly demo_host"
  by (simp add: inspects_quietly_def demo_host_def)

text \<open>
  C26. With \<open>--check\<close> no subcommand changes anything: each command it runs inspects a container or
  asks Garage for its status or layout, each request is a GET, each system call reads or stats, and
  every file is as before.
\<close>

theorem check_only_looks:
  assumes "inspects_quietly H" and "check_of c"
  shows "did looks s (snd (garage_main H c s)) \<and> files (snd (garage_main H c s)) = files s"
  using looked_main[OF assms] unfolding keeps_def looked_def by blast

theorem check_only_looks_witness:
  "did looks demo_box (snd (garage_main demo_host (Layout \<lparr>ly_container_name = ''garage'', ly_zone = ''dc1'',
     ly_capacity = ''1T'', ly_check = True\<rparr>) demo_box))"
  using check_only_looks[OF demo_host_quiet, where s = demo_box and c = "Layout \<lparr>ly_container_name = ''garage'',
      ly_zone = ''dc1'', ly_capacity = ''1T'', ly_check = True\<rparr>"]
  by (simp add: check_of_def)

text \<open>
  C27. A cluster layout that is in place is never assigned again, with or without \<open>--check\<close>: when
  \<open>garage layout show\<close> tells a version above 0, all that the layout subcommand runs is \<open>status\<close> and
  \<open>layout show\<close>, whatever zone and capacity the spec asks for.
\<close>

theorem layout_never_reassigned:
  assumes "layout_in_place H" and "inspects_quietly H"
  shows "did looks s (snd (garage_main H (Layout a) s))"
  using looked_settled_layout[OF assms(2,1), of a] by (simp add: garage_main_def keeps_def looked_def)

lemma demo_layout: "layout_in_place demo_host"
  by (simp add: layout_in_place_def demo_host_def layout_version_def) code_simp

theorem layout_never_reassigned_witness:
  "did looks demo_box (snd (garage_main demo_host (Layout \<lparr>ly_container_name = ''garage'', ly_zone = ''dc2'',
     ly_capacity = ''9T'', ly_check = False\<rparr>) demo_box))"
  using layout_never_reassigned[OF demo_layout demo_host_quiet] .

text \<open>
  The wait for a daemon that has just been started comes to an end: with a clock that follows
  \<open>sleep\<close>, thirty probes are enough.
\<close>

theorem ready_wait_ends:
  assumes "clock_advances H"
  shows "fst (garage_status_ready H container s) \<noteq> Halt"
  using status_ready_ends[OF assms] .

theorem ready_wait_ends_witness: "fst (garage_status_ready demo_host ''garage'' demo_box) \<noteq> Halt"
  by (rule ready_wait_ends) (simp add: clock_advances_def demo_host_def)

text \<open>
  C28. Rendering \<open>garage.toml\<close> is all or nothing, whichever system calls fail and wherever the run is
  killed: afterwards the file is what it was or the complete text with mode 0400 and owner root, no
  other file has changed, and what is new besides is a directory or a file that only its owner can
  read.
\<close>

theorem render_all_or_nothing:
  "wrote (files s) (rc_config_path a) (Plain (config_text H a) (perm 4 0 0) (0, 0))
     (files (snd (garage_main H (RenderConfig a) s)))"
  using fs_render_config[of "files s" H a]
  unfolding fs_triple_def garage_main_def
  by (cases "do_render_config H a s"; cases "fst (do_render_config H a s)") (auto simp: triple_def dest!: spec[of _ s])

text \<open>
  C29. What render-config renders says what was asked for: after a run that exits with 0 a TOML reader
  finds in the file every setting of the command line and every secret of the environment, in its
  section and unchanged, and nothing else, as long as these texts need no escape in TOML.
\<close>

theorem config_reads_back:
  assumes "garage_main H (RenderConfig a) s = (Ok 0, t)" and "\<not> rc_check a"
    and "list_all plain (config_texts H a)" and "\<And>c. sha256 H c = sha256 H (config_text H a) \<Longrightarrow> c = config_text H a"
  shows "\<exists>c m ids. files t (rc_config_path a) = Some (Plain c m ids) \<and>
    toml_doc (universal_newlines c) = Some (config_says H a)"
proof -
  have "hash_at H (files t) (rc_config_path a) (config_text H a)"
    using fs_render_config[of "files s" H a] assms(1,2)
    unfolding fs_triple_def garage_main_def cmd.case by (auto dest: tripleD)
  then show ?thesis using assms(4) toml_config_text[OF assms(3)] unfolding hash_at_def by metis
qed

lemma demo_call: "os_call demo_host c s = (Ok (), s\<lparr>acts := acts s @ [Sys c]\<rparr>)"
  by (simp add: os_call_def demo_host_def)

lemma demo_makedirs: "makedirs demo_host ''/'' s = (Ok (), s\<lparr>acts := acts s @ [Sys (MkDir ''/''), Sys (Stat ''/'')]\<rparr>)"
proof -
  have "ancestors ''/'' = []" by code_simp
  then show ?thesis
    by (simp add: makedirs_def make_dir_def os_mkdir_def os_isdir_def oserror_def eff_defs demo_call is_dir_def)
qed

lemma demo_mkstemp:
  assumes "files s ''/.krg-tmp'' = None"
  shows "mkstemp demo_host ''/'' s =
    (Ok ''/.krg-tmp'', s\<lparr>acts := acts s @ [Sys (MkTemp ''/.krg-tmp'')],
       files := (files s)(''/.krg-tmp'' := Some (Plain [] (perm 6 0 0) (0, 0)))\<rparr>)"
proof -
  have "path_join ''/'' (''.krg-'' @ random_name demo_host w) = ''/.krg-tmp''" "euid demo_host = (0, 0)" for w
    by (simp_all add: demo_host_def path_join_def startswith_def endswith_def)
  then show ?thesis using assms by (simp add: mkstemp_def eff_defs demo_call is_dir_def set_file_def)
qed

lemma demo_write:
  assumes "files s = (\<lambda>p. None)"
  shows "\<exists>t. atomic_write demo_host ''/garage.toml'' c m ids s = (Ok (), t)"
proof -
  have d: "dirname ''/garage.toml'' = ''/''" by code_simp
  have "files (s\<lparr>acts := as\<rparr>) ''/.krg-tmp'' = None" for as using assms by simp
  note demo_mkstemp[OF this]
  then show ?thesis
    using assms
    by (simp add: atomic_write_def Let_def d bindE_def demo_makedirs catchE_def os_write_def os_chmod_def os_chown_def
        os_replace_def edit_file_def set_file_def getE_def modE_def demo_call is_dir_def set_content_def set_mode_def
        set_owner_def)
qed

text \<open>Without a file in the way and without failures the run succeeds.\<close>

lemma demo_run:
  assumes "bad_field (field_list demo_host (demo_config e)) = None"
  shows "fst (garage_main demo_host (RenderConfig (demo_config e)) demo_box) = Ok 0"
proof -
  let ?a = "demo_config e" and ?fs = "field_list demo_host (demo_config e)"
  have ints: "int_of_string ''1'' = Some 1" "int_of_string ''-1'' = Some (-1)" by code_simp+
  have fs: "config_fields demo_host ?a = (retE ?fs :: (rat box, _) eff)"
    by (simp add: config_fields_def field_list_def int_of_text_def replication_of_def compression_of_def demo_config_def ints)
  have env: "filter (\<lambda>v. getenv demo_host v = []) SECRET_ENV_VARS = []"
    by (simp add: SECRET_ENV_VARS_def getenv_def demo_host_def)
  have path: "rc_config_path ?a = ''/garage.toml''" "rc_check ?a = False" by (simp_all add: demo_config_def)
  obtain s where s: "read_file demo_host ''/garage.toml'' demo_box = (Ok None, s)" "files s = (\<lambda>p. None)"
    by (simp add: read_file_def read_text_def demo_call oserror_def eff_defs is_dir_def demo_box_def)
  obtain t where t: "atomic_write demo_host ''/garage.toml'' (config_text demo_host ?a) (perm 4 0 0) (0, 0) s = (Ok (), t)"
    using demo_write[OF s(2)] by blast
  show ?thesis
    unfolding garage_main_def cmd.case do_render_config_def Let_def env path
    using s(1) t
    by (simp add: fs assms fill_config bindE_def emit_def say_def modE_def retE_def del: append.simps)
qed

lemma demo_hash:
  assumes "bad_field (field_list demo_host (demo_config e)) = None"
  shows "\<exists>t. garage_main demo_host (RenderConfig (demo_config e)) demo_box = (Ok 0, t)"
  using demo_run[OF assms] by (metis prod.collapse)

theorem config_reads_back_witness:
  "\<exists>c m ids. files (snd (garage_main demo_host (RenderConfig (demo_config ''lmdb'')) demo_box)) ''/garage.toml'' =
     Some (Plain c m ids) \<and> toml_doc (universal_newlines c) = Some (config_says demo_host (demo_config ''lmdb''))"
proof -
  have p: "list_all plain (config_texts demo_host (demo_config ''lmdb''))" by code_simp
  have "bad_field (field_list demo_host (demo_config ''lmdb'')) = None" by code_simp
  from demo_hash[OF this] obtain t where "garage_main demo_host (RenderConfig (demo_config ''lmdb'')) demo_box = (Ok 0, t)"
    by blast
  then show ?thesis
    using config_reads_back[OF _ _ p] by (simp add: demo_host_def demo_config_def)
qed

text \<open>
  C30. A backslash gets through the check for characters that would end a TOML string early. Take any
  configuration whose texts have no quote and no line break, one of them (any setting of the command line or
  any secret) ending in an odd number of backslashes, and nothing else in the way of the run: render-config
  reports success, and the file it leaves is no TOML, because the backslash escapes the closing quote.
\<close>

theorem backslash_breaks_config:
  assumes "way_clear H a (files s)" and "\<not> rc_check a"
    and "list_all unquoted (config_texts H a)" and "v \<in> set (config_texts H a)" and "ends_open v"
    and "\<And>c. sha256 H c = sha256 H (config_text H a) \<Longrightarrow> c = config_text H a"
  shows "\<exists>t c m ids. garage_main H (RenderConfig a) s = (Ok 0, t) \<and>
    files t (rc_config_path a) = Some (Plain c m ids) \<and> toml_doc (universal_newlines c) = None"
proof -
  obtain t where t: "do_render_config H a s = (Ok 0, t)"
    using succeeds_render_config[OF assms(1) unquoted_passes[OF assms(3)]] by (auto simp: succeeds_def)
  have "hash_at H (files t) (rc_config_path a) (config_text H a)"
    using fs_render_config[of "files s" H a] t assms(2) unfolding fs_triple_def by (auto dest: tripleD)
  then obtain c m ids where "files t (rc_config_path a) = Some (Plain c m ids)" "universal_newlines c = config_text H a"
    using assms(6) unfolding hash_at_def by blast
  then show ?thesis using t open_config_bad[OF assms(3-5)] by (auto simp: garage_main_def)
qed

text \<open>A value that ends in a backslash.\<close>

definition open_engine :: string where
  "open_engine = ''lmdb'' @ [CHR 0x5C]"

theorem backslash_breaks_config_witness:
  "\<exists>t c m ids. garage_main demo_host (RenderConfig (demo_config open_engine)) demo_box = (Ok 0, t) \<and>
    files t ''/garage.toml'' = Some (Plain c m ids) \<and> toml_doc (universal_newlines c) = None"
proof -
  let ?a = "demo_config open_engine"
  have 1: "list_all unquoted (config_texts demo_host ?a)" by code_simp
  have 2: "open_engine \<in> set (config_texts demo_host ?a)" by (simp add: config_texts_def demo_config_def)
  have 3: "ends_open open_engine" by code_simp
  have "dirname ''/garage.toml'' = ''/''" "ancestors ''/'' = []" "int_of_string ''1'' = Some 1" "int_of_string ''-1'' = Some (-1)"
    by code_simp+
  then have 4: "way_clear demo_host ?a (files demo_box)"
    by (simp add: way_clear_def smooth_def config_dir_def temp_free_def is_dir_def getenv_def SECRET_ENV_VARS_def
        demo_host_def demo_config_def demo_box_def path_join_def startswith_def endswith_def)
  have 5: "\<not> rc_check ?a" by (simp add: demo_config_def)
  have "rc_config_path ?a = ''/garage.toml''" by (simp add: demo_config_def)
  then show ?thesis
    using backslash_breaks_config[OF 4 5 1 2 3] by (simp add: demo_host_def)
qed

text \<open>
  C31. Against a server that does what Garage's API documents and gives a bucket at most one alias, one run of sync-buckets makes the
  server what the spec says and a second run has nothing to do. The first run exits with 0; then every
  bucket of the spec exists and has exactly the CORS rules of the spec (none, if the spec has none), no
  bucket has been removed, and the rules of every other bucket are as before. The second run exits
  with 0, prints OK no-change, leaves the server as it is and sends only GET requests.
\<close>

theorem buckets_converge:
  assumes "bucket_server H port (getenv H ''GARAGE_ADMIN_TOKEN'') bl br" and "ok_listing (bl (outer s))"
    and "spec_names H a port spec" and "\<And>u :: 'w box. desired_buckets spec u = (Ok (map JStr ns, cors), u)"
    and "distinct ns" and "\<not> sb_check a"
  shows "\<exists>t. garage_main H (SyncBuckets a) (s :: 'w box) = (Ok 0, t) \<and>
    synced ns cors (bl (outer s)) (br (outer s)) (bl (outer t)) (br (outer t)) \<and>
    (\<exists>u. garage_main H (SyncBuckets a) t = (Ok 0, u) \<and> outer u = outer t \<and>
       stdout u = stdout t @ [''OK no-change''] \<and> did looks t u)"
proof -
  have rules: "list_all is_rule (cors_of cors (JStr n))" for n using desired_are_rules[OF assms(4)] .
  obtain t where t: "garage_main H (SyncBuckets a) s = (Ok 0, t)"
    "synced ns cors (bl (outer s)) (br (outer s)) (bl (outer t)) (br (outer t))"
    using sync_run[OF assms(1) rules assms(2,5)] assms(6)
    unfolding garage_main_def cmd.case do_sync_buckets_run[OF assms(3,4)] by auto
  moreover obtain u where "garage_main H (SyncBuckets a) t = (Ok 0, u)" "outer u = outer t"
    "stdout u = stdout t @ [''OK no-change'']" "did looks t u"
    using sync_settled[OF assms(1) rules synced_in_sync[OF t(2)]]
    unfolding garage_main_def cmd.case do_sync_buckets_run[OF assms(3,4)] by blast
  ultimately show ?thesis by blast
qed

text \<open>
  A server that keeps its buckets in a list, and reports a bucket's rules in canonical form.
\<close>

type_synonym shop = "(string \<times> string option \<times> json list) list"

definition shop_rules :: "shop \<Rightarrow> string \<Rightarrow> json list" where
  "shop_rules w i =
     (case dict_get w i of None \<Rightarrow> [] | Some (n, rules) \<Rightarrow> filter (\<lambda>r. fst (canonical_rule r ()) = Ok r) rules)"

definition shop_listing :: "shop \<Rightarrow> listing" where
  "shop_listing w = map (\<lambda>(i, n, rules). (i, n)) w"

definition shop_http :: "request \<Rightarrow> shop \<Rightarrow> reply \<times> shop" where
  "shop_http r w =
     (case (rq_query r, rq_body r) of
        ([], None) \<Rightarrow> (Answer 200 (Doc (JArr (map bucket_json (shop_listing w)))), w)
      | ([(k, JStr i)], None) \<Rightarrow> (Answer 200 (Doc (JObj [(''corsRules'', JArr (shop_rules w i))])), w)
      | ([], Some (JObj [(k, JStr n)])) \<Rightarrow>
          (let i = concat (map fst w) @ ''b'' in (Answer 200 (Doc (JObj [(''id'', JStr i)])), w @ [(i, Some n, [])]))
      | ([(k, JStr i)], Some (JObj [(c, JArr rules)])) \<Rightarrow>
          (Answer 200 (Doc JNull), map (\<lambda>(j, n, old). (j, n, if j = i then rules else old)) w)
      | _ \<Rightarrow> (HttpError 404 Empty, w))"

definition demo_spec :: json where
  "demo_spec =
     JArr [JObj [(''name'', JStr ''labels''), (''cors'', JArr [JObj [(''allowed_origins'', JArr [JStr ''https://x.org'']),
       (''allowed_methods'', JArr [JStr ''GET''])]])]]"

definition shop_host :: "shop host" where
  "shop_host =
     \<lparr>environ = \<lambda>v. Some ''secret'', subprocess = \<lambda>argv x. (Ok (1, [], []), x), http = shop_http, clock = \<lambda>w. 0,
      sleep = \<lambda>d w. w, fate = \<lambda>c w. (Go, w), torn = \<lambda>w. 0, random_name = \<lambda>w. ''tmp'', euid = (0, 0), sha256 = \<lambda>s. s,
      loads = \<lambda>s. Some demo_spec, exc_text = \<lambda>e. []\<rparr>"

lemma shop_rules_ok: "list_all is_rule (shop_rules w i)"
  unfolding shop_rules_def list_all_iff by (auto split: option.split dest: canonical_fixed)

lemma shop_server: "bucket_server shop_host port token shop_listing shop_rules"
  unfolding bucket_server_def
proof (intro conjI allI impI)
  fix w :: shop and i n rules
  show "http shop_host (rq port token ''GET'' ''/v2/ListBuckets'' [] None) w =
      (Answer 200 (Doc (JArr (map bucket_json (shop_listing w)))), w)"
    by (simp add: shop_host_def shop_http_def rq_def)
  show "\<exists>rep. http shop_host (rq port token ''GET'' ''/v2/GetBucketInfo'' [(''id'', JStr i)] None) w =
      (Answer 200 (Doc (JObj [(''corsRules'', rep)])), w) \<and> (\<forall>s :: shop box. cors_canonical rep s = (Ok (shop_rules w i), s))"
    by (simp add: shop_host_def shop_http_def rq_def retE_def cors_canonical_rules[OF shop_rules_ok])
  let ?i = "concat (map fst w) @ ''b''"
  have fresh: "?i \<notin> fst ` set (shop_listing w)"
  proof
    assume "?i \<in> fst ` set (shop_listing w)"
    then obtain b where "b \<in> set w" "fst b = ?i" by (auto simp: shop_listing_def)
    moreover have "length (fst b) \<le> length (concat (map fst w))" if "b \<in> set w" for b
      using that by (induction w) auto
    ultimately show False by fastforce
  qed
  then show "\<exists>i w'. i \<noteq> [] \<and> i \<notin> fst ` set (shop_listing w) \<and> shop_listing w' = shop_listing w @ [(i, Some n)] \<and>
      shop_rules w' = (shop_rules w)(i := []) \<and>
      http shop_host (rq port token ''POST'' ''/v2/CreateBucket'' [] (Some (JObj [(''globalAlias'', JStr n)]))) w =
        (Answer 200 (Doc (JObj [(''id'', JStr i)])), w')"
  proof (intro exI[of _ ?i] exI[of _ "w @ [(?i, Some n, [])]"] conjI)
    have "?i \<notin> fst ` set w" using fresh by (force simp: shop_listing_def)
    then have "map_of w ?i = None" by (simp add: map_of_eq_None_iff)
    then have "dict_get (w @ [(?i, Some n, [])]) x = (if x = ?i then Some (Some n, []) else dict_get w x)" for x
      by (simp add: dict_get_def map_add_def split: option.split)
    then show "shop_rules (w @ [(?i, Some n, [])]) = (shop_rules w)(?i := [])"
      by (simp add: shop_rules_def fun_eq_iff)
  qed (simp_all add: fresh shop_listing_def shop_host_def shop_http_def rq_def Let_def)
  assume i: "i \<in> fst ` set (shop_listing w)" and rules: "list_all is_rule rules"
  let ?w = "map (\<lambda>(j, n, old). (j, n, if j = i then rules else old)) w"
  have get: "dict_get ?w j = map_option (\<lambda>(n, old). (n, if j = i then rules else old)) (dict_get w j)" for j
    by (induction w) auto
  have "i \<in> set (dict_keys w)" using i by (force simp: shop_listing_def dict_keys_def)
  then have "\<exists>x. dict_get w i = Some x" by (simp add: dict_mem_iff)
  moreover have "filter (\<lambda>r. fst (canonical_rule r ()) = Ok r) rules = rules"
    using rules by (intro filter_True) (simp add: list_all_iff canonical_is_rule)
  ultimately have "shop_rules ?w = (shop_rules w)(i := rules)"
    by (auto simp: shop_rules_def get fun_eq_iff simp del: dict_get_eq_None split: option.split)
  moreover have "shop_listing ?w = shop_listing w" by (auto simp: shop_listing_def)
  ultimately show "\<exists>j w'. shop_listing w' = shop_listing w \<and> shop_rules w' = (shop_rules w)(i := rules) \<and>
      http shop_host (rq port token ''POST'' ''/v2/UpdateBucket'' [(''id'', JStr i)] (Some (JObj [(''corsRules'', JArr rules)]))) w =
        (Answer 200 (Doc j), w')"
    by (intro exI[of _ JNull] exI[of _ ?w]) (simp add: shop_host_def shop_http_def rq_def)
qed

definition demo_cors :: "(json \<times> json list) list" where
  "demo_cors =
     [(JStr ''labels'', [JObj [(''AllowedOrigin'', JArr [JStr ''https://x.org'']), (''AllowedMethod'', JArr [JStr ''GET'']),
       (''AllowedHeader'', JArr []), (''ExposeHeader'', JArr [])]])]"

lemma demo_desired: "desired_buckets demo_spec (u :: shop box) = (Ok (map JStr [''labels''], demo_cors), u)"
proof -
  have "(desired_buckets demo_spec :: (shop box, _) eff) = retE (map JStr [''labels''], demo_cors)"
    by (simp add: desired_buckets_def demo_spec_def iter_def as_bucket_def add_desired_def field_def iter_get_arr Let_def
        iter_get_def cors_api_rule_def demo_cors_def get_or_def get_key_def truthy_def is_one_of_def CORS_METHODS_def
        optional_def optional_int_def key_of_def hashable_def dict_set_def)
  then show ?thesis by (simp add: retE_def)
qed

definition shop_box :: "shop box" where
  "shop_box = \<lparr>files = \<lambda>p. None, outer = [(''a'', Some ''media'', [])], acts = [], stdout = []\<rparr>"

theorem buckets_converge_witness:
  "\<exists>t. garage_main shop_host (SyncBuckets \<lparr>sb_admin_port = ''3903'', sb_buckets_json = ''[]'', sb_check = False\<rparr>) shop_box = (Ok 0, t) \<and>
     id_of (shop_listing (outer t)) ''labels'' \<noteq> None \<and> prefix [(''a'', Some ''media'')] (shop_listing (outer t))"
proof -
  let ?a = "\<lparr>sb_admin_port = ''3903'', sb_buckets_json = ''[]'', sb_check = False\<rparr>"
  have "int_of_string ''3903'' = Some 3903" by code_simp
  then have "spec_names shop_host ?a 3903 demo_spec" by (simp add: spec_names_def shop_host_def getenv_def)
  moreover have "ok_listing (shop_listing (outer shop_box))" by (simp add: ok_listing_def shop_listing_def shop_box_def)
  ultimately obtain t where "garage_main shop_host (SyncBuckets ?a) shop_box = (Ok 0, t)"
    and "synced [''labels''] demo_cors (shop_listing (outer shop_box)) (shop_rules (outer shop_box))
      (shop_listing (outer t)) (shop_rules (outer t))"
    using buckets_converge[OF shop_server, of shop_box ?a 3903 demo_spec "[''labels'']" demo_cors] demo_desired by auto
  then show ?thesis by (auto simp: synced_def shop_box_def shop_listing_def)
qed

text \<open>
  A key that was rotated behind OpenBao's back is never touched: when Garage lists a key of the
  spec under another identifier than the one OpenBao holds, sync-keys exits with 1 (or an exception)
  and has sent only GET requests and changed no file; in particular nothing is imported, granted,
  denied or written, for this key or any other.
\<close>

theorem rotated_key_stops_sync:
  assumes "reports_key H n i" and "JObj k \<in> set specs" and "dict_get k ''name'' = Some (JStr n)"
    and "dict_get m n = Some (JObj c)" and "dict_get c ''access_key_id'' = Some want" and "want \<noteq> i"
    and "loads H (sk_keys_json a) = Some (JArr specs)"
    and "loads H (getenv H ''GARAGE_KEY_CREDENTIALS_JSON'') = Some (JObj m)"
  shows "did looks s (snd (garage_main H (SyncKeys a) s)) \<and> files (snd (garage_main H (SyncKeys a) s)) = files s \<and>
    (case fst (garage_main H (SyncKeys a) s) of Ok rc \<Rightarrow> rc = 1 | _ \<Rightarrow> True)"
  using do_sync_keys_mismatch[OF assms] unfolding garage_main_def cmd.case keeps_def looked_def yields_def
  by (auto split: res.split) (metis prod.collapse)+

definition key_host :: "unit host" where
  "key_host =
     \<lparr>environ = \<lambda>v. Some v, subprocess = \<lambda>argv x. (Ok (1, [], []), x),
      http = \<lambda>r w. (Answer 200 (Doc (JArr (if rq_path r = ''/v2/ListKeys''
        then [JObj [(''id'', JStr ''GK2''), (''name'', JStr ''app'')]] else []))), w),
      clock = \<lambda>w. 0, sleep = \<lambda>d w. w, fate = \<lambda>c w. (Go, w), torn = \<lambda>w. 0, random_name = \<lambda>w. ''tmp'', euid = (0, 0),
      sha256 = \<lambda>s. s,
      loads = \<lambda>s. Some (if s = ''GARAGE_KEY_CREDENTIALS_JSON''
        then JObj [(''app'', JObj [(''access_key_id'', JStr ''GK1''), (''secret_access_key'', JStr ''s'')])]
        else JArr [JObj [(''name'', JStr ''app'')]]),
      exc_text = \<lambda>e. []\<rparr>"

theorem rotated_key_stops_sync_witness:
  "did looks \<lparr>files = \<lambda>p. None, outer = (), acts = [], stdout = []\<rparr>
     (snd (garage_main key_host (SyncKeys \<lparr>sk_admin_port = ''3903'', sk_keys_json = ''keys'', sk_keys_dir = ''/keys'',
       sk_check = False\<rparr>) \<lparr>files = \<lambda>p. None, outer = (), acts = [], stdout = []\<rparr>))"
proof -
  have "reports_key key_host ''app'' (JStr ''GK2'')" by (auto simp: reports_key_def key_host_def)
  from rotated_key_stops_sync[OF this, where k = "[(''name'', JStr ''app'')]" and specs = "[JObj [(''name'', JStr ''app'')]]"
      and m = "[(''app'', JObj [(''access_key_id'', JStr ''GK1''), (''secret_access_key'', JStr ''s'')])]"
      and c = "[(''access_key_id'', JStr ''GK1''), (''secret_access_key'', JStr ''s'')]" and want = "JStr ''GK1''"]
  show ?thesis by (simp add: key_host_def getenv_def)
qed

end
