(* ===== verification/Webapi.thy ===== *)
theory Webapi
  imports Host
begin

text \<open>
  What the NAS appliers under \<open>ansible/synology/roles\<close> share. Each carries its own copy of the same
  helpers: \<open>_exec\<close> runs synowebapi and reads the JSON in its output, \<open>_bool\<close>, \<open>_args_from\<close> and
  \<open>_coerce_like\<close> convert values, \<open>_result\<close> prints the outcome. Most subcommands read an object of
  settings, compare the managed keys with the spec and write the whole object back; the locale
  \<open>settings\<close> shows once that such a program converges. synowebapi is the parameter
  \<open>subprocess\<close> of the host.
\<close>

section \<open>Calling synowebapi\<close>

type_synonym dict = "(string \<times> json) list"

definition WEBAPI :: string where
  "WEBAPI = ''/usr/syno/bin/synowebapi''"

definition webapi_argv :: "string \<Rightarrow> string list \<Rightarrow> string list" where
  "webapi_argv api params = [WEBAPI, ''--exec'', ''api='' @ api] @ params"

text \<open>The output from its first brace on.\<close>

definition from_brace :: "string \<Rightarrow> string option" where
  "from_brace s = (case dropWhile (\<lambda>c. c \<noteq> CHR 0x7B) s of [] \<Rightarrow> None | r \<Rightarrow> Some r)"

definition webapi_exec :: "'w host \<Rightarrow> string \<Rightarrow> string list \<Rightarrow> ('w box, json) eff" where
  "webapi_exec H api params =
     bindE (run_tool H (webapi_argv api params)) (\<lambda>(rc, out, err).
       case from_brace out of
         None \<Rightarrow> raiseE (RuntimeError (''no JSON in synowebapi output: '' @ (if out \<noteq> [] then out else err)))
       | Some txt \<Rightarrow> json_loads H txt)"

text \<open>\<open>_exec_get\<close>: the data with the error \<open>None\<close>, or \<open>None\<close> with the error's code.\<close>

definition webapi_get :: "'w host \<Rightarrow> string \<Rightarrow> string list \<Rightarrow> ('w box, json \<times> json) eff" where
  "webapi_get H api params =
     bindE (webapi_exec H api params) (\<lambda>resp. bindE (get_key ''success'' resp) (\<lambda>ok.
       if \<not> (case ok of None \<Rightarrow> False | Some v \<Rightarrow> truthy v) then
         bindE (get_or ''error'' resp (JObj [])) (\<lambda>e. bindE (get_key ''code'' e) (\<lambda>c.
           retE (JNull, case c of None \<Rightarrow> JNull | Some v \<Rightarrow> v)))
       else bindE (get_key ''data'' resp) (\<lambda>d.
         case d of
           None \<Rightarrow> raiseE (RuntimeError (''DSM API '' @ api @ '' GET returned success but no `data` key: '' @ dumps resp))
         | Some v \<Rightarrow> retE (v, JNull))))"

section \<open>Values\<close>

definition bool_text :: "string \<Rightarrow> bool" where
  "bool_text s = (lower (strip s) \<in> {''1'', ''true'', ''yes'', ''on''})"

text \<open>
  \<open>a == b\<close> of Python: booleans are numbers, and the order of an object's keys does not matter.
\<close>

fun py_same :: "json \<Rightarrow> json \<Rightarrow> bool" and all_same :: "json list \<Rightarrow> json list \<Rightarrow> bool" and in_dict :: "dict \<Rightarrow> dict \<Rightarrow> bool" where
  "py_same (JArr xs) b = (case b of JArr ys \<Rightarrow> all_same xs ys | _ \<Rightarrow> False)"
| "py_same (JObj d) b = (case b of JObj e \<Rightarrow> length d = length e \<and> in_dict d e | _ \<Rightarrow> False)"
| "py_same (JNum n) b = (case b of JNum m \<Rightarrow> n = m | JBool c \<Rightarrow> n = (if c then 1 else 0) | _ \<Rightarrow> False)"
| "py_same (JBool c) b = (case b of JNum m \<Rightarrow> m = (if c then 1 else 0) | JBool e \<Rightarrow> c = e | _ \<Rightarrow> False)"
| "py_same (JStr s) b = (b = JStr s)"
| "py_same JNull b = (b = JNull)"
| "all_same [] ys = (ys = [])"
| "all_same (x # xs) ys = (case ys of [] \<Rightarrow> False | y # ys' \<Rightarrow> py_same x y \<and> all_same xs ys')"
| "in_dict [] e = True"
| "in_dict (p # d) e = ((case dict_get e (fst p) of None \<Rightarrow> False | Some w \<Rightarrow> py_same (snd p) w) \<and> in_dict d e)"

text \<open>\<open>d.get(k)\<close> of a dictionary, where a missing key reads as \<open>None\<close>.\<close>

definition look :: "dict \<Rightarrow> string \<Rightarrow> json" where
  "look d k = (case dict_get d k of None \<Rightarrow> JNull | Some v \<Rightarrow> v)"

text \<open>One argument of \<open>_args_from\<close>, and all of them; a null is left out.\<close>

definition arg_value :: "json \<Rightarrow> string" where
  "arg_value v =
     (case v of
        JBool b \<Rightarrow> if b then ''true'' else ''false''
      | JArr xs \<Rightarrow> dumps (JArr xs) | JObj d \<Rightarrow> dumps (JObj d) | JStr s \<Rightarrow> dumps (JStr s)
      | _ \<Rightarrow> py_str v)"

definition args_from :: "dict \<Rightarrow> string list" where
  "args_from d = map (\<lambda>(k, v). k @ ''='' @ arg_value v) (filter (\<lambda>p. snd p \<noteq> JNull) d)"

text \<open>\<open>_coerce_like(target, current_val)\<close>: a difference of type only is not a difference.\<close>

definition coerce_like :: "json \<Rightarrow> json \<Rightarrow> json" where
  "coerce_like target cur =
     (if cur = JNull \<or> py_same cur target then cur
      else
        case (target, cur) of
          (JBool _, JBool _) \<Rightarrow> cur
        | (JBool _, JStr s) \<Rightarrow> JBool (bool_text s)
        | (JBool _, JNum n) \<Rightarrow> JBool (n \<noteq> 0)
        | (JNum _, JStr s) \<Rightarrow> (case int_of_string s of Some n \<Rightarrow> JNum n | None \<Rightarrow> cur)
        | (JStr _, JStr _) \<Rightarrow> cur
        | (JStr _, _) \<Rightarrow> JStr (py_str cur)
        | _ \<Rightarrow> cur)"

text \<open>The two ways to compare a setting with the wish: as it is, or after \<open>_coerce_like\<close>.\<close>

definition plainly :: "json \<Rightarrow> json \<Rightarrow> bool" where
  "plainly v cur = py_same cur v"

definition coerced :: "json \<Rightarrow> json \<Rightarrow> bool" where
  "coerced v cur = py_same (coerce_like v cur) v"

section \<open>Reading, comparing, writing\<close>

text \<open>The drift: the keys whose current value is not the desired one.\<close>

definition drift_of :: "(json \<Rightarrow> json \<Rightarrow> bool) \<Rightarrow> dict \<Rightarrow> dict \<Rightarrow> dict" where
  "drift_of eq cur desired =
     map (\<lambda>(k, v). (k, JObj [(''current'', look cur k), (''desired'', v)]))
       (filter (\<lambda>(k, v). \<not> eq v (look cur k)) desired)"

text \<open>As the comprehension computes it: \<open>current.get\<close> is first called for the first desired key.\<close>

definition differ :: "(json \<Rightarrow> json \<Rightarrow> bool) \<Rightarrow> json \<Rightarrow> dict \<Rightarrow> ('s, dict) eff" where
  "differ eq current desired =
     (if desired = [] then retE []
      else case current of JObj d \<Rightarrow> retE (drift_of eq d desired) | _ \<Rightarrow> raiseE AttributeError)"

text \<open>\<open>current.update(desired)\<close>.\<close>

definition merge :: "dict \<Rightarrow> dict \<Rightarrow> dict" where
  "merge d e = fold (\<lambda>(k, v). dict_set k v) e d"

definition update :: "json \<Rightarrow> dict \<Rightarrow> ('s, dict) eff" where
  "update current desired = (case current of JObj d \<Rightarrow> retE (merge d desired) | _ \<Rightarrow> raiseE AttributeError)"

definition is_success :: "json \<Rightarrow> ('s, bool) eff" where
  "is_success res = bindE (get_key ''success'' res) (\<lambda>ok. retE (case ok of None \<Rightarrow> False | Some v \<Rightarrow> truthy v))"

definition result :: "dict \<Rightarrow> bool \<Rightarrow> ('w box, json) eff \<Rightarrow> ('w box, int) eff" where
  "result drift check apply_fn =
     (if drift = [] then bindE (say ''OK no-change'') (\<lambda>_. retE 0)
      else if check then bindE (say (''WOULD-CHANGE '' @ dumps (sort_keys (JObj drift)))) (\<lambda>_. retE 0)
      else bindE apply_fn (\<lambda>res. bindE (is_success res) (\<lambda>ok.
        if ok then bindE (say (''CHANGED '' @ dumps (sort_keys (JObj drift)))) (\<lambda>_. retE 0)
        else bindE (say (''FAIL '' @ dumps res)) (\<lambda>_. retE 1))))"

definition version :: "int \<Rightarrow> string" where
  "version n = ''version='' @ str_int n"

text \<open>The most common subcommand: get the object, overlay the desired keys, set the whole object.\<close>

definition overlay ::
  "'w host \<Rightarrow> (json \<Rightarrow> json \<Rightarrow> bool) \<Rightarrow> string \<Rightarrow> string list \<Rightarrow> string list \<Rightarrow> dict \<Rightarrow> bool \<Rightarrow> ('w box, int) eff" where
  "overlay H eq api get_params set_params desired check =
     bindE (webapi_exec H api get_params) (\<lambda>resp. bindE (field ''data'' resp) (\<lambda>current.
     bindE (differ eq current desired) (\<lambda>drift.
       result drift check
         (bindE (update current desired) (\<lambda>d. webapi_exec H api (set_params @ args_from d))))))"

definition apply_full :: "'w host \<Rightarrow> string \<Rightarrow> int \<Rightarrow> dict \<Rightarrow> bool \<Rightarrow> ('w box, int) eff" where
  "apply_full H api ver desired check =
     overlay H plainly api [version ver, ''method=get''] [version ver, ''method=set''] desired check"

text \<open>The settings that flags ask for: a flag that was not given asks for nothing.\<close>

definition wants :: "(string \<times> json option) list \<Rightarrow> dict" where
  "wants fs = concat (map (\<lambda>(k, v). case v of None \<Rightarrow> [] | Some j \<Rightarrow> [(k, j)]) fs)"

definition flag :: "string option \<Rightarrow> json option" where
  "flag a = map_option (\<lambda>s. JBool (bool_text s)) a"

definition str_flag :: "string option \<Rightarrow> json option" where
  "str_flag a = map_option JStr a"

text \<open>A table of flags, each with the key it sets and how its text is read.\<close>

datatype cast = CBool | CInt | CStr

definition cast_text :: "cast \<Rightarrow> string \<Rightarrow> ('s, json) eff" where
  "cast_text c s =
     (case c of CBool \<Rightarrow> retE (JBool (bool_text s)) | CInt \<Rightarrow> bindE (int_of_text s) (\<lambda>n. retE (JNum n)) | CStr \<Rightarrow> retE (JStr s))"

definition cast_flags :: "(string \<times> string \<times> cast) list \<Rightarrow> (string \<Rightarrow> string option) \<Rightarrow> ('s, dict) eff" where
  "cast_flags table flags =
     bindE (mapE (\<lambda>(f, key, c).
         case flags f of None \<Rightarrow> retE [] | Some v \<Rightarrow> bindE (cast_text c v) (\<lambda>j. retE [(key, j)])) table)
       (\<lambda>xs. retE (concat xs))"

text \<open>The lines that report a failure and that there is nothing to do.\<close>

definition say_fail :: "json \<Rightarrow> ('w box, int) eff" where
  "say_fail j = bindE (say (''FAIL '' @ dumps j)) (\<lambda>_. retE 1)"

definition no_change :: "('w box, int) eff" where
  "no_change = bindE (say ''OK no-change'') (\<lambda>_. retE 0)"

definition is_RuntimeError :: "exc \<Rightarrow> bool" where
  "is_RuntimeError e = (case e of RuntimeError _ \<Rightarrow> True | _ \<Rightarrow> False)"

end
