(* ===== verification/Webapi_Facts.thy ===== *)
theory Webapi_Facts
  imports Webapi
begin

text \<open>
  What holds of every program built from \<open>webapi_exec\<close>: which calls it makes, and, in the locale
  \<open>settings\<close>, that reading, comparing and writing back converges.
\<close>

section \<open>Reading calls\<close>

text \<open>A call that only reads: one of the reading methods of a web API, or a listing of a tool.\<close>

definition reads :: "act \<Rightarrow> bool" where
  "reads a =
     (case a of
        Cmd argv \<Rightarrow>
          (length argv > 4 \<and> argv ! 0 = WEBAPI \<and> argv ! 1 = ''--exec'' \<and> argv ! 4 \<in> {''method=get'', ''method=list'', ''method=load''}) \<or>
          (length argv > 1 \<and> argv ! 1 \<in> {''--list_acl'', ''--get'', ''--get-share'', ''is_onoff''})
      | Sys (Stat p) \<Rightarrow> True | Sys (ReadFile p) \<Rightarrow> True | _ \<Rightarrow> False)"

lemma reads_webapi:
  "m \<in> {''method=get'', ''method=list'', ''method=load''} \<Longrightarrow> reads (Cmd (webapi_argv api (v # m # ps)))"
  by (simp add: reads_def webapi_argv_def WEBAPI_def del: append.simps) auto

lemma reads_sys [simp]: "reads (Sys (Stat p))" "reads (Sys (ReadFile p))"
  by (simp_all add: reads_def)

lemma does_webapi_exec: "A (Cmd (webapi_argv api ps)) \<Longrightarrow> keeps (did A) (webapi_exec H api ps)"
  unfolding webapi_exec_def by (auto intro!: does_rules split: option.split)

lemma does_values:
  "keeps (did A) (differ eq cur des)" "keeps (did A) (update cur des)" "keeps (did A) (is_success res)"
  "keeps (did A) (say_fail j)" "keeps (did A) no_change" "keeps (did A) (cast_text c s)" "keeps (did A) (cast_flags table fl)"
  unfolding differ_def update_def is_success_def say_fail_def no_change_def cast_text_def cast_flags_def
  by (auto intro!: does_rules split: json.split option.split cast.split)

lemma does_webapi_get: "A (Cmd (webapi_argv api ps)) \<Longrightarrow> keeps (did A) (webapi_get H api ps)"
  unfolding webapi_get_def by (auto intro!: does_rules does_webapi_exec split: option.split)

lemma does_web_result:
  "check \<or> keeps (did A) m \<Longrightarrow> keeps (did A) (result drift check m)"
  unfolding result_def by (auto intro!: does_rules does_values)

lemma does_overlay:
  assumes "A (Cmd (webapi_argv api gp))" and "\<And>d. \<not> check \<Longrightarrow> A (Cmd (webapi_argv api (sp @ args_from d)))"
  shows "keeps (did A) (overlay H eq api gp sp des check)"
  unfolding overlay_def using assms
  by (cases check) (auto intro!: does_rules does_values does_web_result does_webapi_exec)

lemmas does_web = does_webapi_exec does_values does_webapi_get does_web_result does_overlay

section \<open>Dictionaries\<close>

lemma dict_get_merge:
  "distinct (map fst e) \<Longrightarrow> dict_get (merge d e) k = (case dict_get e k of Some v \<Rightarrow> Some v | None \<Rightarrow> dict_get d k)"
proof (induction e arbitrary: d)
  case Nil
  show ?case by (simp add: merge_def)
next
  case (Cons p e)
  obtain a b where p: "p = (a, b)" by (cases p)
  have "dict_get (merge (dict_set a b d) e) k = (case dict_get e k of Some v \<Rightarrow> Some v | None \<Rightarrow> dict_get (dict_set a b d) k)"
    using Cons by simp
  moreover have "dict_get e a = None" using Cons.prems by (simp add: p dict_keys_def)
  ultimately show ?case by (auto simp: merge_def p simp del: dict_get_eq_None split: option.split)
qed

lemma look_merge:
  "distinct (map fst e) \<Longrightarrow> look (merge d e) k = (if k \<in> fst ` set e then look e k else look d k)"
  using dict_get_merge[of e d k]
  by (auto simp: look_def dict_keys_def split: option.splits)
     (metis dict_get_eq_None dict_keys_def image_set option.distinct(1))+

lemma look_desired: "distinct (map fst e) \<Longrightarrow> (k, v) \<in> set e \<Longrightarrow> look e k = v"
  by (simp add: look_def dict_get_def)

section \<open>What a web API of settings does\<close>

text \<open>A command that answers with a document.\<close>

definition answers :: "'w host \<Rightarrow> string list \<Rightarrow> tree \<Rightarrow> 'w \<Rightarrow> json \<Rightarrow> 'w \<Rightarrow> bool" where
  "answers H argv fs w j w' \<longleftrightarrow>
     (\<exists>rc out err doc. subprocess H argv (fs, w) = (Ok (rc, out, err), (fs, w')) \<and> from_brace out = Some doc \<and> loads H doc = Some j)"

text \<open>A call that succeeds, with its answer.\<close>

definition succeeds :: "'w host \<Rightarrow> string list \<Rightarrow> tree \<Rightarrow> 'w \<Rightarrow> dict \<Rightarrow> 'w \<Rightarrow> bool" where
  "succeeds H argv fs w r w' \<longleftrightarrow> answers H argv fs w (JObj r) w' \<and> truthy (look r ''success'')"

text \<open>
  The object behind a web API, seen as the value of each of its keys. Getting returns it; setting an
  object stores the values in it, provided it is one that \<open>enough\<close> allows: DSM refuses an object that is not
  complete with error 2001.
\<close>

definition settings_api ::
  "'w host \<Rightarrow> ('w \<Rightarrow> string \<Rightarrow> json) \<Rightarrow> string \<Rightarrow> string list \<Rightarrow> (dict \<Rightarrow> string list) \<Rightarrow>
   ((string \<Rightarrow> json) \<Rightarrow> dict \<Rightarrow> bool) \<Rightarrow> bool" where
  "settings_api H view api gp sp enough \<longleftrightarrow>
     (\<forall>fs w. \<exists>r d w'. succeeds H (webapi_argv api gp) fs w r w' \<and> look r ''data'' = JObj d \<and> look d = view w \<and> view w' = view w) \<and>
     (\<forall>fs w p. enough (view w) p \<longrightarrow>
        (\<exists>r w'. succeeds H (webapi_argv api (sp p)) fs w r w' \<and>
           view w' = (\<lambda>k. if look p k = JNull then view w k else look p k)))"

text \<open>The whole object with the wish over it, which is what the programs send.\<close>

definition overlaid :: "dict \<Rightarrow> (string \<Rightarrow> json) \<Rightarrow> string \<Rightarrow> json" where
  "overlaid desired v k = (if k \<in> fst ` set desired then look desired k else v k)"

definition asks :: "dict \<Rightarrow> (string \<Rightarrow> json) \<Rightarrow> dict \<Rightarrow> bool" where
  "asks desired v p \<longleftrightarrow> look p = overlaid desired v"

text \<open>What of a wish is not as it should be.\<close>

definition unmet :: "(json \<Rightarrow> json \<Rightarrow> bool) \<Rightarrow> dict \<Rightarrow> (string \<Rightarrow> json) \<Rightarrow> dict" where
  "unmet eq desired v =
     map (\<lambda>(k, x). (k, JObj [(''current'', v k), (''desired'', x)])) (filter (\<lambda>(k, x). \<not> eq x (v k)) desired)"

lemma unmet_Nil_iff: "unmet eq desired v = [] \<longleftrightarrow> (\<forall>(k, x)\<in>set desired. eq x (v k))"
  by (auto simp: unmet_def filter_empty_conv)

lemma exec_answers:
  assumes "answers H (webapi_argv api ps) (files s) (outer s) j w'"
  shows "webapi_exec H api ps s = (Ok j, s\<lparr>outer := w', acts := acts s @ [Cmd (webapi_argv api ps)]\<rparr>)"
proof -
  obtain rc out err doc where 1: "subprocess H (webapi_argv api ps) (files s, outer s) = (Ok (rc, out, err), (files s, w'))"
    and 2: "from_brace out = Some doc" "loads H doc = Some j"
    using assms unfolding answers_def by blast
  show ?thesis
    unfolding webapi_exec_def bindE_def run_tool_def 1 by (simp add: 2 json_loads_def retE_def)
qed

lemma look_SomeD: "look r k = v \<Longrightarrow> v \<noteq> JNull \<Longrightarrow> dict_get r k = Some v"
  by (auto simp: look_def split: option.splits)

lemma field_look: "look r k = v \<Longrightarrow> v \<noteq> JNull \<Longrightarrow> field k (JObj r) = retE v"
  by (simp add: field_def look_SomeD)

lemma is_success_look: "is_success (JObj r) = retE (truthy (look r ''success''))"
  by (simp add: is_success_def get_key_def look_def truthy_def del: dict_get_eq_None split: option.split)

lemma settings_get:
  assumes "settings_api H view api gp sp enough"
  shows "\<exists>r d t. webapi_exec H api gp s = (Ok (JObj r), t) \<and> truthy (look r ''success'') \<and> look r ''data'' = JObj d \<and>
    look d = view (outer s) \<and> view (outer t) = view (outer s) \<and> stdout t = stdout s"
proof -
  obtain r d w' where "succeeds H (webapi_argv api gp) (files s) (outer s) r w'"
    and rest: "look r ''data'' = JObj d" "look d = view (outer s)" "view w' = view (outer s)"
    using assms unfolding settings_api_def by blast
  then have 1: "answers H (webapi_argv api gp) (files s) (outer s) (JObj r) w'" and 2: "truthy (look r ''success'')"
    unfolding succeeds_def by blast+
  show ?thesis
    using exec_answers[OF 1] 2 rest by (intro exI[of _ r] exI[of _ d] exI) auto
qed

lemma settings_set:
  assumes "settings_api H view api gp sp enough" and "enough (view (outer s)) p"
  shows "\<exists>r t. webapi_exec H api (sp p) s = (Ok (JObj r), t) \<and> truthy (look r ''success'') \<and>
    view (outer t) = (\<lambda>k. if look p k = JNull then view (outer s) k else look p k) \<and> stdout t = stdout s"
proof -
  obtain r w' where "succeeds H (webapi_argv api (sp p)) (files s) (outer s) r w'"
    and rest: "view w' = (\<lambda>k. if look p k = JNull then view (outer s) k else look p k)"
    using assms unfolding settings_api_def by blast
  then have 1: "answers H (webapi_argv api (sp p)) (files s) (outer s) (JObj r) w'" and 2: "truthy (look r ''success'')"
    unfolding succeeds_def by blast+
  show ?thesis
    using exec_answers[OF 1] 2 rest by (intro exI[of _ r] exI) auto
qed

section \<open>Programs that read, compare and write back\<close>

text \<open>
  \<open>prog\<close> under the law \<open>law\<close> of its API: it reads an object, \<open>gap\<close> says what differs from the wish,
  and writing makes the settings \<open>target\<close> of the old ones.
\<close>

locale settings =
  fixes law :: "'w host \<Rightarrow> ('w \<Rightarrow> string \<Rightarrow> json) \<Rightarrow> bool"
    and prog :: "'w host \<Rightarrow> bool \<Rightarrow> ('w box, int) eff"
    and get_object :: "'w host \<Rightarrow> ('w box, json) eff"
    and compare :: "json \<Rightarrow> ('w box, dict) eff"
    and put_object :: "'w host \<Rightarrow> json \<Rightarrow> ('w box, json) eff"
    and gap :: "(string \<Rightarrow> json) \<Rightarrow> dict"
    and target :: "(string \<Rightarrow> json) \<Rightarrow> string \<Rightarrow> json"
  assumes shape: "law H view \<Longrightarrow> prog H check s =
      bindE (get_object H) (\<lambda>cur. bindE (compare cur) (\<lambda>drift. result drift check (put_object H cur))) s"
    and gets: "law H view \<Longrightarrow> \<exists>d t. get_object H s = (Ok (JObj d), t) \<and> look d = view (outer s) \<and>
      view (outer t) = view (outer s) \<and> stdout t = stdout s"
    and compares: "compare (JObj d) = retE (gap (look d))"
    and puts: "law H view \<Longrightarrow> look d = view (outer s) \<Longrightarrow> gap (look d) \<noteq> [] \<Longrightarrow>
      \<exists>r t. put_object H (JObj d) s = (Ok (JObj r), t) \<and> truthy (look r ''success'') \<and>
        view (outer t) = target (view (outer s)) \<and> stdout t = stdout s"
    and settles: "gap (target v) = []"
begin

lemma settled:
  assumes "law H view" and "gap (view (outer s)) = []"
  shows "\<exists>t. prog H check s = (Ok 0, t) \<and> view (outer t) = view (outer s) \<and> stdout t = stdout s @ [''OK no-change'']"
proof -
  obtain d t where 1: "get_object H s = (Ok (JObj d), t)" and d: "look d = view (outer s)"
    and t: "view (outer t) = view (outer s)" "stdout t = stdout s"
    using gets[OF assms(1)] by blast
  have "compare (JObj d) = retE []" using compares assms(2) d by simp
  then have "prog H check s = (Ok 0, t\<lparr>stdout := stdout t @ [''OK no-change'']\<rparr>)"
    by (simp add: shape[OF assms(1)] bindE_def 1 retE_def result_def say_def modE_def)
  then show ?thesis using t by (intro exI[of _ "t\<lparr>stdout := stdout t @ [''OK no-change'']\<rparr>"]) simp
qed

lemma writes_target:
  assumes "law H view" and "gap (view (outer s)) \<noteq> []"
  shows "\<exists>t. prog H False s = (Ok 0, t) \<and> view (outer t) = target (view (outer s))"
proof -
  obtain d t where 1: "get_object H s = (Ok (JObj d), t)" and d: "look d = view (outer s)" "look d = view (outer t)"
    using gets[OF assms(1), of s] by metis
  have 2: "compare (JObj d) = retE (gap (look d))" and g: "gap (look d) \<noteq> []"
    using compares assms(2) d by simp_all
  obtain r u where 3: "put_object H (JObj d) t = (Ok (JObj r), u)" "truthy (look r ''success'')"
    and u: "view (outer u) = target (view (outer t))"
    using puts[OF assms(1) d(2) g] by blast
  show ?thesis
    using u d g 2
    by (simp add: shape[OF assms(1)] bindE_def 1 2 3 retE_def result_def say_def modE_def is_success_look)
qed

text \<open>One run reaches the wish, and a second one finds nothing to do.\<close>

lemma converges:
  assumes "law H view"
  shows "\<exists>t. prog H False s = (Ok 0, t) \<and> gap (view (outer t)) = [] \<and>
    (\<exists>u. prog H check t = (Ok 0, u) \<and> view (outer u) = view (outer t) \<and> stdout u = stdout t @ [''OK no-change''])"
proof (cases "gap (view (outer s)) = []")
  case True
  obtain t where "prog H False s = (Ok 0, t)" "view (outer t) = view (outer s)"
    using settled[OF assms True] by blast
  with True settled[OF assms, of t check] show ?thesis by auto
next
  case False
  obtain t where t: "prog H False s = (Ok 0, t)" "view (outer t) = target (view (outer s))"
    using writes_target[OF assms False] by blast
  with settles settled[OF assms, of t check] show ?thesis by auto
qed

end

section \<open>Subcommands of the common form\<close>

definition scalar :: "json \<Rightarrow> bool" where
  "scalar j = (case j of JBool _ \<Rightarrow> True | JNum _ \<Rightarrow> True | JStr _ \<Rightarrow> True | _ \<Rightarrow> False)"

lemma scalar_same: "scalar v \<Longrightarrow> plainly v v" "scalar v \<Longrightarrow> coerced v v" "scalar v \<Longrightarrow> v \<noteq> JNull"
  by (auto simp: scalar_def plainly_def coerced_def coerce_like_def split: json.splits)

text \<open>A wish: keys that differ, each with a scalar value.\<close>

locale wish =
  fixes eq :: "json \<Rightarrow> json \<Rightarrow> bool" and api :: string and gp sp :: "string list" and desired :: dict
  assumes distinct: "distinct (map fst desired)"
    and scalars: "list_all (scalar \<circ> snd) desired"
    and same: "scalar v \<Longrightarrow> eq v v"
begin

lemma not_null: "k \<in> fst ` set desired \<Longrightarrow> look desired k \<noteq> JNull"
  using scalars look_desired[OF distinct] by (auto simp: list_all_iff dest: scalar_same(3)) (metis scalar_same(3) snd_conv)

lemma overlaid_settles: "unmet eq desired (overlaid desired v) = []"
proof -
  have "eq x (overlaid desired v k)" if "(k, x) \<in> set desired" for k x
    using that scalars same look_desired[OF distinct that] by (force simp: overlaid_def list_all_iff)
  then show ?thesis by (auto simp: unmet_Nil_iff)
qed

lemma unmet_differ: "differ eq (JObj d) desired = retE (unmet eq desired (look d))"
  by (auto simp: differ_def drift_of_def unmet_def)

lemma merged: "look (merge d desired) = overlaid desired (look d)"
  using look_merge[OF distinct] by (auto simp: overlaid_def)

lemma merged_sets:
  assumes "settings_api H view api gp (\<lambda>p. sp @ args_from p) (asks desired)" and "look d = view (outer s)"
  shows "\<exists>r t. bindE (update (JObj d) desired) (\<lambda>p. webapi_exec H api (sp @ args_from p)) s = (Ok (JObj r), t) \<and>
    truthy (look r ''success'') \<and> view (outer t) = overlaid desired (view (outer s)) \<and> stdout t = stdout s"
proof -
  have "asks desired (view (outer s)) (merge d desired)"
    using assms(2) by (simp add: asks_def merged)
  from settings_set[OF assms(1) this] show ?thesis
    using assms(2) not_null by (auto simp: update_def merged overlaid_def fun_eq_iff)
qed

end

sublocale wish \<subseteq> settings "\<lambda>H view. settings_api H view api gp (\<lambda>p. sp @ args_from p) (asks desired)"
    "\<lambda>H. overlay H eq api gp sp desired" "\<lambda>H. bindE (webapi_exec H api gp) (field ''data'')"
    "\<lambda>cur. differ eq cur desired" "\<lambda>H cur. bindE (update cur desired) (\<lambda>p. webapi_exec H api (sp @ args_from p))"
    "unmet eq desired" "overlaid desired"
proof
  show "overlay H eq api gp sp desired check s =
      bindE (bindE (webapi_exec H api gp) (field ''data''))
        (\<lambda>cur. bindE (differ eq cur desired) (\<lambda>drift. result drift check (bindE (update cur desired) (\<lambda>p. webapi_exec H api (sp @ args_from p))))) s"
    for H check and s :: "'a box"
    by (simp add: overlay_def bindE_assoc)
  show "\<exists>d t. bindE (webapi_exec H api gp) (field ''data'') s = (Ok (JObj d), t) \<and> look d = view (outer s) \<and>
      view (outer t) = view (outer s) \<and> stdout t = stdout s"
    if law: "settings_api H view api gp (\<lambda>p. sp @ args_from p) (asks desired)" for H :: "'a host" and view s
    using settings_get[OF law, of s] by (auto simp: bindE_def field_look retE_def)
qed (simp add: unmet_differ, erule (1) merged_sets, rule overlaid_settles)

end
