(* ===== verification/Dsm_Services.thy ===== *)
theory Dsm_Services
  imports Webapi
begin

text \<open>
  The appliers of services and notifications, each a record of its parsed flags and one definition per
  subcommand: \<open>apply_services.py\<close> (FTP, AFP, SNMP), \<open>apply_notifications.py\<close>, \<open>apply_dsm_web.py\<close>,
  \<open>apply_external_access.py\<close>, \<open>apply_smb.py\<close>, \<open>apply_nfs.py\<close> and \<open>apply_snapshots.py\<close>. A flag that
  may be missing is an option. Warnings on the error output are not part of the state.
\<close>

section \<open>\<open>apply_services.py\<close>\<close>

definition dict_del :: "string \<Rightarrow> dict \<Rightarrow> dict" where
  "dict_del k d = filter (\<lambda>p. fst p \<noteq> k) d"

definition APIS :: "(string \<times> string \<times> int) list" where
  "APIS = [(''ftp'', ''SYNO.Core.FileServ.FTP'', 1), (''afp'', ''SYNO.Core.FileServ.AFP'', 1), (''snmp'', ''SYNO.Core.SNMP'', 1)]"

definition apply_service :: "'w host \<Rightarrow> string \<Rightarrow> dict \<Rightarrow> bool \<Rightarrow> ('w box, int) eff" where
  "apply_service H svc desired check =
     (case dict_get APIS svc of
        None \<Rightarrow> raiseE KeyError
      | Some (api, ver) \<Rightarrow>
          overlay H plainly api [version ver, ''method=get''] [version ver, ''method=set''] desired check)"

record ftp_args =
  ft_enable_ftp :: "string option"
  ft_enable_ftps :: "string option"
  ft_check :: bool

definition do_ftp :: "'w host \<Rightarrow> ftp_args \<Rightarrow> ('w box, int) eff" where
  "do_ftp H a =
     apply_service H ''ftp'' (wants [(''enable_ftp'', flag (ft_enable_ftp a)), (''enable_ftps'', flag (ft_enable_ftps a))]) (ft_check a)"

record afp_args =
  af_enable :: "string option"
  af_check :: bool

definition do_afp :: "'w host \<Rightarrow> afp_args \<Rightarrow> ('w box, int) eff" where
  "do_afp H a = apply_service H ''afp'' (wants [(''enable_afp'', flag (af_enable a))]) (af_check a)"

record snmp_args =
  sn_enable :: "string option"
  sn_v1v2 :: "string option"
  sn_v3 :: "string option"
  sn_contact :: "string option"
  sn_location :: "string option"
  sn_name :: "string option"
  sn_rouser :: "string option"
  sn_v3_auth_protocol :: "string option"
  sn_v3_auth_password :: "string option"
  sn_v3_priv_protocol :: "string option"
  sn_v3_priv_password :: "string option"
  sn_check :: bool

text \<open>\<open>s or dflt\<close> for an optional text.\<close>

definition or_text :: "string option \<Rightarrow> string \<Rightarrow> string" where
  "or_text s dflt = (case s of Some t \<Rightarrow> if t = [] then dflt else t | None \<Rightarrow> dflt)"

definition given :: "string option \<Rightarrow> bool" where
  "given s = (or_text s [] \<noteq> [])"

definition snmp_base :: "snmp_args \<Rightarrow> dict" where
  "snmp_base a =
     wants [(''enable_snmp'', flag (sn_enable a)), (''enable_snmp_v1v2'', flag (sn_v1v2 a)), (''enable_snmp_v3'', flag (sn_v3 a)),
       (''contact'', str_flag (sn_contact a)), (''location'', str_flag (sn_location a)), (''name'', str_flag (sn_name a))]"

text \<open>
  With version 3 wanted and credentials given they are set too; without them enabling it is put off,
  and so is everything else when the daemon would have no protocol to speak.
\<close>

definition snmp_desired :: "snmp_args \<Rightarrow> dict" where
  "snmp_desired a =
     (let d = snmp_base a in
      if truthy (look d ''enable_snmp_v3'') then
        if given (sn_v3_auth_password a) \<and> given (sn_v3_priv_password a) \<and> given (sn_rouser a) then
          merge d
            [(''rouser'', JStr (or_text (sn_rouser a) [])),
             (''v3_auth_proto'', JStr (or_text (sn_v3_auth_protocol a) ''SHA'')),
             (''v3_auth_passwd'', JStr (or_text (sn_v3_auth_password a) [])),
             (''v3_priv_proto'', JStr (or_text (sn_v3_priv_protocol a) ''AES'')),
             (''v3_priv_passwd'', JStr (or_text (sn_v3_priv_password a) []))]
        else
          let e = dict_del ''enable_snmp_v3'' d in
          if truthy (look e ''enable_snmp'') \<and> \<not> bool_text (or_text (sn_v1v2 a) ''false'') then [] else e
      else case sn_rouser a of None \<Rightarrow> d | Some u \<Rightarrow> dict_set ''rouser'' (JStr u) d)"

definition do_snmp :: "'w host \<Rightarrow> snmp_args \<Rightarrow> ('w box, int) eff" where
  "do_snmp H a = apply_service H ''snmp'' (snmp_desired a) (sn_check a)"

section \<open>\<open>apply_notifications.py\<close>\<close>

definition MAIL_API :: string where
  "MAIL_API = ''SYNO.Core.Notification.Mail.Conf''"

record mail_args =
  ml_enable :: "string option"
  ml_oauth :: "string option"
  ml_sender_mail :: "string option"
  ml_sender_name :: "string option"
  ml_subject_prefix :: "string option"
  ml_smtp_server :: "string option"
  ml_smtp_port :: "string option"
  ml_smtp_ssl :: "string option"
  ml_auth_user :: "string option"
  ml_check :: bool

text \<open>\<open>dict(cur.get(k) or {})\<close>, where a list of pairs is not modelled.\<close>

definition object_or_empty :: "string \<Rightarrow> json \<Rightarrow> ('s, dict) eff" where
  "object_or_empty k cur =
     bindE (get_or k cur (JObj [])) (\<lambda>v. case v of JObj d \<Rightarrow> retE d | JArr _ \<Rightarrow> raiseE TypeError | JStr _ \<Rightarrow> raiseE ValueError | _ \<Rightarrow> raiseE TypeError)"

definition smtp_info :: "'w host \<Rightarrow> mail_args \<Rightarrow> ('w box, dict) eff" where
  "smtp_info H a =
     (if ml_smtp_server a = None \<and> ml_smtp_port a = None \<and> ml_smtp_ssl a = None then retE []
      else
        bindE (webapi_exec H MAIL_API [version 2, ''method=get'']) (\<lambda>resp. bindE (field ''data'' resp) (\<lambda>cur.
        bindE (object_or_empty ''smtp_info'' cur) (\<lambda>smtp.
        bindE (case ml_smtp_port a of None \<Rightarrow> retE None | Some p \<Rightarrow> bindE (int_of_text p) (\<lambda>n. retE (Some (JNum n)))) (\<lambda>port.
          retE [(''smtp_info'',
            JObj (merge smtp (wants [(''server'', str_flag (ml_smtp_server a)), (''port'', port), (''ssl'', flag (ml_smtp_ssl a))])))])))))"

definition smtp_auth :: "'w host \<Rightarrow> mail_args \<Rightarrow> ('w box, dict) eff" where
  "smtp_auth H a =
     (case ml_auth_user a of
        None \<Rightarrow> retE []
      | Some u \<Rightarrow>
          bindE (webapi_exec H MAIL_API [version 2, ''method=get'']) (\<lambda>resp. bindE (field ''data'' resp) (\<lambda>cur.
          bindE (object_or_empty ''smtp_auth'' cur) (\<lambda>auth.
            retE [(''smtp_auth'', JObj (merge auth [(''user'', JStr u), (''enable'', JBool True)]))]))))"

definition do_mail :: "'w host \<Rightarrow> mail_args \<Rightarrow> ('w box, int) eff" where
  "do_mail H a =
     bindE (smtp_info H a) (\<lambda>smtp. bindE (smtp_auth H a) (\<lambda>auth.
       apply_full H MAIL_API 2
         (wants [(''enable_mail'', flag (ml_enable a)), (''enable_oauth'', flag (ml_oauth a)),
            (''sender_mail'', str_flag (ml_sender_mail a)), (''sender_name'', str_flag (ml_sender_name a)),
            (''subject_prefix'', str_flag (ml_subject_prefix a))] @ smtp @ auth)
         (ml_check a)))"

record toggle_args =
  tg_enable :: "string option"
  tg_check :: bool

definition do_sms :: "'w host \<Rightarrow> toggle_args \<Rightarrow> ('w box, int) eff" where
  "do_sms H a = apply_full H ''SYNO.Core.Notification.SMS.Conf'' 2 (wants [(''enable_sms'', flag (tg_enable a))]) (tg_check a)"

record push_args =
  pu_msn :: "string option"
  pu_skype :: "string option"
  pu_mobile :: "string option"
  pu_check :: bool

definition do_push :: "'w host \<Rightarrow> push_args \<Rightarrow> ('w box, int) eff" where
  "do_push H a =
     apply_full H ''SYNO.Core.Notification.Push.Conf'' 1
       (wants [(''msn_enable'', flag (pu_msn a)), (''skype_enable'', flag (pu_skype a)), (''mobile_enable'', flag (pu_mobile a))])
       (pu_check a)"

definition do_cms :: "'w host \<Rightarrow> toggle_args \<Rightarrow> ('w box, int) eff" where
  "do_cms H a = apply_full H ''SYNO.Core.Notification.CMS.Conf'' 2 (wants [(''cms_enable'', flag (tg_enable a))]) (tg_check a)"

section \<open>\<open>apply_dsm_web.py\<close>\<close>

definition DSM_API :: string where
  "DSM_API = ''SYNO.Core.Web.DSM''"

definition TLS_API :: string where
  "TLS_API = ''SYNO.Core.Web.Security.TLSProfile''"

definition TLS_LEVELS :: "(string \<times> int) list" where
  "TLS_LEVELS = [(''modern'', 0), (''intermediate'', 1), (''old'', 2)]"

definition WEB_FIELDS :: "(string \<times> string \<times> cast) list" where
  "WEB_FIELDS =
     [(''hsts'', ''enable_hsts'', CBool), (''avahi'', ''enable_avahi'', CBool), (''ssdp'', ''enable_ssdp'', CBool),
      (''http2'', ''enable_spdy'', CBool), (''https_redirect'', ''enable_https_redirect'', CBool),
      (''server_header'', ''enable_server_header'', CBool), (''http_port'', ''http_port'', CInt),
      (''https_port'', ''https_port'', CInt)]"

record web_args =
  wb_flag :: "string \<Rightarrow> string option"
  wb_check :: bool

definition do_web :: "'w host \<Rightarrow> web_args \<Rightarrow> ('w box, int) eff" where
  "do_web H a =
     bindE (cast_flags WEB_FIELDS (wb_flag a)) (\<lambda>desired.
       overlay H plainly DSM_API [version 2, ''method=get''] [version 2, ''method=set''] desired (wb_check a))"

record tls_args =
  tl_profile :: "string option"
  tl_level :: "string option"
  tl_check :: bool

definition tls_level :: "tls_args \<Rightarrow> ('s, int) eff" where
  "tls_level a =
     (case tl_level a of
        Some l \<Rightarrow> int_of_text l
      | None \<Rightarrow>
          (case tl_profile a of
             Some p \<Rightarrow> (case dict_get TLS_LEVELS (lower p) of Some n \<Rightarrow> retE n | None \<Rightarrow> raiseE (SystemExit 1))
           | None \<Rightarrow> raiseE (SystemExit 1)))"

definition do_tls :: "'w host \<Rightarrow> tls_args \<Rightarrow> ('w box, int) eff" where
  "do_tls H a =
     bindE (tls_level a) (\<lambda>level.
     bindE (webapi_exec H TLS_API [version 1, ''method=get'']) (\<lambda>resp. bindE (field ''data'' resp) (\<lambda>cur.
     bindE (differ plainly cur [(''default-level'', JNum level)]) (\<lambda>drift.
       result drift (tl_check a)
         (webapi_exec H TLS_API [version 1, ''method=set'', ''default-level='' @ str_int level])))))"

section \<open>\<open>apply_external_access.py\<close>\<close>

definition ERR_API_NOT_EXIST :: json where
  "ERR_API_NOT_EXIST = JNum 102"

text \<open>A switch. An API that the model does not have counts as off.\<close>

definition toggle :: "'w host \<Rightarrow> string \<Rightarrow> string \<Rightarrow> string \<Rightarrow> bool \<Rightarrow> ('w box, int) eff" where
  "toggle H api key enable check =
     (let desired_bool = bool_text enable; desired = [(key, JBool desired_bool)] in
      bindE (attempt (webapi_get H api [version 1, ''method=get'']) is_RuntimeError
          (\<lambda>e. [(''error'', JStr (str_exc H e)), (''api'', JStr api)]))
        (\<lambda>r. case r of
           Inl rc \<Rightarrow> retE rc
         | Inr (current, err_code) \<Rightarrow>
             if err_code \<noteq> JNull then
               if err_code = ERR_API_NOT_EXIST \<and> \<not> desired_bool then no_change
               else say_fail (JObj [(''error'', JStr ''DSM GET failed''), (''api'', JStr api), (''code'', err_code),
                 (''note'', JStr (if err_code = ERR_API_NOT_EXIST then ''desired=enabled but API is not present on this DSM model''
                                  else ''see DSM error code table''))])
             else
               bindE (differ plainly current desired) (\<lambda>drift.
                 result drift check
                   (bindE (update current desired) (\<lambda>d. webapi_exec H api ([version 1, ''method=set''] @ args_from d))))))"

record switch_args =
  sw_enable :: string
  sw_check :: bool

definition do_quickconnect :: "'w host \<Rightarrow> switch_args \<Rightarrow> ('w box, int) eff" where
  "do_quickconnect H a = toggle H ''SYNO.Core.QuickConnect'' ''enabled'' (sw_enable a) (sw_check a)"

definition do_upnp :: "'w host \<Rightarrow> switch_args \<Rightarrow> ('w box, int) eff" where
  "do_upnp H a = toggle H ''SYNO.Core.Network.Router.UPnP'' ''enabled'' (sw_enable a) (sw_check a)"

definition do_ddns :: "'w host \<Rightarrow> switch_args \<Rightarrow> ('w box, int) eff" where
  "do_ddns H a = toggle H ''SYNO.Core.ExternalAccess.DDNS'' ''enabled'' (sw_enable a) (sw_check a)"

section \<open>\<open>apply_smb.py\<close>\<close>

definition SMB_API :: string where
  "SMB_API = ''SYNO.Core.FileServ.SMB''"

definition SMB_PROTO :: "(string \<times> int) list" where
  "SMB_PROTO = [(''SMB1'', 1), (''SMB2'', 2), (''SMB3'', 3)]"

text \<open>This applier writes a value as \<open>str\<close> does, not as JSON.\<close>

definition smb_arg :: "string \<times> json \<Rightarrow> string" where
  "smb_arg p = fst p @ ''='' @ (case snd p of JBool b \<Rightarrow> if b then ''true'' else ''false'' | v \<Rightarrow> py_str v)"

definition set_settings :: "'w host \<Rightarrow> dict \<Rightarrow> ('w box, json) eff" where
  "set_settings H data =
     webapi_exec H SMB_API ([version 3, ''method=set''] @ map smb_arg (filter (\<lambda>p. snd p \<noteq> JNull) data))"

record smb_args =
  sm_min_protocol :: "string option"
  sm_max_protocol :: "string option"
  sm_enable :: "string option"
  sm_server_signing :: "string option"
  sm_ntlmv1_auth :: "string option"
  sm_check :: bool

definition smb_protocol :: "string \<Rightarrow> string option \<Rightarrow> ('s, dict) eff" where
  "smb_protocol key p =
     (if \<not> given p then retE []
      else case dict_get SMB_PROTO (or_text p []) of None \<Rightarrow> raiseE KeyError | Some n \<Rightarrow> retE [(key, JNum n)])"

definition desired_from_args :: "smb_args \<Rightarrow> ('s, dict) eff" where
  "desired_from_args a =
     bindE (smb_protocol ''smb_min_protocol'' (sm_min_protocol a)) (\<lambda>d1.
     bindE (smb_protocol ''smb_max_protocol'' (sm_max_protocol a)) (\<lambda>d2.
       retE (d1 @ d2 @ wants [(''enable_samba'', flag (sm_enable a)),
         (''enable_server_signing'', map_option (\<lambda>s. JNum (if bool_text s then 1 else 0)) (sm_server_signing a)),
         (''enable_ntlmv1_auth'', flag (sm_ntlmv1_auth a))])))"

definition smb_main :: "'w host \<Rightarrow> smb_args \<Rightarrow> ('w box, int) eff" where
  "smb_main H a =
     bindE (desired_from_args a) (\<lambda>desired.
     bindE (webapi_exec H SMB_API [version 3, ''method=get'']) (\<lambda>resp. bindE (field ''data'' resp) (\<lambda>current.
     bindE (differ plainly current desired) (\<lambda>drift.
       result drift (sm_check a) (bindE (update current desired) (set_settings H))))))"

section \<open>\<open>apply_nfs.py\<close>\<close>

definition GLOBAL_API :: string where
  "GLOBAL_API = ''SYNO.Core.FileServ.NFS''"

definition PRIV_API :: string where
  "PRIV_API = ''SYNO.Core.FileServ.NFS.SharePrivilege''"

record nfs_args =
  nf_enable :: "string option"
  nf_nfsv4 :: "string option"
  nf_v4_domain :: "string option"
  nf_check :: bool

definition do_global :: "'w host \<Rightarrow> nfs_args \<Rightarrow> ('w box, int) eff" where
  "do_global H a =
     overlay H coerced GLOBAL_API [version 1, ''method=get''] [version 1, ''method=set'']
       (wants [(''enable_nfs'', flag (nf_enable a)), (''enable_nfs_v4'', flag (nf_nfsv4 a)),
               (''nfs_v4_domain'', str_flag (nf_v4_domain a))])
       (nf_check a)"

text \<open>\<open>_norm(rules)\<close>: sorted by client. Two clients that are not both texts cannot be compared.\<close>

definition rule_client :: "json \<Rightarrow> ('s, json) eff" where
  "rule_client r = bindE (get_key ''client'' r) (\<lambda>c. retE (case c of None \<Rightarrow> JStr [] | Some v \<Rightarrow> v))"

definition nfs_norm :: "json \<Rightarrow> ('s, string) eff" where
  "nfs_norm rules =
     bindE (iter rules) (\<lambda>rs. bindE (mapE rule_client rs) (\<lambda>cs.
       if length rs \<le> 1 then retE (dumps (sort_keys (JArr rs)))
       else bindE (mapE as_str cs) (\<lambda>ks. retE (dumps (sort_keys (JArr (map snd (sort_key fst (zip ks rs)))))))))"

record rules_args =
  ru_share :: string
  ru_rules :: string
  ru_check :: bool

definition do_share_rules :: "'w host \<Rightarrow> rules_args \<Rightarrow> ('w box, int) eff" where
  "do_share_rules H a =
     bindE (json_loads H (ru_rules a)) (\<lambda>desired.
     bindE (webapi_exec H PRIV_API [version 1, ''method=load'', ''share_name='' @ ru_share a]) (\<lambda>resp.
     bindE (field ''data'' resp) (\<lambda>data. bindE (field ''rule'' data) (\<lambda>current.
     bindE (nfs_norm current) (\<lambda>have_rules. bindE (nfs_norm desired) (\<lambda>want_rules.
       result (if have_rules = want_rules then [] else [(''current'', current), (''desired'', desired)]) (ru_check a)
         (webapi_exec H PRIV_API
            [version 1, ''method=save'', ''share_name='' @ ru_share a, ''rule='' @ dumps desired])))))))"

section \<open>\<open>apply_snapshots.py\<close>\<close>

definition SNAP_API :: string where
  "SNAP_API = ''SYNO.Core.Share.Snapshot''"

record snap_args =
  sp_share :: string
  sp_enabled :: string
  sp_hourly :: string
  sp_daily :: string
  sp_weekly :: string
  sp_monthly :: string
  sp_check :: bool

definition do_share :: "'w host \<Rightarrow> snap_args \<Rightarrow> ('w box, int) eff" where
  "do_share H a =
     bindE (int_of_text (sp_hourly a)) (\<lambda>hourly. bindE (int_of_text (sp_daily a)) (\<lambda>daily.
     bindE (int_of_text (sp_weekly a)) (\<lambda>weekly. bindE (int_of_text (sp_monthly a)) (\<lambda>monthly.
       overlay H coerced SNAP_API [version 1, ''method=get'', ''name='' @ sp_share a]
         [version 1, ''method=set'', ''name='' @ sp_share a]
         [(''enable_snapshot'', JBool (bool_text (sp_enabled a))), (''keep_hourly'', JNum hourly), (''keep_daily'', JNum daily),
          (''keep_weekly'', JNum weekly), (''keep_monthly'', JNum monthly)]
         (sp_check a)))))"

end
