(* ===== verification/Dsm_System.thy ===== *)
theory Dsm_System
  imports Webapi
begin

text \<open>
  The appliers of the system itself: \<open>apply_dsm_system.py\<close> (network, packages, NTP),
  \<open>apply_dsm_updates.py\<close>, \<open>apply_security_advisor.py\<close>, \<open>apply_sso.py\<close> and \<open>apply_ad.py\<close>. Warnings on
  the error output are not part of the state; the message of a \<open>SystemExit\<close> is its exit status 1. A flag that the code accepts and
  ignores has no field in the record of flags.
\<close>

section \<open>\<open>apply_dsm_system.py\<close>\<close>

definition SYNOPKG :: string where
  "SYNOPKG = ''/usr/syno/bin/synopkg''"

text \<open>\<open>json.loads\<close> of an argument, where a text that is no JSON ends the program.\<close>

definition loads_or_exit :: "'w host \<Rightarrow> string \<Rightarrow> ('s, json) eff" where
  "loads_or_exit H s = (case loads H s of None \<Rightarrow> raiseE (SystemExit 1) | Some j \<Rightarrow> retE j)"

definition pkg_is_installed :: "'w host \<Rightarrow> string \<Rightarrow> ('w box, bool) eff" where
  "pkg_is_installed H name = os_isdir H (path_join ''/var/packages'' name)"

definition pkg_is_on :: "'w host \<Rightarrow> string \<Rightarrow> ('w box, bool) eff" where
  "pkg_is_on H name = bindE (run_tool H [SYNOPKG, ''is_onoff'', name]) (\<lambda>(rc, out, err). retE (rc = 0))"

definition all_texts :: "json \<Rightarrow> string list option" where
  "all_texts j =
     (case j of
        JArr xs \<Rightarrow>
          if list_all (\<lambda>x. case x of JStr _ \<Rightarrow> True | _ \<Rightarrow> False) xs
          then Some (map (\<lambda>x. case x of JStr s \<Rightarrow> s | _ \<Rightarrow> []) xs) else None
      | _ \<Rightarrow> None)"

text \<open>Starting one package; what does not run afterwards is reported.\<close>

definition start_package :: "'w host \<Rightarrow> string \<Rightarrow> ('w box, json list) eff" where
  "start_package H p =
     bindE (run_tool H [SYNOPKG, ''start'', p]) (\<lambda>(rc, out, err).
     bindE (if rc \<noteq> 0 then retE False else pkg_is_on H p) (\<lambda>running.
       retE (if running then []
             else [JObj [(''package'', JStr p), (''stderr'', JStr (take 200 (strip err))), (''stdout'', JStr (take 200 (strip out)))]])))"

record packages_args =
  pk_packages :: string
  pk_check :: bool

definition do_package_state :: "'w host \<Rightarrow> packages_args \<Rightarrow> ('w box, int) eff" where
  "do_package_state H a =
     bindE (loads_or_exit H (pk_packages a)) (\<lambda>j.
       case all_texts j of
         None \<Rightarrow> raiseE (SystemExit 1)
       | Some desired \<Rightarrow>
           bindE (filterE (\<lambda>p. bindE (pkg_is_installed H p) (\<lambda>there. retE (\<not> there))) desired) (\<lambda>missing.
           bindE (filterE (\<lambda>p. if p \<in> set missing then retE False else bindE (pkg_is_on H p) (\<lambda>on. retE (\<not> on))) desired) (\<lambda>drift.
             if drift = [] then no_change
             else if pk_check a then
               bindE (say (''WOULD-CHANGE '' @ dumps (JObj [(''start'', JArr (map JStr drift))]))) (\<lambda>_. retE 0)
             else
               bindE (mapE (start_package H) drift) (\<lambda>failed.
                 if concat failed \<noteq> [] then say_fail (JArr (concat failed))
                 else bindE (say (''CHANGED '' @ dumps (JObj [(''started'', JArr (map JStr drift))]))) (\<lambda>_. retE 0)))))"

record volume_args =
  vo_install_volume :: string
  vo_check :: bool

definition PACKAGE_API :: string where
  "PACKAGE_API = ''SYNO.Core.Package.Setting''"

definition do_package_defaults :: "'w host \<Rightarrow> volume_args \<Rightarrow> ('w box, int) eff" where
  "do_package_defaults H a =
     (let desired = [(''default_vol'', JStr (vo_install_volume a))] in
      bindE (webapi_exec H PACKAGE_API [version 1, ''method=get'']) (\<lambda>get_res. bindE (is_success get_res) (\<lambda>ok.
        if \<not> ok then say_fail (JObj [(''reason'', JStr ''SYNO.Core.Package.Setting GET failed''), (''response'', get_res)])
        else
          bindE (field ''data'' get_res) (\<lambda>current. bindE (differ plainly current desired) (\<lambda>drift.
            result drift (vo_check a)
              (webapi_exec H PACKAGE_API ([version 1, ''method=set''] @ args_from desired)))))))"

definition NTP_API :: string where
  "NTP_API = ''SYNO.Core.Region.NTP''"

definition NTP_CLOCK_KEYS :: "string list" where
  "NTP_CLOCK_KEYS = [''date'', ''hour'', ''minute'', ''second'', ''now'', ''timestamp'']"

definition NTP_MODE_ENABLED :: string where
  "NTP_MODE_ENABLED = ''ntp''"

record ntp_args =
  nt_server :: string
  nt_enabled :: string
  nt_check :: bool

text \<open>The object that is sent: what was read without the clock, with the desired keys over it.\<close>

definition ntp_payload :: "json \<Rightarrow> dict \<Rightarrow> ('s, dict) eff" where
  "ntp_payload current desired =
     (case current of
        JObj d \<Rightarrow> retE (merge (filter (\<lambda>p. fst p \<notin> set NTP_CLOCK_KEYS) d) desired) | _ \<Rightarrow> raiseE AttributeError)"

definition do_ntp :: "'w host \<Rightarrow> ntp_args \<Rightarrow> ('w box, int) eff" where
  "do_ntp H a =
     (if \<not> bool_text (nt_enabled a) then raiseE (SystemExit 1)
      else
        let desired = [(''enable_ntp'', JStr NTP_MODE_ENABLED), (''server'', JStr (nt_server a))] in
        bindE (webapi_exec H NTP_API [version 1, ''method=get'']) (\<lambda>get_res. bindE (is_success get_res) (\<lambda>ok.
          if \<not> ok then say_fail (JObj [(''reason'', JStr ''SYNO.Core.Region.NTP GET failed''), (''response'', get_res)])
          else
            bindE (field ''data'' get_res) (\<lambda>current. bindE (differ plainly current desired) (\<lambda>drift.
              result drift (nt_check a)
                (bindE (ntp_payload current desired) (\<lambda>payload.
                   webapi_exec H NTP_API ([version 1, ''method=set''] @ args_from payload))))))))"

record network_args =
  nw_hostname :: "string option"
  nw_gateway :: "string option"
  nw_dns_primary :: "string option"
  nw_dns_secondary :: "string option"
  nw_dns_manual :: "string option"
  nw_ipv4_first :: "string option"
  nw_check :: bool

definition do_network :: "'w host \<Rightarrow> network_args \<Rightarrow> ('w box, int) eff" where
  "do_network H a =
     apply_full H ''SYNO.Core.Network'' 2
       (wants [(''server_name'', str_flag (nw_hostname a)), (''gateway'', str_flag (nw_gateway a)),
          (''dns_primary'', str_flag (nw_dns_primary a)), (''dns_secondary'', str_flag (nw_dns_secondary a)),
          (''dns_manual'', flag (nw_dns_manual a)), (''ipv4_first'', flag (nw_ipv4_first a))])
       (nw_check a)"

section \<open>\<open>apply_dsm_updates.py\<close>\<close>

definition UPD_SETTING_API :: string where
  "UPD_SETTING_API = ''SYNO.Core.Upgrade.Setting''"

definition DAY_MAP :: "(string \<times> string) list" where
  "DAY_MAP = [(''Sun'', ''0''), (''Mon'', ''1''), (''Tue'', ''2''), (''Wed'', ''3''), (''Thu'', ''4''), (''Fri'', ''5''), (''Sat'', ''6'')]"

record updates_args =
  up_policy :: string
  up_auto_install :: string
  up_day :: string
  up_hour :: string
  up_minute :: string
  up_check :: bool

text \<open>The drift of the nested schedule, under dotted keys.\<close>

definition schedule_drift :: "json \<Rightarrow> dict \<Rightarrow> ('s, dict) eff" where
  "schedule_drift cur_sched desired =
     bindE (differ coerced cur_sched desired) (\<lambda>d. retE (map (\<lambda>(k, v). (''schedule.'' @ k, v)) d))"

definition updates_payload :: "json \<Rightarrow> json \<Rightarrow> dict \<Rightarrow> dict \<Rightarrow> ('s, dict) eff" where
  "updates_payload current cur_sched desired_top desired_sched =
     bindE (update current desired_top) (\<lambda>merged. bindE (update cur_sched desired_sched) (\<lambda>sched.
       retE (dict_set ''schedule'' (JObj sched) merged)))"

definition get_failed :: "string \<Rightarrow> dict \<Rightarrow> json \<Rightarrow> string \<Rightarrow> ('w box, int) eff" where
  "get_failed api ver err missing =
     say_fail (JObj ([(''error'', JStr ''GET failed''), (''api'', JStr api)] @ ver @ [(''code'', err),
       (''note'', JStr (if err = JNum 102 then missing else ''see DSM error code table''))]))"

definition do_setting :: "'w host \<Rightarrow> updates_args \<Rightarrow> ('w box, int) eff" where
  "do_setting H a =
     (case dict_get DAY_MAP (up_day a) of
        None \<Rightarrow> raiseE (SystemExit 1)
      | Some day \<Rightarrow>
          bindE (int_of_text (up_hour a)) (\<lambda>hour. bindE (int_of_text (up_minute a)) (\<lambda>minute.
            let desired_top = [(''autoupdate_enable'', JBool (bool_text (up_auto_install a))), (''autoupdate_type'', JStr (up_policy a))];
                desired_sched = [(''week_day'', JStr day), (''hour'', JNum hour), (''minute'', JNum minute)]
            in
            bindE (webapi_get H UPD_SETTING_API [version 2, ''method=get'']) (\<lambda>(current, err).
              if err \<noteq> JNull then
                get_failed UPD_SETTING_API [(''version'', JNum 2)] err
                  (''API not present on this DSM model '' @ em_dash @ '' update policy cannot be managed via webapi here.'')
              else
                bindE (get_or ''schedule'' current (JObj [])) (\<lambda>cur_sched.
                bindE (differ coerced current desired_top) (\<lambda>drift_top. bindE (schedule_drift cur_sched desired_sched) (\<lambda>drift_sched.
                  result (drift_top @ drift_sched) (up_check a)
                    (bindE (updates_payload current cur_sched desired_top desired_sched) (\<lambda>merged.
                       webapi_exec H UPD_SETTING_API ([version 2, ''method=set''] @ args_from merged))))))))))"

section \<open>\<open>apply_security_advisor.py\<close>\<close>

definition SA_CONF_API :: string where
  "SA_CONF_API = ''SYNO.Core.SecurityScan.Conf''"

definition READ_ONLY_KEYS :: "string list" where
  "READ_ONLY_KEYS = [''success'']"

record advisor_args =
  sa_enable :: string
  sa_day :: string
  sa_hour :: int
  sa_minute :: int
  sa_categories :: string
  sa_check :: bool

definition check_categories :: "'w host \<Rightarrow> string \<Rightarrow> ('s, unit) eff" where
  "check_categories H c =
     (if c = [] then retE ()
      else bindE (loads_or_exit H c) (\<lambda>cats. case cats of JArr _ \<Rightarrow> retE () | _ \<Rightarrow> raiseE (SystemExit 1)))"

definition without_read_only :: "json \<Rightarrow> ('s, json) eff" where
  "without_read_only current =
     (case current of JObj d \<Rightarrow> retE (JObj (filter (\<lambda>p. fst p \<notin> set READ_ONLY_KEYS) d)) | _ \<Rightarrow> raiseE AttributeError)"

definition do_main :: "'w host \<Rightarrow> advisor_args \<Rightarrow> ('w box, int) eff" where
  "do_main H a =
     (case dict_get DAY_MAP (sa_day a) of
        None \<Rightarrow> raiseE (SystemExit 1)
      | Some day \<Rightarrow>
          bindE (check_categories H (sa_categories a)) (\<lambda>_.
            let desired = [(''enableSchedule'', JBool (bool_text (sa_enable a))), (''weekday'', JStr day),
                           (''hour'', JNum (sa_hour a)), (''minute'', JNum (sa_minute a))]
            in
            bindE (webapi_get H SA_CONF_API [version 1, ''method=get'']) (\<lambda>(current, err).
              if err \<noteq> JNull then
                get_failed SA_CONF_API [] err
                  (''API not present on this DSM model '' @ em_dash @
                   '' Security Advisor scheduling cannot be managed via webapi here.'')
              else
                bindE (without_read_only current) (\<lambda>set_payload.
                bindE (differ coerced set_payload desired) (\<lambda>drift.
                  result drift (sa_check a)
                    (bindE (update set_payload desired) (\<lambda>payload.
                       webapi_exec H SA_CONF_API [version 1, ''method=set'', ''Input='' @ dumps (JObj payload)])))))))"

section \<open>\<open>apply_sso.py\<close>\<close>

definition OIDC_API :: string where "OIDC_API = ''SYNO.Core.Directory.OIDC.SSO''"

definition SETTING_API :: string where "SETTING_API = ''SYNO.Core.Directory.SSO.Setting''"

definition ACTIVATE_API :: string where "ACTIVATE_API = ''SYNO.Core.Directory.SSO.Profile''"

definition SECRET_ENV_VAR :: string where "SECRET_ENV_VAR = ''DSM_SSO_OIDC_CLIENT_SECRET''"

definition SECRET_FIELD :: string where "SECRET_FIELD = ''oidc_client_secret''"

definition OIDC_FIELDS :: "(string \<times> string \<times> cast) list" where
  "OIDC_FIELDS =
     [(''provider_name'', ''oidc_name'', CStr), (''wellknown'', ''oidc_wellknown'', CStr),
      (''authorization_endpoint'', ''oidc_authorization_endpoint'', CStr), (''token_endpoint'', ''oidc_token_endpoint'', CStr),
      (''client_id'', ''oidc_client_id'', CStr), (''redirect_uri'', ''oidc_redirect_uri'', CStr), (''scope'', ''oidc_scope'', CStr),
      (''account_attribute'', ''oidc_user_claim'', CStr), (''allow_local_user'', ''oidc_allow_local_user'', CBool)]"

record oidc_args =
  oi_enable :: string
  oi_flag :: "string \<Rightarrow> string option"
  oi_set_as_default :: string
  oi_check :: bool

definition sso_get :: "'w host \<Rightarrow> string \<Rightarrow> ('w box, json) eff" where
  "sso_get H api = bindE (webapi_exec H api [version 1, ''method=get'']) (field ''data'')"

text \<open>An object that is about to be read with \<open>get\<close>.\<close>

definition as_dict :: "json \<Rightarrow> ('s, dict) eff" where
  "as_dict j = (case j of JObj d \<Rightarrow> retE d | _ \<Rightarrow> raiseE AttributeError)"

text \<open>The secret's own entry of the drift hides both values.\<close>

definition oidc_drift :: "dict \<Rightarrow> dict \<Rightarrow> string \<Rightarrow> dict" where
  "oidc_drift cur desired secret =
     drift_of plainly cur desired @
     (if plainly (JStr secret) (look cur SECRET_FIELD) then [] else [(SECRET_FIELD, JStr ''<changed>'')])"

definition activate_drift :: "dict \<Rightarrow> dict" where
  "activate_drift cur =
     drift_of plainly cur [(''sso_profile'', JStr ''oidc'')] @
     (if look cur ''sso_enable'' = JBool True then []
      else [(''sso_enable'', JObj [(''current'', look cur ''sso_enable''), (''desired'', JBool True)])])"

definition sso_set :: "'w host \<Rightarrow> string \<Rightarrow> dict \<Rightarrow> bool \<Rightarrow> ('w box, json) eff \<Rightarrow> ('w box, json) eff" where
  "sso_set H api payload needed go =
     (if \<not> needed then go
      else bindE (webapi_exec H api ([version 1, ''method=set''] @ args_from payload)) (\<lambda>r.
        bindE (is_success r) (\<lambda>ok. if ok then go else retE r)))"

definition do_oidc :: "'w host \<Rightarrow> oidc_args \<Rightarrow> ('w box, int) eff" where
  "do_oidc H a =
     (if \<not> bool_text (oi_enable a) then no_change
      else
        let secret = getenv H SECRET_ENV_VAR; desired_default = JBool (bool_text (oi_set_as_default a)) in
        if secret = [] then
          say_fail (JObj [(''reason'', JStr ''OIDC enabled but secret env unset''), (''vars'', JArr [JStr SECRET_ENV_VAR])])
        else
          bindE (cast_flags OIDC_FIELDS (oi_flag a)) (\<lambda>desired_oidc.
          bindE (sso_get H OIDC_API) (\<lambda>j1. bindE (sso_get H ACTIVATE_API) (\<lambda>j2. bindE (sso_get H SETTING_API) (\<lambda>j3.
          bindE (as_dict j1) (\<lambda>cur_oidc. bindE (as_dict j2) (\<lambda>cur_activate. bindE (as_dict j3) (\<lambda>cur_setting.
            let d1 = oidc_drift cur_oidc desired_oidc secret;
                d2 = activate_drift cur_activate;
                d3 = drift_of plainly cur_setting [(''sso_default_login'', desired_default)]
            in
            result (d1 @ d2 @ d3) (oi_check a)
              (sso_set H OIDC_API (desired_oidc @ [(''profile'', JStr ''oidc''), (SECRET_FIELD, JStr secret)]) (d1 \<noteq> [])
                (sso_set H ACTIVATE_API [(''sso_profile'', JStr ''oidc''), (''sso_enable'', JBool True)] (d2 \<noteq> [])
                  (sso_set H SETTING_API [(''sso_default_login'', desired_default)] (d3 \<noteq> [])
                    (retE (JObj [(''success'', JBool True)])))))))))))))"

section \<open>\<open>apply_ad.py\<close>\<close>

definition DOMAIN_API :: string where "DOMAIN_API = ''SYNO.Core.Directory.Domain''"

record domain_args =
  da_realm :: string
  da_domain :: string
  da_dc_host :: string
  da_dc_ip :: string
  da_ou :: string
  da_allowed_groups :: string
  da_admin_groups :: string
  da_check :: bool

definition loads_or_empty :: "'w host \<Rightarrow> string \<Rightarrow> ('s, json) eff" where
  "loads_or_empty H s = (if s = [] then retE (JArr []) else json_loads H s)"

definition must_be_list :: "json \<Rightarrow> ('s, unit) eff" where
  "must_be_list j = (case j of JArr _ \<Rightarrow> retE () | _ \<Rightarrow> raiseE (SystemExit 1))"

definition domain_desired :: "domain_args \<Rightarrow> dict" where
  "domain_desired a =
     [(''realm'', JStr (da_realm a)), (''domain_name'', JStr (da_domain a)), (''server_address'', JStr (da_dc_host a)),
      (''server_ip'', JStr (da_dc_ip a)), (''ou'', JStr (da_ou a))]"

definition do_domain_config :: "'w host \<Rightarrow> domain_args \<Rightarrow> ('w box, int) eff" where
  "do_domain_config H a =
     bindE (loads_or_empty H (da_allowed_groups a)) (\<lambda>allowed. bindE (loads_or_empty H (da_admin_groups a)) (\<lambda>admins.
     bindE (must_be_list allowed) (\<lambda>_. bindE (must_be_list admins) (\<lambda>_.
     bindE (webapi_exec H DOMAIN_API [version 1, ''method=get'']) (\<lambda>resp. bindE (field ''data'' resp) (\<lambda>current.
     bindE (get_key ''enable_domain'' current) (\<lambda>joined.
       if \<not> (case joined of None \<Rightarrow> False | Some v \<Rightarrow> truthy v) then
         bindE (say (''OK no-change (deferred '' @ em_dash @ '' not joined)'')) (\<lambda>_. retE 0)
       else bindE (differ plainly current (domain_desired a)) (\<lambda>drift.
         if drift = [] then no_change
         else bindE (say (''OK no-change (deferred '' @ em_dash @ '' drift on creds-gated fields)'')) (\<lambda>_. retE 0)))))))))"

text \<open>\<open>res.get("data", {}) if res.get("success") else {}\<close>.\<close>

definition joined_data :: "json \<Rightarrow> ('s, json) eff" where
  "joined_data res =
     bindE (is_success res) (\<lambda>ok.
       if ok then bindE (get_key ''data'' res) (\<lambda>d. retE (case d of None \<Rightarrow> JObj [] | Some v \<Rightarrow> v)) else retE (JObj []))"

definition do_test_join :: "'w host \<Rightarrow> ('w box, int) eff" where
  "do_test_join H =
     bindE (catchE (bindE (webapi_exec H DOMAIN_API [version 1, ''method=get'']) (\<lambda>j. retE (Inr j))) is_RuntimeError
              (\<lambda>e. retE (Inl (str_exc H e))))
       (\<lambda>r. case r of
          Inl msg \<Rightarrow> bindE (say (''NOT-JOINED '' @ take 200 msg)) (\<lambda>_. retE 0)
        | Inr res \<Rightarrow>
            bindE (joined_data res) (\<lambda>data. bindE (get_key ''enable_domain'' data) (\<lambda>joined.
              if (case joined of None \<Rightarrow> False | Some v \<Rightarrow> truthy v) then
                bindE (str_get ''domain_name'' data []) (\<lambda>realm. bindE (say (''JOINED '' @ realm)) (\<lambda>_. retE 0))
              else bindE (say (''NOT-JOINED '' @ dumps data)) (\<lambda>_. retE 0))))"

record join_args =
  jo_realm :: string
  jo_domain :: string
  jo_dc_host :: string
  jo_dc_ip :: string
  jo_ou :: string
  jo_user :: string
  jo_password :: string

definition do_join :: "'w host \<Rightarrow> join_args \<Rightarrow> ('w box, int) eff" where
  "do_join H a =
     (if jo_password a = [] then say_fail (JObj [(''error'', JStr ''join requires --join-password'')])
      else
        bindE (webapi_exec H DOMAIN_API ([version 1, ''method=set''] @ args_from
          [(''realm'', JStr (jo_realm a)), (''domain_name'', JStr (jo_domain a)), (''server_address'', JStr (jo_dc_host a)),
           (''server_ip'', JStr (jo_dc_ip a)), (''username'', JStr (jo_user a)), (''password'', JStr (jo_password a)),
           (''ou'', JStr (jo_ou a)), (''enable_domain'', JBool True)])) (\<lambda>res.
        bindE (is_success res) (\<lambda>ok.
          if ok then bindE (say (''CHANGED '' @ dumps (JObj [(''joined'', JStr (jo_realm a))]))) (\<lambda>_. retE 0)
          else say_fail res)))"

end
