(* ===== verification/Dsm_Acls.thy ===== *)
theory Dsm_Acls
  imports Webapi Drift
begin

text \<open>
  The applier of share permissions, \<open>apply_acls.py\<close>, over the tools synoshare and synoacltool. A set
  of principals is its sorted list. The reader of \<open>synoshare --list_acl\<close> is line for line the one of
  the drift detector, whose definition \<open>parse_list_acl\<close> is used here.
\<close>

definition SYNOSHARE :: string where
  "SYNOSHARE = ''/usr/syno/sbin/synoshare''"

definition SYNOACLTOOL :: string where
  "SYNOACLTOOL = ''/usr/syno/bin/synoacltool''"

definition TIER :: "(string \<times> string) list" where
  "TIER = [(''rw'', ''RW''), (''ro'', ''RO''), (''no'', ''NA'')]"

definition current_tiers :: "'w host \<Rightarrow> string \<Rightarrow> ('w box, (string \<times> string list) list) eff" where
  "current_tiers H share =
     bindE (run_tool H [SYNOSHARE, ''--list_acl'', share]) (\<lambda>(rc, out, err). retE (parse_list_acl out))"

definition tier_get :: "(string \<times> string list) list \<Rightarrow> string \<Rightarrow> string list" where
  "tier_get ts t = (case dict_get ts t of None \<Rightarrow> [] | Some ps \<Rightarrow> ps)"

text \<open>\<open>k in g\<close>.\<close>

definition has_key :: "string \<Rightarrow> json \<Rightarrow> ('s, bool) eff" where
  "has_key k g =
     (case g of
        JObj d \<Rightarrow> retE (dict_get d k \<noteq> None) | JStr s \<Rightarrow> retE (contains s k) | JArr xs \<Rightarrow> retE (List.member xs (JStr k))
      | _ \<Rightarrow> raiseE TypeError)"

text \<open>The tier and the principal of one grant; a principal that is not a text raises TypeError.\<close>

definition acl_grant :: "json \<Rightarrow> ('s, string \<times> string) eff" where
  "acl_grant g =
     bindE (has_key ''group'' g) (\<lambda>is_group.
     bindE (if is_group then bindE (str_field ''group'' g) (\<lambda>s. retE (''@'' @ s))
            else bindE (has_key ''user'' g) (\<lambda>is_user. if is_user then str_field ''user'' g else raiseE (SystemExit 1))) (\<lambda>name.
     bindE (get_key ''access'' g) (\<lambda>a.
       case dict_get TIER (lower (case a of None \<Rightarrow> [] | Some v \<Rightarrow> py_str v)) of
         None \<Rightarrow> raiseE (SystemExit 1) | Some t \<Rightarrow> retE (t, name))))"

definition acl_tiers :: "(string \<times> string) list \<Rightarrow> (string \<times> string list) list" where
  "acl_tiers gs = map (\<lambda>t. (t, sorted_set (map snd (filter (\<lambda>g. fst g = t) gs)))) TIERS"

definition acl_desired :: "json \<Rightarrow> ('s, (string \<times> string list) list) eff" where
  "acl_desired grants = bindE (iter grants) (\<lambda>gs. bindE (mapE acl_grant gs) (\<lambda>ps. retE (acl_tiers ps)))"

definition names :: "string list \<Rightarrow> json" where
  "names ps = JArr (map JStr ps)"

definition acl_drift :: "(string \<times> string list) list \<Rightarrow> (string \<times> string list) list \<Rightarrow> string list" where
  "acl_drift current desired = filter (\<lambda>t. tier_get current t \<noteq> tier_get desired t) TIERS"

definition acl_report :: "(string \<times> string list) list \<Rightarrow> (string \<times> string list) list \<Rightarrow> json" where
  "acl_report current desired =
     JObj (map (\<lambda>t. (t, JObj [(''current'', names (tier_get current t)), (''desired'', names (tier_get desired t))]))
       (acl_drift current desired))"

text \<open>\<open>synoshare --setuser\<close> with the operator \<open>=\<close> or \<open>+\<close>; a failure is reported and ends the run.\<close>

definition setuser :: "'w host \<Rightarrow> string \<Rightarrow> string \<Rightarrow> string \<Rightarrow> string list \<Rightarrow> ('w box, int \<times> string) eff" where
  "setuser H share tier op ps =
     bindE (run_tool H [SYNOSHARE, ''--setuser'', share, tier, op, join '','' ps])
       (\<lambda>(rc, out, err). retE (rc, strip (if err \<noteq> [] then err else out)))"

definition set_tier :: "'w host \<Rightarrow> string \<Rightarrow> (string \<times> string list) list \<Rightarrow> unit \<Rightarrow> string \<Rightarrow> ('w box, int + unit) eff" where
  "set_tier H share desired u t =
     bindE (setuser H share t ''='' (tier_get desired t)) (\<lambda>(rc, msg).
       if rc \<noteq> 0 then bindE (say (''FAIL setuser '' @ share @ '' '' @ t @ '': '' @ msg)) (\<lambda>_. retE (Inl 1))
       else go_on ())"

record setuser_args =
  su_share :: string
  su_grants :: string
  su_check :: bool

definition do_setuser :: "'w host \<Rightarrow> setuser_args \<Rightarrow> ('w box, int) eff" where
  "do_setuser H a =
     bindE (json_loads H (su_grants a)) (\<lambda>grants. bindE (acl_desired grants) (\<lambda>desired.
     bindE (current_tiers H (su_share a)) (\<lambda>current.
       let drift = acl_drift current desired in
       if drift = [] then no_change
       else if su_check a then
         bindE (say (''WOULD-CHANGE '' @ dumps (sort_keys (acl_report current desired)))) (\<lambda>_. retE 0)
       else
         andthen (walkE (set_tier H (su_share a) desired) () drift) (\<lambda>_.
           bindE (say (''CHANGED '' @ dumps (sort_keys (acl_report current desired)))) (\<lambda>_. retE 0)))))"

section \<open>Grants to administrators\<close>

record admin_args =
  ag_shares :: string
  ag_grants :: string
  ag_tier :: string
  ag_check :: bool

text \<open>What is missing in each share, as a dictionary.\<close>

definition missing_in :: "'w host \<Rightarrow> string \<Rightarrow> string list \<Rightarrow> (string \<times> string list) list \<Rightarrow> json \<Rightarrow>
    ('w box, (string \<times> string list) list) eff" where
  "missing_in H tier desired acc j =
     bindE (as_str j) (\<lambda>share. bindE (current_tiers H share) (\<lambda>current.
       let missing = sorted_set (filter (\<lambda>p. p \<notin> set (tier_get current tier)) desired) in
       retE (if missing = [] then acc else dict_set share missing acc)))"

definition add_missing :: "'w host \<Rightarrow> string \<Rightarrow> unit \<Rightarrow> string \<times> string list \<Rightarrow> ('w box, int + unit) eff" where
  "add_missing H tier u p =
     bindE (setuser H (fst p) tier ''+'' (snd p)) (\<lambda>(rc, msg).
       if rc \<noteq> 0 then bindE (say (''FAIL admin-grants '' @ fst p @ '': '' @ take 300 msg)) (\<lambda>_. retE (Inl 1))
       else go_on ())"

definition do_admin_grants :: "'w host \<Rightarrow> admin_args \<Rightarrow> ('w box, int) eff" where
  "do_admin_grants H a =
     bindE (json_loads H (ag_grants a)) (\<lambda>g. bindE (iter g) (\<lambda>gs. bindE (mapE as_str gs) (\<lambda>desired.
     bindE (json_loads H (ag_shares a)) (\<lambda>shares.
       if ag_tier a \<notin> snd ` set TIER then
         say_fail (JObj [(''error'', JStr ''--tier must be one of NA,RO,RW''), (''got'', JStr (ag_tier a))])
       else
         bindE (iter shares) (\<lambda>ss. bindE (foldE (missing_in H (ag_tier a) desired) [] ss) (\<lambda>per_share.
           let report = JObj (map (\<lambda>(s, ps). (s, names ps)) per_share) in
           if per_share = [] then no_change
           else if ag_check a then bindE (say (''WOULD-CHANGE '' @ dumps (sort_keys report))) (\<lambda>_. retE 0)
           else
             andthen (walkE (add_missing H (ag_tier a)) () (sort_key fst per_share)) (\<lambda>_.
               bindE (say (''CHANGED '' @ dumps (sort_keys report))) (\<lambda>_. retE 0))))))))"

section \<open>Stamping a tree\<close>

record stamp_args =
  st_share :: string
  st_path :: string
  st_check :: bool

definition do_recursive_stamp :: "'w host \<Rightarrow> stamp_args \<Rightarrow> ('w box, int) eff" where
  "do_recursive_stamp H a =
     bindE (os_isdir H (st_path a)) (\<lambda>there.
       if \<not> there then say_fail (JObj [(''error'', JStr ''path is not a directory''), (''path'', JStr (st_path a))])
       else if st_check a then
         bindE (say (''WOULD-CHANGE '' @ dumps (JObj [(''action'', JStr ''synoacltool -reset -R''),
           (''share'', JStr (st_share a)), (''path'', JStr (st_path a))]))) (\<lambda>_. retE 0)
       else
         bindE (run_tool H [SYNOACLTOOL, ''-reset'', ''-R'', st_path a]) (\<lambda>(rc, out, err).
           if rc \<noteq> 0 then
             bindE (say (''FAIL recursive-stamp '' @ st_path a @ '': '' @ take 400 (strip (if err \<noteq> [] then err else out)))) (\<lambda>_. retE 1)
           else
             bindE (say (''CHANGED '' @ dumps (JObj [(''share'', JStr (st_share a)), (''path'', JStr (st_path a)),
               (''action'', JStr ''synoacltool -reset -R'')]))) (\<lambda>_. retE 0)))"

end
