(* ===== verification/Dsm_Quotas.thy ===== *)
theory Dsm_Quotas
  imports Webapi Cve_Report
begin

text \<open>
  The applier of quotas, \<open>apply_quotas.py\<close>, over the tool synoquota: reading its answer, comparing and
  setting. Floats are rational numbers. The search ignores case, so it runs on the text in lower case.
\<close>

definition SYNOQUOTA :: string where
  "SYNOQUOTA = ''/usr/syno/bin/synoquota''"

definition GIB :: int where
  "GIB = 2 ^ 30"

text \<open>The answer: no quota, a text that could not be read, or a size in GiB and whether it is hard.\<close>

datatype quota = NoQuota | Unparseable | Quota int bool

definition QUOTA_UNITS :: "string list" where
  "QUOTA_UNITS = [''gb'', ''gib'', ''mb'', ''mib'', ''tb'', ''tib'']"

text \<open>\<open>QUOTA_RE\<close> at the start of a text: the number, the unit (if any), whether the tag is \<open>(hard)\<close>.\<close>

definition quota_at :: "string \<Rightarrow> (string \<times> string \<times> bool) option" where
  "quota_at s =
     (if \<not> startswith s ''quota'' then None
      else
        let r = dropWhile (\<lambda>c. c = CHR '':'' \<or> is_space c) (drop 5 s);
            num = takeWhile (\<lambda>c. is_digit c \<or> c = CHR ''.'') r;
            r2 = dropWhile is_space (drop (length num) r);
            unit_name = (case filter (startswith r2) QUOTA_UNITS of [] \<Rightarrow> [] | u # _ \<Rightarrow> u);
            r3 = dropWhile is_space (drop (length unit_name) r2)
        in if num = [] then None else Some (num, unit_name, startswith r3 ''(hard)''))"

fun quota_search :: "string \<Rightarrow> (string \<times> string \<times> bool) option" where
  "quota_search [] = None"
| "quota_search (c # s) = (case quota_at (c # s) of Some m \<Rightarrow> Some m | None \<Rightarrow> quota_search s)"

text \<open>How many GiB one of the unit is; a number without a unit is decimal gigabytes.\<close>

definition unit_gib :: "string \<Rightarrow> rat" where
  "unit_gib u =
     (if u = ''mb'' then 10 ^ 6 / 2 ^ 30 else if u = ''tb'' then 10 ^ 12 / 2 ^ 30
      else if u = ''mib'' then 1 / 1024 else if u = ''gib'' then 1 else if u = ''tib'' then 1024
      else 10 ^ 9 / 2 ^ 30)"

text \<open>\<open>round(x)\<close>: to the nearest integer, from the middle to the even one.\<close>

definition round_even :: "rat \<Rightarrow> int" where
  "round_even x =
     (let f = \<lfloor>x\<rfloor>; d = x - of_int f in
      if d < 1 / 2 then f else if 1 / 2 < d then f + 1 else if even f then f else f + 1)"

definition parse_current :: "string \<Rightarrow> ('s, quota) eff" where
  "parse_current text' =
     (let s = lower text' in
      if text' = [] \<or> contains s ''no quota'' then retE NoQuota
      else case quota_search s of
        None \<Rightarrow> retE Unparseable
      | Some (num, unit_name, hard) \<Rightarrow>
          (case float_of_string num of
             None \<Rightarrow> raiseE ValueError
           | Some v \<Rightarrow> retE (Quota (round_even (v * unit_gib unit_name)) hard)))"

text \<open>What is to change: nothing, the quota away, or a new one.\<close>

definition quota_drift :: "quota \<Rightarrow> int \<Rightarrow> bool \<Rightarrow> dict" where
  "quota_drift cur gib hard =
     (if gib = 0 then
        (case cur of Quota n h \<Rightarrow> [(''action'', JStr ''clear''), (''current_gib'', JNum n)] | _ \<Rightarrow> [])
      else if cur = Quota gib hard then []
      else
        [(''current_gib'', case cur of Quota n h \<Rightarrow> JNum n | _ \<Rightarrow> JNull),
         (''current_hard'', case cur of Quota n h \<Rightarrow> JBool h | _ \<Rightarrow> JNull),
         (''desired_gib'', JNum gib), (''desired_hard'', JBool hard)])"

definition quota_result :: "dict \<Rightarrow> bool \<Rightarrow> ('w box, int) eff \<Rightarrow> ('w box, int) eff" where
  "quota_result drift check apply_fn =
     (if drift = [] then no_change
      else if check then bindE (say (''WOULD-CHANGE '' @ dumps (sort_keys (JObj drift)))) (\<lambda>_. retE 0)
      else bindE apply_fn (\<lambda>rc.
        if rc = 0 then bindE (say (''CHANGED '' @ dumps (sort_keys (JObj drift)))) (\<lambda>_. retE 0)
        else say_fail (JObj [(''rc'', JNum rc)])))"

definition quota_run :: "'w host \<Rightarrow> string list \<Rightarrow> ('w box, int) eff" where
  "quota_run H args = bindE (run_tool H (SYNOQUOTA # args)) (\<lambda>(rc, out, err). retE rc)"

record share_quota_args =
  sq_share :: string
  sq_size_gib :: string
  sq_hard :: string
  sq_check :: bool

definition do_share_quota :: "'w host \<Rightarrow> share_quota_args \<Rightarrow> ('w box, int) eff" where
  "do_share_quota H a =
     bindE (int_of_text (sq_size_gib a)) (\<lambda>gib.
       let hard = bool_text (sq_hard a) in
       bindE (run_tool H [SYNOQUOTA, ''--get-share'', sq_share a]) (\<lambda>(rc, out, err).
       bindE (parse_current (if out \<noteq> [] then out else err)) (\<lambda>cur.
         if cur = Unparseable then
           say_fail (JObj [(''error'', JStr ''could not parse current quota''), (''share'', JStr (sq_share a)),
             (''stdout'', JStr (take 300 out))])
         else
           quota_result (quota_drift cur gib hard) (sq_check a)
             (if gib = 0 then quota_run H [''--clear-share'', sq_share a]
              else quota_run H [''--set-share'', sq_share a, ''--size'', str_int (gib * GIB), ''--type'', if hard then ''hard'' else ''soft'']))))"

record user_quota_args =
  uq_user :: string
  uq_volume :: string
  uq_size_gib :: string
  uq_hard :: string
  uq_check :: bool

definition do_user_quota :: "'w host \<Rightarrow> user_quota_args \<Rightarrow> ('w box, int) eff" where
  "do_user_quota H a =
     bindE (int_of_text (uq_size_gib a)) (\<lambda>gib.
       let hard = bool_text (uq_hard a); who = [''--user'', uq_user a, ''--volume'', uq_volume a] in
       bindE (run_tool H ([SYNOQUOTA, ''--get''] @ who)) (\<lambda>(rc, out, err).
       bindE (parse_current (if out \<noteq> [] then out else err)) (\<lambda>cur.
         if cur = Unparseable then
           say_fail (JObj [(''error'', JStr ''could not parse current quota''), (''user'', JStr (uq_user a)),
             (''volume'', JStr (uq_volume a)), (''stdout'', JStr (take 300 out))])
         else
           quota_result (quota_drift cur gib hard) (uq_check a)
             (if gib = 0 then quota_run H (''--clear'' # who)
              else quota_run H (''--set'' # who @ [''--size'', str_int (gib * GIB), ''--type'', if hard then ''hard'' else ''soft''])))))"

end
