(* ===== verification/Dsm_Users.thy ===== *)
theory Dsm_Users
  imports Webapi
begin

text \<open>
  The applier of home directories and authorized keys, \<open>apply_users.py\<close>. The account database and
  base64 are the parameters \<open>accounts\<close>. Warnings on the error output are not part of the state; the
  message of a \<open>SystemExit\<close> is its exit status 1.
\<close>

section \<open>The home service\<close>

definition HOME_API :: string where
  "HOME_API = ''SYNO.Core.User.Home''"

definition DIRECTORY_DOMAIN_API :: string where
  "DIRECTORY_DOMAIN_API = ''SYNO.Core.Directory.Domain''"

text \<open>Whether the NAS is in a domain; any failure to find out reads as no.\<close>

definition is_ad_joined :: "'w host \<Rightarrow> ('w box, bool) eff" where
  "is_ad_joined H =
     catchE
       (bindE (webapi_exec H DIRECTORY_DOMAIN_API [version 1, ''method=get'']) (\<lambda>resp.
        bindE (get_key ''data'' resp) (\<lambda>d. bindE (get_key ''enable_domain'' (case d of None \<Rightarrow> JObj [] | Some v \<Rightarrow> v)) (\<lambda>e.
          retE (case e of None \<Rightarrow> False | Some v \<Rightarrow> truthy v)))))
       is_Exception (\<lambda>_. retE False)"

record home_args =
  ho_enable :: string
  ho_include_domain_users :: string
  ho_check :: bool

text \<open>Outside a domain, homes of domain users stay as they are.\<close>

definition home_desired :: "'w host \<Rightarrow> home_args \<Rightarrow> json \<Rightarrow> ('w box, dict) eff" where
  "home_desired H a current =
     (let enable = JBool (bool_text (ho_enable a)); include = bool_text (ho_include_domain_users a) in
      if \<not> include then retE [(''enable'', enable), (''enable_domain'', JBool False)]
      else bindE (is_ad_joined H) (\<lambda>joined.
        if joined then retE [(''enable'', enable), (''enable_domain'', JBool True)]
        else bindE (get_key ''enable_domain'' current) (\<lambda>c.
          retE [(''enable'', enable), (''enable_domain'', case c of None \<Rightarrow> JBool False | Some v \<Rightarrow> v)])))"

definition do_home :: "'w host \<Rightarrow> home_args \<Rightarrow> ('w box, int) eff" where
  "do_home H a =
     bindE (webapi_exec H HOME_API [version 1, ''method=get'']) (\<lambda>resp. bindE (field ''data'' resp) (\<lambda>current.
     bindE (home_desired H a current) (\<lambda>desired. bindE (differ plainly current desired) (\<lambda>drift.
       if drift = [] then no_change
       else if ho_check a then bindE (say (''WOULD-CHANGE '' @ dumps (sort_keys (JObj drift)))) (\<lambda>_. retE 0)
       else
         bindE (update current desired) (\<lambda>payload.
         bindE (webapi_exec H HOME_API [version 1, ''method=set'', ''Input='' @ dumps (JObj payload)]) (\<lambda>res.
         bindE (is_success res) (\<lambda>ok.
           if \<not> ok then say_fail res
           else
             bindE (webapi_exec H HOME_API [version 1, ''method=get'']) (\<lambda>again. bindE (field ''data'' again) (\<lambda>verify.
             bindE (differ plainly verify desired) (\<lambda>dropped.
               if dropped \<noteq> [] then
                 bindE (say (''OK no-change (deferred '' @ em_dash @ '' DSM silently dropped '' @
                   repr (JArr (map JStr (sort (map fst dropped)))) @ '')'')) (\<lambda>_. retE 0)
               else bindE (say (''CHANGED '' @ dumps (sort_keys (JObj drift)))) (\<lambda>_. retE 0)))))))))))"

section \<open>Authorized keys\<close>

text \<open>A user's home, uid and gid, and \<open>b64decode(...).decode("utf-8")\<close>.\<close>

record accounts =
  getpwnam :: "string \<Rightarrow> (string \<times> int \<times> int) option"
  b64_text :: "string \<Rightarrow> string option"

record keys_args =
  ky_username :: string
  ky_keys :: "string option"
  ky_keys_b64 :: "string option"
  ky_check :: bool

text \<open>\<open>(k or "").strip()\<close> for each key; blank and repeated ones are dropped.\<close>

definition key_line :: "json \<Rightarrow> ('s, string) eff" where
  "key_line k = (if \<not> truthy k then retE [] else case k of JStr s \<Rightarrow> retE (strip s) | _ \<Rightarrow> raiseE AttributeError)"

definition add_key :: "string list \<Rightarrow> string \<Rightarrow> string list" where
  "add_key out k = (if k = [] \<or> k \<in> set out then out else out @ [k])"

definition normalize :: "json list \<Rightarrow> ('s, string) eff" where
  "normalize keys =
     bindE (mapE key_line keys) (\<lambda>ks. let out = foldl add_key [] ks in
       retE (if out = [] then [] else join [CHR 0x0A] out @ [CHR 0x0A]))"

definition given_text :: "string option \<Rightarrow> bool" where
  "given_text s = (case s of None \<Rightarrow> False | Some t \<Rightarrow> t \<noteq> [])"

definition keys_text :: "accounts \<Rightarrow> keys_args \<Rightarrow> ('s, string) eff" where
  "keys_text P a =
     (if given_text (ky_keys_b64 a) then
        (case b64_text P (the (ky_keys_b64 a)) of None \<Rightarrow> raiseE (SystemExit 1) | Some t \<Rightarrow> retE t)
      else if given_text (ky_keys a) then retE (the (ky_keys a))
      else raiseE (SystemExit 1))"

definition key_list :: "'w host \<Rightarrow> accounts \<Rightarrow> keys_args \<Rightarrow> ('s, json list) eff" where
  "key_list H P a =
     bindE (keys_text P a) (\<lambda>s.
       case loads H s of Some (JArr xs) \<Rightarrow> retE xs | _ \<Rightarrow> raiseE (SystemExit 1))"

definition py_len :: "string \<Rightarrow> int" where
  "py_len s = int (length (code_points (map of_char s)))"

definition key_summary :: "string \<Rightarrow> string \<Rightarrow> string option \<Rightarrow> string \<Rightarrow> dict" where
  "key_summary user auth current desired =
     [(''user'', JStr user), (''path'', JStr auth), (''exists'', JBool (current \<noteq> None)),
      (''bytes_current'', JNum (case current of None \<Rightarrow> 0 | Some c \<Rightarrow> py_len c)), (''bytes_desired'', JNum (py_len desired)),
      (''keys_desired'', JNum (int (length (filter (\<lambda>c. c = CHR 0x0A) desired))))]"

text \<open>\<open>open(path).read()\<close>, where only a missing file is caught.\<close>

definition read_existing :: "'w host \<Rightarrow> string \<Rightarrow> ('w box, string option) eff" where
  "read_existing H path =
     catchE (bindE (read_text H path) (\<lambda>c. retE (Some c))) (\<lambda>e. e = OSError ENOENT) (\<lambda>_. retE None)"

text \<open>\<open>NamedTemporaryFile("w", dir=d, delete=False, ...)\<close>: a new file for its owner only.\<close>

definition named_temp :: "'w host \<Rightarrow> string \<Rightarrow> string \<Rightarrow> string \<Rightarrow> ('w box, string) eff" where
  "named_temp H d before after =
     bindE (getE (\<lambda>s. path_join d (before @ random_name H (outer s) @ after))) (\<lambda>tmp.
     bindE (os_call H (MkTemp tmp)) (\<lambda>_. bindE (getE files) (\<lambda>fs.
       if fs tmp \<noteq> None then oserror EEXIST
       else if \<not> is_dir fs d then oserror ENOENT
       else bindE (set_file tmp (Some (Plain [] (perm 6 0 0) (euid H)))) (\<lambda>_. retE tmp))))"

definition write_keys :: "'w host \<Rightarrow> string \<Rightarrow> string \<Rightarrow> string \<Rightarrow> int \<times> int \<Rightarrow> ('w box, unit) eff" where
  "write_keys H ssh_dir auth desired ids =
     bindE (makedirs H ssh_dir) (\<lambda>_. bindE (os_chown H ssh_dir ids) (\<lambda>_. bindE (os_chmod H ssh_dir (perm 7 0 0)) (\<lambda>_.
     bindE (named_temp H ssh_dir ''.authorized_keys.'' ''.tmp'') (\<lambda>tmp. bindE (os_write H tmp desired) (\<lambda>_.
     bindE (os_chmod H tmp (perm 6 0 0)) (\<lambda>_. bindE (os_chown H tmp ids) (\<lambda>_. os_replace H tmp auth)))))))"

definition do_authorized_keys :: "'w host \<Rightarrow> accounts \<Rightarrow> keys_args \<Rightarrow> ('w box, int) eff" where
  "do_authorized_keys H P a =
     bindE (key_list H P a) (\<lambda>keys. bindE (normalize keys) (\<lambda>desired.
       case getpwnam P (ky_username a) of
         None \<Rightarrow> no_change
       | Some (home, ids) \<Rightarrow>
           let ssh_dir = path_join home ''.ssh''; auth = path_join ssh_dir ''authorized_keys'' in
           bindE (read_existing H auth) (\<lambda>current.
             let summary = JObj (key_summary (ky_username a) auth current desired) in
             if desired = [] \<or> current = Some desired then no_change
             else if ky_check a then bindE (say (''WOULD-CHANGE '' @ dumps (sort_keys summary))) (\<lambda>_. retE 0)
             else
               andthen (attempt (write_keys H ssh_dir auth desired ids) is_OSError (\<lambda>e. [(''error'', JStr (str_exc H e))])) (\<lambda>_.
                 bindE (say (''CHANGED '' @ dumps (sort_keys summary))) (\<lambda>_. retE 0)))))"

end
