(* ===== verification/Dsm_Ssh.thy ===== *)
theory Dsm_Ssh
  imports Dsm_Users
begin

text \<open>
  The applier of the SSH daemon, \<open>apply_ssh.py\<close>: the terminal settings, and the transaction over three
  files (a drop-in, the main configuration, a helper script) that is checked with \<open>sshd -t\<close> and
  rolled back when the check fails. The texts of the three files are templates, line by line. The flag
  \<open>--sftp-enable\<close>, which the code ignores, has no field.
\<close>

section \<open>Terminal settings\<close>

definition TERMINAL_API :: string where "TERMINAL_API = ''SYNO.Core.Terminal''"

definition TERMINAL_VER :: int where "TERMINAL_VER = 3"

record terminal_args =
  te_ssh_enable :: string
  te_ssh_port :: string
  te_telnet_enable :: string
  te_check :: bool

definition do_terminal :: "'w host \<Rightarrow> terminal_args \<Rightarrow> ('w box, int) eff" where
  "do_terminal H a =
     bindE (int_of_text (te_ssh_port a)) (\<lambda>port.
       overlay H plainly TERMINAL_API [version TERMINAL_VER, ''method=get''] [version TERMINAL_VER, ''method=set'']
         [(''enable_ssh'', JBool (bool_text (te_ssh_enable a))), (''ssh_port'', JNum port),
          (''enable_telnet'', JBool (bool_text (te_telnet_enable a)))]
         (te_check a))"

section \<open>The three files\<close>

definition SSHD_DROP_IN :: string where "SSHD_DROP_IN = ''/etc/ssh/sshd_config.d/10-krg-hardening.conf''"

definition SSHD_MAIN :: string where "SSHD_MAIN = ''/etc/ssh/sshd_config''"

definition AD_AUTHKEYS_PATH :: string where "AD_AUTHKEYS_PATH = ''/usr/local/bin/krg-ad-authkeys''"

definition unlines :: "string list \<Rightarrow> string" where
  "unlines ls = concat (map (\<lambda>l. l @ [CHR 0x0A]) ls)"

definition yes_no :: "bool \<Rightarrow> string" where
  "yes_no b = (if b then ''yes'' else ''no'')"

text \<open>\<open>SSHD_TEMPLATE\<close> with its fields filled in.\<close>

definition SSHD_HEAD :: "string list" where
  "SSHD_HEAD =
     [''# Managed by Ansible (krg-infra synology_ssh) '' @ em_dash @ '' DO NOT EDIT.'',
      ''# Mirrors ansible/roles/ssh_hardening/templates/10-krg-hardening.conf.j2 and'',
      ''# nix/profiles/base.nix services.openssh.settings. DSM'' @ [CHR 0x27] @ ''s UI has no toggle for'',
      ''# these settings, so they live here. A DSM major update can REVERT this file'',
      ''# AND the main-config Include directive '' @ em_dash @ '' re-apply synology_base after upgrades.'',
      []]"

definition render_drop_in :: "bool \<Rightarrow> bool \<Rightarrow> string \<Rightarrow> string" where
  "render_drop_in allow_password allow_root allowed_algos =
     unlines (SSHD_HEAD @
       [''PasswordAuthentication '' @ yes_no allow_password, ''PermitRootLogin '' @ yes_no allow_root,
        ''ChallengeResponseAuthentication no'', ''KbdInteractiveAuthentication no''] @
       (if allowed_algos = [] then []
        else [''PubkeyAcceptedKeyTypes '' @ allowed_algos, ''HostKeyAlgorithms '' @ allowed_algos]) @
       [''AuthorizedKeysCommand '' @ AD_AUTHKEYS_PATH, ''AuthorizedKeysCommandUser root''])"

definition INCLUDE_BEGIN_MARKER :: string where
  "INCLUDE_BEGIN_MARKER = ''# --- BEGIN KRG-MANAGED Include (synology_ssh) ---''"

definition INCLUDE_END_MARKER :: string where
  "INCLUDE_END_MARKER = ''# --- END KRG-MANAGED Include (synology_ssh) ---''"

definition INCLUDE_BLOCK :: string where
  "INCLUDE_BLOCK =
     unlines
      ([INCLUDE_BEGIN_MARKER] @
       [''# DSM ships sshd_config without an `Include` directive, leaving the drop-in at'',
        ''# /etc/ssh/sshd_config.d/*.conf orphaned. Prepended at the top so first-wins'',
        ''# semantics give the drop-in'' @ [CHR 0x27] @ ''s PasswordAuthentication=no priority over the'',
        ''# `PasswordAuthentication yes` line further down in this file.'',
        ''Include /etc/ssh/sshd_config.d/*.conf''] @
       [INCLUDE_END_MARKER, []])"

definition ensure_include_block :: "string \<Rightarrow> string" where
  "ensure_include_block content = (if contains content INCLUDE_BEGIN_MARKER then content else INCLUDE_BLOCK @ content)"

definition AD_AUTHKEYS_SCRIPT :: string where
  "AD_AUTHKEYS_SCRIPT =
     unlines
      [''#!/bin/sh'',
       ''# Managed by Ansible (krg-infra synology_ssh) '' @ em_dash @ '' DO NOT EDIT.'',
       ''# AuthorizedKeysCommand for sshd: prints AD-served sshPublicKey lines for $1.'',
       ''set -eu'',
       ''USER='' @ [CHR 0x22] @ ''${1:-}'' @ [CHR 0x22],
       ''[ -n '' @ [CHR 0x22] @ ''$USER'' @ [CHR 0x22] @ '' ] || exit 0'',
       ''# Whitelist sAMAccountName characters; reject anything else (LDAP-injection /'',
       ''# shell-meta guard '' @ em_dash @ '' sshd already passes %u which is unescaped).'',
       ''case '' @ [CHR 0x22] @ ''$USER'' @ [CHR 0x22] @ '' in'',
       ''  *[!A-Za-z0-9._-]*) exit 0 ;;'',
       ''esac'',
       ''/usr/local/bin/net ads search '' @ [CHR 0x22] @ ''(sAMAccountName=$USER)'' @ [CHR 0x22] @ '' sshPublicKey 2>/dev/null '' @ [CHR 0x5C],
       ''  | sed -n '' @ [CHR 0x27] @ ''s/^sshPublicKey: //p'' @ [CHR 0x27]]"

section \<open>The transaction\<close>

definition basename :: "string \<Rightarrow> string" where
  "basename p = rev (takeWhile (\<lambda>c. c \<noteq> CHR ''/'') (rev p))"

text \<open>Replacing a file by a complete new one; a temporary file stays when a step fails.\<close>

definition ssh_atomic_write :: "'w host \<Rightarrow> string \<Rightarrow> string \<Rightarrow> nat \<Rightarrow> ('w box, unit) eff" where
  "ssh_atomic_write H path content mode =
     bindE (makedirs H (dirname path)) (\<lambda>_.
     bindE (named_temp H (dirname path) (''.'' @ basename path @ ''.'') ''.tmp'') (\<lambda>tmp.
     bindE (os_write H tmp content) (\<lambda>_. bindE (os_chmod H tmp mode) (\<lambda>_. os_replace H tmp path))))"

text \<open>\<open>open(path, "w")\<close>: the file is emptied, or made with the usual mode when it is not there.\<close>

definition open_w :: "'w host \<Rightarrow> string \<Rightarrow> ('w box, unit) eff" where
  "open_w H path =
     bindE (os_call H (WriteTo path [])) (\<lambda>_. bindE (getE files) (\<lambda>fs.
       if is_dir fs path then oserror EISDIR
       else if \<not> is_dir fs (dirname path) then oserror ENOENT
       else case fs path of
         Some (Plain c m ids) \<Rightarrow> set_file path (Some (Plain [] m ids))
       | _ \<Rightarrow> set_file path (Some (Plain [] (perm 6 4 4) (euid H)))))"

definition restore :: "'w host \<Rightarrow> string \<Rightarrow> string option \<Rightarrow> ('w box, unit) eff" where
  "restore H path old_content =
     (case old_content of
        None \<Rightarrow> catchE (os_unlink H path) (\<lambda>e. e = OSError ENOENT) (\<lambda>_. retE ())
      | Some c \<Rightarrow> bindE (open_w H path) (\<lambda>_. os_write H path c))"

definition FILE_MODES :: "(string \<times> nat) list" where
  "FILE_MODES = [(AD_AUTHKEYS_PATH, perm 7 5 5), (SSHD_DROP_IN, perm 6 4 4), (SSHD_MAIN, perm 6 4 4)]"

definition mode_of :: "string \<Rightarrow> nat" where
  "mode_of p = (case dict_get FILE_MODES p of None \<Rightarrow> 0 | Some m \<Rightarrow> m)"

type_synonym change = "string \<times> string option \<times> string"

definition plan_file :: "'w host \<Rightarrow> change list \<Rightarrow> string \<times> string \<Rightarrow> ('w box, change list) eff" where
  "plan_file H plan p =
     bindE (read_existing H (fst p)) (\<lambda>old.
       retE (if old \<noteq> Some (snd p) then plan @ [(fst p, old, snd p)] else plan))"

definition drift_summary :: "change list \<Rightarrow> json" where
  "drift_summary plan =
     JObj (map (\<lambda>(p, old, new). (p, JObj
       [(''exists'', JBool (old \<noteq> None)), (''bytes_current'', JNum (case old of None \<Rightarrow> 0 | Some c \<Rightarrow> py_len c)),
        (''bytes_desired'', JNum (py_len new))])) plan)"

definition sshd_test :: "string list" where
  "sshd_test = [''sshd'', ''-t'']"

definition sshd_restart :: "string list" where
  "sshd_restart = [''systemctl'', ''restart'', ''sshd'']"

text \<open>Checking what was written, and either rolling back or restarting; \<open>Inl\<close> is an early return.\<close>

definition sshd_verify :: "'w host \<Rightarrow> change list \<Rightarrow> ('w box, int + unit) eff" where
  "sshd_verify H plan =
     bindE (run_tool H sshd_test) (\<lambda>(rc, out, err).
       if rc \<noteq> 0 then
         bindE (forE (rev plan) (\<lambda>(p, old, new). restore H p old)) (\<lambda>_.
           stop_with [(''sshd -t'', JStr (take 400 (strip err)))])
       else
         bindE (run_tool H sshd_restart) (\<lambda>(rc2, out2, err2).
           if rc2 \<noteq> 0 then stop_with [(''systemctl restart sshd'', JStr (take 400 (strip err2)))]
           else go_on ()))"

definition sshd_apply :: "'w host \<Rightarrow> change list \<Rightarrow> ('w box, int + unit) eff" where
  "sshd_apply H plan =
     bindE (forE plan (\<lambda>(p, old, new). ssh_atomic_write H p new (mode_of p))) (\<lambda>_. sshd_verify H plan)"

record dropin_args =
  di_allow_password :: string
  di_allow_root :: string
  di_allowed_algos :: string
  di_check :: bool

definition sshd_plan :: "'w host \<Rightarrow> dropin_args \<Rightarrow> ('w box, change list) eff" where
  "sshd_plan H a =
     bindE (read_existing H SSHD_MAIN) (\<lambda>main.
     foldE (plan_file H) []
       [(SSHD_DROP_IN, render_drop_in (bool_text (di_allow_password a)) (bool_text (di_allow_root a)) (di_allowed_algos a)),
        (AD_AUTHKEYS_PATH, AD_AUTHKEYS_SCRIPT),
        (SSHD_MAIN, ensure_include_block (case main of None \<Rightarrow> [] | Some c \<Rightarrow> c))])"

text \<open>The \<open>try\<close> block and the last line: an \<open>OSError\<close> is reported, and nothing is rolled back then.\<close>

definition sshd_commit :: "'w host \<Rightarrow> change list \<Rightarrow> ('w box, int) eff" where
  "sshd_commit H plan =
     bindE (catchE (bindE (sshd_apply H plan) (\<lambda>r. retE (Inr r))) is_OSError (\<lambda>e. retE (Inl e))) (\<lambda>r.
       case r of
         Inl e \<Rightarrow> say_fail (JObj [(''error'', JStr (str_exc H e))])
       | Inr (Inl rc) \<Rightarrow> retE rc
       | Inr (Inr u) \<Rightarrow> bindE (say (''CHANGED '' @ dumps (sort_keys (drift_summary plan)))) (\<lambda>_. retE 0))"

definition do_sshd_drop_in :: "'w host \<Rightarrow> dropin_args \<Rightarrow> ('w box, int) eff" where
  "do_sshd_drop_in H a =
     bindE (sshd_plan H a) (\<lambda>plan.
       if plan = [] then no_change
       else if di_check a then bindE (say (''WOULD-CHANGE '' @ dumps (sort_keys (drift_summary plan)))) (\<lambda>_. retE 0)
       else sshd_commit H plan)"

end
