(* ===== verification/Dsm_Reads.thy ===== *)
theory Dsm_Reads
  imports Webapi_Facts Dsm_Services Dsm_System Dsm_Acls Dsm_Quotas Dsm_Ssh
begin

text \<open>With \<open>--check\<close> the appliers of the NAS only read.\<close>

lemma reads_get: "reads (Cmd (webapi_argv api (version n # ''method=get'' # ps)))"
  and reads_load: "reads (Cmd (webapi_argv api (version n # ''method=load'' # ps)))"
  by (simp_all add: reads_webapi)

lemma reads_list_acl: "reads (Cmd [SYNOSHARE, ''--list_acl'', share])"
  and reads_is_onoff: "reads (Cmd [SYNOPKG, ''is_onoff'', name])"
  and reads_quota: "reads (Cmd (SYNOQUOTA # ''--get'' # who))" "reads (Cmd [SYNOQUOTA, ''--get-share'', share])"
  by (simp_all add: reads_def)

lemmas reads_calls = reads_get reads_load reads_list_acl reads_is_onoff reads_quota

section \<open>Services and notifications\<close>

lemma does_apply_service: "keeps (did reads) (apply_service H svc desired True)"
  unfolding apply_service_def by (auto intro!: does_web does_rules reads_calls split: option.split)

lemma does_apply_full: "keeps (did reads) (apply_full H api ver desired True)"
  unfolding apply_full_def by (auto intro!: does_web reads_calls)

lemma does_object_or_empty: "keeps (did A) (object_or_empty k cur)"
  unfolding object_or_empty_def by (auto intro!: does_rules split: json.split)

lemma does_mail: "keeps (did reads) (smtp_info H a)" "keeps (did reads) (smtp_auth H a)"
  unfolding smtp_info_def smtp_auth_def
  by (auto intro!: does_rules does_web does_object_or_empty reads_calls split: option.split)

lemma does_toggle: "keeps (did reads) (toggle H api key enable True)"
  unfolding toggle_def Let_def
  by (auto intro!: does_rules does_web reads_calls split: sum.split)

lemma does_desired: "keeps (did A) (desired_from_args a)" "keeps (did A) (tls_level t)"
  unfolding desired_from_args_def smb_protocol_def tls_level_def
  by (auto intro!: does_rules split: option.split)

lemma does_nfs_norm: "keeps (did A) (nfs_norm r)"
  unfolding nfs_norm_def rule_client_def by (auto intro!: does_rules split: option.split)

lemma services_read:
  "keeps (did reads) (do_ftp H (fa\<lparr>ft_check := True\<rparr>))" "keeps (did reads) (do_afp H (aa\<lparr>af_check := True\<rparr>))"
  "keeps (did reads) (do_snmp H (sa\<lparr>sn_check := True\<rparr>))"
  by (simp_all add: do_ftp_def do_afp_def do_snmp_def does_apply_service)

lemma notifications_read:
  "keeps (did reads) (do_mail H (ma\<lparr>ml_check := True\<rparr>))" "keeps (did reads) (do_sms H (ta\<lparr>tg_check := True\<rparr>))"
  "keeps (did reads) (do_push H (pa\<lparr>pu_check := True\<rparr>))" "keeps (did reads) (do_cms H (ta\<lparr>tg_check := True\<rparr>))"
  unfolding do_mail_def do_sms_def do_push_def do_cms_def
  by (auto intro!: does_rules does_apply_full does_mail)

lemma web_read:
  "keeps (did reads) (do_web H (wa\<lparr>wb_check := True\<rparr>))" "keeps (did reads) (do_tls H (la\<lparr>tl_check := True\<rparr>))"
  unfolding do_web_def do_tls_def by (auto intro!: does_rules does_web does_desired reads_calls)

lemma access_read:
  "keeps (did reads) (do_quickconnect H (sa\<lparr>sw_check := True\<rparr>))" "keeps (did reads) (do_upnp H (sa\<lparr>sw_check := True\<rparr>))"
  "keeps (did reads) (do_ddns H (sa\<lparr>sw_check := True\<rparr>))"
  unfolding do_quickconnect_def do_upnp_def do_ddns_def by (auto intro!: does_toggle)

lemma shares_read:
  "keeps (did reads) (smb_main H (ba\<lparr>sm_check := True\<rparr>))" "keeps (did reads) (do_global H (na\<lparr>nf_check := True\<rparr>))"
  "keeps (did reads) (do_share_rules H (ra\<lparr>ru_check := True\<rparr>))" "keeps (did reads) (do_share H (pa\<lparr>sp_check := True\<rparr>))"
  unfolding smb_main_def do_global_def do_share_rules_def do_share_def
  by (auto intro!: does_rules does_web does_desired does_nfs_norm reads_calls)

section \<open>The system\<close>

lemma does_exits: "keeps (did A) (loads_or_exit H s)" "keeps (did A) (loads_or_empty H s)" "keeps (did A) (must_be_list j)"
  "keeps (did A) (check_categories H c)" "keeps (did A) (as_dict j)" "keeps (did A) (without_read_only j)"
  "keeps (did A) (get_failed api ver err missing)"
  unfolding loads_or_exit_def loads_or_empty_def must_be_list_def check_categories_def as_dict_def without_read_only_def get_failed_def
  by (auto intro!: does_rules does_web split: option.split json.split)

lemma does_pkg: "keeps (did reads) (pkg_is_installed H p)" "keeps (did reads) (pkg_is_on H p)"
  unfolding pkg_is_installed_def pkg_is_on_def by (auto intro!: does_rules reads_calls)

lemma packages_read: "keeps (did reads) (do_package_state H (ka\<lparr>pk_check := True\<rparr>))"
  unfolding do_package_state_def by (auto intro!: does_rules does_web does_exits does_pkg split: option.split)

lemma system_read:
  "keeps (did reads) (do_package_defaults H (va\<lparr>vo_check := True\<rparr>))" "keeps (did reads) (do_ntp H (ta\<lparr>nt_check := True\<rparr>))"
  "keeps (did reads) (do_network H (na\<lparr>nw_check := True\<rparr>))"
  unfolding do_package_defaults_def do_ntp_def do_network_def Let_def
  by (auto intro!: does_rules does_web does_apply_full reads_calls)

lemma updates_read: "keeps (did reads) (do_setting H (ua\<lparr>up_check := True\<rparr>))"
  unfolding do_setting_def Let_def schedule_drift_def
  by (auto intro!: does_rules does_web does_exits reads_calls split: option.split)

lemma advisor_read: "keeps (did reads) (do_main H (da\<lparr>sa_check := True\<rparr>))"
  unfolding do_main_def Let_def
  by (auto intro!: does_rules does_web does_exits reads_calls split: option.split)

lemma does_sso_get: "keeps (did reads) (sso_get H api)"
  unfolding sso_get_def by (auto intro!: does_rules does_web reads_calls)

lemma sso_read: "keeps (did reads) (do_oidc H (oa\<lparr>oi_check := True\<rparr>))"
  unfolding do_oidc_def Let_def
  by (auto intro!: does_rules does_web does_exits does_sso_get)

text \<open>Without \<open>--check\<close> too, these two only read.\<close>

lemma ad_read: "keeps (did reads) (do_domain_config H ca)" "keeps (did reads) (do_test_join H)"
  unfolding do_domain_config_def do_test_join_def joined_data_def
  by (auto intro!: does_rules does_web does_exits reads_calls split: option.split sum.split)

section \<open>Accounts, permissions and quotas\<close>

lemma does_acl_desired: "keeps (did A) (acl_desired g)"
  unfolding acl_desired_def acl_grant_def has_key_def
  by (auto intro!: does_rules split: json.split option.split)

lemma does_tiers: "keeps (did reads) (current_tiers H share)" "keeps (did reads) (missing_in H tier desired acc j)"
  unfolding missing_in_def current_tiers_def Let_def by (auto intro!: does_rules reads_calls)

lemma acls_read:
  "keeps (did reads) (do_setuser H (sa\<lparr>su_check := True\<rparr>))" "keeps (did reads) (do_admin_grants H (ga\<lparr>ag_check := True\<rparr>))"
  "keeps (did reads) (do_recursive_stamp H (ra\<lparr>st_check := True\<rparr>))"
  unfolding do_setuser_def do_admin_grants_def do_recursive_stamp_def Let_def
  by (auto intro!: does_rules does_web does_acl_desired does_tiers)

lemma does_parse_current: "keeps (did A) (parse_current s)"
  unfolding parse_current_def Let_def by (auto intro!: does_rules split: option.split)

lemma quotas_read:
  "keeps (did reads) (do_share_quota H (qa\<lparr>sq_check := True\<rparr>))" "keeps (did reads) (do_user_quota H (za\<lparr>uq_check := True\<rparr>))"
  unfolding do_share_quota_def do_user_quota_def quota_result_def Let_def
  by (auto intro!: does_rules does_web does_parse_current reads_calls)

lemma does_home_desired: "keeps (did reads) (home_desired H a cur)"
  unfolding home_desired_def is_ad_joined_def Let_def
  by (auto intro!: does_rules does_web reads_calls split: option.split)

lemma does_key_line: "keeps (did A) (key_line k)"
  unfolding key_line_def by (cases k) (auto intro!: does_rules)

lemma does_key_list: "keeps (did A) (key_list H P a)" "keeps (did A) (normalize ks)"
  unfolding key_list_def keys_text_def normalize_def Let_def
  by (auto intro!: does_rules does_key_line split: option.split json.split)

lemma does_read_existing: "keeps (did reads) (read_existing H p)"
  unfolding read_existing_def by (auto intro!: does_rules)

lemma users_read:
  "keeps (did reads) (do_home H (ha\<lparr>ho_check := True\<rparr>))" "keeps (did reads) (do_authorized_keys H P (ka\<lparr>ky_check := True\<rparr>))"
  unfolding do_home_def do_authorized_keys_def Let_def
  by (auto intro!: does_rules does_web does_home_desired does_key_list does_read_existing reads_calls split: option.split)

section \<open>The SSH daemon\<close>

lemma does_plan: "keeps (did reads) (sshd_plan H a)"
  unfolding sshd_plan_def plan_file_def by (auto intro!: does_rules does_read_existing)

lemma ssh_read:
  "keeps (did reads) (do_terminal H (ta\<lparr>te_check := True\<rparr>))" "keeps (did reads) (do_sshd_drop_in H (da\<lparr>di_check := True\<rparr>))"
  unfolding do_terminal_def do_sshd_drop_in_def
  by (auto intro!: does_rules does_web does_plan reads_calls)

end
