(* ===== verification/Dsm_Claims.thy ===== *)
theory Dsm_Claims
  imports Dsm_Reads
begin

text \<open>
  Properties of the NAS appliers that work through DSM's web API and command-line tools, over any host:
  any synowebapi, any failures of system calls.
\<close>

section \<open>Check mode\<close>

text \<open>
  C19. With \<open>--check\<close> every subcommand of every NAS applier modelled here only reads: it calls the reading
  methods of web APIs, lists permissions, quotas and packages, and reads files. \<open>domain-config\<close> and
  \<open>test-join\<close> do no more even without it.
\<close>

theorem nas_check_only_reads:
  "keeps (did reads) (do_ftp H (ftp\<lparr>ft_check := True\<rparr>)) \<and> keeps (did reads) (do_afp H (afp\<lparr>af_check := True\<rparr>)) \<and>
   keeps (did reads) (do_snmp H (snmp\<lparr>sn_check := True\<rparr>)) \<and> keeps (did reads) (do_mail H (mail\<lparr>ml_check := True\<rparr>)) \<and>
   keeps (did reads) (do_sms H (sw\<lparr>tg_check := True\<rparr>)) \<and> keeps (did reads) (do_push H (push\<lparr>pu_check := True\<rparr>)) \<and>
   keeps (did reads) (do_cms H (sw\<lparr>tg_check := True\<rparr>)) \<and> keeps (did reads) (do_web H (web\<lparr>wb_check := True\<rparr>)) \<and>
   keeps (did reads) (do_tls H (tls\<lparr>tl_check := True\<rparr>)) \<and> keeps (did reads) (do_quickconnect H (acc\<lparr>sw_check := True\<rparr>)) \<and>
   keeps (did reads) (do_upnp H (acc\<lparr>sw_check := True\<rparr>)) \<and> keeps (did reads) (do_ddns H (acc\<lparr>sw_check := True\<rparr>)) \<and>
   keeps (did reads) (smb_main H (smb\<lparr>sm_check := True\<rparr>)) \<and> keeps (did reads) (do_global H (nfs\<lparr>nf_check := True\<rparr>)) \<and>
   keeps (did reads) (do_share_rules H (rules\<lparr>ru_check := True\<rparr>)) \<and> keeps (did reads) (do_share H (snaps\<lparr>sp_check := True\<rparr>)) \<and>
   keeps (did reads) (do_package_state H (pkgs\<lparr>pk_check := True\<rparr>)) \<and>
   keeps (did reads) (do_package_defaults H (vol\<lparr>vo_check := True\<rparr>)) \<and> keeps (did reads) (do_ntp H (ntp\<lparr>nt_check := True\<rparr>)) \<and>
   keeps (did reads) (do_network H (net\<lparr>nw_check := True\<rparr>)) \<and> keeps (did reads) (do_setting H (upd\<lparr>up_check := True\<rparr>)) \<and>
   keeps (did reads) (do_main H (adv\<lparr>sa_check := True\<rparr>)) \<and> keeps (did reads) (do_oidc H (sso\<lparr>oi_check := True\<rparr>)) \<and>
   keeps (did reads) (do_domain_config H ad) \<and> keeps (did reads) (do_test_join H) \<and>
   keeps (did reads) (do_setuser H (acl\<lparr>su_check := True\<rparr>)) \<and> keeps (did reads) (do_admin_grants H (adm\<lparr>ag_check := True\<rparr>)) \<and>
   keeps (did reads) (do_recursive_stamp H (stamp\<lparr>st_check := True\<rparr>)) \<and>
   keeps (did reads) (do_share_quota H (sq\<lparr>sq_check := True\<rparr>)) \<and> keeps (did reads) (do_user_quota H (uq\<lparr>uq_check := True\<rparr>)) \<and>
   keeps (did reads) (do_home H (home\<lparr>ho_check := True\<rparr>)) \<and> keeps (did reads) (do_authorized_keys H P (ak\<lparr>ky_check := True\<rparr>)) \<and>
   keeps (did reads) (do_terminal H (term'\<lparr>te_check := True\<rparr>)) \<and> keeps (did reads) (do_sshd_drop_in H (ssh\<lparr>di_check := True\<rparr>))"
  by (intro conjI services_read notifications_read web_read access_read shares_read packages_read system_read updates_read
      advisor_read sso_read ad_read acls_read quotas_read users_read ssh_read)

end
