(* ===== verification/Dsm_Ssh_Safe.thy ===== *)
theory Dsm_Ssh_Safe
  imports Dsm_Reads Garage_Files
begin

text \<open>
  What the SSH transaction does to its files. A write that comes to its end has put the complete new
  file in its place and touched nothing else; so the daemon is restarted only on files that
  \<open>sshd -t\<close> has just accepted, and a roll back that comes to its end restores every text.
\<close>

section \<open>One file\<close>

lemma fs_named_temp:
  "fs_triple (grown F) (named_temp H d pre suf) (\<lambda>tmp. temp_at F tmp [] (perm 6 0 0) (euid H)) (grown F)"
proof -
  have "fs_triple (grown F)
      (bindE (getE files) (\<lambda>fs. if fs tmp \<noteq> None then oserror EEXIST else if \<not> is_dir fs d then oserror ENOENT
         else bindE (set_file tmp (Some (Plain [] (perm 6 0 0) (euid H)))) (\<lambda>_. retE tmp)))
      (\<lambda>tmp. temp_at F tmp [] (perm 6 0 0) (euid H)) (grown F)" for tmp
    by (auto simp: fs_triple_def triple_def bindE_def getE_def oserror_def raiseE_def set_file_def modE_def retE_def
        temp_at_def split: res.splits if_splits)
  then show ?thesis
    unfolding named_temp_def by (intro fs_bind[OF _ fs_bind[OF fs_call]]) (auto simp: fs_triple_def intro: triple_get)
qed

lemma fs_ssh_write:
  "fs_triple (\<lambda>G. G = F) (ssh_atomic_write H path c m) (\<lambda>_. placed F path (Plain c m (euid H))) (\<lambda>_. True)"
  unfolding ssh_atomic_write_def
  by (rule fs_conseq[where I = "grown F"],
      rule fs_bind[OF fs_weak[OF fs_growing[OF growing_makedirs]] fs_bind[OF fs_weak[OF fs_named_temp]
        fs_bind[OF fs_weak[OF fs_write] fs_bind[OF fs_weak[OF fs_chmod] fs_weak[OF fs_replace]]]]])
     (auto intro: grown_refl)

lemma ssh_write_Ok:
  assumes "ssh_atomic_write H path c m s = (Ok u, t)"
  shows "placed (files s) path (Plain c m (euid H)) (files t)"
  by (rule tripleD[OF fs_ssh_write[where F = "files s", unfolded fs_triple_def] refl assms])

section \<open>All files\<close>

text \<open>The planned files are there; elsewhere nothing but a directory is new.\<close>

definition written :: "int \<times> int \<Rightarrow> change list \<Rightarrow> tree \<Rightarrow> tree \<Rightarrow> bool" where
  "written ids plan F G \<longleftrightarrow>
     (\<forall>(p, old, new)\<in>set plan. G p = Some (Plain new (mode_of p) ids)) \<and>
     (\<forall>q. q \<notin> fst ` set plan \<longrightarrow> G q = F q \<or> (F q = None \<and> G q = Some Dir))"

lemma placed_other: "placed F p n G \<Longrightarrow> q \<noteq> p \<Longrightarrow> G q = F q \<or> (F q = None \<and> G q = Some Dir)"
  by (auto simp: placed_def grown_def)

lemma writes_Ok:
  assumes "forE plan (\<lambda>(p, old, new). ssh_atomic_write H p new (mode_of p)) s = (Ok u, t)" and "distinct (map fst plan)"
  shows "written (euid H) plan (files s) (files t)"
  using assms
proof (induction plan arbitrary: s)
  case Nil
  then show ?case by (auto simp: written_def)
next
  case (Cons x plan)
  obtain p old new where x: "x = (p, old, new)" by (cases x)
  obtain s1 where 1: "ssh_atomic_write H p new (mode_of p) s = (Ok (), s1)"
    and 2: "forE plan (\<lambda>(p, old, new). ssh_atomic_write H p new (mode_of p)) s1 = (Ok u, t)"
    using Cons.prems(1) by (auto simp: x bindE_Ok_iff)
  have w: "written (euid H) plan (files s1) (files t)" using Cons.IH[OF 2] Cons.prems(2) by simp
  have pl: "placed (files s) p (Plain new (mode_of p) (euid H)) (files s1)" by (rule ssh_write_Ok[OF 1])
  have "files t p = files s1 p"
    using w Cons.prems(2) placed_at[OF pl] by (fastforce simp: written_def x)
  moreover have "files t q = files s q \<or> (files s q = None \<and> files t q = Some Dir)"
    if "q \<notin> fst ` set plan" "q \<noteq> p" for q
    using w placed_other[OF pl, of q] that unfolding written_def by (metis option.distinct(1))
  ultimately show ?case
    using w placed_at[OF pl] by (auto simp: written_def x)
qed


section \<open>The plan\<close>

text \<open>The text of a file as it is read, and the texts that the three files are to have.\<close>

definition text_of :: "tree \<Rightarrow> string \<Rightarrow> string option" where
  "text_of F p = (case F p of Some (Plain c m ids) \<Rightarrow> Some (universal_newlines c) | _ \<Rightarrow> None)"

definition wanted_files :: "dropin_args \<Rightarrow> tree \<Rightarrow> (string \<times> string) list" where
  "wanted_files a F =
     [(SSHD_DROP_IN, render_drop_in (bool_text (di_allow_password a)) (bool_text (di_allow_root a)) (di_allowed_algos a)),
      (AD_AUTHKEYS_PATH, AD_AUTHKEYS_SCRIPT),
      (SSHD_MAIN, ensure_include_block (case text_of F SSHD_MAIN of None \<Rightarrow> [] | Some c \<Rightarrow> c))]"

definition planned_files :: "dropin_args \<Rightarrow> tree \<Rightarrow> change list" where
  "planned_files a F =
     map (\<lambda>(p, new). (p, text_of F p, new)) (filter (\<lambda>(p, new). text_of F p \<noteq> Some new) (wanted_files a F))"

text \<open>The system says that a file is missing only when it is.\<close>

definition honest :: "'w host \<Rightarrow> bool" where
  "honest H \<longleftrightarrow> (\<forall>c w. fst (fate H c w) \<noteq> Fails ENOENT)"

lemma honest_call: "honest H \<Longrightarrow> os_call H c s \<noteq> (Exc (OSError ENOENT), t)"
  unfolding honest_def os_call_def Let_def by (auto split: prod.splits fate.splits) (metis fst_conv)

lemma call_files: "os_call H c s = (r, t) \<Longrightarrow> files t = files s"
  by (auto simp: os_call_def Let_def split: prod.splits fate.splits)

definition ssh_paths :: "string list" where
  "ssh_paths = [SSHD_DROP_IN, AD_AUTHKEYS_PATH, SSHD_MAIN]"

lemma ssh_paths_distinct: "distinct ssh_paths"
  by (simp add: ssh_paths_def SSHD_DROP_IN_def AD_AUTHKEYS_PATH_def SSHD_MAIN_def)

lemma wanted_paths: "map fst (wanted_files a F) = ssh_paths"
  by (simp add: wanted_files_def ssh_paths_def)

lemma ssh_path_dir: "p \<in> set ssh_paths \<Longrightarrow> is_dir F p \<longleftrightarrow> F p = Some Dir"
  by (auto simp: ssh_paths_def SSHD_DROP_IN_def AD_AUTHKEYS_PATH_def SSHD_MAIN_def is_dir_def)

lemma read_existing_Ok:
  assumes "honest H" and "p \<in> set ssh_paths" and "read_existing H p s = (Ok v, t)"
  shows "v = text_of (files s) p \<and> files t = files s"
proof -
  obtain r u where c: "os_call H (ReadFile p) s = (r, u)" by (cases "os_call H (ReadFile p) s")
  have "r \<noteq> Exc (OSError ENOENT)" using honest_call[OF assms(1)] c by blast
  moreover have "p \<noteq> []" using assms(2) by (auto simp: ssh_paths_def SSHD_DROP_IN_def AD_AUTHKEYS_PATH_def SSHD_MAIN_def)
  ultimately show ?thesis
    using assms(3) ssh_path_dir[OF assms(2)] call_files[OF c]
    by (cases r) (auto simp: read_existing_def read_text_def catchE_def bindE_def c getE_def oserror_def raiseE_def retE_def text_of_def
        split: if_splits option.splits node.splits)
qed

lemma plan_file_Ok:
  assumes "honest H" and "p \<in> set ssh_paths" and "plan_file H plan (p, new) s = (Ok plan', t)"
  shows "plan' = plan @ (if text_of (files s) p \<noteq> Some new then [(p, text_of (files s) p, new)] else []) \<and> files t = files s"
proof -
  obtain v u where 1: "read_existing H p s = (Ok v, u)" and 2: "retE (if v \<noteq> Some new then plan @ [(p, v, new)] else plan) u = (Ok plan', t)"
    using assms(3) by (auto simp: plan_file_def bindE_Ok_iff)
  show ?thesis using read_existing_Ok[OF assms(1,2) 1] 2 by auto
qed

lemma plan_fold:
  "honest H \<Longrightarrow> set (map fst fs) \<subseteq> set ssh_paths \<Longrightarrow> foldE (plan_file H) plan fs s = (Ok plan', t) \<Longrightarrow>
   plan' = plan @ map (\<lambda>(p, new). (p, text_of (files s) p, new)) (filter (\<lambda>(p, new). text_of (files s) p \<noteq> Some new) fs) \<and> files t = files s"
proof (induction fs arbitrary: plan s)
  case (Cons x fs)
  obtain p new where x: "x = (p, new)" by (cases x)
  obtain plan1 s1 where 1: "plan_file H plan (p, new) s = (Ok plan1, s1)" and 2: "foldE (plan_file H) plan1 fs s1 = (Ok plan', t)"
    using Cons.prems(3) by (auto simp: x bindE_Ok_iff)
  have p: "p \<in> set ssh_paths" and sub: "set (map fst fs) \<subseteq> set ssh_paths" using Cons.prems(2) by (auto simp: x)
  show ?case
    using Cons.IH[OF Cons.prems(1) sub 2] plan_file_Ok[OF Cons.prems(1) p 1] by (auto simp: x)
qed simp

lemma sshd_plan_Ok:
  assumes "honest H" and "sshd_plan H a s = (Ok plan, t)"
  shows "plan = planned_files a (files s) \<and> files t = files s"
proof -
  obtain m u where 1: "read_existing H SSHD_MAIN s = (Ok m, u)"
    and 2: "foldE (plan_file H) []
       [(SSHD_DROP_IN, render_drop_in (bool_text (di_allow_password a)) (bool_text (di_allow_root a)) (di_allowed_algos a)),
        (AD_AUTHKEYS_PATH, AD_AUTHKEYS_SCRIPT), (SSHD_MAIN, ensure_include_block (case m of None \<Rightarrow> [] | Some c \<Rightarrow> c))] u = (Ok plan, t)"
    using assms(2) by (auto simp: sshd_plan_def bindE_Ok_iff)
  have m: "m = text_of (files s) SSHD_MAIN" "files u = files s"
    using read_existing_Ok[OF assms(1) _ 1] by (auto simp: ssh_paths_def)
  have "foldE (plan_file H) [] (wanted_files a (files s)) u = (Ok plan, t)"
    using 2 by (simp only: m wanted_files_def)
  moreover have "set (map fst (wanted_files a (files s))) \<subseteq> set ssh_paths" by (simp only: wanted_paths)
  ultimately show ?thesis
    using plan_fold[OF assms(1), of "wanted_files a (files s)" "[]" u plan t] by (simp add: planned_files_def m)
qed

lemma planned_distinct: "distinct (map fst (planned_files a F))" and planned_paths: "set (map fst (planned_files a F)) \<subseteq> set ssh_paths"
proof -
  have 1: "map fst (planned_files a F) = map fst (filter (\<lambda>(p, new). text_of F p \<noteq> Some new) (wanted_files a F))"
    by (auto simp: planned_files_def)
  show "distinct (map fst (planned_files a F))"
    unfolding 1 using ssh_paths_distinct wanted_paths[of a F] distinct_map_filter by metis
  show "set (map fst (planned_files a F)) \<subseteq> set ssh_paths"
    unfolding 1 wanted_paths[of a F, symmetric] by auto
qed

section \<open>When the daemon is restarted\<close>

lemma does_set_files: "keeps (did A) (modE (files_update f))"
  by (simp add: keeps_def modE_def did_def)

lemma does_system_calls:
  assumes "\<And>c. A (Sys c)"
  shows "keeps (did A) (ssh_atomic_write H path c m)" "keeps (did A) (restore H p old)" "keeps (did A) (named_temp H d pre suf)"
proof -
  have md: "keeps (did A) (makedirs H p)" for p
    unfolding makedirs_def make_dir_def os_mkdir_def by (auto intro!: does_rules assms)
  have nt: "keeps (did A) (named_temp H d pre suf)" for d pre suf
    unfolding named_temp_def by (auto intro!: does_rules assms)
  have wr: "keeps (did A) (os_write H p c)" for p c
    unfolding os_write_def by (auto intro!: does_rules assms)
  show "keeps (did A) (ssh_atomic_write H path c m)"
    unfolding ssh_atomic_write_def os_chmod_def os_replace_def by (auto intro!: does_rules does_set_files md nt wr assms)
  have ow: "keeps (did A) (open_w H p)" for p
  proof -
    have "keeps (did A) (case x of Some (Plain c m ids) \<Rightarrow> set_file p (Some (Plain [] m ids))
        | _ \<Rightarrow> set_file p (Some (Plain [] (perm 6 4 4) (euid H))))" for x
      by (cases x) (auto intro!: does_rules split: node.split)
    then show ?thesis unfolding open_w_def by (auto intro!: does_rules assms)
  qed
  show "keeps (did A) (restore H p old)"
    unfolding restore_def os_unlink_def by (auto intro!: does_rules wr ow assms split: option.split)
  show "keeps (did A) (named_temp H d pre suf)" by (rule nt)
qed

definition no_restart :: "act \<Rightarrow> bool" where
  "no_restart a \<longleftrightarrow> a \<noteq> Cmd sshd_restart"

lemma no_restart_simps [simp]: "no_restart (Sys c)" "no_restart (Cmd sshd_test)"
  by (simp_all add: no_restart_def sshd_test_def sshd_restart_def)

lemma reads_no_restart: "reads a \<Longrightarrow> no_restart a"
  by (auto simp: reads_def no_restart_def sshd_restart_def)

text \<open>\<open>sshd -t\<close> accepts the files \<open>G\<close>.\<close>

definition accepts :: "'w host \<Rightarrow> tree \<Rightarrow> bool" where
  "accepts H G \<longleftrightarrow> (\<exists>w out err after. subprocess H sshd_test (G, w) = (Ok (0, out, err), after))"

lemma did_trans: "did A s t \<Longrightarrow> did A t u \<Longrightarrow> did A s u"
  by (force simp: did_def)

lemma apply_restart:
  assumes "sshd_apply H plan s = (r, t)" and "distinct (map fst plan)"
  shows "did no_restart s t \<or> (\<exists>G. accepts H G \<and> written (euid H) plan (files s) G)"
proof -
  let ?w = "forE plan (\<lambda>(p, old, new). ssh_atomic_write H p new (mode_of p))"
  let ?rest = "\<lambda>(rc, out, err). if rc \<noteq> (0::int) then
         bindE (forE (rev plan) (\<lambda>(p, old, new). restore H p old)) (\<lambda>_. stop_with [(''sshd -t'', JStr (take 400 (strip err)))])
       else bindE (run_tool H sshd_restart) (\<lambda>(rc2, out2, err2).
           if rc2 \<noteq> 0 then stop_with [(''systemctl restart sshd'', JStr (take 400 (strip err2)))] else go_on ())"
  have run: "bindE ?w (\<lambda>_. bindE (run_tool H sshd_test) ?rest) s = (r, t)"
    using assms(1) by (simp add: sshd_apply_def sshd_verify_def)
  have w: "keeps (did no_restart) ?w"
    by (auto intro!: does_rules does_system_calls split: prod.split)
  have tool: "keeps (did no_restart) (run_tool H sshd_test)" by (auto intro!: does_rules)
  have undone: "keeps (did no_restart) (?rest (rc, out, err))" if "rc \<noteq> 0" for rc out err
    using that by (auto intro!: does_rules does_system_calls split: prod.split)
  obtain r1 s1 where 1: "?w s = (r1, s1)" by (cases "?w s")
  have d1: "did no_restart s s1" by (rule keepsD[OF w 1])
  show ?thesis
  proof (cases r1)
    case (Ok u)
    have wr: "written (euid H) plan (files s) (files s1)" using writes_Ok[OF _ assms(2)] 1 Ok by blast
    obtain r2 s2 where 2: "run_tool H sshd_test s1 = (r2, s2)" by (cases "run_tool H sshd_test s1")
    have d2: "did no_restart s1 s2" by (rule keepsD[OF tool 2])
    have rest: "(case r2 of Ok x \<Rightarrow> ?rest x s2 | Exc e \<Rightarrow> (Exc e, s2) | Halt \<Rightarrow> (Halt, s2)) = (r, t)"
      using run 1 2 Ok by (simp add: bindE_def)
    show ?thesis
    proof (cases "\<exists>out err. r2 = Ok (0, out, err)")
      case True
      then obtain out err where r2: "r2 = Ok (0, out, err)" by blast
      obtain r3 fs w3 where sub: "subprocess H sshd_test (files s1, outer s1) = (r3, fs, w3)"
        by (metis surj_pair)
      have "r3 = r2" using 2 by (simp add: run_tool_def sub)
      then have "accepts H (files s1)" using sub r2 unfolding accepts_def by blast
      then show ?thesis using wr by blast
    next
      case False
      have "did no_restart s2 t"
      proof (cases r2)
        case (Ok x)
        obtain rc out err where x: "x = (rc, out, err)" by (cases x)
        have rc: "rc \<noteq> 0" using False Ok x by blast
        have "?rest (rc, out, err) s2 = (r, t)" using rest by (simp only: Ok x res.case)
        then show ?thesis by (rule keepsD[OF undone[OF rc]])
      qed (use rest in \<open>auto simp: did_def\<close>)
      then show ?thesis using did_trans[OF did_trans[OF d1 d2]] by simp
    qed
  qed (use run 1 d1 in \<open>auto simp: bindE_def\<close>)
qed

text \<open>What the daemon would read: the wanted text, or a file that read as it already.\<close>

definition shows_text :: "tree \<Rightarrow> string \<times> string \<Rightarrow> bool" where
  "shows_text G x \<longleftrightarrow> (\<exists>c m ids. G (fst x) = Some (Plain c m ids) \<and> (c = snd x \<or> universal_newlines c = snd x))"

lemma written_shows:
  assumes "written ids (planned_files a F) F G"
  shows "list_all (shows_text G) (wanted_files a F)"
proof -
  have "shows_text G (p, new)" if x: "(p, new) \<in> set (wanted_files a F)" for p new
  proof (cases "text_of F p = Some new")
    case True
    then obtain c m i where F: "F p = Some (Plain c m i)" "universal_newlines c = new"
      by (auto simp: text_of_def split: option.splits node.splits)
    have "p \<notin> fst ` set (planned_files a F)"
    proof
      assume "p \<in> fst ` set (planned_files a F)"
      then obtain new' where "(p, new') \<in> set (wanted_files a F)" "text_of F p \<noteq> Some new'"
        by (auto simp: planned_files_def)
      moreover have "new' = new"
        using calculation(1) x wanted_paths[of a F] ssh_paths_distinct by (metis eq_key_imp_eq_value)
      ultimately show False using True by simp
    qed
    then have "G p = F p" using assms F(1) unfolding written_def by force
    then show ?thesis using F by (auto simp: shows_text_def)
  next
    case False
    then have "(p, text_of F p, new) \<in> set (planned_files a F)" using x by (auto simp: planned_files_def)
    then have "G p = Some (Plain new (mode_of p) ids)" using assms by (auto simp: written_def)
    then show ?thesis by (auto simp: shows_text_def)
  qed
  then show ?thesis by (auto simp: list_all_iff)
qed

lemma restart_is_tested:
  assumes "honest H"
  shows "did no_restart s (snd (do_sshd_drop_in H a s)) \<or>
    (\<exists>G. accepts H G \<and> list_all (shows_text G) (wanted_files a (files s)))"
proof -
  let ?tail = "\<lambda>plan. if plan = [] then no_change
       else if di_check a then bindE (say (''WOULD-CHANGE '' @ dumps (sort_keys (drift_summary plan)))) (\<lambda>_. retE 0)
       else sshd_commit H plan"
  obtain r1 s1 where 1: "sshd_plan H a s = (r1, s1)" by (cases "sshd_plan H a s")
  have d1: "did no_restart s s1"
    by (rule keepsD[OF does_mono[OF does_plan reads_no_restart] 1])
  show ?thesis
  proof (cases r1)
    case (Ok plan)
    have plan: "plan = planned_files a (files s)" "files s1 = files s" using sshd_plan_Ok[OF assms] 1 Ok by blast+
    have run: "do_sshd_drop_in H a s = ?tail plan s1"
      by (simp add: do_sshd_drop_in_def bindE_def 1 Ok)
    obtain r2 s2 where 2: "sshd_apply H plan s1 = (r2, s2)" by (cases "sshd_apply H plan s1")
    have quiet: "did no_restart s1 (snd (?tail plan s1))" if "did no_restart s1 s2"
    proof -
      have say: "did no_restart u (snd (bindE (say line) (\<lambda>_. retE n) u))" for u :: "'a box" and line and n :: int
        by (simp add: bindE_def say_def modE_def retE_def did_def)
      show ?thesis
        using say that did_trans[OF that]
        by (cases r2; cases "fst (sshd_apply H plan s1)")
           (auto simp: sshd_commit_def bindE_def catchE_def 2 retE_def say_fail_def no_change_def split: sum.split)
    qed
    show ?thesis
    proof (cases "did no_restart s1 s2")
      case True
      then show ?thesis using did_trans[OF d1 quiet] run by simp
    next
      case False
      then obtain G where "accepts H G" "written (euid H) plan (files s1) G"
        using apply_restart[OF 2] planned_distinct plan by blast
      with written_shows[of "euid H" a "files s" G] show ?thesis by (auto simp: plan)
    qed
  qed (use 1 d1 in \<open>auto simp: do_sshd_drop_in_def bindE_def\<close>)
qed

section \<open>Rolling back\<close>

lemma newlines_clean: "CHR 0x0D \<notin> set (universal_newlines s)"
  by (induction s rule: universal_newlines.induct) auto

lemma newlines_id: "CHR 0x0D \<notin> set s \<Longrightarrow> universal_newlines s = s"
  by (induction s rule: universal_newlines.induct) auto

lemma newlines_idem [simp]: "universal_newlines (universal_newlines s) = universal_newlines s"
  by (rule newlines_id[OF newlines_clean])

lemma edit_Ok: "edit_file p f s = (Ok u, t) \<Longrightarrow> \<exists>x. files s p = Some x \<and> files t = (files s)(p := Some (f x))"
  by (auto simp: edit_file_def bindE_Ok_iff getE_def oserror_def set_file_def modE_def split: option.splits)

lemma write_Ok:
  assumes "os_write H p c s = (Ok u, t)"
  shows "\<exists>x. files s p = Some x \<and> files t = (files s)(p := Some (set_content c x))"
proof -
  obtain k s1 s2 where 1: "edit_file p (set_content (take k c)) s = (Ok (), s1)" and 2: "os_call H (WriteTo p c) s1 = (Ok (), s2)"
    and 3: "edit_file p (set_content c) s2 = (Ok u, t)"
    using assms by (auto simp: os_write_def bindE_Ok_iff getE_def)
  obtain x where x: "files s p = Some x" "files s1 = (files s)(p := Some (set_content (take k c) x))"
    using edit_Ok[OF 1] by blast
  have "files t = (files s1)(p := Some (set_content c (set_content (take k c) x)))"
    using edit_Ok[OF 3] x(2) call_files[OF 2] by auto
  then show ?thesis using x by (auto simp: set_content_def split: node.split)
qed

lemma open_w_Ok:
  assumes "open_w H p s = (Ok u, t)"
  shows "\<exists>m ids. files t = (files s)(p := Some (Plain [] m ids))"
proof -
  obtain s1 where 1: "os_call H (WriteTo p []) s = (Ok (), s1)"
    and 2: "(if is_dir (files s1) p then oserror EISDIR
       else if \<not> is_dir (files s1) (dirname p) then oserror ENOENT
       else case files s1 p of
         Some (Plain c m ids) \<Rightarrow> set_file p (Some (Plain [] m ids))
       | _ \<Rightarrow> set_file p (Some (Plain [] (perm 6 4 4) (euid H)))) s1 = (Ok u, t)"
    using assms by (auto simp: open_w_def bindE_Ok_iff getE_def)
  show ?thesis
    using 2 call_files[OF 1]
    by (auto simp: oserror_def set_file_def modE_def split: if_splits option.splits node.splits) (metis surj_pair | blast)+
qed

lemma restore_Ok:
  assumes "honest H" and "p \<in> set ssh_paths" and "restore H p old s = (Ok u, t)"
  shows "text_of (files t) p = map_option universal_newlines old \<and> (\<forall>q. q \<noteq> p \<longrightarrow> files t q = files s q)"
proof (cases old)
  case None
  obtain r s1 where 1: "os_call H (Unlink p) s = (r, s1)" by (cases "os_call H (Unlink p) s")
  have "r \<noteq> Exc (OSError ENOENT)" using honest_call[OF assms(1)] 1 by blast
  then show ?thesis
    using assms(3) call_files[OF 1] None
    by (cases r) (auto simp: restore_def os_unlink_def catchE_def bindE_def 1 getE_def oserror_def raiseE_def retE_def set_file_def
        modE_def text_of_def split: if_splits)
next
  case (Some c)
  then obtain s1 where 1: "open_w H p s = (Ok (), s1)" and 2: "os_write H p c s1 = (Ok u, t)"
    using assms(3) by (auto simp: restore_def bindE_Ok_iff)
  obtain m ids where "files s1 = (files s)(p := Some (Plain [] m ids))" using open_w_Ok[OF 1] by blast
  then show ?thesis using write_Ok[OF 2] Some by (auto simp: text_of_def set_content_def)
qed

lemma restores_Ok:
  assumes "honest H" and "forE plan (\<lambda>(p, old, new). restore H p old) s = (Ok u, t)" and "distinct (map fst plan)"
    and "set (map fst plan) \<subseteq> set ssh_paths"
  shows "(\<forall>(p, old, new)\<in>set plan. text_of (files t) p = map_option universal_newlines old) \<and>
    (\<forall>q. q \<notin> fst ` set plan \<longrightarrow> files t q = files s q)"
  using assms(2-4)
proof (induction plan arbitrary: s)
  case (Cons x plan)
  obtain p old new where x: "x = (p, old, new)" by (cases x)
  obtain s1 where 1: "restore H p old s = (Ok (), s1)"
    and 2: "forE plan (\<lambda>(p, old, new). restore H p old) s1 = (Ok u, t)"
    using Cons.prems(1) by (auto simp: x bindE_Ok_iff)
  have p: "p \<in> set ssh_paths" using Cons.prems(3) by (simp add: x)
  have IH: "(\<forall>(p, old, new)\<in>set plan. text_of (files t) p = map_option universal_newlines old) \<and>
      (\<forall>q. q \<notin> fst ` set plan \<longrightarrow> files t q = files s1 q)"
    using Cons.IH[OF 2] Cons.prems(2,3) by simp
  then have "files t p = files s1 p" using Cons.prems(2) by (simp add: x)
  then have "text_of (files t) p = map_option universal_newlines old"
    using restore_Ok[OF assms(1) p 1] by (simp add: text_of_def)
  then show ?case using IH restore_Ok[OF assms(1) p 1] by (auto simp: x)
qed simp

text \<open>\<open>sshd -t\<close> finds an error in whatever is there, and changes no file.\<close>

definition rejects :: "'w host \<Rightarrow> bool" where
  "rejects H \<longleftrightarrow>
     (\<forall>G w r G' w' out err. subprocess H sshd_test (G, w) = (r, G', w') \<longrightarrow> G' = G \<and> r \<noteq> Ok (0, out, err))"

lemma rejects_run:
  assumes "rejects H" and "run_tool H sshd_test s = (r, t)"
  shows "files t = files s \<and> r \<noteq> Ok (0, out, err)"
proof -
  obtain r3 fs w3 where sub: "subprocess H sshd_test (files s, outer s) = (r3, fs, w3)" by (metis surj_pair)
  show ?thesis using assms sub unfolding rejects_def by (fastforce simp: run_tool_def)
qed

lemma text_of_same:
  "G q = F q \<or> (F q = None \<and> G q = Some Dir) \<Longrightarrow> text_of G q = text_of F q"
  by (auto simp: text_of_def)

lemma rejected_restores:
  assumes "honest H" and "rejects H" and "sshd_apply H plan s = (Ok r, t)"
    and "plan = planned_files a (files s)" and "p \<in> set ssh_paths"
  shows "text_of (files t) p = text_of (files s) p \<and> (\<exists>rc. r = Inl rc)"
proof -
  have dist: "distinct (map fst plan)" "set (map fst plan) \<subseteq> set ssh_paths"
    using planned_distinct planned_paths assms(4) by blast+
  obtain s1 where 1: "forE plan (\<lambda>(p, old, new). ssh_atomic_write H p new (mode_of p)) s = (Ok (), s1)"
    and rest: "bindE (run_tool H sshd_test) (\<lambda>(rc, out, err).
       if rc \<noteq> 0 then
         bindE (forE (rev plan) (\<lambda>(p, old, new). restore H p old)) (\<lambda>_. stop_with [(''sshd -t'', JStr (take 400 (strip err)))])
       else bindE (run_tool H sshd_restart) (\<lambda>(rc2, out2, err2).
           if rc2 \<noteq> 0 then stop_with [(''systemctl restart sshd'', JStr (take 400 (strip err2)))] else go_on ())) s1 = (Ok r, t)"
    using assms(3) by (auto simp: sshd_apply_def sshd_verify_def bindE_Ok_iff)
  obtain x s2 where "run_tool H sshd_test s1 = (Ok x, s2)"
    using rest unfolding bindE_Ok_iff by blast
  then obtain rc out err where 2: "run_tool H sshd_test s1 = (Ok (rc, out, err), s2)" by (cases x) auto
  have rc: "rc \<noteq> 0" using rejects_run[OF assms(2) 2] by auto
  obtain s3 where 3: "forE (rev plan) (\<lambda>(p, old, new). restore H p old) s2 = (Ok (), s3)"
    and 4: "stop_with [(''sshd -t'', JStr (take 400 (strip err)))] s3 = (Ok r, t)"
    using rest 2 rc by (auto simp: bindE_def split: prod.splits res.splits)
  have t: "files t = files s3" "\<exists>rc. r = Inl rc"
    using 4 by (auto simp: stop_with_def fail_def say_def bindE_def modE_def retE_def)
  have w: "written (euid H) plan (files s) (files s1)" by (rule writes_Ok[OF 1 dist(1)])
  have f2: "files s2 = files s1" using rejects_run[OF assms(2) 2] by blast
  have res: "(\<forall>(p, old, new)\<in>set plan. text_of (files s3) p = map_option universal_newlines old) \<and>
      (\<forall>q. q \<notin> fst ` set plan \<longrightarrow> files s3 q = files s2 q)"
    using restores_Ok[OF assms(1) 3] dist by (simp add: rev_map[symmetric])
  have "text_of (files s3) p = text_of (files s) p"
  proof (cases "p \<in> fst ` set plan")
    case True
    then obtain old new where x: "(p, old, new) \<in> set plan" by force
    then have "old = text_of (files s) p" using assms(4) by (auto simp: planned_files_def)
    moreover have "text_of (files s3) p = map_option universal_newlines old" using res x by blast
    ultimately show ?thesis by (auto simp: text_of_def split: option.split node.split)
  next
    case False
    then have "files s1 p = files s p \<or> (files s p = None \<and> files s1 p = Some Dir)" using w by (auto simp: written_def)
    then have "text_of (files s1) p = text_of (files s) p" by (rule text_of_same)
    then show ?thesis using res False f2 by (simp add: text_of_def)
  qed
  then show ?thesis using t by simp
qed

lemma rejected_is_undone:
  assumes "honest H" and "rejects H" and "do_sshd_drop_in H a s = (Ok rc, t)"
  shows "list_all (\<lambda>p. text_of (files t) p = text_of (files s) p) ssh_paths \<or>
    (\<exists>e. last (stdout t) = ''FAIL '' @ dumps (JObj [(''error'', JStr (str_exc H e))]))"
proof -
  obtain plan s1 where 1: "sshd_plan H a s = (Ok plan, s1)"
    and run: "(if plan = [] then no_change
       else if di_check a then bindE (say (''WOULD-CHANGE '' @ dumps (sort_keys (drift_summary plan)))) (\<lambda>_. retE 0)
       else sshd_commit H plan) s1 = (Ok rc, t)"
    using assms(3) by (auto simp: do_sshd_drop_in_def bindE_Ok_iff)
  have plan: "plan = planned_files a (files s1)" "files s1 = files s" using sshd_plan_Ok[OF assms(1) 1] by simp_all
  have say: "files u = files v" if "bindE (say line) (\<lambda>_. retE n) v = (Ok rc, u)" for line n u and v :: "'a box"
    using that by (auto simp: bindE_def say_def modE_def retE_def)
  show ?thesis
  proof (cases "plan = [] \<or> di_check a")
    case True
    then have "files t = files s1" using run say by (auto simp: no_change_def split: if_splits)
    then show ?thesis using plan by (simp add: list_all_iff)
  next
    case False
    obtain r2 s2 where 2: "sshd_apply H plan s1 = (r2, s2)" by (cases "sshd_apply H plan s1")
    show ?thesis
    proof (cases r2)
      case (Ok x)
      have old_text: "text_of (files s2) p = text_of (files s) p \<and> (\<exists>rc. x = Inl rc)" if "p \<in> set ssh_paths" for p
        using rejected_restores[OF assms(1,2) _ plan(1) that] 2 Ok plan(2) by simp
      moreover obtain rc' where "x = Inl rc'" using old_text[of SSHD_MAIN] by (auto simp: ssh_paths_def)
      ultimately show ?thesis using run False 2 Ok by (auto simp: sshd_commit_def bindE_def catchE_def retE_def list_all_iff)
    qed (use run False 2 in \<open>auto simp: sshd_commit_def bindE_def catchE_def retE_def say_fail_def say_def modE_def split: if_splits\<close>)
  qed
qed

end
