(* ===== verification/Dsm_Ssh_Calm.thy ===== *)
theory Dsm_Ssh_Calm
  imports Dsm_Ssh_Safe
begin

text \<open>
  The SSH transaction on a host where no system call fails: every write is done, so what the run
  leaves behind is decided by \<open>sshd -t\<close> alone.
\<close>

section \<open>Calls that do not fail\<close>

definition calm_host :: "'w host \<Rightarrow> bool" where
  "calm_host H \<longleftrightarrow> (\<forall>c w. fate H c w = (Go, w))"

lemma calm_honest: "calm_host H \<Longrightarrow> honest H"
  by (simp add: calm_host_def honest_def)

lemma calm_call: "calm_host H \<Longrightarrow> os_call H c s = (Ok (), s\<lparr>acts := acts s @ [Sys c]\<rparr>)"
  by (simp add: os_call_def calm_host_def)

text \<open>Only system calls, which leave the files \<open>F\<close>.\<close>

definition is_sys :: "act \<Rightarrow> bool" where
  "is_sys a \<longleftrightarrow> (case a of Sys c \<Rightarrow> True | _ \<Rightarrow> False)"

lemma is_sys_simps [simp]: "is_sys (Sys c)" "\<not> is_sys (Cmd argv)"
  by (simp_all add: is_sys_def)

definition quietly :: "tree \<Rightarrow> 'w box \<Rightarrow> 'w box \<Rightarrow> bool" where
  "quietly F s t \<longleftrightarrow> files t = F \<and> outer t = outer s \<and> stdout t = stdout s \<and> did is_sys s t"

lemma quietly_refl: "quietly (files s) s s"
  by (simp add: quietly_def did_def)

lemma quietly_trans: "quietly F s t \<Longrightarrow> quietly G t u \<Longrightarrow> quietly G s u"
  by (auto simp: quietly_def intro: did_trans)

lemma did_more: "did A s t \<Longrightarrow> list_all A xs \<Longrightarrow> acts u = acts t @ xs \<Longrightarrow> did A s u"
  by (force simp: did_def)

lemma quietly_calls:
  "quietly F s t \<Longrightarrow> list_all is_sys xs \<Longrightarrow> acts u = acts t @ xs \<Longrightarrow> outer u = outer t \<Longrightarrow> stdout u = stdout t \<Longrightarrow>
   files u = G \<Longrightarrow> quietly G s u"
  by (auto simp: quietly_def intro: did_more)

lemma calm_exists:
  assumes "calm_host H" and "is_dir (files s) q" and "q \<noteq> []"
  shows "os_exists H q s = (Ok True, s\<lparr>acts := acts s @ [Sys (Stat q)]\<rparr>)" "os_isdir H q s = (Ok True, s\<lparr>acts := acts s @ [Sys (Stat q)]\<rparr>)"
  using assms by (simp_all add: os_exists_def os_isdir_def catchE_def bindE_def calm_call getE_def)

lemma calm_makedirs:
  assumes "calm_host H" and "is_dir (files s) d" and "d \<noteq> []"
    and "list_all (\<lambda>q. is_dir (files s) q \<and> q \<noteq> []) (ancestors d)"
  shows "\<exists>t. makedirs H d s = (Ok (), t) \<and> quietly (files s) s t"
proof -
  have loop: "\<exists>t. forE qs (\<lambda>q. bindE (os_exists H q) (\<lambda>there. if there then retE () else make_dir H q)) s' = (Ok (), t) \<and> quietly (files s) s' t"
    if "list_all (\<lambda>q. is_dir (files s) q \<and> q \<noteq> []) qs" "files s' = files s" for qs s'
    using that
  proof (induction qs arbitrary: s')
    case Nil
    then show ?case by (auto simp: quietly_def did_def)
  next
    case (Cons q qs)
    let ?s = "s'\<lparr>acts := acts s' @ [Sys (Stat q)]\<rparr>"
    obtain t where "forE qs (\<lambda>q. bindE (os_exists H q) (\<lambda>there. if there then retE () else make_dir H q)) ?s = (Ok (), t)" "quietly (files s) ?s t"
      using Cons.IH[of ?s] Cons.prems by auto
    moreover have "os_exists H q s' = (Ok True, ?s)" using calm_exists(1)[OF assms(1)] Cons.prems by simp
    moreover have "quietly (files s) s' ?s"
      by (rule quietly_calls[OF quietly_refl, of "[Sys (Stat q)]"]) (simp_all add: Cons.prems(2))
    ultimately show ?case using quietly_trans by (auto simp: bindE_def[of "bindE _ _"] bindE_def[of "os_exists H q"] retE_def)
  qed
  obtain t where 1: "forE (ancestors d) (\<lambda>q. bindE (os_exists H q) (\<lambda>there. if there then retE () else make_dir H q)) s = (Ok (), t)"
    and q: "quietly (files s) s t"
    using loop[OF assms(4) refl] by blast
  have F: "files t = files s" using q by (simp add: quietly_def)
  have "make_dir H d t = (Ok (), t\<lparr>acts := acts t @ [Sys (MkDir d), Sys (Stat d)]\<rparr>)"
    using assms(2,3) F
    by (simp add: make_dir_def os_mkdir_def catchE_def bindE_def calm_call[OF assms(1)] getE_def oserror_def raiseE_def retE_def
        calm_exists[OF assms(1)])
  moreover have "quietly (files s) s (t\<lparr>acts := acts t @ [Sys (MkDir d), Sys (Stat d)]\<rparr>)"
    by (rule quietly_calls[OF q, of "[Sys (MkDir d), Sys (Stat d)]"]) (simp_all add: F)
  ultimately show ?thesis by (auto simp: makedirs_def bindE_def 1)
qed

definition temp_name :: "'w host \<Rightarrow> string \<Rightarrow> 'w \<Rightarrow> string" where
  "temp_name H p w = path_join (dirname p) ((''.'' @ basename p @ ''.'') @ random_name H w @ ''.tmp'')"

text \<open>The directories of a file are there, and no file has the name of its temporary file.\<close>

definition has_room :: "'w host \<Rightarrow> tree \<Rightarrow> string \<Rightarrow> bool" where
  "has_room H F p \<longleftrightarrow>
     F p \<noteq> Some Dir \<and> is_dir F (dirname p) \<and> dirname p \<noteq> [] \<and>
     list_all (\<lambda>q. is_dir F q \<and> q \<noteq> []) (ancestors (dirname p)) \<and> (\<forall>w. F (temp_name H p w) = None)"

lemma calm_write:
  assumes calm: "calm_host H" and room: "has_room H (files s) p" and p: "p \<in> set ssh_paths" "temp_name H p (outer s) \<noteq> p"
  shows "\<exists>t. ssh_atomic_write H p c m s = (Ok (), t) \<and> quietly ((files s)(p := Some (Plain c m (euid H)))) s t"
proof -
  let ?d = "dirname p" and ?tmp = "temp_name H p (outer s)"
  obtain s1 where 1: "makedirs H ?d s = (Ok (), s1)" and q1: "quietly (files s) s s1"
    using calm_makedirs[OF calm] room unfolding has_room_def by blast
  have F: "files s1 = files s" "outer s1 = outer s" using q1 by (simp_all add: quietly_def)
  have free: "files s ?tmp = None" "is_dir (files s) ?d" "\<not> is_dir (files s) p"
    using room ssh_path_dir[OF p(1)] by (simp_all add: has_room_def)
  let ?F = "(files s)(?tmp := Some (Plain [] (perm 6 0 0) (euid H)))"
  let ?s2 = "s1\<lparr>acts := acts s1 @ [Sys (MkTemp ?tmp)], files := ?F\<rparr>"
  have 2: "named_temp H ?d (''.'' @ basename p @ ''.'') ''.tmp'' s1 = (Ok ?tmp, ?s2)"
    using free by (simp add: named_temp_def temp_name_def bindE_def getE_def calm_call[OF calm] F set_file_def modE_def retE_def del: append.simps append_assoc)
  let ?G = "(files s)(?tmp := Some (Plain c m (euid H)))"
  let ?s3 = "?s2\<lparr>acts := acts ?s2 @ [Sys (WriteTo ?tmp c), Sys (Chmod ?tmp m)], files := ?G\<rparr>"
  have 3: "bindE (os_write H ?tmp c) (\<lambda>_. os_chmod H ?tmp m) ?s2 = (Ok (), ?s3)"
    by (simp add: os_write_def os_chmod_def edit_file_def bindE_def getE_def calm_call[OF calm] set_file_def modE_def
        set_content_def set_mode_def)
  let ?s4 = "?s3\<lparr>acts := acts ?s3 @ [Sys (Replace ?tmp p)], files := ?G(?tmp := None, p := ?G ?tmp)\<rparr>"
  have nd: "\<not> is_dir ?G p" using free(3) p(2) by (simp add: is_dir_def)
  have 4: "os_replace H ?tmp p ?s3 = (Ok (), ?s4)"
    using nd by (simp add: os_replace_def bindE_def getE_def calm_call[OF calm] modE_def)
  have "ssh_atomic_write H p c m s = (Ok (), ?s4)"
  proof -
    have "ssh_atomic_write H p c m = bindE (makedirs H ?d) (\<lambda>_. bindE (named_temp H ?d (''.'' @ basename p @ ''.'') ''.tmp'') (\<lambda>tmp.
        bindE (bindE (os_write H tmp c) (\<lambda>_. os_chmod H tmp m)) (\<lambda>_. os_replace H tmp p)))"
      by (simp only: ssh_atomic_write_def bindE_assoc)
    then show ?thesis by (simp only: bindE_def[of "makedirs H ?d"] 1 bindE_def[of "named_temp H _ _ _"] 2 prod.case res.case
        bindE_def[of "bindE _ _"] 3 4)
  qed
  moreover have "?G(?tmp := None, p := ?G ?tmp) = (files s)(p := Some (Plain c m (euid H)))"
    using free(1) p(2) by (auto simp: fun_eq_iff)
  moreover have "quietly ((files s)(p := Some (Plain c m (euid H)))) s ?s4"
    by (rule quietly_calls[OF q1, of "[Sys (MkTemp ?tmp), Sys (WriteTo ?tmp c), Sys (Chmod ?tmp m), Sys (Replace ?tmp p)]"])
       (use calculation(2) in simp_all)
  ultimately show ?thesis by blast
qed

section \<open>The three paths\<close>

lemma path_facts:
  "dirname SSHD_DROP_IN = ''/etc/ssh/sshd_config.d''" "dirname SSHD_MAIN = ''/etc/ssh''" "dirname AD_AUTHKEYS_PATH = ''/usr/local/bin''"
  "basename SSHD_DROP_IN = ''10-krg-hardening.conf''" "basename SSHD_MAIN = ''sshd_config''" "basename AD_AUTHKEYS_PATH = ''krg-ad-authkeys''"
  "ancestors ''/etc/ssh/sshd_config.d'' = [''/etc'', ''/etc/ssh'']" "ancestors ''/etc/ssh'' = [''/etc'']"
  "ancestors ''/usr/local/bin'' = [''/usr'', ''/usr/local'']"
  by code_simp+

lemma temp_names:
  "temp_name H SSHD_DROP_IN w = ''/etc/ssh/sshd_config.d/.10-krg-hardening.conf.'' @ random_name H w @ ''.tmp''"
  "temp_name H SSHD_MAIN w = ''/etc/ssh/.sshd_config.'' @ random_name H w @ ''.tmp''"
  "temp_name H AD_AUTHKEYS_PATH w = ''/usr/local/bin/.krg-ad-authkeys.'' @ random_name H w @ ''.tmp''"
  by (simp_all add: temp_name_def path_facts path_join_def startswith_def endswith_def suffix_def)

lemma temp_not_path: "p \<in> set ssh_paths \<Longrightarrow> q \<in> set ssh_paths \<Longrightarrow> temp_name H p w \<noteq> q"
  by (auto simp: ssh_paths_def temp_names) (simp_all add: SSHD_DROP_IN_def SSHD_MAIN_def AD_AUTHKEYS_PATH_def)

lemma room_kept:
  assumes "has_room H F p" and "p \<in> set ssh_paths" and "q \<in> set ssh_paths"
  shows "has_room H (F(q := Some (Plain c m ids))) p"
proof -
  have n: "d \<noteq> q" if "d = dirname p \<or> d \<in> set (ancestors (dirname p))" for d
    using that assms(2,3) by (auto simp: ssh_paths_def path_facts) (simp_all add: SSHD_DROP_IN_def SSHD_MAIN_def AD_AUTHKEYS_PATH_def)
  have dirs: "is_dir (F(q := Some (Plain c m ids))) d = is_dir F d" if "d = dirname p \<or> d \<in> set (ancestors (dirname p))" for d
    using n[OF that] by (simp add: is_dir_def)
  have tmp: "(F(q := Some (Plain c m ids))) (temp_name H p w) = F (temp_name H p w)" for w
    using temp_not_path[OF assms(2,3), where H = H and w = w] by simp
  show ?thesis
    using assms(1) dirs unfolding has_room_def tmp by (simp add: list_all_iff)
qed

section \<open>A whole run\<close>

definition put_files :: "int \<times> int \<Rightarrow> change list \<Rightarrow> tree \<Rightarrow> tree" where
  "put_files ids plan F = fold (\<lambda>(p, old, new) G. G(p := Some (Plain new (mode_of p) ids))) plan F"

lemma calm_writes:
  assumes "calm_host H" and "list_all (has_room H (files s)) ssh_paths" and "set (map fst plan) \<subseteq> set ssh_paths"
  shows "\<exists>t. forE plan (\<lambda>(p, old, new). ssh_atomic_write H p new (mode_of p)) s = (Ok (), t) \<and>
    quietly (put_files (euid H) plan (files s)) s t"
  using assms(2,3)
proof (induction plan arbitrary: s)
  case Nil
  then show ?case by (simp add: put_files_def quietly_refl)
next
  case (Cons x plan)
  obtain p old new where x: "x = (p, old, new)" by (cases x)
  have p: "p \<in> set ssh_paths" using Cons.prems(2) by (simp add: x)
  have room: "has_room H (files s) p" using Cons.prems(1) p by (simp add: list_all_iff)
  obtain s1 where 1: "ssh_atomic_write H p new (mode_of p) s = (Ok (), s1)"
    and q: "quietly ((files s)(p := Some (Plain new (mode_of p) (euid H)))) s s1"
    using calm_write[OF assms(1) room p temp_not_path[OF p p], of new "mode_of p"] by blast
  have F: "files s1 = (files s)(p := Some (Plain new (mode_of p) (euid H)))" using q by (simp add: quietly_def)
  have "list_all (has_room H (files s1)) ssh_paths"
    using Cons.prems(1) room_kept[OF _ _ p, where H = H] by (simp add: F list_all_iff)
  then obtain t where "forE plan (\<lambda>(p, old, new). ssh_atomic_write H p new (mode_of p)) s1 = (Ok (), t)"
    "quietly (put_files (euid H) plan (files s1)) s1 t"
    using Cons.IH[of s1] Cons.prems(2) by auto
  then show ?case using quietly_trans[OF q] 1 by (auto simp: x bindE_def put_files_def F)
qed

lemma calm_read:
  assumes "calm_host H" and "p \<in> set ssh_paths" and "files s p \<noteq> Some Dir"
  shows "read_existing H p s = (Ok (text_of (files s) p), s\<lparr>acts := acts s @ [Sys (ReadFile p)]\<rparr>)"
proof -
  have "\<not> is_dir (files s) p" using ssh_path_dir[OF assms(2)] assms(3) by simp
  then show ?thesis
    using assms(3)
    by (cases "files s p"; cases "the (files s p)")
       (auto simp: read_existing_def read_text_def catchE_def bindE_def calm_call[OF assms(1)] getE_def oserror_def raiseE_def
          retE_def text_of_def)
qed

lemma calm_plan:
  assumes "calm_host H" and "list_all (\<lambda>p. files s p \<noteq> Some Dir) ssh_paths"
  shows "\<exists>t. sshd_plan H a s = (Ok (planned_files a (files s)), t) \<and> quietly (files s) s t"
proof -
  have rd: "read_existing H p s' = (Ok (text_of (files s) p), s'\<lparr>acts := acts s' @ [Sys (ReadFile p)]\<rparr>)"
    if "p \<in> set ssh_paths" "files s' = files s" for p s'
    using calm_read[OF assms(1) that(1), of s'] that assms(2) by (simp add: list_all_iff)
  have mem: "SSHD_DROP_IN \<in> set ssh_paths" "AD_AUTHKEYS_PATH \<in> set ssh_paths" "SSHD_MAIN \<in> set ssh_paths"
    by (simp_all add: ssh_paths_def)
  let ?t = "s\<lparr>acts := acts s @ map Sys [ReadFile SSHD_MAIN, ReadFile SSHD_DROP_IN, ReadFile AD_AUTHKEYS_PATH, ReadFile SSHD_MAIN]\<rparr>"
  have "fst (sshd_plan H a s) = Ok (planned_files a (files s)) \<and> snd (sshd_plan H a s) = ?t"
    by (simp add: sshd_plan_def bindE_def plan_file_def rd[OF mem(1)] rd[OF mem(2)] rd[OF mem(3)] retE_def planned_files_def
        wanted_files_def)
  moreover have "quietly (files s) s ?t"
    by (rule quietly_calls[OF quietly_refl, of "map Sys [ReadFile SSHD_MAIN, ReadFile SSHD_DROP_IN, ReadFile AD_AUTHKEYS_PATH, ReadFile SSHD_MAIN]"]) simp_all
  ultimately show ?thesis by (metis prod.collapse)
qed

section \<open>The second run\<close>

lemma block_marker: "\<exists>r. INCLUDE_BLOCK = INCLUDE_BEGIN_MARKER @ r"
  by (simp add: INCLUDE_BLOCK_def unlines_def)

lemma ensure_marker: "contains (ensure_include_block c) INCLUDE_BEGIN_MARKER"
proof -
  obtain r where "INCLUDE_BLOCK = INCLUDE_BEGIN_MARKER @ r" using block_marker by blast
  then have "contains (INCLUDE_BLOCK @ c) INCLUDE_BEGIN_MARKER"
    unfolding contains_def sublist_def by (metis append_Nil append_assoc)
  then show ?thesis by (simp add: ensure_include_block_def)
qed

lemma ensure_idem: "ensure_include_block (ensure_include_block c) = ensure_include_block c"
  using ensure_marker by (simp add: ensure_include_block_def[of "ensure_include_block c"])

lemma clean_texts: "CHR 0x0D \<notin> set INCLUDE_BLOCK" "CHR 0x0D \<notin> set AD_AUTHKEYS_SCRIPT" "CHR 0x0D \<notin> set (unlines SSHD_HEAD)"
  by code_simp+

lemma unlines_append: "unlines (xs @ ys) = unlines xs @ unlines ys"
  by (simp add: unlines_def)

lemma clean_drop_in: "CHR 0x0D \<notin> set algos \<Longrightarrow> CHR 0x0D \<notin> set (render_drop_in pw rt algos)"
  using clean_texts(3) by (simp add: render_drop_in_def unlines_append) (simp add: unlines_def yes_no_def AD_AUTHKEYS_PATH_def)

lemma clean_wanted:
  assumes "CHR 0x0D \<notin> set (di_allowed_algos a)" and "(p, new) \<in> set (wanted_files a F)"
  shows "universal_newlines new = new"
proof (rule newlines_id)
  have "CHR 0x0D \<notin> set (ensure_include_block (case text_of F SSHD_MAIN of None \<Rightarrow> [] | Some c \<Rightarrow> c))"
    using clean_texts(1) newlines_clean by (auto simp: ensure_include_block_def text_of_def split: option.splits node.splits)
  then show "CHR 0x0D \<notin> set new"
    using assms clean_drop_in clean_texts(2) by (auto simp: wanted_files_def)
qed

lemma settled_texts:
  assumes "CHR 0x0D \<notin> set (di_allowed_algos a)" and "written ids (planned_files a F) F G" and "x \<in> set (wanted_files a F)"
  shows "text_of G (fst x) = Some (snd x)"
proof -
  obtain c m i where "G (fst x) = Some (Plain c m i)" and "c = snd x \<or> universal_newlines c = snd x"
    using written_shows[OF assms(2)] assms(3) by (auto simp: list_all_iff shows_text_def)
  moreover have "universal_newlines (snd x) = snd x" using clean_wanted[OF assms(1), of "fst x" "snd x"] assms(3) by simp
  ultimately show ?thesis by (auto simp: text_of_def)
qed

lemma nothing_planned:
  assumes "CHR 0x0D \<notin> set (di_allowed_algos a)" and "written ids (planned_files a F) F G"
  shows "planned_files a G = []"
proof -
  have "(SSHD_MAIN, ensure_include_block (case text_of F SSHD_MAIN of None \<Rightarrow> [] | Some c \<Rightarrow> c)) \<in> set (wanted_files a F)"
    by (simp add: wanted_files_def)
  from settled_texts[OF assms this] have "wanted_files a G = wanted_files a F"
    by (simp add: wanted_files_def ensure_idem)
  then show ?thesis
    using settled_texts[OF assms] by (auto simp: planned_files_def filter_empty_conv)
qed

text \<open>There is no \<open>sshd\<close> to run.\<close>

definition no_sshd :: "'w host \<Rightarrow> bool" where
  "no_sshd H \<longleftrightarrow> (\<forall>x. subprocess H sshd_test x = (Exc (OSError ENOENT), x))"

lemma calm_apply:
  assumes "calm_host H" and "list_all (has_room H (files s)) ssh_paths"
  shows "\<exists>t. forE (planned_files a (files s)) (\<lambda>(p, old, new). ssh_atomic_write H p new (mode_of p)) s = (Ok (), t) \<and>
    quietly (files t) s t \<and> written (euid H) (planned_files a (files s)) (files s) (files t) \<and>
    sshd_apply H (planned_files a (files s)) s = sshd_verify H (planned_files a (files s)) t"
proof -
  let ?plan = "planned_files a (files s)"
  obtain t where 1: "forE ?plan (\<lambda>(p, old, new). ssh_atomic_write H p new (mode_of p)) s = (Ok (), t)"
    and q: "quietly (put_files (euid H) ?plan (files s)) s t"
    using calm_writes[OF assms planned_paths] by blast
  have "quietly (files t) s t" using q by (simp add: quietly_def)
  moreover have "written (euid H) ?plan (files s) (files t)" by (rule writes_Ok[OF 1 planned_distinct])
  ultimately show ?thesis using 1 by (auto simp: sshd_apply_def bindE_def[of "forE _ _"])
qed

lemma did_conseq: "did A s t \<Longrightarrow> (\<And>a. A a \<Longrightarrow> B a) \<Longrightarrow> did B s t"
  by (auto simp: did_def list_all_iff)

lemma did_no_restart_sys: "did is_sys s t \<Longrightarrow> did no_restart s t"
  by (erule did_conseq) (auto simp: is_sys_def no_restart_def split: act.splits)

lemma run_after_plan:
  assumes "calm_host H" and "list_all (\<lambda>p. files s p \<noteq> Some Dir) ssh_paths" and "planned_files a (files s) \<noteq> []" and "\<not> di_check a"
  shows "\<exists>s1. quietly (files s) s s1 \<and> do_sshd_drop_in H a s =
    sshd_commit H (planned_files a (files s)) s1"
proof -
  obtain s1 where 1: "sshd_plan H a s = (Ok (planned_files a (files s)), s1)" and q: "quietly (files s) s s1"
    using calm_plan[OF assms(1,2)] by blast
  show ?thesis
    using q assms(3,4) by (intro exI[of _ s1]) (simp add: do_sshd_drop_in_def bindE_def[of "sshd_plan H a"] 1)
qed

lemma no_dir: "list_all (has_room H F) ps \<Longrightarrow> list_all (\<lambda>p. F p \<noteq> Some Dir) ps"
  by (simp add: list_all_iff has_room_def)

lemma second_run:
  assumes "calm_host H" and "CHR 0x0D \<notin> set (di_allowed_algos a)" and "written ids (planned_files a F) F (files t)"
    and "list_all (\<lambda>p. F p \<noteq> Some Dir) ssh_paths"
  shows "\<exists>u. do_sshd_drop_in H a t = (Ok 0, u) \<and> stdout u = stdout t @ [''OK no-change''] \<and> did is_sys t u"
proof -
  have "files t p \<noteq> Some Dir" if p: "p \<in> set ssh_paths" for p
  proof -
    obtain new where "(p, new) \<in> set (wanted_files a F)" using wanted_paths[of a F] p by (metis (no_types, lifting) imageE list.set_map prod.collapse)
    from settled_texts[OF assms(2,3) this] show ?thesis by (auto simp: text_of_def)
  qed
  then obtain s1 where 1: "sshd_plan H a t = (Ok (planned_files a (files t)), s1)" and q: "quietly (files t) t s1"
    using calm_plan[OF assms(1), of t a] by (auto simp: list_all_iff)
  let ?u = "s1\<lparr>stdout := stdout s1 @ [''OK no-change'']\<rparr>"
  have "do_sshd_drop_in H a t = (Ok 0, ?u)"
    by (simp add: do_sshd_drop_in_def bindE_def 1 nothing_planned[OF assms(2,3)] no_change_def say_def modE_def retE_def)
  moreover have "stdout ?u = stdout t @ [''OK no-change''] \<and> did is_sys t ?u"
    using q by (simp add: quietly_def did_def)
  ultimately show ?thesis by blast
qed

lemma untested_stays:
  assumes calm: "calm_host H" and no: "no_sshd H" and room: "list_all (has_room H (files s)) ssh_paths"
    and clean: "CHR 0x0D \<notin> set (di_allowed_algos a)" and "\<not> di_check a" and "planned_files a (files s) \<noteq> []"
  shows "\<exists>t u. do_sshd_drop_in H a s = (Ok 1, t) \<and> did no_restart s t \<and>
    list_all (shows_text (files t)) (wanted_files a (files s)) \<and>
    do_sshd_drop_in H a t = (Ok 0, u) \<and> stdout u = stdout t @ [''OK no-change''] \<and> did is_sys t u"
proof -
  let ?plan = "planned_files a (files s)"
  obtain s1 where q1: "quietly (files s) s s1" and run: "do_sshd_drop_in H a s =
    sshd_commit H ?plan s1"
    using run_after_plan[OF calm no_dir[OF room] assms(6,5)] by blast
  have F: "files s1 = files s" using q1 by (simp add: quietly_def)
  obtain s2 where q2: "quietly (files s2) s1 s2" and w: "written (euid H) ?plan (files s) (files s2)"
    and ap: "sshd_apply H ?plan s1 = sshd_verify H ?plan s2"
    using calm_apply[OF calm, of s1 a] room F by auto
  let ?t1 = "s2\<lparr>acts := acts s2 @ [Cmd sshd_test]\<rparr>"
  let ?t = "?t1\<lparr>stdout := stdout s2 @ [''FAIL '' @ dumps (JObj [(''error'', JStr (str_exc H (OSError ENOENT)))])]\<rparr>"
  have "run_tool H sshd_test s2 = (Exc (OSError ENOENT), ?t1)"
    using no by (simp add: run_tool_def no_sshd_def)
  then have a2: "sshd_apply H ?plan s1 = (Exc (OSError ENOENT), ?t1)"
    unfolding ap by (simp add: sshd_verify_def bindE_def[of "run_tool H sshd_test"])
  have t: "do_sshd_drop_in H a s = (Ok 1, ?t)"
    unfolding run by (simp add: sshd_commit_def bindE_def catchE_def a2 retE_def say_fail_def say_def modE_def)
  have d: "did no_restart s ?t"
  proof -
    have "did no_restart s s2" using q1 q2 did_no_restart_sys did_trans unfolding quietly_def by blast
    then show ?thesis by (rule did_more[of _ _ _ "[Cmd sshd_test]"]) simp_all
  qed
  have wt: "written (euid H) ?plan (files s) (files ?t)" using w by simp
  obtain u where "do_sshd_drop_in H a ?t = (Ok 0, u)" "stdout u = stdout ?t @ [''OK no-change'']" "did is_sys ?t u"
    using second_run[OF calm clean wt no_dir[OF room]] by blast
  then show ?thesis using t d written_shows[OF wt] by blast
qed

section \<open>A rejected configuration\<close>

text \<open>A file that can be rewritten: it is there, in a directory.\<close>

definition rewritable :: "tree \<Rightarrow> string \<Rightarrow> bool" where
  "rewritable F p \<longleftrightarrow> F p \<noteq> None \<and> F p \<noteq> Some Dir \<and> is_dir F (dirname p)"

lemma dirname_not_path: "p \<in> set ssh_paths \<Longrightarrow> q \<in> set ssh_paths \<Longrightarrow> dirname p \<noteq> q"
  by (auto simp: ssh_paths_def path_facts) (simp_all add: SSHD_DROP_IN_def SSHD_MAIN_def AD_AUTHKEYS_PATH_def)

lemma calm_os_write:
  assumes "calm_host H" and "files s p = Some x"
  shows "os_write H p c s = (Ok (), s\<lparr>acts := acts s @ [Sys (WriteTo p c)], files := (files s)(p := Some (set_content c x))\<rparr>)"
  using assms(2)
  by (simp add: os_write_def edit_file_def bindE_def getE_def calm_call[OF assms(1)] set_file_def modE_def set_content_def split: node.split)

lemma calm_restore:
  assumes calm: "calm_host H" and p: "p \<in> set ssh_paths" and rw: "rewritable (files s) p"
  shows "\<exists>t. restore H p old s = (Ok (), t) \<and> did is_sys s t \<and> stdout t = stdout s"
proof -
  obtain c m ids where F: "files s p = Some (Plain c m ids)"
    using rw unfolding rewritable_def by (metis node.exhaust option.exhaust surj_pair)
  have nd: "\<not> is_dir (files s) p" using ssh_path_dir[OF p] F by simp
  show ?thesis
  proof (cases old)
    case None
    let ?t = "s\<lparr>acts := acts s @ [Sys (Unlink p)], files := (files s)(p := None)\<rparr>"
    have "restore H p old s = (Ok (), ?t)"
      using nd by (simp add: None restore_def os_unlink_def catchE_def bindE_def calm_call[OF calm] getE_def F set_file_def modE_def)
    moreover have "did is_sys s ?t" by (simp add: did_def)
    ultimately show ?thesis by auto
  next
    case (Some c')
    let ?s = "s\<lparr>acts := acts s @ [Sys (WriteTo p [])], files := (files s)(p := Some (Plain [] m ids))\<rparr>"
    have "open_w H p s = (Ok (), ?s)"
      using nd rw by (simp add: open_w_def bindE_def calm_call[OF calm] getE_def F set_file_def modE_def rewritable_def)
    then have "restore H p old s = os_write H p c' ?s"
      by (simp add: Some restore_def bindE_def)
    moreover have "os_write H p c' ?s = (Ok (), ?s\<lparr>acts := acts ?s @ [Sys (WriteTo p c')],
        files := (files ?s)(p := Some (set_content c' (Plain [] m ids)))\<rparr>)"
      by (rule calm_os_write[OF calm]) simp
    ultimately show ?thesis by (simp add: did_def)
  qed
qed

lemma calm_restores:
  assumes "calm_host H" and "list_all (\<lambda>x. rewritable (files s) (fst x)) plan" and "set (map fst plan) \<subseteq> set ssh_paths"
    and "distinct (map fst plan)"
  shows "\<exists>t. forE plan (\<lambda>(p, old, new). restore H p old) s = (Ok (), t) \<and> did is_sys s t \<and> stdout t = stdout s"
  using assms(2-4)
proof (induction plan arbitrary: s)
  case Nil
  then show ?case by (simp add: did_def)
next
  case (Cons x plan)
  obtain p old new where x: "x = (p, old, new)" by (cases x)
  have p: "p \<in> set ssh_paths" using Cons.prems(2) by (simp add: x)
  obtain s1 where 1: "restore H p old s = (Ok (), s1)" and d: "did is_sys s s1" "stdout s1 = stdout s"
    using calm_restore[OF assms(1) p, of s old] Cons.prems(1) by (auto simp: x)
  have same: "files s1 q = files s q" if "q \<noteq> p" for q
    using restore_Ok[OF calm_honest[OF assms(1)] p 1] that by blast
  have "rewritable (files s1) (fst y)" if y: "y \<in> set plan" for y
  proof -
    have "fst y \<noteq> p" "fst y \<in> set ssh_paths" using Cons.prems(2,3) y by (auto simp: x)
    moreover have "dirname (fst y) \<noteq> p" using dirname_not_path calculation(2) p by blast
    ultimately show ?thesis
      using Cons.prems(1) y same by (auto simp: rewritable_def is_dir_def list_all_iff)
  qed
  then obtain t where "forE plan (\<lambda>(p, old, new). restore H p old) s1 = (Ok (), t)" "did is_sys s1 t" "stdout t = stdout s1"
    using Cons.IH[of s1] Cons.prems(2,3) by (auto simp: list_all_iff)
  then show ?case using 1 d did_trans by (auto simp: x bindE_def)
qed

text \<open>\<open>sshd -t\<close> ends with an error code, whatever is there, and changes nothing.\<close>

definition rejecting :: "'w host \<Rightarrow> bool" where
  "rejecting H \<longleftrightarrow> (\<forall>G w. \<exists>rc out err w'. rc \<noteq> 0 \<and> subprocess H sshd_test (G, w) = (Ok (rc, out, err), (G, w')))"

lemma rejecting_rejects: "rejecting H \<Longrightarrow> rejects H"
  unfolding rejecting_def rejects_def by (metis Pair_inject prod.inject res.inject(1))

lemma rejected_rolls_back:
  assumes calm: "calm_host H" and rej: "rejecting H" and room: "list_all (has_room H (files s)) ssh_paths"
    and "\<not> di_check a" and "planned_files a (files s) \<noteq> []"
  shows "\<exists>t. do_sshd_drop_in H a s = (Ok 1, t) \<and> did no_restart s t \<and>
    list_all (\<lambda>p. text_of (files t) p = text_of (files s) p) ssh_paths"
proof -
  let ?plan = "planned_files a (files s)"
  obtain s1 where q1: "quietly (files s) s s1" and run: "do_sshd_drop_in H a s = sshd_commit H ?plan s1"
    using run_after_plan[OF calm no_dir[OF room] assms(5,4)] by blast
  have F: "files s1 = files s" using q1 by (simp add: quietly_def)
  obtain s2 where q2: "quietly (files s2) s1 s2" and w: "written (euid H) ?plan (files s) (files s2)"
    and ap: "sshd_apply H ?plan s1 = sshd_verify H ?plan s2"
    using calm_apply[OF calm, of s1 a] room F by auto
  obtain rc out err w' where rc: "rc \<noteq> 0" "subprocess H sshd_test (files s2, outer s2) = (Ok (rc, out, err), (files s2, w'))"
    using rej unfolding rejecting_def by blast
  let ?s3 = "s2\<lparr>outer := w', acts := acts s2 @ [Cmd sshd_test]\<rparr>"
  have 3: "run_tool H sshd_test s2 = (Ok (rc, out, err), ?s3)" by (simp add: run_tool_def rc)
  have "rewritable (files s2) (fst x)" if x: "x \<in> set ?plan" for x
  proof -
    obtain p old new where [simp]: "x = (p, old, new)" by (cases x)
    have p: "p \<in> set ssh_paths" using x planned_paths[of a "files s"] by force
    have "files s2 p = Some (Plain new (mode_of p) (euid H))" using w x unfolding written_def by auto
    moreover have "dirname p \<notin> fst ` set ?plan" using dirname_not_path[OF p] planned_paths[of a "files s"] by force
    then have "files s2 (dirname p) = files s (dirname p) \<or> files s (dirname p) = None \<and> files s2 (dirname p) = Some Dir"
      using w unfolding written_def by blast
    moreover have "is_dir (files s) (dirname p)" using room p by (simp add: list_all_iff has_room_def)
    ultimately show ?thesis by (auto simp: rewritable_def is_dir_def)
  qed
  then obtain s4 where 4: "forE (rev ?plan) (\<lambda>(p, old, new). restore H p old) ?s3 = (Ok (), s4)"
    and d4: "did is_sys ?s3 s4"
    using calm_restores[OF calm, of ?s3 "rev ?plan"] planned_distinct[of a "files s"] planned_paths[of a "files s"]
    by (auto simp: list_all_iff rev_map[symmetric])
  let ?t = "s4\<lparr>stdout := stdout s4 @ [''FAIL '' @ dumps (JObj [(''sshd -t'', JStr (take 400 (strip err)))])]\<rparr>"
  have a2: "sshd_apply H ?plan s1 = (Ok (Inl 1), ?t)"
    unfolding ap sshd_verify_def
    by (simp add: bindE_def[of "run_tool H sshd_test"] 3 rc(1) bindE_def[of "forE _ _"] 4 stop_with_def fail_def bindE_assoc)
       (simp add: bindE_def say_def modE_def retE_def)
  have t: "do_sshd_drop_in H a s = (Ok 1, ?t)"
    unfolding run by (simp add: sshd_commit_def bindE_def catchE_def a2 retE_def)
  have "text_of (files ?t) p = text_of (files s) p" if "p \<in> set ssh_paths" for p
    using rejected_restores[OF calm_honest[OF calm] rejecting_rejects[OF rej] a2 _ that, of a] F by simp
  moreover have "did no_restart s ?t"
  proof -
    have 5: "did no_restart s s2" using q1 q2 did_no_restart_sys did_trans unfolding quietly_def by blast
    have 6: "did no_restart s ?s3" by (rule did_more[OF 5, of "[Cmd sshd_test]"]) simp_all
    have 7: "did no_restart s s4" by (rule did_trans[OF 6 did_no_restart_sys[OF d4]])
    show ?thesis by (rule did_more[OF 7, of "[]"]) simp_all
  qed
  ultimately show ?thesis using t by (auto simp: list_all_iff)
qed

end
