(* ===== verification/Ssh_Claims.thy ===== *)
theory Ssh_Claims
  imports Dsm_Ssh_Calm
begin

text \<open>Properties of the SSH transaction of \<open>apply_ssh.py\<close>.\<close>

text \<open>A small host: the main configuration is there, nothing else of the three files; \<open>r\<close> is what running a tool gives.\<close>

definition ssh_dirs :: "string list" where
  "ssh_dirs = [''/etc'', ''/etc/ssh'', ''/etc/ssh/sshd_config.d'', ''/usr'', ''/usr/local'', ''/usr/local/bin'']"

definition ssh_tree :: tree where
  "ssh_tree p = (if List.member ssh_dirs p then Some Dir else if p = SSHD_MAIN then Some (Plain ''UsePAM yes'' (perm 6 0 0) (0, 0)) else None)"

definition ssh_host :: "(int \<times> string \<times> string) res \<Rightarrow> unit host" where
  "ssh_host r = \<lparr>environ = \<lambda>_. None, subprocess = \<lambda>_ x. (r, x), http = \<lambda>_ w. (Answer 200 Empty, w), clock = \<lambda>_. 0,
     sleep = \<lambda>_ w. w, fate = \<lambda>_ w. (Go, w), torn = \<lambda>_. 0, random_name = \<lambda>_. ''x'', euid = (0, 0), sha256 = \<lambda>s. s,
     loads = \<lambda>_. None, exc_text = \<lambda>_. []\<rparr>"

definition ssh_box :: "unit box" where
  "ssh_box = \<lparr>files = ssh_tree, outer = (), acts = [], stdout = []\<rparr>"

definition ssh_args :: dropin_args where
  "ssh_args = \<lparr>di_allow_password = ''no'', di_allow_root = ''no'', di_allowed_algos = [], di_check = False\<rparr>"

lemma ssh_demo_calm: "calm_host (ssh_host r)"
  by (simp add: calm_host_def ssh_host_def)

lemma ssh_demo_room: "list_all (has_room (ssh_host r) (files ssh_box)) ssh_paths"
  by (simp add: ssh_paths_def has_room_def path_facts temp_names is_dir_def ssh_box_def ssh_host_def)
     (simp add: ssh_tree_def ssh_dirs_def SSHD_MAIN_def SSHD_DROP_IN_def AD_AUTHKEYS_PATH_def)

lemma ssh_demo_plan: "planned_files ssh_args (files ssh_box) \<noteq> []"
proof -
  have "ssh_tree SSHD_DROP_IN = None"
    by (simp add: ssh_tree_def ssh_dirs_def SSHD_MAIN_def SSHD_DROP_IN_def)
  then show ?thesis by (simp add: planned_files_def wanted_files_def text_of_def ssh_box_def)
qed

lemma ssh_demo_args: "CHR 0x0D \<notin> set (di_allowed_algos ssh_args)" "\<not> di_check ssh_args"
  by (simp_all add: ssh_args_def)

text \<open>
  C20. The daemon is restarted only on a configuration that \<open>sshd -t\<close> has accepted: if the drop-in subcommand
  runs \<open>systemctl restart sshd\<close>, then \<open>sshd -t\<close> has ended with 0 on a file system in which each of the three
  files holds exactly the text that the run wants there, whatever system calls fail and wherever the run is
  killed. (The system is taken not to say that a file is missing while it is there.)
\<close>

theorem restart_only_on_accepted_files:
  assumes "honest H"
  shows "did no_restart s (snd (do_sshd_drop_in H a s)) \<or>
    (\<exists>G. accepts H G \<and> list_all (shows_text G) (wanted_files a (files s)))"
  by (rule restart_is_tested[OF assms])

theorem restart_only_on_accepted_files_witness:
  "did no_restart ssh_box (snd (do_sshd_drop_in (ssh_host (Ok (0, [], []))) ssh_args ssh_box)) \<or>
    (\<exists>G. accepts (ssh_host (Ok (0, [], []))) G \<and> list_all (shows_text G) (wanted_files ssh_args (files ssh_box)))"
  by (rule restart_only_on_accepted_files[OF calm_honest[OF ssh_demo_calm]])

text \<open>
  C21. When \<open>sshd -t\<close> rejects the files, no system call fails and the directories of the three files are there, the run
  returns 1, does not restart the daemon, and each of the three files reads as before.
\<close>

theorem rejected_is_rolled_back:
  assumes "calm_host H" and "rejecting H" and "list_all (has_room H (files s)) ssh_paths"
    and "\<not> di_check a" and "planned_files a (files s) \<noteq> []"
  shows "\<exists>t. do_sshd_drop_in H a s = (Ok 1, t) \<and> did no_restart s t \<and>
    list_all (\<lambda>p. text_of (files t) p = text_of (files s) p) ssh_paths"
  by (rule rejected_rolls_back[OF assms])

theorem rejected_is_rolled_back_witness:
  "\<exists>t. do_sshd_drop_in (ssh_host (Ok (255, [], []))) ssh_args ssh_box = (Ok 1, t) \<and> did no_restart ssh_box t \<and>
    list_all (\<lambda>p. text_of (files t) p = text_of (files ssh_box) p) ssh_paths"
proof -
  have "rejecting (ssh_host (Ok (255, [], [])))" by (simp add: rejecting_def ssh_host_def)
  from rejected_is_rolled_back[OF ssh_demo_calm this ssh_demo_room ssh_demo_args(2) ssh_demo_plan] show ?thesis .
qed

text \<open>
  C22. When \<open>sshd -t\<close> cannot be run at all, the run returns 1 and restarts nothing, but the three new files stay in
  place untested; and the next run finds nothing to do, so they are never tested by this program.
\<close>

theorem untested_configuration_stays:
  assumes "calm_host H" and "no_sshd H" and "list_all (has_room H (files s)) ssh_paths"
    and "CHR 0x0D \<notin> set (di_allowed_algos a)" and "\<not> di_check a" and "planned_files a (files s) \<noteq> []"
  shows "\<exists>t u. do_sshd_drop_in H a s = (Ok 1, t) \<and> did no_restart s t \<and>
    list_all (shows_text (files t)) (wanted_files a (files s)) \<and>
    do_sshd_drop_in H a t = (Ok 0, u) \<and> stdout u = stdout t @ [''OK no-change''] \<and> did is_sys t u"
  by (rule untested_stays[OF assms])

theorem untested_configuration_stays_witness:
  "\<exists>t u. do_sshd_drop_in (ssh_host (Exc (OSError ENOENT))) ssh_args ssh_box = (Ok 1, t) \<and> did no_restart ssh_box t \<and>
    list_all (shows_text (files t)) (wanted_files ssh_args (files ssh_box)) \<and>
    do_sshd_drop_in (ssh_host (Exc (OSError ENOENT))) ssh_args t = (Ok 0, u) \<and> stdout u = stdout t @ [''OK no-change''] \<and> did is_sys t u"
proof -
  have "no_sshd (ssh_host (Exc (OSError ENOENT)))" by (simp add: no_sshd_def ssh_host_def)
  from untested_configuration_stays[OF ssh_demo_calm this ssh_demo_room ssh_demo_args ssh_demo_plan] show ?thesis .
qed

end
