(* ===== verification/Dsm_Settled.thy ===== *)
theory Dsm_Settled
  imports Webapi_Facts Dsm_Services Dsm_System Dsm_Ssh
begin

text \<open>
  The subcommands of the common form as interpretations of the locale \<open>wish\<close>: under the law of its web
  API each converges, that is, one run reaches the wish and the next one finds nothing to do.
\<close>

section \<open>Wishes made of flags\<close>

lemma wants_simps: "wants [] = []" "wants ((k, v) # fs) = (case v of None \<Rightarrow> [] | Some j \<Rightarrow> [(k, j)]) @ wants fs"
  by (simp_all add: wants_def)

lemma wants_keys: "fst ` set (wants fs) \<subseteq> fst ` set fs"
  by (induction fs) (force simp: wants_simps split: option.splits)+

lemma wants_distinct: "distinct (map fst fs) \<Longrightarrow> distinct (map fst (wants fs))"
proof (induction fs)
  case (Cons p fs)
  then show ?case
    using wants_keys[of fs] by (cases p; cases "snd p") (auto simp: wants_simps)
qed (simp add: wants_simps)

lemma wants_scalars: "list_all (\<lambda>p. case snd p of None \<Rightarrow> True | Some j \<Rightarrow> scalar j) fs \<Longrightarrow> list_all (scalar \<circ> snd) (wants fs)"
  by (induction fs) (auto simp: wants_simps split: option.splits)

lemma scalar_flags [simp]: "case flag a of None \<Rightarrow> True | Some j \<Rightarrow> scalar j" "case str_flag a of None \<Rightarrow> True | Some j \<Rightarrow> scalar j"
  by (auto simp: flag_def str_flag_def scalar_def split: option.split)

lemma wish_flags:
  assumes "distinct (map fst fs)" and "list_all (\<lambda>p. case snd p of None \<Rightarrow> True | Some j \<Rightarrow> scalar j) fs"
    and "eq = plainly \<or> eq = coerced"
  shows "wish eq (wants fs)"
  using wants_distinct[OF assms(1)] wants_scalars[OF assms(2)] assms(3) by unfold_locales (auto intro: scalar_same)

section \<open>The subcommands\<close>

definition ftp_wish :: "ftp_args \<Rightarrow> dict" where
  "ftp_wish ar = wants [(''enable_ftp'', flag (ft_enable_ftp ar)), (''enable_ftps'', flag (ft_enable_ftps ar))]"

definition afp_wish :: "afp_args \<Rightarrow> dict" where
  "afp_wish ar = wants [(''enable_afp'', flag (af_enable ar))]"

definition push_wish :: "push_args \<Rightarrow> dict" where
  "push_wish ar = wants [(''msn_enable'', flag (pu_msn ar)), (''skype_enable'', flag (pu_skype ar)), (''mobile_enable'', flag (pu_mobile ar))]"

definition network_wish :: "network_args \<Rightarrow> dict" where
  "network_wish ar =
     wants [(''server_name'', str_flag (nw_hostname ar)), (''gateway'', str_flag (nw_gateway ar)),
       (''dns_primary'', str_flag (nw_dns_primary ar)), (''dns_secondary'', str_flag (nw_dns_secondary ar)),
       (''dns_manual'', flag (nw_dns_manual ar)), (''ipv4_first'', flag (nw_ipv4_first ar))]"

definition nfs_wish :: "nfs_args \<Rightarrow> dict" where
  "nfs_wish ar =
     wants [(''enable_nfs'', flag (nf_enable ar)), (''enable_nfs_v4'', flag (nf_nfsv4 ar)),
       (''nfs_v4_domain'', str_flag (nf_v4_domain ar))]"

definition terminal_wish :: "terminal_args \<Rightarrow> int \<Rightarrow> dict" where
  "terminal_wish ar port =
     [(''enable_ssh'', JBool (bool_text (te_ssh_enable ar))), (''ssh_port'', JNum port),
      (''enable_telnet'', JBool (bool_text (te_telnet_enable ar)))]"

interpretation ftp: wish plainly "''SYNO.Core.FileServ.FTP''" "[version 1, ''method=get'']" "[version 1, ''method=set'']"
    "ftp_wish ar" for ar
  unfolding ftp_wish_def by (rule wish_flags) simp_all

interpretation afp: wish plainly "''SYNO.Core.FileServ.AFP''" "[version 1, ''method=get'']" "[version 1, ''method=set'']"
    "afp_wish ar" for ar
  unfolding afp_wish_def by (rule wish_flags) simp_all

interpretation push: wish plainly "''SYNO.Core.Notification.Push.Conf''" "[version 1, ''method=get'']" "[version 1, ''method=set'']"
    "push_wish ar" for ar
  unfolding push_wish_def by (rule wish_flags) simp_all

interpretation network: wish plainly "''SYNO.Core.Network''" "[version 2, ''method=get'']" "[version 2, ''method=set'']"
    "network_wish ar" for ar
  unfolding network_wish_def by (rule wish_flags) simp_all

interpretation nfs: wish coerced GLOBAL_API "[version 1, ''method=get'']" "[version 1, ''method=set'']" "nfs_wish ar" for ar
  unfolding nfs_wish_def by (rule wish_flags) simp_all

interpretation terminal: wish plainly TERMINAL_API "[version TERMINAL_VER, ''method=get'']" "[version TERMINAL_VER, ''method=set'']"
    "terminal_wish ar port" for ar port
  by unfold_locales (auto simp: scalar_same scalar_def terminal_wish_def)

section \<open>What converging means\<close>

text \<open>The settings behind one web API as the law of \<open>settings_api\<close> has them, for programs that send complete objects.\<close>

definition web_settings :: "'w host \<Rightarrow> ('w \<Rightarrow> string \<Rightarrow> string \<Rightarrow> json) \<Rightarrow> string \<Rightarrow> int \<Rightarrow> dict \<Rightarrow> bool" where
  "web_settings H view api ver desired \<longleftrightarrow>
     settings_api H (\<lambda>w. view w api) api [version ver, ''method=get''] (\<lambda>p. [version ver, ''method=set''] @ args_from p) (asks desired)"

text \<open>
  From any state a run ends with 0 and the wish fulfilled; then a further run, with \<open>--check\<close> or without, prints that
  there is nothing to do and leaves the settings.
\<close>

definition settles :: "(bool \<Rightarrow> ('w box, int) eff) \<Rightarrow> ('w \<Rightarrow> string \<Rightarrow> json) \<Rightarrow> (json \<Rightarrow> json \<Rightarrow> bool) \<Rightarrow> dict \<Rightarrow> bool" where
  "settles prog view eq desired \<longleftrightarrow>
     (\<forall>s. \<exists>t. prog False s = (Ok 0, t) \<and> unmet eq desired (view (outer t)) = [] \<and>
       (\<forall>check. \<exists>u. prog check t = (Ok 0, u) \<and> view (outer u) = view (outer t) \<and> stdout u = stdout t @ [''OK no-change'']))"

lemma settlesI:
  assumes "\<And>check s. \<exists>t. prog False s = (Ok 0, t) \<and> unmet eq desired (view (outer t)) = [] \<and>
      (\<exists>u. prog check t = (Ok 0, u) \<and> view (outer u) = view (outer t) \<and> stdout u = stdout t @ [''OK no-change''])"
  shows "settles prog view eq desired"
  unfolding settles_def
proof
  fix s
  obtain t where t: "prog False s = (Ok 0, t)" "unmet eq desired (view (outer t)) = []" using assms by blast
  then show "\<exists>t. prog False s = (Ok 0, t) \<and> unmet eq desired (view (outer t)) = [] \<and>
      (\<forall>check. \<exists>u. prog check t = (Ok 0, u) \<and> view (outer u) = view (outer t) \<and> stdout u = stdout t @ [''OK no-change''])"
    using assms[of s] by (metis prod.inject)
qed

lemma apply_service_overlay:
  "apply_service H ''ftp'' d c = overlay H plainly ''SYNO.Core.FileServ.FTP'' [version 1, ''method=get''] [version 1, ''method=set''] d c"
  "apply_service H ''afp'' d c = overlay H plainly ''SYNO.Core.FileServ.AFP'' [version 1, ''method=get''] [version 1, ''method=set''] d c"
  by (simp_all add: apply_service_def APIS_def dict_get_def)

lemma ftp_settles:
  assumes "web_settings H view ''SYNO.Core.FileServ.FTP'' 1 (ftp_wish ar)"
  shows "settles (\<lambda>c. do_ftp H (ar\<lparr>ft_check := c\<rparr>)) (\<lambda>w. view w ''SYNO.Core.FileServ.FTP'') plainly (ftp_wish ar)"
  using ftp.converges[OF assms[unfolded web_settings_def]]
  by (intro settlesI) (simp add: do_ftp_def ftp_wish_def apply_service_overlay)

lemma afp_settles:
  assumes "web_settings H view ''SYNO.Core.FileServ.AFP'' 1 (afp_wish ar)"
  shows "settles (\<lambda>c. do_afp H (ar\<lparr>af_check := c\<rparr>)) (\<lambda>w. view w ''SYNO.Core.FileServ.AFP'') plainly (afp_wish ar)"
  using afp.converges[OF assms[unfolded web_settings_def]]
  by (intro settlesI) (simp add: do_afp_def afp_wish_def apply_service_overlay)

lemma push_settles:
  assumes "web_settings H view ''SYNO.Core.Notification.Push.Conf'' 1 (push_wish ar)"
  shows "settles (\<lambda>c. do_push H (ar\<lparr>pu_check := c\<rparr>)) (\<lambda>w. view w ''SYNO.Core.Notification.Push.Conf'') plainly (push_wish ar)"
  using push.converges[OF assms[unfolded web_settings_def]]
  by (intro settlesI) (simp add: do_push_def push_wish_def apply_full_def)

lemma network_settles:
  assumes "web_settings H view ''SYNO.Core.Network'' 2 (network_wish ar)"
  shows "settles (\<lambda>c. do_network H (ar\<lparr>nw_check := c\<rparr>)) (\<lambda>w. view w ''SYNO.Core.Network'') plainly (network_wish ar)"
  using network.converges[OF assms[unfolded web_settings_def]]
  by (intro settlesI) (simp add: do_network_def network_wish_def apply_full_def)

lemma nfs_settles:
  assumes "web_settings H view GLOBAL_API 1 (nfs_wish ar)"
  shows "settles (\<lambda>c. do_global H (ar\<lparr>nf_check := c\<rparr>)) (\<lambda>w. view w GLOBAL_API) coerced (nfs_wish ar)"
  using nfs.converges[OF assms[unfolded web_settings_def]]
  by (intro settlesI) (simp add: do_global_def nfs_wish_def)

lemma int_of_text_str [simp]: "int_of_text (str_int n) = retE n"
  by (simp add: int_of_text_def int_of_str_int)

lemma terminal_settles:
  assumes "web_settings H view TERMINAL_API TERMINAL_VER (terminal_wish ar port)"
  shows "settles (\<lambda>c. do_terminal H (ar\<lparr>te_ssh_port := str_int port, te_check := c\<rparr>)) (\<lambda>w. view w TERMINAL_API) plainly
    (terminal_wish ar port)"
  using terminal.converges[OF assms[unfolded web_settings_def]]
  by (intro settlesI) (simp add: do_terminal_def terminal_wish_def)

section \<open>The clock\<close>

text \<open>
  What \<open>do_ntp\<close> may do: read the object, or set one without any of the clock's keys that has the two desired keys.
\<close>

definition ntp_act :: "string \<Rightarrow> act \<Rightarrow> bool" where
  "ntp_act server a \<longleftrightarrow>
     a = Cmd (webapi_argv NTP_API [version 1, ''method=get'']) \<or>
     (\<exists>p. a = Cmd (webapi_argv NTP_API ([version 1, ''method=set''] @ args_from p)) \<and>
        list_all (\<lambda>x. fst x \<notin> set NTP_CLOCK_KEYS) p \<and> look p ''enable_ntp'' = JStr NTP_MODE_ENABLED \<and> look p ''server'' = JStr server)"

lemma fold_set_keys: "fst ` set (fold (\<lambda>(k, v). dict_set k v) e d) = fst ` set d \<union> fst ` set e"
proof (induction e arbitrary: d)
  case (Cons p e)
  then show ?case using set_dict_keys_set[of "fst p" "snd p" d] by (cases p) (auto simp: dict_keys_def)
qed simp

lemma merge_keys: "fst ` set (merge d e) = fst ` set d \<union> fst ` set e"
  by (simp add: merge_def fold_set_keys)

lemma ntp_payload_ok:
  assumes "p = merge (filter (\<lambda>p. fst p \<notin> set NTP_CLOCK_KEYS) d) [(''enable_ntp'', JStr NTP_MODE_ENABLED), (''server'', JStr server)]"
  shows "ntp_act server (Cmd (webapi_argv NTP_API ([version 1, ''method=set''] @ args_from p)))"
proof -
  have "fst ` set p \<subseteq> fst ` set (filter (\<lambda>p. fst p \<notin> set NTP_CLOCK_KEYS) d) \<union> {''enable_ntp'', ''server''}"
    unfolding assms merge_keys by auto
  moreover have "{''enable_ntp'', ''server''} \<inter> set NTP_CLOCK_KEYS = {}" by (simp add: NTP_CLOCK_KEYS_def)
  ultimately have "fst x \<notin> set NTP_CLOCK_KEYS" if "x \<in> set p" for x using that by fastforce
  moreover have "look p k = (if k \<in> {''enable_ntp'', ''server''} then look [(''enable_ntp'', JStr NTP_MODE_ENABLED), (''server'', JStr server)] k
      else look (filter (\<lambda>p. fst p \<notin> set NTP_CLOCK_KEYS) d) k)" for k
    unfolding assms by (subst look_merge) auto
  then have "look p ''enable_ntp'' = JStr NTP_MODE_ENABLED" "look p ''server'' = JStr server"
    by (simp_all add: look_def dict_get_def)
  ultimately show ?thesis unfolding ntp_act_def list_all_iff by blast
qed

lemma does_ntp_set:
  "keeps (did (ntp_act server))
     (bindE (ntp_payload cur [(''enable_ntp'', JStr NTP_MODE_ENABLED), (''server'', JStr server)])
        (\<lambda>p. webapi_exec H NTP_API ([version 1, ''method=set''] @ args_from p)))"
proof (cases cur)
  case (JObj d)
  show ?thesis
    unfolding JObj ntp_payload_def json.case bind_retE by (rule does_webapi_exec, rule ntp_payload_ok, rule refl)
qed (auto simp: ntp_payload_def intro!: does_rules)

lemma does_ntp: "keeps (did (ntp_act (nt_server a))) (do_ntp H a)"
  unfolding do_ntp_def Let_def
  by (auto simp: ntp_act_def[of _ "Cmd (webapi_argv NTP_API [version 1, ''method=get''])"]
      intro!: does_rules does_web does_ntp_set)

end
