(* ===== verification/Nas_Claims.thy ===== *)
theory Nas_Claims
  imports Dsm_Settled
begin

text \<open>What runs of the NAS appliers achieve when the tools of DSM do what they document.\<close>

section \<open>Settings\<close>

text \<open>A small DSM: it knows which APIs have been set, and each holds the demo wish or nothing.\<close>

definition demo_ftp :: ftp_args where
  "demo_ftp = \<lparr>ft_enable_ftp = Some ''no'', ft_enable_ftps = Some ''yes'', ft_check = False\<rparr>"

definition demo_afp :: afp_args where
  "demo_afp = \<lparr>af_enable = Some ''no'', af_check = False\<rparr>"

definition demo_push :: push_args where
  "demo_push = \<lparr>pu_msn = None, pu_skype = None, pu_mobile = Some ''yes'', pu_check = False\<rparr>"

definition demo_network :: network_args where
  "demo_network = \<lparr>nw_hostname = Some ''e4e-nas'', nw_gateway = None, nw_dns_primary = None, nw_dns_secondary = None,
     nw_dns_manual = Some ''yes'', nw_ipv4_first = None, nw_check = False\<rparr>"

definition demo_nfs :: nfs_args where
  "demo_nfs = \<lparr>nf_enable = Some ''yes'', nf_nfsv4 = None, nf_v4_domain = Some ''krg.local'', nf_check = False\<rparr>"

definition demo_terminal :: terminal_args where
  "demo_terminal = \<lparr>te_ssh_enable = ''yes'', te_ssh_port = ''22'', te_telnet_enable = ''no'', te_check = False\<rparr>"

definition demo_wishes :: "(string \<times> int \<times> dict) list" where
  "demo_wishes =
     [(''SYNO.Core.FileServ.FTP'', 1, ftp_wish demo_ftp), (''SYNO.Core.FileServ.AFP'', 1, afp_wish demo_afp),
      (''SYNO.Core.Notification.Push.Conf'', 1, push_wish demo_push), (''SYNO.Core.Network'', 2, network_wish demo_network),
      (GLOBAL_API, 1, nfs_wish demo_nfs), (TERMINAL_API, TERMINAL_VER, terminal_wish demo_terminal 22)]"

definition demo_object :: "string list \<Rightarrow> string \<Rightarrow> dict" where
  "demo_object w api = (if List.member w api then (case dict_get demo_wishes api of None \<Rightarrow> [] | Some x \<Rightarrow> snd x) else [])"

definition demo_view :: "string list \<Rightarrow> string \<Rightarrow> string \<Rightarrow> json" where
  "demo_view w api = look (demo_object w api)"

definition demo_loads :: "string \<Rightarrow> json option" where
  "demo_loads s =
     Some (JObj [(''success'', JBool True), (''data'', JObj (demo_object (if s ! 1 = CHR ''1'' then [drop 2 s] else []) (drop 2 s)))])"

definition demo_dsm :: "string list host" where
  "demo_dsm =
     \<lparr>environ = \<lambda>_. None,
      subprocess = \<lambda>argv (fs, w).
        let api = drop 4 (argv ! 2); w' = (if argv ! 4 = ''method=set'' then api # w else w) in
        (Ok (0, [CHR 0x7B, if List.member w' api then CHR ''1'' else CHR ''0''] @ api, []), (fs, w')),
      http = \<lambda>_ w. (Answer 200 Empty, w), clock = \<lambda>_. 0, sleep = \<lambda>_ w. w, fate = \<lambda>_ w. (Go, w), torn = \<lambda>_. 0,
      random_name = \<lambda>_. ''x'', euid = (0, 0), sha256 = \<lambda>s. s, loads = demo_loads, exc_text = \<lambda>_. []\<rparr>"

lemma demo_object_other: "demo_object (api # w) a = (if a = api then demo_object [api] api else demo_object w a)"
  by (simp add: demo_object_def)

lemma demo_answer:
  assumes "m = ''method=get'' \<or> m = ''method=set''" and "w' = (if m = ''method=set'' then api # w else w)"
  shows "succeeds demo_dsm (webapi_argv api (v # m # ps)) fs w
    [(''success'', JBool True), (''data'', JObj (demo_object w' api))] w'"
proof -
  have "demo_object (if List.member w' api then [api] else []) api = demo_object w' api"
    by (simp add: demo_object_def)
  then show ?thesis
    using assms
    by (auto simp: succeeds_def answers_def demo_dsm_def webapi_argv_def from_brace_def demo_loads_def look_def dict_get_def Let_def truthy_def)
qed

lemma demo_settings:
  assumes "dict_get demo_wishes api = Some (ver, d)"
  shows "web_settings demo_dsm demo_view api ver d"
  unfolding web_settings_def settings_api_def
proof (intro conjI allI impI)
  fix fs w
  show "\<exists>r da w'. succeeds demo_dsm (webapi_argv api [version ver, ''method=get'']) fs w r w' \<and> look r ''data'' = JObj da \<and>
      look da = demo_view w api \<and> demo_view w' api = demo_view w api"
    by (intro exI conjI, rule demo_answer[OF _ refl]) (simp_all add: look_def dict_get_def demo_view_def)
next
  fix fs w p
  assume asks: "asks d (demo_view w api) p"
  have d: "demo_object w api = [] \<or> demo_object w api = d" "demo_object (api # w) api = d"
    using assms by (simp_all add: demo_object_def)
  have gone: "look d k = JNull" if "k \<notin> fst ` set d" for k
  proof -
    have "dict_get d k = None" using that by (simp add: dict_keys_def)
    then show ?thesis by (simp add: look_def del: dict_get_eq_None)
  qed
  have "demo_view (api # w) api = (\<lambda>k. if look p k = JNull then demo_view w api k else look p k)"
    using asks d gone by (auto simp: asks_def overlaid_def demo_view_def fun_eq_iff) (auto simp: look_def dict_get_def)
  then show "\<exists>r w'. succeeds demo_dsm (webapi_argv api ([version ver, ''method=set''] @ args_from p)) fs w r w' \<and>
      demo_view w' api = (\<lambda>k. if look p k = JNull then demo_view w api k else look p k)"
    by (intro exI conjI) (simp, rule demo_answer[OF _ refl], simp_all)
qed

text \<open>
  C23. The subcommands for FTP, AFP, push notifications, the network, NFS and the terminal converge on a DSM whose web
  APIs store what they are sent when it is the whole object with the wish over it: from any state one run ends with 0
  and the wish fulfilled, and after that a run with or without \<open>--check\<close> prints that there is nothing to do and
  changes no setting.
\<close>

theorem settings_converge:
  assumes "list_all (\<lambda>(api, ver, d). web_settings H view api ver d)
     [(''SYNO.Core.FileServ.FTP'', 1, ftp_wish ftp), (''SYNO.Core.FileServ.AFP'', 1, afp_wish afp),
      (''SYNO.Core.Notification.Push.Conf'', 1, push_wish push), (''SYNO.Core.Network'', 2, network_wish net),
      (GLOBAL_API, 1, nfs_wish nfs), (TERMINAL_API, TERMINAL_VER, terminal_wish ter port)]"
  shows "settles (\<lambda>c. do_ftp H (ftp\<lparr>ft_check := c\<rparr>)) (\<lambda>w. view w ''SYNO.Core.FileServ.FTP'') plainly (ftp_wish ftp) \<and>
    settles (\<lambda>c. do_afp H (afp\<lparr>af_check := c\<rparr>)) (\<lambda>w. view w ''SYNO.Core.FileServ.AFP'') plainly (afp_wish afp) \<and>
    settles (\<lambda>c. do_push H (push\<lparr>pu_check := c\<rparr>)) (\<lambda>w. view w ''SYNO.Core.Notification.Push.Conf'') plainly (push_wish push) \<and>
    settles (\<lambda>c. do_network H (net\<lparr>nw_check := c\<rparr>)) (\<lambda>w. view w ''SYNO.Core.Network'') plainly (network_wish net) \<and>
    settles (\<lambda>c. do_global H (nfs\<lparr>nf_check := c\<rparr>)) (\<lambda>w. view w GLOBAL_API) coerced (nfs_wish nfs) \<and>
    settles (\<lambda>c. do_terminal H (ter\<lparr>te_ssh_port := str_int port, te_check := c\<rparr>)) (\<lambda>w. view w TERMINAL_API) plainly
      (terminal_wish ter port)"
  using assms by (simp add: ftp_settles afp_settles push_settles network_settles nfs_settles terminal_settles)

theorem settings_converge_witness:
  "settles (\<lambda>c. do_network demo_dsm (demo_network\<lparr>nw_check := c\<rparr>)) (\<lambda>w. demo_view w ''SYNO.Core.Network'') plainly
     (network_wish demo_network)"
proof -
  have "list_all (\<lambda>(api, ver, d). web_settings demo_dsm demo_view api ver d) demo_wishes"
    unfolding demo_wishes_def list.pred_inject case_prod_conv
    by (intro conjI TrueI demo_settings) (simp_all add: demo_wishes_def dict_get_def GLOBAL_API_def TERMINAL_API_def)
  from settings_converge[OF this[unfolded demo_wishes_def]] show ?thesis by blast
qed

text \<open>
  C24. Setting the time source never steps the clock: every command of \<open>do_ntp\<close> reads the NTP object, or sets one that has
  none of the keys that DSM answers with the present time in, and that has NTP enabled with the wanted server.
\<close>

theorem ntp_never_steps_clock: "keeps (did (ntp_act (nt_server a))) (do_ntp H a)"
  by (rule does_ntp)

end
