(* ===== verification/Dsm_Acls_Facts.thy ===== *)
theory Dsm_Acls_Facts
  imports Dsm_Acls
begin

text \<open>
  The applier of share permissions against the drift detector: both read the same grants as the same tiers,
  so what the one has applied the other finds no fault with.
\<close>

section \<open>Reading grants\<close>

declare dict_get_eq_None [simp del]

lemma py_str_of: "str_of j s = (Ok x, t) \<Longrightarrow> py_str j = x"
  by (auto simp: str_of_def py_str_def repr_def split: json.splits)

lemma grant_agrees:
  assumes "grant_of g s = (Ok x, t)"
  shows "acl_grant g = retE x"
proof -
  obtain d where d: "g = JObj d" using assms by (cases g) (auto simp: grant_of_def get_key_def bindE_def raiseE_def)
  obtain name a v where name: "(case dict_get d ''group'' of Some x \<Rightarrow> bindE (as_str x) (\<lambda>s. retE (''@'' @ s)) | None \<Rightarrow> str_field ''user'' g) s = (Ok name, s)"
    and a: "dict_get d ''access'' = Some a" and v: "dict_get TIER_OF (lower (py_str a)) = Some v" and x: "x = (v, name)"
    using assms
    by (auto simp: d grant_of_def get_key_def bindE_Ok_iff field_def str_field_def as_str_def raiseE_def retE_def
        dest!: py_str_of split: option.splits json.splits)
  let ?who = "bindE (has_key ''group'' g) (\<lambda>is_group.
     if is_group then bindE (str_field ''group'' g) (\<lambda>s. retE (''@'' @ s))
     else bindE (has_key ''user'' g) (\<lambda>is_user. if is_user then str_field ''user'' g else raiseE (SystemExit 1)))"
  have who: "?who = retE name"
    using name
    by (auto simp: d has_key_def str_field_def field_def bindE_def as_str_def retE_def raiseE_def fun_eq_iff split: option.splits json.splits)
  have tiers: "TIER = TIER_OF" by (simp add: TIER_def TIER_OF_def)
  have "acl_grant g = bindE ?who (\<lambda>name. bindE (get_key ''access'' g) (\<lambda>a.
       case dict_get TIER (lower (case a of None \<Rightarrow> [] | Some v \<Rightarrow> py_str v)) of
         None \<Rightarrow> raiseE (SystemExit 1) | Some t \<Rightarrow> retE (t, name)))"
    by (simp only: acl_grant_def bindE_assoc)
  then show ?thesis
    unfolding who by (simp add: d get_key_def a v x tiers)
qed

lemma grants_agree: "mapE grant_of gs s = (Ok ps, t) \<Longrightarrow> mapE acl_grant gs = retE ps"
proof (induction gs arbitrary: s ps)
  case (Cons g gs)
  obtain p s1 qs where p: "grant_of g s = (Ok p, s1)" and q: "mapE grant_of gs s1 = (Ok qs, t)" and ps: "ps = p # qs"
    using Cons.prems by (auto simp: bindE_Ok_iff)
  show ?case using Cons.IH[OF q] by (simp add: ps grant_agrees[OF p])
qed simp

lemma tiers_agree:
  assumes "desired_tiers gs s = (Ok des, t)"
  shows "acl_desired (JArr gs) = retE des" and "map fst des = TIERS"
proof -
  obtain ps where ps: "mapE grant_of gs s = (Ok ps, t)"
    and des: "des = map (\<lambda>t. (t, sorted_set (map snd (filter (\<lambda>g. fst g = t) ps)))) TIERS"
    using assms by (auto simp: desired_tiers_def bindE_Ok_iff)
  show "acl_desired (JArr gs) = retE des"
    by (simp add: acl_desired_def iter_def grants_agree[OF ps] acl_tiers_def des)
  show "map fst des = TIERS" by (simp add: des comp_def)
qed

section \<open>What synoshare does\<close>

text \<open>
  synoshare for one share, whose tiers are \<open>view\<close>: listing prints them in the form that is read back, and setting a
  tier with the operator \<open>=\<close> makes it exactly the given principals.
\<close>

definition acl_tool :: "'w host \<Rightarrow> string \<Rightarrow> (string \<times> string list) list \<Rightarrow> ('w \<Rightarrow> string \<Rightarrow> string list) \<Rightarrow> bool" where
  "acl_tool H share des view \<longleftrightarrow>
     (\<forall>fs w. \<exists>rc out err w'. subprocess H [SYNOSHARE, ''--list_acl'', share] (fs, w) = (Ok (rc, out, err), (fs, w')) \<and>
        parse_list_acl out = map (\<lambda>t. (t, view w t)) TIERS \<and> view w' = view w) \<and>
     (\<forall>fs w. list_all (\<lambda>t. \<exists>out err w'.
        subprocess H [SYNOSHARE, ''--setuser'', share, t, ''='', join '','' (tier_get des t)] (fs, w) = (Ok (0, out, err), (fs, w')) \<and>
        view w' = (view w)(t := tier_get des t)) TIERS)"

definition tiers_of :: "('w \<Rightarrow> string \<Rightarrow> string list) \<Rightarrow> 'w \<Rightarrow> (string \<times> string list) list" where
  "tiers_of view w = map (\<lambda>t. (t, view w t)) TIERS"

lemma tier_get_tiers: "t \<in> set TIERS \<Longrightarrow> tier_get (tiers_of view w) t = view w t"
  by (auto simp: tiers_of_def TIERS_def tier_get_def dict_get_def)

lemma lists_tiers:
  assumes "acl_tool H share des view"
  shows "\<exists>t. current_tiers H share s = (Ok (tiers_of view (outer s)), t) \<and> view (outer t) = view (outer s) \<and> stdout t = stdout s"
proof -
  obtain rc out err w' where 1: "subprocess H [SYNOSHARE, ''--list_acl'', share] (files s, outer s) = (Ok (rc, out, err), (files s, w'))"
    and 2: "parse_list_acl out = map (\<lambda>t. (t, view (outer s) t)) TIERS" "view w' = view (outer s)"
    using assms unfolding acl_tool_def by blast
  show ?thesis using 2 by (simp add: current_tiers_def bindE_def run_tool_def 1 retE_def tiers_of_def)
qed

lemma sets_tier:
  assumes "acl_tool H share des view" and "t \<in> set TIERS"
  shows "\<exists>u. set_tier H share des () t s = (Ok (Inr ()), u) \<and> view (outer u) = (view (outer s))(t := tier_get des t) \<and> stdout u = stdout s"
proof -
  have "list_all (\<lambda>t. \<exists>out err w'.
      subprocess H [SYNOSHARE, ''--setuser'', share, t, ''='', join '','' (tier_get des t)] (files s, outer s) = (Ok (0, out, err), (files s, w')) \<and>
      view w' = (view (outer s))(t := tier_get des t)) TIERS"
    using assms(1) unfolding acl_tool_def by blast
  then obtain out err w' where
    1: "subprocess H [SYNOSHARE, ''--setuser'', share, t, ''='', join '','' (tier_get des t)] (files s, outer s) = (Ok (0, out, err), (files s, w'))"
    and 2: "view w' = (view (outer s))(t := tier_get des t)"
    using assms(2) unfolding list_all_iff by blast
  show ?thesis using 2 by (simp add: set_tier_def setuser_def bindE_def run_tool_def 1 retE_def go_on_def)
qed

lemma sets_tiers:
  assumes "acl_tool H share des view"
  shows "set ts \<subseteq> set TIERS \<Longrightarrow> \<exists>u. walkE (set_tier H share des) () ts s = (Ok (Inr ()), u) \<and>
    view (outer u) = (\<lambda>t. if t \<in> set ts then tier_get des t else view (outer s) t) \<and> stdout u = stdout s"
proof (induction ts arbitrary: s)
  case (Cons t ts)
  obtain s1 where 1: "set_tier H share des () t s = (Ok (Inr ()), s1)" and v: "view (outer s1) = (view (outer s))(t := tier_get des t)"
    and o: "stdout s1 = stdout s"
    using sets_tier[OF assms, of t s] Cons.prems by auto
  obtain u where "walkE (set_tier H share des) () ts s1 = (Ok (Inr ()), u)"
    and "view (outer u) = (\<lambda>t. if t \<in> set ts then tier_get des t else view (outer s1) t)" "stdout u = stdout s1"
    using Cons.IH[of s1] Cons.prems by auto
  then show ?case using v o by (auto simp: bindE_def 1 fun_eq_iff)
qed (simp add: retE_def)

section \<open>A run\<close>

lemma tiers_of_eq:
  assumes "map fst des = TIERS" and "list_all (\<lambda>t. v t = tier_get des t) TIERS"
  shows "map (\<lambda>t. (t, v t)) TIERS = des"
proof (rule nth_equalityI)
  show len: "length (map (\<lambda>t. (t, v t)) TIERS) = length des" using assms(1) by (metis length_map)
  have d: "distinct (map fst des)" using assms(1) by (simp add: TIERS_def)
  show "map (\<lambda>t. (t, v t)) TIERS ! i = des ! i" if "i < length (map (\<lambda>t. (t, v t)) TIERS)" for i
  proof -
    obtain t ps where x: "des ! i = (t, ps)" by (cases "des ! i")
    have t: "TIERS ! i = t" using assms(1) x that len by (metis fst_conv nth_map)
    have "(t, ps) \<in> set des" using x that len by (metis nth_mem)
    then have "tier_get des t = ps" using d by (simp add: tier_get_def dict_get_def)
    moreover have "v t = tier_get des t" using assms(2) t that by (auto simp: list_all_iff)
    ultimately show ?thesis using t x that by simp
  qed
qed

lemma setuser_applies:
  assumes "acl_tool H (su_share a) des view" and "host.loads H (su_grants a) = Some (JArr gs)" and "desired_tiers gs s0 = (Ok des, t0)"
    and "\<not> su_check a"
  shows "\<exists>t. do_setuser H a s = (Ok 0, t) \<and> tiers_of view (outer t) = des \<and>
    (acl_drift (tiers_of view (outer s)) des = [] \<longrightarrow> stdout t = stdout s @ [''OK no-change''])"
proof -
  let ?cur = "tiers_of view (outer s)" and ?F = "acl_drift (tiers_of view (outer s)) des"
  have sub: "set ?F \<subseteq> set TIERS" by (auto simp: acl_drift_def)
  obtain s1 where 1: "current_tiers H (su_share a) s = (Ok ?cur, s1)" and v1: "view (outer s1) = view (outer s)" "stdout s1 = stdout s"
    using lists_tiers[OF assms(1)] by blast
  have same: "view (outer s) t = tier_get des t" if "t \<in> set TIERS" "t \<notin> set ?F" for t
    using that tier_get_tiers[OF that(1), of view "outer s"] by (auto simp: acl_drift_def)
  have run: "do_setuser H a s = (if ?F = [] then no_change s1 else
      andthen (walkE (set_tier H (su_share a) des) () ?F) (\<lambda>_.
           bindE (say (''CHANGED '' @ dumps (sort_keys (acl_report ?cur des)))) (\<lambda>_. retE 0)) s1)"
    using assms(4) by (simp add: do_setuser_def json_loads_def assms(2) tiers_agree[OF assms(3)] bindE_def[of "current_tiers H _"] 1)
  show ?thesis
  proof (cases "?F = []")
    case True
    have "tiers_of view (outer s1) = des"
      unfolding tiers_of_def by (rule tiers_of_eq[OF tiers_agree(2)[OF assms(3)]]) (use same True v1 in \<open>auto simp: list_all_iff\<close>)
    then show ?thesis using run True v1 by (simp add: no_change_def bindE_def say_def modE_def retE_def)
  next
    case False
    obtain u where 2: "walkE (set_tier H (su_share a) des) () ?F s1 = (Ok (Inr ()), u)"
      and v2: "view (outer u) = (\<lambda>t. if t \<in> set ?F then tier_get des t else view (outer s1) t)"
      using sets_tiers[OF assms(1) sub] by blast
    have "tiers_of view (outer u) = des"
      unfolding tiers_of_def by (rule tiers_of_eq[OF tiers_agree(2)[OF assms(3)]]) (use same v1 in \<open>auto simp: list_all_iff v2\<close>)
    then show ?thesis using run False by (simp add: andthen_def bindE_def 2 say_def modE_def retE_def)
  qed
qed

lemma diff_tiers_same: "diff_tiers share des des = []"
  by (simp add: diff_tiers_def)

lemma no_drift_left:
  assumes "desired_tiers gs s = (Ok des, t)"
  shows "diff_acl [(share, des)] (JObj [(''share'', JStr share), (''grants'', JArr gs)]) s = (Ok [], t)"
  using assms
  by (simp add: diff_acl_def str_field_def field_def dict_get_def as_str_def list_get_def get_key_def as_list_def bindE_def
      retE_def diff_tiers_same)

lemma settled_drift: "acl_drift des des = []"
  by (simp add: acl_drift_def)

end
