(* ===== verification/Acl_Claims.thy ===== *)
theory Acl_Claims
  imports Dsm_Acls_Facts
begin

text \<open>Share permissions: the applier and the drift detector together.\<close>

text \<open>A synoshare for one share with two grants; it knows which tiers have been set.\<close>

definition demo_grants :: "json list" where
  "demo_grants =
     [JObj [(''group'', JStr ''admins''), (''access'', JStr ''rw'')], JObj [(''user'', JStr ''guest''), (''access'', JStr ''No'')]]"

definition demo_tiers :: "(string \<times> string list) list" where
  "demo_tiers = [(''RW'', [''@admins'']), (''RO'', []), (''NA'', [''guest''])]"

definition demo_listing :: "bool \<Rightarrow> bool \<Rightarrow> string" where
  "demo_listing rw na =
     ''ACL RW List ...['' @ (if rw then ''@admins'' else []) @ '']'' @ [CHR 0x0A] @ ''ACL RO List ...[]'' @ [CHR 0x0A] @
     ''ACL NA List ...['' @ (if na then ''guest'' else []) @ '']'' @ [CHR 0x0A]"

definition demo_tool :: "string list \<Rightarrow> tree \<times> string list \<Rightarrow> (int \<times> string \<times> string) res \<times> (tree \<times> string list)" where
  "demo_tool argv x =
     (if argv ! 1 = ''--setuser'' then (Ok (0, [], []), (fst x, argv ! 3 # snd x))
      else (Ok (0, demo_listing (List.member (snd x) ''RW'') (List.member (snd x) ''NA''), []), x))"

definition demo_acl_host :: "string list host" where
  "demo_acl_host = \<lparr>environ = \<lambda>_. None, subprocess = demo_tool, http = \<lambda>_ w. (Answer 200 Empty, w), clock = \<lambda>_. 0,
     sleep = \<lambda>_ w. w, fate = \<lambda>_ w. (Go, w), torn = \<lambda>_. 0, random_name = \<lambda>_. ''x'', euid = (0, 0), sha256 = \<lambda>s. s,
     host.loads = \<lambda>_. Some (JArr demo_grants), exc_text = \<lambda>_. []\<rparr>"

definition demo_acl_view :: "string list \<Rightarrow> string \<Rightarrow> string list" where
  "demo_acl_view w t = (if List.member w t then tier_get demo_tiers t else [])"

definition demo_setuser :: setuser_args where
  "demo_setuser = \<lparr>su_share = ''data'', su_grants = ''[...]'', su_check = False\<rparr>"

definition demo_acl_box :: "string list box" where
  "demo_acl_box = \<lparr>files = \<lambda>_. None, outer = [], acts = [], stdout = []\<rparr>"

lemma demo_parse:
  "parse_list_acl (demo_listing rw na) = [(''RW'', if rw then [''@admins''] else []), (''RO'', []), (''NA'', if na then [''guest''] else [])]"
proof -
  have "parse_list_acl (demo_listing True True) = [(''RW'', [''@admins'']), (''RO'', []), (''NA'', [''guest''])]"
    "parse_list_acl (demo_listing True False) = [(''RW'', [''@admins'']), (''RO'', []), (''NA'', [])]"
    "parse_list_acl (demo_listing False True) = [(''RW'', []), (''RO'', []), (''NA'', [''guest''])]"
    "parse_list_acl (demo_listing False False) = [(''RW'', []), (''RO'', []), (''NA'', [])]"
    by code_simp+
  then show ?thesis by (cases rw; cases na) simp_all
qed

lemma demo_acl_tool: "acl_tool demo_acl_host ''data'' demo_tiers demo_acl_view"
proof -
  have tiers: "tier_get demo_tiers ''RW'' = [''@admins'']" "tier_get demo_tiers ''RO'' = []" "tier_get demo_tiers ''NA'' = [''guest'']"
    by code_simp+
  have lists: "parse_list_acl (demo_listing (''RW'' \<in> set w) (''NA'' \<in> set w)) = map (\<lambda>t. (t, demo_acl_view w t)) TIERS" for w
    by (simp add: demo_parse TIERS_def demo_acl_view_def tiers)
  have sets: "demo_acl_view (t # w) = (demo_acl_view w)(t := tier_get demo_tiers t)" for t w
    by (auto simp: demo_acl_view_def fun_eq_iff)
  show ?thesis
    unfolding acl_tool_def list_all_iff
    by (auto simp: demo_acl_host_def demo_tool_def lists sets)
qed

lemma demo_grants_read: "desired_tiers demo_grants () = (Ok demo_tiers, ())"
  by code_simp

text \<open>
  C25. Applying and detecting agree. Take grants that the drift detector can read, and a synoshare that lists a share's
  tiers in its documented form and makes a tier exactly what \<open>--setuser ... =\<close> is given. Then \<open>apply_acls.py setuser\<close>
  ends with 0, what \<open>--list_acl\<close> prints afterwards is no drift to the drift detector, and a second run finds nothing to do.
\<close>

theorem applied_acls_show_no_drift:
  assumes "acl_tool H (su_share a) des view" and "host.loads H (su_grants a) = Some (JArr gs)"
    and "desired_tiers gs () = (Ok des, ())" and "\<not> su_check a"
  shows "\<exists>t u rc out err x. do_setuser H a s = (Ok 0, t) \<and>
    subprocess H [SYNOSHARE, ''--list_acl'', su_share a] (files t, outer t) = (Ok (rc, out, err), x) \<and>
    diff_acl [(su_share a, parse_list_acl out)] (JObj [(''share'', JStr (su_share a)), (''grants'', JArr gs)]) () = (Ok [], ()) \<and>
    do_setuser H a t = (Ok 0, u) \<and> stdout u = stdout t @ [''OK no-change'']"
proof -
  obtain t where t: "do_setuser H a s = (Ok 0, t)" "tiers_of view (outer t) = des" using setuser_applies[OF assms] by blast
  obtain u where u: "do_setuser H a t = (Ok 0, u)" "stdout u = stdout t @ [''OK no-change'']"
    using setuser_applies[OF assms, of t] by (auto simp: t(2) settled_drift)
  obtain rc out err w' where "subprocess H [SYNOSHARE, ''--list_acl'', su_share a] (files t, outer t) = (Ok (rc, out, err), (files t, w'))"
    and "parse_list_acl out = tiers_of view (outer t)"
    using assms(1) unfolding acl_tool_def tiers_of_def by blast
  with t u no_drift_left[OF assms(3), of "su_share a"] show ?thesis by (auto simp: t(2))
qed

theorem applied_acls_show_no_drift_witness:
  "\<exists>t u rc out err x. do_setuser demo_acl_host demo_setuser demo_acl_box = (Ok 0, t) \<and>
    subprocess demo_acl_host [SYNOSHARE, ''--list_acl'', su_share demo_setuser] (files t, outer t) = (Ok (rc, out, err), x) \<and>
    diff_acl [(su_share demo_setuser, parse_list_acl out)]
      (JObj [(''share'', JStr (su_share demo_setuser)), (''grants'', JArr demo_grants)]) () = (Ok [], ()) \<and>
    do_setuser demo_acl_host demo_setuser t = (Ok 0, u) \<and> stdout u = stdout t @ [''OK no-change'']"
proof (rule applied_acls_show_no_drift)
  show "acl_tool demo_acl_host (su_share demo_setuser) demo_tiers demo_acl_view"
    using demo_acl_tool by (simp add: demo_setuser_def)
qed (simp_all add: demo_acl_host_def demo_setuser_def demo_grants_read)

end
