(* ===== verification/Spec2Isabelle.thy ===== *)
theory Spec2Isabelle
  imports Compose_Claims Scratch_Claims Outline_Claims Cve_Claims Ad_Claims Drift_Claims Garage_Claims Dsm_Claims Ssh_Claims Nas_Claims Acl_Claims
begin

text \<open>
  Verification of the Python programs of krg-infra. Paths below are relative to the repository.

  \<^bold>\<open>The program.\<close> krg-infra configures a fleet of NixOS hosts, a Samba directory and a Synology NAS.
  Its Python is a set of programs that each bring one system to a described state and may be run again
  at any time: the NAS appliers (\<open>ansible/synology/roles/*/files/apply_*.py\<close>), the directory applier
  (\<open>ansible/krg-ad\<close>), the reload of compose stacks (\<open>nix/modules/services/compose-stack\<close>), the two
  tools that move cold files out of a scratch area and back (\<open>nix/modules/scratch\<close>), the
  synchronisation of Outline's groups with LDAP (\<open>nix/docker-compose/outline-group-sync\<close>), the nightly
  CVE scan (\<open>nix/modules/security/cve-scan\<close>) and the drift detector (\<open>drift\<close>). They share no code and
  no state; they meet only in the systems they talk to. Docker, samba-tool, the servers, the kernel,
  the clock and the third-party readers of YAML, JSON, CSV and dates are not under this repository: they
  are parameters of the model, with any behaviour at all unless a property states a documented law.

  \<^bold>\<open>Foundations.\<close> \<open>Prelude\<close>: exceptions, string methods and dictionaries. \<open>Effects\<close>: statements as
  functions from a state to an outcome and a state, where \<open>Halt\<close> (killed, or out of fuel) is an outcome
  no handler catches; the locale \<open>frame\<close> proves once that a program built of steps that keep a preorder
  keeps it, and each component interprets it on its own state; \<open>triple\<close> is partial correctness with a
  postcondition for the end by an exception or a kill. \<open>Json\<close>, \<open>Pylib\<close>: JSON values, how the code reads
  them, \<open>json.dumps\<close>, \<open>repr\<close>, \<open>os.path\<close>. \<open>Shell\<close>, \<open>Host\<close>: the state of an applier. A box has a file
  tree, an outer state that only the parameters change, the list of calls made and the lines printed;
  every call to the system may fail or be the last one.

  \<^bold>\<open>compose-reload.py.\<close> \<open>Compose_Stack\<close> has the class \<open>Stack\<close> and the two checks on a service,
  \<open>Compose_Mounts\<close> the hash of a tree, the fingerprints of mounts and the state file, \<open>Compose_Reload\<close> the
  plan, the handoff with its polling loops, the abort and \<open>main\<close>. The state pairs docker's world with the
  calls made and their outcomes. \<open>Compose_Correct\<close>: which calls can be made, what was observed before an
  old container is stopped, what a failed run leaves alone. \<open>Compose_Success\<close>: what a run that returns 0 has
  done, what docker said when a service was planned, and which calls start a dependency. The polling loops have fuel, one unit a
  poll; \<open>reload_main_returns\<close> shows that one more than fit in the timeout is enough, so \<open>Halt\<close> does not
  occur there.

  \<^bold>\<open>Scratch tools.\<close> \<open>Fs\<close> is a file system of directories, inodes and links with the calls of \<open>os\<close>; each
  may fail before or after its effect, or be killed. \<open>Scratch_Archive\<close> models \<open>scratch-overflow.py\<close>,
  \<open>Scratch_Restore\<close> models \<open>scratch-restore.py\<close>, both completely. \<open>Scratch_Safe\<close> states that no guarded
  file loses its data and proves it for each call; the other \<open>_Safe\<close> theories carry that through one
  file, one sweep, a whole run. \<open>Scratch_Sweeps\<close>: which files are selected and how many bytes move.

  \<^bold>\<open>Outline.\<close> \<open>Outline_Api\<close>: the class \<open>API\<close> and the listings, which end by a measure on the
  announced number of pages; \<open>Outline_Listing\<close> shows that they are complete against a server that pages
  through a fixed list. \<open>Outline_Sync\<close>: the plan, \<open>apply\<close>, \<open>reconcile\<close>, the configuration and the activity.
  \<open>Outline_Calls\<close>: the order of the requests, with the token each carries and the answer it got. \<open>Outline_Correct\<close>: what executing a plan does to the
  members of groups.

  \<^bold>\<open>CVE scan.\<close> \<open>Cve_Report\<close>: summaries, metrics and image lists; \<open>Cve_Sbom\<close>: the inventory of a NixOS
  system; \<open>Cve_Scan\<close>: \<open>Runner\<close>, \<open>Scanner\<close> and \<open>main\<close>; its state keeps every command with its answer. The
  \<open>_Correct\<close> theories: reading metrics back, which commands reach a host, what each result of a night rests on,
  which exceptions leave a run.

  \<^bold>\<open>Directory applier.\<close> \<open>Ad_Apply\<close> models \<open>apply_krg_ad.py\<close>; \<open>Ad_Correct\<close> proves under the documented
  laws of samba-tool's group commands that a run merges the plan into the directory and that a second
  one only looks.

  \<^bold>\<open>Drift detector.\<close> \<open>Drift\<close>: the readers, the comparisons, the run, the metrics and the exit code.

  \<^bold>\<open>Garage applier\<close> (\<open>apply_garage.py\<close>). \<open>Garage_Config\<close>: render-config, deploy, layout, render-ui-config
  and deploy-ui; \<open>Garage_Sync\<close>: buckets, CORS rules, keys, grants and the dispatch. \<open>Garage_Looks\<close>: what a
  run may do to its host. \<open>Garage_Files\<close>: what an atomic write leaves behind. \<open>Garage_Toml\<close>: a reader of
  TOML, written from its specification, that reads the rendered file back. \<open>Garage_Smooth\<close>: a run with nothing
  in its way succeeds, and what a backslash does to the file. \<open>Garage_Buckets\<close>,
  \<open>Garage_Keys\<close>: runs against a server that does what Garage documents. The wait for the daemon has 30
  units of fuel; a poll sleeps three seconds of a timeout of 90, so a clock that follows the sleeps
  ends it before (\<open>ready_wait_ends\<close>).

  \<^bold>\<open>DSM appliers.\<close> \<open>Webapi\<close> has the helpers that each \<open>apply_*.py\<close> of the NAS carries a copy of: running
  synowebapi, converting values, comparing, printing the outcome. \<open>Dsm_Services\<close>, \<open>Dsm_System\<close>, \<open>Dsm_Acls\<close>,
  \<open>Dsm_Quotas\<close>, \<open>Dsm_Users\<close> and \<open>Dsm_Ssh\<close> have one definition per subcommand. \<open>Webapi_Facts\<close>: the locale
  \<open>settings\<close>, in which a program that reads, compares and writes back is proved to converge, and \<open>wish\<close>,
  which gives it for the subcommands of the common form. \<open>Dsm_Reads\<close>: what \<open>--check\<close> may do.
  \<open>Dsm_Ssh_Safe\<close>, \<open>Dsm_Ssh_Calm\<close>: what the transaction over the SSH daemon's three files does under failures, and
  on a host without any.
  \<open>Dsm_Settled\<close> interprets \<open>wish\<close> for six subcommands and follows what \<open>do_ntp\<close> sends. \<open>Dsm_Acls_Facts\<close> relates the
  applier of share permissions to the drift detector, which must read the same grants as the same tiers.
  \<^bold>\<open>How properties read.\<close> The theories named \<open>_Claims\<close> hold the properties: safety under every failure,
  the end states of complete runs, refinement of what a run promises, round trips, and the errors the
  code lets through, each with a concrete run where it has hypotheses.

  \<^bold>\<open>Simplifications.\<close> Floats are rational numbers. Texts are lists of bytes; methods on letters know
  ASCII. A JSON object is an association list with distinct keys and numbers in it are integers. Lines
  sent to a log are not part of a state. A parsed command line is a record; \<open>argparse\<close> itself is the
  standard library's. Requests are kept before they are encoded.

  \<^bold>\<open>Not modelled.\<close> The registration of the Temporal worker and workflow (calls into that library
  only), \<open>run-sync.py\<close> (calls into Django's models and a two-second poll), the one-off scan under \<open>security/claude-extension\<close>, and
  the remaining NAS appliers, which are listed in the manifest; shell, Nix, Terraform and Ansible sources
  are other languages.
\<close>

end
